(* ===== verification/JsPrelude.thy ===== *)
theory JsPrelude
  imports Main "HOL-Library.Char_ord" "HOL-Library.List_Lexorder" "HOL-Library.Code_Target_Nat"
begin

text \<open>
  What every component shares: the fragment of JavaScript's values and string operations the
  sources use, results that carry an error, decimal printing and reading, and the loop shape
  ``keep the first element of every key'' that several components repeat.

  Strings are \<^typ>\<open>string\<close>, read as UTF-8 bytes. Every length, slice and index the sources take is on a
  string that a regular expression has already restricted to ASCII, or on an address; only the
  display glyphs (the em dash and the minus sign of format.ts) and the Unicode blanks that
  \<open>trim\<close> removes are longer than one byte. \<open>toLowerCase\<close> is modelled on the ASCII letters, the only
  ones an address or a hash can hold.

  A JavaScript \<open>bigint\<close> is an \<^typ>\<open>int\<close>. A \<open>number\<close> that is an integer is an \<^typ>\<open>int\<close> as well (chain ids,
  block numbers, bps); the rounding of integers above 2^53 is not modelled.
\<close>

named_theorems js_str \<open>rewriting of the string operations on concrete shapes\<close>
named_theorems res_elims \<open>how a chain of fallible steps can succeed\<close>

section \<open>Results that carry an error\<close>

definition res_bind :: "'e + 'a \<Rightarrow> ('a \<Rightarrow> 'e + 'b) \<Rightarrow> 'e + 'b" where
  "res_bind r f = (case r of Inl e \<Rightarrow> Inl e | Inr a \<Rightarrow> f a)"

definition ensure :: "bool \<Rightarrow> 'e \<Rightarrow> 'e + unit" where
  "ensure b e = (if b then Inr () else Inl e)"

definition of_option :: "'e \<Rightarrow> 'a option \<Rightarrow> 'e + 'a" where
  "of_option e x = (case x of None \<Rightarrow> Inl e | Some a \<Rightarrow> Inr a)"

fun map_res :: "('a \<Rightarrow> 'e + 'b) \<Rightarrow> 'a list \<Rightarrow> 'e + 'b list" where
  "map_res f [] = Inr []"
| "map_res f (x # xs) = res_bind (f x) (\<lambda>y. res_bind (map_res f xs) (\<lambda>ys. Inr (y # ys)))"

definition is_ok :: "'e + 'a \<Rightarrow> bool" where
  "is_ok r = (case r of Inl _ \<Rightarrow> False | Inr _ \<Rightarrow> True)"

section \<open>JavaScript values\<close>

text \<open>
  What the sources call \<open>unknown\<close>: a decoded JSON document, an RPC answer, the variables of a write.
  \<open>JFloat f\<close> stands for a number that is not an integer, strictly between \<open>f\<close> and \<open>f + 1\<close>;
  \<open>NaN\<close> and the infinities, which neither JSON nor an RPC answer can hold, are left out. The entries of an object are listed in the
  order of \<open>Object.entries\<close> and their keys are distinct.
\<close>

datatype js =
    JUndef
  | JNull
  | JBool bool
  | JNum int
  | JFloat int
  | JBig int
  | JStr string
  | JArr "js list"
  | JObj "(string \<times> js) list"

definition is_record :: "js \<Rightarrow> bool" where
  "is_record v = (case v of JObj _ \<Rightarrow> True | _ \<Rightarrow> False)"

definition entries :: "js \<Rightarrow> (string \<times> js) list" where
  "entries v = (case v of JObj kvs \<Rightarrow> kvs | _ \<Rightarrow> [])"

definition jget :: "js \<Rightarrow> string \<Rightarrow> js" where
  "jget v k = (case v of JObj kvs \<Rightarrow> (case map_of kvs k of None \<Rightarrow> JUndef | Some x \<Rightarrow> x) | _ \<Rightarrow> JUndef)"

definition jput :: "js \<Rightarrow> string \<Rightarrow> js \<Rightarrow> js" where
  "jput v k x = (case v of JObj kvs \<Rightarrow>
     JObj (if k \<in> set (map fst kvs) then map (\<lambda>(k', y). if k' = k then (k', x) else (k', y)) kvs
           else kvs @ [(k, x)])
     | _ \<Rightarrow> v)"

definition jstr :: "js \<Rightarrow> string option" where
  "jstr v = (case v of JStr s \<Rightarrow> Some s | _ \<Rightarrow> None)"

definition jnullish :: "js \<Rightarrow> bool" where
  "jnullish v = (v = JUndef \<or> v = JNull)"

definition jcoalesce :: "js \<Rightarrow> js \<Rightarrow> js" where
  "jcoalesce v w = (if jnullish v then w else v)"

definition array_nth :: "js list \<Rightarrow> nat \<Rightarrow> js" where
  "array_nth xs i = (if i < length xs then xs ! i else JUndef)"

text \<open>JavaScript truthiness.\<close>

definition truthy :: "js \<Rightarrow> bool" where
  "truthy v = (case v of JUndef \<Rightarrow> False | JNull \<Rightarrow> False | JBool b \<Rightarrow> b | JNum n \<Rightarrow> n \<noteq> 0
     | JFloat _ \<Rightarrow> True | JBig n \<Rightarrow> n \<noteq> 0 | JStr t \<Rightarrow> t \<noteq> [] | JArr _ \<Rightarrow> True | JObj _ \<Rightarrow> True)"

section \<open>Characters and strings\<close>

abbreviation char_code :: "char \<Rightarrow> nat" where
  "char_code c \<equiv> of_char c"

definition is_digit :: "char \<Rightarrow> bool" where
  "is_digit c = (48 \<le> char_code c \<and> char_code c \<le> 57)"

definition is_hex_char :: "char \<Rightarrow> bool" where
  "is_hex_char c = (is_digit c \<or> (65 \<le> char_code c \<and> char_code c \<le> 70) \<or> (97 \<le> char_code c \<and> char_code c \<le> 102))"

definition is_lower_hex_char :: "char \<Rightarrow> bool" where
  "is_lower_hex_char c = (is_digit c \<or> (97 \<le> char_code c \<and> char_code c \<le> 102))"

definition is_alnum :: "char \<Rightarrow> bool" where
  "is_alnum c = (is_digit c \<or> (65 \<le> char_code c \<and> char_code c \<le> 90) \<or> (97 \<le> char_code c \<and> char_code c \<le> 122))"

text \<open>The class \<open>\w\<close> of a regular expression.\<close>

definition is_word_char :: "char \<Rightarrow> bool" where
  "is_word_char c = (is_alnum c \<or> c = CHR ''_'')"

definition lc_char :: "char \<Rightarrow> char" where
  "lc_char c = (if 65 \<le> char_code c \<and> char_code c \<le> 90 then char_of (char_code c + 32) else c)"

definition lc :: "string \<Rightarrow> string" where
  "lc s = map lc_char s"

definition same_address :: "string \<Rightarrow> string \<Rightarrow> bool" where
  "same_address a b = (lc a = lc b)"

text \<open>The regular expressions \<open>^0x[0-9a-fA-F]{n}$\<close> and \<open>^0x[0-9a-fA-F]*$\<close>.\<close>

definition hex_prefixed :: "string \<Rightarrow> bool" where
  "hex_prefixed s = (take 2 s = ''0x'' \<and> list_all is_hex_char (drop 2 s))"

definition hex_of_len :: "nat \<Rightarrow> string \<Rightarrow> bool" where
  "hex_of_len n s = (hex_prefixed s \<and> length s = n + 2)"

definition zero_of_len :: "nat \<Rightarrow> string \<Rightarrow> bool" where
  "zero_of_len n s = (s = ''0x'' @ replicate n (CHR ''0''))"

abbreviation zero_address :: string where
  "zero_address \<equiv> ''0x0000000000000000000000000000000000000000''"

definition starts_with :: "string \<Rightarrow> string \<Rightarrow> bool" where
  "starts_with p s = (take (length p) s = p)"

fun str_includes :: "string \<Rightarrow> string \<Rightarrow> bool" where
  "str_includes p [] = (p = [])"
| "str_includes p (c # s) = (starts_with p (c # s) \<or> str_includes p s)"

fun join :: "string \<Rightarrow> string list \<Rightarrow> string" where
  "join sep [] = []"
| "join sep [s] = s"
| "join sep (s # t # ts) = s @ sep @ join sep (t # ts)"

fun split_on :: "char \<Rightarrow> string \<Rightarrow> string list" where
  "split_on d [] = [[]]"
| "split_on d (c # s) =
     (if c = d then [] # split_on d s
      else (case split_on d s of [] \<Rightarrow> [[c]] | w # ws \<Rightarrow> (c # w) # ws))"

definition pad_start :: "nat \<Rightarrow> string \<Rightarrow> string" where
  "pad_start n s = replicate (n - length s) (CHR ''0'') @ s"

definition pad_end :: "nat \<Rightarrow> string \<Rightarrow> string" where
  "pad_end n s = s @ replicate (n - length s) (CHR ''0'')"

definition last_chars :: "nat \<Rightarrow> string \<Rightarrow> string" where
  "last_chars n s = drop (length s - n) s"

text \<open>\<open>s.replace(/0+$/, "")\<close>\<close>

definition strip_zeros :: "string \<Rightarrow> string" where
  "strip_zeros s = rev (dropWhile (\<lambda>c. c = CHR ''0'') (rev s))"

subsection \<open>Trimming\<close>

text \<open>
  The white space and line terminators \<open>String.prototype.trim\<close> removes, as UTF-8: the ASCII blanks,
  U+00A0, U+1680, U+2000 to U+200A, U+2028, U+2029, U+202F, U+205F, U+3000 and U+FEFF.
\<close>

definition ascii_blank :: "char \<Rightarrow> bool" where
  "ascii_blank c = (char_code c = 32 \<or> (9 \<le> char_code c \<and> char_code c \<le> 13))"

definition wide_blanks :: "nat list list" where
  "wide_blanks =
     [[0xC2, 0xA0], [0xE1, 0x9A, 0x80], [0xE2, 0x80, 0xA8], [0xE2, 0x80, 0xA9], [0xE2, 0x80, 0xAF],
      [0xE2, 0x81, 0x9F], [0xE3, 0x80, 0x80], [0xEF, 0xBB, 0xBF]]
     @ map (\<lambda>i. [0xE2, 0x80, 0x80 + i]) [0..<11]"

definition blank_len :: "nat list list \<Rightarrow> string \<Rightarrow> nat" where
  "blank_len wide s =
     (case s of [] \<Rightarrow> 0
      | c # _ \<Rightarrow>
          if ascii_blank c then 1
          else (case find (\<lambda>w. map char_code (take (length w) s) = w) wide of None \<Rightarrow> 0 | Some w \<Rightarrow> length w))"

function trim_start :: "nat list list \<Rightarrow> string \<Rightarrow> string" where
  "trim_start wide s =
     (if blank_len wide s = 0 \<or> s = [] then s else trim_start wide (drop (blank_len wide s) s))"
  by pat_completeness auto
termination
  by (relation "measure (\<lambda>(w, s). length s)") auto

declare trim_start.simps [simp del]

definition trim :: "string \<Rightarrow> string" where
  "trim s = rev (trim_start (map rev wide_blanks) (rev (trim_start wide_blanks s)))"

section \<open>Decimal numbers\<close>

definition digit_char :: "nat \<Rightarrow> char" where
  "digit_char d = char_of (48 + d)"

definition digit_val :: "char \<Rightarrow> nat" where
  "digit_val c = char_code c - 48"

fun show_nat :: "nat \<Rightarrow> string" where
  "show_nat n = (if n < 10 then [digit_char n] else show_nat (n div 10) @ [digit_char (n mod 10)])"

declare show_nat.simps [simp del]

definition show_int :: "int \<Rightarrow> string" where
  "show_int i = (if i < 0 then ''-'' @ show_nat (nat (- i)) else show_nat (nat i))"

definition read_nat :: "string \<Rightarrow> nat" where
  "read_nat s = foldl (\<lambda>a c. 10 * a + digit_val c) 0 s"

definition all_digits :: "string \<Rightarrow> bool" where
  "all_digits s = (s \<noteq> [] \<and> list_all is_digit s)"

definition show_bool :: "bool \<Rightarrow> string" where
  "show_bool b = (if b then ''true'' else ''false'')"

text \<open>Division and remainder of a \<open>bigint\<close>, which truncate towards zero.\<close>

definition bigint_div :: "int \<Rightarrow> int \<Rightarrow> int" where
  "bigint_div a b = (if (a < 0) = (b < 0) then \<bar>a\<bar> div \<bar>b\<bar> else - (\<bar>a\<bar> div \<bar>b\<bar>))"

definition bigint_mod :: "int \<Rightarrow> int \<Rightarrow> int" where
  "bigint_mod a b = a - b * bigint_div a b"

definition hex_val :: "char \<Rightarrow> nat" where
  "hex_val c = (if is_digit c then char_code c - 48 else if 97 \<le> char_code c then char_code c - 87 else char_code c - 55)"

definition read_hex :: "string \<Rightarrow> nat" where
  "read_hex s = foldl (\<lambda>a c. 16 * a + hex_val c) 0 s"

text \<open>
  \<open>Number(v)\<close> where the result is an integer: the RPC quantities (\<open>0x...\<close>), decimal digits, numbers,
  booleans and null. \<^const>\<open>None\<close> stands for \<open>NaN\<close> and for a number that is not an integer; a decimal literal
  with a sign, a fraction or an exponent is read as such.
\<close>

definition js_number :: "js \<Rightarrow> int option" where
  "js_number v = (case v of
       JNull \<Rightarrow> Some 0
     | JBool b \<Rightarrow> Some (if b then 1 else 0)
     | JNum n \<Rightarrow> Some n
     | JBig n \<Rightarrow> Some n
     | JStr s \<Rightarrow>
         let t = trim s in
         if t = [] then Some 0
         else if take 2 (lc t) = ''0x'' \<and> 2 < length t \<and> list_all is_hex_char (drop 2 t)
         then Some (int (read_hex (drop 2 t)))
         else if all_digits t then Some (int (read_nat t)) else None
     | _ \<Rightarrow> None)"

text \<open>
  \<open>BigInt.toLocaleString("en-US")\<close>: groups of three digits from the right, separated by commas.
\<close>

function group3 :: "string \<Rightarrow> string" where
  "group3 s = (if length s \<le> 3 then s
     else group3 (take (length s - 3) s) @ '','' @ drop (length s - 3) s)"
  by pat_completeness auto
termination
  by (relation "measure length") auto

declare group3.simps [simp del]

section \<open>Facts on results\<close>

lemma res_bind_simps [simp]:
  "res_bind (Inl e) f = Inl e"
  "res_bind (Inr a) f = f a"
  by (simp_all add: res_bind_def)

lemma res_bind_Inr [simp]: "res_bind r f = Inr b \<longleftrightarrow> (\<exists>a. r = Inr a \<and> f a = Inr b)"
  by (cases r) auto

lemma res_bind_Inl: "res_bind r f = Inl e \<longleftrightarrow> r = Inl e \<or> (\<exists>a. r = Inr a \<and> f a = Inl e)"
  by (cases r) auto

lemma ensure_Inr [simp]: "ensure b e = Inr u \<longleftrightarrow> b"
  by (simp add: ensure_def)

lemma ensure_Inl [simp]: "ensure b e = Inl e' \<longleftrightarrow> \<not> b \<and> e' = e"
  by (auto simp: ensure_def)

lemma ensure_simps [simp]: "ensure True e = Inr ()" "ensure False e = Inl e"
  by (simp_all add: ensure_def)

lemma of_option_Inr [simp]: "of_option e x = Inr a \<longleftrightarrow> x = Some a"
  by (cases x) (auto simp: of_option_def)

lemma of_option_simps [simp]: "of_option e None = Inl e" "of_option e (Some a) = Inr a"
  by (simp_all add: of_option_def)

lemma is_ok_iff: "is_ok r \<longleftrightarrow> (\<exists>a. r = Inr a)"
  by (cases r) (auto simp: is_ok_def)

lemma is_ok_simps [simp]: "is_ok (Inr a)" "\<not> is_ok (Inl e)"
  by (simp_all add: is_ok_def)

lemma map_res_Inr: "map_res f xs = Inr ys \<longleftrightarrow> list_all2 (\<lambda>x y. f x = Inr y) xs ys"
proof (induction xs arbitrary: ys)
  case Nil
  then show ?case by auto
next
  case (Cons x xs)
  then show ?case by (cases ys) auto
qed

lemma map_res_set:
  assumes "map_res f xs = Inr ys" and "y \<in> set ys"
  shows "\<exists>x \<in> set xs. f x = Inr y"
  using assms
proof (induction xs arbitrary: ys)
  case (Cons x xs)
  then show ?case by auto
qed simp

lemma map_res_set2:
  assumes "map_res f xs = Inr ys" and "x \<in> set xs"
  shows "\<exists>y \<in> set ys. f x = Inr y"
  using assms
proof (induction xs arbitrary: ys)
  case (Cons x xs)
  then show ?case by auto
qed simp

section \<open>Facts on characters and strings\<close>

lemma code_char_of [simp]: "n < 256 \<Longrightarrow> char_code (char_of n) = n"
  by (simp add: of_char_of)

lemma code_lt [simp]: "char_code c < 256"
  by (metis mod_less_divisor of_char_mod_256 zero_less_numeral)

lemma lc_char_idem [simp]: "lc_char (lc_char c) = lc_char c"
  by (simp add: lc_char_def)

lemma lc_idem [simp]: "lc (lc s) = lc s"
  by (simp add: lc_def)

lemma length_lc [simp]: "length (lc s) = length s"
  by (simp add: lc_def)

lemma lc_Nil [simp]: "lc [] = []" and lc_Nil_iff [simp]: "lc s = [] \<longleftrightarrow> s = []"
  by (simp_all add: lc_def)

lemma lc_append: "lc (s @ t) = lc s @ lc t"
  by (simp add: lc_def)

lemma lc_take: "lc (take n s) = take n (lc s)" and lc_drop: "lc (drop n s) = drop n (lc s)"
  by (simp_all add: lc_def take_map drop_map)

lemma lc_char_lower_hex [simp]: "is_lower_hex_char c \<Longrightarrow> lc_char c = c"
  by (auto simp: is_lower_hex_char_def lc_char_def is_digit_def)

lemma is_hex_char_lc [simp]: "is_hex_char c \<Longrightarrow> is_lower_hex_char (lc_char c)"
  by (auto simp: is_hex_char_def is_lower_hex_char_def lc_char_def is_digit_def)

lemma lower_hex_is_hex: "is_lower_hex_char c \<Longrightarrow> is_hex_char c"
  by (auto simp: is_hex_char_def is_lower_hex_char_def)

lemma lc_0x: "lc ''0x'' = ''0x''"
  by code_simp

lemma hex_prefixed_lc: "hex_prefixed s \<Longrightarrow> hex_prefixed (lc s)"
  unfolding hex_prefixed_def
  by (auto simp: list_all_iff lc_0x lower_hex_is_hex simp flip: lc_take lc_drop)
    (auto simp: lc_def lower_hex_is_hex)

lemma hex_of_len_lc: "hex_of_len n s \<Longrightarrow> hex_of_len n (lc s)"
  by (simp add: hex_of_len_def hex_prefixed_lc)

lemma same_address_refl [simp]: "same_address a a"
  by (simp add: same_address_def)

lemma same_address_sym: "same_address a b = same_address b a"
  by (auto simp: same_address_def)

lemma same_address_trans: "same_address a b \<Longrightarrow> same_address b c \<Longrightarrow> same_address a c"
  by (simp add: same_address_def)

lemma length_zero_address [simp]: "length zero_address = 42"
  by simp

subsection \<open>Trimming leaves solid strings alone\<close>

definition solid :: "char \<Rightarrow> bool" where
  "solid c = (char_code c < 128 \<and> \<not> ascii_blank c)"

lemma wide_blank_bytes: "w \<in> set wide_blanks \<Longrightarrow> w \<noteq> [] \<and> (\<forall>b \<in> set w. 128 \<le> b)"
  by (auto simp: wide_blanks_def)

lemma blank_len_solid:
  assumes "\<forall>w \<in> set wide. w \<noteq> [] \<and> (\<forall>b \<in> set w. 128 \<le> b)" and "solid c"
  shows "blank_len wide (c # s) = 0"
proof -
  have "\<not> map char_code (take (length w) (c # s)) = w" if "w \<in> set wide" for w
  proof
    assume eq: "map char_code (take (length w) (c # s)) = w"
    with assms(1) that have "w \<noteq> []" by simp
    then obtain b w' where w: "w = b # w'" by (cases w) auto
    with eq have "b = char_code c" by simp
    with assms that w show False by (auto simp: solid_def)
  qed
  then have "find (\<lambda>w. map char_code (take (length w) (c # s)) = w) wide = None"
    by (simp add: find_None_iff)
  with assms(2) show ?thesis by (simp add: blank_len_def solid_def)
qed

lemma trim_start_solid:
  assumes "\<forall>w \<in> set wide. w \<noteq> [] \<and> (\<forall>b \<in> set w. 128 \<le> b)" and "s \<noteq> []" and "solid (hd s)"
  shows "trim_start wide s = s"
  using assms blank_len_solid [of wide "hd s" "tl s"]
  by (subst trim_start.simps) simp

lemma trim_start_Nil [simp]: "trim_start wide [] = []"
  by (subst trim_start.simps) simp

lemma trim_Nil [simp]: "trim [] = []"
  by (simp add: trim_def)

lemma trim_solid:
  assumes "s \<noteq> []" and "solid (hd s)" and "solid (last s)"
  shows "trim s = s"
proof -
  have "trim_start wide_blanks s = s"
    using wide_blank_bytes assms(1,2) by (intro trim_start_solid) auto
  moreover have "trim_start (map rev wide_blanks) (rev s) = rev s"
    using wide_blank_bytes assms(1,3) by (intro trim_start_solid) (auto simp: hd_rev)
  ultimately show ?thesis by (simp add: trim_def)
qed

lemma digit_solid: "is_digit c \<Longrightarrow> solid c"
  by (auto simp: is_digit_def solid_def ascii_blank_def)

lemma hex_solid: "is_hex_char c \<Longrightarrow> solid c"
  by (auto simp: is_hex_char_def is_digit_def solid_def ascii_blank_def)

lemma x_solid [simp]: "solid (CHR ''0'')" "solid (CHR ''x'')"
  by (simp_all add: solid_def ascii_blank_def)

lemma hex_prefixed_shape:
  "hex_prefixed s \<Longrightarrow> \<exists>t. s = ''0x'' @ t \<and> list_all is_hex_char t"
  unfolding hex_prefixed_def by (metis append_take_drop_id)

lemma hex_prefixed_trim: "hex_prefixed s \<Longrightarrow> trim s = s"
proof -
  assume "hex_prefixed s"
  then obtain t where s: "s = ''0x'' @ t" and t: "list_all is_hex_char t"
    using hex_prefixed_shape by blast
  have "solid (last s)"
  proof (cases t rule: rev_cases)
    case Nil
    then show ?thesis by (simp add: s)
  next
    case (snoc t' c)
    with t have "is_hex_char c" by simp
    then show ?thesis by (simp add: s snoc hex_solid)
  qed
  then show ?thesis by (intro trim_solid) (simp_all add: s)
qed

section \<open>Facts on decimal numbers\<close>

lemma bigint_div_nonneg: "0 \<le> a \<Longrightarrow> 0 < b \<Longrightarrow> bigint_div a b = a div b"
  by (simp add: bigint_div_def)

lemma bigint_mod_nonneg: "0 \<le> a \<Longrightarrow> 0 < b \<Longrightarrow> bigint_mod a b = a mod b"
  by (simp add: bigint_mod_def bigint_div_nonneg minus_mult_div_eq_mod)

lemma is_digit_digit_char [simp]: "d < 10 \<Longrightarrow> is_digit (digit_char d)"
  by (simp add: is_digit_def digit_char_def)

lemma digit_val_digit_char [simp]: "d < 10 \<Longrightarrow> digit_val (digit_char d) = d"
  by (simp add: digit_val_def digit_char_def)

lemma digit_char_0: "digit_char 0 = CHR ''0''"
  by code_simp

lemma digit_val_0 [simp]: "digit_val (CHR ''0'') = 0"
  by (simp add: digit_val_def)

lemma is_digit_0 [simp]: "is_digit (CHR ''0'')"
  by (simp add: is_digit_def)

lemma digit_val_lt: "is_digit c \<Longrightarrow> digit_val c < 10"
  by (auto simp: digit_val_def is_digit_def)

lemma read_nat_Nil [simp]: "read_nat [] = 0"
  by (simp add: read_nat_def)

lemma read_nat_snoc [simp]: "read_nat (s @ [c]) = 10 * read_nat s + digit_val c"
  by (simp add: read_nat_def)

lemma read_nat_append: "read_nat (s @ t) = read_nat s * 10 ^ length t + read_nat t"
proof (induction t rule: rev_induct)
  case (snoc c t)
  then show ?case
    by (simp add: algebra_simps flip: append_assoc)
qed simp

lemma read_nat_zeros [simp]: "read_nat (replicate n (CHR ''0'')) = 0"
proof (induction n)
  case (Suc n)
  have "replicate (Suc n) (CHR ''0'') = replicate n (CHR ''0'') @ [CHR ''0'']"
    by (simp add: replicate_append_same)
  with Suc show ?case by (metis add_0 digit_val_0 mult_0_right read_nat_snoc)
qed simp

lemma read_nat_lt: "list_all is_digit s \<Longrightarrow> read_nat s < 10 ^ length s"
proof (induction s rule: rev_induct)
  case (snoc c s)
  then have "read_nat s < 10 ^ length s" and "digit_val c < 10"
    by (auto simp: digit_val_lt)
  then show ?case by simp
qed simp

lemma show_nat_digits [simp]: "list_all is_digit (show_nat n)"
proof (induction n rule: show_nat.induct)
  case (1 n)
  then show ?case by (subst show_nat.simps) auto
qed

lemma show_nat_neq_Nil [simp]: "show_nat n \<noteq> []"
  by (subst show_nat.simps) simp

lemma all_digits_show_nat [simp]: "all_digits (show_nat n)"
  by (simp add: all_digits_def)

lemma read_show_nat [simp]: "read_nat (show_nat n) = n"
proof (induction n rule: show_nat.induct)
  case (1 n)
  show ?case
  proof (cases "n < 10")
    case True
    then show ?thesis by (subst show_nat.simps) (simp add: read_nat_def)
  next
    case False
    with 1 have "read_nat (show_nat (n div 10)) = n div 10" by simp
    with False show ?thesis by (subst show_nat.simps) simp
  qed
qed

lemma show_nat_inject [simp]: "show_nat m = show_nat n \<longleftrightarrow> m = n"
  by (metis read_show_nat)

lemma length_show_nat_le: "n < 10 ^ k \<Longrightarrow> 0 < k \<Longrightarrow> length (show_nat n) \<le> k"
proof (induction n arbitrary: k rule: show_nat.induct)
  case (1 n)
  show ?case
  proof (cases "n < 10")
    case True
    with 1 show ?thesis by (subst show_nat.simps) simp
  next
    case False
    then obtain j where k: "k = Suc j" using 1 by (cases k) auto
    have "n div 10 < 10 ^ j" using 1 k by (simp add: less_mult_imp_div_less mult.commute)
    moreover have "0 < j"
      using 1 False k by (cases j) auto
    ultimately have "length (show_nat (n div 10)) \<le> j" using 1 False by simp
    with False k show ?thesis by (subst show_nat.simps) simp
  qed
qed

lemma digits_hd_solid: "all_digits s \<Longrightarrow> solid (hd s) \<and> solid (last s)"
  by (cases s) (auto simp: all_digits_def list_all_iff intro: digit_solid)

lemma not_digit_chars [simp]:
  "\<not> is_digit (CHR ''.'')" "\<not> is_digit (CHR '','')" "\<not> is_digit (CHR ''|'')" "\<not> is_digit (CHR ''-'')"
  by (simp_all add: is_digit_def)

lemma show_int_digits: "set (show_int i) \<subseteq> {c. is_digit c} \<union> {CHR ''-''}"
  using show_nat_digits by (auto simp: show_int_def list_all_iff)

lemma show_int_inject [simp]: "show_int i = show_int j \<longleftrightarrow> i = j"
proof
  assume eq: "show_int i = show_int j"
  have "CHR ''-'' # t \<noteq> show_nat n" for t n
  proof
    assume "CHR ''-'' # t = show_nat n"
    then have "list_all is_digit (CHR ''-'' # t)" by simp
    then show False by simp
  qed
  note this [simp] this [symmetric, simp]
  from eq show "i = j"
    by (auto simp: show_int_def split: if_splits)
qed simp

subsection \<open>Padding and trailing zeros\<close>

lemma read_nat_pad_start [simp]: "read_nat (pad_start n s) = read_nat s"
  by (simp add: pad_start_def read_nat_append)

lemma length_pad_start: "length (pad_start n s) = max n (length s)"
  by (simp add: pad_start_def)

lemma length_pad_end: "length (pad_end n s) = max n (length s)"
  by (simp add: pad_end_def)

lemma read_nat_pad_end: "length s \<le> n \<Longrightarrow> read_nat (pad_end n s) = read_nat s * 10 ^ (n - length s)"
  by (simp add: pad_end_def read_nat_append)

lemma digits_pad [simp]:
  "list_all is_digit (pad_start n s) = list_all is_digit s"
  "list_all is_digit (pad_end n s) = list_all is_digit s"
  by (auto simp: pad_start_def pad_end_def list_all_iff)

lemma strip_zeros_snoc: "strip_zeros (s @ [c]) = (if c = CHR ''0'' then strip_zeros s else s @ [c])"
  by (simp add: strip_zeros_def)

lemma strip_zeros_split: "\<exists>k. s = strip_zeros s @ replicate k (CHR ''0'')"
proof (induction s rule: rev_induct)
  case Nil
  then show ?case by (simp add: strip_zeros_def)
next
  case (snoc c s)
  then obtain k where k: "s = strip_zeros s @ replicate k (CHR ''0'')" ..
  show ?case
  proof (cases "c = CHR ''0''")
    case True
    then have "s @ [c] = strip_zeros s @ replicate (Suc k) (CHR ''0'')"
      by (subst k) (simp add: replicate_append_same)
    with True show ?thesis by (metis strip_zeros_snoc)
  next
    case False
    then show ?thesis by (auto simp: strip_zeros_snoc intro: exI [of _ 0])
  qed
qed

lemma strip_zeros_digits: "list_all is_digit s \<Longrightarrow> list_all is_digit (strip_zeros s)"
  by (metis list_all_append strip_zeros_split)

lemma length_strip_zeros: "length (strip_zeros s) \<le> length s"
  by (metis le_add1 length_append strip_zeros_split)

lemma read_nat_strip_zeros:
  "read_nat s = read_nat (strip_zeros s) * 10 ^ (length s - length (strip_zeros s))"
proof -
  obtain k where k: "s = strip_zeros s @ replicate k (CHR ''0'')" using strip_zeros_split by blast
  then have "length s - length (strip_zeros s) = k" by (metis add_diff_cancel_left' length_append length_replicate)
  then show ?thesis using k by (metis add.right_neutral length_replicate read_nat_append read_nat_zeros)
qed

subsection \<open>Joining and splitting\<close>

lemma split_on_neq_Nil [simp]: "split_on d s \<noteq> []"
  by (induction s) (auto split: list.splits)

lemma split_on_plain: "d \<notin> set s \<Longrightarrow> split_on d s = [s]"
  by (induction s) auto

lemma split_on_append: "d \<notin> set s \<Longrightarrow> split_on d (s @ d # t) = s # split_on d t"
  by (induction s) auto

lemma split_on_join:
  "xs \<noteq> [] \<Longrightarrow> \<forall>x \<in> set xs. d \<notin> set x \<Longrightarrow> split_on d (join [d] xs) = xs"
proof (induction xs rule: induct_list012)
  case (3 x y zs)
  then show ?case by (simp add: split_on_append)
qed (simp_all add: split_on_plain)

lemma join_inject:
  assumes "join [d] xs = join [d] ys" and "length xs = length ys"
    and "\<forall>x \<in> set xs. d \<notin> set x" and "\<forall>y \<in> set ys. d \<notin> set y"
  shows "xs = ys"
proof (cases "xs = []")
  case True
  with assms(2) show ?thesis by simp
next
  case False
  then have "ys \<noteq> []" using assms(2) by auto
  with False assms show ?thesis by (metis split_on_join)
qed

section \<open>Keep the first element of every key\<close>

text \<open>
  Several loops of the sources walk a list with a \<open>seen\<close> set of keys, skip what they do not want or have
  seen, and push the rest. The locale is the contract of such a loop; its lemmas say that the result
  has distinct keys, holds exactly the wanted elements, and keeps their order.
\<close>

locale first_wins =
  fixes key :: "'a \<Rightarrow> 'k"
    and wanted :: "'a \<Rightarrow> bool"
    and push :: "'a \<Rightarrow> 'b"
    and run :: "'k list \<Rightarrow> 'a list \<Rightarrow> 'b list"
  assumes run_Nil: "run seen [] = []"
    and run_skip: "\<not> wanted x \<or> key x \<in> set seen \<Longrightarrow> run seen (x # xs) = run seen xs"
    and run_take: "wanted x \<Longrightarrow> key x \<notin> set seen \<Longrightarrow> run seen (x # xs) = push x # run (key x # seen) xs"
begin

lemma run_members:
  "b \<in> set (run seen xs) \<Longrightarrow> \<exists>x \<in> set xs. wanted x \<and> key x \<notin> set seen \<and> b = push x"
proof (induction xs arbitrary: seen)
  case Nil
  then show ?case by (simp add: run_Nil)
next
  case (Cons x xs)
  then show ?case
    by (cases "\<not> wanted x \<or> key x \<in> set seen") (fastforce simp: run_skip run_take)+
qed

lemma run_keys_complete:
  "x \<in> set xs \<Longrightarrow> wanted x \<Longrightarrow> key x \<notin> set seen \<Longrightarrow>
     \<exists>y \<in> set xs. key y = key x \<and> push y \<in> set (run seen xs)"
proof (induction xs arbitrary: seen)
  case (Cons z xs)
  show ?case
  proof (cases "\<not> wanted z \<or> key z \<in> set seen")
    case True
    with Cons show ?thesis by (auto simp: run_skip)
  next
    case False
    show ?thesis
    proof (cases "key z = key x")
      case True
      with False show ?thesis by (auto simp: run_take)
    next
      case neq: False
      with False Cons.prems have "x \<in> set xs" and "key x \<notin> set (key z # seen)" by auto
      with Cons.IH [of "key z # seen"] Cons.prems(2) False show ?thesis by (auto simp: run_take)
    qed
  qed
qed simp

lemma run_distinct:
  assumes "\<And>x. wanted x \<Longrightarrow> key' (push x) = key x"
  shows "distinct (map key' (run seen xs)) \<and> set (map key' (run seen xs)) \<inter> set seen = {}"
proof (induction xs arbitrary: seen)
  case Nil
  then show ?case by (simp add: run_Nil)
next
  case (Cons x xs)
  show ?case
  proof (cases "\<not> wanted x \<or> key x \<in> set seen")
    case True
    with Cons show ?thesis by (simp add: run_skip)
  next
    case False
    with Cons [of "key x # seen"] assms [of x] show ?thesis by (auto simp: run_take)
  qed
qed

lemma run_covers:
  assumes "\<And>x. wanted x \<Longrightarrow> key' (push x) = key x"
  shows "x \<in> set xs \<Longrightarrow> wanted x \<Longrightarrow> key x \<notin> set seen \<Longrightarrow> key x \<in> set (map key' (run seen xs))"
proof (induction xs arbitrary: seen)
  case (Cons z xs)
  show ?case
  proof (cases "\<not> wanted z \<or> key z \<in> set seen")
    case True
    with Cons show ?thesis by (auto simp: run_skip)
  next
    case False
    with assms [of z] have z: "key' (push z) = key z" by simp
    show ?thesis
    proof (cases "key z = key x")
      case True
      with False z show ?thesis by (simp add: run_take)
    next
      case neq: False
      with False Cons.prems have "x \<in> set xs" and "key x \<notin> set (key z # seen)" by auto
      with Cons.IH [of "key z # seen"] Cons.prems(2) False show ?thesis by (simp add: run_take)
    qed
  qed
qed simp

lemma run_length: "length (run seen xs) \<le> length xs"
proof (induction xs arbitrary: seen)
  case (Cons x xs)
  show ?case
  proof (cases "\<not> wanted x \<or> key x \<in> set seen")
    case True
    with Cons show ?thesis by (simp add: run_skip le_SucI)
  next
    case False
    with Cons show ?thesis by (simp add: run_take)
  qed
qed (simp add: run_Nil)

lemma run_fixed:
  "\<forall>x \<in> set xs. wanted x \<and> key x \<notin> set seen \<Longrightarrow> distinct (map key xs) \<Longrightarrow> run seen xs = map push xs"
proof (induction xs arbitrary: seen)
  case (Cons x xs)
  have "\<forall>y \<in> set xs. wanted y \<and> key y \<notin> set (key x # seen)"
    using Cons.prems by (metis (no_types) distinct.simps(2) image_eqI list.set_intros(2) list.set_map list.simps(9) set_ConsD)
  with Cons show ?case by (simp add: run_take)
qed (simp add: run_Nil)

end

section \<open>Check the first element of every key\<close>

text \<open>
  The same walk where each new element is checked and a refusal ends it: it succeeds exactly when the
  first element of every key passes.
\<close>

locale checked_loop =
  fixes ckey :: "'a \<Rightarrow> 'k"
    and check :: "'a \<Rightarrow> 'e + unit"
    and crun :: "'k list \<Rightarrow> 'a list \<Rightarrow> 'e + unit"
  assumes crun_Nil: "crun seen [] = Inr ()"
    and crun_seen: "ckey x \<in> set seen \<Longrightarrow> crun seen (x # xs) = crun seen xs"
    and crun_new: "ckey x \<notin> set seen \<Longrightarrow> crun seen (x # xs) = res_bind (check x) (\<lambda>_. crun (ckey x # seen) xs)"
begin

lemma crun_ok:
  "crun seen xs = Inr () \<Longrightarrow> x \<in> set xs \<Longrightarrow> ckey x \<notin> set seen \<Longrightarrow>
     \<exists>y \<in> set xs. ckey y = ckey x \<and> check y = Inr ()"
proof (induction xs arbitrary: seen)
  case (Cons z xs)
  show ?case
  proof (cases "ckey z \<in> set seen")
    case True
    with Cons show ?thesis by (auto simp: crun_seen)
  next
    case False
    with Cons.prems have z: "check z = Inr ()" and rest: "crun (ckey z # seen) xs = Inr ()"
      by (auto simp: crun_new)
    show ?thesis
    proof (cases "ckey z = ckey x")
      case True
      with z show ?thesis by auto
    next
      case neq: False
      with Cons.prems have "x \<in> set xs" "ckey x \<notin> set (ckey z # seen)" by auto
      with Cons.IH [OF rest] show ?thesis by auto
    qed
  qed
qed simp

lemma crun_complete: "\<forall>x \<in> set xs. check x = Inr () \<Longrightarrow> crun seen xs = Inr ()"
proof (induction xs arbitrary: seen)
  case (Cons z xs)
  then show ?case by (cases "ckey z \<in> set seen") (simp_all add: crun_seen crun_new)
qed (simp add: crun_Nil)

lemma crun_refused: "crun seen xs = Inl e \<Longrightarrow> \<exists>x \<in> set xs. check x = Inl e"
proof (induction xs arbitrary: seen)
  case (Cons z xs)
  then show ?case by (cases "ckey z \<in> set seen") (auto simp: crun_seen crun_new res_bind_Inl)
qed (simp add: crun_Nil)

end

section \<open>A list kept sorted by key, one element per key\<close>

locale keyed_store =
  fixes skey :: "'a \<Rightarrow> 'k :: linorder"
    and add :: "'a list \<Rightarrow> 'a \<Rightarrow> 'a list"
  assumes add_set: "set (add xs x) = {y \<in> set xs. skey y \<noteq> skey x} \<union> {x}"
    and add_sorted: "sorted (map skey (add xs x))"
    and add_distinct: "distinct (map skey xs) \<Longrightarrow> distinct (map skey (add xs x))"
begin

lemma same_elements:
  assumes "sorted (map skey xs)" and "distinct (map skey xs)" and "sorted (map skey ys)" and "distinct (map skey ys)"
    and "set xs = set ys"
  shows "xs = ys"
proof -
  have "map skey xs = map skey ys"
    using assms by (intro sorted_distinct_set_unique) simp_all
  moreover have "inj_on skey (set xs \<union> set ys)" using assms(2,5) by (simp add: distinct_map)
  ultimately show ?thesis by (rule map_inj_on)
qed

lemma add_last_wins: "y \<in> set (add xs x) \<Longrightarrow> skey y = skey x \<Longrightarrow> y = x"
  by (auto simp: add_set)

lemma add_commute:
  assumes "distinct (map skey xs)" and "skey x \<noteq> skey y"
  shows "add (add xs x) y = add (add xs y) x"
  using assms by (intro same_elements) (auto simp: add_sorted add_distinct add_set)

lemma add_again:
  assumes "distinct (map skey xs)"
  shows "add (add xs x) x = add xs x"
  using assms by (intro same_elements) (auto simp: add_sorted add_distinct add_set)

lemma add_present:
  assumes "distinct (map skey xs)" and "sorted (map skey xs)" and "x \<in> set xs"
  shows "add xs x = xs"
proof (rule same_elements)
  have "{y \<in> set xs. skey y \<noteq> skey x} \<union> {x} = set xs"
    using assms(1,3) by (auto simp: distinct_map inj_on_def)
  then show "set (add xs x) = set xs" by (simp add: add_set)
qed (use assms in \<open>simp_all add: add_sorted add_distinct\<close>)

end

end
