(* ===== verification/Amounts.thy ===== *)
theory Amounts
  imports JsPrelude
begin

text \<open>
  \<open>clients/dapp/src/lib/format.ts\<close>: how the dapp prints a base-unit amount and how it reads a typed
  one. The printers truncate, never round up; the reader is exact and refuses anything that is not
  a positive uint256. \<open>formatPrice\<close> and \<open>formatPercentFromNumber\<close> print binary64 floats and are not
  modelled.
\<close>

section \<open>Constants\<close>

text \<open>The em dash U+2014 and the minus sign U+2212, as UTF-8.\<close>

definition PLACEHOLDER :: string where
  "PLACEHOLDER = [CHR 0xE2, CHR 0x80, CHR 0x94]"

definition MINUS_SIGN :: string where
  "MINUS_SIGN = [CHR 0xE2, CHR 0x88, CHR 0x92]"

definition USDC_DECIMALS :: nat where "USDC_DECIMALS = 6"

definition VIRTUAL_SHARE_OFFSET :: nat where "VIRTUAL_SHARE_OFFSET = 18"

definition SHARE_DECIMALS :: nat where "SHARE_DECIMALS = USDC_DECIMALS + VIRTUAL_SHARE_OFFSET"

definition shareDisplayDecimals :: "nat \<Rightarrow> nat" where
  "shareDisplayDecimals vaultDecimals = vaultDecimals + VIRTUAL_SHARE_OFFSET"

definition UINT256_MAX :: int where "UINT256_MAX = 2 ^ 256 - 1"

definition UNBOUNDED_FROM :: int where "UNBOUNDED_FROM = 2 ^ 255"

definition UNKNOWN :: string where "UNKNOWN = ''unknown''"

definition NEUTRAL_SHARE_SYMBOL :: string where "NEUTRAL_SHARE_SYMBOL = ''shares''"

section \<open>Printing\<close>

definition bigintToDecimalString :: "int \<Rightarrow> nat \<Rightarrow> nat \<Rightarrow> nat \<Rightarrow> string" where
  "bigintToDecimalString raw decimals maxFrac minFrac =
     (let negative = raw < 0;
          abs = nat (if negative then - raw else raw);
          scale = 10 ^ decimals;
          whole = abs div scale;
          fracRaw = abs mod scale;
          cap = min maxFrac decimals;
          floor = min minFrac cap;
          fracFull = pad_start decimals (show_nat fracRaw);
          fracCut = take cap fracFull;
          frac0 = strip_zeros fracCut;
          frac = (if length frac0 < floor then pad_end floor frac0 else frac0);
          wholeStr = group3 (show_nat whole);
          sign = (if negative then MINUS_SIGN else [])
      in if abs \<noteq> 0 \<and> whole = 0 \<and> list_all (\<lambda>c. c = CHR ''0'') fracCut
         then sign @ ''<0.'' @ replicate (cap - 1) (CHR ''0'') @ ''1''
         else sign @ (if frac \<noteq> [] then wholeStr @ ''.'' @ frac else wholeStr))"

definition rawStringToBigint :: "string option \<Rightarrow> int option" where
  "rawStringToBigint raw =
     (case raw of None \<Rightarrow> None
      | Some s \<Rightarrow> if all_digits (trim s) then Some (int (read_nat (trim s))) else None)"

definition formatUsdc :: "int option \<Rightarrow> string" where
  "formatUsdc raw =
     (case raw of None \<Rightarrow> PLACEHOLDER | Some v \<Rightarrow> bigintToDecimalString v USDC_DECIMALS 6 2 @ '' USDC'')"

definition formatUsdcString :: "string option \<Rightarrow> string" where
  "formatUsdcString raw = formatUsdc (rawStringToBigint raw)"

definition formatUsdcCapString :: "string option \<Rightarrow> string" where
  "formatUsdcCapString raw =
     (case rawStringToBigint raw of None \<Rightarrow> UNKNOWN
      | Some v \<Rightarrow> if v \<ge> UNBOUNDED_FROM then ''unlimited'' else formatUsdc (Some v))"

definition formatShares :: "int option \<Rightarrow> string \<Rightarrow> nat \<Rightarrow> string" where
  "formatShares raw symbol decimals =
     (case raw of None \<Rightarrow> PLACEHOLDER
      | Some v \<Rightarrow> bigintToDecimalString v decimals 6 2 @ '' '' @ symbol)"

definition shareSymbolOrNeutral :: "string option \<Rightarrow> string" where
  "shareSymbolOrNeutral raw =
     (case raw of None \<Rightarrow> NEUTRAL_SHARE_SYMBOL
      | Some s \<Rightarrow> if list_all is_alnum s \<and> 1 \<le> length s \<and> length s \<le> 16 then s else NEUTRAL_SHARE_SYMBOL)"

definition formatSharesString :: "string option \<Rightarrow> string \<Rightarrow> string" where
  "formatSharesString raw symbol = formatShares (rawStringToBigint raw) symbol SHARE_DECIMALS"

definition formatEth :: "int option \<Rightarrow> string" where
  "formatEth raw =
     (case raw of None \<Rightarrow> PLACEHOLDER | Some v \<Rightarrow> bigintToDecimalString v 18 4 2 @ '' ETH'')"

definition formatTokenBalance :: "int option \<Rightarrow> nat \<Rightarrow> string \<Rightarrow> nat \<Rightarrow> string" where
  "formatTokenBalance raw decimals symbol maxFrac =
     (case raw of None \<Rightarrow> PLACEHOLDER
      | Some v \<Rightarrow>
          let dec = bigintToDecimalString v decimals maxFrac 2
          in if symbol \<noteq> [] then dec @ '' '' @ symbol else dec)"

text \<open>\<open>formatInputAmount\<close> fills an input with a balance, so its argument is not negative.\<close>

definition formatInputAmount :: "nat \<Rightarrow> nat \<Rightarrow> string" where
  "formatInputAmount raw decimals =
     (let scale = 10 ^ decimals;
          frac = strip_zeros (pad_start decimals (show_nat (raw mod scale)));
          whole = show_nat (raw div scale)
      in if frac \<noteq> [] then whole @ ''.'' @ frac else whole)"

definition formatPercent :: "int option \<Rightarrow> string" where
  "formatPercent bps =
     (case bps of None \<Rightarrow> PLACEHOLDER
      | Some b \<Rightarrow>
          let negative = b < 0;
              abs = nat (if negative then - b else b);
              formatted = show_nat (abs div 100) @ ''.'' @ pad_start 2 (show_nat (abs mod 100)) @ ''%''
          in if negative then MINUS_SIGN @ formatted else formatted)"

definition formatBps :: "int option \<Rightarrow> string" where
  "formatBps bps = (case bps of None \<Rightarrow> PLACEHOLDER | Some b \<Rightarrow> show_int b @ ''bps'')"

section \<open>Reading\<close>

definition int_part :: "string \<Rightarrow> string" where
  "int_part t = takeWhile (\<lambda>c. c \<noteq> CHR ''.'') t"

definition frac_rest :: "string \<Rightarrow> string" where
  "frac_rest t = dropWhile (\<lambda>c. c \<noteq> CHR ''.'') t"

text \<open>\<open>(\.\d+)?$\<close>\<close>

definition frac_ok :: "string \<Rightarrow> bool" where
  "frac_ok r = (case r of [] \<Rightarrow> True | _ # ds \<Rightarrow> all_digits ds)"

text \<open>\<open>^\d{1,3}(,\d{3})+(\.\d+)?$\<close>\<close>

definition grouped_amount :: "string \<Rightarrow> bool" where
  "grouped_amount t =
     (case split_on (CHR '','') (int_part t) of
        g # gs \<Rightarrow> all_digits g \<and> length g \<le> 3 \<and> gs \<noteq> []
           \<and> list_all (\<lambda>h. list_all is_digit h \<and> length h = 3) gs \<and> frac_ok (frac_rest t)
      | [] \<Rightarrow> False)"

text \<open>\<open>^\d+(\.\d+)?$\<close>\<close>

definition plain_amount :: "string \<Rightarrow> bool" where
  "plain_amount t = (all_digits (int_part t) \<and> frac_ok (frac_rest t))"

definition parseTokenAmount :: "string \<Rightarrow> nat \<Rightarrow> int option" where
  "parseTokenAmount input decimals =
     (let t0 = trim input
      in if t0 = [] then None
         else let t = (if grouped_amount t0 then filter (\<lambda>c. c \<noteq> CHR '','') t0 else t0)
              in if \<not> plain_amount t then None
                 else let whole = int_part t; frac = tl (frac_rest t)
                      in if length frac > decimals then None
                         else let v = int (read_nat whole * 10 ^ decimals + read_nat (pad_end decimals frac))
                              in if v = 0 \<or> v > UINT256_MAX then None else Some v)"

definition parseUsdcAmount :: "string \<Rightarrow> int option" where
  "parseUsdcAmount input = parseTokenAmount input USDC_DECIMALS"

definition parseSharesAmount :: "string \<Rightarrow> int option" where
  "parseSharesAmount input = parseTokenAmount input SHARE_DECIMALS"

section \<open>Facts on the printed digits\<close>

definition amount_text :: "string \<Rightarrow> string \<Rightarrow> string" where
  "amount_text w f = (if f \<noteq> [] then w @ ''.'' @ f else w)"

lemma split_on_append_last: "d \<notin> set t \<Longrightarrow> split_on d (s @ d # t) = split_on d s @ [t]"
  by (induction s) (auto simp: split_on_plain split: list.splits)

lemma digits_no_comma: "list_all is_digit s \<Longrightarrow> CHR '','' \<notin> set s \<and> CHR ''.'' \<notin> set s"
  by (auto simp: list_all_iff)

lemma group3_split:
  assumes "list_all is_digit s" and "s \<noteq> []"
  shows "\<exists>g gs. split_on (CHR '','') (group3 s) = g # gs \<and> all_digits g \<and> length g \<le> 3
           \<and> list_all (\<lambda>h. list_all is_digit h \<and> length h = 3) gs \<and> (gs \<noteq> [] \<longleftrightarrow> 3 < length s)"
  using assms
proof (induction s rule: group3.induct)
  case (1 s)
  show ?case
  proof (cases "length s \<le> 3")
    case True
    with 1 show ?thesis
      by (subst group3.simps) (auto simp: split_on_plain digits_no_comma all_digits_def)
  next
    case False
    let ?a = "take (length s - 3) s" and ?b = "drop (length s - 3) s"
    have dig: "list_all is_digit ?a" "list_all is_digit ?b"
      using 1(2) by (metis append_take_drop_id list_all_append)+
    have ne: "take (length s - 3) s \<noteq> []" using False by auto
    obtain g gs where g: "split_on (CHR '','') (group3 ?a) = g # gs" "all_digits g" "length g \<le> 3"
        "list_all (\<lambda>h. list_all is_digit h \<and> length h = 3) gs"
      using 1(1) [OF False dig(1) ne] by blast
    have "split_on (CHR '','') (group3 s) = (g # gs) @ [?b]"
      using False dig g(1)
      by (subst group3.simps) (simp add: split_on_append_last digits_no_comma)
    with g dig False show ?thesis by auto
  qed
qed

lemma group3_filter: "CHR '','' \<notin> set s \<Longrightarrow> filter (\<lambda>c. c \<noteq> CHR '','') (group3 s) = s"
proof (induction s rule: group3.induct)
  case (1 s)
  have no: "CHR '','' \<notin> set (take (length s - 3) s)" "CHR '','' \<notin> set (drop (length s - 3) s)"
    using 1(2) in_set_takeD in_set_dropD by metis+
  have plain: "filter (\<lambda>c. c \<noteq> CHR '','') u = u" if "CHR '','' \<notin> set u" for u :: string
    using that by (auto simp: filter_id_conv)
  show ?case
  proof (cases "length s \<le> 3")
    case True
    with 1(2) show ?thesis by (subst group3.simps) (simp add: plain)
  next
    case False
    with 1(1) [OF False no(1)] no(2) show ?thesis by (subst group3.simps) (simp add: plain)
  qed
qed

lemma group3_chars: "set (group3 s) \<subseteq> insert (CHR '','') (set s)"
proof (induction s rule: group3.induct)
  case (1 s)
  then show ?case
    by (subst group3.simps) (auto dest: in_set_takeD in_set_dropD)
qed

lemma group3_solid:
  assumes "all_digits s"
  shows "group3 s \<noteq> [] \<and> is_digit (hd (group3 s)) \<and> is_digit (last (group3 s))"
  using assms
proof (induction s rule: group3.induct)
  case (1 s)
  show ?case
  proof (cases "length s \<le> 3")
    case True
    with 1(2) show ?thesis by (subst (1 2 3) group3.simps) (cases s; auto simp: all_digits_def list_all_iff)
  next
    case False
    have dig: "all_digits (take (length s - 3) s)" "all_digits (drop (length s - 3) s)"
      using 1(2) False unfolding all_digits_def
      by (auto simp: list_all_iff dest: in_set_takeD in_set_dropD)
    with 1(1) [OF False] have "group3 (take (length s - 3) s) \<noteq> []"
      "is_digit (hd (group3 (take (length s - 3) s)))" by auto
    moreover have "is_digit (last (drop (length s - 3) s))"
      using dig(2) by (metis all_digits_def last_in_set list_all_iff)
    ultimately show ?thesis using False dig(2)
      by (subst (1 2 3) group3.simps) (auto simp: all_digits_def)
  qed
qed

lemma parts_of_text:
  assumes "CHR ''.'' \<notin> set w"
  shows "int_part (amount_text w f) = w" and "frac_rest (amount_text w f) = (if f \<noteq> [] then ''.'' @ f else [])"
proof -
  have tw: "takeWhile (\<lambda>c. c \<noteq> CHR ''.'') w = w" and dw: "dropWhile (\<lambda>c. c \<noteq> CHR ''.'') w = []"
    using assms by (auto simp: takeWhile_eq_all_conv dropWhile_eq_Nil_conv)
  have all: "\<And>x. x \<in> set w \<Longrightarrow> x \<noteq> CHR ''.''" using assms by auto
  show "int_part (amount_text w f) = w"
    using tw by (simp add: int_part_def amount_text_def takeWhile_append2 all)
  show "frac_rest (amount_text w f) = (if f \<noteq> [] then ''.'' @ f else [])"
    using dw by (simp add: frac_rest_def amount_text_def dropWhile_append2 all)
qed

text \<open>
  Reading back a text \<open>w[.f]\<close> whose integer part is plain digits or is grouped: the one lemma both
  round trips rest on.
\<close>

lemma parse_text:
  assumes g: "g = w \<or> (g = group3 w \<and> 3 < length w)" and w: "all_digits w" and f: "list_all is_digit f"
    and len: "length f \<le> d" and v: "v = int (read_nat w * 10 ^ d + read_nat (pad_end d f))"
    and range: "0 < v" "v \<le> UINT256_MAX"
  shows "parseTokenAmount (amount_text g f) d = Some v"
proof -
  have wd: "list_all is_digit w" and wne: "w \<noteq> []" using w by (auto simp: all_digits_def)
  have gchars: "set g \<subseteq> insert (CHR '','') (set w)" using g group3_chars by auto
  have dot: "CHR ''.'' \<notin> set g" "CHR ''.'' \<notin> set w" using gchars digits_no_comma [OF wd] by auto
  have gs: "g \<noteq> []" "is_digit (hd g)" "is_digit (last g)"
    using g group3_solid [OF w] w by (auto simp: all_digits_def list_all_iff)
  have lastt: "is_digit (last (amount_text g f))"
    using gs f by (auto simp: amount_text_def list_all_iff)
  have hdt: "amount_text g f \<noteq> []" "is_digit (hd (amount_text g f))" using gs by (auto simp: amount_text_def)
  have tr: "trim (amount_text g f) = amount_text g f"
    using hdt lastt by (intro trim_solid) (auto intro: digit_solid)
  have fr: "frac_ok (frac_rest (amount_text u f))" if "CHR ''.'' \<notin> set u" for u
    using f that by (auto simp: frac_ok_def parts_of_text all_digits_def)
  have plain: "filter (\<lambda>c. c \<noteq> CHR '','') (amount_text u f) = amount_text (filter (\<lambda>c. c \<noteq> CHR '','') u) f" for u
    using digits_no_comma [OF f] by (auto simp: amount_text_def filter_id_conv)
  have norm: "(if grouped_amount (amount_text g f)
      then filter (\<lambda>c. c \<noteq> CHR '','') (amount_text g f) else amount_text g f) = amount_text w f"
  proof (cases "g = w")
    case True
    have "filter (\<lambda>c. c \<noteq> CHR '','') w = w"
      using digits_no_comma [OF wd] by (auto simp: filter_id_conv)
    with True plain [of w] show ?thesis by simp
  next
    case False
    with g have g3: "g = group3 w" "3 < length w" by auto
    then have "grouped_amount (amount_text g f)"
      using group3_split [OF wd wne] fr [OF dot(1)] parts_of_text(1) [OF dot(1), of f]
      by (auto simp: grouped_amount_def)
    then show ?thesis
      using plain [of g] g3 group3_filter digits_no_comma [OF wd] by simp
  qed
  have "plain_amount (amount_text w f)"
    using w fr [OF dot(2)] by (simp add: plain_amount_def parts_of_text dot)
  then show ?thesis
    unfolding parseTokenAmount_def Let_def tr norm
    using hdt(1) len range v by (auto simp: parts_of_text dot)
qed

lemma read_nat_take:
  assumes "list_all is_digit s"
  shows "read_nat (take k s) = read_nat s div 10 ^ (length s - k)"
proof -
  have "read_nat s = read_nat (take k s) * 10 ^ (length s - k) + read_nat (drop k s)"
    using read_nat_append [of "take k s" "drop k s"] by simp
  moreover have "read_nat (drop k s) < 10 ^ (length s - k)"
    using assms read_nat_lt [of "drop k s"] by (simp add: list_all_iff) (metis in_set_dropD)
  ultimately show ?thesis by (simp add: div_add1_eq)
qed

lemma pad_end_pad_end: "k \<le> d \<Longrightarrow> length s \<le> d \<Longrightarrow> pad_end d (pad_end k s) = pad_end d s"
  by (simp add: pad_end_def flip: replicate_add)

lemma pad_end_strip: "length s \<le> d \<Longrightarrow> pad_end d (strip_zeros s) = pad_end d s"
proof -
  assume len: "length s \<le> d"
  obtain k where k: "s = strip_zeros s @ replicate k (CHR ''0'')" using strip_zeros_split by blast
  then have "length s = length (strip_zeros s) + k" by (metis length_append length_replicate)
  with len have "replicate (d - length (strip_zeros s)) (CHR ''0'')
      = replicate k (CHR ''0'') @ replicate (d - length s) (CHR ''0'')"
    by (simp flip: replicate_add)
  with k show ?thesis unfolding pad_end_def by (metis append_assoc)
qed

lemma length_frac_full:
  "0 < d \<Longrightarrow> r < 10 ^ d \<Longrightarrow> length (pad_start d (show_nat r)) = d"
  using length_show_nat_le [of r d] by (simp add: length_pad_start)

text \<open>The fraction digits of \<open>r < 10 ^ d\<close>, cut to \<open>k \<le> d\<close> places: what reading them back gives.\<close>

lemma read_frac_cut:
  assumes "0 < d" and "r < 10 ^ d" and "k \<le> d"
  shows "read_nat (pad_end d (take k (pad_start d (show_nat r)))) = r - r mod 10 ^ (d - k)"
proof -
  let ?f = "pad_start d (show_nat r)"
  have len: "length ?f = d" using assms length_frac_full by simp
  have "read_nat (pad_end d (take k ?f)) = read_nat (take k ?f) * 10 ^ (d - k)"
    using len assms by (simp add: read_nat_pad_end)
  also have "read_nat (take k ?f) = r div 10 ^ (d - k)"
    using read_nat_take [of ?f k] len by simp
  also have "r div 10 ^ (d - k) * 10 ^ (d - k) = r - r mod 10 ^ (d - k)"
    by (metis minus_mod_eq_div_mult)
  finally show ?thesis .
qed

section \<open>Round trips\<close>

lemma formatInputAmount_text:
  "formatInputAmount raw d =
     amount_text (show_nat (raw div 10 ^ d)) (strip_zeros (pad_start d (show_nat (raw mod 10 ^ d))))"
  by (simp add: formatInputAmount_def amount_text_def Let_def)

text \<open>
  Filling the amount input with a balance and reading it back gives the balance, for every
  positive uint256 amount and every number of decimals.
\<close>

theorem parse_formatInputAmount:
  assumes "0 < x" and "int x \<le> UINT256_MAX"
  shows "parseTokenAmount (formatInputAmount x d) d = Some (int x)"
proof -
  let ?r = "x mod 10 ^ d" and ?f = "strip_zeros (pad_start d (show_nat (x mod 10 ^ d)))"
  have "length ?f \<le> d \<and> read_nat (pad_end d ?f) = ?r"
  proof (cases "d = 0")
    case True
    have "strip_zeros (pad_start 0 (show_nat 0)) = []" by code_simp
    with True show ?thesis by (simp add: pad_end_def)
  next
    case False
    then have len: "length (pad_start d (show_nat ?r)) = d" by (simp add: length_frac_full)
    with False read_frac_cut [of d ?r d] length_strip_zeros [of "pad_start d (show_nat ?r)"]
    show ?thesis by (simp add: pad_end_strip)
  qed
  moreover from this have "read_nat (show_nat (x div 10 ^ d)) * 10 ^ d + read_nat (pad_end d ?f) = x"
    by (metis div_mult_mod_eq read_show_nat)
  ultimately show ?thesis unfolding formatInputAmount_text
    using assms by (intro parse_text [where w = "show_nat (x div 10 ^ d)"]) (simp_all add: strip_zeros_digits)
qed

theorem parse_formatInputAmount_witness:
  "formatInputAmount 1500000 6 = ''1.5'' \<and> parseTokenAmount ''1.5'' 6 = Some 1500000"
proof -
  have eq: "formatInputAmount 1500000 6 = ''1.5''" by code_simp
  have "parseTokenAmount (formatInputAmount 1500000 6) 6 = Some (int 1500000)"
    by (rule parse_formatInputAmount) (simp_all add: UINT256_MAX_def)
  with eq show ?thesis by simp
qed

lemma plain_amount_text:
  assumes "plain_amount t"
  shows "t = amount_text (int_part t) (tl (frac_rest t))" and "all_digits (int_part t)"
    and "list_all is_digit (tl (frac_rest t))" and "CHR '','' \<notin> set t"
proof -
  have t: "t = int_part t @ frac_rest t" by (simp add: int_part_def frac_rest_def)
  show w: "all_digits (int_part t)" using assms by (simp add: plain_amount_def)
  have f: "frac_rest t = [] \<or> (\<exists>ds. frac_rest t = CHR ''.'' # ds \<and> all_digits ds)"
  proof (cases "frac_rest t")
    case (Cons c ds)
    then have "c = CHR ''.''" by (simp add: frac_rest_def dropWhile_eq_Cons_conv)
    with Cons assms show ?thesis by (simp add: plain_amount_def frac_ok_def)
  qed simp
  then show "list_all is_digit (tl (frac_rest t))" by (auto simp: all_digits_def)
  have "amount_text (int_part t) (tl (frac_rest t)) = int_part t @ frac_rest t"
    using f by (auto simp: amount_text_def all_digits_def)
  with t show "t = amount_text (int_part t) (tl (frac_rest t))" by simp
  have "CHR '','' \<notin> set (int_part t @ frac_rest t)"
    using w f by (auto simp: all_digits_def dest: digits_no_comma)
  with t show "CHR '','' \<notin> set t" by metis
qed

text \<open>
  The displayed figure. \<open>shown x d m\<close> is what is left of \<open>x\<close> after the digits past the \<open>m\<close>-th fraction
  digit are cut off.
\<close>

definition shown :: "nat \<Rightarrow> nat \<Rightarrow> nat \<Rightarrow> nat" where
  "shown x d m = x - x mod 10 ^ (d - min m d)"

lemma all_zero_read: "list_all is_digit s \<Longrightarrow> list_all (\<lambda>c. c = CHR ''0'') s \<longleftrightarrow> read_nat s = 0"
proof (induction s rule: rev_induct)
  case (snoc c s)
  then have "is_digit c" by simp
  then have "digit_val c = 0 \<longleftrightarrow> char_code c = char_code (CHR ''0'')"
    by (auto simp: digit_val_def is_digit_def)
  then have "digit_val c = 0 \<longleftrightarrow> c = CHR ''0''" by (metis of_char_eq_iff)
  with snoc show ?case by auto
qed simp

lemma decimal_string_digits:
  assumes "0 < d"
    and ct_def: "ct = take (min m d) (pad_start d (show_nat (x mod 10 ^ d)))"
    and frac_def: "frac = (if length (strip_zeros ct) < min k (min m d)
                     then pad_end (min k (min m d)) (strip_zeros ct) else strip_zeros ct)"
  shows "list_all is_digit ct" and "list_all is_digit frac" and "length frac \<le> d"
    and "x div 10 ^ d * 10 ^ d + read_nat (pad_end d frac) = shown x d m"
    and "list_all (\<lambda>c. c = CHR ''0'') ct \<longleftrightarrow> x mod 10 ^ d < 10 ^ (d - min m d)"
proof -
  let ?r = "x mod 10 ^ d" and ?c = "min m d"
  have full: "length (pad_start d (show_nat ?r)) = d" using assms(1) by (simp add: length_frac_full)
  then have lcut: "length ct = ?c" by (simp add: ct_def)
  show dcut: "list_all is_digit ct"
    unfolding ct_def by (simp add: list_all_iff) (metis digits_pad(1) in_set_takeD list_all_iff show_nat_digits)
  show "list_all is_digit frac" using dcut by (simp add: frac_def strip_zeros_digits)
  show "length frac \<le> d"
    using lcut length_strip_zeros [of ct] by (auto simp: frac_def length_pad_end)
  have "pad_end d frac = pad_end d ct"
    using lcut length_strip_zeros [of ct] by (auto simp: frac_def pad_end_pad_end pad_end_strip)
  then have pf: "read_nat (pad_end d frac) = ?r - ?r mod 10 ^ (d - ?c)"
    using read_frac_cut [OF assms(1), of ?r ?c] by (simp add: ct_def)
  have "?r mod 10 ^ (d - ?c) = x mod 10 ^ (d - ?c)"
    by (rule mod_mod_cancel) (simp add: le_imp_power_dvd)
  with pf show "x div 10 ^ d * 10 ^ d + read_nat (pad_end d frac) = shown x d m"
    unfolding shown_def by (metis (no_types, lifting) Nat.add_diff_assoc div_mult_mod_eq mod_less_eq_dividend)
  have "read_nat ct = ?r div 10 ^ (d - ?c)"
    using read_nat_take [of "pad_start d (show_nat ?r)" ?c] full by (simp add: ct_def)
  then show "list_all (\<lambda>c. c = CHR ''0'') ct \<longleftrightarrow> ?r < 10 ^ (d - ?c)"
    using all_zero_read [OF dcut] by (simp add: div_eq_0_iff)
qed

text \<open>
  What the dapp displays can be typed back: reading the printed text of a positive amount, thousands
  separators included, gives the amount cut to the displayed digits. It never exceeds the amount and is
  short of it by less than one unit of the last displayed digit.
\<close>

theorem parse_bigintToDecimalString:
  assumes "0 < d" and "int x \<le> UINT256_MAX" and "10 ^ (d - min m d) \<le> x"
  shows "parseTokenAmount (bigintToDecimalString (int x) d m k) d = Some (int (shown x d m))
    \<and> shown x d m \<le> x \<and> x - shown x d m < 10 ^ (d - min m d)"
proof -
  define ct where "ct = take (min m d) (pad_start d (show_nat (x mod 10 ^ d)))"
  define frac where "frac = (if length (strip_zeros ct) < min k (min m d)
                     then pad_end (min k (min m d)) (strip_zeros ct) else strip_zeros ct)"
  note dig = decimal_string_digits [OF assms(1) ct_def frac_def]
  let ?w = "show_nat (x div 10 ^ d)"
  have notTiny: "\<not> (x div 10 ^ d = 0 \<and> list_all (\<lambda>c. c = CHR ''0'') ct)"
    using assms(3) by (auto simp: dig(5) div_eq_0_iff)
  then have printed: "bigintToDecimalString (int x) d m k = amount_text (group3 ?w) frac"
    unfolding bigintToDecimalString_def Let_def amount_text_def frac_def ct_def
    by (auto simp del: min_less_iff_conj)
  have "x mod 10 ^ (d - min m d) < 10 ^ (d - min m d)" by simp
  with assms(3) have pos: "0 < shown x d m" and le: "shown x d m \<le> x"
    unfolding shown_def by linarith+
  have "group3 ?w = ?w \<or> group3 ?w = group3 ?w \<and> 3 < length ?w"
    by (subst group3.simps) auto
  then have "parseTokenAmount (amount_text (group3 ?w) frac) d = Some (int (shown x d m))"
    using dig pos le assms(2) by (intro parse_text [where w = ?w]) (simp_all flip: of_nat_mult of_nat_add)
  moreover have "x - shown x d m < 10 ^ (d - min m d)" by (simp add: shown_def)
  ultimately show ?thesis using printed le by simp
qed

theorem parse_bigintToDecimalString_witness:
  "bigintToDecimalString 1234567899999 6 2 2 = ''1,234,567.89''
   \<and> parseTokenAmount (bigintToDecimalString 1234567899999 6 2 2) 6 = Some 1234567890000"
proof -
  have eq: "bigintToDecimalString 1234567899999 6 2 2 = ''1,234,567.89''" by code_simp
  have "int 1234567899999 \<le> UINT256_MAX" by (simp add: UINT256_MAX_def)
  then have "parseTokenAmount (bigintToDecimalString (int 1234567899999) 6 2 2) 6
      = Some (int (shown 1234567899999 6 2))"
    using parse_bigintToDecimalString [of 6 1234567899999 2 2] by simp
  moreover have "shown 1234567899999 6 2 = 1234567890000" by code_simp
  ultimately show ?thesis using eq by simp
qed

text \<open>
  The reader never yields an amount a contract call could not carry: what it accepts is a positive
  uint256 no larger than the typed digits allow, and it accepts nothing with more fraction digits than
  the token has decimals.
\<close>

theorem parseTokenAmount_sound:
  assumes "parseTokenAmount input d = Some v"
  shows "0 < v \<and> v \<le> UINT256_MAX
    \<and> (\<exists>whole frac. all_digits whole \<and> list_all is_digit frac \<and> length frac \<le> d
          \<and> filter (\<lambda>c. c \<noteq> CHR '','') (trim input) = amount_text whole frac
          \<and> v = int (read_nat whole * 10 ^ d + read_nat frac * 10 ^ (d - length frac)))"
proof -
  let ?f = "filter (\<lambda>c. c \<noteq> CHR '','')"
  define t where "t = (if grouped_amount (trim input) then ?f (trim input) else trim input)"
  have p: "plain_amount t" and len: "length (tl (frac_rest t)) \<le> d"
    and v: "v = int (read_nat (int_part t) * 10 ^ d + read_nat (pad_end d (tl (frac_rest t))))"
    and range: "v \<noteq> 0" "v \<le> UINT256_MAX"
    using assms unfolding parseTokenAmount_def Let_def t_def [symmetric]
    by (simp_all add: not_less split: if_splits)
  have "0 < v" using v range(1) by (metis of_nat_0_less_iff of_nat_eq_0_iff gr0I)
  note shape = plain_amount_text [OF p]
  have "?f (trim input) = t"
    using shape(4) by (auto simp: t_def filter_id_conv split: if_splits)
  with shape v range \<open>0 < v\<close> len show ?thesis
    by (intro conjI exI [of _ "int_part t"] exI [of _ "tl (frac_rest t)"]) (auto simp: read_nat_pad_end)
qed

theorem parseTokenAmount_sound_witness:
  "parseTokenAmount '' 1,250.5 '' 6 = Some 1250500000 \<and> 0 < (1250500000::int) \<and> 1250500000 \<le> UINT256_MAX"
proof -
  have eq: "parseTokenAmount '' 1,250.5 '' 6 = Some 1250500000" by code_simp
  from eq parseTokenAmount_sound [OF eq] show ?thesis by blast
qed

end
