(* ===== verification/Settings.thy ===== *)
theory Settings
  imports JsPrelude
begin

text \<open>
  How the dapp gets its settings: \<open>runtimeConfig.ts\<close> (the fetched \<open>/config.json\<close> over the build-time
  environment), \<open>buildEnvValidation.ts\<close> (what may be built at all), \<open>chainClassifier.ts\<close>,
  \<open>featureFlags.ts\<close> and \<open>csp.ts\<close>.

  An environment map is a partial function from names to strings. The console warnings are not
  modelled. The text of an error is reduced to its case and the value it names.
\<close>

type_synonym env = "string \<rightharpoonup> string"

section \<open>Runtime configuration\<close>

definition RUNTIME_CONFIG_KEYS :: "string list" where
  "RUNTIME_CONFIG_KEYS =
    [''VITE_GATEWAY_ADDRESS'', ''VITE_VAULT_ADDRESS'', ''VITE_REGISTRY_ADDRESS'', ''VITE_ROUTER_ADDRESS'',
     ''VITE_TIMELOCK_ADDRESS'', ''VITE_SAFE_ADDRESS'', ''VITE_TIMELOCK_DEPLOY_BLOCK'',
     ''VITE_RM_TOKEN_ADDRESS'', ''VITE_VAULT_ADDRESSES'', ''VITE_DEVNET_RPC_URL'', ''VITE_EXPLORER_API_URL'']"

definition BUILD_TIME_ENV_CLASS_KEY :: string where
  "BUILD_TIME_ENV_CLASS_KEY = ''VITE_ENV_CLASS''"

definition MAINNET_RUNTIME_KEYS :: "string list" where
  "MAINNET_RUNTIME_KEYS = [''VITE_EXPLORER_API_URL'', ''VITE_TIMELOCK_DEPLOY_BLOCK'']"

datatype RuntimeConfigError =
    NotAnObject
  | NotAString string
  | FetchRejected
  | HttpError int
  | InvalidJson
  | ClassMismatch js

datatype RuntimeConfigSource = Fetched | BuildTime

record LoadedRuntimeConfig =
  loaded_config :: env
  loaded_source :: RuntimeConfigSource

text \<open>What \<open>fetch\<close> gave: \<open>json\<close> is \<^const>\<open>None\<close> when reading the body as JSON throws.\<close>

record fetch_response =
  resp_ok :: bool
  resp_status :: int
  content_type :: "string option"
  resp_json :: "js option"

text \<open>\<open>json\b\<close> at the head of a string.\<close>

definition json_word :: "string \<Rightarrow> bool" where
  "json_word s = (starts_with ''json'' s \<and> (case drop 4 s of [] \<Rightarrow> True | c # _ \<Rightarrow> \<not> is_word_char c))"

text \<open>\<open>/^application\/([\w.-]+\+)?json\b/i\<close>\<close>

definition isJsonResponse :: "string option \<Rightarrow> bool" where
  "isJsonResponse contentType =
     (let s = lc (trim (case contentType of None \<Rightarrow> [] | Some t \<Rightarrow> t));
          r = drop (length ''application/'') s;
          suffixed = (\<lambda>c. is_word_char c \<or> c = CHR ''.'' \<or> c = CHR ''-'')
      in starts_with ''application/'' s
         \<and> (json_word r
            \<or> (takeWhile suffixed r \<noteq> []
               \<and> (case dropWhile suffixed r of c # r' \<Rightarrow> c = CHR ''+'' \<and> json_word r' | [] \<Rightarrow> False))))"

fun parse_entries :: "(string \<times> js) list \<Rightarrow> env \<Rightarrow> RuntimeConfigError + env" where
  "parse_entries [] parsed = Inr parsed"
| "parse_entries ((key, v) # kvs) parsed =
     (if key \<notin> set RUNTIME_CONFIG_KEYS then parse_entries kvs parsed
      else if jnullish v then parse_entries kvs parsed
      else (case v of JStr s \<Rightarrow> parse_entries kvs (parsed(key \<mapsto> s)) | _ \<Rightarrow> Inl (NotAString key)))"

definition parseRuntimeConfig :: "js \<Rightarrow> RuntimeConfigError + env" where
  "parseRuntimeConfig payload =
     (if \<not> is_record payload then Inl NotAnObject else parse_entries (entries payload) (\<lambda>_. None))"

definition loadRuntimeConfig :: "fetch_response option \<Rightarrow> env \<Rightarrow> RuntimeConfigError + LoadedRuntimeConfig" where
  "loadRuntimeConfig fetched buildEnv =
     (let absent = Inr \<lparr>loaded_config = buildEnv, loaded_source = BuildTime\<rparr>
      in case fetched of None \<Rightarrow> Inl FetchRejected
      | Some response \<Rightarrow>
          if resp_status response = 404 then absent
          else if \<not> resp_ok response then Inl (HttpError (resp_status response))
          else if \<not> isJsonResponse (content_type response) then absent
          else case resp_json response of None \<Rightarrow> Inl InvalidJson
          | Some payload \<Rightarrow>
              let buildClass = buildEnv BUILD_TIME_ENV_CLASS_KEY;
                  mainnetBuild = (buildClass = Some ''mainnet'');
                  claimed = jget payload BUILD_TIME_ENV_CLASS_KEY
              in if mainnetBuild \<and> is_record payload \<and> \<not> jnullish claimed \<and> claimed \<noteq> JStr ''mainnet''
                 then Inl (ClassMismatch claimed)
                 else res_bind (parseRuntimeConfig payload) (\<lambda>overlay.
                   let kept = (if mainnetBuild
                               then (\<lambda>k. if k \<in> set MAINNET_RUNTIME_KEYS then overlay k else None)
                               else overlay);
                       merged = (buildEnv ++ kept)(BUILD_TIME_ENV_CLASS_KEY := buildClass)
                   in Inr \<lparr>loaded_config = merged, loaded_source = Fetched\<rparr>))"

section \<open>Build validation\<close>

datatype DappEnvClass = Fork | Devnet | Testnet | Mainnet

datatype ViteCommand = Build | Serve

datatype build_refusal =
    FaucetKeyOnMainnet
  | FaucetKeyWithoutClass "string option"
  | BadChainId string
  | RealMoneyChainNotMainnet nat
  | MainnetOnOtherChain nat
  | MainnetWithDevnetRpc

definition isDappEnvClass :: "string option \<Rightarrow> DappEnvClass option" where
  "isDappEnvClass v =
     (if v = Some ''fork'' then Some Fork else if v = Some ''devnet'' then Some Devnet
      else if v = Some ''testnet'' then Some Testnet else if v = Some ''mainnet'' then Some Mainnet else None)"

definition key_present :: "env \<Rightarrow> bool" where
  "key_present env = (case env ''VITE_FAUCET_HARNESS_PRIVATE_KEY'' of None \<Rightarrow> False | Some k \<Rightarrow> trim k \<noteq> [])"

definition validateFaucetKeyForBuild :: "env \<Rightarrow> ViteCommand \<Rightarrow> build_refusal + unit" where
  "validateFaucetKeyForBuild env command =
     (if command \<noteq> Build then Inr ()
      else if \<not> key_present env then Inr ()
      else case isDappEnvClass (env ''VITE_ENV_CLASS'') of
          Some Mainnet \<Rightarrow> Inl FaucetKeyOnMainnet
        | None \<Rightarrow> Inl (FaucetKeyWithoutClass (env ''VITE_ENV_CLASS''))
        | Some _ \<Rightarrow> Inr ())"

text \<open>\<open>/^[1-9][0-9]*$/\<close>\<close>

definition positive_integer :: "string \<Rightarrow> bool" where
  "positive_integer s = (case s of [] \<Rightarrow> False | c # r \<Rightarrow> is_digit c \<and> c \<noteq> CHR ''0'' \<and> list_all is_digit r)"

definition env_text :: "env \<Rightarrow> string \<Rightarrow> string" where
  "env_text env k = trim (case env k of None \<Rightarrow> [] | Some s \<Rightarrow> s)"

definition validateEnvClassForChain :: "env \<Rightarrow> ViteCommand \<Rightarrow> build_refusal + unit" where
  "validateEnvClassForChain env command =
     (if command \<noteq> Build then Inr ()
      else let rawChain = env_text env ''VITE_CHAIN_ID''
           in if rawChain \<noteq> [] \<and> \<not> positive_integer rawChain then Inl (BadChainId rawChain)
              else let chainId = (if rawChain = [] then None else Some (read_nat rawChain));
                       mainnet = (env ''VITE_ENV_CLASS'' = Some ''mainnet'')
                   in if (chainId = Some 8453 \<or> chainId = Some 1) \<and> \<not> mainnet
                      then Inl (RealMoneyChainNotMainnet (the chainId))
                      else if mainnet
                      then (case chainId of
                              Some n \<Rightarrow> if n \<noteq> 8453 then Inl (MainnetOnOtherChain n)
                                        else if env_text env ''VITE_DEVNET_RPC_URL'' \<noteq> [] then Inl MainnetWithDevnetRpc
                                        else Inr ()
                            | None \<Rightarrow> if env_text env ''VITE_DEVNET_RPC_URL'' \<noteq> [] then Inl MainnetWithDevnetRpc
                                      else Inr ())
                      else Inr ())"

section \<open>Chain classes and flags\<close>

datatype ChainClass = MainnetChain | TestnetChain

definition MAINNET_CHAIN_IDS :: "int list" where
  "MAINNET_CHAIN_IDS = [1, 8453]"

definition ROBOT_MONEY_DEVNET_CHAIN_ID :: int where
  "ROBOT_MONEY_DEVNET_CHAIN_ID = 918453"

definition classifyChain :: "int \<Rightarrow> ChainClass" where
  "classifyChain chainId =
     (if chainId = 0 then MainnetChain
      else if chainId \<in> set MAINNET_CHAIN_IDS then MainnetChain else TestnetChain)"

definition FAUCET_DRIP_AMOUNT_USDC :: int where
  "FAUCET_DRIP_AMOUNT_USDC = 100000000"

definition FAUCET_DRIP_AMOUNT_ETH :: int where
  "FAUCET_DRIP_AMOUNT_ETH = 10000000000000000"

record FeatureFlags =
  historyPane :: bool

definition DEFAULT_FLAGS :: FeatureFlags where
  "DEFAULT_FLAGS = \<lparr>historyPane = False\<rparr>"

definition resolveFlags :: "env \<Rightarrow> FeatureFlags" where
  "resolveFlags env = \<lparr>historyPane = (env ''VITE_HISTORY_PANE'' = Some ''true'')\<rparr>"

section \<open>Content security policy\<close>

text \<open>A source in single quotes is written with \<open>q\<close>.\<close>

definition q :: "string \<Rightarrow> string" where
  "q s = [CHR 0x27] @ s @ [CHR 0x27]"

definition CLOUDFLARE_BEACON_SCRIPT_ORIGIN :: string where
  "CLOUDFLARE_BEACON_SCRIPT_ORIGIN = ''https://static.cloudflareinsights.com''"

definition CLOUDFLARE_BEACON_CONNECT_ORIGIN :: string where
  "CLOUDFLARE_BEACON_CONNECT_ORIGIN = ''https://cloudflareinsights.com''"

definition CSP_DIRECTIVES :: "(string \<times> string list) list" where
  "CSP_DIRECTIVES =
    [(''default-src'', [q ''self'']),
     (''script-src'', [q ''self'', CLOUDFLARE_BEACON_SCRIPT_ORIGIN]),
     (''style-src'', [q ''self'', q ''unsafe-inline'', ''https://fonts.googleapis.com'']),
     (''font-src'', [q ''self'', ''https://fonts.gstatic.com'', ''data:'']),
     (''img-src'', [q ''self'', ''data:'', ''blob:'']),
     (''connect-src'', [q ''self'', ''https:'', ''wss:'', ''ws:'', ''http://localhost:*'', ''http://127.0.0.1:*'',
        ''http://receipt-fixtures:8097'', CLOUDFLARE_BEACON_CONNECT_ORIGIN]),
     (''worker-src'', [q ''self'', ''blob:'']),
     (''object-src'', [q ''none'']),
     (''base-uri'', [q ''self'']),
     (''frame-ancestors'', [q ''none'']),
     (''form-action'', [q ''self''])]"

definition csp_text :: "(string \<times> string list) list \<Rightarrow> string" where
  "csp_text ds = join ''; '' (map (\<lambda>(name, sources). name @ '' '' @ join '' '' sources) ds)"

definition CSP_POLICY :: string where
  "CSP_POLICY = csp_text CSP_DIRECTIVES"

definition META_IGNORED_DIRECTIVES :: "string list" where
  "META_IGNORED_DIRECTIVES = [''frame-ancestors'', ''report-uri'', ''sandbox'']"

definition CSP_META_POLICY :: string where
  "CSP_META_POLICY = csp_text (filter (\<lambda>(name, _). name \<notin> set META_IGNORED_DIRECTIVES) CSP_DIRECTIVES)"

definition HSTS_HEADER_VALUE :: string where
  "HSTS_HEADER_VALUE = ''max-age=31536000; includeSubDomains; preload''"

section \<open>What the overlay can reach\<close>

lemma parse_entries_dom:
  "parse_entries kvs m = Inr m' \<Longrightarrow> dom m' \<subseteq> dom m \<union> set RUNTIME_CONFIG_KEYS"
proof (induction kvs arbitrary: m)
  case (Cons kv kvs)
  obtain k v where kv: "kv = (k, v)" by (cases kv)
  show ?case
  proof (cases "k \<in> set RUNTIME_CONFIG_KEYS \<and> \<not> jnullish v")
    case True
    with Cons.prems obtain s where "v = JStr s" "parse_entries kvs (m(k \<mapsto> s)) = Inr m'"
      by (auto simp: kv split: js.splits)
    moreover from this have "dom m' \<subseteq> dom (m(k \<mapsto> s)) \<union> set RUNTIME_CONFIG_KEYS" by (intro Cons.IH)
    ultimately show ?thesis using True by auto
  next
    case False
    with Cons.prems have "parse_entries kvs m = Inr m'" by (auto simp: kv split: if_splits)
    then show ?thesis by (rule Cons.IH)
  qed
qed simp

lemma parseRuntimeConfig_dom:
  "parseRuntimeConfig p = Inr overlay \<Longrightarrow> dom overlay \<subseteq> set RUNTIME_CONFIG_KEYS"
  by (auto simp: parseRuntimeConfig_def split: if_splits dest: parse_entries_dom)

lemma class_key_not_runtime: "BUILD_TIME_ENV_CLASS_KEY \<notin> set RUNTIME_CONFIG_KEYS"
  by code_simp

text \<open>The two ways a load succeeds.\<close>

lemma loadRuntimeConfig_cases:
  assumes "loadRuntimeConfig fetched b = Inr l"
  obtains "loaded_config l = b"
  | overlay kept where "dom overlay \<subseteq> set RUNTIME_CONFIG_KEYS"
      and "kept = (if b BUILD_TIME_ENV_CLASS_KEY = Some ''mainnet''
                   then (\<lambda>k. if k \<in> set MAINNET_RUNTIME_KEYS then overlay k else None) else overlay)"
      and "loaded_config l = (b ++ kept)(BUILD_TIME_ENV_CLASS_KEY := b BUILD_TIME_ENV_CLASS_KEY)"
  using assms unfolding loadRuntimeConfig_def Let_def
  by (auto split: option.splits if_splits dest!: parseRuntimeConfig_dom)

lemma config_off_keys:
  assumes "loadRuntimeConfig fetched b = Inr l"
    and "k \<notin> set (if b BUILD_TIME_ENV_CLASS_KEY = Some ''mainnet'' then MAINNET_RUNTIME_KEYS else RUNTIME_CONFIG_KEYS)"
  shows "loaded_config l k = b k"
  using assms(1)
proof (cases rule: loadRuntimeConfig_cases)
  case (2 overlay kept)
  with assms(2) have "kept k = None" by (auto split: if_splits)
  with 2 show ?thesis by (simp add: map_add_def)
qed simp

text \<open>
  The env class and everything that decides safety come from the bundle. Whatever \<open>/config.json\<close> holds,
  a load that succeeds leaves the class at its build-time value and changes no key outside the runtime
  allowlist; on a mainnet build it changes no key but the explorer URL and the timelock's deploy block.
\<close>

theorem loadRuntimeConfig_frame:
  assumes "loadRuntimeConfig fetched buildEnv = Inr l"
  shows "loaded_config l BUILD_TIME_ENV_CLASS_KEY = buildEnv BUILD_TIME_ENV_CLASS_KEY
    \<and> (\<forall>k. loaded_config l k \<noteq> buildEnv k \<longrightarrow> k \<in> set RUNTIME_CONFIG_KEYS)
    \<and> (buildEnv BUILD_TIME_ENV_CLASS_KEY = Some ''mainnet'' \<longrightarrow>
        (\<forall>k. loaded_config l k \<noteq> buildEnv k \<longrightarrow> k \<in> set MAINNET_RUNTIME_KEYS))"
proof -
  have sub: "set MAINNET_RUNTIME_KEYS \<subseteq> set RUNTIME_CONFIG_KEYS"
    by (simp add: MAINNET_RUNTIME_KEYS_def RUNTIME_CONFIG_KEYS_def)
  then have "loaded_config l BUILD_TIME_ENV_CLASS_KEY = buildEnv BUILD_TIME_ENV_CLASS_KEY"
    using class_key_not_runtime by (intro config_off_keys [OF assms]) auto
  moreover have "k \<in> set RUNTIME_CONFIG_KEYS" if "loaded_config l k \<noteq> buildEnv k" for k
    using that config_off_keys [OF assms, of k] sub
    by (cases "buildEnv BUILD_TIME_ENV_CLASS_KEY = Some ''mainnet''") auto
  moreover have "k \<in> set MAINNET_RUNTIME_KEYS"
    if "buildEnv BUILD_TIME_ENV_CLASS_KEY = Some ''mainnet''" "loaded_config l k \<noteq> buildEnv k" for k
    using that config_off_keys [OF assms, of k] by auto
  ultimately show ?thesis by blast
qed

definition sample_response :: "js \<Rightarrow> fetch_response" where
  "sample_response payload = \<lparr>resp_ok = True, resp_status = 200,
     content_type = Some ''application/json; charset=utf-8'', resp_json = Some payload\<rparr>"

theorem loadRuntimeConfig_frame_witness:
  "\<exists>l. loadRuntimeConfig (Some (sample_response (JObj [(''VITE_GATEWAY_ADDRESS'', JStr ''0xbad''),
          (''VITE_EXPLORER_API_URL'', JStr ''https://x'')])))
        [''VITE_ENV_CLASS'' \<mapsto> ''mainnet'', ''VITE_GATEWAY_ADDRESS'' \<mapsto> ''0xgood''] = Inr l
     \<and> loaded_source l = Fetched
     \<and> loaded_config l ''VITE_ENV_CLASS'' = Some ''mainnet''
     \<and> loaded_config l ''VITE_GATEWAY_ADDRESS'' = Some ''0xgood''
     \<and> loaded_config l ''VITE_EXPLORER_API_URL'' = Some ''https://x''"
proof -
  let ?b = "[''VITE_ENV_CLASS'' \<mapsto> ''mainnet'', ''VITE_GATEWAY_ADDRESS'' \<mapsto> ''0xgood'']"
  let ?r = "loadRuntimeConfig (Some (sample_response (JObj [(''VITE_GATEWAY_ADDRESS'', JStr ''0xbad''),
          (''VITE_EXPLORER_API_URL'', JStr ''https://x'')]))) ?b"
  have ok: "is_ok ?r" by code_simp
  then obtain l where l: "?r = Inr l" by (auto simp: is_ok_iff)
  have "case ?r of Inr l \<Rightarrow> loaded_source l = Fetched \<and> loaded_config l ''VITE_EXPLORER_API_URL'' = Some ''https://x''
      | Inl _ \<Rightarrow> False" by code_simp
  then have e: "loaded_source l = Fetched" "loaded_config l ''VITE_EXPLORER_API_URL'' = Some ''https://x''"
    by (simp_all add: l)
  have m: "''VITE_GATEWAY_ADDRESS'' \<notin> set MAINNET_RUNTIME_KEYS" by code_simp
  note fr = loadRuntimeConfig_frame [OF l, unfolded BUILD_TIME_ENV_CLASS_KEY_def]
  have "loaded_config l ''VITE_ENV_CLASS'' = ?b ''VITE_ENV_CLASS''" using fr by blast
  moreover have "?b ''VITE_ENV_CLASS'' = Some ''mainnet''" by simp
  with fr m have "loaded_config l ''VITE_GATEWAY_ADDRESS'' = ?b ''VITE_GATEWAY_ADDRESS''" by blast
  ultimately show ?thesis using l e by auto
qed

section \<open>What may be built\<close>

lemma validateFaucetKeyForBuild_iff:
  "validateFaucetKeyForBuild env Build = Inr () \<longleftrightarrow>
     (key_present env \<longrightarrow> env ''VITE_ENV_CLASS'' \<in> {Some ''fork'', Some ''devnet'', Some ''testnet''})"
  by (auto simp: validateFaucetKeyForBuild_def isDappEnvClass_def)

lemma validateEnvClassForChain_iff:
  "validateEnvClassForChain env Build = Inr () \<longleftrightarrow>
     (let c = env_text env ''VITE_CHAIN_ID''; m = (env ''VITE_ENV_CLASS'' = Some ''mainnet'')
      in (c = [] \<or> positive_integer c \<and> (m \<longrightarrow> read_nat c = 8453) \<and> (\<not> m \<longrightarrow> read_nat c \<notin> {1, 8453}))
         \<and> (m \<longrightarrow> env_text env ''VITE_DEVNET_RPC_URL'' = []))"
  by (auto simp: validateEnvClassForChain_def Let_def)

text \<open>
  What the two build checks leave: a build they both accept that names a real-money chain (1 or 8453)
  is a Base mainnet build, with class \<open>mainnet\<close>, no devnet RPC and no faucet key; and a build of class
  \<open>mainnet\<close> carries no faucet key whether or not it names a chain.
\<close>

theorem accepted_build:
  assumes "validateFaucetKeyForBuild env Build = Inr ()" and "validateEnvClassForChain env Build = Inr ()"
  shows "(env_text env ''VITE_CHAIN_ID'' \<noteq> [] \<and> read_nat (env_text env ''VITE_CHAIN_ID'') \<in> {1, 8453} \<longrightarrow>
       env ''VITE_ENV_CLASS'' = Some ''mainnet'' \<and> read_nat (env_text env ''VITE_CHAIN_ID'') = 8453)
    \<and> (env ''VITE_ENV_CLASS'' = Some ''mainnet'' \<longrightarrow>
       \<not> key_present env \<and> env_text env ''VITE_DEVNET_RPC_URL'' = []
       \<and> (env_text env ''VITE_CHAIN_ID'' = [] \<or> read_nat (env_text env ''VITE_CHAIN_ID'') = 8453))"
  using assms unfolding validateFaucetKeyForBuild_iff validateEnvClassForChain_iff Let_def by auto

theorem accepted_build_witness:
  "validateFaucetKeyForBuild [''VITE_ENV_CLASS'' \<mapsto> ''mainnet'', ''VITE_CHAIN_ID'' \<mapsto> '' 8453''] Build = Inr ()
   \<and> \<not> key_present [''VITE_ENV_CLASS'' \<mapsto> ''mainnet'', ''VITE_CHAIN_ID'' \<mapsto> '' 8453'']"
proof -
  let ?e = "[''VITE_ENV_CLASS'' \<mapsto> ''mainnet'', ''VITE_CHAIN_ID'' \<mapsto> '' 8453'']"
  have f: "validateFaucetKeyForBuild ?e Build = Inr ()" by code_simp
  have c: "validateEnvClassForChain ?e Build = Inr ()" by code_simp
  have m: "?e ''VITE_ENV_CLASS'' = Some ''mainnet''" by simp
  from accepted_build [OF f c] m have "\<not> key_present ?e" by blast
  with f show ?thesis by blast
qed

text \<open>No faucet is shown before a chain is known, nor on either real-money chain.\<close>

lemma classifyChain_testnet_iff: "classifyChain c = TestnetChain \<longleftrightarrow> c \<notin> {0, 1, 8453}"
  by (simp add: classifyChain_def MAINNET_CHAIN_IDS_def)

text \<open>
  The served policy: no script source is \<open>'unsafe-inline'\<close>, \<open>'unsafe-eval'\<close> or a scheme wildcard, the only
  script origins are the dapp itself and the one named beacon host, and the policy of the \<open>meta\<close> tag
  has every directive of the header but \<open>frame-ancestors\<close>.
\<close>

lemma csp_strict:
  "map_of CSP_DIRECTIVES ''script-src'' = Some [q ''self'', CLOUDFLARE_BEACON_SCRIPT_ORIGIN]
   \<and> distinct (map fst CSP_DIRECTIVES)
   \<and> list_all (\<lambda>(name, sources). name = ''style-src''
        \<or> q ''unsafe-inline'' \<notin> set sources \<and> q ''unsafe-eval'' \<notin> set sources) CSP_DIRECTIVES
   \<and> split_on (CHR '';'') CSP_META_POLICY
       = filter (\<lambda>s. \<not> str_includes ''frame-ancestors'' s) (split_on (CHR '';'') CSP_POLICY)"
  by code_simp

end
