(* ===== verification/GatewayVerify.thy ===== *)
theory GatewayVerify
  imports JsPrelude
begin

text \<open>
  The gateway verifier: \<open>gatewayVerifier.ts\<close> (the pure comparison), \<open>verifyGatewayAt.ts\<close> (the reads at one
  block) and \<open>gatewayWriteCheck.tsx\<close> (the re-check before a gateway write).

  \<open>keccak256\<close>, the call-data encoder and the result decoders are viem's: they are parameters. A wallet
  provider is a function from an RPC method and its parameters to the answer, \<^const>\<open>None\<close> when the request
  throws; one verification sees one such function, so the chain does not move between its reads other
  than through the block tag. An RPC answer used as a string that is not one throws.
\<close>

type_synonym provider = "string \<Rightarrow> js list \<Rightarrow> js option"

section \<open>The pure comparison\<close>

datatype VerificationCause =
    PinMissing
  | AddressMissing
  | NoCode
  | HashMismatch
  | WrongChain
  | NoWallet
  | RpcFailed
  | ImplementationUnreadable
  | ImplementationPinMissing
  | ImplementationMismatch
  | ImplementationUnexpected

text \<open>
  \<open>implementation\<close> is absent (\<^term>\<open>None\<close>), \<open>null\<close> (\<^term>\<open>Some None\<close>) or an address.
\<close>

record Verified =
  computedHash :: string
  implementation :: "string option option"
  implementationCodeHash :: "string option"
  upgradesFrozen :: "bool option"
  upgradeTimelock :: "string option"

datatype VerificationState =
    Idle
  | Pending
  | IsVerified Verified
  | Refused VerificationCause "string option"

text \<open>A read that is still in flight (\<open>undefined\<close>), that gave nothing (\<open>null\<close>), or that gave a value.\<close>

datatype 'a fetched = InFlight | Nothing | Got 'a

definition refusedVerification :: "VerificationCause \<Rightarrow> string option \<Rightarrow> VerificationState" where
  "refusedVerification cause detail = Refused cause detail"

definition blank_pin :: "string option \<Rightarrow> bool" where
  "blank_pin h = (case h of None \<Rightarrow> True | Some s \<Rightarrow> trim s = [])"

definition pin_text :: "string option \<Rightarrow> string" where
  "pin_text h = (case h of None \<Rightarrow> [] | Some s \<Rightarrow> trim s)"

definition computeVerificationState ::
  "(string \<Rightarrow> string) \<Rightarrow> string \<Rightarrow> string option \<Rightarrow> string fetched \<Rightarrow> VerificationState" where
  "computeVerificationState keccak256 gatewayAddress expectedHash code =
     (if blank_pin expectedHash then refusedVerification PinMissing None
      else if gatewayAddress = [] \<or> gatewayAddress = zero_address then refusedVerification AddressMissing None
      else case code of
          InFlight \<Rightarrow> Pending
        | Nothing \<Rightarrow> refusedVerification NoCode None
        | Got c \<Rightarrow>
            if c = ''0x'' \<or> c = [] then refusedVerification NoCode None
            else if lc (keccak256 c) \<noteq> lc (the expectedHash) then refusedVerification HashMismatch None
            else IsVerified \<lparr>computedHash = keccak256 c, implementation = None, implementationCodeHash = None,
                   upgradesFrozen = None, upgradeTimelock = None\<rparr>)"

definition ERC1967_IMPLEMENTATION_SLOT :: string where
  "ERC1967_IMPLEMENTATION_SLOT = ''0x360894a13ba1a3210667c828492db98dca3e2076cc3735a920a3ca505d382bbc''"

record ImplementationPin =
  pin_address :: "string option"
  pin_hash :: "string option"

text \<open>
  \<^term>\<open>None\<close> is \<open>undefined\<close> (not a left-padded address), \<^term>\<open>Some None\<close> is \<open>null\<close> (an empty slot).
\<close>

definition implementationFromSlot :: "string \<Rightarrow> string option option" where
  "implementationFromSlot word =
     (let w = lc word;
          hex = pad_start 64 (if starts_with ''0x'' w then drop 2 w else w);
          addr = drop 24 hex
      in if length hex \<noteq> 64 \<or> \<not> list_all is_lower_hex_char hex then None
         else if take 24 hex \<noteq> replicate 24 (CHR ''0'') then None
         else if list_all (\<lambda>c. c = CHR ''0'') addr then Some None
         else Some (Some (''0x'' @ addr)))"

definition computeGatewayVerification ::
  "(string \<Rightarrow> string) \<Rightarrow> string \<Rightarrow> string option \<Rightarrow> string fetched \<Rightarrow> ImplementationPin
     \<Rightarrow> string fetched \<Rightarrow> string fetched \<Rightarrow> VerificationState" where
  "computeGatewayVerification keccak256 gatewayAddress expectedHash code pin slot implCode =
     (case computeVerificationState keccak256 gatewayAddress expectedHash code of
        IsVerified base \<Rightarrow>
          let pinAddress = pin_text (pin_address pin); pinHash = pin_text (pin_hash pin)
          in if (pinAddress = []) \<noteq> (pinHash = [])
             then refusedVerification ImplementationPinMissing
                    (Some ''the implementation pin needs both an address and a code hash'')
             else (case slot of
                 InFlight \<Rightarrow> Pending
               | Nothing \<Rightarrow> refusedVerification ImplementationUnreadable
                              (Some ''the gateway implementation slot could not be read'')
               | Got word \<Rightarrow>
                   (case implementationFromSlot word of
                      None \<Rightarrow> refusedVerification ImplementationMismatch
                                (Some ''the gateway implementation slot is not an address'')
                    | Some None \<Rightarrow>
                        if pinAddress \<noteq> []
                        then refusedVerification ImplementationUnexpected
                               (Some ''an implementation is pinned but the gateway is not a proxy'')
                        else IsVerified (base\<lparr>implementation := Some None\<rparr>)
                    | Some (Some live) \<Rightarrow>
                        if pinAddress = []
                        then refusedVerification ImplementationPinMissing
                               (Some (''the gateway is a proxy for '' @ live @ '' and no implementation is pinned''))
                        else if lc live \<noteq> lc pinAddress
                        then refusedVerification ImplementationMismatch
                               (Some (''the gateway implementation is '' @ live @ '', not the pinned '' @ pinAddress))
                        else (case implCode of
                            InFlight \<Rightarrow> Pending
                          | Nothing \<Rightarrow> refusedVerification ImplementationMismatch
                                         (Some (''the gateway implementation '' @ live @ '' has no code''))
                          | Got ic \<Rightarrow>
                              if ic = ''0x''
                              then refusedVerification ImplementationMismatch
                                     (Some (''the gateway implementation '' @ live @ '' has no code''))
                              else if lc (keccak256 ic) \<noteq> lc pinHash
                              then refusedVerification ImplementationMismatch
                                     (Some (''the gateway implementation '' @ live @ '' code hash does not match the pin''))
                              else IsVerified (base\<lparr>implementation := Some (Some live),
                                     implementationCodeHash := Some (keccak256 ic)\<rparr>))))
      | other \<Rightarrow> other)"

section \<open>The reads at one block\<close>

text \<open>\<open>codeOrNull\<close>: \<open>undefined\<close>, \<open>null\<close> and \<open>"0x"\<close> are no code; any other value stays what it is.\<close>

definition codeOrNull :: "js \<Rightarrow> js" where
  "codeOrNull code = (if jnullish code \<or> code = JStr ''0x'' then JNull else code)"

text \<open>A value used as a \<open>Hex\<close>: \<open>null\<close> and strings as they are, anything else throws when it is hashed.\<close>

definition as_code :: "js \<Rightarrow> string fetched option" where
  "as_code v = (case v of JNull \<Rightarrow> Some Nothing | JStr s \<Rightarrow> Some (Got s) | _ \<Rightarrow> None)"

definition callAt :: "provider \<Rightarrow> string \<Rightarrow> string \<Rightarrow> js \<Rightarrow> js" where
  "callAt p to data block =
     (case p ''eth_call'' [JObj [(''to'', JStr to), (''data'', JStr data)], block] of
        None \<Rightarrow> JUndef | Some v \<Rightarrow> v)"

text \<open>
  viem's coding of the two no-argument views of \<open>GOVERNED_UUPS_ABI\<close>: the call data of a function name, and
  the decoders, \<^const>\<open>None\<close> when they throw.
\<close>

record views_codec =
  encodeFunctionData :: "string \<Rightarrow> string"
  decodeBool :: "js \<Rightarrow> bool option"
  decodeAddress :: "js \<Rightarrow> string option"

definition readUpgradeViews :: "views_codec \<Rightarrow> provider \<Rightarrow> string \<Rightarrow> js \<Rightarrow> bool option \<times> string option" where
  "readUpgradeViews cd p gateway block =
     (let frozen = callAt p gateway (encodeFunctionData cd ''upgradesFrozen'') block;
          timelock = callAt p gateway (encodeFunctionData cd ''upgradeTimelock'') block
      in (if truthy frozen then decodeBool cd frozen else None,
          if truthy timelock then decodeAddress cd timelock else None))"

text \<open>\<^const>\<open>None\<close>: a read threw.\<close>

definition verifyGatewayAt ::
  "(string \<Rightarrow> string) \<Rightarrow> views_codec \<Rightarrow> provider \<Rightarrow> string \<Rightarrow> string option \<Rightarrow> ImplementationPin
     \<Rightarrow> VerificationState option" where
  "verifyGatewayAt keccak256 cd p gatewayAddress expectedCodeHash pin =
     (case p ''eth_blockNumber'' [] of None \<Rightarrow> None
      | Some block \<Rightarrow>
     (case p ''eth_getCode'' [JStr gatewayAddress, block] of None \<Rightarrow> None
      | Some answer \<Rightarrow>
     (if blank_pin expectedCodeHash then Some (refusedVerification PinMissing None)
      else if gatewayAddress = [] \<or> gatewayAddress = zero_address
      then Some (refusedVerification AddressMissing None)
      else case as_code (codeOrNull answer) of None \<Rightarrow> None
      | Some code \<Rightarrow>
     (case computeVerificationState keccak256 gatewayAddress expectedCodeHash code of
        IsVerified base \<Rightarrow>
          (case p ''eth_getStorageAt'' [JStr gatewayAddress, JStr ERC1967_IMPLEMENTATION_SLOT, block] of
             Some (JStr slot) \<Rightarrow>
               (case implementationFromSlot slot of
                  Some (Some live) \<Rightarrow>
                    (case p ''eth_getCode'' [JStr live, block] of None \<Rightarrow> None
                     | Some implAnswer \<Rightarrow>
                         (case as_code (codeOrNull implAnswer) of None \<Rightarrow> None
                          | Some implCode \<Rightarrow>
                              (case computeGatewayVerification keccak256 gatewayAddress expectedCodeHash code pin
                                      (Got slot) implCode of
                                 IsVerified v \<Rightarrow>
                                   let (frozen, timelock) = readUpgradeViews cd p gatewayAddress block
                                   in Some (IsVerified (v\<lparr>upgradesFrozen := frozen, upgradeTimelock := timelock\<rparr>))
                               | other \<Rightarrow> Some other)))
                | _ \<Rightarrow> Some (computeGatewayVerification keccak256 gatewayAddress expectedCodeHash code pin
                              (Got slot) InFlight))
           | _ \<Rightarrow> None)
      | other \<Rightarrow> Some other))))"

section \<open>The re-check before a write\<close>

datatype GatewayChangedError =
    NoProvider
  | ProviderOnChain "int option" int
  | NotReread
  | NoLongerMatches "string option"
  | ImplementationChanged "string option" "string option"
  | GatewayNotVerified

definition lc_nullish :: "string option option \<Rightarrow> string option" where
  "lc_nullish i = (case i of Some (Some a) \<Rightarrow> Some (lc a) | _ \<Rightarrow> None)"

definition pin_of :: "Verified \<Rightarrow> ImplementationPin" where
  "pin_of v = \<lparr>pin_address = (case implementation v of Some a \<Rightarrow> a | None \<Rightarrow> None),
     pin_hash = implementationCodeHash v\<rparr>"

definition reverifyGateway ::
  "(string \<Rightarrow> string) \<Rightarrow> views_codec \<Rightarrow> provider option \<Rightarrow> string \<Rightarrow> Verified \<Rightarrow> int option
     \<Rightarrow> GatewayChangedError + unit" where
  "reverifyGateway keccak256 cd provider gatewayAddress verified chainId =
     (case provider of None \<Rightarrow> Inl NoProvider
      | Some p \<Rightarrow>
          res_bind
            (case chainId of None \<Rightarrow> Inr ()
             | Some c \<Rightarrow>
                 (case p ''eth_chainId'' [] of None \<Rightarrow> Inl NotReread
                  | Some answered \<Rightarrow>
                      ensure (js_number answered = Some c) (ProviderOnChain (js_number answered) c)))
            (\<lambda>_. case verifyGatewayAt keccak256 cd p gatewayAddress (Some (computedHash verified)) (pin_of verified) of
                None \<Rightarrow> Inl NotReread
              | Some (IsVerified now) \<Rightarrow>
                  ensure (lc_nullish (implementation verified) = lc_nullish (implementation now))
                    (ImplementationChanged (lc_nullish (implementation now)) (lc_nullish (implementation verified)))
              | Some (Refused cause detail) \<Rightarrow> Inl (NoLongerMatches detail)
              | Some _ \<Rightarrow> Inl (NoLongerMatches None)))"

record GatewayWriteRequest =
  req_target :: js
  req_nestedTarget :: js
  req_provider :: "provider option"
  req_chainId :: "int option"

definition is_address_of :: "string \<Rightarrow> js \<Rightarrow> bool" where
  "is_address_of gw a = (case a of JStr s \<Rightarrow> lc s = lc gw | _ \<Rightarrow> False)"

text \<open>The \<open>check\<close> closure of \<open>GatewayWriteCheck\<close>; \<open>injected\<close> is \<open>window.ethereum\<close>.\<close>

definition gatewayWriteCheck ::
  "(string \<Rightarrow> string) \<Rightarrow> views_codec \<Rightarrow> string \<Rightarrow> VerificationState \<Rightarrow> provider option
     \<Rightarrow> GatewayWriteRequest \<Rightarrow> GatewayChangedError + unit" where
  "gatewayWriteCheck keccak256 cd gatewayAddress verification injected r =
     (if \<not> is_address_of gatewayAddress (req_target r) \<and> \<not> is_address_of gatewayAddress (req_nestedTarget r)
      then Inr ()
      else case verification of
          IsVerified v \<Rightarrow>
            reverifyGateway keccak256 cd
              (case req_provider r of None \<Rightarrow> injected | Some p \<Rightarrow> Some p) gatewayAddress v (req_chainId r)
        | _ \<Rightarrow> Inl GatewayNotVerified)"

section \<open>When the gateway is verified\<close>

lemma computeVerificationState_verified:
  "computeVerificationState keccak256 gw h c = IsVerified v \<longleftrightarrow>
     \<not> blank_pin h \<and> gw \<noteq> [] \<and> gw \<noteq> zero_address
     \<and> (\<exists>b. c = Got b \<and> b \<noteq> ''0x'' \<and> b \<noteq> [] \<and> lc (keccak256 b) = lc (the h)
          \<and> v = \<lparr>computedHash = keccak256 b, implementation = None, implementationCodeHash = None,
                 upgradesFrozen = None, upgradeTimelock = None\<rparr>)"
  by (auto simp: computeVerificationState_def refusedVerification_def split: fetched.splits)

lemma computeGatewayVerification_base:
  "computeGatewayVerification keccak256 gw h c pin slot ic = IsVerified v \<Longrightarrow>
     \<exists>base. computeVerificationState keccak256 gw h c = IsVerified base"
  by (cases "computeVerificationState keccak256 gw h c") (auto simp: computeGatewayVerification_def)

lemma pin_text_blank: "pin_text h = [] \<longleftrightarrow> blank_pin h"
  by (auto simp: pin_text_def blank_pin_def split: option.splits)

text \<open>What the code and the slot must be, given the pins.\<close>

definition direct_gateway :: "ImplementationPin \<Rightarrow> string \<Rightarrow> bool" where
  "direct_gateway pin word = (blank_pin (pin_address pin) \<and> blank_pin (pin_hash pin)
     \<and> implementationFromSlot word = Some None)"

definition proxied_gateway :: "(string \<Rightarrow> string) \<Rightarrow> ImplementationPin \<Rightarrow> string \<Rightarrow> string \<Rightarrow> string \<Rightarrow> bool" where
  "proxied_gateway keccak256 pin word live ic =
     (\<not> blank_pin (pin_address pin) \<and> \<not> blank_pin (pin_hash pin)
      \<and> implementationFromSlot word = Some (Some live) \<and> lc live = lc (pin_text (pin_address pin))
      \<and> ic \<noteq> ''0x'' \<and> lc (keccak256 ic) = lc (pin_text (pin_hash pin)))"

text \<open>
  The gateway is verified exactly when its address is configured, a code-hash pin is set and is the
  hash of the code at the address, and either nothing is pinned and the implementation slot is empty, or
  both halves of the implementation pin are set, the slot names the pinned address and the code there has
  the pinned hash. Every other combination of pins and reads is pending or refused.
\<close>

theorem computeGatewayVerification_iff:
  "(\<exists>v. computeGatewayVerification keccak256 gw h c pin slot ic = IsVerified v) \<longleftrightarrow>
     \<not> blank_pin h \<and> gw \<noteq> [] \<and> gw \<noteq> zero_address
     \<and> (\<exists>b. c = Got b \<and> b \<noteq> ''0x'' \<and> b \<noteq> [] \<and> lc (keccak256 b) = lc (the h))
     \<and> (\<exists>word. slot = Got word \<and>
          (direct_gateway pin word \<or> (\<exists>live i. ic = Got i \<and> proxied_gateway keccak256 pin word live i)))"
  (is "?lhs \<longleftrightarrow> ?rhs")
proof -
  consider (base) b where "computeVerificationState keccak256 gw h c = IsVerified b"
    | (other) "\<not> (\<exists>b. computeVerificationState keccak256 gw h c = IsVerified b)" by blast
  then show ?thesis
  proof cases
    case base
    then have "?lhs \<longleftrightarrow> (\<exists>word. slot = Got word \<and>
          (direct_gateway pin word \<or> (\<exists>live i. ic = Got i \<and> proxied_gateway keccak256 pin word live i)))"
      by (auto simp: computeGatewayVerification_def direct_gateway_def proxied_gateway_def Let_def
            pin_text_blank refusedVerification_def split: fetched.splits option.splits if_splits)
    with base show ?thesis by (auto simp: computeVerificationState_verified)
  next
    case other
    then have "\<not> ?lhs" using computeGatewayVerification_base by blast
    moreover have "\<not> ?rhs" using other unfolding computeVerificationState_verified by blast
    ultimately show ?thesis by blast
  qed
qed

text \<open>What a verified state records.\<close>

lemma computeGatewayVerification_value:
  assumes "computeGatewayVerification keccak256 gw h (Got b) pin (Got word) ic = IsVerified v"
  shows "computedHash v = keccak256 b \<and> implementation v = implementationFromSlot word
    \<and> (\<forall>i live. ic = Got i \<and> implementation v = Some (Some live) \<longrightarrow> implementationCodeHash v = Some (keccak256 i))
    \<and> (implementation v = Some None \<longrightarrow> implementationCodeHash v = None)"
proof -
  obtain base where base: "computeVerificationState keccak256 gw h (Got b) = IsVerified base"
    using computeGatewayVerification_base [OF assms] by blast
  with assms show ?thesis
    by (auto simp: computeGatewayVerification_def computeVerificationState_verified Let_def refusedVerification_def
        split: fetched.splits option.splits if_splits)
qed

section \<open>Verifying at one block\<close>

lemma as_code_Got: "as_code (codeOrNull a) = Some (Got s) \<longleftrightarrow> a = JStr s \<and> s \<noteq> ''0x''"
  by (cases a) (auto simp: as_code_def codeOrNull_def jnullish_def)

text \<open>The reads a verified gateway rests on, all at \<open>block\<close>.\<close>

definition reads_match ::
  "(string \<Rightarrow> string) \<Rightarrow> provider \<Rightarrow> string \<Rightarrow> js \<Rightarrow> string \<Rightarrow> string \<Rightarrow> ImplementationPin \<Rightarrow> Verified \<Rightarrow> bool" where
  "reads_match keccak256 p gw block b word pin v \<longleftrightarrow>
     p ''eth_getCode'' [JStr gw, block] = Some (JStr b) \<and> b \<noteq> ''0x'' \<and> b \<noteq> []
     \<and> p ''eth_getStorageAt'' [JStr gw, JStr ERC1967_IMPLEMENTATION_SLOT, block] = Some (JStr word)
     \<and> computedHash v = keccak256 b \<and> implementation v = implementationFromSlot word
     \<and> (direct_gateway pin word \<and> implementationCodeHash v = None
        \<or> (\<exists>live ic. p ''eth_getCode'' [JStr live, block] = Some (JStr ic) \<and> proxied_gateway keccak256 pin word live ic
             \<and> implementationCodeHash v = Some (keccak256 ic)))"

lemma verifyGatewayAt_reads:
  assumes "verifyGatewayAt keccak256 cd p gw h pin = Some (IsVerified v)"
  shows "\<exists>block b word. p ''eth_blockNumber'' [] = Some block \<and> reads_match keccak256 p gw block b word pin v
    \<and> lc (keccak256 b) = lc (the h) \<and> \<not> blank_pin h \<and> gw \<noteq> [] \<and> gw \<noteq> zero_address"
proof -
  obtain block a where block: "p ''eth_blockNumber'' [] = Some block"
      and a: "p ''eth_getCode'' [JStr gw, block] = Some a"
    using assms by (auto simp: verifyGatewayAt_def split: option.splits)
  have pins: "\<not> blank_pin h" "gw \<noteq> []" "gw \<noteq> zero_address"
    using assms block a by (auto simp: verifyGatewayAt_def refusedVerification_def split: if_splits)
  obtain c where c: "as_code (codeOrNull a) = Some c"
    using assms block a pins by (auto simp: verifyGatewayAt_def split: option.splits)
  obtain base where base: "computeVerificationState keccak256 gw h c = IsVerified base"
    using assms block a pins c
    by (cases "computeVerificationState keccak256 gw h c") (auto simp: verifyGatewayAt_def)
  then obtain b where b: "c = Got b" "b \<noteq> ''0x''" "b \<noteq> []" "lc (keccak256 b) = lc (the h)"
    by (auto simp: computeVerificationState_verified)
  obtain word where word: "p ''eth_getStorageAt'' [JStr gw, JStr ERC1967_IMPLEMENTATION_SLOT, block] = Some (JStr word)"
    using assms block a pins c base
    by (auto simp: verifyGatewayAt_def split: option.splits js.splits)
  have "reads_match keccak256 p gw block b word pin v"
  proof (cases "\<exists>live. implementationFromSlot word = Some (Some live)")
    case True
    then obtain live where live: "implementationFromSlot word = Some (Some live)" by blast
    from assms block a pins c base word live obtain i ic v' where
      i: "p ''eth_getCode'' [JStr live, block] = Some i" "as_code (codeOrNull i) = Some ic"
        "computeGatewayVerification keccak256 gw h (Got b) pin (Got word) ic = IsVerified v'"
      and v: "computedHash v = computedHash v'" "implementation v = implementation v'"
        "implementationCodeHash v = implementationCodeHash v'"
      by (auto simp: verifyGatewayAt_def b(1) split: option.splits VerificationState.splits prod.splits)
    from i(3) have "\<exists>v. computeGatewayVerification keccak256 gw h (Got b) pin (Got word) ic = IsVerified v" ..
    with live obtain s where s: "ic = Got s" "proxied_gateway keccak256 pin word live s"
      unfolding computeGatewayVerification_iff by (auto simp: direct_gateway_def proxied_gateway_def)
    with i have "i = JStr s" by (simp add: as_code_Got)
    with computeGatewayVerification_value [OF i(3)] i s b(2,3) a c b(1) word v live show ?thesis
      by (auto simp: reads_match_def as_code_Got)
  next
    case False
    with assms block a pins c base word
    have cg: "computeGatewayVerification keccak256 gw h (Got b) pin (Got word) InFlight = IsVerified v"
      by (auto simp: verifyGatewayAt_def b(1) split: option.splits)
    then have "\<exists>v. computeGatewayVerification keccak256 gw h (Got b) pin (Got word) InFlight = IsVerified v" ..
    then have "direct_gateway pin word" unfolding computeGatewayVerification_iff by auto
    with computeGatewayVerification_value [OF cg] b a c word show ?thesis
      by (auto simp: reads_match_def as_code_Got direct_gateway_def)
  qed
  with block b pins show ?thesis by blast
qed

lemma reverifyGateway_reads:
  assumes "reverifyGateway keccak256 cd provider gw v (Some chain) = Inr ()"
  shows "\<exists>p answered block b word. provider = Some p
    \<and> p ''eth_chainId'' [] = Some answered \<and> js_number answered = Some chain
    \<and> p ''eth_blockNumber'' [] = Some block
    \<and> p ''eth_getCode'' [JStr gw, block] = Some (JStr b) \<and> lc (keccak256 b) = lc (computedHash v)
    \<and> p ''eth_getStorageAt'' [JStr gw, JStr ERC1967_IMPLEMENTATION_SLOT, block] = Some (JStr word)
    \<and> (case lc_nullish (implementation v) of
         None \<Rightarrow> implementationFromSlot word = Some None
       | Some a \<Rightarrow> \<exists>live ic. implementationFromSlot word = Some (Some live) \<and> lc live = a
            \<and> p ''eth_getCode'' [JStr live, block] = Some (JStr ic) \<and> ic \<noteq> ''0x''
            \<and> lc (keccak256 ic) = lc (pin_text (implementationCodeHash v)))"
proof -
  from assms obtain p now answered where p: "provider = Some p" "p ''eth_chainId'' [] = Some answered"
      "js_number answered = Some chain"
      and now: "verifyGatewayAt keccak256 cd p gw (Some (computedHash v)) (pin_of v) = Some (IsVerified now)"
      and impl: "lc_nullish (implementation v) = lc_nullish (implementation now)"
    by (auto simp: reverifyGateway_def split: option.splits VerificationState.splits)
  from verifyGatewayAt_reads [OF now] obtain block b word where
    r: "p ''eth_blockNumber'' [] = Some block" "reads_match keccak256 p gw block b word (pin_of v) now"
       "lc (keccak256 b) = lc (computedHash v)" by auto
  have "case lc_nullish (implementation v) of
         None \<Rightarrow> implementationFromSlot word = Some None
       | Some a \<Rightarrow> \<exists>live ic. implementationFromSlot word = Some (Some live) \<and> lc live = a
            \<and> p ''eth_getCode'' [JStr live, block] = Some (JStr ic) \<and> ic \<noteq> ''0x''
            \<and> lc (keccak256 ic) = lc (pin_text (implementationCodeHash v))"
    using r(2) impl
    by (auto simp: reads_match_def direct_gateway_def proxied_gateway_def pin_of_def lc_nullish_def
        split: option.splits)
  with p r show ?thesis by (auto simp: reads_match_def)
qed

text \<open>
  A gateway write goes out only on a fresh match. When the re-check accepts, the wallet's provider
  answered for the connected chain and, at the one block it read, the code at the gateway has the hash
  that was verified; the implementation slot is empty if the verified gateway was direct, and otherwise
  names the same implementation, whose code has the verified hash.
\<close>

theorem reverifyGateway_sound:
  assumes "reverifyGateway keccak256 cd provider gw v (Some chain) = Inr ()"
  shows "\<exists>p answered block b word. provider = Some p
    \<and> p ''eth_chainId'' [] = Some answered \<and> js_number answered = Some chain
    \<and> p ''eth_blockNumber'' [] = Some block
    \<and> p ''eth_getCode'' [JStr gw, block] = Some (JStr b) \<and> lc (keccak256 b) = lc (computedHash v)
    \<and> p ''eth_getStorageAt'' [JStr gw, JStr ERC1967_IMPLEMENTATION_SLOT, block] = Some (JStr word)
    \<and> (case lc_nullish (implementation v) of
         None \<Rightarrow> implementationFromSlot word = Some None
       | Some a \<Rightarrow> \<exists>live ic. implementationFromSlot word = Some (Some live) \<and> lc live = a
            \<and> p ''eth_getCode'' [JStr live, block] = Some (JStr ic) \<and> ic \<noteq> ''0x''
            \<and> lc (keccak256 ic) = lc (pin_text (implementationCodeHash v)))"
  using assms by (rule reverifyGateway_reads)

lemma lower_hex_address:
  assumes "list_all is_lower_hex_char t" and "length t = n"
  shows "hex_of_len n (''0x'' @ t) \<and> lc (''0x'' @ t) = ''0x'' @ t"
proof -
  have "lc t = t" using assms(1) by (simp add: lc_def list_all_iff map_idI)
  moreover have "list_all is_hex_char t" using assms(1) lower_hex_is_hex by (auto simp: list_all_iff)
  ultimately show ?thesis using assms(2) by (simp add: lc_append lc_0x [simplified] hex_of_len_def hex_prefixed_def lc_def lc_char_def)
qed

lemma implementationFromSlot_address:
  assumes "implementationFromSlot word = Some (Some a)"
  shows "hex_of_len 40 a \<and> lc a = a"
proof -
  obtain hex where hex: "length hex = 64" "list_all is_lower_hex_char hex" "a = ''0x'' @ drop 24 hex"
    using assms by (auto simp: implementationFromSlot_def Let_def split: if_splits)
  then have "list_all is_lower_hex_char (drop 24 hex)" by (auto simp: list_all_iff dest: in_set_dropD)
  then show ?thesis using lower_hex_address [of "drop 24 hex" 40] hex by simp
qed

lemma hash_not_blank: "hex_of_len n s \<Longrightarrow> trim s = s \<and> s \<noteq> []"
  by (auto simp: hex_of_len_def hex_prefixed_trim)

lemma verifyGatewayAt_complete:
  assumes "p ''eth_blockNumber'' [] = Some block" and "reads_match keccak256 p gw block b word pin v"
    and "lc (keccak256 b) = lc (the h)" and "\<not> blank_pin h" and "gw \<noteq> []" and "gw \<noteq> zero_address"
  shows "\<exists>now. verifyGatewayAt keccak256 cd p gw h pin = Some (IsVerified now)
    \<and> implementation now = implementationFromSlot word"
proof -
  note rm = assms(2) [unfolded reads_match_def]
  have code: "as_code (codeOrNull (JStr b)) = Some (Got b)" using rm by (simp add: as_code_Got)
  obtain base where base: "computeVerificationState keccak256 gw h (Got b) = IsVerified base"
    using assms rm by (auto simp: computeVerificationState_verified)
  have verified: "\<exists>now. computeGatewayVerification keccak256 gw h (Got b) pin (Got word) ic = IsVerified now"
    if "direct_gateway pin word \<or> (\<exists>live i. ic = Got i \<and> proxied_gateway keccak256 pin word live i)" for ic
    using that assms rm unfolding computeGatewayVerification_iff by auto
  from rm consider "direct_gateway pin word"
    | live ic where "p ''eth_getCode'' [JStr live, block] = Some (JStr ic)" "proxied_gateway keccak256 pin word live ic"
    by blast
  then show ?thesis
  proof cases
    case 1
    then obtain now where "computeGatewayVerification keccak256 gw h (Got b) pin (Got word) InFlight = IsVerified now"
      using verified by blast
    with computeGatewayVerification_value [OF this] 1 assms rm code base show ?thesis
      by (auto simp: verifyGatewayAt_def direct_gateway_def)
  next
    case 2
    then obtain now where now: "computeGatewayVerification keccak256 gw h (Got b) pin (Got word) (Got ic) = IsVerified now"
      using verified by blast
    have "as_code (codeOrNull (JStr ic)) = Some (Got ic)" using 2 by (simp add: as_code_Got proxied_gateway_def)
    with computeGatewayVerification_value [OF now] 2 assms rm code base now show ?thesis
      by (auto simp: verifyGatewayAt_def proxied_gateway_def split: prod.splits)
  qed
qed

text \<open>
  An unchanged gateway is never refused: what one verification accepted, direct or behind a proxy, the
  re-check accepts again as long as the provider gives the same answers and is on the connected chain.
  The hash function is only required to return 32-byte hashes.
\<close>

theorem reverifyGateway_unchanged:
  assumes "\<And>s. hex_of_len 64 (keccak256 s)"
    and "verifyGatewayAt keccak256 cd p gw h pin = Some (IsVerified v)"
    and "p ''eth_chainId'' [] = Some answered" and "js_number answered = Some chain"
  shows "reverifyGateway keccak256 cd (Some p) gw v (Some chain) = Inr ()"
proof -
  from verifyGatewayAt_reads [OF assms(2)] obtain block b word where
    r: "p ''eth_blockNumber'' [] = Some block" "reads_match keccak256 p gw block b word pin v"
       "gw \<noteq> []" "gw \<noteq> zero_address" by blast
  note hash = hash_not_blank [OF assms(1)]
  have "reads_match keccak256 p gw block b word (pin_of v) v"
  proof (cases "implementationFromSlot word = Some None")
    case True
    with r(2) show ?thesis
      by (auto simp: reads_match_def direct_gateway_def proxied_gateway_def pin_of_def blank_pin_def)
  next
    case False
    with r(2) obtain live ic where l: "implementationFromSlot word = Some (Some live)"
      "implementation v = Some (Some live)" "implementationCodeHash v = Some (keccak256 ic)"
      "p ''eth_getCode'' [JStr live, block] = Some (JStr ic)" "ic \<noteq> ''0x''"
      by (auto simp: reads_match_def direct_gateway_def proxied_gateway_def)
    have "trim live = live \<and> live \<noteq> []"
      using implementationFromSlot_address [OF l(1)] hash_not_blank by blast
    with l hash have "proxied_gateway keccak256 (pin_of v) word live ic"
      by (simp add: proxied_gateway_def pin_of_def blank_pin_def pin_text_def)
    with l r(2) show ?thesis by (auto simp: reads_match_def)
  qed
  moreover have "\<not> blank_pin (Some (computedHash v))" "lc (keccak256 b) = lc (the (Some (computedHash v)))"
    using r(2) hash by (auto simp: reads_match_def blank_pin_def)
  ultimately obtain now where "verifyGatewayAt keccak256 cd p gw (Some (computedHash v)) (pin_of v) = Some (IsVerified now)"
      "implementation now = implementationFromSlot word"
    using verifyGatewayAt_complete r by meson
  moreover have "implementation v = implementationFromSlot word" using r(2) by (simp add: reads_match_def)
  ultimately show ?thesis using assms(3,4) by (simp add: reverifyGateway_def)
qed

section \<open>A concrete chain\<close>

text \<open>One proxied gateway and two direct contracts, read through a wallet on chain 8453.\<close>

definition sample_keccak :: "string \<Rightarrow> string" where
  "sample_keccak s = ''0x'' @ pad_start 64 (show_nat (length s mod 9 + 1))"

definition addr_of :: "string \<Rightarrow> string" where
  "addr_of d = ''0x'' @ pad_start 40 d"

definition sample_provider :: provider where
  "sample_provider m ps =
     (if m = ''eth_chainId'' then Some (JStr ''0x2105'')
      else if m = ''eth_blockNumber'' then Some (JStr ''0x10'')
      else if m = ''eth_getCode'' then
        Some (JStr (if hd ps = JStr (addr_of ''a1'') then ''0x6001''
                    else if hd ps = JStr (addr_of ''b2'') then ''0x600102''
                    else if hd ps = JStr (addr_of ''c3'') then ''0x60010203''
                    else if hd ps = JStr (addr_of ''d4'') then ''0x6001020304'' else ''0x''))
      else if m = ''eth_getStorageAt'' then
        Some (JStr (''0x'' @ pad_start 64 (if hd ps = JStr (addr_of ''a1'') then ''b2'' else [])))
      else if m = ''eth_call'' then Some (JStr ''0x01'')
      else None)"

definition sample_codec :: views_codec where
  "sample_codec = \<lparr>encodeFunctionData = (\<lambda>n. ''0x''), decodeBool = (\<lambda>_. None), decodeAddress = (\<lambda>_. None)\<rparr>"

definition sample_verified :: Verified where
  "sample_verified = \<lparr>computedHash = sample_keccak ''0x6001'', implementation = Some (Some (addr_of ''b2'')),
     implementationCodeHash = Some (sample_keccak ''0x600102''), upgradesFrozen = None, upgradeTimelock = None\<rparr>"

lemma sample_keccak_hash: "hex_of_len 64 (sample_keccak s)"
proof -
  have "length (show_nat (length s mod 9 + 1)) \<le> 1" by (rule length_show_nat_le) auto
  moreover have "list_all is_hex_char (pad_start 64 (show_nat (length s mod 9 + 1)))"
    by (rule list.pred_mono_strong [of is_digit]) (simp_all add: is_hex_char_def)
  ultimately show ?thesis
    by (simp add: hex_of_len_def hex_prefixed_def sample_keccak_def length_pad_start)
qed

lemma sample_verifies:
  "verifyGatewayAt sample_keccak sample_codec sample_provider (addr_of ''a1'') (Some (sample_keccak ''0x6001''))
     (pin_of sample_verified) = Some (IsVerified sample_verified)"
  by code_simp

theorem reverifyGateway_sound_witness:
  "reverifyGateway sample_keccak sample_codec (Some sample_provider) (addr_of ''a1'') sample_verified (Some 8453) = Inr ()
   \<and> (\<exists>block b. sample_provider ''eth_getCode'' [JStr (addr_of ''a1''), block] = Some (JStr b)
        \<and> lc (sample_keccak b) = lc (computedHash sample_verified))"
proof -
  have ok: "reverifyGateway sample_keccak sample_codec (Some sample_provider) (addr_of ''a1'') sample_verified
     (Some 8453) = Inr ()" by code_simp
  from reverifyGateway_sound [OF ok] ok show ?thesis by auto
qed

theorem reverifyGateway_unchanged_witness:
  "reverifyGateway sample_keccak sample_codec (Some sample_provider) (addr_of ''a1'') sample_verified (Some 8453) = Inr ()"
proof (rule reverifyGateway_unchanged [OF sample_keccak_hash sample_verifies])
  show "sample_provider ''eth_chainId'' [] = Some (JStr ''0x2105'')" by code_simp
  show "js_number (JStr ''0x2105'') = Some 8453" by code_simp
qed

end
