(* ===== verification/CodePins.thy ===== *)
theory CodePins
  imports GatewayVerify Settings
begin

text \<open>
  \<open>codePins.ts\<close>: the build-time code-hash and implementation pins of vaults, router and gateway, and the
  check of one target against them. \<open>JSON.parse\<close> is a parameter, \<^const>\<open>None\<close> when it throws. The sentences of
  \<open>describeCause\<close> are not modelled; the cause they print is.
\<close>

section \<open>Pins of a build\<close>

definition VAULT_CODE_HASH_PIN_KEY :: string where
  "VAULT_CODE_HASH_PIN_KEY = ''VITE_VAULT_EXPECTED_CODE_HASH''"
definition ROUTER_CODE_HASH_PIN_KEY :: string where
  "ROUTER_CODE_HASH_PIN_KEY = ''VITE_ROUTER_EXPECTED_CODE_HASH''"
definition GATEWAY_CODE_HASH_PIN_KEY :: string where
  "GATEWAY_CODE_HASH_PIN_KEY = ''VITE_GATEWAY_EXPECTED_CODE_HASH''"
definition VAULT_IMPLEMENTATION_HASH_PIN_KEY :: string where
  "VAULT_IMPLEMENTATION_HASH_PIN_KEY = ''VITE_VAULT_EXPECTED_IMPLEMENTATION_HASH''"
definition ROUTER_IMPLEMENTATION_HASH_PIN_KEY :: string where
  "ROUTER_IMPLEMENTATION_HASH_PIN_KEY = ''VITE_ROUTER_EXPECTED_IMPLEMENTATION_HASH''"
definition GATEWAY_IMPLEMENTATION_HASH_PIN_KEY :: string where
  "GATEWAY_IMPLEMENTATION_HASH_PIN_KEY = ''VITE_GATEWAY_EXPECTED_IMPLEMENTATION_HASH''"
definition GATEWAY_IMPLEMENTATION_ADDRESS_PIN_KEY :: string where
  "GATEWAY_IMPLEMENTATION_ADDRESS_PIN_KEY = ''VITE_GATEWAY_EXPECTED_IMPLEMENTATION''"

type_synonym CodePins = "string \<rightharpoonup> string"
type_synonym ImplementationPins = "string \<rightharpoonup> string list"
type_synonym ImplementationAddressPins = "string \<rightharpoonup> string"

definition parseImplementationPins :: "string option \<Rightarrow> string list" where
  "parseImplementationPins raw =
     (case raw of None \<Rightarrow> []
      | Some r \<Rightarrow>
          filter (\<lambda>s. take 2 s = ''0x'' \<and> list_all is_lower_hex_char (drop 2 s) \<and> length s = 66 \<and> \<not> zero_of_len 64 s)
            (map (\<lambda>s. lc (trim s)) (split_on (CHR '','') r)))"

definition validHash :: "string \<Rightarrow> bool" where
  "validHash s = (hex_of_len 64 s \<and> \<not> zero_of_len 64 s)"

definition validAddress :: "string \<Rightarrow> bool" where
  "validAddress s = (hex_of_len 40 s \<and> \<not> zero_of_len 40 s)"

definition parseJsonMap :: "(string \<Rightarrow> js option) \<Rightarrow> string option \<Rightarrow> (string \<times> js) list" where
  "parseJsonMap json_parse raw =
     (case raw of None \<Rightarrow> []
      | Some r \<Rightarrow> if trim r = [] then []
                  else (case json_parse r of None \<Rightarrow> [] | Some v \<Rightarrow> entries v))"

fun vault_pins :: "(string \<times> js) list \<Rightarrow> CodePins \<Rightarrow> CodePins" where
  "vault_pins [] pins = pins"
| "vault_pins ((address, hash) # kvs) pins =
     vault_pins kvs
       (case hash of JStr h \<Rightarrow> if hex_of_len 40 address \<and> validHash h then pins(lc address \<mapsto> lc h) else pins
        | _ \<Rightarrow> pins)"

text \<open>\<open>pins.set(address.toLowerCase(), hash.toLowerCase())\<close> when both are valid.\<close>

definition pin_pair :: "(string \<Rightarrow> bool) \<Rightarrow> string option \<Rightarrow> string option \<Rightarrow> CodePins \<Rightarrow> CodePins" where
  "pin_pair ok_address address hash pins =
     (case (address, hash) of
        (Some a, Some h) \<Rightarrow> if ok_address a \<and> validHash h then pins(lc a \<mapsto> lc h) else pins
      | _ \<Rightarrow> pins)"

definition parseCodePins :: "(string \<Rightarrow> js option) \<Rightarrow> env \<Rightarrow> CodePins" where
  "parseCodePins json_parse env =
     (let vaults = vault_pins (parseJsonMap json_parse (env VAULT_CODE_HASH_PIN_KEY)) (\<lambda>_. None);
          router = pin_pair (hex_of_len 40) (env ''VITE_ROUTER_ADDRESS'') (env ROUTER_CODE_HASH_PIN_KEY) vaults
      in pin_pair validAddress (env ''VITE_GATEWAY_ADDRESS'')
           (map_option trim (env GATEWAY_CODE_HASH_PIN_KEY)) router)"

definition put_pins :: "string \<Rightarrow> string list \<Rightarrow> ImplementationPins \<Rightarrow> ImplementationPins" where
  "put_pins address hashes pins = (if hashes \<noteq> [] then pins(lc address \<mapsto> hashes) else pins)"

definition pin_text_of :: "js \<Rightarrow> string option" where
  "pin_text_of value = (case value of
       JArr vs \<Rightarrow> Some (join '','' (List.map_filter jstr vs))
     | JStr s \<Rightarrow> Some s
     | _ \<Rightarrow> None)"

fun vault_implementation_pins :: "(string \<times> js) list \<Rightarrow> ImplementationPins \<Rightarrow> ImplementationPins" where
  "vault_implementation_pins [] pins = pins"
| "vault_implementation_pins ((address, value) # kvs) pins =
     vault_implementation_pins kvs
       (if hex_of_len 40 address then put_pins address (parseImplementationPins (pin_text_of value)) pins else pins)"

definition gateway_implementation :: "env \<Rightarrow> (string \<times> string) option" where
  "gateway_implementation env =
     (case (env ''VITE_GATEWAY_ADDRESS'', map_option trim (env GATEWAY_IMPLEMENTATION_ADDRESS_PIN_KEY)) of
        (Some g, Some i) \<Rightarrow> if validAddress g \<and> validAddress i then Some (g, i) else None
      | _ \<Rightarrow> None)"

definition parseImplementationPinMap :: "(string \<Rightarrow> js option) \<Rightarrow> env \<Rightarrow> ImplementationPins" where
  "parseImplementationPinMap json_parse env =
     (let vaults = vault_implementation_pins
                     (parseJsonMap json_parse (env VAULT_IMPLEMENTATION_HASH_PIN_KEY)) (\<lambda>_. None);
          withRouter = (case env ''VITE_ROUTER_ADDRESS'' of
              Some r \<Rightarrow> if validAddress r
                        then put_pins r (parseImplementationPins (env ROUTER_IMPLEMENTATION_HASH_PIN_KEY)) vaults
                        else vaults
            | None \<Rightarrow> vaults)
      in case gateway_implementation env of
           Some (g, _) \<Rightarrow>
             put_pins g (take 1 (parseImplementationPins (env GATEWAY_IMPLEMENTATION_HASH_PIN_KEY))) withRouter
         | None \<Rightarrow> withRouter)"

definition parseImplementationAddressPins :: "env \<Rightarrow> ImplementationAddressPins" where
  "parseImplementationAddressPins env =
     (case gateway_implementation env of Some (g, i) \<Rightarrow> [lc g \<mapsto> lc i] | None \<Rightarrow> (\<lambda>_. None))"

definition implementationPinsFor :: "ImplementationPins \<Rightarrow> string \<Rightarrow> string list" where
  "implementationPinsFor pins address = (case pins (lc address) of None \<Rightarrow> [] | Some hs \<Rightarrow> hs)"

section \<open>Which writes need a pin\<close>

definition is_fn :: "js \<Rightarrow> string \<Rightarrow> bool" where
  "is_fn v name = (jget v ''functionName'' = JStr name)"

definition js_args :: "js \<Rightarrow> js list" where
  "js_args v = (case jget v ''args'' of JArr xs \<Rightarrow> xs | _ \<Rightarrow> [])"

definition str_or_empty :: "js \<Rightarrow> string" where
  "str_or_empty v = (case v of JStr s \<Rightarrow> s | _ \<Rightarrow> [])"

definition pinnedWriteTarget :: "js \<Rightarrow> string option \<Rightarrow> string option" where
  "pinnedWriteTarget v gateway =
     (if is_fn v ''deposit'' \<or> is_fn v ''mint'' then Some (str_or_empty (jget v ''address''))
      else if is_fn v ''approve'' \<or> is_fn v ''increaseAllowance'' then
        (let args = js_args v
         in if is_fn v ''approve'' \<and> 2 \<le> length args \<and> array_nth args 1 = JBig 0 then None
            else Some (str_or_empty (array_nth args 0)))
      else case (gateway, jget v ''address'') of
          (Some g, JStr a) \<Rightarrow> if validAddress g \<and> lc a = lc g then Some a else None
        | _ \<Rightarrow> None)"

definition isRouterDeposit :: "js \<Rightarrow> string option \<Rightarrow> bool" where
  "isRouterDeposit v router =
     (if \<not> is_fn v ''deposit'' \<and> \<not> is_fn v ''mint'' then False
      else if (case jget v ''args'' of JArr xs \<Rightarrow> (case array_nth xs 1 of JArr _ \<Rightarrow> True | _ \<Rightarrow> False) | _ \<Rightarrow> False)
      then True
      else case (router, jget v ''address'') of
          (Some r, JStr a) \<Rightarrow> validAddress r \<and> lc a = lc r
        | _ \<Rightarrow> False)"

section \<open>Checking one target\<close>

datatype CodePinCause =
    Pin_missing
  | Code_unreadable
  | No_code
  | Hash_mismatch
  | Implementation_unreadable
  | Implementation_pin_missing
  | Implementation_mismatch
  | Implementation_unexpected
  | Router_legs_unreadable

definition DEFINITE_PIN_REFUSALS :: "CodePinCause list" where
  "DEFINITE_PIN_REFUSALS = [No_code, Hash_mismatch, Implementation_pin_missing, Implementation_mismatch,
     Implementation_unexpected]"

text \<open>A refusal is a cause and what was found; an acceptance the code hash and the implementation hash.\<close>

type_synonym pin_refusal = "CodePinCause \<times> string option"
type_synonym CodePinResult = "pin_refusal + string \<times> string option"

definition checkCodePin :: "(string \<Rightarrow> string) \<Rightarrow> string \<Rightarrow> js \<Rightarrow> CodePins \<Rightarrow> pin_refusal + string" where
  "checkCodePin keccak256 target code pins =
     (case pins (lc target) of None \<Rightarrow> Inl (Pin_missing, None)
      | Some pin \<Rightarrow>
          (case code of
             JStr c \<Rightarrow>
               if \<not> hex_prefixed c then Inl (Code_unreadable, None)
               else if c = ''0x'' then Inl (No_code, None)
               else let got = lc (keccak256 c)
                    in if got \<noteq> pin then Inl (Hash_mismatch, Some got) else Inr got
           | _ \<Rightarrow> Inl (Code_unreadable, None)))"

record PinnedTargetReads =
  read_code :: js
  read_slot :: js
  read_implementationCode :: js

definition checkImplementationPin ::
  "(string \<Rightarrow> string) \<Rightarrow> string \<Rightarrow> js \<Rightarrow> js \<Rightarrow> ImplementationPins \<Rightarrow> ImplementationAddressPins
     \<Rightarrow> pin_refusal + string option" where
  "checkImplementationPin keccak256 target slot implementationCode pins addressPins =
     (case slot of
        JStr s \<Rightarrow>
          if \<not> hex_prefixed s \<or> length s > 66 then Inl (Implementation_unreadable, None)
          else let listed = implementationPinsFor pins target
               in (case implementationFromSlot s of
                     None \<Rightarrow> Inl (Implementation_unreadable, None)
                   | Some None \<Rightarrow> if listed \<noteq> [] then Inl (Implementation_unexpected, None) else Inr None
                   | Some (Some impl) \<Rightarrow>
                       if listed = [] then Inl (Implementation_pin_missing, None)
                       else if addressPins (lc target) \<noteq> None \<and> addressPins (lc target) \<noteq> Some (lc impl)
                       then Inl (Implementation_mismatch, Some impl)
                       else (case implementationCode of
                           JStr ic \<Rightarrow>
                             if \<not> hex_prefixed ic then Inl (Implementation_unreadable, None)
                             else if ic = ''0x'' then Inl (Implementation_mismatch, None)
                             else let got = lc (keccak256 ic)
                                  in if got \<notin> set listed then Inl (Implementation_mismatch, Some got)
                                     else Inr (Some got)
                         | _ \<Rightarrow> Inl (Implementation_unreadable, None)))
      | _ \<Rightarrow> Inl (Implementation_unreadable, None))"

definition verifyPinnedTarget ::
  "(string \<Rightarrow> string) \<Rightarrow> string \<Rightarrow> PinnedTargetReads \<Rightarrow> CodePins \<Rightarrow> ImplementationPins
     \<Rightarrow> ImplementationAddressPins \<Rightarrow> CodePinResult" where
  "verifyPinnedTarget keccak256 target reads codePins implementationPins implementationAddressPins =
     res_bind (checkCodePin keccak256 target (read_code reads) codePins) (\<lambda>hash.
     res_bind (checkImplementationPin keccak256 target (read_slot reads) (read_implementationCode reads)
                 implementationPins implementationAddressPins) (\<lambda>implementationHash.
     Inr (hash, implementationHash)))"

text \<open>\<open>WriteTargetPinError\<close>: target, cause, what was found, and the router when the target is one of its legs.\<close>

datatype WriteTargetPinError = PinError (pin_target: string) (pinCause: CodePinCause) (pin_got: "string option") (pin_router: "string option")

section \<open>When a target passes\<close>

text \<open>The code \<open>c\<close> is the pinned code of \<open>target\<close>.\<close>

definition pinned_code :: "(string \<Rightarrow> string) \<Rightarrow> CodePins \<Rightarrow> string \<Rightarrow> js \<Rightarrow> string \<Rightarrow> bool" where
  "pinned_code keccak256 pins target code h \<longleftrightarrow>
     (\<exists>c. code = JStr c \<and> hex_prefixed c \<and> c \<noteq> ''0x'' \<and> h = lc (keccak256 c) \<and> pins (lc target) = Some h)"

text \<open>What the slot and the code behind it must be: a direct contract, or a pinned implementation.\<close>

definition pinned_implementation ::
  "(string \<Rightarrow> string) \<Rightarrow> ImplementationPins \<Rightarrow> ImplementationAddressPins \<Rightarrow> string \<Rightarrow> js \<Rightarrow> js
     \<Rightarrow> string option \<Rightarrow> bool" where
  "pinned_implementation keccak256 ipins apins target slot code ih \<longleftrightarrow>
     (\<exists>s. slot = JStr s \<and> hex_prefixed s \<and> length s \<le> 66 \<and>
        (implementationFromSlot s = Some None \<and> implementationPinsFor ipins target = [] \<and> ih = None
         \<or> (\<exists>live c. implementationFromSlot s = Some (Some live)
              \<and> (\<forall>a. apins (lc target) = Some a \<longrightarrow> a = lc live)
              \<and> code = JStr c \<and> hex_prefixed c \<and> c \<noteq> ''0x''
              \<and> lc (keccak256 c) \<in> set (implementationPinsFor ipins target) \<and> ih = Some (lc (keccak256 c)))))"

lemma checkCodePin_ok: "checkCodePin keccak256 target code pins = Inr h \<longleftrightarrow> pinned_code keccak256 pins target code h"
  by (cases code) (auto simp: checkCodePin_def pinned_code_def Let_def split: option.splits)

lemma checkImplementationPin_ok:
  "checkImplementationPin keccak256 target slot code ipins apins = Inr ih
     \<longleftrightarrow> pinned_implementation keccak256 ipins apins target slot code ih"
proof (cases slot)
  case (JStr s)
  show ?thesis
    by (cases code)
      (auto simp: checkImplementationPin_def pinned_implementation_def JStr Let_def split: option.splits)
qed (simp_all add: checkImplementationPin_def pinned_implementation_def)

text \<open>
  A target passes the pin check exactly when the code at it is non-empty and has the hash pinned for
  that address (in any letter case), and the ERC-1967 slot is either empty with no implementation pinned,
  or names an implementation (the pinned address, where one is pinned) whose non-empty code has one of the
  pinned implementation hashes. The two hashes it returns are those of the code read.
\<close>

theorem verifyPinnedTarget_ok_iff:
  "verifyPinnedTarget keccak256 target r cpins ipins apins = Inr (h, ih) \<longleftrightarrow>
     pinned_code keccak256 cpins target (read_code r) h
     \<and> pinned_implementation keccak256 ipins apins target (read_slot r) (read_implementationCode r) ih"
  by (auto simp: verifyPinnedTarget_def checkCodePin_ok checkImplementationPin_ok)

section \<open>Pins are well formed\<close>

definition wf_code_pins :: "CodePins \<Rightarrow> bool" where
  "wf_code_pins pins \<longleftrightarrow> (\<forall>a h. pins a = Some h \<longrightarrow> hex_of_len 40 a \<and> lc a = a \<and> validHash h \<and> lc h = h)"

definition wf_implementation_pins :: "ImplementationPins \<Rightarrow> bool" where
  "wf_implementation_pins pins \<longleftrightarrow>
     (\<forall>a hs. pins a = Some hs \<longrightarrow> hex_of_len 40 a \<and> lc a = a \<and> hs \<noteq> [] \<and> (\<forall>h \<in> set hs. validHash h \<and> lc h = h))"

definition wf_address_pins :: "ImplementationAddressPins \<Rightarrow> bool" where
  "wf_address_pins pins \<longleftrightarrow>
     (\<forall>a i. pins a = Some i \<longrightarrow> hex_of_len 40 a \<and> lc a = a \<and> hex_of_len 40 i \<and> lc i = i)"

lemma lc_char_zero: "lc_char c = CHR ''0'' \<longleftrightarrow> c = CHR ''0''"
proof (cases "65 \<le> char_code c \<and> char_code c \<le> 90")
  case True
  then have "char_code (lc_char c) = char_code c + 32" by (simp add: lc_char_def)
  with True show ?thesis by auto
qed (auto simp: lc_char_def)

lemma zero_of_len_lc: "hex_prefixed s \<Longrightarrow> zero_of_len n (lc s) \<longleftrightarrow> zero_of_len n s"
proof -
  assume "hex_prefixed s"
  then obtain t where s: "s = ''0x'' @ t" using hex_prefixed_shape by blast
  have "lc t = replicate n (CHR ''0'') \<longleftrightarrow> t = replicate n (CHR ''0'')"
    by (auto simp: lc_def list_eq_iff_nth_eq lc_char_zero)
  moreover have "lc s = ''0x'' @ lc t" by (simp only: s lc_append lc_0x)
  ultimately show ?thesis by (simp add: zero_of_len_def s)
qed

lemma validHash_lc: "validHash h \<Longrightarrow> validHash (lc h)"
  by (auto simp: validHash_def hex_of_len_lc zero_of_len_lc hex_of_len_def hex_prefixed_lc)

lemma wf_pin: "wf_code_pins pins \<Longrightarrow> hex_of_len 40 a \<Longrightarrow> validHash h \<Longrightarrow> wf_code_pins (pins(lc a \<mapsto> lc h))"
  by (simp add: wf_code_pins_def hex_of_len_lc validHash_lc)

lemma wf_vault_pins: "wf_code_pins pins \<Longrightarrow> wf_code_pins (vault_pins kvs pins)"
  by (induction kvs pins rule: vault_pins.induct) (simp_all add: wf_pin split: js.splits)

lemma wf_pin_pair:
  "wf_code_pins pins \<Longrightarrow> (\<And>a. ok a \<Longrightarrow> hex_of_len 40 a) \<Longrightarrow> wf_code_pins (pin_pair ok a h pins)"
  by (simp add: pin_pair_def wf_pin split: option.splits)

lemma validAddress_hex: "validAddress a \<Longrightarrow> hex_of_len 40 a"
  by (simp add: validAddress_def)

lemma parseImplementationPins_wf: "h \<in> set (parseImplementationPins raw) \<Longrightarrow> validHash h \<and> lc h = h"
  by (auto simp: parseImplementationPins_def validHash_def hex_of_len_def hex_prefixed_def list_all_iff
      lower_hex_is_hex split: option.splits)

lemma wf_put_pins:
  "wf_implementation_pins pins \<Longrightarrow> hex_of_len 40 a \<Longrightarrow> (\<And>h. h \<in> set hs \<Longrightarrow> validHash h \<and> lc h = h)
     \<Longrightarrow> wf_implementation_pins (put_pins a hs pins)"
  by (simp add: wf_implementation_pins_def put_pins_def hex_of_len_lc)

lemma wf_vault_implementation_pins:
  "wf_implementation_pins pins \<Longrightarrow> wf_implementation_pins (vault_implementation_pins kvs pins)"
  by (induction kvs pins rule: vault_implementation_pins.induct)
    (simp_all add: wf_put_pins parseImplementationPins_wf)

lemma gateway_implementation_valid:
  "gateway_implementation env = Some (g, i) \<Longrightarrow> validAddress g \<and> validAddress i"
  by (auto simp: gateway_implementation_def split: option.splits if_splits)

text \<open>
  Whatever the build-time strings hold, every pin that is kept is a lower-case address with a
  lower-case, non-zero 32-byte hash, and an address with implementation pins has at least one; so the
  case-folded lookup of the check can always meet a pin and a malformed entry reads as no pin.
\<close>

theorem parsed_pins_wf:
  "wf_code_pins (parseCodePins json_parse env) \<and> wf_implementation_pins (parseImplementationPinMap json_parse env)
   \<and> wf_address_pins (parseImplementationAddressPins env)"
proof (intro conjI)
  show "wf_code_pins (parseCodePins json_parse env)"
    unfolding parseCodePins_def Let_def
    by (intro wf_pin_pair wf_vault_pins) (simp_all add: wf_code_pins_def validAddress_hex)
  have "wf_implementation_pins (\<lambda>_. None)" by (simp add: wf_implementation_pins_def)
  then show "wf_implementation_pins (parseImplementationPinMap json_parse env)"
    unfolding parseImplementationPinMap_def Let_def
    by (auto simp: wf_put_pins wf_vault_implementation_pins validAddress_hex parseImplementationPins_wf
        split: option.splits dest!: gateway_implementation_valid intro!: wf_put_pins
        dest: in_set_takeD parseImplementationPins_wf)
  show "wf_address_pins (parseImplementationAddressPins env)"
    by (auto simp: wf_address_pins_def parseImplementationAddressPins_def hex_of_len_lc validAddress_def
        split: option.splits if_splits dest!: gateway_implementation_valid)
qed

text \<open>
  A runtime document cannot move a pin on mainnet: after \<open>/config.json\<close> is applied to a mainnet build,
  the code pins, the implementation pins and the implementation address pins are the ones the bundle
  carries, and so are the router and gateway addresses that decide which write needs which pin.
\<close>

theorem mainnet_pins_fixed:
  assumes "loadRuntimeConfig fetched buildEnv = Inr l" and "buildEnv BUILD_TIME_ENV_CLASS_KEY = Some ''mainnet''"
  shows "parseCodePins json_parse (loaded_config l) = parseCodePins json_parse buildEnv
    \<and> parseImplementationPinMap json_parse (loaded_config l) = parseImplementationPinMap json_parse buildEnv
    \<and> parseImplementationAddressPins (loaded_config l) = parseImplementationAddressPins buildEnv
    \<and> loaded_config l ''VITE_ROUTER_ADDRESS'' = buildEnv ''VITE_ROUTER_ADDRESS''
    \<and> loaded_config l ''VITE_GATEWAY_ADDRESS'' = buildEnv ''VITE_GATEWAY_ADDRESS''"
proof -
  have same: "loaded_config l k = buildEnv k" if "k \<notin> set MAINNET_RUNTIME_KEYS" for k
    using config_off_keys [OF assms(1)] assms(2) that by simp
  note keys = VAULT_CODE_HASH_PIN_KEY_def ROUTER_CODE_HASH_PIN_KEY_def GATEWAY_CODE_HASH_PIN_KEY_def
    VAULT_IMPLEMENTATION_HASH_PIN_KEY_def ROUTER_IMPLEMENTATION_HASH_PIN_KEY_def
    GATEWAY_IMPLEMENTATION_HASH_PIN_KEY_def GATEWAY_IMPLEMENTATION_ADDRESS_PIN_KEY_def MAINNET_RUNTIME_KEYS_def
  have eqs: "loaded_config l ''VITE_ROUTER_ADDRESS'' = buildEnv ''VITE_ROUTER_ADDRESS''"
    "loaded_config l ''VITE_GATEWAY_ADDRESS'' = buildEnv ''VITE_GATEWAY_ADDRESS''"
    "loaded_config l VAULT_CODE_HASH_PIN_KEY = buildEnv VAULT_CODE_HASH_PIN_KEY"
    "loaded_config l ROUTER_CODE_HASH_PIN_KEY = buildEnv ROUTER_CODE_HASH_PIN_KEY"
    "loaded_config l GATEWAY_CODE_HASH_PIN_KEY = buildEnv GATEWAY_CODE_HASH_PIN_KEY"
    "loaded_config l VAULT_IMPLEMENTATION_HASH_PIN_KEY = buildEnv VAULT_IMPLEMENTATION_HASH_PIN_KEY"
    "loaded_config l ROUTER_IMPLEMENTATION_HASH_PIN_KEY = buildEnv ROUTER_IMPLEMENTATION_HASH_PIN_KEY"
    "loaded_config l GATEWAY_IMPLEMENTATION_HASH_PIN_KEY = buildEnv GATEWAY_IMPLEMENTATION_HASH_PIN_KEY"
    "loaded_config l GATEWAY_IMPLEMENTATION_ADDRESS_PIN_KEY = buildEnv GATEWAY_IMPLEMENTATION_ADDRESS_PIN_KEY"
    by (rule same, simp add: keys)+
  have gw: "gateway_implementation (loaded_config l) = gateway_implementation buildEnv"
    by (simp only: gateway_implementation_def eqs)
  show ?thesis
    by (simp only: parseCodePins_def parseImplementationPinMap_def parseImplementationAddressPins_def eqs gw simp_thms)
qed

definition sample_env :: env where
  "sample_env = [''VITE_ENV_CLASS'' \<mapsto> ''mainnet'', ''VITE_GATEWAY_ADDRESS'' \<mapsto> addr_of ''a1'',
     ''VITE_GATEWAY_EXPECTED_CODE_HASH'' \<mapsto> sample_keccak ''0x6001'',
     ''VITE_GATEWAY_EXPECTED_IMPLEMENTATION'' \<mapsto> addr_of ''b2'',
     ''VITE_GATEWAY_EXPECTED_IMPLEMENTATION_HASH'' \<mapsto> sample_keccak ''0x600102'',
     ''VITE_ROUTER_ADDRESS'' \<mapsto> addr_of ''c3'', ''VITE_ROUTER_EXPECTED_CODE_HASH'' \<mapsto> sample_keccak ''0x60010203'',
     ''VITE_VAULT_EXPECTED_CODE_HASH'' \<mapsto> ''{vaults}'']"

theorem mainnet_pins_fixed_witness:
  "\<exists>l. loadRuntimeConfig (Some (sample_response (JObj [(''VITE_ROUTER_ADDRESS'', JStr (addr_of ''dd''))]))) sample_env = Inr l
     \<and> parseCodePins (\<lambda>_. None) (loaded_config l) (addr_of ''c3'') = Some (sample_keccak ''0x60010203'')
     \<and> parseCodePins (\<lambda>_. None) (loaded_config l) (addr_of ''dd'') = None"
proof -
  let ?r = "loadRuntimeConfig (Some (sample_response (JObj [(''VITE_ROUTER_ADDRESS'', JStr (addr_of ''dd''))]))) sample_env"
  have "is_ok ?r" by code_simp
  then obtain l where l: "?r = Inr l" by (auto simp: is_ok_iff)
  have m: "sample_env BUILD_TIME_ENV_CLASS_KEY = Some ''mainnet''" by code_simp
  have "parseCodePins (\<lambda>_. None) (loaded_config l) = parseCodePins (\<lambda>_. None) sample_env"
    using mainnet_pins_fixed [OF l m] by blast
  moreover have "parseCodePins (\<lambda>_. None) sample_env (addr_of ''c3'') = Some (sample_keccak ''0x60010203'')"
    "parseCodePins (\<lambda>_. None) sample_env (addr_of ''dd'') = None" by code_simp+
  ultimately show ?thesis using l by auto
qed

section \<open>The two gateway checks agree\<close>

lemma hex_no_comma: "hex_prefixed s \<Longrightarrow> CHR '','' \<notin> set s"
proof -
  assume "hex_prefixed s"
  then obtain t where "s = ''0x'' @ t" "list_all is_hex_char t" using hex_prefixed_shape by blast
  moreover have "\<not> is_hex_char (CHR '','')" by code_simp
  ultimately show ?thesis by (auto simp: list_all_iff)
qed

lemma lc_hex_lower:
  "hex_prefixed s \<Longrightarrow> take 2 (lc s) = ''0x'' \<and> list_all is_lower_hex_char (drop 2 (lc s))"
proof -
  assume "hex_prefixed s"
  then obtain t where s: "s = ''0x'' @ t" and t: "list_all is_hex_char t" using hex_prefixed_shape by blast
  have "lc s = ''0x'' @ lc t" by (simp only: s lc_append lc_0x)
  moreover have "list_all is_lower_hex_char (lc t)" using t by (auto simp: lc_def list_all_iff)
  ultimately show ?thesis by simp
qed

lemma parseImplementationPins_one:
  assumes "validHash h"
  shows "parseImplementationPins (Some h) = [lc h]"
proof -
  have hex: "hex_prefixed h" "length h = 66" using assms by (auto simp: validHash_def hex_of_len_def)
  have "split_on (CHR '','') h = [h]" using hex_no_comma [OF hex(1)] by (rule split_on_plain)
  moreover have "\<not> zero_of_len 64 (lc h)"
    using assms zero_of_len_lc [OF hex(1)] by (simp add: validHash_def)
  ultimately show ?thesis
    using hex lc_hex_lower [OF hex(1)] by (simp add: parseImplementationPins_def hex_prefixed_trim)
qed

lemma vault_implementation_pins_other:
  "\<forall>kv \<in> set kvs. lc (fst kv) \<noteq> x \<Longrightarrow> vault_implementation_pins kvs pins x = pins x"
  by (induction kvs pins rule: vault_implementation_pins.induct) (auto simp: put_pins_def)



end
