(* ===== verification/WriteGuard.thy ===== *)
theory WriteGuard
  imports CodePins
begin

text \<open>
  The one path by which the dapp sends a contract write: \<open>writeChainGuard.ts\<close>, \<open>redeemGas.ts\<close>,
  \<open>parseVaultAddressMap\<close> of \<open>consensusReceiptApi.ts\<close> and \<open>useGuardedWriteContract.ts\<close>.

  The hook's state is the module-wide set of targets seen with code and the refusal it shows; a write
  takes the state, the render's context and the variables, and gives the new state and what is handed to
  the wallet, if anything. The provider of the connector answers as one function during a preflight.
  The \<open>onError\<close> callback of the caller gets the same error as the state and is not modelled apart.
\<close>

section \<open>Chain guard\<close>

definition BASE_MAINNET_CHAIN_ID :: int where
  "BASE_MAINNET_CHAIN_ID = 8453"

definition isMainnetClass :: "env \<Rightarrow> bool" where
  "isMainnetClass env = (env ''VITE_ENV_CLASS'' = Some ''mainnet'')"

definition resolveWriteTargetChainId :: "env \<Rightarrow> int option" where
  "resolveWriteTargetChainId env = (if isMainnetClass env then Some BASE_MAINNET_CHAIN_ID else None)"

datatype WriteGuardState =
    Not_applicable
  | Guard_ok int
  | Wrong_chain int int
  | Not_connected int

definition evaluateWriteGuard :: "env \<Rightarrow> int option \<Rightarrow> WriteGuardState" where
  "evaluateWriteGuard env connectedChainId =
     (case resolveWriteTargetChainId env of None \<Rightarrow> Not_applicable
      | Some targetChainId \<Rightarrow>
          (case connectedChainId of None \<Rightarrow> Not_connected targetChainId
           | Some c \<Rightarrow> if c \<noteq> targetChainId then Wrong_chain targetChainId c else Guard_ok targetChainId))"

definition isWriteBlocked :: "WriteGuardState \<Rightarrow> bool" where
  "isWriteBlocked state = (case state of Wrong_chain _ _ \<Rightarrow> True | Not_connected _ \<Rightarrow> True | _ \<Rightarrow> False)"

section \<open>Redeem gas\<close>

definition REDEEM_GAS_LIMIT_WORKAROUND_1758 :: "int option" where
  "REDEEM_GAS_LIMIT_WORKAROUND_1758 = Some 2500000"

definition parseVaultAddressMap :: "(string \<Rightarrow> js option) \<Rightarrow> string option \<Rightarrow> (string \<times> string) list option" where
  "parseVaultAddressMap json_parse raw =
     (case raw of None \<Rightarrow> None
      | Some r \<Rightarrow>
          if r = [] then None
          else case json_parse r of None \<Rightarrow> None
          | Some parsed \<Rightarrow>
              if \<not> is_record parsed then None
              else let address = (\<lambda>symbol. case jget parsed symbol of
                           JStr a \<Rightarrow> if hex_of_len 40 a then Some a else None | _ \<Rightarrow> None)
                   in case (address ''rmUSDC'', address ''rmPROTO'', address ''rmRWA'') of
                        (Some u, Some p, Some w) \<Rightarrow>
                          Some ([(''rmUSDC'', u), (''rmPROTO'', p), (''rmRWA'', w)]
                                @ (case address ''rmAGENT'' of Some a \<Rightarrow> [(''rmAGENT'', a)] | None \<Rightarrow> []))
                      | _ \<Rightarrow> None)"

definition robotMoneyVaultTargets :: "(string \<Rightarrow> js option) \<Rightarrow> env \<Rightarrow> string list" where
  "robotMoneyVaultTargets json_parse env =
     (let add = (\<lambda>value. case value of None \<Rightarrow> []
              | Some a \<Rightarrow> if hex_of_len 40 a \<and> lc a \<noteq> zero_address then [lc a] else [])
      in add (env ''VITE_VAULT_ADDRESS'')
         @ add (case parseVaultAddressMap json_parse (env ''VITE_VAULT_ADDRESSES'') of
                  None \<Rightarrow> None | Some m \<Rightarrow> map_of m ''rmUSDC''))"

definition redeemedVault :: "js \<Rightarrow> js" where
  "redeemedVault v =
     (if is_fn v ''redeem'' then jget v ''address''
      else if is_fn v ''redeemFor'' then
        (case jget v ''args'' of
           JArr args \<Rightarrow> (case array_nth args 2 of JArr [x] \<Rightarrow> x | _ \<Rightarrow> JUndef)
         | _ \<Rightarrow> JUndef)
      else JUndef)"

definition withRedeemGasWorkaround :: "js \<Rightarrow> string list \<Rightarrow> js" where
  "withRedeemGasWorkaround variables robotMoneyVaults =
     (case REDEEM_GAS_LIMIT_WORKAROUND_1758 of None \<Rightarrow> variables
      | Some limit \<Rightarrow>
          if \<not> is_record variables then variables
          else if jget variables ''gas'' \<noteq> JUndef then variables
          else (case redeemedVault variables of
                  JStr vault \<Rightarrow>
                    if lc vault \<in> set robotMoneyVaults then jput variables ''gas'' (JBig limit) else variables
                | _ \<Rightarrow> variables))"

section \<open>Checks before a write\<close>

datatype code_reason = Is_missing | Could_not_be_checked | Has_no_code

datatype write_error =
    WrongChainError WriteGuardState
  | WriteTargetCodeError js code_reason
  | PinRefused WriteTargetPinError
  | GatewayRefused GatewayChangedError
  | TypeError

text \<open>
  What the hook takes from viem and the JSON parser: \<open>keccak256\<close>, the coding of the two upgrade views, the
  call data of \<open>getEffectiveWeights()\<close>, the vaults its result decodes to, and \<open>JSON.parse\<close>.
\<close>

record lib =
  lib_keccak256 :: "string \<Rightarrow> string"
  lib_views :: views_codec
  weightsCall :: string
  decodeWeights :: "string \<Rightarrow> string list option"
  jsonParse :: "string \<Rightarrow> js option"

definition assertTargetHasCode :: "provider option \<Rightarrow> js \<Rightarrow> string list \<Rightarrow> write_error + string list" where
  "assertTargetHasCode source address targetsWithCode =
     (case address of
        JStr a \<Rightarrow>
          if lc a \<in> set targetsWithCode then Inr targetsWithCode
          else (case source of None \<Rightarrow> Inl (WriteTargetCodeError address Could_not_be_checked)
                | Some p \<Rightarrow>
                    (case p ''eth_getCode'' [address, JStr ''latest''] of
                       None \<Rightarrow> Inl (WriteTargetCodeError address Could_not_be_checked)
                     | Some (JStr c) \<Rightarrow>
                         if c = ''0x'' \<or> c = [] then Inl (WriteTargetCodeError address Has_no_code)
                         else Inr (lc a # targetsWithCode)
                     | Some _ \<Rightarrow> Inl (WriteTargetCodeError address Has_no_code)))
      | _ \<Rightarrow> Inl (WriteTargetCodeError address Is_missing))"

definition readBlock :: "provider \<Rightarrow> string option" where
  "readBlock p =
     (case p ''eth_blockNumber'' [] of
        Some (JStr b) \<Rightarrow> if hex_prefixed b \<and> 2 < length b then Some b else None
      | _ \<Rightarrow> None)"

definition readPinnedTarget :: "provider \<Rightarrow> string \<Rightarrow> string \<Rightarrow> PinnedTargetReads option" where
  "readPinnedTarget p target block =
     (case p ''eth_getCode'' [JStr target, JStr block] of None \<Rightarrow> None
      | Some code \<Rightarrow>
          (case p ''eth_getStorageAt'' [JStr target, JStr ERC1967_IMPLEMENTATION_SLOT, JStr block] of
             None \<Rightarrow> Some \<lparr>read_code = code, read_slot = JUndef, read_implementationCode = JUndef\<rparr>
           | Some slot \<Rightarrow>
               (case (case slot of JStr s \<Rightarrow>
                        if hex_prefixed s \<and> length s \<le> 66 then implementationFromSlot s else Some None
                      | _ \<Rightarrow> Some None) of
                  Some (Some impl) \<Rightarrow>
                    Some \<lparr>read_code = code, read_slot = slot,
                      read_implementationCode =
                        (case p ''eth_getCode'' [JStr impl, JStr block] of None \<Rightarrow> JUndef | Some c \<Rightarrow> c)\<rparr>
                | _ \<Rightarrow> Some \<lparr>read_code = code, read_slot = slot, read_implementationCode = JNull\<rparr>)))"

definition readRouterLegs :: "lib \<Rightarrow> provider \<Rightarrow> string \<Rightarrow> string \<Rightarrow> string list option" where
  "readRouterLegs L p router block =
     (case p ''eth_call'' [JObj [(''to'', JStr router), (''data'', JStr (weightsCall L))], JStr block] of
        Some (JStr out) \<Rightarrow> if hex_prefixed out then decodeWeights L out else None
      | _ \<Rightarrow> None)"

definition check_leg ::
  "lib \<Rightarrow> provider \<Rightarrow> string \<Rightarrow> string \<Rightarrow> CodePins \<Rightarrow> ImplementationPins \<Rightarrow> string \<Rightarrow> WriteTargetPinError + unit" where
  "check_leg L p router block pins implementationPins leg =
     (if pins (lc leg) = None then Inl (PinError leg Pin_missing None (Some router))
      else case readPinnedTarget p leg block of
          None \<Rightarrow> Inl (PinError leg Code_unreadable None (Some router))
        | Some reads \<Rightarrow>
            (case verifyPinnedTarget (lib_keccak256 L) leg reads pins implementationPins (\<lambda>_. None) of
               Inl (cause, got) \<Rightarrow> Inl (PinError leg cause got (Some router))
             | Inr _ \<Rightarrow> Inr ()))"

fun check_legs ::
  "lib \<Rightarrow> provider \<Rightarrow> string \<Rightarrow> string \<Rightarrow> CodePins \<Rightarrow> ImplementationPins \<Rightarrow> string list \<Rightarrow> string list
     \<Rightarrow> WriteTargetPinError + unit" where
  "check_legs L p router block pins implementationPins seen [] = Inr ()"
| "check_legs L p router block pins implementationPins seen (leg # legs) =
     (if lc leg \<in> set seen then check_legs L p router block pins implementationPins seen legs
      else res_bind (check_leg L p router block pins implementationPins leg) (\<lambda>_.
             check_legs L p router block pins implementationPins (lc leg # seen) legs))"

definition assertRouterLegsPinned ::
  "lib \<Rightarrow> provider \<Rightarrow> string \<Rightarrow> string \<Rightarrow> CodePins \<Rightarrow> ImplementationPins \<Rightarrow> WriteTargetPinError + unit" where
  "assertRouterLegsPinned L p router block pins implementationPins =
     (case readRouterLegs L p router block of
        None \<Rightarrow> Inl (PinError router Router_legs_unreadable None None)
      | Some legs \<Rightarrow> check_legs L p router block pins implementationPins [] legs)"

text \<open>The pins a build carries, with the router and gateway addresses that go with them.\<close>

record pin_set =
  code_pins :: CodePins
  implementation_pins :: ImplementationPins
  address_pins :: ImplementationAddressPins
  gateway_addr :: "string option"
  router_addr :: "string option"

definition assertTargetPinned :: "lib \<Rightarrow> provider option \<Rightarrow> js \<Rightarrow> pin_set \<Rightarrow> WriteTargetPinError + unit" where
  "assertTargetPinned L source variables ps =
     (case pinnedWriteTarget variables (gateway_addr ps) of None \<Rightarrow> Inr ()
      | Some target \<Rightarrow>
          if code_pins ps (lc target) = None then Inl (PinError target Pin_missing None None)
          else case source of None \<Rightarrow> Inl (PinError target Code_unreadable None None)
          | Some p \<Rightarrow>
              (case readBlock p of None \<Rightarrow> Inl (PinError target Code_unreadable None None)
               | Some block \<Rightarrow>
                   (case readPinnedTarget p target block of None \<Rightarrow> Inl (PinError target Code_unreadable None None)
                    | Some reads \<Rightarrow>
                        (case verifyPinnedTarget (lib_keccak256 L) target reads (code_pins ps) (implementation_pins ps)
                                (address_pins ps) of
                           Inl (cause, got) \<Rightarrow> Inl (PinError target cause got None)
                         | Inr _ \<Rightarrow>
                             if isRouterDeposit variables (router_addr ps)
                             then assertRouterLegsPinned L p target block (code_pins ps) (implementation_pins ps)
                             else Inr ()))))"

text \<open>The first check extends the set of targets with code even when a later one refuses.\<close>

definition assertWriteTarget ::
  "lib \<Rightarrow> provider option \<Rightarrow> js \<Rightarrow> pin_set \<Rightarrow> string list \<Rightarrow> (write_error + unit) \<times> string list" where
  "assertWriteTarget L source variables ps targetsWithCode =
     (if jnullish variables then (Inl TypeError, targetsWithCode)
      else case assertTargetHasCode source (jget variables ''address'') targetsWithCode of
          Inl e \<Rightarrow> (Inl e, targetsWithCode)
        | Inr targets \<Rightarrow>
            (case assertTargetPinned L source variables ps of
               Inl e \<Rightarrow> (Inl (PinRefused e), targets) | Inr _ \<Rightarrow> (Inr (), targets)))"

definition nestedTargetOf :: "js \<Rightarrow> js" where
  "nestedTargetOf v =
     (if \<not> is_fn v ''schedule'' \<and> \<not> is_fn v ''execute'' then JUndef
      else case jget v ''args'' of JArr args \<Rightarrow> array_nth args 0 | _ \<Rightarrow> JUndef)"

section \<open>The write hook\<close>

text \<open>
  What one render of the hook sees. \<open>gateway_check\<close> is the nearest \<open>GatewayWriteCheck\<close>: its gateway address, the
  cached verification and the injected provider.
\<close>

record write_ctx =
  ctx_env :: env
  connector :: "provider option"
  account_chainId :: "int option"
  isConnected :: bool
  gateway_check :: "(string \<times> VerificationState \<times> provider option) option"

record write_session =
  cached_targets :: "string list"
  refusal :: "write_error option"

definition useWriteChainGuard :: "write_ctx \<Rightarrow> WriteGuardState" where
  "useWriteChainGuard c = evaluateWriteGuard (ctx_env c) (if isConnected c then account_chainId c else None)"

definition pins_of :: "lib \<Rightarrow> env \<Rightarrow> pin_set" where
  "pins_of L env = \<lparr>code_pins = parseCodePins (jsonParse L) env,
     implementation_pins = parseImplementationPinMap (jsonParse L) env,
     address_pins = parseImplementationAddressPins env,
     gateway_addr = env ''VITE_GATEWAY_ADDRESS'', router_addr = env ''VITE_ROUTER_ADDRESS''\<rparr>"

definition pinned_chain :: "write_ctx \<Rightarrow> int option" where
  "pinned_chain c = (case useWriteChainGuard c of Guard_ok target \<Rightarrow> Some target | _ \<Rightarrow> None)"

text \<open>\<open>{ ...variables, chainId }\<close>\<close>

definition spread_put :: "js \<Rightarrow> string \<Rightarrow> js \<Rightarrow> js" where
  "spread_put v k x = jput (if is_record v then v else JObj []) k x"

definition pin_variables :: "lib \<Rightarrow> write_ctx \<Rightarrow> js \<Rightarrow> js" where
  "pin_variables L c variables =
     withRedeemGasWorkaround
       (case pinned_chain c of None \<Rightarrow> variables | Some n \<Rightarrow> spread_put variables ''chainId'' (JNum n))
       (robotMoneyVaultTargets (jsonParse L) (ctx_env c))"

definition run_gateway_check :: "lib \<Rightarrow> write_ctx \<Rightarrow> js \<Rightarrow> write_error + unit" where
  "run_gateway_check L c variables =
     (case gateway_check c of None \<Rightarrow> Inr ()
      | Some (gw, verification, injected) \<Rightarrow>
          if jnullish variables then Inl TypeError
          else (case gatewayWriteCheck (lib_keccak256 L) (lib_views L) gw verification injected
                       \<lparr>req_target = jget variables ''address'', req_nestedTarget = nestedTargetOf variables,
                        req_provider = connector c, req_chainId = account_chainId c\<rparr> of
                  Inl e \<Rightarrow> Inl (GatewayRefused e) | Inr _ \<Rightarrow> Inr ()))"

definition preflight :: "lib \<Rightarrow> write_ctx \<Rightarrow> js \<Rightarrow> string list \<Rightarrow> (write_error + unit) \<times> string list" where
  "preflight L c variables seen =
     (case (if pinned_chain c \<noteq> None
            then assertWriteTarget L (connector c) variables (pins_of L (ctx_env c)) seen
            else (Inr (), seen)) of
        (Inl e, seen') \<Rightarrow> (Inl e, seen')
      | (Inr _, seen') \<Rightarrow> (run_gateway_check L c variables, seen'))"

text \<open>\<open>writeContract\<close>: the new state, and the variables handed to the wallet when the write is sent.\<close>

definition writeContract :: "lib \<Rightarrow> write_ctx \<Rightarrow> write_session \<Rightarrow> js \<Rightarrow> write_session \<times> js option" where
  "writeContract L c s variables =
     (if isWriteBlocked (useWriteChainGuard c)
      then (s\<lparr>refusal := Some (WrongChainError (useWriteChainGuard c))\<rparr>, None)
      else if pinned_chain c = None \<and> gateway_check c = None
      then (s\<lparr>refusal := None\<rparr>, Some (pin_variables L c variables))
      else (case preflight L c variables (cached_targets s) of
              (Inl e, seen) \<Rightarrow> (s\<lparr>cached_targets := seen, refusal := Some e\<rparr>, None)
            | (Inr _, seen) \<Rightarrow>
                (s\<lparr>cached_targets := seen, refusal := None\<rparr>, Some (pin_variables L c variables))))"

definition writeContractAsync :: "lib \<Rightarrow> write_ctx \<Rightarrow> write_session \<Rightarrow> js \<Rightarrow> write_session \<times> (write_error + js)" where
  "writeContractAsync L c s variables =
     (if isWriteBlocked (useWriteChainGuard c)
      then (s\<lparr>refusal := Some (WrongChainError (useWriteChainGuard c))\<rparr>, Inl (WrongChainError (useWriteChainGuard c)))
      else (case preflight L c variables (cached_targets s) of
              (Inl e, seen) \<Rightarrow> (s\<lparr>cached_targets := seen, refusal := Some e\<rparr>, Inl e)
            | (Inr _, seen) \<Rightarrow>
                (s\<lparr>cached_targets := seen, refusal := None\<rparr>, Inr (pin_variables L c variables))))"

section \<open>What a check that passed has read\<close>

interpretation legs: checked_loop lc "check_leg L p router block pins ipins" "check_legs L p router block pins ipins"
  for L p router block pins ipins
  by unfold_locales simp_all

text \<open>\<open>target\<close> passed both pins on reads made at \<open>block\<close>.\<close>

definition verified_at ::
  "lib \<Rightarrow> provider \<Rightarrow> string \<Rightarrow> CodePins \<Rightarrow> ImplementationPins \<Rightarrow> ImplementationAddressPins \<Rightarrow> string \<Rightarrow> bool" where
  "verified_at L p block cpins ipins apins target \<longleftrightarrow>
     (\<exists>r h ih. readPinnedTarget p target block = Some r
        \<and> verifyPinnedTarget (lib_keccak256 L) target r cpins ipins apins = Inr (h, ih))"

lemma check_leg_ok:
  "check_leg L p router block pins ipins leg = Inr () \<Longrightarrow> verified_at L p block pins ipins (\<lambda>_. None) leg"
  by (auto simp: check_leg_def verified_at_def split: if_splits option.splits sum.splits)

lemma assertRouterLegsPinned_ok:
  assumes "assertRouterLegsPinned L p router block pins ipins = Inr ()"
  shows "\<exists>legs. readRouterLegs L p router block = Some legs
    \<and> (\<forall>leg \<in> set legs. \<exists>l \<in> set legs. lc l = lc leg \<and> verified_at L p block pins ipins (\<lambda>_. None) l)"
proof -
  obtain legs where legs: "readRouterLegs L p router block = Some legs"
      and run: "check_legs L p router block pins ipins [] legs = Inr ()"
    using assms by (auto simp: assertRouterLegsPinned_def split: option.splits)
  have "\<exists>l \<in> set legs. lc l = lc leg \<and> verified_at L p block pins ipins (\<lambda>_. None) l" if "leg \<in> set legs" for leg
    using legs.crun_ok [OF run that] check_leg_ok by force
  with legs show ?thesis by blast
qed

lemma assertTargetPinned_ok:
  assumes "assertTargetPinned L source variables ps = Inr ()"
    and "pinnedWriteTarget variables (gateway_addr ps) = Some target"
  shows "\<exists>p block. source = Some p \<and> readBlock p = Some block
    \<and> verified_at L p block (code_pins ps) (implementation_pins ps) (address_pins ps) target
    \<and> (isRouterDeposit variables (router_addr ps) \<longrightarrow>
         assertRouterLegsPinned L p target block (code_pins ps) (implementation_pins ps) = Inr ())"
  using assms by (auto simp: assertTargetPinned_def verified_at_def split: if_splits option.splits sum.splits)

lemma assertWriteTarget_ok:
  assumes "assertWriteTarget L source variables ps seen = (Inr u, seen')"
  shows "assertTargetHasCode source (jget variables ''address'') seen = Inr seen'
    \<and> assertTargetPinned L source variables ps = Inr ()"
  using assms by (auto simp: assertWriteTarget_def split: if_splits sum.splits)

text \<open>A write that was sent passed everything that applied to it.\<close>

lemma sent_checks:
  assumes "writeContract L c s variables = (s', Some sent)"
  shows "\<not> isWriteBlocked (useWriteChainGuard c) \<and> sent = pin_variables L c variables
    \<and> (pinned_chain c \<noteq> None \<longrightarrow>
         assertTargetHasCode (connector c) (jget variables ''address'') (cached_targets s) = Inr (cached_targets s')
         \<and> assertTargetPinned L (connector c) variables (pins_of L (ctx_env c)) = Inr ())
    \<and> run_gateway_check L c variables = Inr ()"
proof -
  have blocked: "\<not> isWriteBlocked (useWriteChainGuard c)" and sent: "sent = pin_variables L c variables"
    using assms by (auto simp: writeContract_def split: if_splits prod.splits sum.splits)
  show ?thesis
  proof (cases "pinned_chain c = None \<and> gateway_check c = None")
    case True
    with blocked sent show ?thesis by (simp add: run_gateway_check_def)
  next
    case False
    with assms blocked obtain u seen where pf: "preflight L c variables (cached_targets s) = (Inr u, seen)"
        "cached_targets s' = seen"
      by (auto simp: writeContract_def split: prod.splits sum.splits)
    show ?thesis
    proof (cases "pinned_chain c = None")
      case True
      with pf blocked sent show ?thesis by (simp add: preflight_def)
    next
      case pinned: False
      with pf obtain w where w: "assertWriteTarget L (connector c) variables (pins_of L (ctx_env c)) (cached_targets s)
            = (Inr w, seen)" "run_gateway_check L c variables = Inr ()"
        by (auto simp: preflight_def split: prod.splits sum.splits)
      with assertWriteTarget_ok [OF w(1)] pf blocked sent show ?thesis by simp
    qed
  qed
qed

lemma mainnet_guard:
  assumes "isMainnetClass (ctx_env c)" and "\<not> isWriteBlocked (useWriteChainGuard c)"
  shows "isConnected c \<and> account_chainId c = Some BASE_MAINNET_CHAIN_ID \<and> pinned_chain c = Some BASE_MAINNET_CHAIN_ID"
  using assms by (auto simp: useWriteChainGuard_def evaluateWriteGuard_def resolveWriteTargetChainId_def
      isWriteBlocked_def pinned_chain_def split: option.splits if_splits)

lemma map_of_overwrite:
  "map_of (map (\<lambda>(j, y). if j = k then (j, x) else (j, y)) kvs) k'
     = (if k' = k \<and> k \<in> fst ` set kvs then Some x else map_of kvs k')"
proof (induction kvs)
  case (Cons a kvs)
  obtain j y where a: "a = (j, y)" by (cases a)
  from Cons show ?case by (cases "j = k"; cases "k' = k") (simp_all add: a)
qed simp

lemma jget_jput:
  assumes "is_record v"
  shows "jget (jput v k x) k' = (if k' = k then x else jget v k')"
proof -
  obtain kvs where v: "v = JObj kvs" using assms by (cases v) (auto simp: is_record_def)
  show ?thesis
  proof (cases "k \<in> fst ` set kvs")
    case True
    then show ?thesis by (simp add: v jput_def jget_def map_of_overwrite)
  next
    case False
    then have "map_of kvs k = None" by (simp add: map_of_eq_None_iff)
    with False show ?thesis by (simp add: v jput_def jget_def map_add_def split: option.splits)
  qed
qed

lemma is_record_jput [simp]: "is_record v \<Longrightarrow> is_record (jput v k x)"
  by (cases v) (auto simp: is_record_def jput_def)

lemma jget_gas_workaround:
  "k \<noteq> ''gas'' \<Longrightarrow> jget (withRedeemGasWorkaround v vaults) k = jget v k"
  by (auto simp: withRedeemGasWorkaround_def jget_jput split: option.splits js.splits)

section \<open>Properties of the write path\<close>

lemma target_with_code:
  assumes "assertTargetHasCode source address seen = Inr seen'"
  shows "\<exists>a. address = JStr a \<and>
    (lc a \<in> set seen \<and> seen' = seen
     \<or> (\<exists>p code. source = Some p \<and> p ''eth_getCode'' [JStr a, JStr ''latest''] = Some (JStr code)
          \<and> code \<noteq> ''0x'' \<and> code \<noteq> [] \<and> seen' = lc a # seen))"
  using assms by (auto simp: assertTargetHasCode_def split: js.splits if_splits option.splits)

lemma record_of_jget: "jget v k \<noteq> JUndef \<Longrightarrow> is_record v"
  by (cases v) (auto simp: jget_def is_record_def)

lemma jget_pin_variables:
  assumes "is_record v" and "k \<noteq> ''gas''"
  shows "jget (pin_variables L c v) k
    = (case pinned_chain c of Some n \<Rightarrow> if k = ''chainId'' then JNum n else jget v k | None \<Rightarrow> jget v k)"
  using assms by (simp add: pin_variables_def jget_gas_workaround spread_put_def jget_jput split: option.splits)

text \<open>
  On the mainnet class a write reaches the wallet only from a connected wallet on Base, carries chain id
  8453 whatever the caller asked for, and goes to an address that was seen with non-empty code.
\<close>

theorem mainnet_write_sent:
  assumes "isMainnetClass (ctx_env c)" and "writeContract L c s variables = (s', Some sent)"
  shows "isConnected c \<and> account_chainId c = Some 8453 \<and> jget sent ''chainId'' = JNum 8453
    \<and> (\<exists>a. jget variables ''address'' = JStr a \<and> jget sent ''address'' = JStr a \<and>
        (lc a \<in> set (cached_targets s) \<or>
         (\<exists>p code. connector c = Some p \<and> p ''eth_getCode'' [JStr a, JStr ''latest''] = Some (JStr code)
            \<and> code \<noteq> ''0x'' \<and> code \<noteq> [])))"
proof -
  note sc = sent_checks [OF assms(2)]
  have g: "isConnected c" "account_chainId c = Some BASE_MAINNET_CHAIN_ID" "pinned_chain c = Some BASE_MAINNET_CHAIN_ID"
    using mainnet_guard [OF assms(1)] sc by auto
  have "assertTargetHasCode (connector c) (jget variables ''address'') (cached_targets s) = Inr (cached_targets s')"
    using sc g by simp
  from target_with_code [OF this] obtain a where a: "jget variables ''address'' = JStr a"
      "lc a \<in> set (cached_targets s) \<or>
         (\<exists>p code. connector c = Some p \<and> p ''eth_getCode'' [JStr a, JStr ''latest''] = Some (JStr code)
            \<and> code \<noteq> ''0x'' \<and> code \<noteq> [])" by auto
  then have "is_record variables" using record_of_jget [of variables "''address''"] by simp
  from jget_pin_variables [OF this] a g sc show ?thesis by (simp add: BASE_MAINNET_CHAIN_ID_def)
qed

lemma verified_at_code:
  "verified_at L p block cpins ipins apins t \<Longrightarrow>
     \<exists>code h. p ''eth_getCode'' [JStr t, JStr block] = Some code \<and> pinned_code (lib_keccak256 L) cpins t code h"
  by (auto simp: verified_at_def verifyPinnedTarget_ok_iff readPinnedTarget_def split: option.splits)

lemma mainnet_pin_checked:
  assumes "isMainnetClass (ctx_env c)" and "writeContract L c s variables = (s', Some sent)"
    and "pinnedWriteTarget variables (ctx_env c ''VITE_GATEWAY_ADDRESS'') = Some target"
    and "ps = pins_of L (ctx_env c)"
  shows "\<exists>p block. connector c = Some p \<and> readBlock p = Some block
    \<and> verified_at L p block (code_pins ps) (implementation_pins ps) (address_pins ps) target
    \<and> (isRouterDeposit variables (ctx_env c ''VITE_ROUTER_ADDRESS'') \<longrightarrow>
        assertRouterLegsPinned L p target block (code_pins ps) (implementation_pins ps) = Inr ())"
proof -
  note sc = sent_checks [OF assms(2)]
  have "pinned_chain c \<noteq> None" using mainnet_guard [OF assms(1)] sc by simp
  then have "assertTargetPinned L (connector c) variables ps = Inr ()" using sc assms(4) by simp
  from assertTargetPinned_ok [OF this] assms(3,4) show ?thesis by (simp add: pins_of_def)
qed

text \<open>Whom a write gives funds, an allowance or a gateway call to; a zero approval gives nothing.\<close>

definition receives :: "js \<Rightarrow> string option \<Rightarrow> string \<Rightarrow> bool" where
  "receives v gateway t \<longleftrightarrow>
     (is_fn v ''deposit'' \<or> is_fn v ''mint'') \<and> jget v ''address'' = JStr t
     \<or> is_fn v ''approve'' \<and> array_nth (js_args v) 0 = JStr t \<and> \<not> (2 \<le> length (js_args v) \<and> array_nth (js_args v) 1 = JBig 0)
     \<or> is_fn v ''increaseAllowance'' \<and> array_nth (js_args v) 0 = JStr t
     \<or> (\<forall>f \<in> {''deposit'', ''mint'', ''approve'', ''increaseAllowance''}. \<not> is_fn v f)
       \<and> (\<exists>g. gateway = Some g \<and> validAddress g \<and> jget v ''address'' = JStr t \<and> lc t = lc g)"

lemma receives_pinned: "receives v gateway t \<Longrightarrow> pinnedWriteTarget v gateway = Some t"
  by (auto simp: receives_def pinnedWriteTarget_def str_or_empty_def is_fn_def Let_def)

text \<open>
  C1. On the mainnet class a deposit, a mint, a non-zero approval, an allowance increase or any call of the
  gateway is sent only if, at one block read through the wallet, the code at the contract that receives
  the funds, the allowance or the call has the hash the build pins for it and the implementation behind
  it is a pinned one.
\<close>

theorem mainnet_write_pinned:
  assumes "isMainnetClass (ctx_env c)" and "writeContract L c s variables = (s', Some sent)"
    and "receives variables (ctx_env c ''VITE_GATEWAY_ADDRESS'') target"
    and "ps = pins_of L (ctx_env c)"
  shows "\<exists>p block code h. connector c = Some p \<and> readBlock p = Some block
    \<and> p ''eth_getCode'' [JStr target, JStr block] = Some code \<and> pinned_code (lib_keccak256 L) (code_pins ps) target code h
    \<and> verified_at L p block (code_pins ps) (implementation_pins ps) (address_pins ps) target"
  using mainnet_pin_checked [OF assms(1,2) receives_pinned [OF assms(3)] assms(4)] verified_at_code by blast

text \<open>
  C2. A deposit into the Portfolio Router is sent on the mainnet class only if every vault of the router's
  effective weight vector, read at the block the router itself was checked at, passed the same pin check
  at that block (once per address, letter case aside).
\<close>

theorem mainnet_router_deposit_legs:
  assumes "isMainnetClass (ctx_env c)" and "writeContract L c s variables = (s', Some sent)"
    and "isRouterDeposit variables (ctx_env c ''VITE_ROUTER_ADDRESS'')"
    and "ps = pins_of L (ctx_env c)"
  shows "\<exists>p block target legs. connector c = Some p \<and> readBlock p = Some block
    \<and> jget variables ''address'' = JStr target
    \<and> verified_at L p block (code_pins ps) (implementation_pins ps) (address_pins ps) target
    \<and> readRouterLegs L p target block = Some legs
    \<and> (\<forall>leg \<in> set legs. \<exists>l \<in> set legs. lc l = lc leg
         \<and> verified_at L p block (code_pins ps) (implementation_pins ps) (\<lambda>_. None) l)"
proof -
  obtain a where a: "jget variables ''address'' = JStr a"
    using mainnet_guard [OF assms(1)] sent_checks [OF assms(2)] target_with_code by blast
  have "is_fn variables ''deposit'' \<or> is_fn variables ''mint''"
    using assms(3) by (auto simp: isRouterDeposit_def split: if_splits)
  then have "pinnedWriteTarget variables (ctx_env c ''VITE_GATEWAY_ADDRESS'') = Some a"
    by (simp add: pinnedWriteTarget_def str_or_empty_def a)
  from mainnet_pin_checked [OF assms(1,2) this assms(4)] assms(3) assertRouterLegsPinned_ok a
  show ?thesis by blast
qed

text \<open>Writes that move nothing towards the target: redeems, and an approval of zero.\<close>

definition is_exit :: "js \<Rightarrow> bool" where
  "is_exit v = (is_fn v ''redeem'' \<or> is_fn v ''redeemFor''
     \<or> is_fn v ''approve'' \<and> 2 \<le> length (js_args v) \<and> array_nth (js_args v) 1 = JBig 0)"

lemma exit_needs_no_pin:
  assumes "is_exit v" and "jget v ''address'' = JStr a" and "\<And>g. gateway = Some g \<Longrightarrow> lc a \<noteq> lc g"
  shows "pinnedWriteTarget v gateway = None"
  using assms by (auto simp: is_exit_def is_fn_def pinnedWriteTarget_def Let_def split: option.splits)

lemma exit_no_nested: "is_exit v \<Longrightarrow> nestedTargetOf v = JUndef"
  by (auto simp: is_exit_def is_fn_def nestedTargetOf_def)

text \<open>
  C3. An exit never depends on a pin or on the gateway. A redeem or a revoked approval on the
  mainnet class, to a target other than the gateway that has code, is sent whatever pins the build has,
  whatever the state of the gateway verifier and whatever else the provider answers.
\<close>

theorem exit_always_sent:
  assumes "isMainnetClass (ctx_env c)" and "isConnected c" and "account_chainId c = Some 8453"
    and "is_exit variables" and "jget variables ''address'' = JStr a"
    and "\<forall>g. ctx_env c ''VITE_GATEWAY_ADDRESS'' = Some g \<longrightarrow> lc a \<noteq> lc g"
    and "\<forall>gw v i. gateway_check c = Some (gw, v, i) \<longrightarrow> lc a \<noteq> lc gw"
    and "lc a \<in> set (cached_targets s) \<or> (\<exists>p code. connector c = Some p
           \<and> p ''eth_getCode'' [JStr a, JStr ''latest''] = Some (JStr code) \<and> code \<noteq> ''0x'' \<and> code \<noteq> [])"
  shows "\<exists>s'. writeContract L c s variables = (s', Some (pin_variables L c variables)) \<and> refusal s' = None"
proof -
  have g: "useWriteChainGuard c = Guard_ok 8453" "pinned_chain c = Some 8453"
    using assms(1-3) by (simp_all add: useWriteChainGuard_def evaluateWriteGuard_def resolveWriteTargetChainId_def
        BASE_MAINNET_CHAIN_ID_def pinned_chain_def)
  have no_pin: "assertTargetPinned L (connector c) variables (pins_of L (ctx_env c)) = Inr ()"
    using exit_needs_no_pin [OF assms(4,5)] assms(6) by (simp add: assertTargetPinned_def pins_of_def)
  have "is_ok (assertTargetHasCode (connector c) (jget variables ''address'') (cached_targets s))"
    using assms(8) by (auto simp: assertTargetHasCode_def assms(5))
  then obtain seen where "assertTargetHasCode (connector c) (jget variables ''address'') (cached_targets s) = Inr seen"
    by (auto simp: is_ok_iff)
  moreover have nn: "\<not> jnullish variables" using assms(5) by (auto simp: jnullish_def jget_def)
  ultimately have "assertWriteTarget L (connector c) variables (pins_of L (ctx_env c)) (cached_targets s) = (Inr (), seen)"
    using no_pin by (simp add: assertWriteTarget_def)
  moreover have "run_gateway_check L c variables = Inr ()"
    using assms(5,7) nn exit_no_nested [OF assms(4)]
    by (auto simp: run_gateway_check_def gatewayWriteCheck_def is_address_of_def split: option.splits)
  ultimately have "preflight L c variables (cached_targets s) = (Inr (), seen)"
    using g by (simp add: preflight_def)
  then show ?thesis using g by (simp add: writeContract_def isWriteBlocked_def)
qed

text \<open>
  C4. A write to the gateway, or a Timelock call that forwards to it, leaves a page that checks the gateway
  only if the page's verification is \<open>verified\<close> and a fresh read through the wallet, on the connected chain
  and at one block, still finds the verified code hash at the gateway and the verified implementation
  (or none) in its slot.
\<close>

theorem gateway_write_reverified:
  assumes "writeContract L c s variables = (s', Some sent)"
    and "gateway_check c = Some (gw, verification, injected)" and "account_chainId c = Some chain"
    and "is_address_of gw (jget variables ''address'') \<or> is_address_of gw (nestedTargetOf variables)"
  shows "\<exists>v p answered block b word. verification = IsVerified v
    \<and> (connector c = Some p \<or> connector c = None \<and> injected = Some p)
    \<and> p ''eth_chainId'' [] = Some answered \<and> js_number answered = Some chain
    \<and> p ''eth_blockNumber'' [] = Some block
    \<and> p ''eth_getCode'' [JStr gw, block] = Some (JStr b) \<and> lc (lib_keccak256 L b) = lc (computedHash v)
    \<and> p ''eth_getStorageAt'' [JStr gw, JStr ERC1967_IMPLEMENTATION_SLOT, block] = Some (JStr word)
    \<and> (case implementationFromSlot word of
         Some i \<Rightarrow> lc_nullish (implementation v) = lc_nullish (Some i) | None \<Rightarrow> False)"
proof -
  let ?prov = "case connector c of None \<Rightarrow> injected | Some p \<Rightarrow> Some p"
  obtain v where v: "verification = IsVerified v"
      "reverifyGateway (lib_keccak256 L) (lib_views L) ?prov gw v (Some chain) = Inr ()"
    using sent_checks [OF assms(1)] assms(2-4)
    by (auto simp: run_gateway_check_def gatewayWriteCheck_def split: if_splits sum.splits VerificationState.splits)
  from reverifyGateway_reads [OF v(2)] obtain p answered block b word where r: "?prov = Some p"
      "p ''eth_chainId'' [] = Some answered" "js_number answered = Some chain" "p ''eth_blockNumber'' [] = Some block"
      "p ''eth_getCode'' [JStr gw, block] = Some (JStr b)" "lc (lib_keccak256 L b) = lc (computedHash v)"
      "p ''eth_getStorageAt'' [JStr gw, JStr ERC1967_IMPLEMENTATION_SLOT, block] = Some (JStr word)"
      "case implementationFromSlot word of
         Some i \<Rightarrow> lc_nullish (implementation v) = lc_nullish (Some i) | None \<Rightarrow> False"
    by (auto simp: lc_nullish_def split: option.splits)
  then have "connector c = Some p \<or> connector c = None \<and> injected = Some p" by (auto split: option.splits)
  with v r show ?thesis by blast
qed

text \<open>
  The two write functions of the hook are one: the asynchronous one sends the same variables as the
  callback one, refuses the same writes, and leaves the same state, with the refusal it throws.
\<close>

theorem writeContractAsync_agrees:
  "writeContract L c s variables =
     (case writeContractAsync L c s variables of
        (s', Inr sent) \<Rightarrow> (s', Some sent) | (s', Inl e) \<Rightarrow> (s'\<lparr>refusal := Some e\<rparr>, None))"
  by (auto simp: writeContract_def writeContractAsync_def preflight_def run_gateway_check_def
      split: prod.splits sum.splits)

text \<open>
  What is handed to the wallet is what the caller asked for, except the chain id on the mainnet class
  and the gas of a redeem from a RobotMoneyVault for which the caller set none: that is the fixed limit, and
  no other write gets a gas limit the caller did not set.
\<close>

theorem pin_variables_frame:
  assumes "is_record v" and "v' = pin_variables L c v"
  shows "(\<forall>k. k \<noteq> ''chainId'' \<longrightarrow> k \<noteq> ''gas'' \<longrightarrow> jget v' k = jget v k)
    \<and> jget v' ''chainId'' = (case pinned_chain c of Some n \<Rightarrow> JNum n | None \<Rightarrow> jget v ''chainId'')
    \<and> jget v' ''gas'' =
        (if jget v ''gas'' = JUndef
            \<and> (\<exists>a. redeemedVault v = JStr a \<and> lc a \<in> set (robotMoneyVaultTargets (jsonParse L) (ctx_env c)))
         then JBig 2500000 else jget v ''gas'')"
proof -
  let ?w = "case pinned_chain c of None \<Rightarrow> v | Some n \<Rightarrow> spread_put v ''chainId'' (JNum n)"
  have w: "is_record ?w" "jget ?w ''gas'' = jget v ''gas''" "redeemedVault ?w = redeemedVault v"
    using assms(1) by (auto simp: spread_put_def jget_jput redeemedVault_def is_fn_def split: option.splits)
  have "jget (withRedeemGasWorkaround u vs) ''gas'' = (if jget u ''gas'' = JUndef
      \<and> (\<exists>a. redeemedVault u = JStr a \<and> lc a \<in> set vs) then JBig 2500000 else jget u ''gas'')" if "is_record u" for u vs
    using that by (auto simp: withRedeemGasWorkaround_def REDEEM_GAS_LIMIT_WORKAROUND_1758_def jget_jput split: js.splits)
  from this [OF w(1)] have "jget v' ''gas'' = (if jget v ''gas'' = JUndef
      \<and> (\<exists>a. redeemedVault v = JStr a \<and> lc a \<in> set (robotMoneyVaultTargets (jsonParse L) (ctx_env c)))
      then JBig 2500000 else jget v ''gas'')"
    by (simp only: assms(2) pin_variables_def w)
  then show ?thesis using jget_pin_variables [OF assms(1)] by (auto simp: assms(2) split: option.splits)
qed

section \<open>Sessions\<close>

text \<open>
  The writes of one session, one after the other, each from its own render and through either function.
  \<open>deployed\<close> is the set of (lower-case) addresses that have had code; a context is honest when what its
  provider calls code is at one of them.
\<close>

definition honest :: "(string \<Rightarrow> bool) \<Rightarrow> write_ctx \<Rightarrow> bool" where
  "honest deployed c \<longleftrightarrow> (\<forall>p a code. connector c = Some p
     \<longrightarrow> p ''eth_getCode'' [JStr a, JStr ''latest''] = Some (JStr code) \<longrightarrow> code \<noteq> ''0x'' \<longrightarrow> code \<noteq> [] \<longrightarrow> deployed (lc a))"

inductive session :: "lib \<Rightarrow> (string \<Rightarrow> bool) \<Rightarrow> write_session \<Rightarrow> bool" for L deployed where
  fresh: "session L deployed \<lparr>cached_targets = [], refusal = None\<rparr>"
| sync_write: "session L deployed s \<Longrightarrow> honest deployed c \<Longrightarrow> session L deployed (fst (writeContract L c s v))"
| async_write: "session L deployed s \<Longrightarrow> honest deployed c \<Longrightarrow> session L deployed (fst (writeContractAsync L c s v))"

lemma preflight_cache:
  assumes "preflight L c v seen = (r, seen')" and "honest deployed c" and "\<forall>a \<in> set seen. deployed a"
  shows "\<forall>a \<in> set seen'. deployed a"
proof -
  have step: "\<forall>a \<in> set seen'. deployed a" if "assertTargetHasCode (connector c) x seen = Inr seen'" for x seen'
    using target_with_code [OF that] assms(2,3) by (auto simp: honest_def)
  show ?thesis
    using assms(1,3) step
    by (auto simp: preflight_def assertWriteTarget_def split: if_splits sum.splits prod.splits)
qed

lemma session_cache: "session L deployed s \<Longrightarrow> \<forall>a \<in> set (cached_targets s). deployed a"
proof (induction rule: session.induct)
  case (sync_write s c v)
  then show ?case
    using preflight_cache [OF _ sync_write(2,3)]
    by (auto simp: writeContract_def split: if_splits sum.splits prod.splits)
next
  case (async_write s c v)
  then show ?case
    using preflight_cache [OF _ async_write(2,3)]
    by (auto simp: writeContractAsync_def split: if_splits sum.splits prod.splits)
qed simp

text \<open>
  The session's memory of targets with code is sound: after any sequence of writes, sent or refused, a
  mainnet write that is sent goes to an address that has had code, whether it was read now or remembered.
\<close>

theorem session_writes_to_deployed:
  assumes "session L deployed s" and "honest deployed c" and "isMainnetClass (ctx_env c)"
    and "writeContract L c s variables = (s', Some sent)"
  shows "\<exists>a. jget sent ''address'' = JStr a \<and> deployed (lc a)"
proof -
  note sc = sent_checks [OF assms(4)]
  have pc: "pinned_chain c \<noteq> None" using mainnet_guard [OF assms(3)] sc by simp
  obtain a where a: "jget variables ''address'' = JStr a" "deployed (lc a)"
    using target_with_code [of "connector c" "jget variables ''address''" "cached_targets s" "cached_targets s'"]
      sc pc session_cache [OF assms(1)] assms(2) by (auto simp: honest_def)
  then have "is_record variables" using record_of_jget [of variables "''address''"] by simp
  from jget_pin_variables [OF this, of "''address''" L c] a sc show ?thesis by (auto split: option.splits)
qed

section \<open>Concrete writes\<close>

definition sample_lib :: lib where
  "sample_lib = \<lparr>lib_keccak256 = sample_keccak, lib_views = sample_codec, weightsCall = ''0xdead'',
     decodeWeights = (\<lambda>_. Some [addr_of ''d4'', addr_of ''D4'']),
     jsonParse = (\<lambda>_. Some (JObj [(addr_of ''d4'', JStr (sample_keccak ''0x6001020304''))]))\<rparr>"

definition sample_ctx :: "VerificationState \<Rightarrow> write_ctx" where
  "sample_ctx v = \<lparr>ctx_env = sample_env, connector = Some sample_provider, account_chainId = Some 8453,
     isConnected = True, gateway_check = Some (addr_of ''a1'', v, None)\<rparr>"

definition no_session :: write_session where
  "no_session = \<lparr>cached_targets = [], refusal = None\<rparr>"

definition call_of :: "string \<Rightarrow> string \<Rightarrow> js list \<Rightarrow> js" where
  "call_of to fn args = JObj [(''address'', JStr to), (''functionName'', JStr fn), (''args'', JArr args)]"

definition router_deposit :: js where
  "router_deposit = call_of (addr_of ''c3'') ''deposit'' [JBig 5, JArr [JBig 1]]"

definition vault_redeem :: js where
  "vault_redeem = call_of (addr_of ''d4'') ''redeem'' [JBig 5]"

definition gateway_pause :: js where
  "gateway_pause = call_of (addr_of ''a1'') ''pause'' []"

definition sent_of :: "write_session \<times> js option \<Rightarrow> js option" where
  "sent_of r = snd r"

lemma sent_pair: "sent_of r = Some x \<Longrightarrow> r = (fst r, Some x)"
  by (cases r) (simp add: sent_of_def)

lemma sample_mainnet: "isMainnetClass (ctx_env (sample_ctx v))"
  by (simp add: sample_ctx_def isMainnetClass_def sample_env_def)

lemma router_deposit_sent:
  "\<exists>s' sent. writeContract sample_lib (sample_ctx Idle) no_session router_deposit = (s', Some sent)"
proof -
  have "sent_of (writeContract sample_lib (sample_ctx Idle) no_session router_deposit) \<noteq> None" by code_simp
  then show ?thesis by (metis not_None_eq sent_pair)
qed

lemma gateway_pause_sent:
  "\<exists>s' sent. writeContract sample_lib (sample_ctx (IsVerified sample_verified)) no_session gateway_pause = (s', Some sent)"
proof -
  have "sent_of (writeContract sample_lib (sample_ctx (IsVerified sample_verified)) no_session gateway_pause) \<noteq> None"
    by code_simp
  then show ?thesis by (metis not_None_eq sent_pair)
qed

theorem mainnet_write_sent_witness:
  "\<exists>s' sent. writeContract sample_lib (sample_ctx Idle) no_session router_deposit = (s', Some sent)
     \<and> jget sent ''chainId'' = JNum 8453"
  using router_deposit_sent mainnet_write_sent [OF sample_mainnet] by blast

theorem mainnet_write_pinned_witness:
  "\<exists>p block code. connector (sample_ctx Idle) = Some p \<and> readBlock p = Some block
     \<and> p ''eth_getCode'' [JStr (addr_of ''c3''), JStr block] = Some code"
proof -
  obtain s' sent where w: "writeContract sample_lib (sample_ctx Idle) no_session router_deposit = (s', Some sent)"
    using router_deposit_sent by blast
  have "is_fn router_deposit ''deposit''" "jget router_deposit ''address'' = JStr (addr_of ''c3'')" by code_simp+
  then have "receives router_deposit (ctx_env (sample_ctx Idle) ''VITE_GATEWAY_ADDRESS'') (addr_of ''c3'')"
    by (simp add: receives_def)
  from mainnet_write_pinned [OF sample_mainnet w this refl] show ?thesis by blast
qed

theorem mainnet_router_deposit_legs_witness:
  "\<exists>p block legs. connector (sample_ctx Idle) = Some p \<and> readBlock p = Some block
     \<and> readRouterLegs sample_lib p (addr_of ''c3'') block = Some legs
     \<and> (\<forall>leg \<in> set legs. \<exists>l \<in> set legs. lc l = lc leg)"
proof -
  obtain s' sent where w: "writeContract sample_lib (sample_ctx Idle) no_session router_deposit = (s', Some sent)"
    using router_deposit_sent by blast
  have "isRouterDeposit router_deposit (ctx_env (sample_ctx Idle) ''VITE_ROUTER_ADDRESS'')" by code_simp
  moreover have "jget router_deposit ''address'' = JStr (addr_of ''c3'')" by code_simp
  ultimately show ?thesis
    using mainnet_router_deposit_legs [OF sample_mainnet w _ refl] by (metis js.inject(5))
qed

theorem exit_always_sent_witness:
  "\<exists>s'. writeContract sample_lib (sample_ctx Pending) no_session vault_redeem
          = (s', Some (pin_variables sample_lib (sample_ctx Pending) vault_redeem)) \<and> refusal s' = None"
proof (rule exit_always_sent [OF sample_mainnet])
  show "isConnected (sample_ctx Pending)" "account_chainId (sample_ctx Pending) = Some 8453"
    by (simp_all add: sample_ctx_def)
  show "is_exit vault_redeem" "jget vault_redeem ''address'' = JStr (addr_of ''d4'')" by code_simp+
  have ne: "lc (addr_of ''d4'') \<noteq> lc (addr_of ''a1'')" by code_simp
  moreover have "ctx_env (sample_ctx Pending) ''VITE_GATEWAY_ADDRESS'' = Some (addr_of ''a1'')" by code_simp
  ultimately show "\<forall>g. ctx_env (sample_ctx Pending) ''VITE_GATEWAY_ADDRESS'' = Some g \<longrightarrow> lc (addr_of ''d4'') \<noteq> lc g"
    by simp
  show "\<forall>gw v i. gateway_check (sample_ctx Pending) = Some (gw, v, i) \<longrightarrow> lc (addr_of ''d4'') \<noteq> lc gw"
    using ne by (simp add: sample_ctx_def)
  have "sample_provider ''eth_getCode'' [JStr (addr_of ''d4''), JStr ''latest''] = Some (JStr ''0x6001020304'')"
    by code_simp
  then show "lc (addr_of ''d4'') \<in> set (cached_targets no_session) \<or> (\<exists>p code. connector (sample_ctx Pending) = Some p
     \<and> p ''eth_getCode'' [JStr (addr_of ''d4''), JStr ''latest''] = Some (JStr code) \<and> code \<noteq> ''0x'' \<and> code \<noteq> [])"
    by (simp add: sample_ctx_def)
qed

theorem gateway_write_reverified_witness:
  "\<exists>b. sample_provider ''eth_getCode'' [JStr (addr_of ''a1''), JStr ''0x10''] = Some (JStr b)
     \<and> lc (sample_keccak b) = lc (computedHash sample_verified)"
proof -
  let ?c = "sample_ctx (IsVerified sample_verified)"
  obtain s' sent where w: "writeContract sample_lib ?c no_session gateway_pause = (s', Some sent)"
    using gateway_pause_sent by blast
  have g: "gateway_check ?c = Some (addr_of ''a1'', IsVerified sample_verified, None)" "account_chainId ?c = Some 8453"
    "connector ?c = Some sample_provider" by (simp_all add: sample_ctx_def)
  have "is_address_of (addr_of ''a1'') (jget gateway_pause ''address'')" by code_simp
  with gateway_write_reverified [OF w g(1,2)] g(3) obtain block b where
    b: "sample_provider ''eth_blockNumber'' [] = Some block"
       "sample_provider ''eth_getCode'' [JStr (addr_of ''a1''), block] = Some (JStr b)"
       "lc (lib_keccak256 sample_lib b) = lc (computedHash sample_verified)" by auto
  moreover have "sample_provider ''eth_blockNumber'' [] = Some (JStr ''0x10'')" by code_simp
  ultimately show ?thesis by (simp add: sample_lib_def)
qed

theorem pin_variables_frame_witness:
  "jget (pin_variables sample_lib (sample_ctx Idle) vault_redeem) ''functionName'' = JStr ''redeem''
   \<and> jget (pin_variables sample_lib (sample_ctx Idle) vault_redeem) ''gas'' = JUndef"
proof -
  have r: "is_record vault_redeem" "jget vault_redeem ''functionName'' = JStr ''redeem''"
    "jget vault_redeem ''gas'' = JUndef" "redeemedVault vault_redeem = JStr (addr_of ''d4'')"
    "robotMoneyVaultTargets (jsonParse sample_lib) (ctx_env (sample_ctx Idle)) = []" by code_simp+
  from pin_variables_frame [OF r(1) refl, of sample_lib "sample_ctx Idle"] r show ?thesis by auto
qed

theorem session_writes_to_deployed_witness:
  "\<exists>s' sent a. writeContract sample_lib (sample_ctx Idle) no_session router_deposit = (s', Some sent)
     \<and> jget sent ''address'' = JStr a \<and> lc a = addr_of ''c3''"
proof -
  let ?dep = "\<lambda>x. x \<in> {addr_of ''a1'', addr_of ''b2'', addr_of ''c3'', addr_of ''d4''}"
  have lcs: "lc (addr_of ''a1'') = addr_of ''a1''" "lc (addr_of ''b2'') = addr_of ''b2''"
    "lc (addr_of ''c3'') = addr_of ''c3''" "lc (addr_of ''d4'') = addr_of ''d4''" by code_simp+
  have h: "honest ?dep (sample_ctx Idle)"
    using lcs by (auto simp: honest_def sample_ctx_def sample_provider_def split: if_splits)
  have s: "session sample_lib ?dep no_session" unfolding no_session_def by (rule session.fresh)
  obtain s' sent where w: "writeContract sample_lib (sample_ctx Idle) no_session router_deposit = (s', Some sent)"
    using router_deposit_sent by blast
  from session_writes_to_deployed [OF s h sample_mainnet w] obtain a where a: "jget sent ''address'' = JStr a" by blast
  have "case sent_of (writeContract sample_lib (sample_ctx Idle) no_session router_deposit) of
      Some x \<Rightarrow> jget x ''address'' = JStr (addr_of ''c3'') | None \<Rightarrow> False" by code_simp
  with w a lcs have "lc a = addr_of ''c3''" by (simp add: sent_of_def)
  with w a show ?thesis by blast
qed

end
