(* ===== verification/JsDate.thy ===== *)
theory JsDate
  imports JsPrelude
begin

text \<open>
  \<open>new Date(1000 * s).toISOString()\<close> for a whole number of seconds: the proleptic Gregorian date, the six-digit
  signed years outside 0 to 9999, and the range error beyond 8.64e15 milliseconds.
\<close>

definition civil_from_days :: "int \<Rightarrow> int \<times> int \<times> int" where
  "civil_from_days z0 =
     (let z = z0 + 719468;
          era = z div 146097;
          doe = z - era * 146097;
          yoe = (doe - doe div 1460 + doe div 36524 - doe div 146096) div 365;
          doy = doe - (365 * yoe + yoe div 4 - yoe div 100);
          mp = (5 * doy + 2) div 153;
          d = doy - (153 * mp + 2) div 5 + 1;
          m = (if mp < 10 then mp + 3 else mp - 9)
      in (yoe + era * 400 + (if m \<le> 2 then 1 else 0), m, d))"

definition show_pad :: "nat \<Rightarrow> int \<Rightarrow> string" where
  "show_pad n i = pad_start n (show_nat (nat i))"

definition iso_year :: "int \<Rightarrow> string" where
  "iso_year y =
     (if 0 \<le> y \<and> y \<le> 9999 then show_pad 4 y
      else if y < 0 then ''-'' @ show_pad 6 (- y) else ''+'' @ show_pad 6 y)"

text \<open>\<^const>\<open>None\<close> is the \<open>RangeError\<close>.\<close>

definition toISOString :: "int \<Rightarrow> string option" where
  "toISOString s =
     (if s < - 8640000000000 \<or> s > 8640000000000 then None
      else let (y, m, d) = civil_from_days (s div 86400); r = s mod 86400
           in Some (iso_year y @ ''-'' @ show_pad 2 m @ ''-'' @ show_pad 2 d @ ''T'' @ show_pad 2 (r div 3600)
                @ '':'' @ show_pad 2 (r mod 3600 div 60) @ '':'' @ show_pad 2 (r mod 60) @ ''.000Z''))"

lemma toISOString_range: "toISOString s \<noteq> None \<longleftrightarrow> - 8640000000000 \<le> s \<and> s \<le> 8640000000000"
  by (auto simp: toISOString_def Let_def split: prod.splits)

lemma toISOString_epoch: "toISOString 0 = Some ''1970-01-01T00:00:00.000Z''"
  by code_simp

lemma toISOString_leap: "toISOString 951827696 = Some ''2000-02-29T12:34:56.000Z''"
  by code_simp

lemma toISOString_last: "toISOString 8640000000000 = Some ''+275760-09-13T00:00:00.000Z''"
  by code_simp

lemma toISOString_old: "toISOString (- 62198755200) = Some ''-000001-01-01T00:00:00.000Z''"
  by code_simp

end
