(* ===== verification/Policy.thy ===== *)
theory Policy
  imports Amounts JsDate
begin

text \<open>
  Agent policies and the calls that register an agent: the \<open>AgentPolicy\<close> tuple and \<open>policyViolations\<close> of
  \<open>preview.ts\<close>, \<open>agentDestinations.ts\<close>, \<open>commitReveal.ts\<close>, \<open>consent.ts\<close>, \<open>credentialWorkflow.ts\<close> and \<open>rotation.ts\<close>.

  viem's functions come as a record of parameters. \<open>getAddress\<close> is split the way its documentation has it: it
  throws on what is not an address (letter case aside) and otherwise gives the checksummed form.
  \<open>generateSalt\<close> draws random bytes and is not modelled; a salt is a string the caller passes.
\<close>

section \<open>viem\<close>

record viem =
  isAddress :: "string \<Rightarrow> bool"
  checksum :: "string \<Rightarrow> string"
  keccak_hex :: "string \<Rightarrow> string"
  encodeAbi :: "string list \<Rightarrow> js list \<Rightarrow> string option"
  encodeCall :: "string \<Rightarrow> js list \<Rightarrow> string option"
  decodeCall :: "string \<Rightarrow> (string \<times> js list) option"
  selectorOf :: "string \<Rightarrow> string option"

definition getAddress :: "'a viem_scheme \<Rightarrow> string \<Rightarrow> string option" where
  "getAddress V a = (if isAddress V a then Some (checksum V a) else None)"

text \<open>
  What is relied on: checksumming an address changes letter case only, gives an address, and depends on
  the address alone, not on the case it was typed in.
\<close>

definition address_laws :: "'a viem_scheme \<Rightarrow> bool" where
  "address_laws V \<longleftrightarrow>
     (\<forall>a. isAddress V a \<longrightarrow> lc (checksum V a) = lc a \<and> isAddress V (checksum V a))
     \<and> (\<forall>a b. isAddress V a \<longrightarrow> isAddress V b \<longrightarrow> lc a = lc b \<longrightarrow> checksum V a = checksum V b)"

section \<open>Policies\<close>

record AgentPolicy =
  active :: bool
  validUntil :: int
  maxPerPayment :: int
  maxPerWindow :: int
  shareReceiver :: string
  allowedDestinations :: "string list"
  assetRecipient :: string
  maxWithdrawPerPayment :: int
  maxWithdrawPerWindow :: int
  allowedSourceVaults :: "string list"

datatype policy_violation = Destinations_empty | Destination_zero | Retired_member_set

definition policyViolations :: "AgentPolicy \<Rightarrow> policy_violation list" where
  "policyViolations p =
     (if allowedDestinations p = [] then [Destinations_empty] else [])
     @ (if list_ex (\<lambda>d. lc d = zero_address) (allowedDestinations p) then [Destination_zero] else [])
     @ (if lc (assetRecipient p) \<noteq> zero_address \<or> maxWithdrawPerPayment p \<noteq> 0 \<or> maxWithdrawPerWindow p \<noteq> 0
           \<or> allowedSourceVaults p \<noteq> []
        then [Retired_member_set] else [])"

definition violation_text :: "policy_violation \<Rightarrow> string" where
  "violation_text v = (case v of
       Destinations_empty \<Rightarrow> ''allowedDestinations is empty''
     | Destination_zero \<Rightarrow> ''allowedDestinations has a zero address''
     | Retired_member_set \<Rightarrow> ''a retired withdraw member is non-zero'')"

record DepositPolicyInputs =
  in_validUntil :: int
  in_maxPerPayment :: int
  in_maxPerWindow :: int
  in_shareReceiver :: string
  in_destinations :: "string list"

fun normalize_loop :: "viem \<Rightarrow> string list \<Rightarrow> string list \<Rightarrow> string list \<Rightarrow> string list" where
  "normalize_loop V banned seen [] = []"
| "normalize_loop V banned seen (r # rs) =
     (if \<not> isAddress V r then normalize_loop V banned seen rs
      else if lc r = zero_address \<or> lc r \<in> set banned \<or> lc r \<in> set seen then normalize_loop V banned seen rs
      else checksum V r # normalize_loop V banned (lc r # seen) rs)"

definition normalizeDestinations :: "viem \<Rightarrow> string list \<Rightarrow> string list \<Rightarrow> string list" where
  "normalizeDestinations V raw excluded = normalize_loop V (map lc excluded) [] raw"

datatype policy_error = Select_at_least_one_vault

definition depositOnlyPolicy :: "viem \<Rightarrow> DepositPolicyInputs \<Rightarrow> string option \<Rightarrow> policy_error + AgentPolicy" where
  "depositOnlyPolicy V i routerAddress =
     (let excluded = (case routerAddress of Some r \<Rightarrow> if r \<noteq> [] then [r] else [] | None \<Rightarrow> []);
          destinations = normalizeDestinations V (in_destinations i) excluded
      in if destinations = [] then Inl Select_at_least_one_vault
         else Inr \<lparr>active = True, validUntil = in_validUntil i, maxPerPayment = in_maxPerPayment i,
                maxPerWindow = in_maxPerWindow i, shareReceiver = in_shareReceiver i,
                allowedDestinations = destinations, assetRecipient = zero_address,
                maxWithdrawPerPayment = 0, maxWithdrawPerWindow = 0, allowedSourceVaults = []\<rparr>)"

definition tryDepositOnlyPolicy :: "viem \<Rightarrow> DepositPolicyInputs \<Rightarrow> string option \<Rightarrow> AgentPolicy option" where
  "tryDepositOnlyPolicy V i routerAddress =
     (case depositOnlyPolicy V i routerAddress of Inl _ \<Rightarrow> None | Inr p \<Rightarrow> Some p)"

record policy_changes =
  ch_validUntil :: "int option"
  ch_maxPerPayment :: "int option"
  ch_maxPerWindow :: "int option"

definition or_else :: "'a option \<Rightarrow> 'a \<Rightarrow> 'a" where
  "or_else x y = (case x of Some v \<Rightarrow> v | None \<Rightarrow> y)"

definition editPolicy :: "viem \<Rightarrow> AgentPolicy \<Rightarrow> policy_changes \<Rightarrow> policy_error + AgentPolicy" where
  "editPolicy V old changes =
     depositOnlyPolicy V
       \<lparr>in_validUntil = or_else (ch_validUntil changes) (validUntil old),
        in_maxPerPayment = or_else (ch_maxPerPayment changes) (maxPerPayment old),
        in_maxPerWindow = or_else (ch_maxPerWindow changes) (maxPerWindow old),
        in_shareReceiver = shareReceiver old, in_destinations = allowedDestinations old\<rparr> None"

definition dq :: "string \<Rightarrow> string" where
  "dq s = [CHR 0x22] @ s @ [CHR 0x22]"

definition destinationsExportLines :: "viem \<Rightarrow> string list \<Rightarrow> string list" where
  "destinationsExportLines V destinations =
     (let dests = normalizeDestinations V destinations []
      in if dests = [] then []
         else [''# Vaults the depositor's policy allows this agent to deposit into (allowedDestinations).'',
               ''allowed_destinations = ['' @ join '', '' (map dq dests) @ '']''])"

section \<open>Commit and reveal\<close>

definition computeCommitHash :: "viem \<Rightarrow> string \<Rightarrow> string \<Rightarrow> string \<Rightarrow> string option" where
  "computeCommitHash V agent caller salt =
     map_option (keccak_hex V) (encodeAbi V [''address'', ''address'', ''bytes32''] [JStr agent, JStr caller, JStr salt])"

record CommitInputs =
  commit_agent :: string
  committer :: string
  commit_salt :: string

record RevealInputs =
  reveal_agent :: string
  reveal_salt :: string
  reveal_policy :: AgentPolicy

text \<open>A call the wallet signs: the function name and its arguments.\<close>

type_synonym call = "string \<times> js list"

definition commitAuthorizationCall :: "viem \<Rightarrow> CommitInputs \<Rightarrow> call option" where
  "commitAuthorizationCall V c =
     (case (getAddress V (commit_agent c), getAddress V (committer c)) of
        (Some a, Some b) \<Rightarrow>
          map_option (\<lambda>h. (''commitAuthorization'', [JStr h])) (computeCommitHash V a b (commit_salt c))
      | _ \<Rightarrow> None)"

definition policyTuple :: "viem \<Rightarrow> AgentPolicy \<Rightarrow> AgentPolicy option" where
  "policyTuple V p = map_option (\<lambda>r. p\<lparr>shareReceiver := r\<rparr>) (getAddress V (shareReceiver p))"

definition policy_js :: "AgentPolicy \<Rightarrow> js" where
  "policy_js p = JObj
     [(''active'', JBool (active p)), (''validUntil'', JBig (validUntil p)), (''maxPerPayment'', JBig (maxPerPayment p)),
      (''maxPerWindow'', JBig (maxPerWindow p)), (''shareReceiver'', JStr (shareReceiver p)),
      (''allowedDestinations'', JArr (map JStr (allowedDestinations p))), (''assetRecipient'', JStr (assetRecipient p)),
      (''maxWithdrawPerPayment'', JBig (maxWithdrawPerPayment p)), (''maxWithdrawPerWindow'', JBig (maxWithdrawPerWindow p)),
      (''allowedSourceVaults'', JArr (map JStr (allowedSourceVaults p)))]"

definition revealAuthorizationCall :: "viem \<Rightarrow> RevealInputs \<Rightarrow> call option" where
  "revealAuthorizationCall V r =
     (case (getAddress V (reveal_agent r), policyTuple V (reveal_policy r)) of
        (Some a, Some p) \<Rightarrow> Some (''revealAuthorization'', [JStr a, JStr (reveal_salt r), policy_js p])
      | _ \<Rightarrow> None)"

definition computeConsentHash :: "viem \<Rightarrow> string \<Rightarrow> string \<Rightarrow> string \<Rightarrow> AgentPolicy \<Rightarrow> string option" where
  "computeConsentHash V owner agent salt policy =
     (case encodeCall V ''revealAuthorization'' [JStr agent, JStr salt, policy_js policy] of None \<Rightarrow> None
      | Some callData \<Rightarrow>
          map_option (keccak_hex V) (encodeAbi V [''address'', ''bytes32''] [JStr owner, JStr (keccak_hex V callData)]))"

section \<open>Consent\<close>

definition COMMIT_EXPIRY_BLOCKS :: int where
  "COMMIT_EXPIRY_BLOCKS = 256"

definition commitmentStorageKey :: "viem \<Rightarrow> string \<Rightarrow> string \<Rightarrow> string option" where
  "commitmentStorageKey V commitHash by_whom =
     map_option (keccak_hex V) (encodeAbi V [''bytes32'', ''address''] [JStr commitHash, JStr by_whom])"

datatype ConsentStatus = Consent_self | Consent_unknown | Consent_missing | Consent_live | Consent_expired

definition consentStatus :: "bool \<Rightarrow> string \<Rightarrow> (string \<times> int) option \<Rightarrow> int option \<Rightarrow> ConsentStatus" where
  "consentStatus self agent commitment nextBlock =
     (if self then Consent_self
      else case (commitment, nextBlock) of
          (Some (who, blockNumber), Some next) \<Rightarrow>
            if lc who \<noteq> lc agent then Consent_missing
            else if next > blockNumber + COMMIT_EXPIRY_BLOCKS then Consent_expired
            else Consent_live
        | _ \<Rightarrow> Consent_unknown)"

definition commitLive :: "int \<Rightarrow> int \<Rightarrow> bool" where
  "commitLive commitBlock nextBlock = (nextBlock \<le> commitBlock + COMMIT_EXPIRY_BLOCKS)"

record RegistrationBinding =
  b_gateway :: string
  b_chainId :: int
  b_owner :: string
  b_agent :: string
  b_policy :: AgentPolicy

definition bindingKey :: "RegistrationBinding \<Rightarrow> string" where
  "bindingKey b =
     (let p = b_policy b
      in join ''|''
          [lc (b_gateway b), show_int (b_chainId b), lc (b_owner b), lc (b_agent b), show_bool (active p),
           show_int (validUntil p), show_int (maxPerPayment p), show_int (maxPerWindow p), lc (shareReceiver p),
           join '','' (map lc (allowedDestinations p)), lc (assetRecipient p), show_int (maxWithdrawPerPayment p),
           show_int (maxWithdrawPerWindow p), join '','' (map lc (allowedSourceVaults p))])"

section \<open>Registration and rotation previews\<close>

text \<open>\<open>credentialWorkflow.ts\<close> has its own, smaller \<open>AgentPolicy\<close>.\<close>

record CredentialPolicy =
  cp_shareReceiver :: string
  cp_validUntil :: int
  cp_maxPerDeposit :: int
  cp_maxPerWindow :: int

datatype credential_error =
    Invalid_address string
  | Invalid_time int
  | Same_address string

definition validateEthereumAddress :: "string \<Rightarrow> credential_error + unit" where
  "validateEthereumAddress addr = ensure (hex_of_len 40 addr) (Invalid_address addr)"

record RegisterPreview =
  rp_agentAddress :: string
  rp_policy :: CredentialPolicy
  rp_target :: string
  rp_functionName :: string
  rp_agent :: string
  rp_shareReceiver :: string
  rp_validUntilISO :: string
  rp_maxPerDepositFormatted :: string
  rp_maxPerWindowFormatted :: string
  rp_riskAnnotation :: string

definition composeRegisterPreview :: "string \<Rightarrow> CredentialPolicy \<Rightarrow> credential_error + RegisterPreview" where
  "composeRegisterPreview agentAddress p =
     res_bind (validateEthereumAddress agentAddress) (\<lambda>_.
     res_bind (validateEthereumAddress (cp_shareReceiver p)) (\<lambda>_.
     res_bind (of_option (Invalid_time (cp_validUntil p)) (toISOString (cp_validUntil p))) (\<lambda>validUntilISO.
     Inr \<lparr>rp_agentAddress = agentAddress, rp_policy = p, rp_target = ''gateway'',
          rp_functionName = ''revealAuthorization'', rp_agent = agentAddress,
          rp_shareReceiver = cp_shareReceiver p, rp_validUntilISO = validUntilISO,
          rp_maxPerDepositFormatted = formatUsdc (Some (cp_maxPerDeposit p)),
          rp_maxPerWindowFormatted = formatUsdc (Some (cp_maxPerWindow p)),
          rp_riskAnnotation =
            ''revealAuthorization grants AGENT_ROLE on the gateway, after the agent's own consent and your commit. ''
            @ ''The authorized address can call gateway.deposit() within the specified policy caps, and shares go to the signing wallet. ''
            @ ''This is an on-chain state change. Use revokeAgent (the owner or the agent can sign it) to undo it.''\<rparr>)))"

record RevokePreview =
  rv_agentAddress :: string
  rv_target :: string
  rv_functionName :: string
  rv_agent :: string
  rv_riskAnnotation :: string

record RotationPreview =
  revokeStep :: RevokePreview
  authorizeStep :: RegisterPreview
  combinedRiskAnnotation :: string

definition composeRotationPreview :: "string \<Rightarrow> string \<Rightarrow> CredentialPolicy \<Rightarrow> credential_error + RotationPreview" where
  "composeRotationPreview oldAgentAddress newAgentAddress newPolicy =
     res_bind (validateEthereumAddress oldAgentAddress) (\<lambda>_.
     res_bind (validateEthereumAddress newAgentAddress) (\<lambda>_.
     res_bind (ensure (lc oldAgentAddress \<noteq> lc newAgentAddress) (Same_address oldAgentAddress)) (\<lambda>_.
     res_bind (composeRegisterPreview newAgentAddress newPolicy) (\<lambda>authorize.
     Inr \<lparr>revokeStep = \<lparr>rv_agentAddress = oldAgentAddress, rv_target = ''gateway'', rv_functionName = ''revokeAgent'',
             rv_agent = oldAgentAddress,
             rv_riskAnnotation =
               ''revokeAgent removes AGENT_ROLE from the gateway immediately. ''
               @ ''Any in-flight deposit calls from the old address will fail after this transaction confirms.''\<rparr>,
          authorizeStep = authorize,
          combinedRiskAnnotation =
            ''This rotation submits THREE on-chain transactions from this wallet, in sequence, after the new agent's own consent: ''
            @ ''(1) revokeAgent removes the old agent address, ''
            @ ''(2) commitAuthorization, which stays disabled until the new agent has committed its consent from its own key, ''
            @ ''(3) revealAuthorization grants AGENT_ROLE to the new address with the specified policy, and this wallet becomes its owner. ''
            @ ''Every preview must be reviewed and confirmed before wallet signing begins. ''
            @ ''Do not close this dialog between transactions.''\<rparr>))))"

section \<open>Destinations are the owner's\<close>

definition eligible :: "viem \<Rightarrow> string list \<Rightarrow> string \<Rightarrow> bool" where
  "eligible V excluded r = (isAddress V r \<and> lc r \<noteq> zero_address \<and> lc r \<notin> set (map lc excluded))"

interpretation destinations: first_wins lc "eligible V excluded" "checksum V" "normalize_loop V (map lc excluded)"
  for V excluded
  by unfold_locales (auto simp: eligible_def)

lemmas norm_members = destinations.run_members [where seen = "[]", folded normalizeDestinations_def, simplified]
lemmas norm_complete = destinations.run_keys_complete [where seen = "[]", folded normalizeDestinations_def, simplified]
lemmas norm_fixed = destinations.run_fixed [where seen = "[]", folded normalizeDestinations_def, simplified]

lemma checksum_lc: "address_laws V \<Longrightarrow> isAddress V a \<Longrightarrow> lc (checksum V a) = lc a"
  and checksum_address: "address_laws V \<Longrightarrow> isAddress V a \<Longrightarrow> isAddress V (checksum V a)"
  unfolding address_laws_def by blast+

lemma checksum_idem:
  assumes "address_laws V" and "isAddress V a"
  shows "checksum V (checksum V a) = checksum V a"
  using assms checksum_lc [OF assms] checksum_address [OF assms] unfolding address_laws_def by blast

lemma norm_distinct:
  "address_laws V \<Longrightarrow> distinct (map lc (normalizeDestinations V raw excluded))"
  using destinations.run_distinct [of V excluded lc "[]" raw] checksum_lc [of V]
  by (simp add: eligible_def normalizeDestinations_def)

lemma norm_eligible:
  assumes "address_laws V" and "d \<in> set (normalizeDestinations V raw excluded)"
  shows "eligible V excluded d \<and> checksum V d = d \<and> (\<exists>r \<in> set raw. lc d = lc r \<and> eligible V excluded r)"
proof -
  obtain r where r: "r \<in> set raw" "eligible V excluded r" "d = checksum V r"
    using norm_members [OF assms(2)] by blast
  then have "isAddress V r" by (simp add: eligible_def)
  from checksum_lc [OF assms(1) this] checksum_address [OF assms(1) this] checksum_idem [OF assms(1) this] r
  show ?thesis by (auto simp: eligible_def)
qed

lemma norm_covers:
  assumes "address_laws V" and "r \<in> set raw" and "eligible V excluded r"
  shows "lc r \<in> set (map lc (normalizeDestinations V raw excluded))"
  using destinations.run_covers [of V excluded lc r raw "[]"] assms checksum_lc [OF assms(1)]
  by (simp add: eligible_def normalizeDestinations_def)

text \<open>
  The policy names exactly the owner's picks. Given that checksumming only changes letter case, the
  normalised list has no repeats, every entry is one of the owner's picks, is an address, is neither the zero
  address nor an excluded one (the router); and every pick with those properties is in it.
\<close>

theorem normalizeDestinations_exact:
  assumes "address_laws V"
  shows "distinct (map lc (normalizeDestinations V raw excluded))
    \<and> lc ` set (normalizeDestinations V raw excluded)
        = lc ` {r \<in> set raw. isAddress V r \<and> lc r \<noteq> zero_address \<and> lc r \<notin> lc ` set excluded}"
proof (intro conjI set_eqI iffI)
  show "distinct (map lc (normalizeDestinations V raw excluded))" by (rule norm_distinct [OF assms])
next
  fix x assume "x \<in> lc ` set (normalizeDestinations V raw excluded)"
  then show "x \<in> lc ` {r \<in> set raw. isAddress V r \<and> lc r \<noteq> zero_address \<and> lc r \<notin> lc ` set excluded}"
    using norm_eligible [OF assms] by (fastforce simp: eligible_def)
next
  fix x assume "x \<in> lc ` {r \<in> set raw. isAddress V r \<and> lc r \<noteq> zero_address \<and> lc r \<notin> lc ` set excluded}"
  then obtain r where r: "x = lc r" "r \<in> set raw" "eligible V excluded r" by (auto simp: eligible_def)
  have "lc r \<in> set (map lc (normalizeDestinations V raw excluded))"
    using r norm_covers [OF assms] by blast
  with r show "x \<in> lc ` set (normalizeDestinations V raw excluded)" by simp
qed

text \<open>
  A policy the dapp builds is one the gateway accepts: \<open>depositOnlyPolicy\<close> fails exactly when the owner
  picked no usable vault, and otherwise gives an active policy with the owner's caps, receiver and picks,
  without the router, for which \<open>policyViolations\<close> reports nothing.
\<close>

theorem depositOnlyPolicy_clean:
  assumes "address_laws V"
  shows "case depositOnlyPolicy V i router of
      Inl e \<Rightarrow> \<forall>r \<in> set (in_destinations i).
                \<not> eligible V (case router of Some x \<Rightarrow> if x \<noteq> [] then [x] else [] | None \<Rightarrow> []) r
    | Inr p \<Rightarrow> policyViolations p = [] \<and> active p \<and> validUntil p = in_validUntil i
        \<and> maxPerPayment p = in_maxPerPayment i \<and> maxPerWindow p = in_maxPerWindow i
        \<and> shareReceiver p = in_shareReceiver i
        \<and> (\<forall>d \<in> set (allowedDestinations p). \<exists>r \<in> set (in_destinations i). lc d = lc r)
        \<and> (\<forall>x. router = Some x \<and> x \<noteq> [] \<longrightarrow> lc x \<notin> lc ` set (allowedDestinations p))"
proof -
  define ex where "ex = (case router of Some x \<Rightarrow> if x \<noteq> [] then [x] else [] | None \<Rightarrow> [])"
  define ds where "ds = normalizeDestinations V (in_destinations i) ex"
  note el = norm_eligible [OF assms, of _ "in_destinations i" ex, folded ds_def]
  have zero: "lc zero_address = zero_address" by code_simp
  show ?thesis
  proof (cases "ds = []")
    case True
    then have "\<forall>r \<in> set (in_destinations i). \<not> eligible V ex r"
      using norm_complete [of _ "in_destinations i" V ex] by (auto simp: ds_def)
    with True show ?thesis by (simp add: depositOnlyPolicy_def Let_def flip: ex_def ds_def)
  next
    case False
    have "\<not> list_ex (\<lambda>d. lc d = zero_address) ds" using el by (auto simp: list_ex_iff eligible_def)
    moreover have "lc x \<notin> lc ` set ds" if "router = Some x" "x \<noteq> []" for x
    proof -
      have "ex = [x]" using that by (simp add: ex_def)
      with el show ?thesis by (auto simp: eligible_def) metis
    qed
    moreover have "\<exists>r \<in> set (in_destinations i). lc d = lc r" if "d \<in> set ds" for d using el that by blast
    ultimately show ?thesis using False zero
      by (auto simp: depositOnlyPolicy_def Let_def policyViolations_def simp flip: ex_def ds_def)
  qed
qed

text \<open>
  Editing the caps or the expiry of a policy the dapp built cannot fail and touches nothing else: the
  destinations come back letter for letter, the receiver stays, and the result is again a policy the gateway
  accepts.
\<close>

theorem editPolicy_keeps_destinations:
  assumes "address_laws V" and "depositOnlyPolicy V i router = Inr p"
  shows "editPolicy V p ch = Inr (p\<lparr>validUntil := or_else (ch_validUntil ch) (validUntil p),
     maxPerPayment := or_else (ch_maxPerPayment ch) (maxPerPayment p),
     maxPerWindow := or_else (ch_maxPerWindow ch) (maxPerWindow p)\<rparr>)"
proof -
  define ex where "ex = (case router of Some x \<Rightarrow> if x \<noteq> [] then [x] else [] | None \<Rightarrow> [])"
  define ds where "ds = normalizeDestinations V (in_destinations i) ex"
  have ds: "ds \<noteq> []" and p: "p = \<lparr>active = True, validUntil = in_validUntil i, maxPerPayment = in_maxPerPayment i,
      maxPerWindow = in_maxPerWindow i, shareReceiver = in_shareReceiver i, allowedDestinations = ds,
      assetRecipient = zero_address, maxWithdrawPerPayment = 0, maxWithdrawPerWindow = 0, allowedSourceVaults = []\<rparr>"
    using assms(2) by (auto simp: depositOnlyPolicy_def Let_def simp flip: ex_def ds_def split: if_splits)
  have "normalizeDestinations V ds [] = map (checksum V) ds"
    using norm_eligible [OF assms(1)] norm_distinct [OF assms(1)]
    by (intro norm_fixed) (auto simp: ds_def eligible_def)
  also have "\<dots> = ds" using norm_eligible [OF assms(1)] by (intro map_idI) (auto simp: ds_def)
  finally show ?thesis using ds by (simp add: editPolicy_def depositOnlyPolicy_def p)
qed

section \<open>The binding of a registration\<close>

lemma hex_chars: "hex_prefixed s \<Longrightarrow> c \<in> set s \<Longrightarrow> is_hex_char c \<or> c = CHR ''x''"
  using hex_prefixed_shape [of s] by (auto simp: list_all_iff is_hex_char_def)

lemma hex_no_sep: "hex_of_len n s \<Longrightarrow> CHR ''|'' \<notin> set (lc s) \<and> CHR '','' \<notin> set (lc s) \<and> lc s \<noteq> []"
proof -
  assume h: "hex_of_len n s"
  then have hl: "hex_prefixed (lc s)" by (simp add: hex_of_len_def hex_prefixed_lc)
  have "\<not> is_hex_char (CHR ''|'')" "\<not> is_hex_char (CHR '','')" by code_simp+
  with hl h show ?thesis by (auto dest: hex_chars simp: hex_of_len_def)
qed

lemma int_no_sep: "CHR ''|'' \<notin> set (show_int i)"
  using show_int_digits [of i] by auto

lemma bool_no_sep: "CHR ''|'' \<notin> set (show_bool b)"
  by (simp add: show_bool_def)

lemma show_bool_inject [simp]: "show_bool a = show_bool b \<longleftrightarrow> a = b"
  by (simp add: show_bool_def)

definition addresses :: "string list \<Rightarrow> bool" where
  "addresses xs \<longleftrightarrow> (\<forall>x \<in> set xs. hex_of_len 40 x)"

lemma join_chars: "set (join sep xs) \<subseteq> set sep \<union> (\<Union>x \<in> set xs. set x)"
  by (induction xs rule: induct_list012) auto

lemma list_no_sep: "addresses xs \<Longrightarrow> CHR ''|'' \<notin> set (join '','' (map lc xs))"
  using join_chars [of "'',''" "map lc xs"] hex_no_sep [of 40] by (fastforce simp: addresses_def)

lemma join_eq_Nil: "\<forall>x \<in> set xs. x \<noteq> [] \<Longrightarrow> join sep xs = [] \<longleftrightarrow> xs = []"
  by (induction xs rule: induct_list012) auto

lemma address_list_inject:
  assumes "addresses xs" and "addresses ys" and "join '','' (map lc xs) = join '','' (map lc ys)"
  shows "map lc xs = map lc ys"
proof -
  have parts: "\<forall>z \<in> set (map lc zs). CHR '','' \<notin> set z \<and> z \<noteq> []" if "addresses zs" for zs
    using that hex_no_sep [of 40] by (auto simp: addresses_def)
  show ?thesis
  proof (cases "map lc xs = [] \<or> map lc ys = []")
    case True
    then show ?thesis using assms parts join_eq_Nil by (metis join.simps(1))
  next
    case False
    then show ?thesis using assms parts split_on_join by metis
  qed
qed

definition wf_binding :: "RegistrationBinding \<Rightarrow> bool" where
  "wf_binding b \<longleftrightarrow> addresses ([b_gateway b, b_owner b, b_agent b, shareReceiver (b_policy b), assetRecipient (b_policy b)]
     @ allowedDestinations (b_policy b) @ allowedSourceVaults (b_policy b))"

definition key_parts :: "RegistrationBinding \<Rightarrow> string list" where
  "key_parts b =
     (let p = b_policy b
      in [lc (b_gateway b), show_int (b_chainId b), lc (b_owner b), lc (b_agent b), show_bool (active p),
          show_int (validUntil p), show_int (maxPerPayment p), show_int (maxPerWindow p), lc (shareReceiver p),
          join '','' (map lc (allowedDestinations p)), lc (assetRecipient p), show_int (maxWithdrawPerPayment p),
          show_int (maxWithdrawPerWindow p), join '','' (map lc (allowedSourceVaults p))])"

lemma key_parts_plain: "wf_binding b \<Longrightarrow> \<forall>x \<in> set (key_parts b). CHR ''|'' \<notin> set x"
proof -
  assume wf: "wf_binding b"
  have "addresses (allowedDestinations (b_policy b))" "addresses (allowedSourceVaults (b_policy b))"
    using wf by (auto simp: wf_binding_def addresses_def)
  with wf show ?thesis
    by (simp add: key_parts_def Let_def int_no_sep bool_no_sep list_no_sep hex_no_sep [of 40] wf_binding_def addresses_def)
qed

text \<open>The binding with the letter case of every address dropped: what the key can tell apart.\<close>

definition normal_policy :: "AgentPolicy \<Rightarrow> AgentPolicy" where
  "normal_policy p = p\<lparr>shareReceiver := lc (shareReceiver p), allowedDestinations := map lc (allowedDestinations p),
     assetRecipient := lc (assetRecipient p), allowedSourceVaults := map lc (allowedSourceVaults p)\<rparr>"

definition normal_binding :: "RegistrationBinding \<Rightarrow> RegistrationBinding" where
  "normal_binding b = \<lparr>b_gateway = lc (b_gateway b), b_chainId = b_chainId b, b_owner = lc (b_owner b),
     b_agent = lc (b_agent b), b_policy = normal_policy (b_policy b)\<rparr>"

lemma bindingKey_normal:
  assumes "wf_binding a" and "wf_binding b"
  shows "bindingKey a = bindingKey b \<longleftrightarrow> normal_binding a = normal_binding b"
proof -
  have "bindingKey c = join [CHR ''|''] (key_parts c)" for c by (simp add: bindingKey_def key_parts_def Let_def)
  moreover have "length (key_parts c) = 14" for c by (simp add: key_parts_def Let_def)
  ultimately have "bindingKey a = bindingKey b \<longleftrightarrow> key_parts a = key_parts b"
    using join_inject [of "CHR ''|''" "key_parts a" "key_parts b"] key_parts_plain assms by metis
  moreover have "addresses (allowedDestinations (b_policy c))" "addresses (allowedSourceVaults (b_policy c))"
    if "wf_binding c" for c using that by (auto simp: wf_binding_def addresses_def)
  then have "join '','' (map lc (allowedDestinations (b_policy a))) = join '','' (map lc (allowedDestinations (b_policy b)))
      \<longleftrightarrow> map lc (allowedDestinations (b_policy a)) = map lc (allowedDestinations (b_policy b))"
    "join '','' (map lc (allowedSourceVaults (b_policy a))) = join '','' (map lc (allowedSourceVaults (b_policy b)))
      \<longleftrightarrow> map lc (allowedSourceVaults (b_policy a)) = map lc (allowedSourceVaults (b_policy b))"
    using address_list_inject assms by metis+
  ultimately show ?thesis
    by (cases "b_policy a", cases "b_policy b") (auto simp: key_parts_def Let_def normal_binding_def normal_policy_def)
qed

text \<open>
  The frozen inputs of a registration are identified by their key: two bindings over well-formed
  addresses have the same key exactly when they agree, letter case of addresses aside, on gateway, chain,
  owner, agent and every member of the policy, the two lists included. So any change of what the consent,
  the commit or the reveal covers changes the key.
\<close>

theorem bindingKey_exact:
  assumes "wf_binding a" and "wf_binding b"
  shows "bindingKey a = bindingKey b \<longleftrightarrow>
     lc (b_gateway a) = lc (b_gateway b) \<and> b_chainId a = b_chainId b \<and> lc (b_owner a) = lc (b_owner b)
     \<and> lc (b_agent a) = lc (b_agent b)
     \<and> active (b_policy a) = active (b_policy b) \<and> validUntil (b_policy a) = validUntil (b_policy b)
     \<and> maxPerPayment (b_policy a) = maxPerPayment (b_policy b) \<and> maxPerWindow (b_policy a) = maxPerWindow (b_policy b)
     \<and> lc (shareReceiver (b_policy a)) = lc (shareReceiver (b_policy b))
     \<and> map lc (allowedDestinations (b_policy a)) = map lc (allowedDestinations (b_policy b))
     \<and> lc (assetRecipient (b_policy a)) = lc (assetRecipient (b_policy b))
     \<and> maxWithdrawPerPayment (b_policy a) = maxWithdrawPerPayment (b_policy b)
     \<and> maxWithdrawPerWindow (b_policy a) = maxWithdrawPerWindow (b_policy b)
     \<and> map lc (allowedSourceVaults (b_policy a)) = map lc (allowedSourceVaults (b_policy b))"
  unfolding bindingKey_normal [OF assms] normal_binding_def normal_policy_def
  by (cases "b_policy a", cases "b_policy b") auto

section \<open>Rotation\<close>

text \<open>A rotation preview exists only for two distinct, well-formed agents and a well-formed receiver.\<close>

lemma composeRotationPreview_ok:
  "is_ok (composeRotationPreview old new p) \<longleftrightarrow>
     hex_of_len 40 old \<and> hex_of_len 40 new \<and> lc old \<noteq> lc new \<and> hex_of_len 40 (cp_shareReceiver p)
     \<and> - 8640000000000 \<le> cp_validUntil p \<and> cp_validUntil p \<le> 8640000000000"
proof -
  have "(\<exists>x. toISOString (cp_validUntil p) = Some x) \<longleftrightarrow> - 8640000000000 \<le> cp_validUntil p \<and> cp_validUntil p \<le> 8640000000000"
    using toISOString_range by auto
  then show ?thesis
    by (auto simp: is_ok_iff composeRotationPreview_def composeRegisterPreview_def validateEthereumAddress_def)
qed

section \<open>Concrete policies\<close>

text \<open>An address library that checksums to lower case, and a codec that writes its input's size.\<close>

definition sample_viem :: viem where
  "sample_viem = \<lparr>isAddress = hex_of_len 40, checksum = lc, keccak_hex = (\<lambda>s. ''0x'' @ pad_start 64 (show_nat (length s))),
     encodeAbi = (\<lambda>ts vs. Some (''0x'' @ show_nat (length vs))),
     encodeCall = (\<lambda>fn args. Some (''0x'' @ fn)),
     decodeCall = (\<lambda>d. Some (drop 2 d, [])),
     selectorOf = (\<lambda>fn. Some (''0x'' @ take 8 fn))\<rparr>"

lemma sample_viem_laws: "address_laws sample_viem"
  by (simp add: address_laws_def sample_viem_def hex_of_len_lc)

definition sample_addr :: "string \<Rightarrow> string" where
  "sample_addr d = ''0x'' @ pad_start 40 d"

definition sample_inputs :: DepositPolicyInputs where
  "sample_inputs = \<lparr>in_validUntil = 2000000000, in_maxPerPayment = 5, in_maxPerWindow = 50,
     in_shareReceiver = sample_addr ''e5'',
     in_destinations = [sample_addr ''D4'', ''junk'', sample_addr ''c3'', sample_addr ''d4'', zero_address]\<rparr>"

definition sample_policy :: AgentPolicy where
  "sample_policy = \<lparr>active = True, validUntil = 2000000000, maxPerPayment = 5, maxPerWindow = 50,
     shareReceiver = sample_addr ''e5'', allowedDestinations = [sample_addr ''d4''], assetRecipient = zero_address,
     maxWithdrawPerPayment = 0, maxWithdrawPerWindow = 0, allowedSourceVaults = []\<rparr>"

lemma sample_policy_built: "depositOnlyPolicy sample_viem sample_inputs (Some (sample_addr ''C3'')) = Inr sample_policy"
  by code_simp

theorem normalizeDestinations_exact_witness:
  "normalizeDestinations sample_viem [sample_addr ''D4'', ''junk'', sample_addr ''d4'', zero_address] [] = [sample_addr ''d4'']
   \<and> distinct (map lc (normalizeDestinations sample_viem [sample_addr ''D4'', ''junk'', sample_addr ''d4'', zero_address] []))"
proof -
  have "normalizeDestinations sample_viem [sample_addr ''D4'', ''junk'', sample_addr ''d4'', zero_address] []
      = [sample_addr ''d4'']" by code_simp
  with normalizeDestinations_exact [OF sample_viem_laws] show ?thesis by blast
qed

theorem depositOnlyPolicy_clean_witness:
  "depositOnlyPolicy sample_viem sample_inputs (Some (sample_addr ''C3'')) = Inr sample_policy
   \<and> policyViolations sample_policy = [] \<and> lc (sample_addr ''C3'') \<notin> lc ` set (allowedDestinations sample_policy)"
proof -
  have "sample_addr ''C3'' \<noteq> []" by (simp add: sample_addr_def)
  with depositOnlyPolicy_clean [OF sample_viem_laws, of sample_inputs "Some (sample_addr ''C3'')"] sample_policy_built
  show ?thesis by simp
qed

theorem editPolicy_keeps_destinations_witness:
  "editPolicy sample_viem sample_policy \<lparr>ch_validUntil = Some 9, ch_maxPerPayment = None, ch_maxPerWindow = None\<rparr>
     = Inr (sample_policy\<lparr>validUntil := 9\<rparr>)"
  using editPolicy_keeps_destinations [OF sample_viem_laws sample_policy_built,
      of "\<lparr>ch_validUntil = Some 9, ch_maxPerPayment = None, ch_maxPerWindow = None\<rparr>"]
  by (simp add: or_else_def sample_policy_def)

definition sample_binding :: "int \<Rightarrow> RegistrationBinding" where
  "sample_binding c = \<lparr>b_gateway = sample_addr ''a1'', b_chainId = c, b_owner = sample_addr ''e5'',
     b_agent = sample_addr ''f6'', b_policy = sample_policy\<rparr>"

theorem bindingKey_exact_witness: "bindingKey (sample_binding 8453) \<noteq> bindingKey (sample_binding 1)"
proof -
  have "hex_of_len 40 (sample_addr ''a1'')" "hex_of_len 40 (sample_addr ''e5'')" "hex_of_len 40 (sample_addr ''f6'')"
    "hex_of_len 40 (sample_addr ''d4'')" "hex_of_len 40 zero_address" by code_simp+
  then have "wf_binding (sample_binding c)" for c
    by (simp add: wf_binding_def addresses_def sample_binding_def sample_policy_def)
  from bindingKey_exact [OF this this, of 8453 1] show ?thesis by (simp add: sample_binding_def)
qed

end
