(* ===== verification/Preview.thy ===== *)
theory Preview
  imports Policy
begin

text \<open>
  What the user reads before signing: \<open>productReasonCode.ts\<close>, \<open>preview.ts\<close> and \<open>vaultPreview.ts\<close>.

  The coder of the previewed contract's ABI (\<open>encodeFunctionData\<close>, \<open>decodeFunctionData\<close> and the selector of a
  function) is part of the \<^typ>\<open>viem\<close> record passed to each preview. Strings that hold a character beyond ASCII are
  written with its UTF-8 bytes.
\<close>

section \<open>Reason codes\<close>

datatype ProductReasonCode =
    Paused
  | Vault_disabled
  | Cap_exceeded
  | Expired_policy
  | Insufficient_allowance
  | Insufficient_balance
  | Unavailable_leg
  | Fee_cap_exceeded
  | Slippage_bound_exceeded
  | Unknown_revert

definition SELECTOR_MAP :: "(string \<times> ProductReasonCode) list" where
  "SELECTOR_MAP =
    [(''0x5a65d188'', Paused), (''0xdeeb6943'', Paused), (''0x3a81d6fc'', Vault_disabled), (''0x9f32e927'', Cap_exceeded),
     (''0x12c4d14b'', Cap_exceeded), (''0x8d5e3e5d'', Expired_policy), (''0x13be252b'', Insufficient_allowance),
     (''0xfb8f41b2'', Insufficient_allowance), (''0xdfd1fc1b'', Insufficient_balance), (''0xe450d38c'', Insufficient_balance),
     (''0x8562ca85'', Unavailable_leg), (''0x35f3f5e8'', Fee_cap_exceeded), (''0xb3b72aca'', Slippage_bound_exceeded)]"

definition PRODUCT_REASON_DISPLAY :: "ProductReasonCode \<Rightarrow> string" where
  "PRODUCT_REASON_DISPLAY code = (case code of
      Paused \<Rightarrow> ''Deposits are paused on this gateway or vault. Withdrawals stay open. Deposits resume when governance unpauses them.''
    | Vault_disabled \<Rightarrow> ''The target vault is disabled or not registered with the gateway.''
    | Cap_exceeded \<Rightarrow> ''A per-payment or per-window cap has been exceeded. Wait for the window to reset or reduce the amount.''
    | Expired_policy \<Rightarrow> ''Agent policy has expired (validUntil < current time). Re-authorize the agent.''
    | Insufficient_allowance \<Rightarrow> ''Token allowance is insufficient. Approve the gateway for the required amount first.''
    | Insufficient_balance \<Rightarrow> ''Token or share balance is insufficient. Ensure you hold enough before retrying.''
    | Unavailable_leg \<Rightarrow> ''One or more vault legs in the router deposit are unavailable. Review the leg status before signing.''
    | Fee_cap_exceeded \<Rightarrow> ''Gas fee exceeds the operator-configured cap. Wait for lower gas or raise the cap.''
    | Slippage_bound_exceeded \<Rightarrow> ''Estimated shares per leg fall below the minimum bound. Adjust slippage tolerance or try a smaller amount.''
    | Unknown_revert \<Rightarrow> ''Gateway bytecode hash does not match the pinned fixture. Refusing to sign.'')"

definition productReasonDisplay :: "ProductReasonCode \<Rightarrow> string" where
  "productReasonDisplay code = PRODUCT_REASON_DISPLAY code"

definition reason_of_text :: "string \<Rightarrow> ProductReasonCode" where
  "reason_of_text lower =
     (if str_includes ''paused'' lower then Paused
      else if str_includes ''vault_disabled'' lower \<or> str_includes ''vaultdisabled'' lower then Vault_disabled
      else if str_includes ''cap exceeded'' lower \<or> str_includes ''capexceeded'' lower then Cap_exceeded
      else if str_includes ''expired'' lower \<or> str_includes ''policy expired'' lower then Expired_policy
      else if str_includes ''allowance'' lower then Insufficient_allowance
      else if str_includes ''balance'' lower then Insufficient_balance
      else if str_includes ''unavailable'' lower then Unavailable_leg
      else if str_includes ''fee cap'' lower then Fee_cap_exceeded
      else if str_includes ''slippage'' lower then Slippage_bound_exceeded
      else Unknown_revert)"

definition mapEvmRevertToProductReason :: "string option \<Rightarrow> ProductReasonCode" where
  "mapEvmRevertToProductReason revert =
     (case revert of None \<Rightarrow> Unknown_revert
      | Some r \<Rightarrow>
          if r = [] then Unknown_revert
          else case (if starts_with ''0x'' r \<and> 10 \<le> length r then map_of SELECTOR_MAP (lc (take 10 r)) else None) of
                 Some mapped \<Rightarrow> mapped
               | None \<Rightarrow> reason_of_text (lc r))"

section \<open>The preview shape\<close>

datatype RiskClass = Low | Medium | High | Unsafe

record PreviewArg =
  arg_name :: string
  raw :: string
  gloss :: string

record PreviewSuccess =
  target :: string
  targetCodeHashKnown :: bool
  functionName :: string
  selector :: string
  args :: "PreviewArg list"
  effect :: string
  risk :: RiskClass
  calldata :: string
  warning :: "string option"

datatype Preview =
    PreviewOk PreviewSuccess
  | PreviewRefused ProductReasonCode "string option" "string option"

text \<open>\<open>PreviewRefused reason calldata detail\<close>.\<close>

datatype EnvClass = EnvFork | EnvDevnet | EnvTestnet | EnvMainnet

record PreviewContext =
  ctx_gateway :: string
  gatewayCodeHashVerified :: bool
  envClass :: EnvClass
  verifiedTargets :: "string list"
  refusedTargets :: "string list"
  gatewayRefusalDetail :: "string option"

definition targetCodeHashPinned :: "('a PreviewContext_scheme) \<Rightarrow> string \<Rightarrow> bool" where
  "targetCodeHashPinned ctx t = (lc t \<in> set (verifiedTargets ctx))"

definition shorten :: "string \<Rightarrow> string" where
  "shorten addr = take 6 addr @ ''...'' @ last_chars 4 addr"

datatype RoleName = ADMIN_ROLE | DEPOSIT_PAUSER_ROLE

definition role_text :: "RoleName \<Rightarrow> string" where
  "role_text r = (case r of ADMIN_ROLE \<Rightarrow> ''ADMIN_ROLE'' | DEPOSIT_PAUSER_ROLE \<Rightarrow> ''DEPOSIT_PAUSER_ROLE'')"

definition ROLE_HASH :: "RoleName \<Rightarrow> string" where
  "ROLE_HASH r = (case r of
      ADMIN_ROLE \<Rightarrow> ''0xa49807205ce4d355092ef5a8a18f56e8913cf4a201fbe287825b095693c21775''
    | DEPOSIT_PAUSER_ROLE \<Rightarrow> ''0x39d7c99df860586d89a6559d1f1be4c1787de0c0cafbcd46bfce1ec1f971e238'')"

datatype AdminAction =
    CommitAuthorization CommitInputs
  | RevealAuthorization RevealInputs
  | RevokeAgent string
  | PauseDeposits
  | UnpauseDeposits
  | GrantRole RoleName string
  | RevokeRole RoleName string

definition HIGH_CAP_THRESHOLD :: int where
  "HIGH_CAP_THRESHOLD = 1000000000"

definition classifyRisk :: "AdminAction \<Rightarrow> PreviewContext \<Rightarrow> RiskClass" where
  "classifyRisk action ctx =
     (if \<not> gatewayCodeHashVerified ctx then Unsafe
      else case action of
          PauseDeposits \<Rightarrow> if envClass ctx = EnvFork then Low else Unsafe
        | UnpauseDeposits \<Rightarrow> if envClass ctx = EnvFork then Low else Unsafe
        | RevokeAgent _ \<Rightarrow> Low
        | CommitAuthorization _ \<Rightarrow> Low
        | RevealAuthorization r \<Rightarrow>
            if policyViolations (reveal_policy r) \<noteq> [] then High
            else if maxPerWindow (reveal_policy r) > HIGH_CAP_THRESHOLD then High else Medium
        | GrantRole _ _ \<Rightarrow> High
        | RevokeRole _ _ \<Rightarrow> Low)"

definition arg :: "string \<Rightarrow> string \<Rightarrow> string \<Rightarrow> PreviewArg" where
  "arg n r g = \<lparr>arg_name = n, raw = r, gloss = g\<rparr>"

text \<open>\<^const>\<open>None\<close> when the expiry is out of the range of a date: the code throws.\<close>

definition policyArgs :: "AgentPolicy \<Rightarrow> PreviewArg list option" where
  "policyArgs p =
     map_option (\<lambda>iso.
       [arg ''policy.active'' (show_bool (active p)) (if active p then ''policy ACTIVE'' else ''policy INACTIVE''),
        arg ''policy.validUntil'' (show_int (validUntil p)) (''expires '' @ iso),
        arg ''policy.maxPerPayment'' (show_int (maxPerPayment p)) (formatUsdc (Some (maxPerPayment p)) @ '' per deposit''),
        arg ''policy.maxPerWindow'' (show_int (maxPerWindow p)) (formatUsdc (Some (maxPerWindow p)) @ '' per window''),
        arg ''policy.shareReceiver'' (shareReceiver p) (''shares -> '' @ shorten (shareReceiver p)),
        arg ''policy.allowedDestinations'' (join '','' (allowedDestinations p))
          (if allowedDestinations p \<noteq> []
           then ''the agent may deposit only into: '' @ join '', '' (map shorten (allowedDestinations p))
           else ''NO destinations selected (the gateway reverts an empty list)'')])
     (toISOString (validUntil p))"

definition policyEffect :: "string \<Rightarrow> AgentPolicy \<Rightarrow> string option" where
  "policyEffect agentAddr p =
     map_option (\<lambda>expiryIso.
       let issues = policyViolations p;
           refusal = (if issues \<noteq> [] then '' WARNING: the gateway reverts this policy (''
                        @ join ''; '' (map violation_text issues) @ '').'' else []);
           dests = join '', '' (map shorten (allowedDestinations p))
       in ''Address '' @ shorten agentAddr @ '' will hold AGENT_ROLE; this lets it call depositTo() within policy caps until ''
          @ expiryIso @ '', only into: '' @ (if dests \<noteq> [] then dests else ''(none)'')
          @ ''. The agent has no withdrawal path.'' @ refusal)
     (toISOString (validUntil p))"

definition roleEffectGrant :: "RoleName \<Rightarrow> string \<Rightarrow> string" where
  "roleEffectGrant role account = (case role of
      ADMIN_ROLE \<Rightarrow> ''Address '' @ shorten account @ '' will hold ADMIN_ROLE; this lets it call unpauseDeposits(). It grants no authority over any agent (owners register, edit and revoke their own). Mutually exclusive with AGENT_ROLE and DEPOSIT_PAUSER_ROLE on the same account (enforced by AccessRoles._grantRole).''
    | DEPOSIT_PAUSER_ROLE \<Rightarrow> ''Address '' @ shorten account @ '' will hold DEPOSIT_PAUSER_ROLE; this lets it call pauseDeposits(), which stops new deposits only and never blocks a withdrawal (asymmetric '' @ PLACEHOLDER @ '' unpauseDeposits requires ADMIN_ROLE). Mutually exclusive with AGENT_ROLE and ADMIN_ROLE on the same account.'')"

definition roleEffectRevoke :: "RoleName \<Rightarrow> string \<Rightarrow> string" where
  "roleEffectRevoke role account = (case role of
      ADMIN_ROLE \<Rightarrow> ''Address '' @ shorten account @ '' loses ADMIN_ROLE; subsequent unpauseDeposits calls from this account revert. The contract still requires at least one DEFAULT_ADMIN_ROLE holder for recovery.''
    | DEPOSIT_PAUSER_ROLE \<Rightarrow> ''Address '' @ shorten account @ '' loses DEPOSIT_PAUSER_ROLE; subsequent pauseDeposits() calls from this account revert. Other DEPOSIT_PAUSER_ROLE holders (if any) are unaffected.'')"

text \<open>The three values the \<open>switch\<close> of \<open>buildPreview\<close> computes for an action.\<close>

definition action_call :: "viem \<Rightarrow> AdminAction \<Rightarrow> call option" where
  "action_call V action = (case action of
      CommitAuthorization c \<Rightarrow> commitAuthorizationCall V c
    | RevealAuthorization r \<Rightarrow> revealAuthorizationCall V r
    | RevokeAgent a \<Rightarrow> map_option (\<lambda>x. (''revokeAgent'', [JStr x])) (getAddress V a)
    | PauseDeposits \<Rightarrow> Some (''pauseDeposits'', [])
    | UnpauseDeposits \<Rightarrow> Some (''unpauseDeposits'', [])
    | GrantRole r a \<Rightarrow> map_option (\<lambda>x. (''grantRole'', [JStr (ROLE_HASH r), JStr x])) (getAddress V a)
    | RevokeRole r a \<Rightarrow> map_option (\<lambda>x. (''revokeRole'', [JStr (ROLE_HASH r), JStr x])) (getAddress V a))"

definition role_args :: "RoleName \<Rightarrow> string \<Rightarrow> PreviewArg list" where
  "role_args role account =
     [arg ''role'' (ROLE_HASH role) (role_text role @ '' (keccak256 of role string)''),
      arg ''account'' account (role_text role @ '' holder '' @ shorten account)]"

definition action_args :: "AdminAction \<Rightarrow> call \<Rightarrow> PreviewArg list option" where
  "action_args action c = (case action of
      CommitAuthorization ci \<Rightarrow>
        Some [arg ''commitHash'' (case snd c of JStr h # _ \<Rightarrow> h | _ \<Rightarrow> [])
          (''keccak256(abi.encode(agent '' @ shorten (commit_agent ci) @ '', caller '' @ shorten (committer ci)
           @ '', salt '' @ shorten (commit_salt ci) @ ''))'')]
    | RevealAuthorization r \<Rightarrow>
        map_option (\<lambda>rows.
          [arg ''agent'' (reveal_agent r) (''Agent EOA '' @ shorten (reveal_agent r)),
           arg ''salt'' (reveal_salt r)
             ''salt of the step-1 commitment; keccak256(abi.encode(agent, caller, salt)) must equal it''] @ rows)
          (policyArgs (reveal_policy r))
    | RevokeAgent a \<Rightarrow> Some [arg ''agent'' a (''Agent EOA '' @ shorten a)]
    | PauseDeposits \<Rightarrow> Some []
    | UnpauseDeposits \<Rightarrow> Some []
    | GrantRole r a \<Rightarrow> Some (role_args r a)
    | RevokeRole r a \<Rightarrow> Some (role_args r a))"

definition action_effect :: "AdminAction \<Rightarrow> string option" where
  "action_effect action = (case action of
      CommitAuthorization c \<Rightarrow> Some (
        ''Records a hidden commitment, bound to caller '' @ shorten (committer c) @ '', to authorize agent ''
        @ shorten (commit_agent c) @ ''. No role, policy or funds change yet. At least one block later, revealAuthorization(agent, salt, policy) grants AGENT_ROLE with the policy shown in the reveal preview; that policy is not part of this commitment.'')
    | RevealAuthorization r \<Rightarrow>
        map_option (\<lambda>e. ''Reveals the step-1 commitment; the signing wallet becomes this agent's recorded owner (agentOwner). Unless the signing wallet is the agent, the agent must first have committed its consent hash for exactly this agent, salt and policy (core 1791), or the reveal reverts OwnerConsentMissing. '' @ e)
          (policyEffect (reveal_agent r) (reveal_policy r))
    | RevokeAgent a \<Rightarrow> Some (''Address '' @ shorten a @ '' loses AGENT_ROLE, its policy and owner record are deleted and its rolling deposit budget is reset; subsequent depositTo() calls revert. Only the agent's owner or the agent itself can sign this.'')
    | PauseDeposits \<Rightarrow> Some ''Gateway deposits are paused; depositTo() reverts with DepositsArePaused until unpauseDeposits() is called. Withdrawals stay open.''
    | UnpauseDeposits \<Rightarrow> Some ''Gateway deposits resume; deposit() resumes for AGENT_ROLE holders within policy. Withdrawals were open throughout.''
    | GrantRole r a \<Rightarrow> Some (roleEffectGrant r a)
    | RevokeRole r a \<Rightarrow> Some (roleEffectRevoke r a))"

text \<open>
  Encode a call and decode it again: the calldata and selector, or the calldata of a failed round trip.
  \<^term>\<open>Inl None\<close> is a failed encoding.
\<close>

definition checked_calldata :: "viem \<Rightarrow> call \<Rightarrow> string option + string \<times> string" where
  "checked_calldata V c =
     (case encodeCall V (fst c) (snd c) of None \<Rightarrow> Inl None
      | Some data \<Rightarrow>
          (case decodeCall V data of None \<Rightarrow> Inl (Some data)
           | Some d \<Rightarrow>
               if fst d \<noteq> fst c then Inl (Some data)
               else (case selectorOf V (fst c) of None \<Rightarrow> Inl (Some data) | Some sel \<Rightarrow> Inr (data, sel))))"

definition buildPreview :: "viem \<Rightarrow> AdminAction \<Rightarrow> PreviewContext \<Rightarrow> Preview" where
  "buildPreview V action ctx =
     (if \<not> gatewayCodeHashVerified ctx then PreviewRefused Unknown_revert None None
      else case action_call V action of None \<Rightarrow> PreviewRefused Unknown_revert None None
      | Some c \<Rightarrow>
          (case (encodeCall V (fst c) (snd c), action_args action c, action_effect action) of
             (Some _, Some rows, Some eff) \<Rightarrow>
               (case checked_calldata V c of
                  Inl data \<Rightarrow> PreviewRefused Unknown_revert data None
                | Inr (data, sel) \<Rightarrow>
                    PreviewOk \<lparr>target = ctx_gateway ctx, targetCodeHashKnown = gatewayCodeHashVerified ctx,
                      functionName = fst c, selector = sel, args = rows, effect = eff,
                      risk = classifyRisk action ctx, calldata = data, warning = None\<rparr>)
           | _ \<Rightarrow> PreviewRefused Unknown_revert None None))"

section \<open>Vault previews\<close>

datatype VaultAction =
    VaultDeposit int string
  | VaultRedeem int string string

record VaultPreviewContext = PreviewContext +
  ctx_vault :: string
  shareSymbol :: "string option"

definition classifyVaultRisk :: "VaultAction \<Rightarrow> VaultPreviewContext \<Rightarrow> RiskClass" where
  "classifyVaultRisk action ctx = (if \<not> gatewayCodeHashVerified ctx then Unsafe else Low)"

definition unverifiedGatewayExitWarning :: "('a PreviewContext_scheme) \<Rightarrow> string" where
  "unverifiedGatewayExitWarning ctx =
     ''The gateway is not verified''
     @ (case gatewayRefusalDetail ctx of Some d \<Rightarrow> if d \<noteq> [] then '': '' @ d else ''.'' | None \<Rightarrow> ''.'')
     @ '' This redeem does not call the gateway, so it stays available. Deposits and gateway writes stay refused.''"

definition nonempty :: "string option \<Rightarrow> string option" where
  "nonempty d = (case d of Some s \<Rightarrow> if s \<noteq> [] then Some s else None | None \<Rightarrow> None)"

definition vault_call :: "viem \<Rightarrow> VaultAction \<Rightarrow> call option" where
  "vault_call V action = (case action of
      VaultDeposit assets receiver \<Rightarrow> map_option (\<lambda>r. (''deposit'', [JBig assets, JStr r])) (getAddress V receiver)
    | VaultRedeem shares receiver owner \<Rightarrow>
        (case (getAddress V receiver, getAddress V owner) of
           (Some r, Some w) \<Rightarrow> Some (''redeem'', [JBig shares, JStr r, JStr w]) | _ \<Rightarrow> None))"

definition vault_args :: "VaultAction \<Rightarrow> string \<Rightarrow> PreviewArg list" where
  "vault_args action unit = (case action of
      VaultDeposit assets receiver \<Rightarrow>
        [arg ''assets'' (show_int assets) (formatUsdc (Some assets) @ '' pulled from caller''),
         arg ''receiver'' receiver (''shares -> '' @ shorten receiver)]
    | VaultRedeem shares receiver owner \<Rightarrow>
        [arg ''shares'' (show_int shares) (formatShares (Some shares) unit SHARE_DECIMALS @ '' burned''),
         arg ''receiver'' receiver (''USDC -> '' @ shorten receiver),
         arg ''owner'' owner (''share owner '' @ shorten owner)])"

definition vault_effect :: "VaultAction \<Rightarrow> string \<Rightarrow> string" where
  "vault_effect action unit = (case action of
      VaultDeposit assets receiver \<Rightarrow>
        ''Vault pulls '' @ formatUsdc (Some assets) @ '' from caller and mints '' @ unit @ '' to '' @ shorten receiver @ ''.''
    | VaultRedeem shares receiver owner \<Rightarrow>
        ''Vault burns '' @ formatShares (Some shares) unit SHARE_DECIMALS @ '' owned by '' @ shorten owner
        @ '' and credits USDC (net of exitFeeBps) to '' @ shorten receiver @ ''.'')"

definition buildVaultPreview :: "viem \<Rightarrow> VaultAction \<Rightarrow> VaultPreviewContext \<Rightarrow> Preview" where
  "buildVaultPreview V action ctx =
     (if \<not> gatewayCodeHashVerified ctx \<and> (case action of VaultRedeem _ _ _ \<Rightarrow> False | _ \<Rightarrow> True)
      then PreviewRefused Unknown_revert None (nonempty (gatewayRefusalDetail ctx))
      else case vault_call V action of None \<Rightarrow> PreviewRefused Unknown_revert None None
      | Some c \<Rightarrow>
          (case checked_calldata V c of
             Inl data \<Rightarrow> PreviewRefused Unknown_revert data None
           | Inr (data, sel) \<Rightarrow>
               let unit = shareSymbolOrNeutral (shareSymbol ctx)
               in PreviewOk \<lparr>target = ctx_vault ctx,
                    targetCodeHashKnown = (gatewayCodeHashVerified ctx \<and> targetCodeHashPinned ctx (ctx_vault ctx)),
                    functionName = fst c, selector = sel, args = vault_args action unit,
                    effect = vault_effect action unit, risk = classifyVaultRisk action ctx, calldata = data,
                    warning = (if gatewayCodeHashVerified ctx then None else Some (unverifiedGatewayExitWarning ctx))\<rparr>))"

section \<open>What is previewed is what is signed\<close>

lemma checked_calldata_ok:
  "checked_calldata V c = Inr (data, sel) \<longleftrightarrow>
     encodeCall V (fst c) (snd c) = Some data \<and> (\<exists>xs. decodeCall V data = Some (fst c, xs)) \<and> selectorOf V (fst c) = Some sel"
  by (auto simp: checked_calldata_def split: option.splits)

lemma buildPreview_ok:
  assumes "buildPreview V a ctx = PreviewOk p"
  shows "gatewayCodeHashVerified ctx \<and> target p = ctx_gateway ctx \<and> targetCodeHashKnown p \<and> risk p = classifyRisk a ctx
    \<and> (\<exists>c. action_call V a = Some c \<and> functionName p = fst c \<and> checked_calldata V c = Inr (calldata p, selector p)
          \<and> action_args a c = Some (args p) \<and> action_effect a = Some (effect p))"
  using assms
  by (auto simp: buildPreview_def split: if_splits option.splits sum.splits prod.splits)

text \<open>
  A reveal preview that can be signed shows the call that will be signed. It exists only for a verified
  gateway; its calldata is the encoding of the very call object the wallet gets
  (\<open>revealAuthorizationCall\<close>) and decodes to that function; and among its rows are the raw caps, the receiver
  and the complete list of destinations of the policy.
\<close>

theorem reveal_preview_faithful:
  assumes "buildPreview V (RevealAuthorization r) ctx = PreviewOk p"
  shows "gatewayCodeHashVerified ctx \<and> target p = ctx_gateway ctx
    \<and> (\<exists>as. revealAuthorizationCall V r = Some (functionName p, as)
          \<and> encodeCall V (functionName p) as = Some (calldata p)
          \<and> (\<exists>xs. decodeCall V (calldata p) = Some (functionName p, xs)))
    \<and> {(''agent'', reveal_agent r), (''salt'', reveal_salt r),
       (''policy.maxPerPayment'', show_int (maxPerPayment (reveal_policy r))),
       (''policy.maxPerWindow'', show_int (maxPerWindow (reveal_policy r))),
       (''policy.validUntil'', show_int (validUntil (reveal_policy r))),
       (''policy.shareReceiver'', shareReceiver (reveal_policy r)),
       (''policy.allowedDestinations'', join '','' (allowedDestinations (reveal_policy r)))}
      \<subseteq> (\<lambda>row. (arg_name row, raw row)) ` set (args p)"
proof -
  obtain c where c: "revealAuthorizationCall V r = Some c" "functionName p = fst c"
      "checked_calldata V c = Inr (calldata p, selector p)" "action_args (RevealAuthorization r) c = Some (args p)"
    using buildPreview_ok [OF assms] by (auto simp: action_call_def)
  then obtain rows where rows: "policyArgs (reveal_policy r) = Some rows"
      and args: "args p = [arg ''agent'' (reveal_agent r) (''Agent EOA '' @ shorten (reveal_agent r)),
           arg ''salt'' (reveal_salt r)
             ''salt of the step-1 commitment; keccak256(abi.encode(agent, caller, salt)) must equal it''] @ rows"
    by (auto simp: action_args_def)
  have "as = snd c \<Longrightarrow> c = (functionName p, as)" for as using c(2) by simp
  with buildPreview_ok [OF assms] c(1,3) have
    first: "gatewayCodeHashVerified ctx \<and> target p = ctx_gateway ctx
      \<and> (\<exists>as. revealAuthorizationCall V r = Some (functionName p, as)
          \<and> encodeCall V (functionName p) as = Some (calldata p)
          \<and> (\<exists>xs. decodeCall V (calldata p) = Some (functionName p, xs)))"
    unfolding checked_calldata_ok c(2) by (metis prod.collapse)
  moreover have "{(''agent'', reveal_agent r), (''salt'', reveal_salt r),
       (''policy.maxPerPayment'', show_int (maxPerPayment (reveal_policy r))),
       (''policy.maxPerWindow'', show_int (maxPerWindow (reveal_policy r))),
       (''policy.validUntil'', show_int (validUntil (reveal_policy r))),
       (''policy.shareReceiver'', shareReceiver (reveal_policy r)),
       (''policy.allowedDestinations'', join '','' (allowedDestinations (reveal_policy r)))}
      \<subseteq> (\<lambda>row. (arg_name row, raw row)) ` set (args p)"
    using rows unfolding args by (auto simp: policyArgs_def arg_def)
  ultimately show ?thesis by blast
qed

text \<open>
  An exit is never refused on the gateway. Whenever the receiver and owner are addresses and the redeem
  call encodes and decodes, the vault redeem preview is built for every state of the gateway and of the
  pins, with that calldata; it warns exactly when the gateway is unverified and shows the verified badge
  only when the gateway is verified and the vault itself matched its pin. A deposit preview, in contrast,
  is refused whenever the gateway is unverified.
\<close>

theorem redeem_preview_open:
  assumes "getAddress V receiver = Some rc" and "getAddress V holder = Some ho"
    and "checked_calldata V (''redeem'', [JBig shares, JStr rc, JStr ho]) = Inr (data, sel)"
  shows "(\<exists>p. buildVaultPreview V (VaultRedeem shares receiver holder) ctx = PreviewOk p
       \<and> calldata p = data \<and> functionName p = ''redeem'' \<and> target p = ctx_vault ctx
       \<and> (warning p = None \<longleftrightarrow> gatewayCodeHashVerified ctx)
       \<and> (targetCodeHashKnown p \<longleftrightarrow> gatewayCodeHashVerified ctx \<and> lc (ctx_vault ctx) \<in> set (verifiedTargets ctx)))
    \<and> (\<not> gatewayCodeHashVerified ctx \<longrightarrow>
         buildVaultPreview V (VaultDeposit assets receiver) ctx
           = PreviewRefused Unknown_revert None (nonempty (gatewayRefusalDetail ctx)))"
  using assms by (simp add: buildVaultPreview_def vault_call_def targetCodeHashPinned_def Let_def)

definition sample_reveal :: RevealInputs where
  "sample_reveal = \<lparr>reveal_agent = sample_addr ''f6'', reveal_salt = ''0x01'', reveal_policy = sample_policy\<rparr>"

definition sample_preview_ctx :: "bool \<Rightarrow> PreviewContext" where
  "sample_preview_ctx v = \<lparr>ctx_gateway = sample_addr ''a1'', gatewayCodeHashVerified = v, envClass = EnvMainnet,
     verifiedTargets = [sample_addr ''d4'', sample_addr ''c3''], refusedTargets = [], gatewayRefusalDetail = None\<rparr>"

definition shown_of :: "Preview \<Rightarrow> PreviewSuccess option" where
  "shown_of p = (case p of PreviewOk s \<Rightarrow> Some s | PreviewRefused _ _ _ \<Rightarrow> None)"

lemma shown_of_Some: "shown_of p = Some s \<longleftrightarrow> p = PreviewOk s"
  by (cases p) (auto simp: shown_of_def)

theorem reveal_preview_faithful_witness:
  "\<exists>p. buildPreview sample_viem (RevealAuthorization sample_reveal) (sample_preview_ctx True) = PreviewOk p
     \<and> (''policy.allowedDestinations'', sample_addr ''d4'') \<in> (\<lambda>row. (arg_name row, raw row)) ` set (args p)"
proof -
  have "shown_of (buildPreview sample_viem (RevealAuthorization sample_reveal) (sample_preview_ctx True)) \<noteq> None"
    by code_simp
  then obtain p where p: "buildPreview sample_viem (RevealAuthorization sample_reveal) (sample_preview_ctx True) = PreviewOk p"
    by (auto simp: shown_of_Some)
  have "join '','' (allowedDestinations (reveal_policy sample_reveal)) = sample_addr ''d4''"
    by (simp add: sample_reveal_def sample_policy_def)
  with reveal_preview_faithful [OF p] p show ?thesis by auto
qed

definition sample_vault_ctx :: "bool \<Rightarrow> VaultPreviewContext" where
  "sample_vault_ctx v = \<lparr>ctx_gateway = sample_addr ''a1'', gatewayCodeHashVerified = v, envClass = EnvMainnet,
     verifiedTargets = [sample_addr ''d4''], refusedTargets = [], gatewayRefusalDetail = None,
     ctx_vault = sample_addr ''d4'', shareSymbol = None\<rparr>"

theorem redeem_preview_open_witness:
  "\<exists>p. buildVaultPreview sample_viem (VaultRedeem 7 (sample_addr ''e5'') (sample_addr ''e5'')) (sample_vault_ctx False) = PreviewOk p
       \<and> warning p \<noteq> None"
proof -
  have a: "getAddress sample_viem (sample_addr ''e5'') = Some (sample_addr ''e5'')" by code_simp
  have c: "checked_calldata sample_viem (''redeem'', [JBig 7, JStr (sample_addr ''e5''), JStr (sample_addr ''e5'')])
      = Inr (''0xredeem'', ''0xredeem'')" by code_simp
  have v: "\<not> gatewayCodeHashVerified (sample_vault_ctx False)" by (simp add: sample_vault_ctx_def)
  from redeem_preview_open [OF a a c, of "sample_vault_ctx False" 1] v show ?thesis by auto
qed

end
