(* ===== verification/Router.thy ===== *)
theory Router
  imports Preview
begin

text \<open>
  Deposits and exits through the Portfolio Router: \<open>routerPreview.ts\<close>, \<open>routerRedeem.ts\<close> and \<open>depositGas.ts\<close>.

  A leg's vault is optional, as the code treats it. Amounts are \<open>bigint\<close>s; \<open>nowMs\<close> is a whole number of milliseconds.
\<close>

section \<open>Slippage floors\<close>

text \<open>
  The contract of a floor derived from an estimate: the estimate less a tolerance in basis points, rounded
  down, and no floor for an empty estimate.
\<close>

locale slippage_floor =
  fixes floor_of :: "int \<Rightarrow> int \<Rightarrow> int"
  assumes floor_pos: "0 < est \<Longrightarrow> 0 \<le> tol \<Longrightarrow> tol \<le> 10000 \<Longrightarrow> floor_of est tol = est * (10000 - tol) div 10000"
    and floor_none: "est \<le> 0 \<Longrightarrow> floor_of est tol = 0"
begin

lemma floor_bounds:
  assumes "0 \<le> tol" and "tol \<le> 10000"
  shows "0 \<le> floor_of est tol \<and> floor_of est tol \<le> max 0 est
    \<and> (0 < est \<longrightarrow> 10000 * floor_of est tol \<le> est * (10000 - tol) \<and> est * (10000 - tol) < 10000 * (floor_of est tol + 1))"
proof (cases "0 < est")
  case True
  let ?n = "est * (10000 - tol)"
  have n: "0 \<le> ?n" "?n \<le> est * 10000" using True assms by (simp_all add: mult_left_mono)
  have "?n div 10000 \<le> est" using n by linarith
  moreover have "0 \<le> ?n div 10000" using n by simp
  moreover have "10000 * (k div 10000) \<le> k \<and> k < 10000 * (k div 10000 + 1)" for k :: int by presburger
  note this [of ?n]
  ultimately show ?thesis using True floor_pos [OF True assms] by simp
qed (simp add: floor_none)

lemma floor_positive:
  "2 \<le> est \<Longrightarrow> 0 \<le> tol \<Longrightarrow> tol \<le> 5000 \<Longrightarrow> 0 < floor_of est tol"
proof -
  assume a: "2 \<le> est" "0 \<le> tol" "tol \<le> 5000"
  then have "10000 \<le> est * (10000 - tol)" using mult_mono [of 2 est 5000 "10000 - tol"] by simp
  then have "0 < est * (10000 - tol) div 10000" by linarith
  then show ?thesis using a floor_pos [of est tol] by simp
qed

lemma floor_mono:
  assumes "0 \<le> tol" and "tol \<le> 10000" and "x \<le> y"
  shows "floor_of x tol \<le> floor_of y tol"
proof (cases "0 < x")
  case True
  have "x * (10000 - tol) \<le> y * (10000 - tol)" using assms by (simp add: mult_right_mono)
  then show ?thesis using True assms floor_pos [of x tol] floor_pos [of y tol] by (simp add: zdiv_mono1)
next
  case False
  then show ?thesis using floor_bounds [OF assms(1,2), of y] by (simp add: floor_none)
qed

end

section \<open>Router deposit preview\<close>

record LegPreview =
  leg_vault :: "string option"
  weightBps :: int
  legAmount :: int
  estShares :: int
  unavailable :: bool

definition ROUTER_SLIPPAGE_TOLERANCE_BPS :: int where
  "ROUTER_SLIPPAGE_TOLERANCE_BPS = 50"

definition BPS_DENOMINATOR :: int where
  "BPS_DENOMINATOR = 10000"

definition share_floor :: "int \<Rightarrow> int \<Rightarrow> int" where
  "share_floor est toleranceBps =
     (if est \<le> 0 then 0 else bigint_div (est * (BPS_DENOMINATOR - toleranceBps)) BPS_DENOMINATOR)"

definition deriveMinSharesPerLeg :: "LegPreview list \<Rightarrow> int \<Rightarrow> int list" where
  "deriveMinSharesPerLeg legs toleranceBps =
     map (\<lambda>leg. if unavailable leg then 0 else share_floor (estShares leg) toleranceBps) legs"

definition computeVaultListChanged :: "LegPreview list \<Rightarrow> string list option \<Rightarrow> bool" where
  "computeVaultListChanged legs currentActiveVaults =
     (case currentActiveVaults of None \<Rightarrow> False
      | Some current \<Rightarrow>
          if legs = [] then False
          else if length current \<noteq> length legs then True
          else list_ex (\<lambda>(leg, v). case leg_vault leg of None \<Rightarrow> True | Some w \<Rightarrow> lc w \<noteq> lc v) (zip legs current))"

fun refused_loop :: "string list \<Rightarrow> string list \<Rightarrow> string option list \<Rightarrow> string list" where
  "refused_loop refused seen [] = []"
| "refused_loop refused seen (v # vs) =
     (case v of None \<Rightarrow> refused_loop refused seen vs
      | Some a \<Rightarrow>
          if lc a \<in> set seen \<or> lc a \<notin> set refused then refused_loop refused seen vs
          else a # refused_loop refused (lc a # seen) vs)"

definition refusedRouterLegs :: "string option list \<Rightarrow> 'a PreviewContext_scheme \<Rightarrow> string list" where
  "refusedRouterLegs vaults ctx = refused_loop (refusedTargets ctx) [] vaults"

definition refusedRouterLegsText :: "string list \<Rightarrow> string" where
  "refusedRouterLegsText legs =
     ''Leg vault '' @ join '', '' legs @ '' does not match this build's pins: its code or the implementation behind it is not a reviewed one (it may have been upgraded). The router would deposit USDC into it, so the dapp will not send this deposit.''"

record RouterPreviewContext = PreviewContext +
  ctx_router :: string
  shareSymbolOf :: "(string \<Rightarrow> string) option"

definition classifyRouterRisk :: "LegPreview list \<Rightarrow> RouterPreviewContext \<Rightarrow> RiskClass" where
  "classifyRouterRisk legs ctx =
     (if \<not> gatewayCodeHashVerified ctx then Unsafe
      else if list_ex (\<lambda>l. unavailable l \<and> weightBps l > 0) legs then High else Low)"

definition shorten_opt :: "string option \<Rightarrow> string" where
  "shorten_opt a = (case a of None \<Rightarrow> PLACEHOLDER | Some s \<Rightarrow> if s = [] then PLACEHOLDER else shorten s)"

definition ARROW :: string where
  "ARROW = [CHR 0xE2, CHR 0x86, CHR 0x92]"

definition leg_summary :: "RouterPreviewContext \<Rightarrow> LegPreview \<Rightarrow> string" where
  "leg_summary ctx l =
     (let pct = formatPercent (Some (weightBps l));
          symbol = (case (leg_vault l, shareSymbolOf ctx) of
                      (Some v, Some f) \<Rightarrow> if v = [] then None else Some (f v) | _ \<Rightarrow> None);
          unit = shareSymbolOrNeutral symbol
      in if unavailable l then shorten_opt (leg_vault l) @ '' '' @ pct @ '' [UNAVAILABLE, skipped: 0 USDC]''
         else shorten_opt (leg_vault l) @ '' '' @ pct @ '' '' @ ARROW @ '' '' @ formatUsdc (Some (legAmount l))
              @ '' '' @ ARROW @ '' ~'' @ formatShares (Some (estShares l)) unit SHARE_DECIMALS)"

record RouterPreviewSuccess = PreviewSuccess +
  preview_legs :: "LegPreview list"
  hasUnavailable :: bool

datatype RouterPreview =
    RouterOk RouterPreviewSuccess
  | RouterRefused ProductReasonCode "string option" "string option"

definition router_effect :: "int \<Rightarrow> LegPreview list \<Rightarrow> RouterPreviewContext \<Rightarrow> string" where
  "router_effect amount legs ctx =
     (let summary = join ''; '' (map (leg_summary ctx) legs);
          skipped = length (filter unavailable legs)
      in if list_ex unavailable legs
         then ''Unavailable legs are skipped. The router splits '' @ formatUsdc (Some amount) @ '' across the ''
              @ show_nat (length legs - skipped) @ '' available vault(s), renormalized by their weights, and skips ''
              @ show_nat skipped @ '': '' @ summary @ ''.''
         else ''Portfolio Router splits '' @ formatUsdc (Some amount) @ '' across '' @ show_nat (length legs)
              @ '' vault(s): '' @ summary @ ''.'')"

definition buildRouterPreview :: "viem \<Rightarrow> int \<Rightarrow> LegPreview list \<Rightarrow> RouterPreviewContext \<Rightarrow> RouterPreview" where
  "buildRouterPreview V amount legs ctx =
     (if \<not> gatewayCodeHashVerified ctx
      then RouterRefused Unknown_revert None (nonempty (gatewayRefusalDetail ctx))
      else let minSharesPerLeg = deriveMinSharesPerLeg legs ROUTER_SLIPPAGE_TOLERANCE_BPS
           in case checked_calldata V (''deposit'', [JBig amount, JArr (map JBig minSharesPerLeg)]) of
                Inl data \<Rightarrow> RouterRefused Unknown_revert data None
              | Inr (data, sel) \<Rightarrow>
                  let refusedLegs = refusedRouterLegs (map leg_vault legs) ctx
                  in RouterOk \<lparr>target = ctx_router ctx,
                       targetCodeHashKnown =
                         (targetCodeHashPinned ctx (ctx_router ctx)
                          \<and> list_all (\<lambda>l. case leg_vault l of Some v \<Rightarrow> targetCodeHashPinned ctx v | None \<Rightarrow> False) legs),
                       functionName = ''deposit'', selector = sel,
                       args =
                         [arg ''amount'' (show_int amount)
                            (formatUsdc (Some amount) @ '' total split across '' @ show_nat (length legs) @ '' vault(s)''),
                          arg ''minSharesPerLeg'' (''['' @ join '', '' (map show_int minSharesPerLeg) @ '']'')
                            (''per-leg slippage floor at ''
                             @ formatPercent (Some (BPS_DENOMINATOR - ROUTER_SLIPPAGE_TOLERANCE_BPS))
                             @ '' of estimated shares (0 for skipped unavailable legs)'')],
                       effect = router_effect amount legs ctx, risk = classifyRouterRisk legs ctx, calldata = data,
                       warning = (if refusedLegs \<noteq> [] then Some (refusedRouterLegsText refusedLegs) else None),
                       preview_legs = legs, hasUnavailable = list_ex unavailable legs\<rparr>)"

definition normaliseAddress :: "viem \<Rightarrow> js \<Rightarrow> string option" where
  "normaliseAddress V v = (case v of JStr s \<Rightarrow> getAddress V s | _ \<Rightarrow> None)"

section \<open>Router redeem\<close>

definition ROUTER_REDEEM_DEADLINE_SECS :: int where
  "ROUTER_REDEEM_DEADLINE_SECS = 1800"

definition DEADLINE_STEP_SECS :: int where
  "DEADLINE_STEP_SECS = 300"

definition routerRedeemDeadline :: "int \<Rightarrow> int" where
  "routerRedeemDeadline nowMs =
     (let nowSecs = nowMs div 1000
      in nowSecs - bigint_mod nowSecs DEADLINE_STEP_SECS + ROUTER_REDEEM_DEADLINE_SECS)"

definition deriveMinAssets :: "int \<Rightarrow> int \<Rightarrow> int" where
  "deriveMinAssets previewAssets toleranceBps =
     (if previewAssets \<le> 0 then 0
      else bigint_div (previewAssets * (BPS_DENOMINATOR - toleranceBps)) BPS_DENOMINATOR)"

record RouterRedeemInputs =
  ri_vault :: string
  ri_shares :: int
  ri_minAssets :: int
  ri_holder :: string
  ri_deadline :: int

definition routerRedeemCall :: "RouterRedeemInputs \<Rightarrow> call" where
  "routerRedeemCall i =
     (''redeemFor'', [JStr (ri_holder i), JStr (ri_holder i), JArr [JStr (ri_vault i)], JArr [JBig (ri_shares i)],
        JArr [JBig (ri_minAssets i)], JBig (ri_deadline i)])"

record RouterRedeemPreviewContext = PreviewContext +
  redeem_router :: string
  redeem_shareSymbol :: "string option"

definition redeem_args :: "RouterRedeemInputs \<Rightarrow> string \<Rightarrow> string \<Rightarrow> PreviewArg list" where
  "redeem_args i holder unit =
     [arg ''shareHolder'' holder (''share owner '' @ shorten holder),
      arg ''assetRecipient'' holder (''USDC -> '' @ shorten holder),
      arg ''vaults'' (''['' @ ri_vault i @ '']'') (''one leg: vault '' @ shorten (ri_vault i)),
      arg ''sharesPerLeg'' (''['' @ show_int (ri_shares i) @ '']'')
        (formatShares (Some (ri_shares i)) unit SHARE_DECIMALS @ '' burned''),
      arg ''minAssetsPerLeg'' (''['' @ show_int (ri_minAssets i) @ '']'')
        (if ri_minAssets i > 0
         then ''at least '' @ formatUsdc (Some (ri_minAssets i)) @ '': previewRedeem less ''
              @ formatPercent (Some ROUTER_SLIPPAGE_TOLERANCE_BPS)
         else ''no floor: the redeem pays whatever the vault pays''),
      arg ''deadline'' (show_int (ri_deadline i)) ''the router reverts DeadlineExpired after this unix time'']"

definition redeem_effect :: "RouterRedeemInputs \<Rightarrow> string \<Rightarrow> string \<Rightarrow> string" where
  "redeem_effect i holder unit =
     ''The router redeems '' @ formatShares (Some (ri_shares i)) unit SHARE_DECIMALS @ '' of vault '' @ shorten (ri_vault i)
     @ '' owned by '' @ shorten holder @ '' and sends the USDC (net of exitFeeBps) to '' @ shorten holder
     @ (if ri_minAssets i > 0
        then ''. It reverts unless the vault pays at least '' @ formatUsdc (Some (ri_minAssets i)) @ ''.''
        else '', with no minimum.'')"

text \<open>\<^const>\<open>None\<close>: the checksumming of the holder, outside every \<open>try\<close>, throws.\<close>

definition buildRouterRedeemPreview :: "viem \<Rightarrow> RouterRedeemInputs \<Rightarrow> RouterRedeemPreviewContext \<Rightarrow> Preview option" where
  "buildRouterRedeemPreview V i ctx =
     (case checked_calldata V (routerRedeemCall i) of
        Inl data \<Rightarrow> Some (PreviewRefused Unknown_revert data None)
      | Inr (data, sel) \<Rightarrow>
          map_option (\<lambda>holder.
            let unit = shareSymbolOrNeutral (redeem_shareSymbol ctx)
            in PreviewOk \<lparr>target = redeem_router ctx,
                 targetCodeHashKnown = (gatewayCodeHashVerified ctx \<and> targetCodeHashPinned ctx (redeem_router ctx)),
                 functionName = fst (routerRedeemCall i), selector = sel, args = redeem_args i holder unit,
                 effect = redeem_effect i holder unit, risk = Low, calldata = data,
                 warning = (if gatewayCodeHashVerified ctx then None else Some (unverifiedGatewayExitWarning ctx))\<rparr>)
          (getAddress V (ri_holder i)))"

datatype DirectRedeemReason = No_router | Unregistered | Router_unpinned | Router_unverified

datatype RedeemRoute = ViaRouter string | Direct DirectRedeemReason | RoutePending

record RedeemRouteInputs =
  rt_router :: "string option"
  rt_vault :: "string option"
  rt_registered :: "string list"
  rt_registryLoading :: bool
  rt_routerUnpinned :: bool
  rt_routerUnverified :: "bool option"

definition chooseRedeemRoute :: "RedeemRouteInputs \<Rightarrow> RedeemRoute" where
  "chooseRedeemRoute i =
     (case rt_router i of None \<Rightarrow> Direct No_router
      | Some router \<Rightarrow>
          if lc router = zero_address then Direct No_router
          else if rt_routerUnpinned i then Direct Router_unpinned
          else if rt_routerUnverified i = Some True then Direct Router_unverified
          else case rt_vault i of None \<Rightarrow> ViaRouter router
          | Some v \<Rightarrow>
              if list_ex (\<lambda>r. lc r = lc v) (rt_registered i) then ViaRouter router
              else if rt_registryLoading i then RoutePending
              else Direct Unregistered)"

definition directRedeemReasonText :: "DirectRedeemReason \<Rightarrow> string" where
  "directRedeemReasonText r = (case r of
      No_router \<Rightarrow> ''no Portfolio Router is configured for this deployment''
    | Unregistered \<Rightarrow> ''the on-chain VaultRegistry does not list this vault, so the router cannot redeem it''
    | Router_unpinned \<Rightarrow> ''this build carries no code-hash pin for the router, so the dapp will not approve shares to it''
    | Router_unverified \<Rightarrow> ''the router's code or the implementation behind it does not match this build's pins (it may have been upgraded), so the dapp will not approve shares to it'')"

definition needsShareApproval :: "js \<Rightarrow> int \<Rightarrow> bool" where
  "needsShareApproval allowance shares = (case allowance of JBig a \<Rightarrow> a < shares | _ \<Rightarrow> True)"

definition leftoverRouterAllowance :: "js \<Rightarrow> int option \<Rightarrow> bool" where
  "leftoverRouterAllowance allowance shares =
     (case allowance of
        JBig a \<Rightarrow> if a = 0 then False else (case shares of None \<Rightarrow> True | Some s \<Rightarrow> a > s)
      | _ \<Rightarrow> False)"

definition leftoverRouterAllowanceText :: "RedeemRoute \<Rightarrow> string \<Rightarrow> string" where
  "leftoverRouterAllowanceText route allowance = (case route of
      ViaRouter _ \<Rightarrow> ''The router holds an allowance of '' @ allowance @ '' on your shares that the redeem entered here will not spend. Revoke it unless you redeem that much now.''
    | Direct Router_unverified \<Rightarrow> ''The Portfolio Router failed verification: its code or the implementation behind it does not match this build's pins, so it may have been upgraded. It still holds an allowance of '' @ allowance @ '' on your shares, which it can spend. This redeem calls the vault directly and will not spend it. Revoke it.''
    | _ \<Rightarrow> ''The Portfolio Router holds an allowance of '' @ allowance @ '' on your shares. This redeem calls the vault directly and will not spend it. Revoke it.'')"

section \<open>Deposit gas\<close>

definition VAULT_DEPOSIT_GAS_FLOOR :: int where "VAULT_DEPOSIT_GAS_FLOOR = 1600000"
definition VAULT_DEPOSIT_GAS_LIMIT :: int where "VAULT_DEPOSIT_GAS_LIMIT = 2500000"
definition ROUTER_DEPOSIT_GAS_PER_LEG :: int where "ROUTER_DEPOSIT_GAS_PER_LEG = 2400000"
definition ROUTER_DEPOSIT_GAS_HEADROOM :: int where "ROUTER_DEPOSIT_GAS_HEADROOM = 1200000"

definition routerDepositGasFloor :: "int \<Rightarrow> int" where
  "routerDepositGasFloor legs = max 0 legs * ROUTER_DEPOSIT_GAS_PER_LEG"

definition routerDepositGasLimit :: "int \<Rightarrow> int" where
  "routerDepositGasLimit legs = routerDepositGasFloor legs + ROUTER_DEPOSIT_GAS_HEADROOM"

definition withGasLimit :: "js \<Rightarrow> int \<Rightarrow> js" where
  "withGasLimit request limit =
     jput request ''gas'' (JBig (case jget request ''gas'' of JBig e \<Rightarrow> if e > limit then e else limit | _ \<Rightarrow> limit))"

section \<open>Floors bound what a deposit or an exit can lose\<close>

interpretation shares: slippage_floor share_floor
  by unfold_locales (simp_all add: share_floor_def BPS_DENOMINATOR_def bigint_div_nonneg)

interpretation assets: slippage_floor deriveMinAssets
  by unfold_locales (simp_all add: deriveMinAssets_def BPS_DENOMINATOR_def bigint_div_nonneg)

text \<open>
  Every available leg of a router deposit is protected: the floors go leg by leg in the order of the
  legs; the floor of an available leg never exceeds its estimate and is less than one share unit below
  99.5 percent of it, so it is positive as soon as the estimate is at least two units; a skipped leg has
  floor zero.
\<close>

theorem router_floors:
  assumes "i < length legs"
  shows "let fl = deriveMinSharesPerLeg legs ROUTER_SLIPPAGE_TOLERANCE_BPS ! i; est = estShares (legs ! i)
    in length (deriveMinSharesPerLeg legs ROUTER_SLIPPAGE_TOLERANCE_BPS) = length legs
       \<and> (if unavailable (legs ! i) \<or> est \<le> 0 then fl = 0
          else 0 \<le> fl \<and> fl \<le> est \<and> 10000 * fl \<le> 9950 * est \<and> 9950 * est < 10000 * (fl + 1) \<and> (2 \<le> est \<longrightarrow> 0 < fl))"
proof -
  have tol: "0 \<le> ROUTER_SLIPPAGE_TOLERANCE_BPS" "ROUTER_SLIPPAGE_TOLERANCE_BPS \<le> 10000"
    "ROUTER_SLIPPAGE_TOLERANCE_BPS \<le> 5000" "10000 - ROUTER_SLIPPAGE_TOLERANCE_BPS = 9950"
    by (simp_all add: ROUTER_SLIPPAGE_TOLERANCE_BPS_def)
  let ?est = "estShares (legs ! i)"
  have "deriveMinSharesPerLeg legs ROUTER_SLIPPAGE_TOLERANCE_BPS ! i
      = (if unavailable (legs ! i) then 0 else share_floor ?est ROUTER_SLIPPAGE_TOLERANCE_BPS)"
    using assms by (simp add: deriveMinSharesPerLeg_def)
  with shares.floor_bounds [OF tol(1,2), of ?est] shares.floor_positive [of ?est, OF _ tol(1,3)] tol(4)
    shares.floor_none [of ?est]
  show ?thesis by (auto simp: Let_def deriveMinSharesPerLeg_def max_def mult.commute)
qed

text \<open>
  The minimum a one-leg exit through the router accepts lies within half a percent of the previewed
  amount: never above it, and less than one unit below 99.5 percent of it; and a larger preview never gives
  a smaller minimum.
\<close>

theorem redeem_floor:
  assumes "0 < previewAssets" and "previewAssets \<le> better"
  shows "let m = deriveMinAssets previewAssets ROUTER_SLIPPAGE_TOLERANCE_BPS
    in 0 \<le> m \<and> m \<le> previewAssets \<and> 10000 * m \<le> 9950 * previewAssets \<and> 9950 * previewAssets < 10000 * (m + 1)
       \<and> m \<le> deriveMinAssets better ROUTER_SLIPPAGE_TOLERANCE_BPS"
proof -
  have tol: "0 \<le> ROUTER_SLIPPAGE_TOLERANCE_BPS" "ROUTER_SLIPPAGE_TOLERANCE_BPS \<le> 10000"
    "10000 - ROUTER_SLIPPAGE_TOLERANCE_BPS = 9950"
    by (simp_all add: ROUTER_SLIPPAGE_TOLERANCE_BPS_def)
  from assets.floor_bounds [OF tol(1,2), of previewAssets] assets.floor_mono [OF tol(1,2) assms(2)] assms(1) tol(3)
  show ?thesis by (simp add: Let_def mult.commute)
qed

theorem router_floors_witness:
  "deriveMinSharesPerLeg [\<lparr>leg_vault = None, weightBps = 1, legAmount = 1, estShares = 1000, unavailable = False\<rparr>]
     ROUTER_SLIPPAGE_TOLERANCE_BPS = [995] \<and> (995::int) \<le> 1000"
proof -
  let ?legs = "[\<lparr>leg_vault = None, weightBps = 1, legAmount = 1, estShares = 1000, unavailable = False\<rparr>]"
  have "deriveMinSharesPerLeg ?legs ROUTER_SLIPPAGE_TOLERANCE_BPS = [995]" by code_simp
  with router_floors [of 0 ?legs] show ?thesis by (simp add: Let_def)
qed

theorem redeem_floor_witness:
  "deriveMinAssets 200 ROUTER_SLIPPAGE_TOLERANCE_BPS = 199 \<and> (199::int) \<le> deriveMinAssets 300 ROUTER_SLIPPAGE_TOLERANCE_BPS"
proof -
  have "deriveMinAssets 200 ROUTER_SLIPPAGE_TOLERANCE_BPS = 199" by code_simp
  with redeem_floor [of 200 300] show ?thesis by (simp add: Let_def)
qed

section \<open>What a router deposit preview shows\<close>

definition leg_refused :: "string list \<Rightarrow> string option \<Rightarrow> bool" where
  "leg_refused refused v = (case v of None \<Rightarrow> False | Some a \<Rightarrow> lc a \<in> set refused)"

interpretation refused: first_wins "\<lambda>v. lc (the v)" "leg_refused refused" the "refused_loop refused"
  for refused
  by unfold_locales (auto simp: leg_refused_def split: option.splits)

lemma refusedRouterLegs_exact:
  "lc ` set (refusedRouterLegs vaults ctx) = {lc v |v. Some v \<in> set vaults \<and> lc v \<in> set (refusedTargets ctx)}
   \<and> distinct (map lc (refusedRouterLegs vaults ctx))"
proof -
  let ?run = "refusedRouterLegs vaults ctx" and ?ref = "refusedTargets ctx"
  have "lc r \<in> {lc v |v. Some v \<in> set vaults \<and> lc v \<in> set ?ref}" if "r \<in> set ?run" for r
  proof -
    obtain x where "x \<in> set vaults" "leg_refused ?ref x" "r = the x"
      using refused.run_members [of r ?ref "[]" vaults] \<open>r \<in> set ?run\<close> by (auto simp: refusedRouterLegs_def)
    then show ?thesis by (auto simp: leg_refused_def split: option.splits)
  qed
  moreover have "lc v \<in> lc ` set ?run" if "Some v \<in> set vaults" "lc v \<in> set ?ref" for v
    using refused.run_covers [of ?ref lc "Some v" vaults "[]"] that by (simp add: leg_refused_def refusedRouterLegs_def)
  moreover have "distinct (map lc ?run)"
    using refused.run_distinct [of ?ref lc "[]" vaults] by (simp add: refusedRouterLegs_def)
  ultimately show ?thesis by blast
qed

text \<open>
  A router deposit preview is built only for a verified gateway; its calldata is the deposit of the amount
  with the derived floors; the verified badge means the router and every one of its leg vaults matched
  its pin; and it warns exactly when some leg vault is one the chain showed not to match.
\<close>

theorem router_preview_badge:
  assumes "buildRouterPreview V amount legs ctx = RouterOk p"
  shows "gatewayCodeHashVerified ctx
    \<and> encodeCall V ''deposit'' [JBig amount, JArr (map JBig (deriveMinSharesPerLeg legs ROUTER_SLIPPAGE_TOLERANCE_BPS))]
        = Some (calldata p)
    \<and> (targetCodeHashKnown p \<longleftrightarrow> lc (ctx_router ctx) \<in> set (verifiedTargets ctx)
         \<and> (\<forall>l \<in> set legs. \<exists>v. leg_vault l = Some v \<and> lc v \<in> set (verifiedTargets ctx)))
    \<and> (warning p \<noteq> None \<longleftrightarrow> (\<exists>l \<in> set legs. \<exists>v. leg_vault l = Some v \<and> lc v \<in> set (refusedTargets ctx)))"
proof -
  let ?floors = "deriveMinSharesPerLeg legs ROUTER_SLIPPAGE_TOLERANCE_BPS"
  obtain data sel where g: "gatewayCodeHashVerified ctx"
      and cd: "checked_calldata V (''deposit'', [JBig amount, JArr (map JBig ?floors)]) = Inr (data, sel)"
      and p: "calldata p = data"
        "targetCodeHashKnown p = (targetCodeHashPinned ctx (ctx_router ctx)
          \<and> list_all (\<lambda>l. case leg_vault l of Some v \<Rightarrow> targetCodeHashPinned ctx v | None \<Rightarrow> False) legs)"
        "warning p \<noteq> None \<longleftrightarrow> refusedRouterLegs (map leg_vault legs) ctx \<noteq> []"
    using assms by (auto simp: buildRouterPreview_def Let_def split: if_splits sum.splits prod.splits)
  have "refusedRouterLegs (map leg_vault legs) ctx \<noteq> [] \<longleftrightarrow>
      {lc v |v. Some v \<in> set (map leg_vault legs) \<and> lc v \<in> set (refusedTargets ctx)} \<noteq> {}"
    using refusedRouterLegs_exact [of "map leg_vault legs" ctx] by (metis image_is_empty set_empty)
  also have "\<dots> \<longleftrightarrow> (\<exists>l \<in> set legs. \<exists>v. leg_vault l = Some v \<and> lc v \<in> set (refusedTargets ctx))"
    by (auto simp: image_iff) metis+
  finally show ?thesis
    using g cd p unfolding checked_calldata_ok
    by (auto simp: list_all_iff targetCodeHashPinned_def split: option.splits)
qed

section \<open>Routes, deadlines and allowances\<close>

text \<open>
  An exit always has a route. Once the registry has loaded the choice is never pending: it is the
  configured router only when the router is set, pinned and not refused and the vault (if one is chosen) is
  registered, and in every other case the vault itself.
\<close>

theorem redeem_route_total:
  assumes "\<not> rt_registryLoading i"
  shows "chooseRedeemRoute i \<noteq> RoutePending
    \<and> (\<forall>r. chooseRedeemRoute i = ViaRouter r \<longleftrightarrow>
         rt_router i = Some r \<and> lc r \<noteq> zero_address \<and> \<not> rt_routerUnpinned i \<and> rt_routerUnverified i \<noteq> Some True
         \<and> (\<forall>v. rt_vault i = Some v \<longrightarrow> lc v \<in> lc ` set (rt_registered i)))"
  using assms
  by (cases "rt_router i"; cases "rt_vault i") (auto simp: chooseRedeemRoute_def list_ex_iff image_iff intro: sym)

text \<open>
  The deadline of a router redeem is a multiple of the five-minute step, lies more than 25 and at most
  30 minutes ahead, and does not move while the clock stays within one step.
\<close>

theorem redeem_deadline:
  assumes "0 \<le> nowMs" and "nowMs \<le> laterMs" and "laterMs div 1000 div 300 = nowMs div 1000 div 300"
  shows "let now = nowMs div 1000; d = routerRedeemDeadline nowMs
    in now + 1500 < d \<and> d \<le> now + 1800 \<and> d mod 300 = 0 \<and> routerRedeemDeadline laterMs = d"
proof -
  have eq: "routerRedeemDeadline t = 300 * (t div 1000 div 300) + 1800" if "0 \<le> t" for t
    using that minus_mod_eq_mult_div [of "t div 1000" 300]
    by (simp add: routerRedeemDeadline_def Let_def bigint_mod_nonneg DEADLINE_STEP_SECS_def ROUTER_REDEEM_DEADLINE_SECS_def)
  have "n < 300 * (n div 300) + 300 \<and> 300 * (n div 300) \<le> n" for n :: int by presburger
  note this [of "nowMs div 1000"]
  moreover have "(300 * k + 1800) mod 300 = 0" for k :: int by presburger
  ultimately show ?thesis using assms eq [of nowMs] eq [of laterMs] by (simp add: Let_def)
qed

text \<open>
  No standing approval goes unnoticed: for a known, non-negative allowance and a positive redeem, the tab
  asks for an approval, offers a revoke, or the allowance is exactly what the redeem spends; and an
  allowance left when no amount is entered is always offered for revocation.
\<close>

theorem share_allowance_exact:
  assumes "0 < shares" and "0 \<le> a"
  shows "(\<not> needsShareApproval (JBig a) shares \<and> \<not> leftoverRouterAllowance (JBig a) (Some shares) \<longleftrightarrow> a = shares)
    \<and> \<not> (needsShareApproval (JBig a) shares \<and> leftoverRouterAllowance (JBig a) (Some shares))
    \<and> (leftoverRouterAllowance (JBig a) None \<longleftrightarrow> a \<noteq> 0)"
  using assms by (auto simp: needsShareApproval_def leftoverRouterAllowance_def)

lemma gas_limit_clears_floor: "routerDepositGasFloor legs < routerDepositGasLimit legs \<and> VAULT_DEPOSIT_GAS_FLOOR < VAULT_DEPOSIT_GAS_LIMIT"
  by (simp add: routerDepositGasLimit_def ROUTER_DEPOSIT_GAS_HEADROOM_def VAULT_DEPOSIT_GAS_FLOOR_def VAULT_DEPOSIT_GAS_LIMIT_def)

definition sample_router_ctx :: RouterPreviewContext where
  "sample_router_ctx = \<lparr>ctx_gateway = sample_addr ''a1'', gatewayCodeHashVerified = True, envClass = EnvMainnet,
     verifiedTargets = [sample_addr ''c3''], refusedTargets = [sample_addr ''d4''], gatewayRefusalDetail = None,
     ctx_router = sample_addr ''c3'', shareSymbolOf = None\<rparr>"

definition sample_legs :: "LegPreview list" where
  "sample_legs = [\<lparr>leg_vault = Some (sample_addr ''D4''), weightBps = 10000, legAmount = 5, estShares = 7, unavailable = False\<rparr>]"

definition router_shown :: "RouterPreview \<Rightarrow> RouterPreviewSuccess option" where
  "router_shown p = (case p of RouterOk s \<Rightarrow> Some s | RouterRefused _ _ _ \<Rightarrow> None)"

theorem router_preview_badge_witness:
  "\<exists>p. buildRouterPreview sample_viem 5 sample_legs sample_router_ctx = RouterOk p \<and> warning p \<noteq> None
     \<and> \<not> targetCodeHashKnown p"
proof -
  have "router_shown (buildRouterPreview sample_viem 5 sample_legs sample_router_ctx) \<noteq> None" by code_simp
  then obtain p where p: "buildRouterPreview sample_viem 5 sample_legs sample_router_ctx = RouterOk p"
    by (cases "buildRouterPreview sample_viem 5 sample_legs sample_router_ctx") (auto simp: router_shown_def)
  have l: "lc (sample_addr ''D4'') \<in> set (refusedTargets sample_router_ctx)"
    "lc (sample_addr ''D4'') \<notin> set (verifiedTargets sample_router_ctx)" by code_simp+
  from router_preview_badge [OF p] p l show ?thesis by (auto simp: sample_legs_def)
qed

theorem redeem_route_total_witness:
  "chooseRedeemRoute \<lparr>rt_router = Some (sample_addr ''c3''), rt_vault = Some (sample_addr ''d4''), rt_registered = [],
     rt_registryLoading = False, rt_routerUnpinned = False, rt_routerUnverified = None\<rparr> = Direct Unregistered
   \<and> chooseRedeemRoute \<lparr>rt_router = Some (sample_addr ''c3''), rt_vault = Some (sample_addr ''d4''), rt_registered = [],
     rt_registryLoading = False, rt_routerUnpinned = False, rt_routerUnverified = None\<rparr> \<noteq> RoutePending"
proof -
  let ?i = "\<lparr>rt_router = Some (sample_addr ''c3''), rt_vault = Some (sample_addr ''d4''), rt_registered = [],
     rt_registryLoading = False, rt_routerUnpinned = False, rt_routerUnverified = None\<rparr>"
  have "chooseRedeemRoute ?i = Direct Unregistered" by code_simp
  moreover have "\<not> rt_registryLoading ?i" by simp
  ultimately show ?thesis using redeem_route_total [of ?i] by simp
qed

theorem redeem_deadline_witness:
  "routerRedeemDeadline 1700000123456 = 1700001900 \<and> 1700000123 + 1500 < routerRedeemDeadline 1700000123456"
proof -
  have "routerRedeemDeadline 1700000123456 = 1700001900" by code_simp
  with redeem_deadline [of 1700000123456 1700000123456] show ?thesis by (simp add: Let_def)
qed

theorem share_allowance_exact_witness:
  "\<not> needsShareApproval (JBig 5) 5 \<and> \<not> leftoverRouterAllowance (JBig 5) (Some 5)"
  using share_allowance_exact [of 5 5] by simp

end
