(* ===== verification/DepositState.thy ===== *)
theory DepositState
  imports Amounts
begin

text \<open>
  What a vault card may say and which vault a redeem may target: \<open>vaultDepositState.ts\<close>, \<open>redeemTarget.ts\<close> and
  \<open>indexFreshness.ts\<close>.
\<close>

section \<open>Deposit state\<close>

definition REGISTRY_DEPOSITS_PAUSED :: int where "REGISTRY_DEPOSITS_PAUSED = 1"
definition REGISTRY_RETIRED :: int where "REGISTRY_RETIRED = 2"

datatype paused_source = From_registry | From_chain | From_explorer

datatype DepositState =
    Open_chain
  | Open_index int
  | Paused_by paused_source
  | Retired
  | Stale_price "string list"
  | Unknown_state

definition EXPLORER_STALE_AFTER_BLOCKS :: int where "EXPLORER_STALE_AFTER_BLOCKS = 30"

record DepositStateInput =
  registryStatus :: int
  explorerPaused :: "bool option"
  explorerBlock :: "int option"
  explorerHead :: "int option"
  chainPaused :: "bool option"
  staleRecorders :: "string list"

definition explorerFresh :: "int option \<Rightarrow> int option \<Rightarrow> bool" where
  "explorerFresh block head =
     (case block of None \<Rightarrow> False
      | Some b \<Rightarrow>
          if b \<le> 0 then False
          else (case head of None \<Rightarrow> False
                | Some h \<Rightarrow> if h \<le> 0 then False else h - b \<le> EXPLORER_STALE_AFTER_BLOCKS))"

definition resolveBaseDepositState :: "DepositStateInput \<Rightarrow> DepositState" where
  "resolveBaseDepositState i =
     (if registryStatus i = REGISTRY_RETIRED then Retired
      else if registryStatus i = REGISTRY_DEPOSITS_PAUSED then Paused_by From_registry
      else if chainPaused i = Some True then Paused_by From_chain
      else if chainPaused i = Some False then Open_chain
      else if explorerPaused i = Some True then Paused_by From_explorer
      else if explorerPaused i = Some False \<and> explorerFresh (explorerBlock i) (explorerHead i)
      then Open_index (the (explorerBlock i))
      else Unknown_state)"

definition is_open :: "DepositState \<Rightarrow> bool" where
  "is_open s = (case s of Open_chain \<Rightarrow> True | Open_index _ \<Rightarrow> True | _ \<Rightarrow> False)"

definition resolveDepositState :: "DepositStateInput \<Rightarrow> DepositState" where
  "resolveDepositState i =
     (let base = resolveBaseDepositState i
      in if is_open base \<and> staleRecorders i \<noteq> [] then Stale_price (staleRecorders i) else base)"

definition depositsOpen :: "DepositState \<Rightarrow> bool" where
  "depositsOpen s = is_open s"

definition depositsBlocked :: "DepositState \<Rightarrow> bool" where
  "depositsBlocked s = (\<not> is_open s)"

definition depositStateLabel :: "DepositState \<Rightarrow> string" where
  "depositStateLabel s = (case s of
      Open_index b \<Rightarrow> ''Active (per index, block '' @ show_int b @ '')''
    | Open_chain \<Rightarrow> ''Active''
    | Paused_by _ \<Rightarrow> ''Deposits paused / closed''
    | Retired \<Rightarrow> ''Retired''
    | Stale_price _ \<Rightarrow> ''Price stale, deposits unavailable''
    | Unknown_state \<Rightarrow> ''Deposit state unknown'')"

definition STALE_PRICE_REASON :: string where
  "STALE_PRICE_REASON = ''Price stale, deposits to this vault are unavailable until the price is refreshed. Anyone can refresh it: record() on the price recorder is permissionless. Withdraw and redeem stay open.''"

definition depositStateReason :: "DepositState \<Rightarrow> string option" where
  "depositStateReason s = (case s of
      Open_chain \<Rightarrow> None
    | Open_index _ \<Rightarrow> None
    | Paused_by _ \<Rightarrow> Some ''New deposits are closed (the vault has deposits paused). Withdraw and redeem stay open.''
    | Retired \<Rightarrow> Some ''This vault is retired and takes no deposits. Withdraw and redeem stay open.''
    | Stale_price _ \<Rightarrow> Some STALE_PRICE_REASON
    | Unknown_state \<Rightarrow> Some ''Deposit state unknown: cannot confirm deposits are open. Deposits stay disabled until they can be confirmed. Withdraw and redeem stay open.'')"

definition depositStateAttr :: "DepositState \<Rightarrow> string" where
  "depositStateAttr s = (case s of
      Open_chain \<Rightarrow> ''open'' | Open_index _ \<Rightarrow> ''open'' | Paused_by _ \<Rightarrow> ''paused'' | Retired \<Rightarrow> ''retired''
    | Stale_price _ \<Rightarrow> ''stale-price'' | Unknown_state \<Rightarrow> ''unknown'')"

definition depositStateSource :: "DepositState \<Rightarrow> string" where
  "depositStateSource s = (case s of Open_chain \<Rightarrow> ''chain'' | Open_index _ \<Rightarrow> ''index'' | _ \<Rightarrow> [])"

definition headroomCell :: "string option \<Rightarrow> DepositState \<Rightarrow> string" where
  "headroomCell headroom s = (case s of
      Paused_by _ \<Rightarrow> ''n/a (deposits closed)''
    | Retired \<Rightarrow> ''n/a (deposits closed)''
    | Stale_price _ \<Rightarrow> ''n/a (deposits closed)''
    | Unknown_state \<Rightarrow> UNKNOWN
    | _ \<Rightarrow> formatUsdcCapString headroom)"

section \<open>Redeem targets\<close>

definition redeemTargetAllowlist :: "string list \<Rightarrow> string option \<Rightarrow> string list" where
  "redeemTargetAllowlist registered pinnedVault =
     map lc registered @ (case pinnedVault of Some v \<Rightarrow> if v \<noteq> [] then [lc v] else [] | None \<Rightarrow> [])"

definition acceptedRedeemTarget :: "string option \<Rightarrow> string list \<Rightarrow> string option" where
  "acceptedRedeemTarget candidate allowlist =
     (case candidate of None \<Rightarrow> None | Some c \<Rightarrow> if lc c \<in> set allowlist then Some c else None)"

section \<open>Index freshness\<close>

definition STALE_AFTER_BLOCKS :: int where "STALE_AFTER_BLOCKS = 30"

record IndexFreshnessView =
  fresh_text :: string
  behind :: "int option"
  stale :: bool

text \<open>U+00B7, the middle dot, as UTF-8.\<close>

definition MIDDLE_DOT :: string where "MIDDLE_DOT = [CHR 0xC2, CHR 0xB7]"

definition describeIndexFreshness :: "int option \<Rightarrow> int option \<Rightarrow> IndexFreshnessView" where
  "describeIndexFreshness blockNumber chainHeadBlock =
     (case blockNumber of None \<Rightarrow> \<lparr>fresh_text = ''Not indexed yet'', behind = None, stale = False\<rparr>
      | Some b \<Rightarrow>
          if b \<le> 0 then \<lparr>fresh_text = ''Not indexed yet'', behind = None, stale = False\<rparr>
          else case chainHeadBlock of None \<Rightarrow> \<lparr>fresh_text = ''Block '' @ show_int b, behind = None, stale = False\<rparr>
          | Some h \<Rightarrow>
              if h \<le> 0 then \<lparr>fresh_text = ''Block '' @ show_int b, behind = None, stale = False\<rparr>
              else let lag = max 0 (h - b); st = lag > STALE_AFTER_BLOCKS
                   in \<lparr>fresh_text =
                         (if st then ''Block '' @ show_int b @ '' '' @ MIDDLE_DOT @ '' indexer '' @ show_int lag
                                     @ '' blocks behind (head '' @ show_int h @ '')''
                          else ''Block '' @ show_int b),
                       behind = Some lag, stale = st\<rparr>)"

section \<open>Properties\<close>

lemma explorerFresh_iff:
  "explorerFresh block head \<longleftrightarrow> (\<exists>b h. block = Some b \<and> head = Some h \<and> 0 < b \<and> 0 < h \<and> h - b \<le> 30)"
  by (auto simp: explorerFresh_def EXPLORER_STALE_AFTER_BLOCKS_def split: option.splits)

text \<open>
  A deposit form is enabled only on evidence: deposits are open exactly when the registry says neither
  paused nor retired, no price recorder is stale, and either the chain itself answered that deposits are
  not paused, or the chain gave no answer and an index no more than 30 blocks behind a known head says so.
\<close>

theorem depositsOpen_iff:
  "depositsOpen (resolveDepositState i) \<longleftrightarrow>
     registryStatus i \<noteq> 1 \<and> registryStatus i \<noteq> 2 \<and> staleRecorders i = []
     \<and> (chainPaused i = Some False
        \<or> chainPaused i = None \<and> explorerPaused i = Some False
          \<and> (\<exists>b h. explorerBlock i = Some b \<and> explorerHead i = Some h \<and> 0 < b \<and> 0 < h \<and> h - b \<le> 30))"
proof -
  have "chainPaused i \<noteq> Some True \<and> chainPaused i \<noteq> Some False \<longleftrightarrow> chainPaused i = None"
    by (cases "chainPaused i") auto
  then show ?thesis
    by (auto simp: depositsOpen_def resolveDepositState_def resolveBaseDepositState_def is_open_def Let_def
        REGISTRY_RETIRED_def REGISTRY_DEPOSITS_PAUSED_def explorerFresh_iff)
qed

text \<open>
  No card says "Active" while deposits are closed, and what is shown agrees: the label starts with
  "Active", the form is enabled, no reason for a closure is given and a headroom figure is shown in exactly
  the same states.
\<close>

theorem active_label_only_when_open:
  "(starts_with ''Active'' (depositStateLabel s) \<longleftrightarrow> depositsOpen s)
   \<and> (depositsBlocked s \<longleftrightarrow> \<not> depositsOpen s)
   \<and> (depositStateReason s = None \<longleftrightarrow> depositsOpen s)
   \<and> (depositStateAttr s = ''open'' \<longleftrightarrow> depositsOpen s)
   \<and> headroomCell room s = (if depositsOpen s then formatUsdcCapString room
        else if depositStateAttr s = ''unknown'' then UNKNOWN else ''n/a (deposits closed)'')"
  by (cases s) (simp_all add: starts_with_def depositStateLabel_def depositsOpen_def depositsBlocked_def is_open_def
      depositStateReason_def depositStateAttr_def headroomCell_def)

lemma stale_index_not_fresh:
  "stale (describeIndexFreshness b h) \<Longrightarrow> \<not> explorerFresh b h"
  by (auto simp: describeIndexFreshness_def explorerFresh_def STALE_AFTER_BLOCKS_def EXPLORER_STALE_AFTER_BLOCKS_def
      Let_def split: option.splits if_splits)

text \<open>
  The explorer cannot choose what is signed: a redeem target is accepted only if the on-chain registry
  lists it or it is the configured vault, letter case aside, and it is passed on as it is.
\<close>

theorem accepted_redeem_target:
  "acceptedRedeemTarget candidate (redeemTargetAllowlist registered pinned) = Some t \<longleftrightarrow>
     candidate = Some t \<and> (lc t \<in> lc ` set registered \<or> (\<exists>v. pinned = Some v \<and> v \<noteq> [] \<and> lc t = lc v))"
  by (auto simp: acceptedRedeemTarget_def redeemTargetAllowlist_def split: option.splits if_splits)

end
