(* ===== verification/SafeProposal.thy ===== *)
theory SafeProposal
  imports Policy "HOL-Library.Multiset"
begin

text \<open>
  Safe transactions for timelock calls: \<open>safeProposal.ts\<close> (building, bundling and signing) and
  \<open>safeProposalChain.ts\<close> (what must hold on chain before a signature is asked for).

  viem's further functions (the strict address test, the hex test, concatenation, EIP-712 hashing, signature
  recovery) and the JSON coder are parameters. Reads of the chain are typed by the ABI they decode with.
  An error is a \<open>SafeProposalError\<close> with its code and the field or value it names, or \<open>Thrown\<close> for one viem or the
  language throws.
\<close>

record safe_viem = viem +
  isAddressStrict :: "string \<Rightarrow> bool"
  isHex :: "string \<Rightarrow> bool"
  concatHex :: "string list \<Rightarrow> string"
  utf8Hex :: "string \<Rightarrow> string"
  hashTypedData :: "js \<Rightarrow> string option"
  recoverAddress :: "string \<Rightarrow> string \<Rightarrow> string option"
  jsonText :: "js \<Rightarrow> string"
  jsonPretty :: "js \<Rightarrow> string"
  json_parse :: "string \<Rightarrow> js option"

section \<open>Constants\<close>

definition SAFE_VERSION :: string where "SAFE_VERSION = ''1.4.1''"
definition BUNDLE_FORMAT :: string where "BUNDLE_FORMAT = ''robotmoney-safe-tx/1''"
definition ZERO_BYTES32 :: string where "ZERO_BYTES32 = ''0x'' @ replicate 64 (CHR ''0'')"
definition SAFE_L2_141_singletonL2 :: string where
  "SAFE_L2_141_singletonL2 = ''0x29fcB43b46531BcA003ddC8FCB67FFE91900C762''"
definition SAFE_L2_141_proxyCodehash :: string where
  "SAFE_L2_141_proxyCodehash = ''0xd7d408ebcd99b2b70be43e20253d6d92a8ea8fab29bd3be7f55b10032331fb4c''"

definition type_js :: "(string \<times> string) list \<Rightarrow> js" where
  "type_js fs = JArr (map (\<lambda>(n, t). JObj [(''name'', JStr n), (''type'', JStr t)]) fs)"

definition EIP712_DOMAIN_TYPE :: "(string \<times> string) list" where
  "EIP712_DOMAIN_TYPE = [(''chainId'', ''uint256''), (''verifyingContract'', ''address'')]"

definition SAFE_TX_TYPE :: "(string \<times> string) list" where
  "SAFE_TX_TYPE =
    [(''to'', ''address''), (''value'', ''uint256''), (''data'', ''bytes''), (''operation'', ''uint8''),
     (''safeTxGas'', ''uint256''), (''baseGas'', ''uint256''), (''gasPrice'', ''uint256''), (''gasToken'', ''address''),
     (''refundReceiver'', ''address''), (''nonce'', ''uint256'')]"

definition DOMAIN_SEPARATOR_TYPEHASH :: "safe_viem \<Rightarrow> string" where
  "DOMAIN_SEPARATOR_TYPEHASH V = keccak_hex V (utf8Hex V ''EIP712Domain(uint256 chainId,address verifyingContract)'')"

definition SAFE_TX_TYPEHASH :: "safe_viem \<Rightarrow> string" where
  "SAFE_TX_TYPEHASH V = keccak_hex V (utf8Hex V ''SafeTx(address to,uint256 value,bytes data,uint8 operation,uint256 safeTxGas,uint256 baseGas,uint256 gasPrice,address gasToken,address refundReceiver,uint256 nonce)'')"

definition PROPOSER_ROLE :: "safe_viem \<Rightarrow> string" where
  "PROPOSER_ROLE V = keccak_hex V (utf8Hex V ''PROPOSER_ROLE'')"

definition EXECUTOR_ROLE :: "safe_viem \<Rightarrow> string" where
  "EXECUTOR_ROLE V = keccak_hex V (utf8Hex V ''EXECUTOR_ROLE'')"

section \<open>Errors\<close>

datatype SafeProposalErrorCode =
    CALL_NOT_ALLOWED
  | FIELD_NOT_ALLOWED
  | BAD_INPUT
  | DIGEST_MISMATCH
  | BUNDLE_INVALID
  | SIGNATURE_INVALID
  | NOT_OWNER

datatype safe_error = SafeProposalError SafeProposalErrorCode string | Thrown

section \<open>Timelock calldata\<close>

record TimelockOperation =
  op_target :: string
  op_data :: string
  op_predecessor :: string
  op_salt :: string

definition encodeSchedule :: "safe_viem \<Rightarrow> TimelockOperation \<Rightarrow> int \<Rightarrow> string option" where
  "encodeSchedule V op delay =
     (case getAddress V (op_target op) of None \<Rightarrow> None
      | Some t \<Rightarrow> encodeCall V ''schedule''
          [JStr t, JBig 0, JStr (op_data op), JStr (op_predecessor op), JStr (op_salt op), JBig delay])"

definition encodeExecute :: "safe_viem \<Rightarrow> TimelockOperation \<Rightarrow> string option" where
  "encodeExecute V op =
     (case getAddress V (op_target op) of None \<Rightarrow> None
      | Some t \<Rightarrow> encodeCall V ''execute''
          [JStr t, JBig 0, JStr (op_data op), JStr (op_predecessor op), JStr (op_salt op)])"

definition timelockOperationId :: "safe_viem \<Rightarrow> TimelockOperation \<Rightarrow> string option" where
  "timelockOperationId V op =
     (case getAddress V (op_target op) of None \<Rightarrow> None
      | Some t \<Rightarrow> map_option (keccak_hex V)
          (encodeAbi V [''address'', ''uint256'', ''bytes'', ''bytes32'', ''bytes32'']
             [JStr t, JBig 0, JStr (op_data op), JStr (op_predecessor op), JStr (op_salt op)]))"

definition proposalSalt :: "safe_viem \<Rightarrow> int \<Rightarrow> string \<Rightarrow> int \<Rightarrow> string \<Rightarrow> string \<Rightarrow> string option" where
  "proposalSalt V chain safe nonce tgt data =
     (case (getAddress V safe, getAddress V tgt) of
        (Some s, Some t) \<Rightarrow>
          map_option (\<lambda>e. keccak_hex V (concatHex V [utf8Hex V ''robotmoney-dapp-proposal/1'', e]))
            (encodeAbi V [''uint256'', ''address'', ''uint256'', ''address'', ''bytes32'']
               [JBig chain, JStr s, JBig nonce, JStr t, JStr (keccak_hex V data)])
      | _ \<Rightarrow> None)"

section \<open>The SafeTx\<close>

text \<open>A JavaScript number: an integer, or one strictly between \<open>n\<close> and \<open>n + 1\<close>.\<close>

datatype jsnum = NInt int | NFrac int

record BuildSafeTxInput =
  in_chainId :: jsnum
  in_safe :: string
  in_timelock :: string
  in_to :: string
  in_data :: string
  in_nonce :: int
  in_value :: "int option"
  in_operation :: "jsnum option"
  in_safeTxGas :: "int option"
  in_baseGas :: "int option"
  in_gasPrice :: "int option"
  in_gasToken :: "string option"
  in_refundReceiver :: "string option"

record SafeTxMessage =
  m_to :: string
  m_value :: string
  m_data :: string
  m_operation :: int
  m_safeTxGas :: string
  m_baseGas :: string
  m_gasPrice :: string
  m_gasToken :: string
  m_refundReceiver :: string
  m_nonce :: string

record SafeTxTypedData =
  domain_chainId :: int
  verifyingContract :: string
  message :: SafeTxMessage

definition message_js :: "SafeTxMessage \<Rightarrow> js" where
  "message_js m = JObj
     [(''to'', JStr (m_to m)), (''value'', JStr (m_value m)), (''data'', JStr (m_data m)), (''operation'', JNum (m_operation m)),
      (''safeTxGas'', JStr (m_safeTxGas m)), (''baseGas'', JStr (m_baseGas m)), (''gasPrice'', JStr (m_gasPrice m)),
      (''gasToken'', JStr (m_gasToken m)), (''refundReceiver'', JStr (m_refundReceiver m)), (''nonce'', JStr (m_nonce m))]"

definition typed_data_js :: "SafeTxTypedData \<Rightarrow> js" where
  "typed_data_js t = JObj
     [(''types'', JObj [(''EIP712Domain'', type_js EIP712_DOMAIN_TYPE), (''SafeTx'', type_js SAFE_TX_TYPE)]),
      (''primaryType'', JStr ''SafeTx''),
      (''domain'', JObj [(''chainId'', JNum (domain_chainId t)), (''verifyingContract'', JStr (verifyingContract t))]),
      (''message'', message_js (message t))]"

text \<open>The argument of \<open>hashTypedData\<close>: the same document with the amounts as \<open>bigint\<close>s.\<close>

definition hash_input :: "int \<Rightarrow> string \<Rightarrow> string \<Rightarrow> string \<Rightarrow> int \<Rightarrow> js" where
  "hash_input chain safe to data nonce = JObj
     [(''domain'', JObj [(''chainId'', JNum chain), (''verifyingContract'', JStr safe)]),
      (''types'', JObj [(''SafeTx'', type_js SAFE_TX_TYPE)]), (''primaryType'', JStr ''SafeTx''),
      (''message'', JObj
        [(''to'', JStr to), (''value'', JBig 0), (''data'', JStr data), (''operation'', JNum 0), (''safeTxGas'', JBig 0),
         (''baseGas'', JBig 0), (''gasPrice'', JBig 0), (''gasToken'', JStr zero_address),
         (''refundReceiver'', JStr zero_address), (''nonce'', JBig nonce)])]"

datatype timelock_fn = Schedule | Execute

record SafeTxBuild =
  typedData :: SafeTxTypedData
  typedDataJson :: string
  domainSeparator :: string
  structHash :: string
  safeTxHash :: string
  timelockFunction :: timelock_fn

definition timelockFunctionOf :: "safe_viem \<Rightarrow> string \<Rightarrow> safe_error + timelock_fn" where
  "timelockFunctionOf V data =
     (case decodeCall V data of
        None \<Rightarrow> Inl (SafeProposalError CALL_NOT_ALLOWED (take 10 data))
      | Some (name, _) \<Rightarrow>
          if name = ''schedule'' then Inr Schedule
          else if name = ''execute'' then Inr Execute
          else Inl (SafeProposalError CALL_NOT_ALLOWED name))"

definition zero_or_absent :: "int option \<Rightarrow> bool" where
  "zero_or_absent v = (v = None \<or> v = Some 0)"

definition zero_address_or_absent :: "string option \<Rightarrow> bool" where
  "zero_address_or_absent v = (case v of None \<Rightarrow> True | Some a \<Rightarrow> same_address a zero_address)"

text \<open>The refusals of \<open>buildSafeTx\<close>, in order, up to the decoding of the call.\<close>

definition check_input :: "safe_viem \<Rightarrow> BuildSafeTxInput \<Rightarrow> safe_error + int" where
  "check_input V i =
     res_bind (case in_chainId i of NInt n \<Rightarrow> if n \<le> 0 then Inl (SafeProposalError BAD_INPUT ''chainId'') else Inr n
               | NFrac _ \<Rightarrow> Inl (SafeProposalError BAD_INPUT ''chainId'')) (\<lambda>chain.
     res_bind (ensure (isAddressStrict V (in_safe i) \<and> isAddressStrict V (in_timelock i) \<and> isAddressStrict V (in_to i))
       (SafeProposalError BAD_INPUT ''address'')) (\<lambda>_.
     res_bind (ensure (isHex V (in_data i) \<and> (int (length (in_data i)) - 2) mod 2 = 0)
       (SafeProposalError BAD_INPUT ''data'')) (\<lambda>_.
     res_bind (ensure (0 \<le> in_nonce i) (SafeProposalError BAD_INPUT ''nonce'')) (\<lambda>_.
     res_bind (ensure (in_operation i = None \<or> in_operation i = Some (NInt 0))
       (SafeProposalError FIELD_NOT_ALLOWED ''operation'')) (\<lambda>_.
     res_bind (ensure (zero_or_absent (in_value i)) (SafeProposalError FIELD_NOT_ALLOWED ''value'')) (\<lambda>_.
     res_bind (ensure (zero_or_absent (in_safeTxGas i)) (SafeProposalError FIELD_NOT_ALLOWED ''safeTxGas'')) (\<lambda>_.
     res_bind (ensure (zero_or_absent (in_baseGas i)) (SafeProposalError FIELD_NOT_ALLOWED ''baseGas'')) (\<lambda>_.
     res_bind (ensure (zero_or_absent (in_gasPrice i)) (SafeProposalError FIELD_NOT_ALLOWED ''gasPrice'')) (\<lambda>_.
     res_bind (ensure (zero_address_or_absent (in_gasToken i)) (SafeProposalError FIELD_NOT_ALLOWED ''gasToken'')) (\<lambda>_.
     res_bind (ensure (zero_address_or_absent (in_refundReceiver i))
       (SafeProposalError FIELD_NOT_ALLOWED ''refundReceiver'')) (\<lambda>_.
     res_bind (ensure (same_address (in_to i) (in_timelock i)) (SafeProposalError CALL_NOT_ALLOWED (in_to i))) (\<lambda>_.
     Inr chain))))))))))))"

definition zero_message :: "string \<Rightarrow> string \<Rightarrow> int \<Rightarrow> SafeTxMessage" where
  "zero_message to data nonce =
     \<lparr>m_to = to, m_value = ''0'', m_data = data, m_operation = 0, m_safeTxGas = ''0'', m_baseGas = ''0'',
      m_gasPrice = ''0'', m_gasToken = zero_address, m_refundReceiver = zero_address, m_nonce = show_int nonce\<rparr>"

definition buildSafeTx :: "safe_viem \<Rightarrow> BuildSafeTxInput \<Rightarrow> safe_error + SafeTxBuild" where
  "buildSafeTx V i =
     res_bind (check_input V i) (\<lambda>chain.
     res_bind (timelockFunctionOf V (in_data i)) (\<lambda>fn.
     res_bind (of_option Thrown (getAddress V (in_safe i))) (\<lambda>safe.
     res_bind (of_option Thrown (getAddress V (in_to i))) (\<lambda>to.
     let typed = \<lparr>domain_chainId = chain, verifyingContract = safe, message = zero_message to (in_data i) (in_nonce i)\<rparr>
     in
     res_bind (of_option Thrown (map_option (keccak_hex V)
       (encodeAbi V [''bytes32'', ''uint256'', ''address''] [JStr (DOMAIN_SEPARATOR_TYPEHASH V), JBig chain, JStr safe]))) (\<lambda>ds.
     res_bind (of_option Thrown (map_option (keccak_hex V)
       (encodeAbi V [''bytes32'', ''address'', ''uint256'', ''bytes32'', ''uint8'', ''uint256'', ''uint256'', ''uint256'',
            ''address'', ''address'', ''uint256'']
          [JStr (SAFE_TX_TYPEHASH V), JStr to, JBig 0, JStr (keccak_hex V (in_data i)), JNum 0, JBig 0, JBig 0, JBig 0,
           JStr zero_address, JStr zero_address, JBig (in_nonce i)]))) (\<lambda>sh.
     let h = keccak_hex V (concatHex V [''0x1901'', ds, sh])
     in
     res_bind (of_option Thrown (hashTypedData V (hash_input chain safe to (in_data i) (in_nonce i)))) (\<lambda>viaViem.
     res_bind (ensure (lc viaViem = lc h) (SafeProposalError DIGEST_MISMATCH ''local'')) (\<lambda>_.
     Inr \<lparr>typedData = typed, typedDataJson = jsonText V (typed_data_js typed), domainSeparator = ds, structHash = sh,
          safeTxHash = h, timelockFunction = fn\<rparr>))))))))"

section \<open>Signatures\<close>

record BundleSignature =
  sig_owner :: string
  signature :: string

definition toSafeSignature :: "string \<Rightarrow> safe_error + string" where
  "toSafeSignature s =
     (if \<not> hex_of_len 130 s then Inl (SafeProposalError SIGNATURE_INVALID ''65 bytes'')
      else let v = read_hex (take 2 (drop 130 s)); base = (if v = 0 \<or> v = 1 then v + 27 else v)
           in if base \<noteq> 27 \<and> base \<noteq> 28 then Inl (SafeProposalError SIGNATURE_INVALID (show_nat v))
              else Inr (''0x'' @ take 128 (drop 2 s) @ (if base = 27 then ''1b'' else ''1c'')))"

definition recoverSigner :: "safe_viem \<Rightarrow> string \<Rightarrow> string \<Rightarrow> safe_error + string" where
  "recoverSigner V hash sg =
     res_bind (toSafeSignature sg) (\<lambda>s. of_option Thrown (recoverAddress V hash s))"

text \<open>\<open>sort(byOwnerAscending)\<close>: a stable sort by the lower-case owner.\<close>

definition sort_by_owner :: "BundleSignature list \<Rightarrow> BundleSignature list" where
  "sort_by_owner sigs = sort_key (\<lambda>s. lc (sig_owner s)) sigs"

definition addSignature :: "BundleSignature list \<Rightarrow> BundleSignature \<Rightarrow> BundleSignature list" where
  "addSignature signatures nxt =
     sort_by_owner (filter (\<lambda>s. lc (sig_owner s) \<noteq> lc (sig_owner nxt)) signatures @ [nxt])"

fun signed_twice :: "BundleSignature list \<Rightarrow> string option" where
  "signed_twice (a # b # ss) =
     (if same_address (sig_owner a) (sig_owner b) then Some (sig_owner b) else signed_twice (b # ss))"
| "signed_twice _ = None"

definition packSignatures :: "BundleSignature list \<Rightarrow> safe_error + string" where
  "packSignatures signatures =
     (let sorted = sort_by_owner signatures
      in case signed_twice sorted of
           Some o' \<Rightarrow> Inl (SafeProposalError SIGNATURE_INVALID o')
         | None \<Rightarrow>
             res_bind (map_res (\<lambda>s. toSafeSignature (signature s)) sorted) (\<lambda>ss.
             Inr (''0x'' @ concat (map (drop 2) ss))))"

section \<open>Bundles\<close>

record SafeTxBundle =
  format :: string
  chain_id :: jsnum
  safe :: string
  safe_version :: string
  timelock :: "string option"
  action :: string
  description :: string
  to :: string
  bundle_value :: string
  data :: string
  operation :: int
  safe_tx_gas :: string
  base_gas :: string
  gas_price :: string
  gas_token :: string
  refund_receiver :: string
  nonce :: jsnum
  safe_tx_hash :: string
  timelock_operation_id :: "string option"
  timelock_min_delay :: "string option"
  threshold :: jsnum
  owners :: "string list"
  signatures :: "BundleSignature list"
  proposed_at :: string

record NewBundleInput =
  nb_chainId :: int
  nb_safe :: string
  nb_timelock :: string
  nb_to :: string
  nb_data :: string
  nb_nonce :: int
  nb_safeTxHash :: string
  nb_action :: string
  nb_description :: string
  nb_operationId :: string
  nb_minDelay :: int
  nb_threshold :: int
  nb_owners :: "string list"
  nb_proposedAt :: string

definition newBundle :: "safe_viem \<Rightarrow> NewBundleInput \<Rightarrow> safe_error + SafeTxBundle" where
  "newBundle V i =
     res_bind (of_option Thrown (getAddress V (nb_safe i))) (\<lambda>s.
     res_bind (of_option Thrown (getAddress V (nb_timelock i))) (\<lambda>lock.
     res_bind (of_option Thrown (getAddress V (nb_to i))) (\<lambda>t.
     res_bind (map_res (\<lambda>o'. of_option Thrown (getAddress V o')) (nb_owners i)) (\<lambda>os.
     Inr \<lparr>format = BUNDLE_FORMAT, chain_id = NInt (nb_chainId i), safe = s, safe_version = SAFE_VERSION,
          timelock = Some lock, action = nb_action i, description = nb_description i, to = t, bundle_value = ''0'',
          data = nb_data i, operation = 0, safe_tx_gas = ''0'', base_gas = ''0'', gas_price = ''0'',
          gas_token = zero_address, refund_receiver = zero_address, nonce = NInt (nb_nonce i),
          safe_tx_hash = nb_safeTxHash i, timelock_operation_id = Some (nb_operationId i),
          timelock_min_delay = Some (show_int (nb_minDelay i)), threshold = NInt (nb_threshold i), owners = os,
          signatures = [], proposed_at = nb_proposedAt i\<rparr>))))"

definition num_js :: "jsnum \<Rightarrow> js" where
  "num_js n = (case n of NInt i \<Rightarrow> JNum i | NFrac i \<Rightarrow> JFloat i)"

definition sig_js :: "BundleSignature \<Rightarrow> js" where
  "sig_js s = JObj [(''owner'', JStr (sig_owner s)), (''signature'', JStr (signature s))]"

definition opt_field :: "string \<Rightarrow> string option \<Rightarrow> (string \<times> js) list" where
  "opt_field k v = (case v of None \<Rightarrow> [] | Some s \<Rightarrow> [(k, JStr s)])"

text \<open>The bundle as \<open>JSON.stringify\<close> sees it: an absent field is left out.\<close>

definition bundle_js :: "SafeTxBundle \<Rightarrow> js" where
  "bundle_js b = JObj
     ([(''format'', JStr (format b)), (''chain_id'', num_js (chain_id b)), (''safe'', JStr (safe b)),
       (''safe_version'', JStr (safe_version b))] @ opt_field ''timelock'' (timelock b) @
      [(''action'', JStr (action b)), (''description'', JStr (description b)), (''to'', JStr (to b)),
       (''value'', JStr (bundle_value b)), (''data'', JStr (data b)), (''operation'', JNum (operation b)),
       (''safe_tx_gas'', JStr (safe_tx_gas b)), (''base_gas'', JStr (base_gas b)), (''gas_price'', JStr (gas_price b)),
       (''gas_token'', JStr (gas_token b)), (''refund_receiver'', JStr (refund_receiver b)), (''nonce'', num_js (nonce b)),
       (''safe_tx_hash'', JStr (safe_tx_hash b))] @ opt_field ''timelock_operation_id'' (timelock_operation_id b)
      @ opt_field ''timelock_min_delay'' (timelock_min_delay b) @
      [(''threshold'', num_js (threshold b)), (''owners'', JArr (map JStr (owners b))),
       (''signatures'', JArr (map sig_js (signatures b))), (''proposed_at'', JStr (proposed_at b))])"

definition exportBundle :: "safe_viem \<Rightarrow> SafeTxBundle \<Rightarrow> string" where
  "exportBundle V b = jsonPretty V (bundle_js b) @ [CHR 0x0A]"

text \<open>\<open>BigInt(n)\<close> of a number throws when it is not an integer.\<close>

definition to_bigint :: "jsnum \<Rightarrow> safe_error + int" where
  "to_bigint n = (case n of NInt i \<Rightarrow> Inr i | NFrac _ \<Rightarrow> Inl Thrown)"

definition bundle_input :: "SafeTxBundle \<Rightarrow> string \<Rightarrow> int \<Rightarrow> BuildSafeTxInput" where
  "bundle_input b lock n =
     \<lparr>in_chainId = chain_id b, in_safe = safe b, in_timelock = lock, in_to = to b, in_data = data b, in_nonce = n,
      in_value = None, in_operation = None, in_safeTxGas = None, in_baseGas = None, in_gasPrice = None,
      in_gasToken = None, in_refundReceiver = None\<rparr>"

definition verifyBundleFields :: "safe_viem \<Rightarrow> SafeTxBundle \<Rightarrow> safe_error + SafeTxBuild" where
  "verifyBundleFields V b =
     res_bind (ensure (format b = BUNDLE_FORMAT) (SafeProposalError BUNDLE_INVALID ''format'')) (\<lambda>_.
     res_bind (case timelock b of Some lock \<Rightarrow> if lock = [] then Inl (SafeProposalError BUNDLE_INVALID ''timelock'') else Inr lock
               | None \<Rightarrow> Inl (SafeProposalError BUNDLE_INVALID ''timelock'')) (\<lambda>lock.
     res_bind (ensure (bundle_value b = ''0'' \<and> operation b = 0 \<and> safe_tx_gas b = ''0'' \<and> base_gas b = ''0'' \<and> gas_price b = ''0''
         \<and> same_address (gas_token b) zero_address \<and> same_address (refund_receiver b) zero_address)
       (SafeProposalError BUNDLE_INVALID ''fields'')) (\<lambda>_.
     res_bind (to_bigint (nonce b)) (\<lambda>n.
     res_bind (buildSafeTx V (bundle_input b lock n)) (\<lambda>built.
     res_bind (ensure (lc (safeTxHash built) = lc (safe_tx_hash b)) (SafeProposalError DIGEST_MISMATCH ''bundle'')) (\<lambda>_.
     Inr built))))))"

section \<open>Reading a bundle\<close>

definition invalid :: "string \<Rightarrow> safe_error" where
  "invalid name = SafeProposalError BUNDLE_INVALID name"

definition addr_field :: "safe_viem \<Rightarrow> js \<Rightarrow> string \<Rightarrow> safe_error + string" where
  "addr_field V v name = (case v of
      JStr s \<Rightarrow> if isAddressStrict V s then of_option Thrown (getAddress V s) else Inl (invalid name)
    | _ \<Rightarrow> Inl (invalid name))"

definition hex_field :: "safe_viem \<Rightarrow> js \<Rightarrow> string \<Rightarrow> safe_error + string" where
  "hex_field V v name = (case v of JStr s \<Rightarrow> if isHex V s then Inr s else Inl (invalid name) | _ \<Rightarrow> Inl (invalid name))"

definition str_field :: "js \<Rightarrow> string \<Rightarrow> safe_error + string" where
  "str_field v name = (case v of JStr s \<Rightarrow> Inr s | _ \<Rightarrow> Inl (invalid name))"

definition num_field :: "js \<Rightarrow> safe_error + jsnum" where
  "num_field v = (case v of JNum i \<Rightarrow> Inr (NInt i) | JFloat i \<Rightarrow> Inr (NFrac i) | _ \<Rightarrow> Inl (invalid ''numbers''))"

definition arr_field :: "js \<Rightarrow> string \<Rightarrow> safe_error + js list" where
  "arr_field v name = (case v of JArr xs \<Rightarrow> Inr xs | _ \<Rightarrow> Inl (invalid name))"

definition zero_field :: "js \<Rightarrow> string \<Rightarrow> safe_error + string" where
  "zero_field v name = (if v = JStr ''0'' then Inr ''0'' else Inl (invalid name))"

definition opt_read :: "(js \<Rightarrow> string \<Rightarrow> safe_error + string) \<Rightarrow> js \<Rightarrow> string \<Rightarrow> safe_error + string option" where
  "opt_read f v name = (if v = JUndef then Inr None else res_bind (f v name) (\<lambda>s. Inr (Some s)))"

definition parse_signature :: "safe_viem \<Rightarrow> js \<Rightarrow> safe_error + BundleSignature" where
  "parse_signature V s =
     (if \<not> is_record s then Inl (invalid ''signatures[]'')
      else res_bind (addr_field V (jget s ''owner'') ''signatures[].owner'') (\<lambda>o'.
           res_bind (hex_field V (jget s ''signature'') ''signatures[].signature'') (\<lambda>sg.
           Inr \<lparr>sig_owner = o', signature = sg\<rparr>)))"

definition parseBundle :: "safe_viem \<Rightarrow> string \<Rightarrow> safe_error + SafeTxBundle" where
  "parseBundle V json =
     res_bind (of_option (invalid ''json'') (json_parse V json)) (\<lambda>r.
     res_bind (ensure (is_record r \<and> jget r ''format'' = JStr BUNDLE_FORMAT) (invalid ''format'')) (\<lambda>_.
     res_bind (arr_field (jget r ''signatures'') ''signatures'') (\<lambda>sigsRaw.
     res_bind (map_res (parse_signature V) sigsRaw) (\<lambda>sigs.
     res_bind (arr_field (jget r ''owners'') ''owners'') (\<lambda>ownersRaw.
     res_bind (num_field (jget r ''chain_id'')) (\<lambda>c.
     res_bind (num_field (jget r ''nonce'')) (\<lambda>n.
     res_bind (num_field (jget r ''threshold'')) (\<lambda>th.
     res_bind (addr_field V (jget r ''safe'') ''safe'') (\<lambda>sf.
     res_bind (str_field (jget r ''safe_version'') ''safe_version'') (\<lambda>sv.
     res_bind (str_field (jget r ''action'') ''action'') (\<lambda>ac.
     res_bind (addr_field V (jget r ''to'') ''to'') (\<lambda>t.
     res_bind (zero_field (jget r ''value'') ''value'') (\<lambda>vl.
     res_bind (hex_field V (jget r ''data'') ''data'') (\<lambda>dt.
     res_bind (ensure (jget r ''operation'' = JNum 0) (invalid ''operation'')) (\<lambda>_.
     res_bind (zero_field (jget r ''safe_tx_gas'') ''safe_tx_gas'') (\<lambda>g1.
     res_bind (zero_field (jget r ''base_gas'') ''base_gas'') (\<lambda>g2.
     res_bind (zero_field (jget r ''gas_price'') ''gas_price'') (\<lambda>g3.
     res_bind (addr_field V (jget r ''gas_token'') ''gas_token'') (\<lambda>gt.
     res_bind (addr_field V (jget r ''refund_receiver'') ''refund_receiver'') (\<lambda>rr.
     res_bind (hex_field V (jget r ''safe_tx_hash'') ''safe_tx_hash'') (\<lambda>h.
     res_bind (map_res (\<lambda>o'. addr_field V o' ''owners[]'') ownersRaw) (\<lambda>os.
     res_bind (str_field (jget r ''proposed_at'') ''proposed_at'') (\<lambda>pa.
     res_bind (opt_read (addr_field V) (jget r ''timelock'') ''timelock'') (\<lambda>lock.
     res_bind (opt_read (hex_field V) (jget r ''timelock_operation_id'') ''timelock_operation_id'') (\<lambda>oid.
     res_bind (opt_read str_field (jget r ''timelock_min_delay'') ''timelock_min_delay'') (\<lambda>md.
     Inr \<lparr>format = BUNDLE_FORMAT, chain_id = c, safe = sf, safe_version = sv, timelock = lock, action = ac,
          description = (case jget r ''description'' of JStr d \<Rightarrow> d | _ \<Rightarrow> []), to = t, bundle_value = vl, data = dt,
          operation = 0, safe_tx_gas = g1, base_gas = g2, gas_price = g3, gas_token = gt, refund_receiver = rr, nonce = n,
          safe_tx_hash = h, timelock_operation_id = oid, timelock_min_delay = md, threshold = th, owners = os,
          signatures = sigs, proposed_at = pa\<rparr>))))))))))))))))))))))))))"

section \<open>Merging signatures and executing\<close>

definition import_entry ::
  "safe_viem \<Rightarrow> SafeTxBundle \<Rightarrow> js \<Rightarrow> BundleSignature list \<Rightarrow> safe_error + BundleSignature list" where
  "import_entry V current entry sigs =
     res_bind (ensure (is_record entry) (invalid ''entry'')) (\<lambda>_.
     let sg = jcoalesce (jget entry ''signature'') (jget entry ''data'');
         claimed = jcoalesce (jget entry ''owner'') (jget entry ''signer'')
     in
     res_bind (str_field sg ''signature'') (\<lambda>s.
     res_bind (toSafeSignature s) (\<lambda>normalised.
     res_bind (recoverSigner V (safe_tx_hash current) normalised) (\<lambda>recovered.
     res_bind (ensure (case claimed of JStr c \<Rightarrow> same_address c recovered | _ \<Rightarrow> True)
       (SafeProposalError SIGNATURE_INVALID recovered)) (\<lambda>_.
     res_bind (ensure (list_ex (\<lambda>o'. same_address o' recovered) (owners current))
       (SafeProposalError NOT_OWNER recovered)) (\<lambda>_.
     res_bind (of_option Thrown (getAddress V recovered)) (\<lambda>o'.
     Inr (addSignature sigs \<lparr>sig_owner = o', signature = normalised\<rparr>))))))))"

fun import_entries ::
  "safe_viem \<Rightarrow> SafeTxBundle \<Rightarrow> js list \<Rightarrow> BundleSignature list \<Rightarrow> safe_error + BundleSignature list" where
  "import_entries V current [] sigs = Inr sigs"
| "import_entries V current (e # es) sigs =
     res_bind (import_entry V current e sigs) (import_entries V current es)"

definition importSignatures :: "safe_viem \<Rightarrow> SafeTxBundle \<Rightarrow> string \<Rightarrow> safe_error + SafeTxBundle" where
  "importSignatures V current src =
     res_bind (of_option (invalid ''json'') (json_parse V src)) (\<lambda>parsed.
     res_bind (ensure (is_record parsed) (invalid ''object'')) (\<lambda>_.
     res_bind (ensure (case jcoalesce (jget parsed ''safe_tx_hash'') (jget parsed ''safeTxHash'') of
                         JStr h \<Rightarrow> lc h = lc (safe_tx_hash current) | _ \<Rightarrow> True)
       (SafeProposalError DIGEST_MISMATCH ''import'')) (\<lambda>_.
     res_bind (arr_field (jget parsed ''signatures'') ''signatures'') (\<lambda>es.
     res_bind (import_entries V current es (signatures current)) (\<lambda>sigs.
     Inr (current\<lparr>signatures := sigs\<rparr>))))))"

text \<open>\<open>length < threshold\<close> and \<open>slice(0, threshold)\<close> on a number.\<close>

definition below :: "nat \<Rightarrow> jsnum \<Rightarrow> bool" where
  "below n t = (case t of NInt i \<Rightarrow> int n < i | NFrac i \<Rightarrow> int n \<le> i)"

definition slice_to :: "jsnum \<Rightarrow> 'a list \<Rightarrow> 'a list" where
  "slice_to t xs = (let i = (case t of NInt i \<Rightarrow> i | NFrac i \<Rightarrow> if i < 0 then i + 1 else i)
     in if i < 0 then take (nat (int (length xs) + i)) xs else take (nat i) xs)"

definition execTransactionArgs :: "SafeTxBundle \<Rightarrow> safe_error + js list" where
  "execTransactionArgs b =
     (if below (length (signatures b)) (threshold b) then Inl (SafeProposalError SIGNATURE_INVALID ''threshold'')
      else res_bind (packSignatures (slice_to (threshold b) (sort_by_owner (signatures b)))) (\<lambda>packed.
           Inr [JStr (to b), JBig 0, JStr (data b), JNum 0, JBig 0, JBig 0, JBig 0, JStr zero_address, JStr zero_address,
                JStr packed]))"

section \<open>Chain context\<close>

text \<open>The reads, each \<^const>\<open>None\<close> when it throws; \<open>rd_getCode\<close> and \<open>rd_getStorageAt\<close> may answer \<open>undefined\<close>.\<close>

record SafeChainReader =
  rd_chainId :: "int option"
  rd_getCode :: "string \<Rightarrow> string option option"
  rd_getStorageAt :: "string \<Rightarrow> string \<Rightarrow> string option option"
  rd_version :: "string \<Rightarrow> string option"
  rd_owners :: "string \<Rightarrow> string list option"
  rd_threshold :: "string \<Rightarrow> int option"
  rd_nonce :: "string \<Rightarrow> int option"
  rd_minDelay :: "string \<Rightarrow> int option"
  rd_hasRole :: "string \<Rightarrow> string \<Rightarrow> string \<Rightarrow> bool option"
  rd_transactionHash :: "string \<Rightarrow> js list \<Rightarrow> string option"

record SafeContext =
  sc_chainId :: int
  sc_safe :: string
  sc_timelock :: string
  sc_version :: string
  sc_owners :: "string list"
  sc_threshold :: int
  sc_nonce :: int
  sc_codehash :: string
  sc_singleton :: string
  sc_canonical :: bool
  sc_minDelay :: int
  sc_hasProposerRole :: bool
  sc_hasExecutorRole :: bool

definition isCanonicalSafe :: "string \<Rightarrow> string \<Rightarrow> string \<Rightarrow> bool" where
  "isCanonicalSafe version codehash singleton =
     (version = SAFE_VERSION \<and> lc codehash = lc SAFE_L2_141_proxyCodehash \<and> lc singleton = lc SAFE_L2_141_singletonL2)"

definition has_code :: "string option \<Rightarrow> bool" where
  "has_code c = (case c of None \<Rightarrow> False | Some s \<Rightarrow> s \<noteq> [] \<and> s \<noteq> ''0x'')"

definition loadSafeContext :: "safe_viem \<Rightarrow> SafeChainReader \<Rightarrow> string \<Rightarrow> string \<Rightarrow> safe_error + SafeContext" where
  "loadSafeContext V rd safeAddr timelockAddr =
     res_bind (of_option Thrown (getAddress V safeAddr)) (\<lambda>sf.
     res_bind (of_option Thrown (getAddress V timelockAddr)) (\<lambda>lock.
     res_bind (of_option Thrown (rd_chainId rd)) (\<lambda>chain.
     res_bind (of_option Thrown (rd_getCode rd sf)) (\<lambda>code.
     res_bind (of_option Thrown (rd_getStorageAt rd sf ZERO_BYTES32)) (\<lambda>slot0.
     res_bind (ensure (has_code code) (SafeProposalError BAD_INPUT sf)) (\<lambda>_.
     res_bind (of_option Thrown (rd_getCode rd lock)) (\<lambda>tlCode.
     res_bind (ensure (has_code tlCode) (SafeProposalError BAD_INPUT lock)) (\<lambda>_.
     let codehash = keccak_hex V (the code);
         word = (case slot0 of None \<Rightarrow> ''0x'' | Some w \<Rightarrow> w)
     in
     res_bind (of_option Thrown (getAddress V (''0x'' @ pad_start 40 (last_chars 40 word)))) (\<lambda>singleton.
     let version = (case rd_version rd sf of None \<Rightarrow> [] | Some v \<Rightarrow> v)
     in
     res_bind (of_option Thrown (rd_owners rd sf)) (\<lambda>os.
     res_bind (of_option Thrown (rd_threshold rd sf)) (\<lambda>th.
     res_bind (of_option Thrown (rd_nonce rd sf)) (\<lambda>n.
     res_bind (of_option Thrown (rd_minDelay rd lock)) (\<lambda>md.
     res_bind (of_option Thrown (rd_hasRole rd lock (PROPOSER_ROLE V) sf)) (\<lambda>proposer.
     res_bind (of_option Thrown (rd_hasRole rd lock (EXECUTOR_ROLE V) sf)) (\<lambda>executorSelf.
     res_bind (of_option Thrown (rd_hasRole rd lock (EXECUTOR_ROLE V) zero_address)) (\<lambda>executorOpen.
     res_bind (map_res (\<lambda>o'. of_option Thrown (getAddress V o')) os) (\<lambda>owners'.
     Inr \<lparr>sc_chainId = chain, sc_safe = sf, sc_timelock = lock, sc_version = version, sc_owners = owners',
          sc_threshold = th, sc_nonce = n, sc_codehash = codehash, sc_singleton = singleton,
          sc_canonical = isCanonicalSafe version codehash singleton, sc_minDelay = md, sc_hasProposerRole = proposer,
          sc_hasExecutorRole = (executorSelf \<or> executorOpen)\<rparr>)))))))))))))))))"

datatype assess_refusal = Not_canonical | No_account | Not_an_owner | No_proposer_role | No_executor_role

definition assessSafeContext :: "SafeContext \<Rightarrow> string option \<Rightarrow> timelock_fn \<Rightarrow> assess_refusal + unit" where
  "assessSafeContext ctx account kind =
     (if \<not> sc_canonical ctx then Inl Not_canonical
      else case account of None \<Rightarrow> Inl No_account
      | Some a \<Rightarrow>
          if a = [] then Inl No_account
          else if \<not> list_ex (\<lambda>o'. lc o' = lc a) (sc_owners ctx) then Inl Not_an_owner
          else if kind = Schedule \<and> \<not> sc_hasProposerRole ctx then Inl No_proposer_role
          else if kind = Execute \<and> \<not> sc_hasExecutorRole ctx then Inl No_executor_role
          else Inr ())"

definition verifyDigestOnChain :: "SafeChainReader \<Rightarrow> SafeContext \<Rightarrow> SafeTxBuild \<Rightarrow> safe_error + unit" where
  "verifyDigestOnChain rd ctx build =
     (let m = message (typedData build)
      in res_bind (of_option Thrown (rd_transactionHash rd (sc_safe ctx)
             [JStr (m_to m), JBig 0, JStr (m_data m), JNum 0, JBig 0, JBig 0, JBig 0, JStr zero_address, JStr zero_address,
              JBig (int (read_nat (m_nonce m)))])) (\<lambda>onchain.
         ensure (lc onchain = lc (safeTxHash build)) (SafeProposalError DIGEST_MISMATCH onchain)))"

section \<open>The signature set\<close>

abbreviation owner_key :: "BundleSignature \<Rightarrow> string" where
  "owner_key s \<equiv> lc (sig_owner s)"

lemma set_sort_by_owner [simp]: "set (sort_by_owner ss) = set ss"
  by (simp add: sort_by_owner_def)

lemma length_sort_by_owner [simp]: "length (sort_by_owner ss) = length ss"
  by (simp add: sort_by_owner_def)

lemma sorted_sort_by_owner: "sorted (map owner_key (sort_by_owner ss))"
  by (simp add: sort_by_owner_def)

lemma distinct_sort_by_owner [simp]: "distinct (map owner_key (sort_by_owner ss)) \<longleftrightarrow> distinct (map owner_key ss)"
proof -
  have "mset (map owner_key (sort_by_owner ss)) = mset (map owner_key ss)"
    by (simp add: sort_by_owner_def)
  then show ?thesis by (metis mset_eq_imp_distinct_iff)
qed

interpretation sigset: keyed_store owner_key addSignature
proof
  fix xs x
  show "set (addSignature xs x) = {y \<in> set xs. owner_key y \<noteq> owner_key x} \<union> {x}"
    by (auto simp: addSignature_def)
  show "sorted (map owner_key (addSignature xs x))"
    by (simp add: addSignature_def sorted_sort_by_owner)
  show "distinct (map owner_key (addSignature xs x))" if "distinct (map owner_key xs)"
    using that by (auto simp: addSignature_def distinct_map_filter)
qed

text \<open>
  The signature list is a set keyed by owner: adding keeps it strictly ascending by owner with one
  entry per owner, replaces only the same owner's entry, keeps every other, and the order in which the
  owners' signatures arrive does not matter.
\<close>

theorem addSignature_set:
  assumes "distinct (map owner_key ss)"
  shows "sorted (map owner_key (addSignature ss a)) \<and> distinct (map owner_key (addSignature ss a))
    \<and> set (addSignature ss a) = {s \<in> set ss. owner_key s \<noteq> owner_key a} \<union> {a}
    \<and> addSignature (addSignature ss a) a = addSignature ss a
    \<and> (owner_key a \<noteq> owner_key b \<longrightarrow> addSignature (addSignature ss a) b = addSignature (addSignature ss b) a)"
  using sigset.add_sorted sigset.add_distinct [OF assms] sigset.add_set sigset.add_again [OF assms]
    sigset.add_commute [OF assms] by auto

section \<open>Building\<close>

lemma check_input_ok:
  assumes "check_input V i = Inr chain"
  shows "in_chainId i = NInt chain" and "0 < chain" and "0 \<le> in_nonce i" and "same_address (in_to i) (in_timelock i)"
    and "isAddressStrict V (in_safe i)" and "isAddressStrict V (in_timelock i)" and "isAddressStrict V (in_to i)"
    and "isHex V (in_data i)" and "(int (length (in_data i)) - 2) mod 2 = 0"
    and "in_operation i \<in> {None, Some (NInt 0)}" and "in_value i \<in> {None, Some 0}"
    and "in_safeTxGas i \<in> {None, Some 0}" and "in_baseGas i \<in> {None, Some 0}" and "in_gasPrice i \<in> {None, Some 0}"
    and "zero_address_or_absent (in_gasToken i)" and "zero_address_or_absent (in_refundReceiver i)"
  using assms by (simp_all add: check_input_def zero_or_absent_def split: jsnum.splits if_splits)

lemma timelockFunctionOf_ok:
  "timelockFunctionOf V d = Inr fn \<longleftrightarrow>
     (\<exists>args. decodeCall V d = Some (case fn of Schedule \<Rightarrow> ''schedule'' | Execute \<Rightarrow> ''execute'', args))"
  by (cases fn) (auto simp: timelockFunctionOf_def split: option.splits if_splits)

lemma buildSafeTx_parts:
  assumes "buildSafeTx V i = Inr built"
  shows "\<exists>chain safe to v. check_input V i = Inr chain \<and> timelockFunctionOf V (in_data i) = Inr (timelockFunction built)
    \<and> getAddress V (in_safe i) = Some safe \<and> getAddress V (in_to i) = Some to
    \<and> typedData built
        = \<lparr>domain_chainId = chain, verifyingContract = safe, message = zero_message to (in_data i) (in_nonce i)\<rparr>
    \<and> hashTypedData V (hash_input chain safe to (in_data i) (in_nonce i)) = Some v \<and> lc (safeTxHash built) = lc v"
  using assms by (auto simp: buildSafeTx_def Let_def)

text \<open>
  C32. What can be proposed. A transaction that \<open>buildSafeTx\<close> accepts is a plain call to the timelock itself,
  its data decodes as \<open>schedule\<close> or \<open>execute\<close> (which of the two is recorded), it carries no value, no
  delegatecall, no gas or refund terms whatever the caller passed, on a positive integral chain id and a nonnegative nonce; and the
  digest put together field by field equals the EIP-712 digest of the very document shown to the signer.
\<close>

theorem buildSafeTx_policy:
  assumes "buildSafeTx V i = Inr built"
  shows "same_address (in_to i) (in_timelock i) \<and> 0 \<le> in_nonce i
    \<and> in_operation i \<in> {None, Some (NInt 0)} \<and> in_value i \<in> {None, Some 0}
    \<and> (\<exists>args. decodeCall V (in_data i)
          = Some (case timelockFunction built of Schedule \<Rightarrow> ''schedule'' | Execute \<Rightarrow> ''execute'', args))
    \<and> (\<exists>chain safe to v. in_chainId i = NInt chain \<and> 0 < chain \<and> getAddress V (in_safe i) = Some safe
         \<and> getAddress V (in_to i) = Some to
         \<and> typedData built
             = \<lparr>domain_chainId = chain, verifyingContract = safe, message = zero_message to (in_data i) (in_nonce i)\<rparr>
         \<and> hashTypedData V (hash_input chain safe to (in_data i) (in_nonce i)) = Some v
         \<and> lc (safeTxHash built) = lc v)"
proof -
  obtain chain safe to v where p: "check_input V i = Inr chain"
      "timelockFunctionOf V (in_data i) = Inr (timelockFunction built)"
      "getAddress V (in_safe i) = Some safe" "getAddress V (in_to i) = Some to"
      "typedData built = \<lparr>domain_chainId = chain, verifyingContract = safe, message = zero_message to (in_data i) (in_nonce i)\<rparr>"
      "hashTypedData V (hash_input chain safe to (in_data i) (in_nonce i)) = Some v" "lc (safeTxHash built) = lc v"
    using buildSafeTx_parts [OF assms] by blast
  with check_input_ok [OF p(1)] p(2) [unfolded timelockFunctionOf_ok] show ?thesis by blast
qed

section \<open>From a built transaction to a verified bundle\<close>

text \<open>Documented behaviour of viem's address functions: an address is \<open>0x\<close> and forty hex digits, the strict test
  accepts only addresses and accepts every checksummed one.\<close>

definition strict_address_laws :: "safe_viem \<Rightarrow> bool" where
  "strict_address_laws V \<longleftrightarrow> address_laws V \<and> (\<forall>a. isAddress V a \<longrightarrow> hex_of_len 40 a)
     \<and> (\<forall>a. isAddressStrict V a \<longrightarrow> isAddress V a) \<and> (\<forall>a. isAddress V a \<longrightarrow> isAddressStrict V (checksum V a))"

lemma getAddress_stable:
  assumes "strict_address_laws V" and "getAddress V a = Some b"
  shows "getAddress V b = Some b" and "isAddressStrict V b" and "lc b = lc a" and "b \<noteq> []"
proof -
  have laws: "address_laws V" and a: "isAddress V a" "b = checksum V a"
    using assms by (auto simp: strict_address_laws_def getAddress_def split: if_splits)
  show "lc b = lc a" using checksum_lc [OF laws a(1)] a(2) by simp
  show "isAddressStrict V b" using assms(1) a by (simp add: strict_address_laws_def)
  have "isAddress V b" using checksum_address [OF laws a(1)] a(2) by simp
  then show "getAddress V b = Some b" using checksum_idem [OF laws a(1)] a(2) by (simp add: getAddress_def)
  have "hex_of_len 40 b" using assms(1) \<open>isAddress V b\<close> by (simp add: strict_address_laws_def)
  then show "b \<noteq> []" by (auto simp: hex_of_len_def)
qed

text \<open>The arguments the proposal page passes to \<open>newBundle\<close> for a transaction it has built.\<close>

definition bundled :: "NewBundleInput \<Rightarrow> BuildSafeTxInput \<Rightarrow> SafeTxBuild \<Rightarrow> bool" where
  "bundled nb i built \<longleftrightarrow> in_chainId i = NInt (nb_chainId nb) \<and> nb_safe nb = in_safe i \<and> nb_timelock nb = in_timelock i
     \<and> nb_to nb = in_to i \<and> nb_data nb = in_data i \<and> nb_nonce nb = in_nonce i \<and> nb_safeTxHash nb = safeTxHash built"

lemma rebuild:
  assumes laws: "strict_address_laws V" and built: "buildSafeTx V i = Inr built"
    and same: "getAddress V (in_safe i) = Some (in_safe j)" "getAddress V (in_timelock i) = Some (in_timelock j)"
      "getAddress V (in_to i) = Some (in_to j)" "in_chainId j = in_chainId i" "in_data j = in_data i" "in_nonce j = in_nonce i"
    and zero: "in_value j = None" "in_operation j = None" "in_safeTxGas j = None" "in_baseGas j = None"
      "in_gasPrice j = None" "in_gasToken j = None" "in_refundReceiver j = None"
  shows "buildSafeTx V j = Inr built"
proof -
  obtain chain where c: "check_input V i = Inr chain" using buildSafeTx_parts [OF built] by blast
  note st = getAddress_stable [OF laws same(1)] getAddress_stable [OF laws same(2)] getAddress_stable [OF laws same(3)]
  have "same_address (in_to j) (in_timelock j)" using check_input_ok(4) [OF c] st by (simp add: same_address_def)
  then have "check_input V j = Inr chain"
    using check_input_ok [OF c] st same zero by (simp add: check_input_def zero_or_absent_def zero_address_or_absent_def)
  with c built st same show ?thesis by (simp add: buildSafeTx_def)
qed

text \<open>
  A fresh bundle verifies. The bundle made from a built transaction passes \<open>verifyBundleFields\<close>, and what it
  rebuilds from its own fields is the very same transaction, digest and displayed document included.
\<close>

theorem newBundle_verifies:
  assumes laws: "strict_address_laws V" and built: "buildSafeTx V i = Inr built"
    and args: "bundled nb i built" and new: "newBundle V nb = Inr b"
  shows "verifyBundleFields V b = Inr built \<and> signatures b = [] \<and> threshold b = NInt (nb_threshold nb)"
proof -
  obtain s lock t os where g: "getAddress V (in_safe i) = Some s" "getAddress V (in_timelock i) = Some lock"
      "getAddress V (in_to i) = Some t"
      and b: "b = \<lparr>format = BUNDLE_FORMAT, chain_id = NInt (nb_chainId nb), safe = s, safe_version = SAFE_VERSION,
          timelock = Some lock, action = nb_action nb, description = nb_description nb, to = t, bundle_value = ''0'',
          data = nb_data nb, operation = 0, safe_tx_gas = ''0'', base_gas = ''0'', gas_price = ''0'',
          gas_token = zero_address, refund_receiver = zero_address, nonce = NInt (nb_nonce nb),
          safe_tx_hash = nb_safeTxHash nb, timelock_operation_id = Some (nb_operationId nb),
          timelock_min_delay = Some (show_int (nb_minDelay nb)), threshold = NInt (nb_threshold nb), owners = os,
          signatures = [], proposed_at = nb_proposedAt nb\<rparr>"
    using new args by (auto simp: newBundle_def bundled_def)
  have "buildSafeTx V (bundle_input b lock (nb_nonce nb)) = Inr built"
    by (rule rebuild [OF laws built]) (use g args b in \<open>simp_all add: bundle_input_def bundled_def\<close>)
  then show ?thesis using b args getAddress_stable(4) [OF laws g(2)]
    by (simp add: verifyBundleFields_def to_bigint_def bundled_def)
qed

text \<open>
  A bundle that verifies has not been altered: its digest is the EIP-712 digest of its own chain, Safe,
  target, calldata and nonce with every other field zero, its target is its own timelock and its calldata
  a \<open>schedule\<close> or an \<open>execute\<close>.
\<close>

theorem verifyBundleFields_sound:
  assumes "verifyBundleFields V b = Inr built"
  shows "lc (safeTxHash built) = lc (safe_tx_hash b) \<and> bundle_value b = ''0'' \<and> operation b = 0
    \<and> safe_tx_gas b = ''0'' \<and> base_gas b = ''0'' \<and> gas_price b = ''0''
    \<and> lc (gas_token b) = zero_address \<and> lc (refund_receiver b) = zero_address
    \<and> (\<exists>lock chain n sf t v fn args. timelock b = Some lock \<and> same_address (to b) lock \<and> chain_id b = NInt chain \<and> nonce b = NInt n
        \<and> getAddress V (safe b) = Some sf \<and> getAddress V (to b) = Some t
        \<and> hashTypedData V (hash_input chain sf t (data b) n) = Some v \<and> lc (safe_tx_hash b) = lc v
        \<and> decodeCall V (data b) = Some (fn, args) \<and> fn \<in> {''schedule'', ''execute''})"
proof -
  obtain lock n where f: "timelock b = Some lock" "nonce b = NInt n" "buildSafeTx V (bundle_input b lock n) = Inr built"
      "bundle_value b = ''0''" "operation b = 0" "safe_tx_gas b = ''0''" "base_gas b = ''0''" "gas_price b = ''0''"
      "same_address (gas_token b) zero_address" "same_address (refund_receiver b) zero_address"
      "lc (safeTxHash built) = lc (safe_tx_hash b)"
    using assms by (auto simp: verifyBundleFields_def to_bigint_def split: option.splits if_splits jsnum.splits)
  obtain chain sf t v where p: "check_input V (bundle_input b lock n) = Inr chain"
      "timelockFunctionOf V (data b) = Inr (timelockFunction built)"
      "getAddress V (safe b) = Some sf" "getAddress V (to b) = Some t"
      "hashTypedData V (hash_input chain sf t (data b) n) = Some v" "lc (safeTxHash built) = lc v"
    using buildSafeTx_parts [OF f(3)] by (auto simp: bundle_input_def)
  have "chain_id b = NInt chain" "same_address (to b) lock"
    using check_input_ok(1,4) [OF p(1)] by (simp_all add: bundle_input_def)
  moreover obtain fn args where "decodeCall V (data b) = Some (fn, args)" "fn \<in> {''schedule'', ''execute''}"
    using p(2) unfolding timelockFunctionOf_ok by (auto split: timelock_fn.splits)
  moreover have "lc zero_address = zero_address" by code_simp
  ultimately show ?thesis using f p by (auto simp: same_address_def)
qed

section \<open>Export and import of a bundle\<close>

definition good_address :: "safe_viem \<Rightarrow> string \<Rightarrow> bool" where
  "good_address V a \<longleftrightarrow> isAddressStrict V a \<and> getAddress V a = Some a"

definition wf_bundle :: "safe_viem \<Rightarrow> SafeTxBundle \<Rightarrow> bool" where
  "wf_bundle V b \<longleftrightarrow> format b = BUNDLE_FORMAT \<and> operation b = 0
     \<and> bundle_value b = ''0'' \<and> safe_tx_gas b = ''0'' \<and> base_gas b = ''0'' \<and> gas_price b = ''0''
     \<and> list_all (good_address V) (safe b # to b # gas_token b # refund_receiver b # owners b)
     \<and> (case timelock b of None \<Rightarrow> True | Some a \<Rightarrow> good_address V a)
     \<and> (case timelock_operation_id b of None \<Rightarrow> True | Some h \<Rightarrow> isHex V h)
     \<and> isHex V (data b) \<and> isHex V (safe_tx_hash b)
     \<and> list_all (\<lambda>s. good_address V (sig_owner s) \<and> isHex V (signature s)) (signatures b)"

lemma bundle_js_get:
  "is_record (bundle_js b)"
  "jget (bundle_js b) ''format'' = JStr (format b)" "jget (bundle_js b) ''chain_id'' = num_js (chain_id b)"
  "jget (bundle_js b) ''safe'' = JStr (safe b)" "jget (bundle_js b) ''safe_version'' = JStr (safe_version b)"
  "jget (bundle_js b) ''timelock'' = (case timelock b of None \<Rightarrow> JUndef | Some a \<Rightarrow> JStr a)"
  "jget (bundle_js b) ''action'' = JStr (action b)" "jget (bundle_js b) ''description'' = JStr (description b)"
  "jget (bundle_js b) ''to'' = JStr (to b)" "jget (bundle_js b) ''value'' = JStr (bundle_value b)"
  "jget (bundle_js b) ''data'' = JStr (data b)" "jget (bundle_js b) ''operation'' = JNum (operation b)"
  "jget (bundle_js b) ''safe_tx_gas'' = JStr (safe_tx_gas b)" "jget (bundle_js b) ''base_gas'' = JStr (base_gas b)"
  "jget (bundle_js b) ''gas_price'' = JStr (gas_price b)" "jget (bundle_js b) ''gas_token'' = JStr (gas_token b)"
  "jget (bundle_js b) ''refund_receiver'' = JStr (refund_receiver b)" "jget (bundle_js b) ''nonce'' = num_js (nonce b)"
  "jget (bundle_js b) ''safe_tx_hash'' = JStr (safe_tx_hash b)"
  "jget (bundle_js b) ''timelock_operation_id'' = (case timelock_operation_id b of None \<Rightarrow> JUndef | Some a \<Rightarrow> JStr a)"
  "jget (bundle_js b) ''timelock_min_delay'' = (case timelock_min_delay b of None \<Rightarrow> JUndef | Some a \<Rightarrow> JStr a)"
  "jget (bundle_js b) ''threshold'' = num_js (threshold b)" "jget (bundle_js b) ''owners'' = JArr (map JStr (owners b))"
  "jget (bundle_js b) ''signatures'' = JArr (map sig_js (signatures b))"
  "jget (bundle_js b) ''proposed_at'' = JStr (proposed_at b)"
  by (simp_all add: bundle_js_def is_record_def jget_def entries_def opt_field_def split: option.splits)

lemma addr_field_good: "good_address V a \<Longrightarrow> addr_field V (JStr a) name = Inr a"
  by (simp add: addr_field_def good_address_def)

lemma num_field_js [simp]: "num_field (num_js n) = Inr n"
  by (cases n) (simp_all add: num_field_def num_js_def)

lemma parse_signature_js:
  "good_address V (sig_owner s) \<and> isHex V (signature s) \<Longrightarrow> parse_signature V (sig_js s) = Inr s"
  by (simp add: parse_signature_def sig_js_def is_record_def jget_def entries_def addr_field_good hex_field_def)

lemma map_res_read:
  "\<forall>x \<in> set xs. f (g x) = Inr x \<Longrightarrow> map_res f (map g xs) = Inr xs"
  by (induction xs) auto

text \<open>
  C35. Nothing is lost between machines: a bundle of checksummed addresses and hex fields that is exported and
  read back is the same bundle, given that the JSON reader reads back what the JSON writer printed for it.
\<close>

theorem parse_exportBundle:
  assumes json: "json_parse V (jsonPretty V (bundle_js b) @ [CHR 0x0A]) = Some (bundle_js b)" and wf: "wf_bundle V b"
  shows "parseBundle V (exportBundle V b) = Inr b"
proof -
  have sigs: "map_res (parse_signature V) (map sig_js (signatures b)) = Inr (signatures b)"
    using wf by (intro map_res_read) (auto simp: wf_bundle_def list_all_iff parse_signature_js)
  have os: "map_res (\<lambda>o'. addr_field V o' ''owners[]'') (map JStr (owners b)) = Inr (owners b)"
    using wf by (intro map_res_read) (auto simp: wf_bundle_def list_all_iff addr_field_good)
  have opts: "opt_read (addr_field V) (case timelock b of None \<Rightarrow> JUndef | Some a \<Rightarrow> JStr a) n = Inr (timelock b)"
      "opt_read (hex_field V) (case timelock_operation_id b of None \<Rightarrow> JUndef | Some a \<Rightarrow> JStr a) n = Inr (timelock_operation_id b)"
      "opt_read str_field (case timelock_min_delay b of None \<Rightarrow> JUndef | Some a \<Rightarrow> JStr a) n = Inr (timelock_min_delay b)" for n
    using wf by (auto simp: wf_bundle_def opt_read_def addr_field_good hex_field_def str_field_def split: option.splits)
  have "good_address V (safe b)" "good_address V (to b)" "good_address V (gas_token b)" "good_address V (refund_receiver b)"
    "isHex V (data b)" "isHex V (safe_tx_hash b)" "format b = BUNDLE_FORMAT" "operation b = 0" "bundle_value b = ''0''"
    "safe_tx_gas b = ''0''" "base_gas b = ''0''" "gas_price b = ''0''"
    using wf by (simp_all add: wf_bundle_def)
  then show ?thesis
    by (simp add: parseBundle_def exportBundle_def json bundle_js_get sigs os opts addr_field_good
        arr_field_def hex_field_def str_field_def zero_field_def)
qed

section \<open>On-chain context\<close>

lemma list_all2_in_set2: "list_all2 P xs ys \<Longrightarrow> y \<in> set ys \<Longrightarrow> \<exists>x \<in> set xs. P x y"
  by (induction rule: list_all2_induct) auto

lemma has_code_iff: "has_code c \<longleftrightarrow> (\<exists>bytes. c = Some bytes \<and> bytes \<noteq> [] \<and> bytes \<noteq> ''0x'')"
  by (cases c) (auto simp: has_code_def)

lemma loadSafeContext_reads:
  assumes "loadSafeContext V rd s t = Inr ctx"
  obtains bytes os where "rd_getCode rd (sc_safe ctx) = Some (Some bytes)" and "sc_codehash ctx = keccak_hex V bytes"
    and "sc_canonical ctx = isCanonicalSafe (sc_version ctx) (sc_codehash ctx) (sc_singleton ctx)"
    and "sc_version ctx = (case rd_version rd (sc_safe ctx) of None \<Rightarrow> [] | Some v \<Rightarrow> v)"
    and "rd_owners rd (sc_safe ctx) = Some os" and "list_all2 (\<lambda>x y. getAddress V x = Some y) os (sc_owners ctx)"
    and "rd_hasRole rd (sc_timelock ctx) (PROPOSER_ROLE V) (sc_safe ctx) = Some (sc_hasProposerRole ctx)"
    and "sc_hasExecutorRole ctx \<longrightarrow> rd_hasRole rd (sc_timelock ctx) (EXECUTOR_ROLE V) (sc_safe ctx) = Some True
           \<or> rd_hasRole rd (sc_timelock ctx) (EXECUTOR_ROLE V) zero_address = Some True"
  using assms unfolding loadSafeContext_def Let_def res_bind_Inr of_option_Inr ensure_Inr has_code_iff map_res_Inr sum.inject
  by (elim exE conjE, hypsubst) (rule that; simp)

text \<open>
  Who is asked to sign. When the loaded context is assessed as fit, the Safe has code whose hash is the pinned
  1.4.1 proxy's and reports that version, the connected account is among the owners the chain
  reports, and the timelock grants the Safe the role for the call: proposer for \<open>schedule\<close>, executor (its
  own or open) for \<open>execute\<close>.
\<close>

theorem safe_context_sound:
  assumes load: "loadSafeContext V rd s t = Inr ctx" and fit: "assessSafeContext ctx account kind = Inr ()"
    and laws: "address_laws V"
  shows "rd_version rd (sc_safe ctx) = Some SAFE_VERSION
    \<and> (\<exists>bytes. rd_getCode rd (sc_safe ctx) = Some (Some bytes) \<and> lc (keccak_hex V bytes) = lc SAFE_L2_141_proxyCodehash)
    \<and> lc (sc_singleton ctx) = lc SAFE_L2_141_singletonL2
    \<and> (\<exists>a os. account = Some a \<and> rd_owners rd (sc_safe ctx) = Some os \<and> lc a \<in> lc ` set os)
    \<and> (kind = Schedule \<longrightarrow> rd_hasRole rd (sc_timelock ctx) (PROPOSER_ROLE V) (sc_safe ctx) = Some True)
    \<and> (kind = Execute \<longrightarrow> rd_hasRole rd (sc_timelock ctx) (EXECUTOR_ROLE V) (sc_safe ctx) = Some True
        \<or> rd_hasRole rd (sc_timelock ctx) (EXECUTOR_ROLE V) zero_address = Some True)"
proof -
  obtain bytes os where reads: "rd_getCode rd (sc_safe ctx) = Some (Some bytes)" "sc_codehash ctx = keccak_hex V bytes"
      "sc_canonical ctx = isCanonicalSafe (sc_version ctx) (sc_codehash ctx) (sc_singleton ctx)"
      "sc_version ctx = (case rd_version rd (sc_safe ctx) of None \<Rightarrow> [] | Some v \<Rightarrow> v)"
      "rd_owners rd (sc_safe ctx) = Some os" "list_all2 (\<lambda>x y. getAddress V x = Some y) os (sc_owners ctx)"
      "rd_hasRole rd (sc_timelock ctx) (PROPOSER_ROLE V) (sc_safe ctx) = Some (sc_hasProposerRole ctx)"
      "sc_hasExecutorRole ctx \<longrightarrow> rd_hasRole rd (sc_timelock ctx) (EXECUTOR_ROLE V) (sc_safe ctx) = Some True
           \<or> rd_hasRole rd (sc_timelock ctx) (EXECUTOR_ROLE V) zero_address = Some True"
    by (rule loadSafeContext_reads [OF load])
  obtain a where f: "sc_canonical ctx" "account = Some a" "list_ex (\<lambda>o'. lc o' = lc a) (sc_owners ctx)"
      "kind = Schedule \<longrightarrow> sc_hasProposerRole ctx" "kind = Execute \<longrightarrow> sc_hasExecutorRole ctx"
    using fit by (auto simp: assessSafeContext_def split: option.splits if_splits)
  have canon: "sc_version ctx = SAFE_VERSION" "lc (sc_codehash ctx) = lc SAFE_L2_141_proxyCodehash"
      "lc (sc_singleton ctx) = lc SAFE_L2_141_singletonL2"
    using f(1) reads(3) by (simp_all add: isCanonicalSafe_def)
  have version: "rd_version rd (sc_safe ctx) = Some SAFE_VERSION"
    using reads(4) canon(1) by (auto simp: SAFE_VERSION_def split: option.splits)
  obtain y where y: "y \<in> set (sc_owners ctx)" "lc y = lc a" using f(3) by (auto simp: list_ex_iff)
  obtain x where x: "x \<in> set os" "getAddress V x = Some y"
    using list_all2_in_set2 [OF reads(6) y(1)] by blast
  then have "lc x = lc a" using y(2) checksum_lc [OF laws] by (auto simp: getAddress_def split: if_splits)
  then have "lc a \<in> lc ` set os" using x(1) by (metis imageI)
  then show ?thesis using reads(1,2,5,7,8) canon f version by (intro conjI) auto
qed

section \<open>Normal signatures\<close>

lemma toSafeSignature_ok:
  "toSafeSignature s = Inr t \<Longrightarrow> hex_of_len 130 s \<and> take 130 t = take 130 s \<and> (drop 130 t = ''1b'' \<or> drop 130 t = ''1c'')
     \<and> hex_of_len 130 t"
proof -
  assume ok: "toSafeSignature s = Inr t"
  then have h: "hex_of_len 130 s" by (auto simp: toSafeSignature_def Let_def split: if_splits)
  then obtain r where r: "s = ''0x'' @ r" "list_all is_hex_char r" "length r = 130"
    using hex_prefixed_shape [of s] by (auto simp: hex_of_len_def)
  obtain v where t: "t = ''0x'' @ take 128 r @ v" "v = ''1b'' \<or> v = ''1c''"
    using ok r(1) by (auto simp: toSafeSignature_def Let_def split: if_splits)
  have "is_hex_char (CHR ''1'')" "is_hex_char (CHR ''b'')" "is_hex_char (CHR ''c'')" by code_simp+
  then have "list_all is_hex_char v" using t(2) by auto
  moreover have "list_all is_hex_char (take 128 r)" using r(2) by (auto simp: list_all_iff dest: in_set_takeD)
  ultimately show ?thesis using h r t by (auto simp: hex_of_len_def hex_prefixed_def)
qed

lemma toSafeSignature_idem:
  assumes "toSafeSignature s = Inr t"
  shows "toSafeSignature t = Inr t"
proof -
  have h: "hex_of_len 130 t" and v: "drop 130 t = ''1b'' \<or> drop 130 t = ''1c''"
    using toSafeSignature_ok [OF assms] by auto
  have "take 2 t = ''0x''" using h by (simp add: hex_of_len_def hex_prefixed_def)
  moreover have "take 128 (drop 2 t) @ drop 130 t = drop 2 t"
    using append_take_drop_id [of 128 "drop 2 t"] by (simp add: add.commute)
  ultimately have t: "''0x'' @ take 128 (drop 2 t) @ drop 130 t = t" using append_take_drop_id [of 2 t] by simp
  have w: "take 2 (drop 130 t) = drop 130 t" using h by (simp add: hex_of_len_def)
  have "read_hex ''1b'' = 27" "read_hex ''1c'' = 28" by code_simp+
  with h v t show ?thesis unfolding toSafeSignature_def Let_def w by auto
qed

section \<open>Packing and executing\<close>

lemma signed_twice_None:
  "sorted (map owner_key ss) \<Longrightarrow> signed_twice ss = None \<longleftrightarrow> distinct (map owner_key ss)"
proof (induction ss rule: signed_twice.induct)
  case (1 a b ss)
  have srt: "sorted (map owner_key (b # ss))" "\<forall>s \<in> set (b # ss). owner_key a \<le> owner_key s" using 1(2) by auto
  show ?case
  proof (cases "owner_key a = owner_key b")
    case True
    then show ?thesis by (simp add: same_address_def)
  next
    case False
    have "owner_key a \<notin> owner_key ` set (b # ss)"
    proof
      assume "owner_key a \<in> owner_key ` set (b # ss)"
      then obtain s where s: "s \<in> set (b # ss)" "owner_key a = owner_key s" by auto
      have "owner_key b \<le> owner_key s" using srt(1) s(1) by auto
      with s srt(2) False show False by (metis antisym list.set_intros(1))
    qed
    with False 1 srt show ?thesis by (simp add: same_address_def)
  qed
qed simp_all

lemma packSignatures_ok:
  "packSignatures ss = Inr p \<longleftrightarrow> distinct (map owner_key ss) \<and>
     (\<exists>ts. list_all2 (\<lambda>s t. toSafeSignature (signature s) = Inr t) (sort_by_owner ss) ts
        \<and> p = ''0x'' @ concat (map (drop 2) ts))"
proof -
  have "signed_twice (sort_by_owner ss) = None \<longleftrightarrow> distinct (map owner_key ss)"
    using signed_twice_None [OF sorted_sort_by_owner] by simp
  then show ?thesis
    by (auto simp: packSignatures_def Let_def map_res_Inr split: option.splits)
qed

lemma length_packed:
  assumes "list_all2 (\<lambda>s t. toSafeSignature (signature s) = Inr t) ss ts"
  shows "length (concat (map (drop 2) ts)) = 130 * length ss"
  using assms
proof (induction rule: list_all2_induct)
  case (Cons s ss t ts)
  then have "length t = 132" using toSafeSignature_ok [of "signature s" t] by (simp add: hex_of_len_def)
  with Cons show ?case by simp
qed simp

text \<open>
  C0. What the Safe is sent. \<open>execTransactionArgs\<close> gives the call to the bundle's target with its data, zero value,
  plain CALL and zero gas and refund fields, and a signature string made of exactly \<open>threshold\<close>
  65-byte signatures of the bundle, in strictly ascending order of owner; with fewer signatures, or two by
  one owner among those used, there is no call.
\<close>

theorem execTransactionArgs_exact:
  assumes "threshold b = NInt (int n)" and "execTransactionArgs b = Inr as"
  shows "\<exists>used ts packed. used = take n (sort_by_owner (signatures b)) \<and> length used = n
    \<and> sorted (map owner_key used) \<and> distinct (map owner_key used) \<and> set used \<subseteq> set (signatures b)
    \<and> list_all2 (\<lambda>s t. toSafeSignature (signature s) = Inr t) used ts
    \<and> packed = ''0x'' @ concat (map (drop 2) ts) \<and> length packed = 2 + 130 * n
    \<and> as = [JStr (to b), JBig 0, JStr (data b), JNum 0, JBig 0, JBig 0, JBig 0, JStr zero_address, JStr zero_address, JStr packed]"
proof -
  define used where "used = take n (sort_by_owner (signatures b))"
  have len: "length used = n" and pack: "\<exists>packed. packSignatures used = Inr packed
      \<and> as = [JStr (to b), JBig 0, JStr (data b), JNum 0, JBig 0, JBig 0, JBig 0, JStr zero_address, JStr zero_address, JStr packed]"
    using assms by (auto simp: execTransactionArgs_def below_def slice_to_def Let_def used_def split: if_splits)
  have srt: "sorted (map owner_key used)"
    using sorted_sort_by_owner [of "signatures b"] by (simp add: used_def take_map [symmetric] sorted_wrt_take)
  then have "sort_by_owner used = used" by (simp add: sort_by_owner_def sorted_sort_id sort_key_id_if_sorted)
  with pack obtain ts packed where ts: "distinct (map owner_key used)"
      "list_all2 (\<lambda>s t. toSafeSignature (signature s) = Inr t) used ts" "packed = ''0x'' @ concat (map (drop 2) ts)"
      "as = [JStr (to b), JBig 0, JStr (data b), JNum 0, JBig 0, JBig 0, JBig 0, JStr zero_address, JStr zero_address, JStr packed]"
    by (auto simp: packSignatures_ok)
  moreover have "length packed = 2 + 130 * n" using length_packed [OF ts(2)] len ts(3) by simp
  moreover have "set used \<subseteq> set (signatures b)" by (auto simp: used_def dest: in_set_takeD)
  ultimately show ?thesis using used_def len srt by blast
qed

section \<open>Imported signatures\<close>

text \<open>\<open>s\<close> is a normal signature over \<open>hash\<close> by an owner of the bundle.\<close>

definition owner_signed :: "safe_viem \<Rightarrow> SafeTxBundle \<Rightarrow> BundleSignature \<Rightarrow> bool" where
  "owner_signed V b s \<longleftrightarrow> toSafeSignature (signature s) = Inr (signature s)
     \<and> (\<exists>r. recoverAddress V (safe_tx_hash b) (signature s) = Some r \<and> getAddress V r = Some (sig_owner s)
          \<and> lc r \<in> lc ` set (owners b))"

lemma import_entry_ok:
  assumes "import_entry V b e ss = Inr ss'"
  shows "\<exists>s. ss' = addSignature ss s \<and> owner_signed V b s"
proof -
  obtain raw norm rec o' where r: "toSafeSignature raw = Inr norm" "recoverSigner V (safe_tx_hash b) norm = Inr rec"
      "list_ex (\<lambda>x. same_address x rec) (owners b)" "getAddress V rec = Some o'"
      "ss' = addSignature ss \<lparr>sig_owner = o', signature = norm\<rparr>"
    using assms by (auto simp: import_entry_def Let_def)
  have "toSafeSignature norm = Inr norm" using toSafeSignature_idem [OF r(1)] .
  moreover from this r(2) have "recoverAddress V (safe_tx_hash b) norm = Some rec" by (simp add: recoverSigner_def)
  ultimately have "owner_signed V b \<lparr>sig_owner = o', signature = norm\<rparr>"
    using r(3,4) by (auto simp: owner_signed_def list_ex_iff same_address_def image_iff intro: sym)
  with r(5) show ?thesis by blast
qed

lemma import_entries_ok:
  assumes "import_entries V b es ss = Inr ss'" and "distinct (map owner_key ss)" and "sorted (map owner_key ss)"
  shows "sorted (map owner_key ss') \<and> distinct (map owner_key ss')
    \<and> (\<forall>s \<in> set ss'. s \<in> set ss \<or> owner_signed V b s) \<and> owner_key ` set ss \<subseteq> owner_key ` set ss'"
  using assms
proof (induction es arbitrary: ss)
  case (Cons e es)
  then obtain mid where mid: "import_entry V b e ss = Inr mid" "import_entries V b es mid = Inr ss'" by auto
  from import_entry_ok [OF mid(1)] obtain s where s: "mid = addSignature ss s" "owner_signed V b s" by blast
  have wf: "distinct (map owner_key mid)" "sorted (map owner_key mid)"
    using s(1) sigset.add_distinct [OF Cons.prems(2)] sigset.add_sorted by auto
  note ih = Cons.IH [OF mid(2) wf]
  have in_mid: "set mid = {y \<in> set ss. owner_key y \<noteq> owner_key s} \<union> {s}" using sigset.add_set [of ss s] s(1) by simp
  then have "owner_key ` set ss \<subseteq> owner_key ` set mid" by (auto simp: image_iff)
  then have "owner_key ` set ss \<subseteq> owner_key ` set ss'" using ih by (meson subset_trans)
  moreover have "\<forall>x \<in> set ss'. x \<in> set ss \<or> owner_signed V b x"
    using ih in_mid s(2) by blast
  ultimately show ?case using ih by blast
qed simp

text \<open>
  C34. Importing signatures can only add owners' signatures over this transaction: when it succeeds the
  bundle differs in its signatures alone, the list stays strictly ascending with one entry per owner, no
  owner who had signed is lost, and every new entry is a normal signature that recovers, over this
  bundle's hash, to one of the bundle's owners.
\<close>

theorem importSignatures_sound:
  assumes "importSignatures V b src = Inr b'"
    and "distinct (map owner_key (signatures b))" and "sorted (map owner_key (signatures b))"
  shows "b' = b\<lparr>signatures := signatures b'\<rparr>
    \<and> sorted (map owner_key (signatures b')) \<and> distinct (map owner_key (signatures b'))
    \<and> owner_key ` set (signatures b) \<subseteq> owner_key ` set (signatures b')
    \<and> (\<forall>s \<in> set (signatures b'). s \<in> set (signatures b) \<or> owner_signed V b s)"
proof -
  obtain es sigs where "import_entries V b es (signatures b) = Inr sigs" "b' = b\<lparr>signatures := sigs\<rparr>"
    using assms(1) by (auto simp: importSignatures_def)
  with import_entries_ok [OF _ assms(2,3)] show ?thesis by auto
qed

section \<open>Concrete runs\<close>

definition sample_sig :: "string \<Rightarrow> string" where
  "sample_sig o' = ''0x'' @ pad_start 40 o' @ replicate 88 (CHR ''0'') @ ''1b''"

definition sample_keccak_safe :: "string \<Rightarrow> string" where
  "sample_keccak_safe s = (if s = ''0x6080'' then SAFE_L2_141_proxyCodehash else ''0x'' @ pad_start 64 (show_nat (length s)))"

definition sample_codec_safe :: safe_viem where
  "sample_codec_safe = \<lparr>isAddress = hex_of_len 40, checksum = lc, keccak_hex = sample_keccak_safe,
     encodeAbi = (\<lambda>ts vs. Some (''0x'' @ show_nat (length vs))), encodeCall = (\<lambda>fn args. Some (''0x'' @ fn)),
     decodeCall = (\<lambda>d. if take 10 d = ''0x01d5062a'' then Some (''schedule'', [])
                       else if take 10 d = ''0x134008d3'' then Some (''execute'', []) else None),
     selectorOf = (\<lambda>fn. None),
     isAddressStrict = (\<lambda>a. hex_of_len 40 a \<and> lc a = a), isHex = hex_prefixed,
     concatHex = (\<lambda>xs. ''0x'' @ concat (map (drop 2) xs)), utf8Hex = (\<lambda>s. ''0x'' @ s),
     hashTypedData = (\<lambda>_. Some (sample_keccak_safe (''0x'' @ replicate 132 (CHR ''0'')))),
     recoverAddress = (\<lambda>h s. Some (take 42 s)), jsonText = (\<lambda>_. ''{}''), jsonPretty = (\<lambda>_. ''{}''),
     json_parse = (\<lambda>_. None)\<rparr>"

lemma sample_codec_safe_laws: "strict_address_laws sample_codec_safe"
  by (simp add: strict_address_laws_def address_laws_def sample_codec_safe_def hex_of_len_lc)

definition sample_tx :: BuildSafeTxInput where
  "sample_tx = \<lparr>in_chainId = NInt 8453, in_safe = sample_addr ''aa'', in_timelock = sample_addr ''bb'',
     in_to = sample_addr ''bb'', in_data = ''0x01d5062a'', in_nonce = 7, in_value = Some 0, in_operation = Some (NInt 0),
     in_safeTxGas = None, in_baseGas = None, in_gasPrice = None, in_gasToken = None, in_refundReceiver = Some zero_address\<rparr>"

definition sample_built :: SafeTxBuild where
  "sample_built = projr (buildSafeTx sample_codec_safe sample_tx)"

lemma sample_tx_built: "buildSafeTx sample_codec_safe sample_tx = Inr sample_built"
proof -
  have "is_ok (buildSafeTx sample_codec_safe sample_tx)" by code_simp
  then show ?thesis by (auto simp: is_ok_iff sample_built_def)
qed

theorem buildSafeTx_policy_witness:
  "buildSafeTx sample_codec_safe sample_tx = Inr sample_built \<and> timelockFunction sample_built = Schedule
   \<and> (\<exists>args. decodeCall sample_codec_safe (in_data sample_tx) = Some (''schedule'', args))"
proof -
  have "timelockFunction sample_built = Schedule" by code_simp
  with buildSafeTx_policy [OF sample_tx_built] sample_tx_built show ?thesis by simp
qed

definition sample_new :: NewBundleInput where
  "sample_new = \<lparr>nb_chainId = 8453, nb_safe = sample_addr ''aa'', nb_timelock = sample_addr ''bb'', nb_to = sample_addr ''bb'',
     nb_data = ''0x01d5062a'', nb_nonce = 7, nb_safeTxHash = safeTxHash sample_built, nb_action = ''a'', nb_description = ''d'',
     nb_operationId = ''0x01'', nb_minDelay = 3600, nb_threshold = 2,
     nb_owners = [sample_addr ''01'', sample_addr ''02'', sample_addr ''03''], nb_proposedAt = ''t''\<rparr>"

definition sample_bundle :: SafeTxBundle where
  "sample_bundle = projr (newBundle sample_codec_safe sample_new)"

lemma sample_new_bundle: "newBundle sample_codec_safe sample_new = Inr sample_bundle"
proof -
  have "is_ok (newBundle sample_codec_safe sample_new)" by code_simp
  then show ?thesis by (auto simp: is_ok_iff sample_bundle_def)
qed

theorem newBundle_verifies_witness: "verifyBundleFields sample_codec_safe sample_bundle = Inr sample_built"
  using newBundle_verifies [OF sample_codec_safe_laws sample_tx_built _ sample_new_bundle]
  by (simp add: bundled_def sample_new_def sample_tx_def)

theorem verifyBundleFields_sound_witness:
  "is_ok (verifyBundleFields sample_codec_safe sample_bundle) \<and> operation sample_bundle = 0
   \<and> lc (refund_receiver sample_bundle) = zero_address"
proof -
  have ok: "is_ok (verifyBundleFields sample_codec_safe sample_bundle)" by code_simp
  then obtain b where "verifyBundleFields sample_codec_safe sample_bundle = Inr b" by (auto simp: is_ok_iff)
  from verifyBundleFields_sound [OF this] ok show ?thesis by simp
qed

definition sample_json :: "js \<Rightarrow> safe_viem" where
  "sample_json v = sample_codec_safe\<lparr>json_parse := \<lambda>_. Some v\<rparr>"

theorem parse_exportBundle_witness:
  "parseBundle (sample_json (bundle_js sample_bundle)) (exportBundle (sample_json (bundle_js sample_bundle)) sample_bundle)
     = Inr sample_bundle"
proof -
  have "wf_bundle (sample_json (bundle_js sample_bundle)) sample_bundle" by code_simp
  then show ?thesis by (intro parse_exportBundle) (simp_all add: sample_json_def)
qed

definition sample_reader :: SafeChainReader where
  "sample_reader = \<lparr>rd_chainId = Some 8453, rd_getCode = (\<lambda>_. Some (Some ''0x6080'')),
     rd_getStorageAt = (\<lambda>_ _. Some (Some (''0x'' @ replicate 24 (CHR ''0'') @ drop 2 SAFE_L2_141_singletonL2))),
     rd_version = (\<lambda>_. Some ''1.4.1''), rd_owners = (\<lambda>_. Some [sample_addr ''0A'', sample_addr ''0B'']),
     rd_threshold = (\<lambda>_. Some 2), rd_nonce = (\<lambda>_. Some 7), rd_minDelay = (\<lambda>_. Some 3600),
     rd_hasRole = (\<lambda>_ _ _. Some True), rd_transactionHash = (\<lambda>_ _. None)\<rparr>"

theorem safe_context_sound_witness:
  "\<exists>ctx. loadSafeContext sample_codec_safe sample_reader (sample_addr ''aa'') (sample_addr ''bb'') = Inr ctx
     \<and> assessSafeContext ctx (Some (sample_addr ''0a'')) Schedule = Inr ()
     \<and> rd_hasRole sample_reader (sc_timelock ctx) (PROPOSER_ROLE sample_codec_safe) (sc_safe ctx) = Some True"
proof -
  have "is_ok (loadSafeContext sample_codec_safe sample_reader (sample_addr ''aa'') (sample_addr ''bb''))" by code_simp
  then obtain ctx where ctx: "loadSafeContext sample_codec_safe sample_reader (sample_addr ''aa'') (sample_addr ''bb'') = Inr ctx"
    by (auto simp: is_ok_iff)
  have "assessSafeContext (projr (loadSafeContext sample_codec_safe sample_reader (sample_addr ''aa'') (sample_addr ''bb'')))
      (Some (sample_addr ''0a'')) Schedule = Inr ()" by code_simp
  then have fit: "assessSafeContext ctx (Some (sample_addr ''0a'')) Schedule = Inr ()" using ctx by simp
  from safe_context_sound [OF ctx fit] sample_codec_safe_laws ctx fit show ?thesis
    by (auto simp: strict_address_laws_def)
qed

theorem addSignature_set_witness:
  "addSignature (addSignature [] \<lparr>sig_owner = ''0xB'', signature = ''2''\<rparr>) \<lparr>sig_owner = ''0xa'', signature = ''1''\<rparr>
     = addSignature (addSignature [] \<lparr>sig_owner = ''0xa'', signature = ''1''\<rparr>) \<lparr>sig_owner = ''0xB'', signature = ''2''\<rparr>"
proof -
  have "lc ''0xB'' \<noteq> lc ''0xa''" by code_simp
  with addSignature_set [of "[]" "\<lparr>sig_owner = ''0xB'', signature = ''2''\<rparr>" "\<lparr>sig_owner = ''0xa'', signature = ''1''\<rparr>"]
  show ?thesis by simp
qed

definition sample_signed :: SafeTxBundle where
  "sample_signed = sample_bundle\<lparr>signatures :=
     [\<lparr>sig_owner = sample_addr ''03'', signature = sample_sig ''03''\<rparr>, \<lparr>sig_owner = sample_addr ''01'', signature = sample_sig ''01''\<rparr>]\<rparr>"

theorem execTransactionArgs_exact_witness:
  "\<exists>used. used = take 2 (sort_by_owner (signatures sample_signed)) \<and> length used = 2 \<and> distinct (map owner_key used)"
proof -
  have th: "threshold sample_signed = NInt (int 2)" by code_simp
  have "is_ok (execTransactionArgs sample_signed)" by code_simp
  then obtain as where "execTransactionArgs sample_signed = Inr as" by (auto simp: is_ok_iff)
  from execTransactionArgs_exact [OF th this] show ?thesis by blast
qed

theorem importSignatures_sound_witness:
  "\<exists>b'. importSignatures (sample_json (bundle_js sample_signed)) sample_bundle ''text'' = Inr b'
     \<and> length (signatures b') = 2 \<and> distinct (map owner_key (signatures b'))"
proof -
  have "is_ok (importSignatures (sample_json (bundle_js sample_signed)) sample_bundle ''text'')" by code_simp
  then obtain b' where b': "importSignatures (sample_json (bundle_js sample_signed)) sample_bundle ''text'' = Inr b'"
    by (auto simp: is_ok_iff)
  have none: "signatures sample_bundle = []" by code_simp
  have "length (signatures (projr (importSignatures (sample_json (bundle_js sample_signed)) sample_bundle ''text''))) = 2"
    by code_simp
  with importSignatures_sound [OF b'] none b' show ?thesis by simp
qed

end
