(* ===== verification/Registration.thy ===== *)
theory Registration
  imports Preview
begin

text \<open>
  Registering and rotating an agent: \<open>useConsentedRegistration.ts\<close>, \<open>useRotationState.ts\<close> and the buttons of
  \<open>RegistrationSteps.tsx\<close>.

  The hooks' state is a record; what wagmi answers at a render (account, chain, head block, gateway
  commitments, receipts, whether a write is pending at the wallet) is another, the view. Each value the hook
  derives is a definition over the two. \<open>reg_run\<close> then lets the writes run asynchronously, as
  \<open>useGuardedWriteContract\<close> does: a click starts a preflight, a passed preflight puts the write at the wallet,
  and only the wallet's answer records a hash. \<open>generateSalt\<close> is an argument of the freeze.
\<close>

section \<open>State and view\<close>

record Frozen =
  fr_key :: string
  fr_owner :: string
  fr_agent :: string
  fr_policy :: AgentPolicy
  fr_salt :: string

record registration =
  frozen :: "Frozen option"
  commitTxHash :: "string option"
  revealTxHash :: "string option"

datatype tx_status = Tx_success | Tx_reverted

record receipt =
  receipt_status :: tx_status
  receipt_block :: int

record reg_view =
  v_gateway :: string
  v_ctx :: PreviewContext
  v_agent :: string
  v_policy :: "AgentPolicy option"
  v_address :: "string option"
  v_connected :: bool
  v_chainId :: int
  v_block :: "int option"
  v_commitments :: "string \<Rightarrow> (string \<times> int) option"
  v_receipts :: "string \<Rightarrow> receipt option"
  v_isPending :: bool

datatype RegistrationExpiry = Expiry_ok | Commit_expired | Consent_expiry

section \<open>Freezing the inputs\<close>

definition agentAddress :: "viem \<Rightarrow> reg_view \<Rightarrow> string option" where
  "agentAddress V v = getAddress V (v_agent v)"

definition owner_of :: "viem \<Rightarrow> reg_view \<Rightarrow> string option" where
  "owner_of V v = (case v_address v of None \<Rightarrow> None | Some a \<Rightarrow> getAddress V a)"

definition receiverIsOwner :: "viem \<Rightarrow> reg_view \<Rightarrow> bool" where
  "receiverIsOwner V v = (case (v_policy v, owner_of V v) of
      (Some p, Some w) \<Rightarrow> lc (shareReceiver p) = lc w | _ \<Rightarrow> False)"

definition canFreeze :: "viem \<Rightarrow> reg_view \<Rightarrow> bool" where
  "canFreeze V v = (v_connected v \<and> agentAddress V v \<noteq> None \<and> owner_of V v \<noteq> None \<and> v_policy v \<noteq> None
     \<and> receiverIsOwner V v)"

definition live_binding :: "viem \<Rightarrow> reg_view \<Rightarrow> RegistrationBinding option" where
  "live_binding V v = (case (agentAddress V v, owner_of V v, v_policy v) of
      (Some a, Some w, Some p) \<Rightarrow>
        Some \<lparr>b_gateway = v_gateway v, b_chainId = v_chainId v, b_owner = w, b_agent = a, b_policy = p\<rparr>
    | _ \<Rightarrow> None)"

definition liveKey :: "viem \<Rightarrow> reg_view \<Rightarrow> string option" where
  "liveKey V v = map_option bindingKey (live_binding V v)"

definition bound :: "viem \<Rightarrow> reg_view \<Rightarrow> 'a registration_scheme \<Rightarrow> bool" where
  "bound V v r = (case (frozen r, liveKey V v) of (Some f, Some k) \<Rightarrow> fr_key f = k | _ \<Rightarrow> False)"

definition freeze :: "viem \<Rightarrow> reg_view \<Rightarrow> string \<Rightarrow> 'a registration_scheme \<Rightarrow> 'a registration_scheme" where
  "freeze V v salt r =
     (if \<not> canFreeze V v then r
      else case (agentAddress V v, owner_of V v, v_policy v, liveKey V v) of
        (Some a, Some w, Some p, Some k) \<Rightarrow>
          r\<lparr>frozen := Some \<lparr>fr_key = k, fr_owner = w, fr_agent = a, fr_policy = p, fr_salt = salt\<rparr>,
            commitTxHash := None, revealTxHash := None\<rparr>
      | _ \<Rightarrow> r)"

definition reset :: "'a registration_scheme \<Rightarrow> 'a registration_scheme" where
  "reset r = r\<lparr>frozen := None, commitTxHash := None, revealTxHash := None\<rparr>"

section \<open>Consent and previews\<close>

definition is_self :: "Frozen \<Rightarrow> bool" where
  "is_self f = (lc (fr_agent f) = lc (fr_owner f))"

text \<open>\<^const>\<open>None\<close> when no consent hash is needed.\<close>

definition consentHash :: "viem \<Rightarrow> Frozen \<Rightarrow> string option" where
  "consentHash V f =
     (if is_self f then None
      else case policyTuple V (fr_policy f) of None \<Rightarrow> None
      | Some p \<Rightarrow> computeConsentHash V (fr_owner f) (fr_agent f) (fr_salt f) p)"

definition consent_key :: "viem \<Rightarrow> Frozen \<Rightarrow> string option" where
  "consent_key V f = (case consentHash V f of None \<Rightarrow> None | Some h \<Rightarrow> commitmentStorageKey V h (fr_agent f))"

definition nextBlock :: "reg_view \<Rightarrow> int option" where
  "nextBlock v = map_option (\<lambda>b. b + 1) (v_block v)"

definition consent :: "viem \<Rightarrow> reg_view \<Rightarrow> 'a registration_scheme \<Rightarrow> ConsentStatus" where
  "consent V v r = (case frozen r of None \<Rightarrow> Consent_unknown
     | Some f \<Rightarrow> consentStatus (is_self f) (fr_agent f)
         (case consent_key V f of None \<Rightarrow> None | Some k \<Rightarrow> v_commitments v k) (nextBlock v))"

definition commit_inputs :: "Frozen \<Rightarrow> CommitInputs" where
  "commit_inputs f = \<lparr>commit_agent = fr_agent f, committer = fr_owner f, commit_salt = fr_salt f\<rparr>"

definition reveal_inputs :: "Frozen \<Rightarrow> RevealInputs" where
  "reveal_inputs f = \<lparr>reveal_agent = fr_agent f, reveal_salt = fr_salt f, reveal_policy = fr_policy f\<rparr>"

definition preview_ok :: "Preview \<Rightarrow> bool" where
  "preview_ok p = (case p of PreviewOk _ \<Rightarrow> True | PreviewRefused _ _ _ \<Rightarrow> False)"

definition previewsOk :: "viem \<Rightarrow> reg_view \<Rightarrow> 'a registration_scheme \<Rightarrow> bool" where
  "previewsOk V v r = (case frozen r of None \<Rightarrow> False
     | Some f \<Rightarrow> preview_ok (buildPreview V (CommitAuthorization (commit_inputs f)) (v_ctx v))
         \<and> preview_ok (buildPreview V (RevealAuthorization (reveal_inputs f)) (v_ctx v)))"

section \<open>Receipts and readiness\<close>

definition receipt_of :: "reg_view \<Rightarrow> string option \<Rightarrow> receipt option" where
  "receipt_of v h = (case h of None \<Rightarrow> None | Some x \<Rightarrow> v_receipts v x)"

definition commitReverted :: "reg_view \<Rightarrow> 'a registration_scheme \<Rightarrow> bool" where
  "commitReverted v r = (case receipt_of v (commitTxHash r) of None \<Rightarrow> False | Some c \<Rightarrow> receipt_status c = Tx_reverted)"

definition revealMined :: "reg_view \<Rightarrow> 'a registration_scheme \<Rightarrow> bool" where
  "revealMined v r = (case receipt_of v (revealTxHash r) of None \<Rightarrow> False | Some c \<Rightarrow> receipt_status c = Tx_success)"

definition commitBlock :: "reg_view \<Rightarrow> 'a registration_scheme \<Rightarrow> int option" where
  "commitBlock v r = (if commitReverted v r then None else map_option receipt_block (receipt_of v (commitTxHash r)))"

definition consentOk :: "viem \<Rightarrow> reg_view \<Rightarrow> 'a registration_scheme \<Rightarrow> bool" where
  "consentOk V v r = (consent V v r = Consent_self \<or> consent V v r = Consent_live)"

definition commitReady :: "viem \<Rightarrow> reg_view \<Rightarrow> 'a registration_scheme \<Rightarrow> bool" where
  "commitReady V v r = (bound V v r \<and> v_connected v \<and> commitTxHash r = None \<and> consentOk V v r \<and> previewsOk V v r
     \<and> \<not> v_isPending v)"

definition expiry :: "viem \<Rightarrow> reg_view \<Rightarrow> 'a registration_scheme \<Rightarrow> RegistrationExpiry" where
  "expiry V v r =
     (if (case (commitBlock v r, nextBlock v) of (Some c, Some n) \<Rightarrow> \<not> commitLive c n | _ \<Rightarrow> False) then Commit_expired
      else if consent V v r = Consent_expired then Consent_expiry
      else Expiry_ok)"

definition revealReady :: "viem \<Rightarrow> reg_view \<Rightarrow> 'a registration_scheme \<Rightarrow> bool" where
  "revealReady V v r = (bound V v r \<and> v_connected v
     \<and> (case (commitBlock v r, v_block v) of (Some c, Some b) \<Rightarrow> b > c | _ \<Rightarrow> False)
     \<and> expiry V v r = Expiry_ok \<and> consentOk V v r \<and> previewsOk V v r \<and> revealTxHash r = None \<and> \<not> v_isPending v)"

text \<open>The variables handed to the guarded \<open>writeContract\<close>; \<^const>\<open>None\<close> when the handler returns or throws first.\<close>

definition call_variables :: "string \<Rightarrow> js \<Rightarrow> call \<Rightarrow> js" where
  "call_variables gateway abi c =
     JObj [(''address'', JStr gateway), (''abi'', abi), (''functionName'', JStr (fst c)), (''args'', JArr (snd c))]"

definition onCommit :: "viem \<Rightarrow> js \<Rightarrow> reg_view \<Rightarrow> 'a registration_scheme \<Rightarrow> js option" where
  "onCommit V abi v r =
     (if \<not> commitReady V v r then None
      else case frozen r of None \<Rightarrow> None
      | Some f \<Rightarrow> map_option (call_variables (v_gateway v) abi) (commitAuthorizationCall V (commit_inputs f)))"

definition onReveal :: "viem \<Rightarrow> js \<Rightarrow> reg_view \<Rightarrow> 'a registration_scheme \<Rightarrow> js option" where
  "onReveal V abi v r =
     (if \<not> revealReady V v r then None
      else case frozen r of None \<Rightarrow> None
      | Some f \<Rightarrow> map_option (call_variables (v_gateway v) abi) (revealAuthorizationCall V (reveal_inputs f)))"

section \<open>Runs\<close>

text \<open>
  The hook's state with its writes under way. \<open>commit_checks\<close> holds the clicked commits whose preflight still runs,
  \<open>commit_wallet\<close> the one wagmi reports as pending (a later write takes the place of an earlier one, whose
  callback is then dropped). \<open>commits\<close> and \<open>reveals\<close> record, for the statements only, the variables of the write
  behind each accepted hash.
\<close>

record reg_state = registration +
  commit_checks :: "js list"
  commit_wallet :: "js option"
  reveal_checks :: "js list"
  reveal_wallet :: "js option"
  commits :: "(string \<times> js) list"
  reveals :: "(string \<times> js) list"

definition start :: reg_state where
  "start = \<lparr>frozen = None, commitTxHash = None, revealTxHash = None, commit_checks = [], commit_wallet = None,
     reveal_checks = [], reveal_wallet = None, commits = [], reveals = []\<rparr>"

definition isPending :: "reg_state \<Rightarrow> bool" where
  "isPending s = (commit_wallet s \<noteq> None \<or> reveal_wallet s \<noteq> None)"

text \<open>
  \<open>calm\<close> runs are those in which the inputs are not frozen again while a preflight of an earlier write runs.
  The freeze button is shown only with nothing frozen and is disabled while a write is pending; a reset may
  happen at any moment, since the rotation form resets when an agent field changes.
\<close>

text \<open>What TypeScript calls an \<open>Address\<close> is one.\<close>

definition well_typed :: "viem \<Rightarrow> reg_view \<Rightarrow> bool" where
  "well_typed V v = (case live_binding V v of None \<Rightarrow> True
     | Some b \<Rightarrow> list_all (hex_of_len 40) ([b_gateway b, b_owner b, b_agent b, shareReceiver (b_policy b),
         assetRecipient (b_policy b)] @ allowedDestinations (b_policy b) @ allowedSourceVaults (b_policy b)))"

inductive reg_step :: "viem \<Rightarrow> js \<Rightarrow> bool \<Rightarrow> bool \<Rightarrow> reg_state \<Rightarrow> reg_state \<Rightarrow> bool" for V abi enabled calm where
  press_freeze: "enabled \<Longrightarrow> well_typed V v \<Longrightarrow> frozen s = None \<Longrightarrow> \<not> isPending s
     \<Longrightarrow> (calm \<longrightarrow> commit_checks s = [] \<and> reveal_checks s = []) \<Longrightarrow> reg_step V abi enabled calm s (freeze V v salt s)"
| press_reset: "reg_step V abi enabled calm s (reset s)"
| click_commit: "v_isPending v = isPending s \<Longrightarrow> onCommit V abi v s = Some x
     \<Longrightarrow> reg_step V abi enabled calm s (s\<lparr>commit_checks := x # commit_checks s\<rparr>)"
| commit_refused: "x \<in> set (commit_checks s)
     \<Longrightarrow> reg_step V abi enabled calm s (s\<lparr>commit_checks := remove1 x (commit_checks s)\<rparr>)"
| commit_at_wallet: "x \<in> set (commit_checks s)
     \<Longrightarrow> reg_step V abi enabled calm s (s\<lparr>commit_checks := remove1 x (commit_checks s), commit_wallet := Some x\<rparr>)"
| commit_rejected: "commit_wallet s = Some x \<Longrightarrow> reg_step V abi enabled calm s (s\<lparr>commit_wallet := None\<rparr>)"
| commit_accepted: "commit_wallet s = Some x \<Longrightarrow>
     reg_step V abi enabled calm s (s\<lparr>commit_wallet := None, commitTxHash := Some h, commits := (h, x) # commits s\<rparr>)"
| click_reveal: "v_isPending v = isPending s \<Longrightarrow> onReveal V abi v s = Some x
     \<Longrightarrow> reg_step V abi enabled calm s (s\<lparr>reveal_checks := x # reveal_checks s\<rparr>)"
| reveal_refused: "x \<in> set (reveal_checks s)
     \<Longrightarrow> reg_step V abi enabled calm s (s\<lparr>reveal_checks := remove1 x (reveal_checks s)\<rparr>)"
| reveal_at_wallet: "x \<in> set (reveal_checks s)
     \<Longrightarrow> reg_step V abi enabled calm s (s\<lparr>reveal_checks := remove1 x (reveal_checks s), reveal_wallet := Some x\<rparr>)"
| reveal_rejected: "reveal_wallet s = Some x \<Longrightarrow> reg_step V abi enabled calm s (s\<lparr>reveal_wallet := None\<rparr>)"
| reveal_accepted: "reveal_wallet s = Some x \<Longrightarrow>
     reg_step V abi enabled calm s (s\<lparr>reveal_wallet := None, revealTxHash := Some h, reveals := (h, x) # reveals s\<rparr>)"

inductive reg_run :: "viem \<Rightarrow> js \<Rightarrow> bool \<Rightarrow> reg_state \<Rightarrow> bool" for V abi calm where
  begin_run: "reg_run V abi calm start"
| run_step: "reg_run V abi calm s \<Longrightarrow> reg_step V abi True calm s s' \<Longrightarrow> reg_run V abi calm s'"

section \<open>Rotation\<close>

datatype RotationStep = Step_idle | Step_revoke_sent

record rotation =
  oldAgentRaw :: string
  newAgentRaw :: string
  rot_validUntil :: string
  rot_maxPerPayment :: string
  rot_maxPerWindow :: string
  rot_shareReceiver :: string
  rot_destinations :: "string list"
  rot_step :: RotationStep
  revokeTxHash :: "string option"
  rot_registration :: reg_state

definition isUint :: "string \<Rightarrow> bool" where
  "isUint s = all_digits (trim s)"

text \<open>\<open>BigInt(s)\<close> of a string \<^const>\<open>isUint\<close> accepts.\<close>

definition uint_value :: "string \<Rightarrow> int" where
  "uint_value s = int (read_nat (trim s))"

definition rotation_policy :: "viem \<Rightarrow> string option \<Rightarrow> rotation \<Rightarrow> AgentPolicy option" where
  "rotation_policy V router r =
     (if isAddress V (newAgentRaw r) \<and> isAddress V (rot_shareReceiver r) \<and> isUint (rot_validUntil r)
         \<and> isUint (rot_maxPerPayment r) \<and> isUint (rot_maxPerWindow r)
      then tryDepositOnlyPolicy V
             \<lparr>in_validUntil = uint_value (rot_validUntil r), in_maxPerPayment = uint_value (rot_maxPerPayment r),
              in_maxPerWindow = uint_value (rot_maxPerWindow r), in_shareReceiver = rot_shareReceiver r,
              in_destinations = rot_destinations r\<rparr> router
      else None)"

definition resetSteps :: "rotation \<Rightarrow> rotation" where
  "resetSteps r = r\<lparr>rot_step := Step_idle, revokeTxHash := None, rot_registration := reset (rot_registration r)\<rparr>"

definition setOldAgent :: "string \<Rightarrow> rotation \<Rightarrow> rotation" where
  "setOldAgent a r = resetSteps (r\<lparr>oldAgentRaw := a\<rparr>)"

definition setNewAgent :: "string \<Rightarrow> rotation \<Rightarrow> rotation" where
  "setNewAgent a r = resetSteps (r\<lparr>newAgentRaw := a\<rparr>)"

definition newAgentOwned :: "string option \<Rightarrow> bool" where
  "newAgentOwned newAgentOwner = (case newAgentOwner of None \<Rightarrow> False | Some a \<Rightarrow> lc a \<noteq> zero_address)"

definition revokeReverted :: "(string \<Rightarrow> receipt option) \<Rightarrow> rotation \<Rightarrow> bool" where
  "revokeReverted receipts r = (case revokeTxHash r of None \<Rightarrow> False
     | Some h \<Rightarrow> (case receipts h of None \<Rightarrow> False | Some c \<Rightarrow> receipt_status c = Tx_reverted))"

definition registrationOpen :: "(string \<Rightarrow> receipt option) \<Rightarrow> rotation \<Rightarrow> bool" where
  "registrationOpen receipts r = (rot_step r = Step_revoke_sent \<and> \<not> revokeReverted receipts r)"

text \<open>\<open>onRevoke\<close> hands the simulated request to the guarded write; the wallet's acceptance runs its callback.\<close>

definition onRevoke :: "js option \<Rightarrow> js option" where
  "onRevoke revokeSim = (case revokeSim of None \<Rightarrow> None | Some sim \<Rightarrow> Some (jget sim ''request''))"

definition revoke_accepted :: "string \<Rightarrow> rotation \<Rightarrow> rotation" where
  "revoke_accepted h r = r\<lparr>revokeTxHash := Some h, rot_step := Step_revoke_sent\<rparr>"

text \<open>
  A rotation: edits of the form, the wallet's acceptance of a revoke, and the steps of the registration, whose freeze
  button is enabled by \<^const>\<open>registrationOpen\<close>. \<open>receipts\<close> may differ from step to step.
\<close>

inductive rot_run :: "viem \<Rightarrow> js \<Rightarrow> rotation \<Rightarrow> bool" for V abi where
  rot_begin: "oldAgentRaw r = [] \<Longrightarrow> newAgentRaw r = [] \<Longrightarrow> rot_step r = Step_idle \<Longrightarrow> revokeTxHash r = None
     \<Longrightarrow> rot_registration r = start \<Longrightarrow> rot_run V abi r"
| rot_edit: "rot_run V abi r \<Longrightarrow> rot_run V abi (r\<lparr>rot_validUntil := u, rot_maxPerPayment := m, rot_maxPerWindow := w,
     rot_shareReceiver := a, rot_destinations := ds\<rparr>)"
| rot_old: "rot_run V abi r \<Longrightarrow> rot_run V abi (setOldAgent a r)"
| rot_new: "rot_run V abi r \<Longrightarrow> rot_run V abi (setNewAgent a r)"
| rot_revoke: "rot_run V abi r \<Longrightarrow> onRevoke sim \<noteq> None \<Longrightarrow> rot_run V abi (revoke_accepted h r)"
| rot_register: "rot_run V abi r \<Longrightarrow> reg_step V abi (registrationOpen receipts r) calm (rot_registration r) s'
     \<Longrightarrow> rot_run V abi (r\<lparr>rot_registration := s'\<rparr>)"

inductive_cases reg_stepE: "reg_step V abi enabled calm s s'"

section \<open>What a freeze captures\<close>

lemma well_typed_binding: "well_typed V v \<Longrightarrow> live_binding V v = Some b \<Longrightarrow> wf_binding b"
  by (simp add: well_typed_def wf_binding_def addresses_def list_all_iff)

text \<open>Frozen inputs as a freeze leaves them.\<close>

definition wf_frozen :: "viem \<Rightarrow> Frozen \<Rightarrow> bool" where
  "wf_frozen V f \<longleftrightarrow> lc (shareReceiver (fr_policy f)) = lc (fr_owner f)
     \<and> (\<exists>b. fr_key f = bindingKey b \<and> wf_binding b \<and> b_owner b = fr_owner f \<and> b_agent b = fr_agent f
          \<and> b_policy b = fr_policy f)"

lemma freeze_frozen:
  assumes "well_typed V v"
  shows "freeze V v salt s = s \<or> (\<exists>f. wf_frozen V f \<and> fr_salt f = salt
     \<and> freeze V v salt s = s\<lparr>frozen := Some f, commitTxHash := None, revealTxHash := None\<rparr>)"
proof (cases "canFreeze V v")
  case True
  then obtain a w p where g: "agentAddress V v = Some a" "owner_of V v = Some w" "v_policy v = Some p"
    "lc (shareReceiver p) = lc w" by (auto simp: canFreeze_def receiverIsOwner_def)
  define b where "b = \<lparr>b_gateway = v_gateway v, b_chainId = v_chainId v, b_owner = w, b_agent = a, b_policy = p\<rparr>"
  have live: "live_binding V v = Some b" using g by (simp add: live_binding_def b_def)
  define f where "f = \<lparr>fr_key = bindingKey b, fr_owner = w, fr_agent = a, fr_policy = p, fr_salt = salt\<rparr>"
  have "freeze V v salt s = s\<lparr>frozen := Some f, commitTxHash := None, revealTxHash := None\<rparr>"
    using True g live by (simp add: freeze_def liveKey_def f_def)
  moreover have "wf_frozen V f"
    unfolding wf_frozen_def using g(4) well_typed_binding [OF assms live]
    by (auto simp: f_def b_def intro!: exI [of _ b])
  ultimately show ?thesis by (auto simp: f_def)
qed (simp add: freeze_def)

lemma step_frozen:
  assumes "reg_step V abi enabled calm s s'" and "frozen s' = Some f"
  shows "frozen s = Some f \<or> wf_frozen V f"
  using assms
proof (cases rule: reg_step.cases)
  case (press_freeze v salt)
  then show ?thesis using freeze_frozen [of V v salt s] assms(2) by auto
qed (use assms(2) in \<open>auto simp: reset_def\<close>)

lemma run_frozen: "reg_run V abi calm s \<Longrightarrow> frozen s = Some f \<Longrightarrow> wf_frozen V f"
  by (induction rule: reg_run.induct) (auto simp: start_def dest: step_frozen)

lemma bound_shown:
  assumes "reg_run V abi calm s" and "bound V v s" and "well_typed V v"
  shows "\<exists>f b. frozen s = Some f \<and> live_binding V v = Some b \<and> lc (fr_owner f) = lc (b_owner b)
    \<and> lc (fr_agent f) = lc (b_agent b) \<and> normal_policy (fr_policy f) = normal_policy (b_policy b)"
proof -
  obtain f b where f: "frozen s = Some f" "live_binding V v = Some b" "fr_key f = bindingKey b"
    using assms(2) by (auto simp: bound_def liveKey_def split: option.splits)
  obtain b' where b': "fr_key f = bindingKey b'" "wf_binding b'" "b_owner b' = fr_owner f" "b_agent b' = fr_agent f"
      "b_policy b' = fr_policy f"
    using run_frozen [OF assms(1) f(1)] by (auto simp: wf_frozen_def)
  have "normal_binding b' = normal_binding b"
    using bindingKey_normal [OF b'(2) well_typed_binding [OF assms(3) f(2)]] b'(1) f(3) by simp
  then show ?thesis using f b' by (auto simp: normal_binding_def)
qed

section \<open>When a step is open\<close>

definition consent_live :: "viem \<Rightarrow> reg_view \<Rightarrow> Frozen \<Rightarrow> bool" where
  "consent_live V v f \<longleftrightarrow> is_self f \<or> (\<exists>h k who b n. consentHash V f = Some h
     \<and> commitmentStorageKey V h (fr_agent f) = Some k \<and> v_commitments v k = Some (who, b) \<and> lc who = lc (fr_agent f)
     \<and> v_block v = Some n \<and> n + 1 \<le> b + 256)"

lemma consentOk_live: "frozen r = Some f \<Longrightarrow> consentOk V v r \<Longrightarrow> consent_live V v f"
  by (auto simp: consentOk_def consent_def consentStatus_def consent_live_def consent_key_def nextBlock_def
      COMMIT_EXPIRY_BLOCKS_def split: if_splits option.splits prod.splits)

lemma revealReady_commit:
  assumes "revealReady V v r"
  shows "\<exists>h rc n. commitTxHash r = Some h \<and> v_receipts v h = Some rc \<and> receipt_status rc = Tx_success
    \<and> v_block v = Some n \<and> receipt_block rc < n \<and> n + 1 \<le> receipt_block rc + 256"
proof -
  obtain c n where cn: "commitBlock v r = Some c" "v_block v = Some n" "c < n" "expiry V v r = Expiry_ok"
    using assms by (auto simp: revealReady_def split: option.splits)
  then obtain h rc where h: "commitTxHash r = Some h" "v_receipts v h = Some rc" "c = receipt_block rc"
      "receipt_status rc \<noteq> Tx_reverted"
    by (auto simp: commitBlock_def commitReverted_def receipt_of_def split: if_splits option.splits)
  have "commitLive c (n + 1)" using cn by (auto simp: expiry_def nextBlock_def split: if_splits)
  then show ?thesis using cn h by (cases "receipt_status rc") (auto simp: commitLive_def COMMIT_EXPIRY_BLOCKS_def)
qed


text \<open>
  What is signed is what is shown. Whenever the commit or the reveal is handed over, the frozen owner and agent and
  every member of the frozen policy are those of the form, the wallet and the chain at that moment, letter
  case of addresses aside.
\<close>

theorem handed_over_is_shown:
  assumes "reg_run V abi calm s" and "well_typed V v" and "onCommit V abi v s \<noteq> None \<or> onReveal V abi v s \<noteq> None"
  shows "\<exists>f b. frozen s = Some f \<and> live_binding V v = Some b \<and> lc (fr_owner f) = lc (b_owner b)
    \<and> lc (fr_agent f) = lc (b_agent b) \<and> normal_policy (fr_policy f) = normal_policy (b_policy b)"
proof -
  have "bound V v s" using assms(3) by (auto simp: onCommit_def onReveal_def commitReady_def revealReady_def split: if_splits)
  from bound_shown [OF assms(1) this assms(2)] show ?thesis .
qed

section \<open>Which commit a reveal belongs to\<close>

definition commit_of :: "viem \<Rightarrow> js \<Rightarrow> Frozen \<Rightarrow> js \<Rightarrow> bool" where
  "commit_of V abi f x \<longleftrightarrow> (\<exists>g c. commitAuthorizationCall V (commit_inputs f) = Some c \<and> x = call_variables g abi c)"

definition commits_match :: "viem \<Rightarrow> js \<Rightarrow> reg_state \<Rightarrow> bool" where
  "commits_match V abi s \<longleftrightarrow> (\<forall>f. frozen s = Some f \<longrightarrow>
     (\<forall>x \<in> set (commit_checks s). commit_of V abi f x) \<and> (\<forall>x. commit_wallet s = Some x \<longrightarrow> commit_of V abi f x)
     \<and> (\<forall>h. commitTxHash s = Some h \<longrightarrow> (\<exists>x. (h, x) \<in> set (commits s) \<and> commit_of V abi f x)))"

lemma step_commits_match:
  assumes "reg_step V abi enabled True s s'" and "commits_match V abi s"
  shows "commits_match V abi s'"
  using assms(1)
proof (cases rule: reg_step.cases)
  case (press_freeze v salt)
  then show ?thesis using freeze_frozen [of V v salt s] assms(2) by (auto simp: commits_match_def isPending_def)
next
  case (click_commit v x)
  then show ?thesis using assms(2)
    by (auto simp: commits_match_def onCommit_def commit_of_def split: if_splits option.splits)
qed (use assms(2) in \<open>auto simp: commits_match_def reset_def dest: notin_set_remove1 set_remove1_subset [THEN subsetD]\<close>)

lemma run_commits_match: "reg_run V abi True s \<Longrightarrow> commits_match V abi s"
  by (induction rule: reg_run.induct) (auto simp: commits_match_def start_def dest: step_commits_match)

text \<open>
  C26. The reveal follows its own commit. In a run in which the inputs are never frozen again while an earlier write is still in its
  checks, the transaction whose mining opened the reveal is the commit of the very inputs being revealed:
  the same agent, owner and salt.
\<close>

theorem reveal_follows_own_commit:
  assumes "reg_run V abi True s" and "onReveal V abi v s \<noteq> None"
  shows "\<exists>f h x g c. frozen s = Some f \<and> commitTxHash s = Some h \<and> (h, x) \<in> set (commits s)
    \<and> commitAuthorizationCall V (commit_inputs f) = Some c \<and> x = call_variables g abi c"
proof -
  obtain f where f: "revealReady V v s" "frozen s = Some f"
    using assms(2) by (auto simp: onReveal_def split: if_splits option.splits)
  obtain h where h: "commitTxHash s = Some h" using revealReady_commit [OF f(1)] by blast
  with run_commits_match [OF assms(1)] f(2) show ?thesis by (auto simp: commits_match_def commit_of_def)
qed

section \<open>Rotation order\<close>

lemma step_keeps_closed:
  "reg_step V abi False calm s s' \<Longrightarrow> frozen s = None \<Longrightarrow> frozen s' = None"
  by (erule reg_step.cases) (auto simp: reset_def)

text \<open>
  A rotation revokes first: whenever the new agent's inputs are frozen, the wallet has accepted a revoke
  since either agent field last changed; with the form idle nothing is frozen, so no commit and no reveal
  is handed over.
\<close>

theorem rotation_revokes_first:
  assumes "rot_run V abi r"
  shows "(frozen (rot_registration r) \<noteq> None \<longrightarrow> rot_step r = Step_revoke_sent)
    \<and> (rot_step r = Step_revoke_sent \<longleftrightarrow> revokeTxHash r \<noteq> None)
    \<and> (rot_step r = Step_idle \<longrightarrow> onCommit V abi v (rot_registration r) = None \<and> onReveal V abi v (rot_registration r) = None)"
proof -
  have "(frozen (rot_registration r) \<noteq> None \<longrightarrow> rot_step r = Step_revoke_sent)
    \<and> (rot_step r = Step_revoke_sent \<longleftrightarrow> revokeTxHash r \<noteq> None)"
    using assms
  proof (induction rule: rot_run.induct)
    case (rot_register r receipts calm s')
    then show ?case using step_keeps_closed [of V abi calm "rot_registration r" s'] by (auto simp: registrationOpen_def)
  qed (auto simp: start_def setOldAgent_def setNewAgent_def resetSteps_def reset_def revoke_accepted_def)
  then show ?thesis by (auto simp: onCommit_def onReveal_def split: option.splits)
qed

section \<open>Concrete runs\<close>

text \<open>A codec whose hashes keep their input, so that different salts give different commitments.\<close>

definition salted_viem :: viem where
  "salted_viem = sample_viem\<lparr>keccak_hex := (\<lambda>s. s),
     encodeAbi := (\<lambda>ts vs. Some (''0x'' @ concat (map (\<lambda>v. case v of JStr s \<Rightarrow> s | _ \<Rightarrow> []) vs)))\<rparr>"

definition sample_view :: reg_view where
  "sample_view = \<lparr>v_gateway = sample_addr ''a1'', v_ctx = sample_preview_ctx True, v_agent = sample_addr ''F6'',
     v_policy = Some sample_policy, v_address = Some (sample_addr ''e5''), v_connected = True, v_chainId = 8453,
     v_block = Some 100, v_commitments = (\<lambda>_. Some (sample_addr ''f6'', 98)),
     v_receipts = (\<lambda>_. Some \<lparr>receipt_status = Tx_success, receipt_block = 99\<rparr>), v_isPending = False\<rparr>"

definition frozen_with :: "string \<Rightarrow> reg_state" where
  "frozen_with salt = freeze salted_viem sample_view salt start"

definition commit_write :: "string \<Rightarrow> js" where
  "commit_write salt = the (onCommit salted_viem JNull sample_view (frozen_with salt))"

definition committed :: reg_state where
  "committed = (frozen_with ''0x01'')\<lparr>commitTxHash := Some ''0xh'', commits := [(''0xh'', commit_write ''0x01'')]\<rparr>"

lemma freeze_sample:
  "\<exists>f. fr_salt f = salt \<and> (\<forall>s :: reg_state. freeze salted_viem sample_view salt s
     = s\<lparr>frozen := Some f, commitTxHash := None, revealTxHash := None\<rparr>)"
proof -
  have can: "canFreeze salted_viem sample_view" by code_simp
  then obtain a w p where g: "agentAddress salted_viem sample_view = Some a" "owner_of salted_viem sample_view = Some w"
    "v_policy sample_view = Some p" by (auto simp: canFreeze_def)
  then obtain k where k: "liveKey salted_viem sample_view = Some k" by (simp add: liveKey_def live_binding_def)
  show ?thesis
    by (rule exI [of _ "\<lparr>fr_key = k, fr_owner = w, fr_agent = a, fr_policy = p, fr_salt = salt\<rparr>"])
      (use can g k in \<open>simp add: freeze_def\<close>)
qed

lemma refrozen:
  "commitTxHash s = None \<Longrightarrow> revealTxHash s = None \<Longrightarrow>
     freeze salted_viem sample_view salt s = s\<lparr>frozen := frozen (frozen_with salt)\<rparr>" for s :: reg_state
  using freeze_sample [of salt] by (cases s) (auto simp: frozen_with_def)

lemma frozen_with_rest [simp]:
  "commitTxHash (frozen_with salt) = None" "revealTxHash (frozen_with salt) = None" "commit_checks (frozen_with salt) = []"
  "reveal_checks (frozen_with salt) = []" "commit_wallet (frozen_with salt) = None" "reveal_wallet (frozen_with salt) = None"
  "commits (frozen_with salt) = []" "reveals (frozen_with salt) = []"
  using freeze_sample [of salt] by (auto simp: frozen_with_def start_def)

lemma frozen_run: "reg_run salted_viem JNull calm (frozen_with salt)"
proof -
  have "well_typed salted_viem sample_view" by code_simp
  then show ?thesis unfolding frozen_with_def
    by (intro run_step [OF begin_run] press_freeze) (simp_all add: start_def isPending_def)
qed

lemma commit_clicked:
  "reg_run salted_viem JNull calm ((frozen_with ''0x01'')\<lparr>commit_checks := [commit_write ''0x01'']\<rparr>)"
proof -
  have "onCommit salted_viem JNull sample_view (frozen_with ''0x01'') \<noteq> None" by code_simp
  then have "onCommit salted_viem JNull sample_view (frozen_with ''0x01'') = Some (commit_write ''0x01'')"
    by (auto simp: commit_write_def)
  moreover have "v_isPending sample_view = isPending (frozen_with ''0x01'')" "commit_checks (frozen_with ''0x01'') = []"
    by code_simp+
  ultimately show ?thesis using run_step [OF frozen_run click_commit] by metis
qed

lemma committed_run: "reg_run salted_viem JNull calm committed"
proof -
  let ?x = "commit_write ''0x01''"
  have "reg_run salted_viem JNull calm ((frozen_with ''0x01'')\<lparr>commit_checks := [], commit_wallet := Some ?x\<rparr>)"
    using run_step [OF commit_clicked commit_at_wallet, of ?x] by simp
  from run_step [OF this commit_accepted, of ?x "''0xh''"]
  have "reg_run salted_viem JNull calm ((frozen_with ''0x01'')\<lparr>commit_checks := [], commit_wallet := None,
      commitTxHash := Some ''0xh'', commits := (''0xh'', ?x) # commits (frozen_with ''0x01'')\<rparr>)" by simp
  moreover have "(frozen_with ''0x01'')\<lparr>commit_checks := [], commit_wallet := None, commitTxHash := Some ''0xh'',
      commits := (''0xh'', ?x) # commits (frozen_with ''0x01'')\<rparr> = committed"
    unfolding committed_def by (rule reg_state.equality) simp_all
  ultimately show ?thesis by simp
qed

lemma reveal_open: "onReveal salted_viem JNull sample_view committed \<noteq> None"
  by code_simp


theorem handed_over_is_shown_witness:
  "\<exists>f b. frozen committed = Some f \<and> live_binding salted_viem sample_view = Some b
     \<and> normal_policy (fr_policy f) = normal_policy (b_policy b)"
proof -
  have "well_typed salted_viem sample_view" by code_simp
  from handed_over_is_shown [OF committed_run this] reveal_open show ?thesis by blast
qed

theorem reveal_follows_own_commit_witness:
  "\<exists>f h x. frozen committed = Some f \<and> commitTxHash committed = Some h \<and> (h, x) \<in> set (commits committed)
     \<and> commit_of salted_viem JNull f x"
  using reveal_follows_own_commit [OF committed_run reveal_open] unfolding commit_of_def by blast

text \<open>
  C40. Outside calm runs the conclusion fails. The pending flag is false while the checks of a write run, so the user can start over and
  freeze again in that time; the first commit is then accepted and recorded under the new inputs, and its mining
  opens a reveal for which no commit exists.
\<close>

theorem stale_commit_opens_reveal:
  "\<exists>s f h x. reg_run salted_viem JNull False s \<and> onReveal salted_viem JNull sample_view s \<noteq> None
     \<and> frozen s = Some f \<and> commitTxHash s = Some h \<and> commits s = [(h, x)] \<and> \<not> commit_of salted_viem JNull f x"
proof -
  let ?x = "commit_write ''0x01''"
  let ?again = "reset ((frozen_with ''0x01'')\<lparr>commit_checks := [?x]\<rparr>)"
  let ?s = "(frozen_with ''0x02'')\<lparr>commitTxHash := Some ''0xh'', commits := [(''0xh'', ?x)]\<rparr>"
  have wt: "well_typed salted_viem sample_view" by code_simp
  have open0: "frozen ?again = None" "\<not> isPending ?again" by (simp_all add: reset_def isPending_def)
  have "reg_run salted_viem JNull False ?again" by (rule run_step [OF commit_clicked press_reset])
  from run_step [OF this press_freeze [OF _ wt open0]]
  have "reg_run salted_viem JNull False (freeze salted_viem sample_view ''0x02'' ?again)" by blast
  moreover have "freeze salted_viem sample_view ''0x02'' ?again = (frozen_with ''0x02'')\<lparr>commit_checks := [?x]\<rparr>"
    by (rule reg_state.equality) (simp_all add: refrozen reset_def)
  ultimately have r: "reg_run salted_viem JNull False ((frozen_with ''0x02'')\<lparr>commit_checks := [?x]\<rparr>)" by simp
  have "reg_run salted_viem JNull False ((frozen_with ''0x02'')\<lparr>commit_checks := [], commit_wallet := Some ?x\<rparr>)"
    using run_step [OF r commit_at_wallet, of ?x] by simp
  from run_step [OF this commit_accepted, of ?x "''0xh''"]
  have "reg_run salted_viem JNull False ((frozen_with ''0x02'')\<lparr>commit_checks := [], commit_wallet := None,
      commitTxHash := Some ''0xh'', commits := (''0xh'', ?x) # commits (frozen_with ''0x02'')\<rparr>)" by simp
  moreover have "(frozen_with ''0x02'')\<lparr>commit_checks := [], commit_wallet := None, commitTxHash := Some ''0xh'',
      commits := (''0xh'', ?x) # commits (frozen_with ''0x02'')\<rparr> = ?s"
    by (rule reg_state.equality) simp_all
  ultimately have run: "reg_run salted_viem JNull False ?s" by (simp only:)
  have reveal: "onReveal salted_viem JNull sample_view ?s \<noteq> None" by code_simp
  obtain f where f: "frozen ?s = Some f" "f = the (frozen (frozen_with ''0x02''))"
    using reveal by (auto simp: onReveal_def split: if_splits option.splits)
  have "case commitAuthorizationCall salted_viem (commit_inputs (the (frozen (frozen_with ''0x02'')))) of
      Some c \<Rightarrow> jget ?x ''args'' \<noteq> JArr (snd c) | None \<Rightarrow> False" by code_simp
  then have "\<not> commit_of salted_viem JNull f ?x"
    unfolding commit_of_def f(2) by (auto simp: call_variables_def jget_def split: option.splits)
  with run reveal f(1) show ?thesis by (intro exI [of _ ?s] exI [of _ f]) auto
qed

definition sample_rotation :: rotation where
  "sample_rotation = \<lparr>oldAgentRaw = [], newAgentRaw = [], rot_validUntil = ''1'', rot_maxPerPayment = ''1'',
     rot_maxPerWindow = ''1'', rot_shareReceiver = [], rot_destinations = [], rot_step = Step_idle, revokeTxHash = None,
     rot_registration = start\<rparr>"

lemma revoked_run: "rot_run salted_viem JNull (revoke_accepted ''0xr'' sample_rotation)"
proof -
  have "rot_run salted_viem JNull sample_rotation" by (rule rot_begin) (simp_all add: sample_rotation_def)
  moreover have "onRevoke (Some (JObj [])) \<noteq> None" by (simp add: onRevoke_def)
  ultimately show ?thesis by (rule rot_revoke)
qed

lemma rotation_committed:
  "rot_run salted_viem JNull ((revoke_accepted ''0xr'' sample_rotation)\<lparr>rot_registration := committed\<rparr>)"
proof -
  let ?r = "revoke_accepted ''0xr'' sample_rotation"
  have opened: "registrationOpen (\<lambda>_. None) (?r\<lparr>rot_registration := s\<rparr>)" for s
    by (simp add: registrationOpen_def revokeReverted_def revoke_accepted_def)
  have "reg_run salted_viem JNull True s \<Longrightarrow> rot_run salted_viem JNull (?r\<lparr>rot_registration := s\<rparr>)" for s
  proof (induction rule: reg_run.induct)
    case begin_run
    then show ?case using revoked_run by (simp add: revoke_accepted_def sample_rotation_def)
  next
    case (run_step s s')
    then show ?case using rot_register [of salted_viem JNull "?r\<lparr>rot_registration := s\<rparr>" "\<lambda>_. None" True s'] opened by simp
  qed
  from this [OF committed_run] show ?thesis .
qed

theorem rotation_revokes_first_witness:
  "frozen committed \<noteq> None \<and> rot_step ((revoke_accepted ''0xr'' sample_rotation)\<lparr>rot_registration := committed\<rparr>) = Step_revoke_sent"
proof -
  have "frozen committed \<noteq> None" by code_simp
  with rotation_revokes_first [OF rotation_committed] show ?thesis by simp
qed

text \<open>
  The registration does not close again once its inputs are frozen: with the revoke's receipt reverted, so
  that \<^const>\<open>registrationOpen\<close> is false and the old agent is still bound, the reveal of the new agent is still handed over.
\<close>

theorem reverted_revoke_reveals:
  "\<exists>r receipts. rot_run salted_viem JNull r \<and> revokeReverted receipts r \<and> \<not> registrationOpen receipts r
     \<and> onReveal salted_viem JNull sample_view (rot_registration r) \<noteq> None"
proof -
  let ?r = "(revoke_accepted ''0xr'' sample_rotation)\<lparr>rot_registration := committed\<rparr>"
  let ?receipts = "\<lambda>_. Some \<lparr>receipt_status = Tx_reverted, receipt_block = 90\<rparr>"
  have "revokeReverted ?receipts ?r" "\<not> registrationOpen ?receipts ?r"
    by (simp_all add: revokeReverted_def registrationOpen_def revoke_accepted_def)
  with rotation_committed reveal_open show ?thesis by (intro exI [of _ ?r] exI [of _ ?receipts]) simp
qed

end
