(* ===== verification/PublishBase.thy ===== *)
theory PublishBase
  imports JsPrelude
begin

text \<open>
  What the components of the contract publishing tool (publish-contracts/src) share: the typed errors
  of errors.ts with their exit codes, the chain ids and delay floors of chains.ts, the vault keys of
  vault-keys.ts, and the JavaScript operators on values of unknown type that its parsers use.

  An error keeps its kind and drops the text written for the operator. A read of a field of \<open>null\<close> or
  \<open>undefined\<close>, which throws in JavaScript, is the failure \<open>TypeError\<close>.
\<close>

section \<open>errors.ts\<close>

datatype PublishErrorKind =
    USAGE | SHEET | FLOOR | CHAIN | SIGNER | COUNTS_MISSING | SIMULATION | BROADCAST | COUNT_MISMATCH | NONCE
  | MANIFEST | VERIFY | GOVERN | GOVERN_PENDING | RESUME | REFUSED | TOOL | SAFE | INPUT_MISSING
  | RELEASE_SHA_UNTAGGED | CI_NOT_GREEN | RELEASE_TAG_REMOTE_MISMATCH | CONTROL_NOT_PROVEN | PAUSE
  | LIBS_ADOPTION | RELEASE_TAG_KIND | OWNER_SIGNER_NOT_HARDWARE | RPC_REFUSED
  | COUNTS_UNTRACKED

text \<open>The error codes of the Safe tool (safe/errors.ts).\<close>

datatype SafeErrorCode =
    BAD_INPUT | CHAIN_UNREACHABLE | CHAIN_MISMATCH | CHAIN_NOT_ALLOWED | PLAINTEXT_KEY_REFUSED
  | NOT_A_SAFE | WRONG_SAFE_VERSION | ROSTER_INVALID | INFRA_MISSING | ADDRESS_OCCUPIED
  | CREATION_FAILED | VERIFY_FAILED | INSUFFICIENT_FUNDS
  | BUNDLE_INVALID | STALE_BUNDLE | HASH_MISMATCH | NOT_OWNER | SIGNATURE_INVALID | BELOW_THRESHOLD
  | TIMELOCK_INVALID | TIMELOCK_ROLE_MISSING | TIMELOCK_STATE | UNSAFE_DELAY | CALL_NOT_ALLOWED
  | SAFE_REVERT | SEND_FAILED | TX_REVERTED | NONCE_DID_NOT_MOVE | EFFECT_NOT_OBSERVED | STALE_READ_TIMEOUT
  | SIGNER_UNAVAILABLE | PASSPHRASE_UNAVAILABLE | PASSPHRASE_FILE_PERMISSIONS | KEYSTORE_INVALID | WRONG_PASSPHRASE
  | HARDWARE_FAILED | HARDWARE_ADDRESS_MISMATCH | UNSUPPORTED_SIGN_MODE

datatype failure = PublishError PublishErrorKind | SafeToolError SafeErrorCode | TypeError | PlainError

fun EXIT_CODES :: "PublishErrorKind \<Rightarrow> nat" where
  "EXIT_CODES USAGE = 2" | "EXIT_CODES SHEET = 3" | "EXIT_CODES FLOOR = 4" | "EXIT_CODES CHAIN = 5"
| "EXIT_CODES SIGNER = 6" | "EXIT_CODES COUNTS_MISSING = 7" | "EXIT_CODES SIMULATION = 8"
| "EXIT_CODES BROADCAST = 9" | "EXIT_CODES COUNT_MISMATCH = 10" | "EXIT_CODES NONCE = 11"
| "EXIT_CODES MANIFEST = 12" | "EXIT_CODES VERIFY = 13" | "EXIT_CODES GOVERN = 14"
| "EXIT_CODES GOVERN_PENDING = 15" | "EXIT_CODES RESUME = 16" | "EXIT_CODES REFUSED = 17"
| "EXIT_CODES TOOL = 18" | "EXIT_CODES SAFE = 19" | "EXIT_CODES INPUT_MISSING = 20"
| "EXIT_CODES RELEASE_SHA_UNTAGGED = 21" | "EXIT_CODES CI_NOT_GREEN = 22"
| "EXIT_CODES RELEASE_TAG_REMOTE_MISMATCH = 23" | "EXIT_CODES CONTROL_NOT_PROVEN = 24"
| "EXIT_CODES PAUSE = 25" | "EXIT_CODES LIBS_ADOPTION = 27" | "EXIT_CODES RELEASE_TAG_KIND = 28"
| "EXIT_CODES OWNER_SIGNER_NOT_HARDWARE = 29" | "EXIT_CODES RPC_REFUSED = 30"
| "EXIT_CODES COUNTS_UNTRACKED = 31"

definition exitCodeOf :: "failure \<Rightarrow> nat" where
  "exitCodeOf e = (case e of PublishError k \<Rightarrow> EXIT_CODES k | SafeToolError _ \<Rightarrow> EXIT_CODES SAFE | _ \<Rightarrow> 1)"

section \<open>chains.ts\<close>

definition MAINNET_CHAIN_ID :: int where "MAINNET_CHAIN_ID = 8453"
definition TWIN_CHAIN_ID :: int where "TWIN_CHAIN_ID = 918453"
definition MAINNET_DELAY_FLOOR :: int where "MAINNET_DELAY_FLOOR = 172800"
definition REHEARSAL_DELAY_FLOOR :: int where "REHEARSAL_DELAY_FLOOR = 900"

datatype DeploymentKind = Production | Rehearsal

definition isMainnet :: "int \<Rightarrow> bool" where
  "isMainnet chainId = (chainId = MAINNET_CHAIN_ID)"

definition delayFloor :: "int \<Rightarrow> DeploymentKind \<Rightarrow> int" where
  "delayFloor chainId kind =
     (if kind = Rehearsal then REHEARSAL_DELAY_FLOOR
      else if isMainnet chainId then MAINNET_DELAY_FLOOR else 1)"

definition kind_text :: "DeploymentKind \<Rightarrow> string" where
  "kind_text kind = (case kind of Production \<Rightarrow> ''production'' | Rehearsal \<Rightarrow> ''rehearsal'')"

text \<open>The empty string means no problem, as in the source.\<close>

definition rehearsalDelayProblem :: "int \<Rightarrow> string" where
  "rehearsalDelayProblem d =
     (if d < REHEARSAL_DELAY_FLOOR then show_int d @ '' is below the rehearsal floor '' @ show_int REHEARSAL_DELAY_FLOOR
      else if d \<ge> MAINNET_DELAY_FLOOR
      then show_int d @ '' is at or above the production floor '' @ show_int MAINNET_DELAY_FLOOR
           @ '': a rehearsal-kind run carries a delay below it, otherwise the chain cannot tell it from production''
      else [])"

definition kindLabel :: "DeploymentKind \<Rightarrow> int \<Rightarrow> string" where
  "kindLabel kind delay = ''['' @ kind_text kind @ '' '' @ show_int delay @ ''s]''"

lemma rehearsalDelayProblem_Nil [simp]:
  "rehearsalDelayProblem d = [] \<longleftrightarrow> REHEARSAL_DELAY_FLOOR \<le> d \<and> d < MAINNET_DELAY_FLOOR"
  by (simp add: rehearsalDelayProblem_def)

section \<open>vault-keys.ts\<close>

definition VAULT_KEYS :: "string list" where "VAULT_KEYS = [''USDC'', ''PROTO'', ''RWA'']"
definition BASKET_KEYS :: "string list" where "BASKET_KEYS = [''PROTO'', ''RWA'']"
definition RETIRED_VAULT_KEYS :: "string list" where "RETIRED_VAULT_KEYS = [''AGENT'']"

definition VAULT_NAME :: "string \<rightharpoonup> string" where
  "VAULT_NAME = [''USDC'' \<mapsto> ''rmUSDC'', ''PROTO'' \<mapsto> ''rmPROTO'', ''RWA'' \<mapsto> ''rmRWA'']"

definition RETIRED_VAULT_NAME :: "string \<rightharpoonup> string" where
  "RETIRED_VAULT_NAME = [''AGENT'' \<mapsto> ''rmAGENT'']"

text \<open>The keys are compared with values of the parsed table, which need not be strings.\<close>

definition isVaultKey :: "js \<Rightarrow> bool" where
  "isVaultKey k = (k \<in> JStr ` set VAULT_KEYS)"

definition isRetiredVaultKey :: "js \<Rightarrow> bool" where
  "isRetiredVaultKey k = (k \<in> JStr ` set RETIRED_VAULT_KEYS)"

section \<open>JavaScript operators on unknown values\<close>

definition js_list :: "js \<Rightarrow> js list option" where
  "js_list v = (case v of JArr xs \<Rightarrow> Some xs | _ \<Rightarrow> None)"

text \<open>\<open>typeof v === "object"\<close> for a value that is not \<open>null\<close>.\<close>

definition js_object :: "js \<Rightarrow> bool" where
  "js_object v = (case v of JObj _ \<Rightarrow> True | JArr _ \<Rightarrow> True | _ \<Rightarrow> False)"

text \<open>\<open>v.k\<close>, which throws when \<open>v\<close> is \<open>null\<close> or \<open>undefined\<close>.\<close>

definition dot :: "js \<Rightarrow> string \<Rightarrow> failure + js" where
  "dot v k = (if jnullish v then Inl TypeError else Inr (jget v k))"

text \<open>
  \<open>a === b\<close> on values of two different positions of a decoded document: arrays and objects are equal only
  to themselves, so never there.
\<close>

definition js_seq :: "js \<Rightarrow> js \<Rightarrow> bool" where
  "js_seq a b = (a = b \<and> \<not> js_object a)"

text \<open>\<open>String(v)\<close>. A number that is not an integer is printed with a decimal point or an exponent; only the point matters here.\<close>

fun js_String :: "js \<Rightarrow> string" where
  "js_String JUndef = ''undefined''"
| "js_String JNull = ''null''"
| "js_String (JBool b) = show_bool b"
| "js_String (JNum n) = show_int n"
| "js_String (JFloat n) = show_int n @ ''.''"
| "js_String (JBig n) = show_int n"
| "js_String (JStr s) = s"
| "js_String (JArr xs) = join '','' (map (\<lambda>x. if x = JUndef \<or> x = JNull then [] else js_String x) xs)"
| "js_String (JObj kvs) = ''[object Object]''"

text \<open>
  \<open>v in o\<close>: the own keys of \<open>o\<close> and the names every object inherits from \<open>Object.prototype\<close>.
\<close>

definition object_prototype_keys :: "string list" where
  "object_prototype_keys =
     [''constructor'', ''__defineGetter__'', ''__defineSetter__'', ''hasOwnProperty'', ''__lookupGetter__'',
      ''__lookupSetter__'', ''isPrototypeOf'', ''propertyIsEnumerable'', ''toString'', ''valueOf'', ''__proto__'', ''toLocaleString'']"

definition js_in :: "js \<Rightarrow> js \<Rightarrow> bool" where
  "js_in v ob = (js_String v \<in> set (map fst (entries ob)) \<or> js_String v \<in> set object_prototype_keys)"

text \<open>A loop that checks every element and goes on to the next.\<close>

fun each_res :: "('a \<Rightarrow> 'e + unit) \<Rightarrow> 'a list \<Rightarrow> 'e + unit" where
  "each_res f [] = Inr ()"
| "each_res f (x # xs) = res_bind (f x) (\<lambda>_. each_res f xs)"

lemma each_res_Inr [simp]: "each_res f xs = Inr u \<longleftrightarrow> (\<forall>x \<in> set xs. f x = Inr ())"
  by (induction xs) auto

lemma each_res_Inl: "each_res f xs = Inl e \<Longrightarrow> \<exists>x \<in> set xs. f x = Inl e"
  by (induction xs) (auto simp: res_bind_Inl)

lemma dot_Inr [simp]: "dot v k = Inr x \<longleftrightarrow> \<not> jnullish v \<and> x = jget v k"
  by (auto simp: dot_def)

lemma js_seq_str [simp]: "js_seq v (JStr s) \<longleftrightarrow> v = JStr s"  "js_seq (JStr s) v \<longleftrightarrow> v = JStr s"
  by (auto simp: js_seq_def js_object_def)

section \<open>Regular expressions of the stage table\<close>

text \<open>\<open>^PREFIX\w+SUFFIX$\<close> with a suffix that holds no word character at its head.\<close>

definition word_plus :: "string \<Rightarrow> bool" where
  "word_plus s = (s \<noteq> [] \<and> list_all is_word_char s)"

definition drop_suffix :: "string \<Rightarrow> string \<Rightarrow> string option" where
  "drop_suffix suf s =
     (if length suf \<le> length s \<and> drop (length s - length suf) s = suf then Some (take (length s - length suf) s) else None)"

definition drop_prefix :: "string \<Rightarrow> string \<Rightarrow> string option" where
  "drop_prefix pre s = (if starts_with pre s then Some (drop (length pre) s) else None)"

text \<open>\<open>/^contracts\/script\/\w+\.s\.sol:\w+$/\<close>\<close>

definition script_path :: "string \<Rightarrow> bool" where
  "script_path s =
     (case drop_prefix ''contracts/script/'' s of None \<Rightarrow> False
      | Some r \<Rightarrow> takeWhile is_word_char r \<noteq> []
         \<and> (case drop_prefix ''.s.sol:'' (dropWhile is_word_char r) of None \<Rightarrow> False | Some c \<Rightarrow> word_plus c))"

text \<open>\<open>/^deployments\/<chain>\/[\w.-]+\.json$/\<close>\<close>

definition manifest_template :: "string \<Rightarrow> bool" where
  "manifest_template s =
     (case drop_prefix ''deployments/<chain>/'' s of None \<Rightarrow> False
      | Some r \<Rightarrow> (case drop_suffix ''.json'' r of None \<Rightarrow> False
          | Some f \<Rightarrow> f \<noteq> [] \<and> list_all (\<lambda>c. is_word_char c \<or> c = CHR ''.'' \<or> c = CHR ''-'') f))"

text \<open>\<open>LAYOUT = /^contracts\/test\/fixtures\/storage-layout\/\w+\.json$/\<close>\<close>

definition LAYOUT :: "string \<Rightarrow> bool" where
  "LAYOUT s =
     (case drop_prefix ''contracts/test/fixtures/storage-layout/'' s of None \<Rightarrow> False
      | Some r \<Rightarrow> (case drop_suffix ''.json'' r of None \<Rightarrow> False | Some f \<Rightarrow> word_plus f))"

text \<open>\<open>/^[A-Z][A-Z0-9_]*$/\<close>\<close>

definition is_upper :: "char \<Rightarrow> bool" where
  "is_upper c = (65 \<le> char_code c \<and> char_code c \<le> 90)"

definition sheet_name :: "string \<Rightarrow> bool" where
  "sheet_name s = (case s of [] \<Rightarrow> False | c # r \<Rightarrow> is_upper c \<and> list_all (\<lambda>d. is_upper d \<or> is_digit d \<or> d = CHR ''_'') r)"

end
