(* ===== verification/StageTable.thy ===== *)
theory StageTable
  imports PublishBase
begin

text \<open>
  The core stage table (publish-contracts/src/stage-table.ts): the JSON document
  scripts/deploy/stage-table.json, the shape the parser checks, the vault rules and the view of one
  system. \<open>parseStageTable\<close> returns the object it was given; here it returns the record of the fields the
  rest of the tool reads, with a field kept as a \<^typ>\<open>js\<close> value where the parser does not fix its type.
\<close>

section \<open>Rows\<close>

record TableProxy =
  px_field :: string
  px_implementationField :: string
  px_contract :: string
  px_layout :: string

record TableStage =
  st_name :: string
  st_script :: string
  st_requiredEnv :: "string list"
  st_optionalEnv :: "string list"
  st_manifest :: string
  st_libraries :: "string list"
  st_create2Libraries :: "string list option"
  st_vault :: js
  st_proxies :: "TableProxy list option"
  st_system :: js
  st_upgradeTimelockEnv :: js

datatype SystemName = Vaults | Gateway

record TableSystem =
  sy_description :: string
  sy_stages :: "string list"
  sy_requires :: "js list"

record UpgradeAuthority =
  ua_stage :: string
  ua_contract :: string
  ua_inputs :: "string list"
  ua_modeEnv :: string
  ua_modes :: "string list"
  ua_transactionsPerProxy :: int

record TableVault =
  tv_key :: js
  tv_stage :: string
  tv_artifact :: js
  tv_manifest :: string
  tv_row :: js

record TableLibrary =
  lib_name :: js
  lib_artifact :: js
  lib_manifestKey :: js
  lib_path :: js

record TableCreate2Library =
  c2_name :: js
  c2_artifact :: js
  c2_path :: js

record TableRedeploy =
  rd_vault :: js
  rd_script :: string
  rd_requiredEnv :: "string list"
  rd_optionalEnv :: "string list"
  rd_manifest :: string
  rd_libraries :: "string list"
  rd_create2Libraries :: "string list option"

record StageTable =
  tb_systems :: "(string \<times> TableSystem) list option"
  tb_stages :: "TableStage list"
  tb_upgradeAuthority :: "UpgradeAuthority option"
  tb_vaults :: "TableVault list"
  tb_libraries :: "TableLibrary list"
  tb_create2Libraries :: "TableCreate2Library list option"
  tb_redeploys :: "TableRedeploy list option"
  tb_vaultRuleDecisions :: js
  tb_artifacts :: js

definition SYSTEM_NAMES :: "string list" where "SYSTEM_NAMES = [''vaults'', ''gateway'']"

definition system_text :: "SystemName \<Rightarrow> string" where
  "system_text s = (case s of Vaults \<Rightarrow> ''vaults'' | Gateway \<Rightarrow> ''gateway'')"

section \<open>Reading fields\<close>

definition bad :: failure where "bad = PublishError INPUT_MISSING"

definition must :: "bool \<Rightarrow> failure + unit" where "must b = ensure b bad"

definition js_text :: "js \<Rightarrow> failure + string" where
  "js_text v = of_option bad (jstr v)"

definition strList :: "js \<Rightarrow> failure + string list" where
  "strList v = (case v of JArr xs \<Rightarrow> map_res js_text xs | _ \<Rightarrow> Inl bad)"

definition optStrList :: "js \<Rightarrow> failure + string list option" where
  "optStrList v = (if v = JUndef then Inr None else res_bind (strList v) (\<lambda>xs. Inr (Some xs)))"

definition text_where :: "(string \<Rightarrow> bool) \<Rightarrow> js \<Rightarrow> failure + string" where
  "text_where p v = res_bind (js_text v) (\<lambda>s. res_bind (must (p s)) (\<lambda>_. Inr s))"

section \<open>parseStageTable, the stages\<close>

text \<open>
  The fields of a stage the first loop checks, in its order. The proxies, the system and the explicit
  upgrade timelock are checked later and read as they are.
\<close>

definition proxy_of :: "js \<Rightarrow> TableProxy" where
  "proxy_of p = (let t = \<lambda>k. case jget p k of JStr s \<Rightarrow> s | _ \<Rightarrow> [] in
     \<lparr>px_field = t ''field'', px_implementationField = t ''implementationField'', px_contract = t ''contract'', px_layout = t ''layout''\<rparr>)"

definition proxies_of :: "js \<Rightarrow> TableProxy list option" where
  "proxies_of v = (if v = JUndef then None else Some (case v of JArr ps \<Rightarrow> map proxy_of ps | _ \<Rightarrow> []))"

definition parse_stage :: "js \<Rightarrow> failure + TableStage" where
  "parse_stage s =
     res_bind (text_where (\<lambda>n. n \<noteq> []) (jget s ''name'')) (\<lambda>name.
     res_bind (must (jget s ''kind'' = JStr ''forge'')) (\<lambda>_.
     res_bind (text_where script_path (jget s ''script'')) (\<lambda>script.
     res_bind (strList (jget s ''requiredEnv'')) (\<lambda>req.
     res_bind (strList (jget s ''optionalEnv'')) (\<lambda>opt.
     res_bind (strList (jget s ''libraries'')) (\<lambda>libs.
     res_bind (text_where manifest_template (jget s ''manifest'')) (\<lambda>manifest.
     Inr \<lparr>st_name = name, st_script = script, st_requiredEnv = req, st_optionalEnv = opt, st_manifest = manifest,
          st_libraries = libs, st_create2Libraries = None, st_vault = jget s ''vault'',
          st_proxies = proxies_of (jget s ''proxies''), st_system = jget s ''system'',
          st_upgradeTimelockEnv = jget s ''upgradeTimelockEnv''\<rparr>)))))))"

text \<open>The first loop: the name must be new before the rest of the row is read.\<close>

fun parse_stages :: "string list \<Rightarrow> js list \<Rightarrow> failure + TableStage list" where
  "parse_stages names [] = Inr []"
| "parse_stages names (s # ss) =
     res_bind (text_where (\<lambda>n. n \<noteq> [] \<and> n \<notin> set names) (jget s ''name'')) (\<lambda>name.
     res_bind (parse_stage s) (\<lambda>st.
     res_bind (parse_stages (name # names) ss) (\<lambda>sts. Inr (st # sts))))"

section \<open>parseStageTable, the libraries\<close>

definition parse_library :: "js \<Rightarrow> failure + TableLibrary" where
  "parse_library l =
     res_bind (must (truthy (jget l ''name'') \<and> truthy (jget l ''artifact'') \<and> truthy (jget l ''manifestKey'') \<and> truthy (jget l ''path''))) (\<lambda>_.
     Inr \<lparr>lib_name = jget l ''name'', lib_artifact = jget l ''artifact'', lib_manifestKey = jget l ''manifestKey'', lib_path = jget l ''path''\<rparr>)"

definition parse_create2 :: "js \<Rightarrow> failure + TableCreate2Library" where
  "parse_create2 l =
     res_bind (must (truthy (jget l ''name'') \<and> truthy (jget l ''artifact'') \<and> truthy (jget l ''path''))) (\<lambda>_.
     Inr \<lparr>c2_name = jget l ''name'', c2_artifact = jget l ''artifact'', c2_path = jget l ''path''\<rparr>)"

text \<open>The stage's own \<open>create2Libraries\<close>, all of them known.\<close>

definition stage_create2 :: "js list \<Rightarrow> js \<Rightarrow> failure + string list option" where
  "stage_create2 c2Names v =
     res_bind (optStrList v) (\<lambda>ls.
     res_bind (must (case ls of None \<Rightarrow> True | Some xs \<Rightarrow> \<forall>l \<in> set xs. JStr l \<in> set c2Names)) (\<lambda>_. Inr ls))"

fun stages_create2 :: "js list \<Rightarrow> js list \<Rightarrow> TableStage list \<Rightarrow> failure + TableStage list" where
  "stages_create2 c2Names (s # ss) (st # sts) =
     res_bind (stage_create2 c2Names (jget s ''create2Libraries'')) (\<lambda>ls.
     res_bind (stages_create2 c2Names ss sts) (\<lambda>rest. Inr (st\<lparr>st_create2Libraries := ls\<rparr> # rest)))"
| "stages_create2 c2Names _ _ = Inr []"

section \<open>systemProblems\<close>

definition parse_system :: "js \<Rightarrow> TableStage list \<Rightarrow> string \<times> js \<Rightarrow> failure + (string \<times> TableSystem)" where
  "parse_system sys stages = (\<lambda>(name, def).
     res_bind (must (name \<in> set SYSTEM_NAMES)) (\<lambda>_.
     res_bind (js_text (jget def ''description'')) (\<lambda>descr.
     res_bind (strList (jget def ''stages'')) (\<lambda>listed.
     res_bind (must (map st_name (filter (\<lambda>s. st_system s = JStr name) stages) = listed)) (\<lambda>_.
     res_bind (of_option bad (js_list (jget def ''requires''))) (\<lambda>reqs.
     res_bind (must (\<forall>r \<in> set reqs. js_in r sys \<and> r \<noteq> JStr name)) (\<lambda>_.
     Inr (name, \<lparr>sy_description = descr, sy_stages = listed, sy_requires = reqs\<rparr>))))))))"

definition systemProblems :: "js \<Rightarrow> TableStage list \<Rightarrow> failure + (string \<times> TableSystem) list option" where
  "systemProblems sys stages =
     (if sys = JUndef then
        res_bind (must (\<forall>s \<in> set stages. st_system s = JUndef)) (\<lambda>_. Inr None)
      else
        res_bind (must (is_record sys)) (\<lambda>_.
        res_bind (map_res (parse_system sys stages) (entries sys)) (\<lambda>defs.
        res_bind (must (\<forall>s \<in> set stages. st_system s \<noteq> JUndef \<and> js_in (st_system s) sys)) (\<lambda>_.
        res_bind (must (case map_of defs ''vaults'' of None \<Rightarrow> True | Some v \<Rightarrow> sy_requires v = [])) (\<lambda>_.
        Inr (Some defs))))))"

section \<open>upgradeProblems\<close>

definition parse_authority :: "js \<Rightarrow> failure + UpgradeAuthority" where
  "parse_authority u =
     res_bind (js_text (jget u ''stage'')) (\<lambda>stage.
     res_bind (js_text (jget u ''contract'')) (\<lambda>contract.
     res_bind (must (jget u ''address'' = JStr ''create2'' \<and> hex_of_len 40 (js_String (jget u ''factory'')))) (\<lambda>_.
     res_bind (text_where (\<lambda>s. s \<noteq> []) (jget u ''salt'')) (\<lambda>_.
     res_bind (strList (jget u ''inputs'')) (\<lambda>inputs.
     res_bind (strList (jget u ''modes'')) (\<lambda>modes.
     res_bind (text_where (\<lambda>s. s \<noteq> []) (jget u ''modeEnv'')) (\<lambda>modeEnv.
     res_bind (of_option bad (case jget u ''transactionsPerProxy'' of JNum n \<Rightarrow> if n < 1 then None else Some n | _ \<Rightarrow> None)) (\<lambda>txs.
     res_bind (text_where LAYOUT (jget u ''layoutPins'')) (\<lambda>_.
     Inr \<lparr>ua_stage = stage, ua_contract = contract, ua_inputs = inputs, ua_modeEnv = modeEnv, ua_modes = modes,
          ua_transactionsPerProxy = txs\<rparr>)))))))))"

text \<open>
  \<open>s.proxies !== undefined && s.proxies.length > 0\<close>; a number and a boolean have no length. An object
  is refused whatever length it claims: it cannot be iterated.
\<close>

definition has_proxies :: "js \<Rightarrow> failure + bool" where
  "has_proxies v = (case v of JUndef \<Rightarrow> Inr False | JNull \<Rightarrow> Inl TypeError
     | JArr ps \<Rightarrow> Inr (ps \<noteq> []) | JStr s \<Rightarrow> Inr (s \<noteq> []) | JObj _ \<Rightarrow> Inl TypeError
     | _ \<Rightarrow> Inr False)"

text \<open>\<open>for (const p of v)\<close> with the check of one proxy; a string has one-character strings, which have no field.\<close>

definition check_proxy :: "js \<Rightarrow> failure + unit" where
  "check_proxy p =
     res_bind (text_where (\<lambda>s. s \<noteq> []) (jget p ''field'')) (\<lambda>_.
     res_bind (text_where (\<lambda>s. s \<noteq> []) (jget p ''implementationField'')) (\<lambda>_.
     res_bind (text_where (\<lambda>s. s \<noteq> []) (jget p ''contract'')) (\<lambda>_.
     res_bind (text_where LAYOUT (jget p ''layout'')) (\<lambda>_. Inr ()))))"

definition check_proxies :: "js \<Rightarrow> failure + unit" where
  "check_proxies v = (case v of JArr ps \<Rightarrow> each_res check_proxy ps | JStr _ \<Rightarrow> Inl bad | _ \<Rightarrow> Inl TypeError)"

definition check_proxy_stage :: "UpgradeAuthority \<Rightarrow> nat \<Rightarrow> nat \<Rightarrow> js \<Rightarrow> TableStage \<Rightarrow> failure + unit" where
  "check_proxy_stage u at i proxies s =
     res_bind (has_proxies proxies) (\<lambda>listed.
     res_bind (must ((ua_modeEnv u \<in> set (st_requiredEnv s)) = listed)) (\<lambda>_.
     if \<not> truthy proxies then Inr ()
     else res_bind
       (if st_upgradeTimelockEnv s \<noteq> JUndef then
          res_bind (must (st_upgradeTimelockEnv s \<in> JStr ` set (st_requiredEnv s))) (\<lambda>_.
          res_bind (must (\<forall>x \<in> set (ua_inputs u). x \<notin> set (st_requiredEnv s))) (\<lambda>_.
          must (st_system s \<noteq> JStr ''vaults'')))
        else
          res_bind (must (\<forall>x \<in> set (ua_inputs u). x \<in> set (st_requiredEnv s))) (\<lambda>_.
          must (i \<le> at)))
       (\<lambda>_. check_proxies proxies)))"

fun check_proxy_stages :: "UpgradeAuthority \<Rightarrow> nat \<Rightarrow> nat \<Rightarrow> js list \<Rightarrow> TableStage list \<Rightarrow> failure + unit" where
  "check_proxy_stages u at i (v # vs) (s # ss) =
     res_bind (check_proxy_stage u at i v s) (\<lambda>_. check_proxy_stages u at (Suc i) vs ss)"
| "check_proxy_stages u at i _ _ = Inr ()"

text \<open>\<open>findIndex\<close>, with \<^const>\<open>None\<close> for -1.\<close>

fun findIndex :: "('a \<Rightarrow> bool) \<Rightarrow> 'a list \<Rightarrow> nat option" where
  "findIndex p [] = None"
| "findIndex p (x # xs) = (if p x then Some 0 else map_option Suc (findIndex p xs))"

definition upgradeProblems :: "js \<Rightarrow> js list \<Rightarrow> TableStage list \<Rightarrow> failure + UpgradeAuthority option" where
  "upgradeProblems u raw_stages stages =
     (let proxies = map (\<lambda>s. jget s ''proxies'') raw_stages in
      if \<not> truthy u then
        res_bind (must (\<forall>v \<in> set proxies. v = JUndef)) (\<lambda>_. Inr None)
      else
        res_bind (parse_authority u) (\<lambda>a.
        res_bind (of_option bad (findIndex (\<lambda>s. st_name s = ua_stage a) stages)) (\<lambda>at.
        res_bind (check_proxy_stages a at 0 proxies stages) (\<lambda>_. Inr (Some a)))))"

section \<open>parseStageTable\<close>

text \<open>
  One redeploy row. The vault is looked up by \<open>===\<close>, so a row with no vault finds a vault row with no key;
  such a vault row is refused at the end.
\<close>

fun find_vault :: "js \<Rightarrow> js list \<Rightarrow> failure + js" where
  "find_vault k [] = Inl bad"
| "find_vault k (x # xs) = res_bind (dot x ''key'') (\<lambda>key. if js_seq key k then Inr x else find_vault k xs)"

definition parse_redeploy :: "js list \<Rightarrow> js list \<Rightarrow> js list \<Rightarrow> js \<Rightarrow> failure + TableRedeploy" where
  "parse_redeploy vaults libNames c2Names r =
     res_bind (find_vault (jget r ''vault'') vaults) (\<lambda>v.
     res_bind (dot r ''vault'') (\<lambda>key.
     res_bind (text_where script_path (jget r ''script'')) (\<lambda>script.
     res_bind (strList (jget r ''requiredEnv'')) (\<lambda>req.
     res_bind (strList (jget r ''optionalEnv'')) (\<lambda>opt.
     res_bind (strList (jget r ''libraries'')) (\<lambda>libs.
     res_bind (must (js_seq (jget r ''manifest'') (jget v ''manifest''))) (\<lambda>_.
     res_bind (must (\<forall>l \<in> set libs. JStr l \<in> set libNames)) (\<lambda>_.
     res_bind (stage_create2 c2Names (jget r ''create2Libraries'')) (\<lambda>c2.
     Inr \<lparr>rd_vault = key, rd_script = script, rd_requiredEnv = req, rd_optionalEnv = opt, rd_manifest = js_String (jget r ''manifest''),
          rd_libraries = libs, rd_create2Libraries = c2\<rparr>)))))))))"

fun parse_redeploys :: "js list \<Rightarrow> js list \<Rightarrow> js list \<Rightarrow> js list \<Rightarrow> js list \<Rightarrow> failure + TableRedeploy list" where
  "parse_redeploys vaults libNames c2Names seen [] = Inr []"
| "parse_redeploys vaults libNames c2Names seen (r # rs) =
     res_bind (find_vault (jget r ''vault'') vaults) (\<lambda>_.
     res_bind (dot r ''vault'') (\<lambda>key.
     res_bind (must (key \<notin> set seen)) (\<lambda>_.
     res_bind (parse_redeploy vaults libNames c2Names r) (\<lambda>row.
     res_bind (parse_redeploys vaults libNames c2Names (key # seen) rs) (\<lambda>rows. Inr (row # rows))))))"

definition redeploy_rows :: "js \<Rightarrow> js list \<Rightarrow> js list \<Rightarrow> js list \<Rightarrow> failure + TableRedeploy list option" where
  "redeploy_rows v vaults libNames c2Names =
     (if v = JUndef then Inr None
      else res_bind (of_option bad (js_list v)) (\<lambda>rs.
           res_bind (parse_redeploys vaults libNames c2Names [] rs) (\<lambda>rows. Inr (Some rows))))"

text \<open>The last loop: a vault row agrees with the stage it names.\<close>

definition parse_vault :: "TableStage list \<Rightarrow> js \<Rightarrow> failure + TableVault" where
  "parse_vault stages v =
     res_bind (dot v ''key'') (\<lambda>key.
     res_bind (must (truthy key \<and> truthy (jget v ''artifact'') \<and> truthy (jget v ''manifest''))) (\<lambda>_.
     res_bind (of_option bad (find (\<lambda>s. jget v ''stage'' = JStr (st_name s)) stages)) (\<lambda>st.
     res_bind (must (js_seq (st_vault st) key \<and> jget v ''manifest'' = JStr (st_manifest st))) (\<lambda>_.
     Inr \<lparr>tv_key = key, tv_stage = st_name st, tv_artifact = jget v ''artifact'', tv_manifest = st_manifest st, tv_row = v\<rparr>))))"

definition parseStageTable :: "js \<Rightarrow> failure + StageTable" where
  "parseStageTable t =
     res_bind (must (js_object t \<and> jget t ''version'' = JNum 1)) (\<lambda>_.
     res_bind (of_option bad (js_list (jget t ''stages''))) (\<lambda>raw.
     res_bind (must (raw \<noteq> [])) (\<lambda>_.
     res_bind (of_option bad (js_list (jget t ''vaults''))) (\<lambda>vaults.
     res_bind (of_option bad (js_list (jget t ''libraries''))) (\<lambda>libs.
     res_bind (must (js_object (jget t ''artifacts''))) (\<lambda>_.
     res_bind (parse_stages [] raw) (\<lambda>stages0.
     res_bind (map_res (\<lambda>l. dot l ''name'') libs) (\<lambda>libNames.
     res_bind (must (\<forall>s \<in> set stages0. \<forall>l \<in> set (st_libraries s). JStr l \<in> set libNames)) (\<lambda>_.
     res_bind (of_option bad (js_list (jcoalesce (jget t ''create2Libraries'') (JArr [])))) (\<lambda>c2.
     res_bind (map_res parse_create2 c2) (\<lambda>c2rows.
     res_bind (stages_create2 (map c2_name c2rows) raw stages0) (\<lambda>stages.
     res_bind (map_res parse_library libs) (\<lambda>librows.
     res_bind (systemProblems (jget t ''systems'') stages) (\<lambda>systems.
     res_bind (upgradeProblems (jget t ''upgradeAuthority'') raw stages) (\<lambda>authority.
     res_bind (redeploy_rows (jget t ''redeploys'') vaults libNames (map c2_name c2rows)) (\<lambda>redeploys.
     res_bind (map_res (parse_vault stages) vaults) (\<lambda>vaultrows.
     Inr \<lparr>tb_systems = systems, tb_stages = stages, tb_upgradeAuthority = authority, tb_vaults = vaultrows, tb_libraries = librows,
          tb_create2Libraries = (if jnullish (jget t ''create2Libraries'') then None else Some c2rows),
          tb_redeploys = redeploys, tb_vaultRuleDecisions = jget t ''vaultRuleDecisions'', tb_artifacts = jget t ''artifacts''\<rparr>)))))))))))))))))"

section \<open>Readers of the table\<close>

definition redeployRow :: "StageTable \<Rightarrow> js \<Rightarrow> failure + TableRedeploy" where
  "redeployRow t vault =
     of_option bad (case tb_redeploys t of None \<Rightarrow> None | Some rs \<Rightarrow> find (\<lambda>r. js_seq (rd_vault r) vault) rs)"

text \<open>\<open>basename\<close> of a path that a template regular expression has accepted: what follows the last slash.\<close>

definition manifestFile :: "string \<Rightarrow> string" where
  "manifestFile template = last (split_on (CHR ''/'') template)"

definition manifestBase :: "string \<Rightarrow> string" where
  "manifestBase template =
     (case drop_suffix ''.json'' (manifestFile template) of Some b \<Rightarrow> if b = [] then manifestFile template else b | None \<Rightarrow> manifestFile template)"

text \<open>\<open>template.replace("<chain>", String(chainId))\<close>: the first occurrence.\<close>

fun replace_first :: "string \<Rightarrow> string \<Rightarrow> string \<Rightarrow> string" where
  "replace_first pat rep [] = (if pat = [] then rep else [])"
| "replace_first pat rep (c # s) =
     (if starts_with pat (c # s) then rep @ drop (length pat) (c # s) else c # replace_first pat rep s)"

definition manifestPathFor :: "string \<Rightarrow> int \<Rightarrow> string" where
  "manifestPathFor template chainId = replace_first ''<chain>'' (show_int chainId) template"

datatype table_view = System SystemName | Legacy

definition in_system :: "string \<Rightarrow> TableStage \<Rightarrow> bool" where
  "in_system name s = (st_system s = JStr name)"

definition scopeTable :: "StageTable \<Rightarrow> table_view \<Rightarrow> StageTable" where
  "scopeTable t view =
     (if tb_systems t = None then t
      else case view of
        Legacy \<Rightarrow>
          (let rest = filter (\<lambda>s. \<not> in_system ''gateway'' s) (tb_stages t) in
           case find (\<lambda>s. st_name s = ''gateway'') (tb_stages t) of
             None \<Rightarrow> t\<lparr>tb_stages := rest\<rparr>
           | Some gw \<Rightarrow>
               (case findIndex (\<lambda>s. st_name s = ''router'') rest of
                  None \<Rightarrow> t\<lparr>tb_stages := rest @ [gw]\<rparr>
                | Some at \<Rightarrow> t\<lparr>tb_stages := take (at + 1) rest @ [gw] @ drop (at + 1) rest\<rparr>))
      | System sn \<Rightarrow> t\<lparr>tb_stages := filter (in_system (system_text sn)) (tb_stages t)\<rparr>)"

section \<open>vaultRules\<close>

definition VAULT_RULE_FIELDS :: "string list" where
  "VAULT_RULE_FIELDS = [''deployPaused'', ''unpauseRow'', ''unpauseInStage13'', ''seed'', ''eligibilitySource'', ''emergencyLevers'', ''registryNameSource'']"

text \<open>\<open>/^https:\/\/github\.com\/robotmoney\/robotmoney-(?:core|devops)\/issues\/\d+$/\<close>\<close>

definition DECISION_LINK :: "string \<Rightarrow> bool" where
  "DECISION_LINK s =
     (\<exists>repo \<in> set [''core'', ''devops''].
        case drop_prefix (''https://github.com/robotmoney/robotmoney-'' @ repo @ ''/issues/'') s of
          None \<Rightarrow> False | Some n \<Rightarrow> all_digits n)"

definition js_bool :: "js \<Rightarrow> bool option" where
  "js_bool v = (case v of JBool b \<Rightarrow> Some b | _ \<Rightarrow> None)"

text \<open>\<open>/^(?:sheet:[A-Z][A-Z0-9_]*|script-constant)$/\<close>\<close>

definition registry_name_source :: "string \<Rightarrow> bool" where
  "registry_name_source s =
     (s = ''script-constant'' \<or> (case drop_prefix ''sheet:'' s of None \<Rightarrow> False | Some n \<Rightarrow> sheet_name n))"

definition check_vault_rules :: "js \<Rightarrow> failure + unit" where
  "check_vault_rules v =
     res_bind (must (\<forall>f \<in> set VAULT_RULE_FIELDS. js_in (JStr f) v)) (\<lambda>_.
     res_bind (of_option bad (js_bool (jget v ''deployPaused''))) (\<lambda>paused.
     res_bind (of_option bad (js_bool (jget v ''unpauseInStage13''))) (\<lambda>in13.
     res_bind (must (jget v ''unpauseRow'' = JStr (''unpause-'' @ js_String (jget v ''key'')))) (\<lambda>_.
     res_bind (must (\<not> (in13 \<and> \<not> paused))) (\<lambda>_.
     res_bind (must (jget v ''seed'' = JNull \<or> (case jget v ''seed'' of JStr s \<Rightarrow> sheet_name s | _ \<Rightarrow> False))) (\<lambda>_.
     res_bind (must (jget v ''eligibilitySource'' = JStr ''router-stage'' \<or> jget v ''eligibilitySource'' = JStr ''sheet:ROUTER_DEFAULT_BPS'')) (\<lambda>_.
     res_bind (strList (jget v ''emergencyLevers'')) (\<lambda>_.
     res_bind (text_where registry_name_source (jget v ''registryNameSource'')) (\<lambda>_. Inr ())))))))))"

text \<open>\<open>JSON.stringify(a) === JSON.stringify(b)\<close> on decoded values: the values are equal, keys in the same order.\<close>

definition sameValue :: "js \<Rightarrow> js \<Rightarrow> bool" where
  "sameValue a b = (a = b)"

definition norm_rule :: "string \<Rightarrow> js \<Rightarrow> js" where
  "norm_rule f v = (if f = ''unpauseRow'' then JStr ''unpause-<KEY>'' else jget v f)"

definition rule_differs :: "string \<Rightarrow> js list \<Rightarrow> bool" where
  "rule_differs f vs = (case vs of [] \<Rightarrow> False | v0 # _ \<Rightarrow> \<exists>v \<in> set vs. \<not> sameValue (norm_rule f v) (norm_rule f v0))"

definition decision_ok :: "js \<Rightarrow> bool" where
  "decision_ok d =
     (truthy d \<and> (case jget d ''reason'' of JStr r \<Rightarrow> r \<noteq> [] | _ \<Rightarrow> False)
        \<and> (case jget d ''decision'' of JStr l \<Rightarrow> DECISION_LINK l | _ \<Rightarrow> False))"

definition check_decision :: "js list \<Rightarrow> js \<Rightarrow> string \<Rightarrow> failure + unit" where
  "check_decision vs decisions f =
     (let d = jget decisions f in
      res_bind (must (\<not> (rule_differs f vs \<and> \<not> decision_ok d))) (\<lambda>_.
      must (\<not> (\<not> rule_differs f vs \<and> truthy d))))"

definition js_keys :: "js \<Rightarrow> string list" where
  "js_keys v = (case v of JObj kvs \<Rightarrow> map fst kvs | JArr xs \<Rightarrow> map show_nat [0..<length xs] | JStr s \<Rightarrow> map show_nat [0..<length s] | _ \<Rightarrow> [])"

definition vaultRules :: "StageTable \<Rightarrow> failure + TableVault list" where
  "vaultRules t =
     (let vs = map tv_row (tb_vaults t); decisions = jcoalesce (tb_vaultRuleDecisions t) (JObj []) in
      res_bind (each_res check_vault_rules vs) (\<lambda>_.
      res_bind (each_res (check_decision vs decisions) VAULT_RULE_FIELDS) (\<lambda>_.
      res_bind (must (\<forall>k \<in> set (js_keys decisions). k \<in> set VAULT_RULE_FIELDS)) (\<lambda>_.
      Inr (tb_vaults t)))))"

section \<open>What a parsed table is\<close>

text \<open>
  The contract of the parser, one predicate per part of the document.
\<close>

definition stages_wf :: "TableStage list \<Rightarrow> bool" where
  "stages_wf ss \<longleftrightarrow>
     ss \<noteq> [] \<and> distinct (map st_name ss)
     \<and> (\<forall>s \<in> set ss. st_name s \<noteq> [] \<and> script_path (st_script s) \<and> manifest_template (st_manifest s))"

definition links_wf :: "StageTable \<Rightarrow> bool" where
  "links_wf t \<longleftrightarrow>
     (\<forall>s \<in> set (tb_stages t).
        (\<forall>l \<in> set (st_libraries s). \<exists>r \<in> set (tb_libraries t). lib_name r = JStr l)
        \<and> (\<forall>ls. st_create2Libraries s = Some ls \<longrightarrow>
             (\<forall>l \<in> set ls. \<exists>rs. tb_create2Libraries t = Some rs \<and> (\<exists>r \<in> set rs. c2_name r = JStr l))))"

definition systems_wf :: "StageTable \<Rightarrow> bool" where
  "systems_wf t \<longleftrightarrow>
     (case tb_systems t of
        None \<Rightarrow> (\<forall>s \<in> set (tb_stages t). st_system s = JUndef)
      | Some defs \<Rightarrow>
          (\<forall>(n, d) \<in> set defs. n \<in> set SYSTEM_NAMES
             \<and> sy_stages d = map st_name (filter (in_system n) (tb_stages t)))
          \<and> (\<forall>d. map_of defs ''vaults'' = Some d \<longrightarrow> sy_requires d = []))"

definition stage_upgrade_wf :: "UpgradeAuthority \<Rightarrow> nat \<Rightarrow> nat \<Rightarrow> TableStage \<Rightarrow> bool" where
  "stage_upgrade_wf a at i s \<longleftrightarrow>
     (ua_modeEnv a \<in> set (st_requiredEnv s) \<longleftrightarrow> (\<exists>p ps. st_proxies s = Some (p # ps)))
     \<and> (\<forall>p ps. st_proxies s = Some (p # ps) \<longrightarrow>
          (if st_upgradeTimelockEnv s = JUndef
           then set (ua_inputs a) \<subseteq> set (st_requiredEnv s) \<and> i \<le> at
           else st_upgradeTimelockEnv s \<in> JStr ` set (st_requiredEnv s)
                \<and> set (ua_inputs a) \<inter> set (st_requiredEnv s) = {} \<and> st_system s \<noteq> JStr ''vaults''))"

definition upgrades_wf :: "StageTable \<Rightarrow> bool" where
  "upgrades_wf t \<longleftrightarrow>
     (case tb_upgradeAuthority t of
        None \<Rightarrow> (\<forall>s \<in> set (tb_stages t). st_proxies s = None)
      | Some a \<Rightarrow>
          (\<exists>at < length (tb_stages t). st_name (tb_stages t ! at) = ua_stage a
             \<and> (\<forall>i < length (tb_stages t). stage_upgrade_wf a at i (tb_stages t ! i))))"

definition vaults_wf :: "StageTable \<Rightarrow> bool" where
  "vaults_wf t \<longleftrightarrow>
     (\<forall>v \<in> set (tb_vaults t). \<exists>s \<in> set (tb_stages t).
        st_name s = tv_stage v \<and> st_vault s = tv_key v \<and> st_manifest s = tv_manifest v)"

definition redeploys_wf :: "StageTable \<Rightarrow> bool" where
  "redeploys_wf t \<longleftrightarrow>
     (\<forall>rs. tb_redeploys t = Some rs \<longrightarrow>
        distinct (map rd_vault rs)
        \<and> (\<forall>r \<in> set rs. \<exists>v \<in> set (tb_vaults t). tv_key v = rd_vault r \<and> tv_manifest v = rd_manifest r))"

definition table_wf :: "StageTable \<Rightarrow> bool" where
  "table_wf t \<longleftrightarrow> stages_wf (tb_stages t) \<and> links_wf t \<and> systems_wf t \<and> upgrades_wf t \<and> vaults_wf t \<and> redeploys_wf t"

subsection \<open>Stages\<close>

lemma must_Inr [simp]: "must b = Inr u \<longleftrightarrow> b"
  by (simp add: must_def)

lemma js_text_Inr [simp]: "js_text v = Inr s \<longleftrightarrow> v = JStr s"
  by (cases v) (auto simp: js_text_def jstr_def)

lemma text_where_Inr [simp]: "text_where p v = Inr s \<longleftrightarrow> v = JStr s \<and> p s"
  by (auto simp: text_where_def)

lemma parse_stage_wf:
  "parse_stage s = Inr st \<Longrightarrow>
     jget s ''name'' = JStr (st_name st) \<and> st_name st \<noteq> [] \<and> script_path (st_script st) \<and> manifest_template (st_manifest st)
     \<and> st_proxies st = proxies_of (jget s ''proxies'')"
  by (auto simp: parse_stage_def)

lemma parse_stages_wf:
  "parse_stages names ss = Inr sts \<Longrightarrow>
     distinct (map st_name sts) \<and> set names \<inter> set (map st_name sts) = {} \<and> length sts = length ss
     \<and> map st_proxies sts = map (\<lambda>s. proxies_of (jget s ''proxies'')) ss
     \<and> (\<forall>s \<in> set sts. st_name s \<noteq> [] \<and> script_path (st_script s) \<and> manifest_template (st_manifest s))"
proof (induction names ss arbitrary: sts rule: parse_stages.induct)
  case (2 names s ss)
  then obtain name st rest where name: "jget s ''name'' = JStr name" "name \<notin> set names"
    and st: "parse_stage s = Inr st" and rest: "parse_stages (name # names) ss = Inr rest" and sts: "sts = st # rest"
    by auto
  have IH: "distinct (map st_name rest) \<and> set (name # names) \<inter> set (map st_name rest) = {} \<and> length rest = length ss
     \<and> map st_proxies rest = map (\<lambda>s. proxies_of (jget s ''proxies'')) ss
     \<and> (\<forall>s \<in> set rest. st_name s \<noteq> [] \<and> script_path (st_script s) \<and> manifest_template (st_manifest s))"
    using "2.IH" name st rest by fastforce
  from parse_stage_wf [OF st] name have "st_name st = name" by simp
  with IH parse_stage_wf [OF st] name sts show ?case by auto
qed simp

text \<open>What the later loops leave of a stage.\<close>

definition same_stage :: "TableStage \<Rightarrow> TableStage \<Rightarrow> bool" where
  "same_stage a b \<longleftrightarrow> a\<lparr>st_create2Libraries := None\<rparr> = b\<lparr>st_create2Libraries := None\<rparr>"

lemma same_stage_fields:
  "same_stage a b \<Longrightarrow> st_name a = st_name b \<and> st_script a = st_script b \<and> st_manifest a = st_manifest b
     \<and> st_proxies a = st_proxies b \<and> st_libraries a = st_libraries b"
  by (cases a; cases b) (simp add: same_stage_def)

lemma stage_create2_known:
  "stage_create2 names v = Inr (Some ls) \<Longrightarrow> \<forall>l \<in> set ls. JStr l \<in> set names"
  by (auto simp: stage_create2_def)

lemma stages_create2_wf:
  "stages_create2 names ss sts = Inr sts' \<Longrightarrow> length sts = length ss \<Longrightarrow>
     list_all2 same_stage sts sts'
     \<and> (\<forall>s \<in> set sts'. \<forall>ls. st_create2Libraries s = Some ls \<longrightarrow> (\<forall>l \<in> set ls. JStr l \<in> set names))"
proof (induction names ss sts arbitrary: sts' rule: stages_create2.induct)
  case (1 c2Names s ss st sts)
  from "1.prems" obtain ls rest where ls: "stage_create2 c2Names (jget s ''create2Libraries'') = Inr ls"
    and rest: "stages_create2 c2Names ss sts = Inr rest" and sts': "sts' = st\<lparr>st_create2Libraries := ls\<rparr> # rest"
    and len: "length sts = length ss"
    by (auto simp del: of_option_Inr)
  have "same_stage st (st\<lparr>st_create2Libraries := ls\<rparr>)" by (simp add: same_stage_def)
  with "1.IH" [OF rest len] stage_create2_known [of c2Names "jget s ''create2Libraries''"] ls sts'
  show ?case by auto
qed auto

lemma same_stages_maps:
  assumes "list_all2 same_stage sts sts'"
  shows "map st_name sts' = map st_name sts" "map st_proxies sts' = map st_proxies sts"
    "map st_script sts' = map st_script sts" "map st_manifest sts' = map st_manifest sts" "map st_libraries sts' = map st_libraries sts"
  using assms by (induction rule: list_all2_induct) (auto dest: same_stage_fields)

lemma list_all2_set2: "list_all2 P xs ys \<Longrightarrow> y \<in> set ys \<Longrightarrow> \<exists>x \<in> set xs. P x y"
  by (induction rule: list_all2_induct) auto

lemma stages_wf_same:
  assumes same: "list_all2 same_stage sts sts'" and wf: "stages_wf sts"
  shows "stages_wf sts'"
proof -
  have "st_name s \<noteq> [] \<and> script_path (st_script s) \<and> manifest_template (st_manifest s)" if "s \<in> set sts'" for s
    using list_all2_set2 [OF same that] wf by (auto simp: stages_wf_def dest!: same_stage_fields)
  moreover have "sts' \<noteq> []" using same wf by (auto simp: stages_wf_def)
  ultimately show ?thesis using wf by (simp add: stages_wf_def same_stages_maps [OF same])
qed

subsection \<open>Systems\<close>

lemma parse_system_wf:
  "parse_system sys stages nd = Inr (n, d) \<Longrightarrow>
     n \<in> set SYSTEM_NAMES \<and> sy_stages d = map st_name (filter (in_system n) stages)"
  by (cases nd) (auto simp: parse_system_def in_system_def [abs_def])

lemma systemProblems_wf:
  assumes "systemProblems sys stages = Inr systems" and "tb_stages t = stages" and "tb_systems t = systems"
  shows "systems_wf t"
proof (cases "sys = JUndef")
  case True
  with assms show ?thesis by (auto simp: systemProblems_def systems_wf_def)
next
  case False
  with assms(1) obtain defs where defs: "map_res (parse_system sys stages) (entries sys) = Inr defs"
    and v: "case map_of defs ''vaults'' of None \<Rightarrow> True | Some v \<Rightarrow> sy_requires v = []" and sy: "systems = Some defs"
    by (auto simp: systemProblems_def)
  have "n \<in> set SYSTEM_NAMES \<and> sy_stages d = map st_name (filter (in_system n) stages)" if "(n, d) \<in> set defs" for n d
    using map_res_set [OF defs that] parse_system_wf by blast
  with v sy assms(2,3) show ?thesis by (auto simp: systems_wf_def)
qed

subsection \<open>Upgrades\<close>

lemma findIndex_Some:
  "findIndex p xs = Some i \<Longrightarrow> i < length xs \<and> p (xs ! i) \<and> (\<forall>j < i. \<not> p (xs ! j))"
proof (induction xs arbitrary: i)
  case (Cons x xs)
  show ?case
  proof (cases "p x")
    case True
    with Cons.prems show ?thesis by auto
  next
    case False
    with Cons.prems obtain k where "findIndex p xs = Some k" "i = Suc k" by auto
    with Cons.IH [of k] False show ?thesis by (auto simp: nth_Cons split: nat.splits)
  qed
qed simp

lemma findIndex_None: "findIndex p xs = None \<longleftrightarrow> (\<forall>x \<in> set xs. \<not> p x)"
  by (induction xs) auto

lemma proxies_listed:
  assumes "has_proxies v = Inr b" and "truthy v \<longrightarrow> check_proxies v = Inr ()"
  shows "b \<longleftrightarrow> (\<exists>p ps. proxies_of v = Some (p # ps))" and "b \<Longrightarrow> truthy v"
  using assms
  by (cases v; auto simp: has_proxies_def proxies_of_def check_proxies_def truthy_def neq_Nil_conv bad_def split: if_splits)+

lemma check_proxy_stage_wf:
  assumes "check_proxy_stage a at i v s = Inr ()" and "st_proxies s = proxies_of v"
  shows "stage_upgrade_wf a at i s"
proof -
  from assms(1) obtain b where b: "has_proxies v = Inr b" and reads: "(ua_modeEnv a \<in> set (st_requiredEnv s)) = b"
    by (auto simp: check_proxy_stage_def)
  from assms(1) b have tr: "truthy v \<longrightarrow> check_proxies v = Inr ()"
    by (auto simp: check_proxy_stage_def split: if_splits)
  note listed = proxies_listed [OF b tr]
  show ?thesis
  proof (cases b)
    case False
    with reads listed(1) assms(2) show ?thesis by (simp add: stage_upgrade_wf_def)
  next
    case True
    with listed(2) have "truthy v" by simp
    with assms(1) b have
      "if st_upgradeTimelockEnv s = JUndef
       then set (ua_inputs a) \<subseteq> set (st_requiredEnv s) \<and> i \<le> at
       else st_upgradeTimelockEnv s \<in> JStr ` set (st_requiredEnv s)
            \<and> set (ua_inputs a) \<inter> set (st_requiredEnv s) = {} \<and> st_system s \<noteq> JStr ''vaults''"
      by (auto simp: check_proxy_stage_def split: if_splits)
    with True reads listed(1) assms(2) show ?thesis by (simp add: stage_upgrade_wf_def)
  qed
qed

lemma check_proxy_stages_wf:
  "check_proxy_stages a at k vs ss = Inr () \<Longrightarrow> map st_proxies ss = map proxies_of vs \<Longrightarrow> i < length ss \<Longrightarrow>
     stage_upgrade_wf a at (k + i) (ss ! i)"
proof (induction a at k vs ss arbitrary: i rule: check_proxy_stages.induct)
  case (1 u at k v vs s ss)
  show ?case
  proof (cases i)
    case 0
    with "1.prems" show ?thesis by (auto intro: check_proxy_stage_wf)
  next
    case (Suc j)
    with "1.prems" "1.IH" [of j] show ?thesis by auto
  qed
qed auto

lemma upgradeProblems_wf:
  assumes "upgradeProblems u raw_stages stages = Inr authority"
    and "map st_proxies stages = map (\<lambda>s. proxies_of (jget s ''proxies'')) raw_stages"
    and "tb_stages t = stages" and "tb_upgradeAuthority t = authority"
  shows "upgrades_wf t"
proof (cases "truthy u")
  case False
  with assms(1) have un: "\<forall>s \<in> set raw_stages. jget s ''proxies'' = JUndef" and auth: "authority = None"
    by (auto simp: upgradeProblems_def Let_def)
  have "st_proxies s = None" if "s \<in> set stages" for s
  proof -
    from that have "st_proxies s \<in> set (map st_proxies stages)" by simp
    then show ?thesis using un by (auto simp: assms(2) proxies_of_def)
  qed
  with assms(3,4) auth show ?thesis by (simp add: upgrades_wf_def)
next
  case True
  with assms(1) obtain a at where
    at: "findIndex (\<lambda>s. st_name s = ua_stage a) stages = Some at"
    and chk: "check_proxy_stages a at 0 (map (\<lambda>s. jget s ''proxies'') raw_stages) stages = Inr ()"
    and auth: "authority = Some a"
    by (auto simp: upgradeProblems_def Let_def)
  have "stage_upgrade_wf a at i (stages ! i)" if "i < length stages" for i
    using check_proxy_stages_wf [OF chk _ that] assms(2) by (simp add: comp_def)
  with findIndex_Some [OF at] assms(3,4) auth show ?thesis by (auto simp: upgrades_wf_def)
qed

subsection \<open>Vaults and redeploys\<close>

lemma parse_vault_wf:
  assumes "parse_vault stages v = Inr row"
  shows "\<exists>s \<in> set stages. st_name s = tv_stage row \<and> st_vault s = tv_key row \<and> st_manifest s = tv_manifest row"
    and "tv_row row = v" "tv_key row = jget v ''key''" "jget v ''manifest'' = JStr (tv_manifest row)" "\<not> js_object (tv_key row)"
  using assms by (auto simp: parse_vault_def js_seq_def find_Some_iff)

lemma find_vault_Inr:
  "find_vault k vs = Inr v \<Longrightarrow> v \<in> set vs \<and> jget v ''key'' = k"
  by (induction vs) (auto simp: js_seq_def split: if_splits)

lemma parse_redeploy_wf:
  assumes "parse_redeploy vaults libs c2 r = Inr row"
  shows "rd_vault row = jget r ''vault''
    \<and> (\<exists>v \<in> set vaults. jget v ''key'' = rd_vault row \<and> js_String (jget v ''manifest'') = rd_manifest row)"
  using assms by (auto simp: parse_redeploy_def js_seq_def dest!: find_vault_Inr)

lemma parse_redeploys_wf:
  "parse_redeploys vaults libs c2 seen rs = Inr rows \<Longrightarrow>
     distinct (map rd_vault rows) \<and> set seen \<inter> set (map rd_vault rows) = {}
     \<and> (\<forall>row \<in> set rows. \<exists>v \<in> set vaults. jget v ''key'' = rd_vault row \<and> js_String (jget v ''manifest'') = rd_manifest row)"
proof (induction vaults libs c2 seen rs arbitrary: rows rule: parse_redeploys.induct)
  case (2 vaults libs c2 seen r rs)
  from "2.prems" obtain row rest where new: "jget r ''vault'' \<notin> set seen"
    and row: "parse_redeploy vaults libs c2 r = Inr row"
    and rest: "parse_redeploys vaults libs c2 (jget r ''vault'' # seen) rs = Inr rest" and rows: "rows = row # rest"
    by auto
  from "2.IH" "2.prems" rest have
    "distinct (map rd_vault rest) \<and> set (jget r ''vault'' # seen) \<inter> set (map rd_vault rest) = {}
     \<and> (\<forall>row \<in> set rest. \<exists>v \<in> set vaults. jget v ''key'' = rd_vault row \<and> js_String (jget v ''manifest'') = rd_manifest row)"
    by auto
  with new parse_redeploy_wf [OF row] rows show ?case by auto
qed simp

subsection \<open>The whole table\<close>

lemma vaults_redeploys_wf:
  assumes vs: "map_res (parse_vault stages) vaults = Inr rows" and rd: "redeploy_rows v vaults libs c2 = Inr redeploys"
    and t: "tb_stages t = stages" "tb_vaults t = rows" "tb_redeploys t = redeploys"
  shows "vaults_wf t" "redeploys_wf t"
proof -
  have row: "\<exists>v \<in> set vaults. parse_vault stages v = Inr r" if "r \<in> set rows" for r
    by (rule map_res_set [OF vs that])
  show "vaults_wf t"
    unfolding vaults_wf_def t using row parse_vault_wf(1) by blast
  have conv: "\<exists>r \<in> set rows. parse_vault stages w = Inr r" if "w \<in> set vaults" for w
    by (rule map_res_set2 [OF vs that])
  show "redeploys_wf t"
    unfolding redeploys_wf_def t
  proof (intro allI impI)
    fix rs assume rs: "redeploys = Some rs"
    with rd obtain raw_rows where p: "parse_redeploys vaults libs c2 [] raw_rows = Inr rs"
      by (auto simp: redeploy_rows_def split: if_splits)
    have "\<exists>w \<in> set rows. tv_key w = rd_vault r \<and> tv_manifest w = rd_manifest r" if r: "r \<in> set rs" for r
    proof -
      obtain w where w: "w \<in> set vaults" "jget w ''key'' = rd_vault r" "js_String (jget w ''manifest'') = rd_manifest r"
        using parse_redeploys_wf [OF p] r by blast
      obtain row where "row \<in> set rows" "parse_vault stages w = Inr row" using conv [OF w(1)] by blast
      with parse_vault_wf(3,4) [of stages w row] w(2,3) show ?thesis by auto
    qed
    with parse_redeploys_wf [OF p] show "distinct (map rd_vault rs)
        \<and> (\<forall>r \<in> set rs. \<exists>v \<in> set rows. tv_key v = rd_vault r \<and> tv_manifest v = rd_manifest r)" by blast
  qed
qed

lemma parse_library_name: "parse_library l = Inr r \<Longrightarrow> lib_name r = jget l ''name''"
  by (auto simp: parse_library_def)

lemma libraries_known:
  assumes "map_res (\<lambda>l. dot l ''name'') libs = Inr names" and "map_res parse_library libs = Inr rows" and "JStr l \<in> set names"
  shows "\<exists>r \<in> set rows. lib_name r = JStr l"
proof -
  obtain x where x: "x \<in> set libs" "dot x ''name'' = Inr (JStr l)" using map_res_set [OF assms(1,3)] by blast
  obtain r where "r \<in> set rows" "parse_library x = Inr r" using map_res_set2 [OF assms(2) x(1)] by blast
  with x(2) parse_library_name show ?thesis by fastforce
qed

lemma parse_table_wf:
  assumes "parseStageTable json = Inr t"
  shows "table_wf t"
proof -
  obtain raw_stages vaults libs stages0 libNames c2 c2rows stages librows systems authority redeploys rows where
    raw: "raw_stages \<noteq> []" and st0: "parse_stages [] raw_stages = Inr stages0"
    and names: "map_res (\<lambda>l. dot l ''name'') libs = Inr libNames"
    and linked: "\<forall>s \<in> set stages0. \<forall>l \<in> set (st_libraries s). JStr l \<in> set libNames"
    and c2l: "js_list (jcoalesce (jget json ''create2Libraries'') (JArr [])) = Some c2"
    and c2: "map_res parse_create2 c2 = Inr c2rows"
    and st: "stages_create2 (map c2_name c2rows) raw_stages stages0 = Inr stages"
    and lr: "map_res parse_library libs = Inr librows"
    and sys: "systemProblems (jget json ''systems'') stages = Inr systems"
    and up: "upgradeProblems (jget json ''upgradeAuthority'') raw_stages stages = Inr authority"
    and rd: "redeploy_rows (jget json ''redeploys'') vaults libNames (map c2_name c2rows) = Inr redeploys"
    and vs: "map_res (parse_vault stages) vaults = Inr rows"
    and t: "t = \<lparr>tb_systems = systems, tb_stages = stages, tb_upgradeAuthority = authority, tb_vaults = rows, tb_libraries = librows,
          tb_create2Libraries = (if jnullish (jget json ''create2Libraries'') then None else Some c2rows),
          tb_redeploys = redeploys, tb_vaultRuleDecisions = jget json ''vaultRuleDecisions'', tb_artifacts = jget json ''artifacts''\<rparr>"
    using assms unfolding parseStageTable_def res_bind_Inr of_option_Inr must_Inr
    by (elim exE conjE) (drule sum.inject(2) [THEN iffD1], hypsubst, rule that, (assumption | rule refl)+)
  note p0 = parse_stages_wf [OF st0]
  have len: "length stages0 = length raw_stages" using p0 by simp
  note c2wf = stages_create2_wf [OF st len]
  have same: "list_all2 same_stage stages0 stages" using c2wf by simp
  have "stages_wf stages0" using p0 raw by (auto simp: stages_wf_def)
  then have "stages_wf (tb_stages t)" using stages_wf_same [OF same] t by simp
  moreover have "links_wf t"
  proof -
    have "\<exists>r \<in> set librows. lib_name r = JStr l" if "s \<in> set stages" "l \<in> set (st_libraries s)" for s l
      using list_all2_set2 [OF same that(1)] linked that(2) libraries_known [OF names lr]
      by (auto dest!: same_stage_fields)
    moreover have "jnullish (jget json ''create2Libraries'') \<Longrightarrow> c2rows = []"
      using c2l c2 by (auto simp: jcoalesce_def js_list_def)
    ultimately show ?thesis using c2wf t by (fastforce simp: links_wf_def)
  qed
  moreover have "systems_wf t" using systemProblems_wf [OF sys] t by simp
  moreover have "upgrades_wf t"
    using upgradeProblems_wf [OF up] p0 t by (simp add: same_stages_maps [OF same])
  moreover have "vaults_wf t" "redeploys_wf t" using vaults_redeploys_wf [OF vs rd, of t] t by simp_all
  ultimately show ?thesis by (simp add: table_wf_def)
qed

text \<open>
  C37. Whatever document \<open>parseStageTable\<close> accepts is well formed: the stages are not empty, have distinct
  names and paths of the two fixed shapes; every library a stage links is declared; a system lists exactly
  its stages in table order and the vaults system requires nothing; with an upgrade authority, a stage
  reads the mode env exactly when it deploys proxies, a proxy stage governed by the authority reads all of
  its inputs and does not come after the authority's stage, and one with its own upgrade timelock reads
  that and none of the inputs and is no vaults stage; every vault row agrees with its stage; and every
  redeploy row names one vault, once, with that vault's manifest.
\<close>

theorem parsed_table_wf:
  assumes "parseStageTable json = Inr t"
  shows "table_wf t"
  by (rule parse_table_wf [OF assms])

subsection \<open>A small table\<close>

text \<open>
  Two vaults stages and one gateway stage, cut down from scripts/deploy/stage-table.json.
\<close>

definition js_strs :: "string list \<Rightarrow> js" where "js_strs xs = JArr (map JStr xs)"

definition sample_stage :: "string \<Rightarrow> string \<Rightarrow> string list \<Rightarrow> (string \<times> js) list \<Rightarrow> js" where
  "sample_stage name system req extra =
     JObj ([(''name'', JStr name), (''kind'', JStr ''forge''), (''script'', JStr ''contracts/script/Deploy.s.sol:Deploy''),
            (''requiredEnv'', js_strs req), (''optionalEnv'', JArr []), (''libraries'', js_strs [''tick_math'']),
            (''manifest'', JStr (''deployments/<chain>/'' @ name @ ''.json'')), (''system'', JStr system)] @ extra)"

definition sample_proxy :: "string \<Rightarrow> js" where
  "sample_proxy field =
     JArr [JObj [(''field'', JStr field), (''implementationField'', JStr (field @ ''_implementation'')), (''contract'', JStr ''C''),
                 (''layout'', JStr ''contracts/test/fixtures/storage-layout/C.json'')]]"

definition sample_authority :: js where
  "sample_authority =
     JObj [(''stage'', JStr ''timelock''), (''contract'', JStr ''ProposerFloorTimelock''), (''address'', JStr ''create2''),
           (''factory'', JStr ''0x4e59b44847b379578588920cA78FbF26c0B4956C''), (''salt'', JStr ''robotmoney.core.timelock.v1''),
           (''inputs'', js_strs [''SAFE_ADDRESS'', ''TIMELOCK_MIN_DELAY'']), (''modeEnv'', JStr ''UPGRADE_MODE''),
           (''modes'', js_strs [''upgradeable'', ''frozen'']), (''transactionsPerProxy'', JNum 2),
           (''layoutPins'', JStr ''contracts/test/fixtures/storage-layout/pins.json'')]"

definition sample_stages :: "string \<Rightarrow> js list" where
  "sample_stages gateway_system =
     [sample_stage ''vault'' ''vaults'' [''SAFE_ADDRESS'', ''TIMELOCK_MIN_DELAY'', ''UPGRADE_MODE'']
        [(''proxies'', sample_proxy ''vault''), (''vault'', JStr ''USDC'')],
      sample_stage ''timelock'' ''vaults'' [''SAFE_ADDRESS'', ''TIMELOCK_MIN_DELAY''] [],
      sample_stage ''gateway'' gateway_system [''GATEWAY_UPGRADE_TIMELOCK'', ''UPGRADE_MODE'']
        [(''proxies'', sample_proxy ''gateway''), (''upgradeTimelockEnv'', JStr ''GATEWAY_UPGRADE_TIMELOCK'')]]"

definition sample_system :: "string list \<Rightarrow> string list \<Rightarrow> js" where
  "sample_system stages requires =
     JObj [(''description'', JStr ''sample''), (''stages'', js_strs stages), (''requires'', js_strs requires)]"

definition sample_vault :: js where
  "sample_vault =
     JObj [(''key'', JStr ''USDC''), (''stage'', JStr ''vault''), (''artifact'', JStr ''RobotMoneyVault''),
           (''manifest'', JStr ''deployments/<chain>/vault.json''), (''deployPaused'', JBool True), (''unpauseRow'', JStr ''unpause-USDC''),
           (''unpauseInStage13'', JBool True), (''seed'', JStr ''SEED_DEPOSIT_USDC''), (''eligibilitySource'', JStr ''router-stage''),
           (''emergencyLevers'', js_strs [''pauseDeposits'']), (''registryNameSource'', JStr ''script-constant'')]"

definition sample_table :: "js list \<Rightarrow> js \<Rightarrow> js" where
  "sample_table stages systems =
     JObj [(''version'', JNum 1), (''systems'', systems), (''stages'', JArr stages), (''upgradeAuthority'', sample_authority),
           (''vaults'', JArr [sample_vault]),
           (''libraries'', JArr [JObj [(''name'', JStr ''tick_math''), (''artifact'', JStr ''TickMath''), (''manifestKey'', JStr ''tick_math''), (''path'', JStr ''src/TickMath.sol'')]]),
           (''artifacts'', JObj [])]"

definition table_json :: js where
  "table_json = sample_table (sample_stages ''gateway'')
     (JObj [(''vaults'', sample_system [''vault'', ''timelock''] []), (''gateway'', sample_system [''gateway''] [''vaults''])])"

definition parsed :: "js \<Rightarrow> StageTable" where
  "parsed json = projr (parseStageTable json)"

lemma parsed_ok: "is_ok (parseStageTable json) \<Longrightarrow> parseStageTable json = Inr (parsed json)"
  by (auto simp: is_ok_iff parsed_def)

lemma table_json_parses: "parseStageTable table_json = Inr (parsed table_json)"
  by (rule parsed_ok) code_simp

theorem parsed_table_wf_witness:
  "parseStageTable table_json = Inr (parsed table_json) \<and> table_wf (parsed table_json)"
  using table_json_parses parsed_table_wf [OF table_json_parses] by simp

section \<open>The vault rules\<close>

definition decisions_of :: "StageTable \<Rightarrow> js" where
  "decisions_of t = jcoalesce (tb_vaultRuleDecisions t) (JObj [])"

text \<open>
  When \<open>vaultRules\<close> returns, it returns the vault rows; a rule is the same on every vault exactly when the
  table records no decision for it, and a recorded decision has a reason and an issue link; no other name
  is decided; and a vault that stage 13 unpauses is one that deploys paused.
\<close>

theorem vaultRules_decided:
  assumes "vaultRules t = Inr vs"
  shows "vs = tb_vaults t
    \<and> (\<forall>f \<in> set VAULT_RULE_FIELDS.
         (rule_differs f (map tv_row vs) \<longleftrightarrow> truthy (jget (decisions_of t) f))
         \<and> (rule_differs f (map tv_row vs) \<longrightarrow> decision_ok (jget (decisions_of t) f)))
    \<and> set (js_keys (decisions_of t)) \<subseteq> set VAULT_RULE_FIELDS
    \<and> (\<forall>v \<in> set vs. jget (tv_row v) ''unpauseInStage13'' = JBool True \<longrightarrow> jget (tv_row v) ''deployPaused'' = JBool True)"
proof -
  from assms have vs: "vs = tb_vaults t"
    and rows: "\<And>v. v \<in> set vs \<Longrightarrow> check_vault_rules (tv_row v) = Inr ()"
    and dec: "\<And>f. f \<in> set VAULT_RULE_FIELDS \<Longrightarrow> check_decision (map tv_row vs) (decisions_of t) f = Inr ()"
    and keys: "set (js_keys (decisions_of t)) \<subseteq> set VAULT_RULE_FIELDS"
    by (auto simp: vaultRules_def Let_def decisions_of_def)
  have "(rule_differs f (map tv_row vs) \<longleftrightarrow> truthy (jget (decisions_of t) f))
         \<and> (rule_differs f (map tv_row vs) \<longrightarrow> decision_ok (jget (decisions_of t) f))" if "f \<in> set VAULT_RULE_FIELDS" for f
    using dec [OF that] by (auto simp: check_decision_def Let_def decision_ok_def)
  moreover have "jget (tv_row v) ''deployPaused'' = JBool True"
    if "v \<in> set vs" "jget (tv_row v) ''unpauseInStage13'' = JBool True" for v
    using rows [OF that(1)] that(2) by (auto simp: check_vault_rules_def js_bool_def split: js.splits)
  ultimately show ?thesis using vs keys by blast
qed

theorem vaultRules_decided_witness:
  "vaultRules (parsed table_json) = Inr (tb_vaults (parsed table_json))
     \<and> (\<forall>f \<in> set VAULT_RULE_FIELDS. \<not> rule_differs f (map tv_row (tb_vaults (parsed table_json))))"
proof -
  have ok: "vaultRules (parsed table_json) = Inr (tb_vaults (parsed table_json))" by code_simp
  have "\<forall>f \<in> set VAULT_RULE_FIELDS. \<not> truthy (jget (decisions_of (parsed table_json)) f)" by code_simp
  with ok vaultRules_decided [OF ok] show ?thesis by blast
qed

end
