(* ===== verification/Stages.thy ===== *)
theory Stages
  imports StageTable
begin

text \<open>
  The stage list as data (publish-contracts/src/stages.ts) and the deployer nonces it fixes, with the
  count helpers of counts.ts that depend on the loaded table. The module's live bindings are the record
  \<open>stage_state\<close>; \<open>useStageTable\<close> is the only operation that sets them.

  A \<open>Record<string, number>\<close> of counts is an association list in key order; names that collide with
  \<open>Object.prototype\<close> are not considered as count keys.
\<close>

section \<open>Rows\<close>

datatype StageKind = KSafe | KForge | KProve | KVerify | KGovern

record StageRow =
  row_name :: string
  row_kind :: StageKind
  row_script :: "string option"
  row_requiredEnv :: "string list"
  row_optionalEnv :: "string list"
  row_manifest :: "string option"
  row_libraries :: "TableLibrary option list"
  row_create2Libraries :: "TableCreate2Library option list"
  row_countKey :: "string option"
  row_vault :: "string option"
  row_usesSafeOwners :: bool

definition PROOF_STAGE :: string where "PROOF_STAGE = ''prove-control''"
definition SAFE_MANIFEST :: string where "SAFE_MANIFEST = ''safe.json''"
definition PROOF_TX_NONCES :: int where "PROOF_TX_NONCES = 1"

definition plain_row :: "string \<Rightarrow> StageKind \<Rightarrow> StageRow" where
  "plain_row name kind =
     \<lparr>row_name = name, row_kind = kind, row_script = None, row_requiredEnv = [], row_optionalEnv = [], row_manifest = None,
      row_libraries = [], row_create2Libraries = [], row_countKey = None, row_vault = None, row_usesSafeOwners = False\<rparr>"

definition SAFE_ROW :: StageRow where
  "SAFE_ROW = (plain_row ''safe'' KSafe)\<lparr>row_countKey := Some ''safe'', row_manifest := Some SAFE_MANIFEST\<rparr>"

definition PROVE_ROW :: StageRow where
  "PROVE_ROW = (plain_row PROOF_STAGE KProve)\<lparr>row_usesSafeOwners := True\<rparr>"

definition VERIFY_ROW :: StageRow where
  "VERIFY_ROW = plain_row ''verify'' KVerify"

definition GOVERN_ROW :: StageRow where
  "GOVERN_ROW = (plain_row ''govern'' KGovern)\<lparr>row_usesSafeOwners := True\<rparr>"

definition row_vault_of :: "js \<Rightarrow> string option" where
  "row_vault_of v = (case v of JStr k \<Rightarrow> if isVaultKey v then Some k else None | _ \<Rightarrow> None)"

text \<open>
  One forge row. The two library lists are the \<open>find\<close>s of the source, \<^const>\<open>None\<close> standing for \<open>undefined\<close>; on a
  parsed table every name is declared, so every entry is there (\<open>forge_row_links\<close> below).
\<close>

definition forge_row :: "StageTable \<Rightarrow> TableStage \<Rightarrow> StageRow" where
  "forge_row t s =
     \<lparr>row_name = st_name s, row_kind = KForge, row_script = Some (st_script s),
      row_requiredEnv = st_requiredEnv s, row_optionalEnv = st_optionalEnv s, row_manifest = Some (manifestFile (st_manifest s)),
      row_libraries = map (\<lambda>n. find (\<lambda>l. lib_name l = JStr n) (tb_libraries t)) (st_libraries s),
      row_create2Libraries =
        map (\<lambda>n. find (\<lambda>l. c2_name l = JStr n) (case tb_create2Libraries t of None \<Rightarrow> [] | Some c2 \<Rightarrow> c2))
          (case st_create2Libraries s of None \<Rightarrow> [] | Some ls \<Rightarrow> ls),
      row_countKey = Some (st_name s), row_vault = row_vault_of (st_vault s), row_usesSafeOwners = False\<rparr>"

text \<open>The system of the table stage a row is named after.\<close>

definition row_in_system :: "StageTable \<Rightarrow> string \<Rightarrow> StageRow \<Rightarrow> bool" where
  "row_in_system t name r =
     (case find (\<lambda>s. st_name s = row_name r) (tb_stages t) of None \<Rightarrow> False | Some s \<Rightarrow> in_system name s)"

definition prove_before_handover :: "StageRow list \<Rightarrow> StageRow list" where
  "prove_before_handover own =
     (case findIndex (\<lambda>r. row_name r = ''timelock'') own of
        None \<Rightarrow> own @ [PROVE_ROW]
      | Some handover \<Rightarrow> take handover own @ [PROVE_ROW] @ drop handover own)"

text \<open>\<open>system\<close> is \<^const>\<open>None\<close> for \<open>"all-forge"\<close>.\<close>

definition buildStages :: "StageTable \<Rightarrow> SystemName option \<Rightarrow> StageRow list" where
  "buildStages t system =
     (let forge = map (forge_row t) (tb_stages t) in
      case system of
        None \<Rightarrow> forge
      | Some Gateway \<Rightarrow> filter (row_in_system t ''gateway'') forge @ [VERIFY_ROW]
      | Some Vaults \<Rightarrow>
          (let own = (if tb_systems t \<noteq> None then filter (row_in_system t ''vaults'') forge else forge)
           in [SAFE_ROW] @ prove_before_handover own @ [VERIFY_ROW, GOVERN_ROW]))"

definition allForgeRows :: "StageTable \<Rightarrow> StageRow list" where
  "allForgeRows t = filter (\<lambda>r. row_kind r = KForge) (buildStages t None)"

section \<open>The module state\<close>

record stage_state =
  m_table :: "StageTable option"
  m_STAGES :: "StageRow list"
  m_STAGE_NAMES :: "string list"
  m_DEPLOYER_STAGES :: "StageRow list"
  m_VAULT_STAGES :: "(js \<times> string) list"
  m_RETIRED_VAULT_STAGES :: "(js \<times> string \<times> string \<times> js) list"
  m_ACTIVE_SYSTEM :: SystemName

definition initial_stage_state :: stage_state where
  "initial_stage_state =
     \<lparr>m_table = None, m_STAGES = [], m_STAGE_NAMES = [], m_DEPLOYER_STAGES = [], m_VAULT_STAGES = [],
      m_RETIRED_VAULT_STAGES = [], m_ACTIVE_SYSTEM = Vaults\<rparr>"

definition has_gateway_system :: "StageTable \<Rightarrow> bool" where
  "has_gateway_system t = (case tb_systems t of None \<Rightarrow> False | Some defs \<Rightarrow> map_of defs ''gateway'' \<noteq> None)"

definition useStageTable :: "StageTable \<Rightarrow> SystemName \<Rightarrow> stage_state \<Rightarrow> failure + stage_state" where
  "useStageTable t system st =
     res_bind (must (\<not> (system = Gateway \<and> \<not> has_gateway_system t))) (\<lambda>_.
     res_bind (must (find (\<lambda>v. \<not> isVaultKey (tv_key v) \<and> \<not> isRetiredVaultKey (tv_key v)) (tb_vaults t) = None)) (\<lambda>_.
     let stages = buildStages t (Some system) in
     Inr (st\<lparr>m_table := Some t,
             m_ACTIVE_SYSTEM := system,
             m_STAGES := stages,
             m_STAGE_NAMES := map row_name stages,
             m_DEPLOYER_STAGES := filter (\<lambda>s. row_countKey s \<noteq> None) stages,
             m_VAULT_STAGES := map (\<lambda>v. (tv_key v, tv_stage v)) (filter (\<lambda>v. isVaultKey (tv_key v)) (tb_vaults t)),
             m_RETIRED_VAULT_STAGES :=
               map (\<lambda>v. (tv_key v, tv_stage v, tv_manifest v, tv_artifact v)) (filter (\<lambda>v. isRetiredVaultKey (tv_key v)) (tb_vaults t))\<rparr>)))"

definition peekStageState :: "stage_state \<Rightarrow> StageTable option \<times> SystemName" where
  "peekStageState st = (m_table st, m_ACTIVE_SYSTEM st)"

definition restoreStageState :: "StageTable option \<times> SystemName \<Rightarrow> stage_state \<Rightarrow> failure + stage_state" where
  "restoreStageState s st = (case fst s of None \<Rightarrow> Inr st | Some t \<Rightarrow> useStageTable t (snd s) st)"

definition getStageTable :: "stage_state \<Rightarrow> failure + StageTable" where
  "getStageTable st = of_option (PublishError INPUT_MISSING) (m_table st)"

definition stageByName :: "stage_state \<Rightarrow> string \<Rightarrow> failure + StageRow" where
  "stageByName st n = of_option PlainError (find (\<lambda>x. row_name x = n) (m_STAGES st))"

text \<open>\<open>m.replace(/\.json$/, "")\<close>\<close>

definition strip_json :: "string \<Rightarrow> string" where
  "strip_json m = (case drop_suffix ''.json'' m of None \<Rightarrow> m | Some b \<Rightarrow> b)"

definition manifestRef :: "stage_state \<Rightarrow> string \<Rightarrow> string \<Rightarrow> failure + string" where
  "manifestRef st stage field =
     res_bind
       (case find (\<lambda>x. row_name x = stage) (m_STAGES st) of
          Some r \<Rightarrow> Inr r
        | None \<Rightarrow>
           (case (case m_table st of None \<Rightarrow> None | Some t \<Rightarrow> find (\<lambda>x. row_name x = stage) (allForgeRows t)) of
              Some r \<Rightarrow> Inr r | None \<Rightarrow> stageByName st stage))
       (\<lambda>r. case row_manifest r of
          None \<Rightarrow> Inl PlainError
        | Some m \<Rightarrow> if m = [] then Inl PlainError else Inr (strip_json m @ '':'' @ field))"

section \<open>core-wiring.ts: the core contracts\<close>

record contract_ref =
  cr_name :: string
  cr_stage :: string
  cr_field :: string
  cr_artifactKey :: string

definition cref :: "string \<Rightarrow> string \<Rightarrow> string \<Rightarrow> string \<Rightarrow> contract_ref" where
  "cref n s f a = \<lparr>cr_name = n, cr_stage = s, cr_field = f, cr_artifactKey = a\<rparr>"

definition CORE_CONTRACT_REFS :: "contract_ref list" where
  "CORE_CONTRACT_REFS =
     [cref ''gateway'' ''gateway'' ''gateway'' ''gateway'',
      cref ''registry'' ''registry'' ''registry'' ''registry'',
      cref ''router'' ''router'' ''router'' ''router'',
      cref ''governance'' ''governance'' ''governance'' ''governance'',
      cref ''receipt'' ''receipt'' ''consensus_receipt'' ''receipt'',
      cref ''timelock'' ''timelock'' ''timelock'' ''timelock'']"

definition PRIOR_LINE_CONTRACT_REFS :: "contract_ref list" where
  "PRIOR_LINE_CONTRACT_REFS =
     [cref ''receipt'' ''ic-policy'' ''consensus_receipt'' ''receipt'',
      cref ''icpolicy'' ''ic-policy'' ''policy'' ''icPolicy'',
      cref ''recorder'' ''recorder'' ''recorder'' ''recorder'']"

definition coreContractRefs :: "string list \<Rightarrow> contract_ref list" where
  "coreContractRefs stageNames =
     (let prior = filter (\<lambda>r. cr_stage r \<in> set stageNames) PRIOR_LINE_CONTRACT_REFS
      in filter (\<lambda>r. \<not> (\<exists>p \<in> set prior. cr_name p = cr_name r)) CORE_CONTRACT_REFS @ prior)"

definition receiptRef :: "stage_state \<Rightarrow> failure + string" where
  "receiptRef st =
     res_bind (of_option PlainError (find (\<lambda>x. cr_name x = ''receipt'') (coreContractRefs (m_STAGE_NAMES st)))) (\<lambda>r.
     manifestRef st (cr_stage r) (cr_field r))"

section \<open>Nonces\<close>

type_synonym FrozenCounts = "(string \<times> int) list"

text \<open>\<open>c[k] ?? 0\<close> and \<open>indexOf\<close>, which is -1 for a name that is not there.\<close>

definition count_or_0 :: "FrozenCounts \<Rightarrow> string \<Rightarrow> int" where
  "count_or_0 c k = (case map_of c k of None \<Rightarrow> 0 | Some n \<Rightarrow> n)"

definition indexOf :: "string list \<Rightarrow> string \<Rightarrow> int" where
  "indexOf xs x = (case findIndex (\<lambda>y. y = x) xs of None \<Rightarrow> -1 | Some i \<Rightarrow> int i)"

definition proofNoncesBefore :: "stage_state \<Rightarrow> string \<Rightarrow> int" where
  "proofNoncesBefore st stage =
     (if m_ACTIVE_SYSTEM st = Gateway then 0
      else if indexOf (m_STAGE_NAMES st) stage > indexOf (m_STAGE_NAMES st) PROOF_STAGE then PROOF_TX_NONCES else 0)"

definition proofTxNonces :: "stage_state \<Rightarrow> int" where
  "proofTxNonces st = (if m_ACTIVE_SYSTEM st = Gateway then 0 else PROOF_TX_NONCES)"

definition row_count :: "FrozenCounts \<Rightarrow> StageRow \<Rightarrow> int" where
  "row_count counts s = (case row_countKey s of None \<Rightarrow> 0 | Some k \<Rightarrow> count_or_0 counts k)"

fun start_nonce_loop :: "stage_state \<Rightarrow> string \<Rightarrow> FrozenCounts \<Rightarrow> int \<Rightarrow> StageRow list \<Rightarrow> int" where
  "start_nonce_loop st stage counts n [] = n + proofTxNonces st"
| "start_nonce_loop st stage counts n (s # ss) =
     (if row_name s = stage then n + proofNoncesBefore st stage
      else start_nonce_loop st stage counts (n + row_count counts s) ss)"

definition expectedStartNonce :: "stage_state \<Rightarrow> string \<Rightarrow> FrozenCounts \<Rightarrow> int \<Rightarrow> int" where
  "expectedStartNonce st stage counts startNonce = start_nonce_loop st stage counts startNonce (m_DEPLOYER_STAGES st)"

definition activeCountKeys :: "stage_state \<Rightarrow> FrozenCounts \<Rightarrow> string list" where
  "activeCountKeys st c =
     (if m_DEPLOYER_STAGES st = [] then map fst c
      else filter (\<lambda>k. k \<in> set (map fst c)) (map (\<lambda>s. the (row_countKey s)) (m_DEPLOYER_STAGES st)))"

definition sumCounts :: "stage_state \<Rightarrow> FrozenCounts \<Rightarrow> string list option \<Rightarrow> int" where
  "sumCounts st c stages =
     sum_list (map (count_or_0 c) (case stages of None \<Rightarrow> activeCountKeys st c | Some ss \<Rightarrow> ss))"

definition finalDeployerNonce :: "stage_state \<Rightarrow> FrozenCounts \<Rightarrow> int \<Rightarrow> int" where
  "finalDeployerNonce st c startNonce = startNonce + sumCounts st c None + proofTxNonces st"

definition checkNonce :: "stage_state \<Rightarrow> int \<Rightarrow> FrozenCounts \<Rightarrow> string list option \<Rightarrow> int \<Rightarrow> failure + unit" where
  "checkNonce st actual c stages startNonce =
     (let want = startNonce + (case stages of Some _ \<Rightarrow> sumCounts st c stages | None \<Rightarrow> sumCounts st c None + proofTxNonces st)
      in ensure (actual = want) (PublishError NONCE))"

definition countFor :: "FrozenCounts \<Rightarrow> string \<Rightarrow> failure + int" where
  "countFor c stage = of_option (PublishError COUNTS_MISSING) (map_of c stage)"

text \<open>\<open>effectiveCounts\<close>: each adopted stage counts the transactions this deployer sent for it.\<close>

text \<open>\<open>out[k] = v\<close>: an existing key keeps its place, a new one goes last.\<close>

fun AList_upd :: "string \<Rightarrow> 'v \<Rightarrow> (string \<times> 'v) list \<Rightarrow> (string \<times> 'v) list" where
  "AList_upd k v [] = [(k, v)]"
| "AList_upd k v ((k', w) # kvs) = (if k' = k then (k, v) # kvs else (k', w) # AList_upd k v kvs)"

fun adopt_counts :: "FrozenCounts \<Rightarrow> FrozenCounts \<Rightarrow> FrozenCounts \<Rightarrow> failure + FrozenCounts" where
  "adopt_counts c out [] = Inr out"
| "adopt_counts c out ((k, sent) # rest) =
     (case map_of c k of
        None \<Rightarrow> Inl (PublishError LIBS_ADOPTION)
      | Some n \<Rightarrow>
          if sent < 0 \<or> sent > n then Inl (PublishError LIBS_ADOPTION)
          else adopt_counts c (AList_upd k sent out) rest)"

definition effectiveCounts :: "FrozenCounts \<Rightarrow> FrozenCounts \<Rightarrow> failure + FrozenCounts" where
  "effectiveCounts c adopted = (if adopted = [] then Inr c else adopt_counts c c adopted)"

section \<open>plan.ts\<close>

record PlanRow =
  pl_stage :: string
  pl_kind :: StageKind
  pl_script :: "string option"
  pl_countKey :: "string option"
  pl_expectedCount :: "int option"
  pl_startNonce :: "int option"
  pl_manifest :: "string option"
  pl_vault :: "string option"

definition stagePlan :: "stage_state \<Rightarrow> FrozenCounts \<Rightarrow> PlanRow list" where
  "stagePlan st counts =
     map (\<lambda>s. \<lparr>pl_stage = row_name s, pl_kind = row_kind s, pl_script = row_script s, pl_countKey = row_countKey s,
       pl_expectedCount = (case row_countKey s of None \<Rightarrow> None | Some k \<Rightarrow> map_of counts k),
       pl_startNonce = (case row_countKey s of None \<Rightarrow> None | Some _ \<Rightarrow> Some (expectedStartNonce st (row_name s) counts 0)),
       pl_manifest = row_manifest s, pl_vault = row_vault s\<rparr>) (m_STAGES st)"

section \<open>The loaded state\<close>

text \<open>
  What \<open>useStageTable\<close> leaves, whatever was there before: a function of the table and the system.
\<close>

lemma useStageTable_Inr:
  assumes "useStageTable t system st0 = Inr st"
  shows "m_table st = Some t" "m_ACTIVE_SYSTEM st = system" "m_STAGES st = buildStages t (Some system)"
    "m_STAGE_NAMES st = map row_name (m_STAGES st)" "m_DEPLOYER_STAGES st = filter (\<lambda>s. row_countKey s \<noteq> None) (m_STAGES st)"
    "system = Gateway \<Longrightarrow> has_gateway_system t"
  using assms by (auto simp: useStageTable_def Let_def)

text \<open>The state before does not matter.\<close>

lemma useStageTable_forgets: "useStageTable t system st = useStageTable t system st'"
  by (cases st; cases st') (simp add: useStageTable_def Let_def)

inductive loaded :: "stage_state \<Rightarrow> bool" where
  start: "loaded initial_stage_state"
| use: "loaded st \<Longrightarrow> useStageTable t system st = Inr st' \<Longrightarrow> loaded st'"

lemma loaded_use: "loaded st \<Longrightarrow> m_table st = Some t \<Longrightarrow> useStageTable t (m_ACTIVE_SYSTEM st) st' = Inr st"
proof (induction rule: loaded.induct)
  case start
  then show ?case by (simp add: initial_stage_state_def)
next
  case (use st0 u system st1)
  from useStageTable_Inr(1,2) [OF use.hyps(2)] use.prems have "u = t" "m_ACTIVE_SYSTEM st1 = system" by simp_all
  with use.hyps(2) useStageTable_forgets [of t system st' st0] show ?case by simp
qed

text \<open>
  A run that switches the process-wide stage list to another system and then hands back what it had
  peeked at leaves every binding as it found it, if a table was loaded before.
\<close>

theorem restore_peek:
  assumes "loaded st" and "m_table st \<noteq> None" and "useStageTable t system st = Inr st2"
  shows "restoreStageState (peekStageState st) st2 = Inr st"
  using assms loaded_use [of st _ st2] by (auto simp: restoreStageState_def peekStageState_def)

section \<open>The order of the rows\<close>

lemmas row_defs = SAFE_ROW_def PROVE_ROW_def VERIFY_ROW_def GOVERN_ROW_def plain_row_def

lemma forge_row_simps [simp]:
  "row_name (forge_row t s) = st_name s" "row_kind (forge_row t s) = KForge" "row_countKey (forge_row t s) = Some (st_name s)"
  "row_requiredEnv (forge_row t s) = st_requiredEnv s"
  by (simp_all add: forge_row_def)

lemma special_rows [simp]:
  "row_name SAFE_ROW = ''safe''" "row_name PROVE_ROW = PROOF_STAGE" "row_name VERIFY_ROW = ''verify''" "row_name GOVERN_ROW = ''govern''"
  "row_kind SAFE_ROW = KSafe" "row_kind PROVE_ROW = KProve" "row_kind VERIFY_ROW = KVerify" "row_kind GOVERN_ROW = KGovern"
  "row_countKey SAFE_ROW = Some ''safe''" "row_countKey PROVE_ROW = None" "row_countKey VERIFY_ROW = None" "row_countKey GOVERN_ROW = None"
  by (simp_all add: row_defs)

lemma find_distinct: "distinct (map f xs) \<Longrightarrow> x \<in> set xs \<Longrightarrow> find (\<lambda>y. f y = f x) xs = Some x"
  by (induction xs) (auto simp: image_iff)

lemma forge_row_links:
  assumes "table_wf t" and "s \<in> set (tb_stages t)"
  shows "None \<notin> set (row_libraries (forge_row t s))" "None \<notin> set (row_create2Libraries (forge_row t s))"
proof -
  have libs: "\<exists>r \<in> set (tb_libraries t). lib_name r = JStr l" if "l \<in> set (st_libraries s)" for l
    using assms that unfolding table_wf_def links_wf_def by blast
  have c2: "\<exists>rs. tb_create2Libraries t = Some rs \<and> (\<exists>r \<in> set rs. c2_name r = JStr l)"
    if "st_create2Libraries s = Some ls" "l \<in> set ls" for ls l
    using assms that unfolding table_wf_def links_wf_def by blast
  show "None \<notin> set (row_libraries (forge_row t s))"
  proof
    assume "None \<in> set (row_libraries (forge_row t s))"
    then obtain l where l: "l \<in> set (st_libraries s)" and "None = find (\<lambda>r. lib_name r = JStr l) (tb_libraries t)"
      by (auto simp: forge_row_def)
    then have "find (\<lambda>r. lib_name r = JStr l) (tb_libraries t) = None" by (rule_tac sym)
    with libs [OF l] show False unfolding find_None_iff by blast
  qed
  show "None \<notin> set (row_create2Libraries (forge_row t s))"
  proof
    assume "None \<in> set (row_create2Libraries (forge_row t s))"
    then obtain ls l where ls: "st_create2Libraries s = Some ls" "l \<in> set ls"
      and "None = find (\<lambda>r. c2_name r = JStr l) (case tb_create2Libraries t of None \<Rightarrow> [] | Some c2 \<Rightarrow> c2)"
      by (cases "st_create2Libraries s") (auto simp: forge_row_def)
    then have "find (\<lambda>r. c2_name r = JStr l) (case tb_create2Libraries t of None \<Rightarrow> [] | Some c2 \<Rightarrow> c2) = None" by (rule_tac sym)
    with c2 [OF ls] show False unfolding find_None_iff by auto
  qed
qed

text \<open>On a table with distinct names a row belongs to the system of its stage.\<close>

lemma row_in_system_forge:
  assumes "distinct (map st_name (tb_stages t))" and "s \<in> set (tb_stages t)"
  shows "row_in_system t name (forge_row t s) = in_system name s"
  using find_distinct [OF assms] by (simp add: row_in_system_def)

subsection \<open>The handover\<close>

lemma findIndex_append: "\<forall>x \<in> set xs. \<not> p x \<Longrightarrow> p y \<Longrightarrow> findIndex p (xs @ y # ys) = Some (length xs)"
  by (induction xs) auto

definition own_rows :: "StageTable \<Rightarrow> StageRow list" where
  "own_rows t =
     (let forge = map (forge_row t) (tb_stages t)
      in if tb_systems t \<noteq> None then filter (row_in_system t ''vaults'') forge else forge)"

lemma buildStages_vaults:
  "buildStages t (Some Vaults) = SAFE_ROW # prove_before_handover (own_rows t) @ [VERIFY_ROW, GOVERN_ROW]"
  by (simp add: buildStages_def own_rows_def Let_def)

lemma own_rows_forge: "r \<in> set (own_rows t) \<Longrightarrow> \<exists>s \<in> set (tb_stages t). r = forge_row t s"
  by (auto simp: own_rows_def Let_def split: if_splits)

lemma prove_split:
  assumes "own = xs @ r # ys" and "row_name r = ''timelock''" and "\<forall>x \<in> set xs. row_name x \<noteq> ''timelock''"
  shows "prove_before_handover own = xs @ PROVE_ROW # r # ys"
  using findIndex_append [of xs "\<lambda>r. row_name r = ''timelock''" r ys] assms
  by (simp add: prove_before_handover_def)

lemma own_rows_split:
  assumes "tb_stages t = xs @ s # ys" and "distinct (map st_name (tb_stages t))"
    and "tb_systems t \<noteq> None \<longrightarrow> in_system ''vaults'' s"
  shows "\<exists>us vs. own_rows t = us @ forge_row t s # vs \<and> set us \<subseteq> forge_row t ` set xs
     \<and> (\<forall>x \<in> set xs. forge_row t x \<in> set (own_rows t) \<longrightarrow> forge_row t x \<in> set us)
     \<and> set vs \<subseteq> forge_row t ` set ys"
proof -
  have s: "row_in_system t ''vaults'' (forge_row t s) = in_system ''vaults'' s"
    by (rule row_in_system_forge) (use assms in auto)
  define P where "P = (\<lambda>r. tb_systems t \<noteq> None \<longrightarrow> row_in_system t ''vaults'' r)"
  have own: "own_rows t = filter P (map (forge_row t) xs) @ forge_row t s # filter P (map (forge_row t) ys)"
    using s assms(1,3) by (auto simp: own_rows_def Let_def P_def)
  moreover have "forge_row t x \<in> set (filter P (map (forge_row t) xs))"
    if "x \<in> set xs" "forge_row t x \<in> set (own_rows t)" for x
  proof -
    from that(2) have "P (forge_row t x)" by (auto simp: own_rows_def P_def Let_def split: if_splits)
    with that(1) show ?thesis by simp
  qed
  moreover have "set (filter P (map (forge_row t) zs)) \<subseteq> forge_row t ` set zs" for zs by auto
  ultimately show ?thesis by blast
qed

lemma forge_row_inj:
  assumes "distinct (map st_name (tb_stages t))" and "x \<in> set (tb_stages t)" and "y \<in> set (tb_stages t)" and "forge_row t x = forge_row t y"
  shows "x = y"
proof -
  from assms(4) have "st_name x = st_name y" by (metis forge_row_simps(1))
  with assms(1-3) show ?thesis by (auto simp: distinct_map inj_on_def)
qed

text \<open>
  C38. For a table that parses, in the vaults run: the Safe is created first and verify and govern come last;
  the control proof stands directly before the timelock stage, which hands control over; and every stage
  that deploys a proxy governed by that timelock runs before the control proof or is the timelock stage
  itself, so no governed proxy is deployed after the handover.
\<close>

theorem handover_last:
  assumes "parseStageTable json = Inr t" and "useStageTable t Vaults st0 = Inr st"
    and "tb_upgradeAuthority t = Some a" and "ua_stage a = ''timelock''"
    and "hs \<in> set (tb_stages t)" and "st_name hs = ''timelock''" and "tb_systems t \<noteq> None \<longrightarrow> in_system ''vaults'' hs"
  shows "\<exists>pre post. m_STAGES st = SAFE_ROW # pre @ PROVE_ROW # forge_row t hs # post @ [VERIFY_ROW, GOVERN_ROW]
    \<and> (\<forall>s \<in> set (tb_stages t). \<forall>p ps. st_proxies s = Some (p # ps) \<longrightarrow> st_upgradeTimelockEnv s = JUndef \<longrightarrow>
         forge_row t s \<in> set (m_STAGES st) \<longrightarrow> forge_row t s \<in> set pre \<or> s = hs)"
proof -
  have wf: "table_wf t" by (rule parse_table_wf [OF assms(1)])
  then have dist: "distinct (map st_name (tb_stages t))" by (simp add: table_wf_def stages_wf_def)
  from wf assms(3,4) obtain at where at: "at < length (tb_stages t)" "st_name (tb_stages t ! at) = ''timelock''"
    and up: "\<And>i. i < length (tb_stages t) \<Longrightarrow> stage_upgrade_wf a at i (tb_stages t ! i)"
    by (auto simp: table_wf_def upgrades_wf_def)
  have hs: "tb_stages t ! at = hs"
    using dist at assms(5,6) by (auto simp: distinct_map inj_on_def)
  define xs ys where "xs = take at (tb_stages t)" and "ys = drop (Suc at) (tb_stages t)"
  have split: "tb_stages t = xs @ hs # ys"
    using id_take_nth_drop [OF at(1)] hs by (simp add: xs_def ys_def)
  obtain us vs where own: "own_rows t = us @ forge_row t hs # vs" and us: "set us \<subseteq> forge_row t ` set xs"
    and kept: "\<forall>x \<in> set xs. forge_row t x \<in> set (own_rows t) \<longrightarrow> forge_row t x \<in> set us"
    using own_rows_split [OF split dist assms(7)] by blast
  have "\<forall>x \<in> set us. row_name x \<noteq> ''timelock''"
    using us dist assms(6) unfolding split by force
  then have stages: "m_STAGES st = SAFE_ROW # us @ PROVE_ROW # forge_row t hs # vs @ [VERIFY_ROW, GOVERN_ROW]"
    using prove_split [OF own] assms(6) useStageTable_Inr(3) [OF assms(2)] by (simp add: buildStages_vaults)
  have "forge_row t s \<in> set us \<or> s = hs"
    if s: "s \<in> set (tb_stages t)" and px: "st_proxies s = Some (p # ps)" and tle: "st_upgradeTimelockEnv s = JUndef"
      and inn: "forge_row t s \<in> set (m_STAGES st)" for s p ps
  proof -
    obtain i where i: "i < length (tb_stages t)" "tb_stages t ! i = s" using s by (auto simp: in_set_conv_nth)
    with up [OF i(1)] px tle have "i \<le> at" by (simp add: stage_upgrade_wf_def)
    then have "s \<in> set xs \<or> s = hs"
      using i hs by (cases "i = at") (auto simp: xs_def in_set_conv_nth intro!: exI [of _ i])
    moreover have "forge_row t s \<in> set (own_rows t)"
      using inn stages own by (auto simp: row_defs forge_row_def)
    ultimately show ?thesis using kept by blast
  qed
  with stages show ?thesis by blast
qed

theorem handover_last_witness:
  "\<exists>st pre post. useStageTable (parsed table_json) Vaults initial_stage_state = Inr st
    \<and> m_STAGES st = SAFE_ROW # pre @ PROVE_ROW # forge_row (parsed table_json) (tb_stages (parsed table_json) ! 1) # post @ [VERIFY_ROW, GOVERN_ROW]
    \<and> forge_row (parsed table_json) (tb_stages (parsed table_json) ! 0) \<in> set pre"
proof -
  let ?t = "parsed table_json"
  have "is_ok (useStageTable ?t Vaults initial_stage_state)" by code_simp
  then obtain st where st: "useStageTable ?t Vaults initial_stage_state = Inr st" by (auto simp: is_ok_iff)
  have len: "1 < length (tb_stages ?t)" by code_simp
  have a: "tb_upgradeAuthority ?t = Some (the (tb_upgradeAuthority ?t))" "ua_stage (the (tb_upgradeAuthority ?t)) = ''timelock''"
    by code_simp+
  have h: "st_name (tb_stages ?t ! 1) = ''timelock''" "tb_systems ?t \<noteq> None \<longrightarrow> in_system ''vaults'' (tb_stages ?t ! 1)" by code_simp+
  have v: "st_proxies (tb_stages ?t ! 0) = Some (hd (the (st_proxies (tb_stages ?t ! 0))) # [])"
    "st_upgradeTimelockEnv (tb_stages ?t ! 0) = JUndef" "tb_stages ?t ! 0 \<noteq> tb_stages ?t ! 1" by code_simp+
  have "forge_row ?t (tb_stages ?t ! 0) \<in> set (buildStages ?t (Some Vaults))" by code_simp
  with useStageTable_Inr(3) [OF st] have m: "forge_row ?t (tb_stages ?t ! 0) \<in> set (m_STAGES st)" by simp
  from len have in0: "tb_stages ?t ! 0 \<in> set (tb_stages ?t)" and in1: "tb_stages ?t ! 1 \<in> set (tb_stages ?t)" by (auto intro: nth_mem)
  show ?thesis using handover_last [OF table_json_parses st a in1 h] in0 v m st by blast
qed

theorem restore_peek_witness:
  "\<exists>v g. useStageTable (parsed table_json) Vaults initial_stage_state = Inr v \<and> useStageTable (parsed table_json) Gateway v = Inr g
     \<and> v \<noteq> g \<and> restoreStageState (peekStageState v) g = Inr v"
proof -
  let ?t = "parsed table_json"
  have "is_ok (useStageTable ?t Vaults initial_stage_state)" by code_simp
  then obtain v where v: "useStageTable ?t Vaults initial_stage_state = Inr v" by (auto simp: is_ok_iff)
  have "is_ok (useStageTable ?t Gateway initial_stage_state)" by code_simp
  then obtain g where g: "useStageTable ?t Gateway v = Inr g"
    using useStageTable_forgets [of ?t Gateway v initial_stage_state] by (auto simp: is_ok_iff)
  have "loaded v" using loaded.use [OF loaded.start v] .
  moreover have "m_table v \<noteq> None" "v \<noteq> g" using useStageTable_Inr(1,2) [OF v] useStageTable_Inr(2) [OF g] by auto
  ultimately show ?thesis using restore_peek [OF _ _ g] v g by blast
qed

subsection \<open>The two systems\<close>

lemma filter_map_forge:
  assumes "distinct (map st_name (tb_stages t))"
  shows "filter (row_in_system t name) (map (forge_row t) (tb_stages t)) = map (forge_row t) (filter (in_system name) (tb_stages t))"
proof -
  have "filter (row_in_system t name) (map (forge_row t) ss) = map (forge_row t) (filter (in_system name) ss)"
    if "set ss \<subseteq> set (tb_stages t)" for ss
    using that by (induction ss) (auto simp: row_in_system_forge [OF assms])
  then show ?thesis by simp
qed

lemma prove_rows_forge: "filter (\<lambda>r. row_kind r = KForge) (prove_before_handover own) = filter (\<lambda>r. row_kind r = KForge) own"
proof (cases "findIndex (\<lambda>r. row_name r = ''timelock'') own")
  case (Some k)
  have "filter (\<lambda>r. row_kind r = KForge) (take k own) @ filter (\<lambda>r. row_kind r = KForge) (drop k own) = filter (\<lambda>r. row_kind r = KForge) own"
    by (simp flip: filter_append)
  with Some show ?thesis by (simp add: prove_before_handover_def)
qed (simp add: prove_before_handover_def)

text \<open>
  With a table that declares systems, the forge rows of a run are exactly the stages of its system in
  table order; a gateway run has no Safe, control proof or govern row; and the system's own stage list in
  the table names exactly those rows.
\<close>

theorem system_runs:
  assumes "parseStageTable json = Inr t" and "tb_systems t = Some defs" and "useStageTable t system st0 = Inr st"
  shows "filter (\<lambda>r. row_kind r = KForge) (m_STAGES st) = map (forge_row t) (filter (in_system (system_text system)) (tb_stages t))
    \<and> (system = Gateway \<longrightarrow> (\<forall>r \<in> set (m_STAGES st). row_kind r = KForge \<or> r = VERIFY_ROW))
    \<and> (\<forall>d. map_of defs (system_text system) = Some d \<longrightarrow>
         map row_name (filter (\<lambda>r. row_kind r = KForge) (m_STAGES st)) = sy_stages d)"
proof -
  have wf: "table_wf t" by (rule parse_table_wf [OF assms(1)])
  then have dist: "distinct (map st_name (tb_stages t))" and sys: "systems_wf t" by (simp_all add: table_wf_def stages_wf_def)
  note forge = filter_map_forge [OF dist]
  have forge_rows: "filter (\<lambda>r. row_kind r = KForge) (map (forge_row t) ss) = map (forge_row t) ss" for ss
    by (simp add: filter_id_conv)
  have rows: "filter (\<lambda>r. row_kind r = KForge) (m_STAGES st) = map (forge_row t) (filter (in_system (system_text system)) (tb_stages t))"
  proof (cases system)
    case Vaults
    with useStageTable_Inr(3) [OF assms(3)] assms(2) show ?thesis
      by (simp add: buildStages_vaults prove_rows_forge own_rows_def forge forge_rows system_text_def)
  next
    case Gateway
    with useStageTable_Inr(3) [OF assms(3)] show ?thesis
      by (simp add: buildStages_def Let_def forge forge_rows system_text_def)
  qed
  moreover have "\<forall>r \<in> set (m_STAGES st). row_kind r = KForge \<or> r = VERIFY_ROW" if "system = Gateway"
    using that useStageTable_Inr(3) [OF assms(3)] by (auto simp: buildStages_def Let_def)
  moreover have "map row_name (filter (\<lambda>r. row_kind r = KForge) (m_STAGES st)) = sy_stages d"
    if "map_of defs (system_text system) = Some d" for d
    using map_of_SomeD [OF that] sys assms(2) by (auto simp: systems_wf_def rows comp_def)
  ultimately show ?thesis by blast
qed

theorem system_runs_witness:
  "\<exists>st. useStageTable (parsed table_json) Gateway initial_stage_state = Inr st
     \<and> map row_name (filter (\<lambda>r. row_kind r = KForge) (m_STAGES st)) = [''gateway'']
     \<and> (\<forall>r \<in> set (m_STAGES st). row_kind r = KForge \<or> r = VERIFY_ROW)"
proof -
  let ?t = "parsed table_json"
  have "is_ok (useStageTable ?t Gateway initial_stage_state)" by code_simp
  then obtain st where st: "useStageTable ?t Gateway initial_stage_state = Inr st" by (auto simp: is_ok_iff)
  have defs: "tb_systems ?t = Some (the (tb_systems ?t))" by code_simp
  have d: "map_of (the (tb_systems ?t)) (system_text Gateway) = Some (the (map_of (the (tb_systems ?t)) (system_text Gateway)))"
    "sy_stages (the (map_of (the (tb_systems ?t)) (system_text Gateway))) = [''gateway'']" by code_simp+
  show ?thesis using system_runs [OF table_json_parses defs st] d st by auto
qed

definition orphan_json :: js where
  "orphan_json = sample_table (sample_stages ''constructor'')
     (JObj [(''vaults'', sample_system [''vault'', ''timelock''] []), (''gateway'', sample_system [] [''vaults''])])"

text \<open>
  C39. The check that every stage names a declared system asks \<open>s.system in sys\<close>, which also holds of the names
  every object inherits. A table whose gateway stage has the system \<open>constructor\<close> parses, and neither run
  contains that stage.
\<close>

theorem stage_in_no_run:
  "\<exists>t v g. parseStageTable orphan_json = Inr t \<and> ''gateway'' \<in> set (map st_name (tb_stages t))
     \<and> useStageTable t Vaults initial_stage_state = Inr v \<and> useStageTable t Gateway initial_stage_state = Inr g
     \<and> ''gateway'' \<notin> set (m_STAGE_NAMES v) \<and> ''gateway'' \<notin> set (m_STAGE_NAMES g)"
proof -
  let ?t = "parsed orphan_json"
  have p: "parseStageTable orphan_json = Inr ?t" by (rule parsed_ok) code_simp
  have "is_ok (useStageTable ?t Vaults initial_stage_state)" by code_simp
  then obtain v where v: "useStageTable ?t Vaults initial_stage_state = Inr v" by (auto simp: is_ok_iff)
  have "is_ok (useStageTable ?t Gateway initial_stage_state)" by code_simp
  then obtain g where g: "useStageTable ?t Gateway initial_stage_state = Inr g" by (auto simp: is_ok_iff)
  have "''gateway'' \<in> set (map st_name (tb_stages ?t))" by code_simp
  moreover have "''gateway'' \<notin> set (map row_name (buildStages ?t (Some Vaults)))" "''gateway'' \<notin> set (map row_name (buildStages ?t (Some Gateway)))"
    by code_simp+
  ultimately show ?thesis
    using p v g useStageTable_Inr(3,4) [OF v] useStageTable_Inr(3,4) [OF g] by metis
qed

section \<open>The deployer nonce\<close>

text \<open>
  The reference: a run walks its rows in order, and each row moves the deployer nonce by the transactions
  it sends, which are its frozen count, or the one control proof transaction, or none.
\<close>

definition spent :: "FrozenCounts \<Rightarrow> StageRow \<Rightarrow> int" where
  "spent c r = (if row_kind r = KProve then PROOF_TX_NONCES else row_count c r)"

definition nonce_after :: "FrozenCounts \<Rightarrow> int \<Rightarrow> StageRow list \<Rightarrow> int" where
  "nonce_after c n rows = n + sum_list (map (spent c) rows)"

definition proofs_in :: "StageRow list \<Rightarrow> int" where
  "proofs_in rows = PROOF_TX_NONCES * int (length (filter (\<lambda>r. row_kind r = KProve) rows))"

definition prove_uncounted :: "StageRow list \<Rightarrow> bool" where
  "prove_uncounted rows \<longleftrightarrow> (\<forall>r \<in> set rows. row_kind r = KProve \<longrightarrow> row_countKey r = None)"

lemma spent_sum:
  "prove_uncounted rows \<Longrightarrow>
     sum_list (map (spent c) rows) = sum_list (map (row_count c) (filter (\<lambda>s. row_countKey s \<noteq> None) rows)) + proofs_in rows"
  by (induction rows) (auto simp: prove_uncounted_def spent_def proofs_in_def row_count_def algebra_simps)

lemma start_nonce_loop_split:
  assumes "row_name r \<notin> row_name ` set pre" and "row_countKey r \<noteq> None"
  shows "start_nonce_loop st (row_name r) c n (filter (\<lambda>s. row_countKey s \<noteq> None) (pre @ r # post))
    = n + sum_list (map (row_count c) (filter (\<lambda>s. row_countKey s \<noteq> None) pre)) + proofNoncesBefore st (row_name r)"
  using assms by (induction pre arbitrary: n) auto

lemma start_nonce_loop_none:
  assumes "\<forall>s \<in> set rows. row_name s \<noteq> stage"
  shows "start_nonce_loop st stage c n rows = n + sum_list (map (row_count c) rows) + proofTxNonces st"
  using assms by (induction rows arbitrary: n) auto

lemma indexOf_split: "x \<notin> set xs \<Longrightarrow> indexOf (xs @ x # ys) x = int (length xs)"
  using findIndex_append [of xs "\<lambda>y. y = x" x ys] by (metis (mono_tags, lifting) indexOf_def option.simps(5))

text \<open>The control proof stands once in a vaults run and not at all in a gateway run.\<close>

lemma prove_once:
  "\<exists>xs ys. buildStages t (Some Vaults) = xs @ PROVE_ROW # ys \<and> (\<forall>r \<in> set xs \<union> set ys. row_kind r \<noteq> KProve)"
proof -
  have own: "row_kind r = KForge" if "r \<in> set (own_rows t)" for r
    using own_rows_forge [OF that] by auto
  obtain us vs where uv: "prove_before_handover (own_rows t) = us @ PROVE_ROW # vs" "set us \<union> set vs \<subseteq> set (own_rows t)"
  proof (cases "findIndex (\<lambda>r. row_name r = ''timelock'') (own_rows t)")
    case None
    then show thesis by (intro that [of "own_rows t" "[]"]) (simp_all add: prove_before_handover_def)
  next
    case (Some k)
    then show thesis
      by (intro that [of "take k (own_rows t)" "drop k (own_rows t)"])
        (auto simp: prove_before_handover_def dest: in_set_takeD in_set_dropD)
  qed
  have "row_kind r \<noteq> KProve" if "r \<in> set (SAFE_ROW # us) \<union> set (vs @ [VERIFY_ROW, GOVERN_ROW])" for r
    using that uv(2) own by fastforce
  then show ?thesis
    using uv(1) by (intro exI [of _ "SAFE_ROW # us"] exI [of _ "vs @ [VERIFY_ROW, GOVERN_ROW]"]) (simp add: buildStages_vaults)
qed

lemma gateway_no_prove: "\<forall>r \<in> set (buildStages t (Some Gateway)). row_kind r \<noteq> KProve"
  by (auto simp: buildStages_def Let_def)

lemma build_prove_uncounted: "prove_uncounted (buildStages t (Some system))"
proof (cases system)
  case Vaults
  obtain xs ys where "buildStages t (Some Vaults) = xs @ PROVE_ROW # ys" "\<forall>r \<in> set xs \<union> set ys. row_kind r \<noteq> KProve"
    using prove_once [of t] by blast
  with Vaults show ?thesis by (auto simp: prove_uncounted_def)
next
  case Gateway
  with gateway_no_prove show ?thesis by (auto simp: prove_uncounted_def)
qed

lemma proofs_before:
  assumes st: "useStageTable t system st0 = Inr st" and "distinct (m_STAGE_NAMES st)" and "m_STAGES st = pre @ r # post"
    and "row_countKey r \<noteq> None"
  shows "proofNoncesBefore st (row_name r) = proofs_in pre"
proof (cases system)
  case Gateway
  with gateway_no_prove [of t] assms(3) useStageTable_Inr(2,3) [OF st] show ?thesis
    by (auto simp: proofNoncesBefore_def proofs_in_def filter_empty_conv)
next
  case Vaults
  obtain xs ys where rows: "m_STAGES st = xs @ PROVE_ROW # ys" and others: "\<forall>r \<in> set xs \<union> set ys. row_kind r \<noteq> KProve"
    using prove_once [of t] useStageTable_Inr(3) [OF st] Vaults by auto
  have dist: "distinct (map row_name (m_STAGES st))" using assms(2) useStageTable_Inr(4) [OF st] by simp
  have pre: "indexOf (m_STAGE_NAMES st) (row_name r) = int (length pre)"
    using dist useStageTable_Inr(4) [OF st] assms(3) indexOf_split [of "row_name r" "map row_name pre" "map row_name post"] by simp
  have prv: "indexOf (m_STAGE_NAMES st) PROOF_STAGE = int (length xs)"
    using dist useStageTable_Inr(4) [OF st] rows indexOf_split [of PROOF_STAGE "map row_name xs" "map row_name ys"] by simp
  have "r \<noteq> PROVE_ROW" using assms(4) by auto
  from assms(3) rows have eq: "pre @ r # post = xs @ PROVE_ROW # ys" by simp
  have "int (length (filter (\<lambda>r. row_kind r = KProve) pre)) = (if length xs < length pre then 1 else 0)"
  proof (cases "length xs < length pre")
    case True
    then obtain zs where "pre = xs @ PROVE_ROW # zs" "ys = zs @ r # post"
      using eq by (auto simp: append_eq_append_conv2 Cons_eq_append_conv append_eq_Cons_conv)
    with others True show ?thesis by (auto simp: filter_empty_conv)
  next
    case False
    then obtain zs where "xs = pre @ zs" using eq by (auto simp: append_eq_append_conv2)
    with others False show ?thesis by (auto simp: filter_empty_conv)
  qed
  with Vaults pre prv useStageTable_Inr(2) [OF st] show ?thesis by (simp add: proofNoncesBefore_def proofs_in_def)
qed

text \<open>
  The closed form of \<open>expectedStartNonce\<close> agrees with walking the run: for a row that sends deployer
  transactions, it is the nonce after every row before it, the control proof included exactly once and only
  when it comes before.
\<close>

theorem expectedStartNonce_walk:
  assumes "useStageTable t system st0 = Inr st" and "distinct (m_STAGE_NAMES st)"
    and "m_STAGES st = pre @ r # post" and "row_countKey r \<noteq> None"
  shows "expectedStartNonce st (row_name r) c n = nonce_after c n pre"
proof -
  have "prove_uncounted pre"
    using build_prove_uncounted [of t system] by (auto simp: prove_uncounted_def useStageTable_Inr(3) [OF assms(1), symmetric] assms(3))
  moreover have "row_name r \<notin> row_name ` set pre"
    using assms(2,3) useStageTable_Inr(4) [OF assms(1)] by auto
  ultimately show ?thesis
    using start_nonce_loop_split [of r pre st c n post] assms(3,4) proofs_before [OF assms] useStageTable_Inr(5) [OF assms(1)]
    by (simp add: expectedStartNonce_def nonce_after_def spent_sum)
qed

definition sample_counts :: FrozenCounts where
  "sample_counts = [(''safe'', 1), (''vault'', 5), (''timelock'', 7), (''gateway'', 3)]"

theorem expectedStartNonce_walk_witness:
  "\<exists>st. useStageTable (parsed table_json) Vaults initial_stage_state = Inr st
     \<and> expectedStartNonce st ''vault'' sample_counts 0 = 1 \<and> expectedStartNonce st ''timelock'' sample_counts 0 = 7"
proof -
  let ?t = "parsed table_json" and ?rows = "buildStages (parsed table_json) (Some Vaults)"
  have "is_ok (useStageTable ?t Vaults initial_stage_state)" by code_simp
  then obtain st where st: "useStageTable ?t Vaults initial_stage_state = Inr st" by (auto simp: is_ok_iff)
  note rows = useStageTable_Inr(3,4) [OF st]
  have "distinct (map row_name ?rows)" by code_simp
  with rows have dist: "distinct (m_STAGE_NAMES st)" by simp
  have s: "?rows = take 1 ?rows @ ?rows ! 1 # drop 2 ?rows" "?rows = take 3 ?rows @ ?rows ! 3 # drop 4 ?rows" by code_simp+
  with rows have split: "m_STAGES st = take 1 ?rows @ ?rows ! 1 # drop 2 ?rows" "m_STAGES st = take 3 ?rows @ ?rows ! 3 # drop 4 ?rows" by simp_all
  have n: "row_name (?rows ! 1) = ''vault''" "row_countKey (?rows ! 1) \<noteq> None" "row_name (?rows ! 3) = ''timelock''" "row_countKey (?rows ! 3) \<noteq> None"
    by code_simp+
  have "nonce_after sample_counts 0 (take 1 ?rows) = 1" "nonce_after sample_counts 0 (take 3 ?rows) = 7" by code_simp+
  with st n expectedStartNonce_walk [OF st dist split(1) n(2), of sample_counts 0] expectedStartNonce_walk [OF st dist split(2) n(4), of sample_counts 0]
  show ?thesis by auto
qed

lemma sum_active_keys:
  assumes "\<forall>s \<in> set rows. row_countKey s \<noteq> None"
  shows "sum_list (map (count_or_0 c) (filter (\<lambda>k. k \<in> set (map fst c)) (map (\<lambda>s. the (row_countKey s)) rows))) = sum_list (map (row_count c) rows)"
  using assms
proof (induction rows)
  case (Cons r rows)
  then obtain k where "row_countKey r = Some k" by auto
  moreover have "map_of c k = None" if "k \<notin> fst ` set c" using that by (simp add: map_of_eq_None_iff)
  ultimately show ?case
    using Cons by (cases "k \<in> fst ` set c") (simp_all add: row_count_def count_or_0_def)
qed simp

lemma proofs_total:
  assumes "useStageTable t system st0 = Inr st"
  shows "proofTxNonces st = proofs_in (m_STAGES st)"
proof (cases system)
  case Gateway
  with gateway_no_prove [of t] useStageTable_Inr(2,3) [OF assms] show ?thesis
    by (auto simp: proofTxNonces_def proofs_in_def filter_empty_conv)
next
  case Vaults
  obtain xs ys where rows: "m_STAGES st = xs @ PROVE_ROW # ys" and others: "\<forall>r \<in> set xs \<union> set ys. row_kind r \<noteq> KProve"
    using prove_once [of t] useStageTable_Inr(3) [OF assms] Vaults by auto
  have "filter (\<lambda>r. row_kind r = KProve) xs = []" "filter (\<lambda>r. row_kind r = KProve) ys = []"
    using others by (auto simp: filter_empty_conv)
  with Vaults rows useStageTable_Inr(2) [OF assms] show ?thesis by (simp add: proofTxNonces_def proofs_in_def)
qed

lemma final_nonce:
  assumes "useStageTable t system st0 = Inr st" and "m_DEPLOYER_STAGES st \<noteq> []"
  shows "finalDeployerNonce st c n = nonce_after c n (m_STAGES st)"
proof -
  have "prove_uncounted (m_STAGES st)" using build_prove_uncounted [of t system] useStageTable_Inr(3) [OF assms(1)] by simp
  then show ?thesis
    using sum_active_keys [of "m_DEPLOYER_STAGES st" c] assms(2) proofs_total [OF assms(1)] useStageTable_Inr(5) [OF assms(1)]
    by (simp add: finalDeployerNonce_def sumCounts_def activeCountKeys_def nonce_after_def spent_sum)
qed

text \<open>
  C0. At the end of a run the two closed forms agree with the walk over all of its rows, and \<open>checkNonce\<close>
  passes at exactly that nonce.
\<close>

theorem final_nonce_walk:
  assumes "useStageTable t system st0 = Inr st" and "m_DEPLOYER_STAGES st \<noteq> []"
  shows "finalDeployerNonce st c n = nonce_after c n (m_STAGES st)
    \<and> (checkNonce st actual c None n = Inr () \<longleftrightarrow> actual = nonce_after c n (m_STAGES st))"
  using final_nonce [OF assms, of c n] by (auto simp: checkNonce_def finalDeployerNonce_def Let_def)

theorem final_nonce_walk_witness:
  "\<exists>st. useStageTable (parsed table_json) Vaults initial_stage_state = Inr st \<and> finalDeployerNonce st sample_counts 0 = 14
     \<and> checkNonce st 14 sample_counts None 0 = Inr () \<and> checkNonce st 13 sample_counts None 0 \<noteq> Inr ()"
proof -
  let ?t = "parsed table_json"
  have "is_ok (useStageTable ?t Vaults initial_stage_state)" by code_simp
  then obtain st where st: "useStageTable ?t Vaults initial_stage_state = Inr st" by (auto simp: is_ok_iff)
  have "filter (\<lambda>s. row_countKey s \<noteq> None) (buildStages ?t (Some Vaults)) \<noteq> []" by code_simp
  with useStageTable_Inr(3,5) [OF st] have d: "m_DEPLOYER_STAGES st \<noteq> []" by simp
  have "nonce_after sample_counts 0 (buildStages ?t (Some Vaults)) = 14" by code_simp
  with useStageTable_Inr(3) [OF st] have "nonce_after sample_counts 0 (m_STAGES st) = 14" by simp
  with st final_nonce_walk [OF st d, of sample_counts 0] show ?thesis by auto
qed

section \<open>Adopted stages\<close>

lemma map_of_AList_upd: "map_of (AList_upd k v kvs) = (map_of kvs)(k \<mapsto> v)"
  by (induction k v kvs rule: AList_upd.induct) auto

lemma keys_AList_upd: "k \<in> fst ` set kvs \<Longrightarrow> map fst (AList_upd k v kvs) = map fst kvs"
  by (induction k v kvs rule: AList_upd.induct) auto

lemma adopt_counts_spec:
  "adopt_counts c out adopted = Inr c' \<Longrightarrow> map fst out = map fst c \<Longrightarrow> distinct (map fst adopted) \<Longrightarrow>
     map fst c' = map fst c
     \<and> (\<forall>k. map_of c' k = (case map_of adopted k of Some n \<Rightarrow> Some n | None \<Rightarrow> map_of out k))
     \<and> (\<forall>k n. map_of adopted k = Some n \<longrightarrow> (\<exists>m. map_of c k = Some m \<and> 0 \<le> n \<and> n \<le> m))"
proof (induction c out adopted arbitrary: c' rule: adopt_counts.induct)
  case (2 c out k sent rest)
  from "2.prems"(1) obtain m where m: "map_of c k = Some m" "0 \<le> sent" "sent \<le> m"
    and rest: "adopt_counts c (AList_upd k sent out) rest = Inr c'"
    by (auto split: option.splits if_splits)
  have "k \<in> fst ` set out"
    using m(1) "2.prems"(2) by (metis list.set_map map_of_SomeD fst_conv image_eqI)
  then have keys: "map fst (AList_upd k sent out) = map fst c" using keys_AList_upd "2.prems"(2) by metis
  have new: "map_of rest k = None" using "2.prems"(3) by (simp add: map_of_eq_None_iff)
  from "2.IH" m rest keys "2.prems"(3) have
    IH: "map fst c' = map fst c"
      "\<forall>k'. map_of c' k' = (case map_of rest k' of Some n \<Rightarrow> Some n | None \<Rightarrow> map_of (AList_upd k sent out) k')"
      "\<forall>k' n. map_of rest k' = Some n \<longrightarrow> (\<exists>m. map_of c k' = Some m \<and> 0 \<le> n \<and> n \<le> m)"
    by auto
  show ?case
    using IH m new by (auto simp: map_of_AList_upd split: option.splits)
qed simp

text \<open>
  \<open>effectiveCounts\<close> keeps the stages of the frozen counts and changes only the adopted ones, to the number
  of transactions recorded for them, which lies between zero and the frozen count; an adopted stage with
  no frozen count or a number out of range is refused with \<open>LIBS_ADOPTION\<close>.
\<close>

theorem effectiveCounts_spec:
  assumes "distinct (map fst adopted)"
  shows "case effectiveCounts c adopted of
      Inr c' \<Rightarrow> map fst c' = map fst c
        \<and> (\<forall>k. map_of c' k = (case map_of adopted k of Some n \<Rightarrow> Some n | None \<Rightarrow> map_of c k))
        \<and> (\<forall>k n. map_of adopted k = Some n \<longrightarrow> (\<exists>m. map_of c k = Some m \<and> 0 \<le> n \<and> n \<le> m))
    | Inl e \<Rightarrow> e = PublishError LIBS_ADOPTION
        \<and> (\<exists>(k, n) \<in> set adopted. case map_of c k of None \<Rightarrow> True | Some m \<Rightarrow> n < 0 \<or> n > m)"
proof (cases "effectiveCounts c adopted")
  case (Inr c')
  have "adopt_counts c c adopted = Inr c'" using Inr by (simp add: effectiveCounts_def split: if_splits)
  from adopt_counts_spec [OF this refl assms] Inr show ?thesis by simp
next
  case (Inl e)
  have "adopt_counts c out xs = Inl e \<Longrightarrow> e = PublishError LIBS_ADOPTION
        \<and> (\<exists>(k, n) \<in> set xs. case map_of c k of None \<Rightarrow> True | Some m \<Rightarrow> n < 0 \<or> n > m)" for out xs
    by (induction c out xs rule: adopt_counts.induct) (auto split: option.splits if_splits)
  with Inl show ?thesis by (auto simp: effectiveCounts_def split: if_splits)
qed

theorem effectiveCounts_spec_witness:
  "effectiveCounts sample_counts [(''vault'', 2)] = Inr [(''safe'', 1), (''vault'', 2), (''timelock'', 7), (''gateway'', 3)]
     \<and> map fst [(''safe'', 1 :: int), (''vault'', 2), (''timelock'', 7), (''gateway'', 3)] = map fst sample_counts"
proof -
  have e: "effectiveCounts sample_counts [(''vault'', 2)] = Inr [(''safe'', 1), (''vault'', 2), (''timelock'', 7), (''gateway'', 3)]" by code_simp
  show ?thesis using effectiveCounts_spec [of "[(''vault'', 2)]" sample_counts] e by simp
qed

end
