(* ===== verification/Floors.thy ===== *)
theory Floors
  imports StageTable
begin

text \<open>
  The chain-keyed floors of the publishing tool (publish-contracts/src/floors.ts), the proof behind
  \<open>CONFIRM=environment\<close> (actions-proof.ts), the caller's inputs (sheet.ts) and the place of cli.ts that puts
  them together. A reason given to the operator is kept as the case it stands for.

  Parameters, for the platform and for GitHub: the host name of a URL (\<open>new URL(url).hostname\<close>), the JSON of a
  base64url text, the answers of the two HTTP requests, and the RSA check of a signature.
\<close>

section \<open>Signing material\<close>

type_synonym env = "string \<Rightarrow> string option"

definition env_set :: "env \<Rightarrow> string \<Rightarrow> bool" where
  "env_set env n = (case env n of None \<Rightarrow> False | Some v \<Rightarrow> v \<noteq> [])"

definition PLAINTEXT_ENV :: "string list" where
  "PLAINTEXT_ENV = [''PRIVATE_KEY'', ''ETH_PRIVATE_KEY'', ''MNEMONIC'', ''ETH_MNEMONIC'', ''ETH_PASSWORD'', ''ETH_KEYSTORE_PASSWORD'']"

text \<open>\<open>/(^|\s)--(private-key|private-keys|mnemonic|mnemonic-path|mnemonics|password)(\s|=|$)/\<close>: \<open>pre\<close> is what comes before, reversed.\<close>

definition plaintext_flags :: "string list" where
  "plaintext_flags = [''private-key'', ''private-keys'', ''mnemonic'', ''mnemonic-path'', ''mnemonics'', ''password'']"

definition flag_here :: "string \<Rightarrow> string \<Rightarrow> bool" where
  "flag_here pre s =
     ((pre = [] \<or> 0 < blank_len (map rev wide_blanks) pre)
      \<and> (\<exists>w \<in> set plaintext_flags.
           case drop_prefix (''--'' @ w) s of None \<Rightarrow> False
           | Some r \<Rightarrow> r = [] \<or> hd r = CHR ''='' \<or> 0 < blank_len wide_blanks r))"

fun flag_search :: "string \<Rightarrow> string \<Rightarrow> bool" where
  "flag_search pre [] = False"
| "flag_search pre (c # s) = (flag_here pre (c # s) \<or> flag_search (c # pre) s)"

text \<open>\<open>/^(plaintext|private-key|key|loopback-key)(:|$)/\<close>\<close>

definition plaintext_spec :: "string \<Rightarrow> bool" where
  "plaintext_spec s = (\<exists>w \<in> set [''plaintext'', ''private-key'', ''key'', ''loopback-key'']. s = w \<or> starts_with (w @ '':'') s)"

datatype key_reason = CarriesFlag | PlaintextSigner | RawKey | EnvironmentCarries string | PassphraseFile

definition plaintextKeyReason :: "string \<Rightarrow> env \<Rightarrow> key_reason option" where
  "plaintextKeyReason spec env =
     (if flag_search [] spec then Some CarriesFlag
      else if plaintext_spec spec then Some PlaintextSigner
      else if hex_of_len 64 spec then Some RawKey
      else map_option EnvironmentCarries (find (env_set env) PLAINTEXT_ENV))"

text \<open>\<open>/^keystore:[^:]+:.+/\<close>; the dot is no line terminator.\<close>

definition line_terminators :: "string list" where
  "line_terminators = [[char_of (10 :: nat)], [char_of (13 :: nat)], map char_of [0xE2, 0x80, 0xA8 :: nat], map char_of [0xE2, 0x80, 0xA9 :: nat]]"

definition passphraseFileReason :: "string \<Rightarrow> key_reason option" where
  "passphraseFileReason spec =
     (case drop_prefix ''keystore:'' spec of None \<Rightarrow> None
      | Some r \<Rightarrow>
          let path = takeWhile (\<lambda>c. c \<noteq> CHR '':'') r; rest = drop 1 (dropWhile (\<lambda>c. c \<noteq> CHR '':'') r) in
          if path \<noteq> [] \<and> rest \<noteq> [] \<and> \<not> (\<exists>w \<in> set line_terminators. starts_with w rest) then Some PassphraseFile else None)"

definition plaintextSignerReason :: "string \<Rightarrow> env \<Rightarrow> key_reason option" where
  "plaintextSignerReason spec env =
     (case plaintextKeyReason spec env of Some r \<Rightarrow> Some r | None \<Rightarrow> passphraseFileReason spec)"

section \<open>The RPC\<close>

text \<open>safe/chain.ts: \<open>hostname\<close> is the platform's URL parser, \<^const>\<open>None\<close> when it throws.\<close>

definition rpcHost :: "(string \<Rightarrow> string option) \<Rightarrow> string \<Rightarrow> failure + string" where
  "rpcHost hostname url =
     (case hostname url of None \<Rightarrow> Inl (SafeToolError BAD_INPUT)
      | Some h0 \<Rightarrow>
          let h = lc h0 in
          Inr (if starts_with ''['' h \<and> h \<noteq> [] \<and> last h = CHR '']'' then butlast (drop 1 h) else h))"

definition isLoopbackRpc :: "(string \<Rightarrow> string option) \<Rightarrow> string \<Rightarrow> failure + bool" where
  "isLoopbackRpc hostname url =
     res_bind (rpcHost hostname url) (\<lambda>h. Inr (h \<in> set [''127.0.0.1'', ''localhost'', ''::1'']))"

definition floor_error :: failure where "floor_error = PublishError FLOOR"

definition assertSignerSpec :: "(string \<Rightarrow> string option) \<Rightarrow> string \<Rightarrow> int \<Rightarrow> string \<Rightarrow> env \<Rightarrow> failure + unit" where
  "assertSignerSpec hostname spec rpcChainId rpc env =
     res_bind (isLoopbackRpc hostname rpc) (\<lambda>loopback.
     res_bind (ensure (loopback \<or> plaintextKeyReason spec env = None) floor_error) (\<lambda>_.
     ensure (\<not> isMainnet rpcChainId \<or> plaintextSignerReason spec env = None) floor_error))"

definition assertOwnerSignerSpec :: "(string \<Rightarrow> string option) \<Rightarrow> string \<Rightarrow> int \<Rightarrow> string \<Rightarrow> env \<Rightarrow> failure + unit" where
  "assertOwnerSignerSpec = assertSignerSpec"

text \<open>\<open>Number(out)\<close> of the digits \<open>cast chain-id\<close> prints; \<open>out\<close> is what the command answered.\<close>

definition readRpcChainId :: "string \<Rightarrow> failure + int" where
  "readRpcChainId out =
     (let t = trim out in if all_digits t then Inr (int (read_nat t)) else Inl (PublishError CHAIN))"

section \<open>actions-proof.ts\<close>

definition ACTIONS_ISSUER :: string where "ACTIONS_ISSUER = ''https://token.actions.githubusercontent.com''"
definition ACTIONS_AUDIENCE :: string where "ACTIONS_AUDIENCE = ''robotmoney-publish-contracts''"
definition ACTIONS_REPOSITORY_OWNER :: string where "ACTIONS_REPOSITORY_OWNER = ''robotmoney''"
definition ACTIONS_TOKEN_ENV :: string where "ACTIONS_TOKEN_ENV = ''ACTIONS_ID_TOKEN_REQUEST_TOKEN''"
definition ACTIONS_URL_ENV :: string where "ACTIONS_URL_ENV = ''ACTIONS_ID_TOKEN_REQUEST_URL''"
definition NBF_LEEWAY_S :: int where "NBF_LEEWAY_S = 60"

record ActionsProof =
  ap_repository :: string
  ap_repositoryOwner :: string
  ap_environment :: string
  ap_sub :: string
  ap_workflow :: "string option"
  ap_ref :: "string option"
  ap_sha :: "string option"
  ap_runId :: "string option"
  ap_runAttempt :: "string option"
  ap_eventName :: "string option"
  ap_actor :: "string option"

datatype proof_reason = NotInActions | NoRequestToken | NoEnvironmentName | NoVerifiedToken | OtherEnvironment

definition actionsProofReason :: "bool \<Rightarrow> env \<Rightarrow> string option \<Rightarrow> ActionsProof option \<Rightarrow> proof_reason option" where
  "actionsProofReason githubActions env environment got =
     (if \<not> githubActions then Some NotInActions
      else if \<not> env_set env ACTIONS_TOKEN_ENV then Some NoRequestToken
      else case environment of None \<Rightarrow> Some NoEnvironmentName
        | Some e \<Rightarrow>
            if e = [] \<or> e = ''local'' then Some NoEnvironmentName
            else (case got of None \<Rightarrow> Some NoVerifiedToken
                  | Some p \<Rightarrow> if ap_environment p \<noteq> e then Some OtherEnvironment else None))"

text \<open>\<open>str\<close> and \<open>seconds\<close> of a claim; a comparison with a whole number of seconds.\<close>

definition claim_str :: "js \<Rightarrow> string option" where
  "claim_str v = (case v of JStr s \<Rightarrow> Some s | JNum n \<Rightarrow> Some (show_int n) | JFloat n \<Rightarrow> Some (js_String v) | _ \<Rightarrow> None)"

definition seconds :: "js \<Rightarrow> js option" where
  "seconds v = (case v of JNum n \<Rightarrow> Some v | JFloat n \<Rightarrow> Some v
     | JStr s \<Rightarrow> if all_digits s then Some (JNum (int (read_nat s))) else None | _ \<Rightarrow> None)"

definition num_le :: "js \<Rightarrow> int \<Rightarrow> bool" where
  "num_le v k = (case v of JNum n \<Rightarrow> n \<le> k | JFloat n \<Rightarrow> n < k | _ \<Rightarrow> False)"

definition num_gt :: "js \<Rightarrow> int \<Rightarrow> bool" where
  "num_gt v k = (case v of JNum n \<Rightarrow> n > k | JFloat n \<Rightarrow> n \<ge> k | _ \<Rightarrow> False)"

definition nonempty :: "string option \<Rightarrow> string option" where
  "nonempty v = (case v of Some s \<Rightarrow> if s = [] then None else Some s | None \<Rightarrow> None)"

definition checkClaims :: "js \<Rightarrow> string \<Rightarrow> int \<Rightarrow> failure + ActionsProof" where
  "checkClaims c want_environment now =
     res_bind (ensure (jget c ''iss'' = JStr ACTIONS_ISSUER) floor_error) (\<lambda>_.
     res_bind (ensure (JStr ACTIONS_AUDIENCE \<in> set (case jget c ''aud'' of JArr xs \<Rightarrow> xs | v \<Rightarrow> [v])) floor_error) (\<lambda>_.
     res_bind (of_option floor_error (seconds (jget c ''exp''))) (\<lambda>ex.
     res_bind (ensure (\<not> num_le ex now) floor_error) (\<lambda>_.
     res_bind (ensure (case seconds (jget c ''nbf'') of None \<Rightarrow> True | Some nbf \<Rightarrow> \<not> num_gt nbf (now + NBF_LEEWAY_S)) floor_error) (\<lambda>_.
     res_bind (of_option floor_error (nonempty (claim_str (jget c ''repository'')))) (\<lambda>repository.
     res_bind (of_option floor_error (nonempty (claim_str (jget c ''repository_owner'')))) (\<lambda>owner.
     res_bind (ensure (owner = ACTIONS_REPOSITORY_OWNER \<and> starts_with (ACTIONS_REPOSITORY_OWNER @ ''/'') repository) floor_error) (\<lambda>_.
     res_bind (of_option floor_error (nonempty (claim_str (jget c ''environment'')))) (\<lambda>environment.
     res_bind (ensure (environment = want_environment) floor_error) (\<lambda>_.
     let sub = claim_str (jget c ''sub''); wanted = ''repo:'' @ repository @ '':environment:'' @ environment in
     res_bind (ensure (sub = Some wanted) floor_error) (\<lambda>_.
     Inr \<lparr>ap_repository = repository, ap_repositoryOwner = owner, ap_environment = environment, ap_sub = wanted,
          ap_workflow = claim_str (jget c ''workflow''), ap_ref = claim_str (jget c ''ref''), ap_sha = claim_str (jget c ''sha''),
          ap_runId = claim_str (jget c ''run_id''), ap_runAttempt = claim_str (jget c ''run_attempt''),
          ap_eventName = claim_str (jget c ''event_name''), ap_actor = claim_str (jget c ''actor'')\<rparr>)))))))))))"

text \<open>
  What the tool asks the outside: the token for a request URL and token, the key set, the time, the JSON of a
  base64url part and the RSA check (\<^const>\<open>None\<close> when the key cannot be imported).
\<close>

record oidc =
  http_token :: "string \<Rightarrow> string \<Rightarrow> js option"
  http_jwks :: "js option"
  clock :: int
  json_part :: "string \<Rightarrow> js option"
  rs256 :: "string \<Rightarrow> string \<Rightarrow> string \<Rightarrow> string \<Rightarrow> bool option"

definition base64url :: "string \<Rightarrow> bool" where
  "base64url s = list_all (\<lambda>c. is_alnum c \<or> c = CHR ''_'' \<or> c = CHR ''-'') s"

definition decodeJwt :: "oidc \<Rightarrow> string \<Rightarrow> failure + (js \<times> js \<times> string \<times> string)" where
  "decodeJwt w jwt =
     (let parts = split_on (CHR ''.'') jwt in
      case parts of
        [h, p, s] \<Rightarrow>
          res_bind (ensure (h \<noteq> [] \<and> p \<noteq> [] \<and> s \<noteq> []) floor_error) (\<lambda>_.
          res_bind (ensure (base64url h) floor_error) (\<lambda>_.
          res_bind (of_option floor_error (json_part w h)) (\<lambda>header.
          res_bind (ensure (base64url p) floor_error) (\<lambda>_.
          res_bind (of_option floor_error (json_part w p)) (\<lambda>claims.
          res_bind (ensure (base64url s) floor_error) (\<lambda>_.
          Inr (header, claims, h @ ''.'' @ p, s)))))))
      | _ \<Rightarrow> Inl floor_error)"

definition requestIdToken :: "oidc \<Rightarrow> string \<Rightarrow> string \<Rightarrow> failure + string" where
  "requestIdToken w url requestToken =
     (let sep = (if CHR ''?'' \<in> set url then ''&'' else ''?'') in
      res_bind (of_option floor_error (http_token w (url @ sep @ ''audience='' @ ACTIONS_AUDIENCE) requestToken)) (\<lambda>j.
      res_bind (of_option floor_error (nonempty (jstr (jget j ''value'')))) Inr))"

definition fetchJwks :: "oidc \<Rightarrow> failure + js list" where
  "fetchJwks w =
     res_bind (of_option floor_error (http_jwks w)) (\<lambda>j. of_option floor_error (js_list (jget j ''keys'')))"

text \<open>\<open>keys.find((k) => k.kid === header.kid)\<close> with a key list element that may be \<open>null\<close>.\<close>

fun find_kid :: "string \<Rightarrow> js list \<Rightarrow> failure + js" where
  "find_kid kid [] = Inl floor_error"
| "find_kid kid (k # ks) = res_bind (dot k ''kid'') (\<lambda>v. if v = JStr kid then Inr k else find_kid kid ks)"

definition verifySignature :: "oidc \<Rightarrow> js \<Rightarrow> js list \<Rightarrow> string \<Rightarrow> string \<Rightarrow> failure + unit" where
  "verifySignature w header keys signedBytes signature =
     res_bind (dot header ''alg'') (\<lambda>alg.
     res_bind (ensure (alg = JStr ''RS256'') floor_error) (\<lambda>_.
     res_bind (of_option floor_error (nonempty (jstr (jget header ''kid'')))) (\<lambda>kid.
     res_bind (find_kid kid keys) (\<lambda>jwk.
     res_bind (ensure (jget jwk ''kty'' = JStr ''RSA'') floor_error) (\<lambda>_.
     res_bind (of_option floor_error (jstr (jget jwk ''n''))) (\<lambda>n.
     res_bind (of_option floor_error (jstr (jget jwk ''e''))) (\<lambda>e.
     res_bind (ensure (jget jwk ''use'' = JUndef \<or> jget jwk ''use'' = JStr ''sig'') floor_error) (\<lambda>_.
     res_bind (of_option floor_error (rs256 w n e signedBytes signature)) (\<lambda>ok.
     ensure ok floor_error)))))))))"

definition proveActions :: "oidc \<Rightarrow> env \<Rightarrow> string \<Rightarrow> failure + ActionsProof" where
  "proveActions w env environment =
     res_bind (of_option floor_error (nonempty (env ACTIONS_TOKEN_ENV))) (\<lambda>requestToken.
     res_bind (of_option floor_error (nonempty (env ACTIONS_URL_ENV))) (\<lambda>url.
     res_bind (ensure (starts_with ''https://'' url) floor_error) (\<lambda>_.
     res_bind (requestIdToken w url requestToken) (\<lambda>jwt.
     res_bind (decodeJwt w jwt) (\<lambda>(header, claims, signedBytes, signature).
     res_bind (fetchJwks w) (\<lambda>keys.
     res_bind (verifySignature w header keys signedBytes signature) (\<lambda>_.
     res_bind (dot claims ''iss'') (\<lambda>_.
     checkClaims claims environment (clock w)))))))))"

section \<open>The floors\<close>

text \<open>The lines of a parsed sheet the floors read (sheet.ts); \<open>system\<close> is \<^const>\<open>None\<close> for a vaults sheet.\<close>

record Sheet =
  sh_system :: "SystemName option"
  sh_chainId :: int
  sh_kind :: DeploymentKind
  sh_timelockMinDelay :: int
  sh_newDelay :: int

datatype confirm = Typed | Environment

record CallerInputs =
  ci_yes :: bool
  ci_confirm :: confirm

definition callerInputs :: "env \<Rightarrow> failure + CallerInputs" where
  "callerInputs env =
     (let c = (case env ''CONFIRM'' of None \<Rightarrow> ''typed'' | Some v \<Rightarrow> v) in
      if c = ''typed'' then Inr \<lparr>ci_yes = (env ''YES'' = Some ''1''), ci_confirm = Typed\<rparr>
      else if c = ''environment'' then Inr \<lparr>ci_yes = (env ''YES'' = Some ''1''), ci_confirm = Environment\<rparr>
      else Inl (PublishError USAGE))"

record FloorInput =
  fi_rpcChainId :: int
  fi_rpc :: "string option"
  fi_sheet :: Sheet
  fi_argChainId :: "int option"
  fi_caller :: CallerInputs
  fi_signerSpec :: "string option"
  fi_env :: env
  fi_environment :: "string option"
  fi_githubActions :: bool
  fi_actionsProof :: "ActionsProof option"
  fi_measure :: bool

definition assertChainIds :: "FloorInput \<Rightarrow> failure + unit" where
  "assertChainIds i =
     res_bind (ensure (fi_rpcChainId i > 0) (PublishError CHAIN)) (\<lambda>_.
     res_bind (ensure (sh_chainId (fi_sheet i) = fi_rpcChainId i) (PublishError CHAIN)) (\<lambda>_.
     ensure (case fi_argChainId i of None \<Rightarrow> True | Some c \<Rightarrow> c = fi_rpcChainId i) (PublishError CHAIN)))"

definition spec_of :: "FloorInput \<Rightarrow> string" where
  "spec_of i = (case fi_signerSpec i of None \<Rightarrow> [] | Some s \<Rightarrow> s)"

text \<open>\<open>i.rpc && !isLoopbackRpc(i.rpc)\<close>\<close>

definition off_loopback :: "(string \<Rightarrow> string option) \<Rightarrow> FloorInput \<Rightarrow> failure + bool" where
  "off_loopback hostname i =
     (case nonempty (fi_rpc i) of None \<Rightarrow> Inr False
      | Some rpc \<Rightarrow> res_bind (isLoopbackRpc hostname rpc) (\<lambda>b. Inr (\<not> b)))"

definition assertFloors :: "(string \<Rightarrow> string option) \<Rightarrow> FloorInput \<Rightarrow> failure + unit" where
  "assertFloors hostname i =
     (let sheet = fi_sheet i; chainId = fi_rpcChainId i; kind = sh_kind sheet; least = delayFloor chainId kind;
          gateway = (sh_system sheet = Some Gateway) in
      res_bind (assertChainIds i) (\<lambda>_.
      res_bind (ensure (\<not> (\<not> gateway \<and> sh_timelockMinDelay sheet < least)) floor_error) (\<lambda>_.
      res_bind (ensure (\<not> (\<not> gateway \<and> sh_newDelay sheet < least)) floor_error) (\<lambda>_.
      res_bind (ensure (\<not> (kind = Rehearsal \<and> \<not> gateway \<and> rehearsalDelayProblem (sh_timelockMinDelay sheet) \<noteq> [])) floor_error) (\<lambda>_.
      res_bind (off_loopback hostname i) (\<lambda>off.
      res_bind (ensure (\<not> (off \<and> plaintextKeyReason (spec_of i) (fi_env i) \<noteq> None)) floor_error) (\<lambda>_.
      if isMainnet chainId then
        res_bind (ensure (\<not> ci_yes (fi_caller i)) floor_error) (\<lambda>_.
        res_bind (ensure (\<not> fi_measure i) floor_error) (\<lambda>_.
        res_bind (ensure (plaintextSignerReason (spec_of i) (fi_env i) = None) floor_error) (\<lambda>_.
        if ci_confirm (fi_caller i) = Environment
        then ensure (actionsProofReason (fi_githubActions i) (fi_env i) (fi_environment i) (fi_actionsProof i) = None) floor_error
        else Inr ())))
      else Inr ())))))))"

text \<open>
  cli.ts before any signer exists: the proof is fetched when \<open>CONFIRM=environment\<close> on 8453 inside Actions with the
  runner's request token, and the floors are checked with it. \<open>i\<close> comes without a proof.
\<close>

definition run_floors :: "(string \<Rightarrow> string option) \<Rightarrow> oidc \<Rightarrow> FloorInput \<Rightarrow> failure + FloorInput" where
  "run_floors hostname w i =
     (let env = fi_env i; githubActions = (env ''GITHUB_ACTIONS'' = Some ''true'') in
      res_bind
        (if ci_confirm (fi_caller i) = Environment \<and> isMainnet (fi_rpcChainId i) \<and> githubActions \<and> env_set env ACTIONS_TOKEN_ENV
         then res_bind (proveActions w env (case fi_environment i of None \<Rightarrow> [] | Some e \<Rightarrow> e)) (\<lambda>p. Inr (Some p))
         else Inr None)
        (\<lambda>got.
           let i' = i\<lparr>fi_githubActions := githubActions, fi_actionsProof := got\<rparr> in
           res_bind (assertFloors hostname i') (\<lambda>_. Inr i')))"

section \<open>What the floors guarantee\<close>

lemma plaintextSignerReason_None [simp]:
  "plaintextSignerReason spec env = None \<longleftrightarrow> plaintextKeyReason spec env = None \<and> passphraseFileReason spec = None"
  by (simp add: plaintextSignerReason_def split: option.splits)

lemma assertFloors_mainnet:
  assumes "assertFloors hostname i = Inr ()" and "fi_rpcChainId i = MAINNET_CHAIN_ID"
  shows "sh_chainId (fi_sheet i) = MAINNET_CHAIN_ID" "\<not> ci_yes (fi_caller i)" "\<not> fi_measure i"
    "plaintextKeyReason (spec_of i) (fi_env i) = None" "passphraseFileReason (spec_of i) = None"
    "ci_confirm (fi_caller i) = Environment \<Longrightarrow>
       actionsProofReason (fi_githubActions i) (fi_env i) (fi_environment i) (fi_actionsProof i) = None"
    "sh_system (fi_sheet i) \<noteq> Some Gateway \<Longrightarrow>
       delayFloor MAINNET_CHAIN_ID (sh_kind (fi_sheet i)) \<le> sh_timelockMinDelay (fi_sheet i)
       \<and> delayFloor MAINNET_CHAIN_ID (sh_kind (fi_sheet i)) \<le> sh_newDelay (fi_sheet i)
       \<and> (sh_kind (fi_sheet i) = Rehearsal \<longrightarrow> sh_timelockMinDelay (fi_sheet i) < MAINNET_DELAY_FLOOR)"
proof -
  note assms' = assms(1) [unfolded assertFloors_def Let_def res_bind_Inr ensure_Inr assms(2)]
  have m: "isMainnet MAINNET_CHAIN_ID" by (simp add: isMainnet_def)
  show "sh_chainId (fi_sheet i) = MAINNET_CHAIN_ID" using assms' assms(2) by (auto simp: assertChainIds_def)
  show "\<not> ci_yes (fi_caller i)" "\<not> fi_measure i" using assms' m by auto
  show "plaintextKeyReason (spec_of i) (fi_env i) = None" "passphraseFileReason (spec_of i) = None" using assms' m by auto
  show "actionsProofReason (fi_githubActions i) (fi_env i) (fi_environment i) (fi_actionsProof i) = None"
    if "ci_confirm (fi_caller i) = Environment"
    using assms' m that by auto
  show "delayFloor MAINNET_CHAIN_ID (sh_kind (fi_sheet i)) \<le> sh_timelockMinDelay (fi_sheet i)
       \<and> delayFloor MAINNET_CHAIN_ID (sh_kind (fi_sheet i)) \<le> sh_newDelay (fi_sheet i)
       \<and> (sh_kind (fi_sheet i) = Rehearsal \<longrightarrow> sh_timelockMinDelay (fi_sheet i) < MAINNET_DELAY_FLOOR)"
    if "sh_system (fi_sheet i) \<noteq> Some Gateway"
    using assms' that by auto
qed

text \<open>A token the proof rests on, as the claims say it.\<close>

definition token_for :: "js \<Rightarrow> string \<Rightarrow> int \<Rightarrow> bool" where
  "token_for c environment now \<longleftrightarrow>
     jget c ''iss'' = JStr ACTIONS_ISSUER
     \<and> JStr ACTIONS_AUDIENCE \<in> set (case jget c ''aud'' of JArr xs \<Rightarrow> xs | v \<Rightarrow> [v])
     \<and> (\<exists>ex. seconds (jget c ''exp'') = Some ex \<and> \<not> num_le ex now)
     \<and> claim_str (jget c ''repository_owner'') = Some ACTIONS_REPOSITORY_OWNER
     \<and> claim_str (jget c ''environment'') = Some environment
     \<and> (\<exists>repo. claim_str (jget c ''repository'') = Some repo \<and> starts_with (ACTIONS_REPOSITORY_OWNER @ ''/'') repo
          \<and> claim_str (jget c ''sub'') = Some (''repo:'' @ repo @ '':environment:'' @ environment))"

text \<open>The token came from the runner, its signature verifies under a key of GitHub's set, and its claims are these.\<close>

definition token_verified :: "oidc \<Rightarrow> js \<Rightarrow> bool" where
  "token_verified w c \<longleftrightarrow>
     (\<exists>h p s keys jwk n e kid header. json_part w p = Some c \<and> json_part w h = Some header
        \<and> jget header ''alg'' = JStr ''RS256'' \<and> jget header ''kid'' = JStr kid
        \<and> fetchJwks w = Inr keys \<and> jwk \<in> set keys \<and> jget jwk ''kid'' = JStr kid \<and> jget jwk ''kty'' = JStr ''RSA''
        \<and> jget jwk ''n'' = JStr n \<and> jget jwk ''e'' = JStr e \<and> rs256 w n e (h @ ''.'' @ p) s = Some True)"

lemma nonempty_Some [simp]: "nonempty v = Some s \<longleftrightarrow> v = Some s \<and> s \<noteq> []"
  by (auto simp: nonempty_def split: option.splits)

lemma jstr_Some [simp]: "jstr v = Some s \<longleftrightarrow> v = JStr s"
  by (cases v) (auto simp: jstr_def)

lemma find_kid_Inr: "find_kid kid ks = Inr k \<Longrightarrow> k \<in> set ks \<and> jget k ''kid'' = JStr kid"
  by (induction ks) (auto split: if_splits)

lemma checkClaims_token: "checkClaims c e now = Inr p \<Longrightarrow> token_for c e now \<and> ap_environment p = e"
  by (auto simp: checkClaims_def token_for_def Let_def)

lemma verifySignature_key:
  assumes "verifySignature w header keys sb sg = Inr ()"
  shows "\<exists>kid jwk n e. jget header ''alg'' = JStr ''RS256'' \<and> jget header ''kid'' = JStr kid \<and> jwk \<in> set keys
    \<and> jget jwk ''kid'' = JStr kid \<and> jget jwk ''kty'' = JStr ''RSA'' \<and> jget jwk ''n'' = JStr n \<and> jget jwk ''e'' = JStr e
    \<and> rs256 w n e sb sg = Some True"
proof -
  obtain kid jwk n e where "jget header ''alg'' = JStr ''RS256''" "jget header ''kid'' = JStr kid" "find_kid kid keys = Inr jwk"
    "jget jwk ''kty'' = JStr ''RSA''" "jget jwk ''n'' = JStr n" "jget jwk ''e'' = JStr e" "rs256 w n e sb sg = Some True"
    using assms by (auto simp: verifySignature_def)
  with find_kid_Inr show ?thesis by blast
qed

lemma decodeJwt_parts:
  assumes "decodeJwt w jwt = Inr (header, claims, sb, sg)"
  shows "\<exists>h p. json_part w h = Some header \<and> json_part w p = Some claims \<and> sb = h @ ''.'' @ p"
  using assms by (auto simp: decodeJwt_def Let_def split: list.splits)

lemma proveActions_sound:
  assumes "proveActions w env e = Inr p"
  shows "\<exists>c. token_verified w c \<and> token_for c e (clock w)" "ap_environment p = e"
proof -
  obtain jwt header claims sb sg keys where dec: "decodeJwt w jwt = Inr (header, claims, sb, sg)"
    and keys: "fetchJwks w = Inr keys" and sig: "verifySignature w header keys sb sg = Inr ()"
    and cl: "checkClaims claims e (clock w) = Inr p"
    using assms by (auto simp: proveActions_def)
  from decodeJwt_parts [OF dec] verifySignature_key [OF sig] keys have "token_verified w claims"
    unfolding token_verified_def by blast
  with checkClaims_token [OF cl] show "\<exists>c. token_verified w c \<and> token_for c e (clock w)" "ap_environment p = e" by blast+
qed

text \<open>
  C27. A run against Base mainnet that passes the floors: the sheet names chain 8453; YES and measuring are off;
  the signer is no plaintext key and keeps no passphrase file, and the environment carries no key; a vaults
  sheet has both timelock delays at or above 172800 s, or, only if the sheet says rehearsal, the
  delay between 900 s and below that; and with \<open>CONFIRM=environment\<close> the job holds a token, signed by a key of
  GitHub's set, unexpired, for this tool, from a repository of the owner, for the environment named on the
  command line. No other input lifts any of these.
\<close>

theorem mainnet_floors:
  assumes "run_floors hostname w i = Inr i'" and "fi_rpcChainId i = MAINNET_CHAIN_ID"
  shows "sh_chainId (fi_sheet i) = 8453 \<and> \<not> ci_yes (fi_caller i) \<and> \<not> fi_measure i
    \<and> plaintextKeyReason (spec_of i) (fi_env i) = None \<and> passphraseFileReason (spec_of i) = None
    \<and> (sh_system (fi_sheet i) \<noteq> Some Gateway \<longrightarrow>
         (case sh_kind (fi_sheet i) of
            Production \<Rightarrow> 172800 \<le> sh_timelockMinDelay (fi_sheet i) \<and> 172800 \<le> sh_newDelay (fi_sheet i)
          | Rehearsal \<Rightarrow> 900 \<le> sh_timelockMinDelay (fi_sheet i) \<and> sh_timelockMinDelay (fi_sheet i) < 172800 \<and> 900 \<le> sh_newDelay (fi_sheet i)))
    \<and> (ci_confirm (fi_caller i) = Environment \<longrightarrow>
         (\<exists>e c. fi_environment i = Some e \<and> e \<noteq> [] \<and> e \<noteq> ''local'' \<and> token_verified w c \<and> token_for c e (clock w)))"
proof -
  obtain got where got: "(if ci_confirm (fi_caller i) = Environment \<and> isMainnet (fi_rpcChainId i)
           \<and> fi_env i ''GITHUB_ACTIONS'' = Some ''true'' \<and> env_set (fi_env i) ACTIONS_TOKEN_ENV
         then res_bind (proveActions w (fi_env i) (case fi_environment i of None \<Rightarrow> [] | Some e \<Rightarrow> e)) (\<lambda>p. Inr (Some p))
         else Inr None) = Inr got"
    and i': "i' = i\<lparr>fi_githubActions := (fi_env i ''GITHUB_ACTIONS'' = Some ''true''), fi_actionsProof := got\<rparr>"
    and floors: "assertFloors hostname i' = Inr ()"
    using assms(1) unfolding run_floors_def Let_def by auto
  have chain: "fi_rpcChainId i' = MAINNET_CHAIN_ID" using assms(2) i' by simp
  note fl = assertFloors_mainnet [OF floors chain]
  have spec: "spec_of i' = spec_of i" by (simp add: i' spec_of_def)
  have "\<exists>e c. fi_environment i = Some e \<and> e \<noteq> [] \<and> e \<noteq> ''local'' \<and> token_verified w c \<and> token_for c e (clock w)"
    if conf: "ci_confirm (fi_caller i) = Environment"
  proof -
    from fl(6) conf i' have none: "actionsProofReason (fi_env i ''GITHUB_ACTIONS'' = Some ''true'') (fi_env i) (fi_environment i) got = None" by simp
    then obtain e p where e: "fi_environment i = Some e" "e \<noteq> []" "e \<noteq> ''local''" and p: "got = Some p"
      by (auto simp: actionsProofReason_def split: if_splits option.splits)
    with got have "proveActions w (fi_env i) e = Inr p" by (auto split: if_splits)
    from proveActions_sound(1) [OF this] e show ?thesis by blast
  qed
  then show ?thesis
    using fl(1-5,7) i' spec
    by (auto simp: MAINNET_CHAIN_ID_def delayFloor_def isMainnet_def MAINNET_DELAY_FLOOR_def REHEARSAL_DELAY_FLOOR_def split: DeploymentKind.splits)
qed

section \<open>A concrete run\<close>

text \<open>A job behind the environment \<open>production\<close>, with a signature check that accepts one signature.\<close>

definition sample_claims :: js where
  "sample_claims =
     JObj [(''iss'', JStr ACTIONS_ISSUER), (''aud'', JStr ACTIONS_AUDIENCE), (''exp'', JNum 2000), (''nbf'', JNum 900),
           (''repository'', JStr ''robotmoney/robotmoney-core''), (''repository_owner'', JStr ''robotmoney''),
           (''environment'', JStr ''production''), (''sub'', JStr ''repo:robotmoney/robotmoney-core:environment:production'')]"

definition sample_oidc :: oidc where
  "sample_oidc =
     \<lparr>http_token = (\<lambda>url tok. if tok = ''secret'' then Some (JObj [(''value'', JStr ''aa.bb.cc'')]) else None),
      http_jwks = Some (JObj [(''keys'', JArr [JObj [(''kid'', JStr ''k1''), (''kty'', JStr ''RSA''), (''n'', JStr ''n1''), (''e'', JStr ''AQAB'')]])]),
      clock = 1000,
      json_part = (\<lambda>s. if s = ''aa'' then Some (JObj [(''alg'', JStr ''RS256''), (''kid'', JStr ''k1'')]) else if s = ''bb'' then Some sample_claims else None),
      rs256 = (\<lambda>n e sb sg. Some (n = ''n1'' \<and> e = ''AQAB'' \<and> sb = ''aa.bb'' \<and> sg = ''cc''))\<rparr>"

definition sample_hostname :: "string \<Rightarrow> string option" where
  "sample_hostname url = (if starts_with ''https://'' url then Some (takeWhile (\<lambda>c. c \<noteq> CHR ''/'') (drop 8 url)) else None)"

definition sample_floor_input :: "confirm \<Rightarrow> string \<Rightarrow> FloorInput" where
  "sample_floor_input conf spec =
     \<lparr>fi_rpcChainId = 8453, fi_rpc = Some ''https://mainnet.base.org'',
      fi_sheet = \<lparr>sh_system = None, sh_chainId = 8453, sh_kind = Production, sh_timelockMinDelay = 172800, sh_newDelay = 172800\<rparr>,
      fi_argChainId = Some 8453, fi_caller = \<lparr>ci_yes = False, ci_confirm = conf\<rparr>, fi_signerSpec = Some spec,
      fi_env = map_of [(''GITHUB_ACTIONS'', ''true''), (ACTIONS_TOKEN_ENV, ''secret''), (ACTIONS_URL_ENV, ''https://actions.example/token'')],
      fi_environment = Some ''production'', fi_githubActions = False, fi_actionsProof = None, fi_measure = False\<rparr>"

theorem mainnet_floors_witness:
  "\<exists>i'. run_floors sample_hostname sample_oidc (sample_floor_input Environment ''env:signer'') = Inr i'
     \<and> (\<exists>c. token_verified sample_oidc c \<and> token_for c ''production'' 1000)"
proof -
  let ?i = "sample_floor_input Environment ''env:signer''"
  have "is_ok (run_floors sample_hostname sample_oidc ?i)" by code_simp
  then obtain i' where i': "run_floors sample_hostname sample_oidc ?i = Inr i'" by (auto simp: is_ok_iff)
  have m: "fi_rpcChainId ?i = MAINNET_CHAIN_ID" by code_simp
  have c: "ci_confirm (fi_caller ?i) = Environment" "fi_environment ?i = Some ''production''" "clock sample_oidc = 1000" by code_simp+
  show ?thesis using mainnet_floors [OF i' m] i' c by auto
qed

text \<open>
  Off loopback, on every chain, a run with a signer argument that carries a key flag, is a plaintext
  signer or a raw key, or with a key in the environment, is refused; so is a passphrase file on 8453. The
  refusal is the error \<open>FLOOR\<close>, or an earlier one, and never a pass.
\<close>

theorem plaintext_refused:
  assumes "fi_rpc i = Some rpc" and "rpc \<noteq> []" and "isLoopbackRpc hostname rpc = Inr False"
    and "plaintextKeyReason (spec_of i) (fi_env i) \<noteq> None
         \<or> (isMainnet (fi_rpcChainId i) \<and> passphraseFileReason (spec_of i) \<noteq> None)"
  shows "\<not> is_ok (assertFloors hostname i) \<and> \<not> is_ok (assertSignerSpec hostname (spec_of i) (fi_rpcChainId i) rpc (fi_env i))"
proof -
  have off: "off_loopback hostname i = Inr True"
    using assms(1-3) by (simp add: off_loopback_def nonempty_def)
  show ?thesis
    using assms(3,4) by (auto simp: is_ok_iff assertFloors_def assertSignerSpec_def Let_def off split: if_splits)
qed

theorem plaintext_refused_witness:
  "\<not> is_ok (assertFloors sample_hostname (sample_floor_input Typed ''--private-key=0x01''))
   \<and> is_ok (assertFloors sample_hostname (sample_floor_input Typed ''env:signer''))"
proof -
  have h: "fi_rpc (sample_floor_input Typed ''--private-key=0x01'') = Some ''https://mainnet.base.org''"
    "isLoopbackRpc sample_hostname ''https://mainnet.base.org'' = Inr False"
    "plaintextKeyReason (spec_of (sample_floor_input Typed ''--private-key=0x01'')) (fi_env (sample_floor_input Typed ''--private-key=0x01'')) \<noteq> None
     \<or> (isMainnet (fi_rpcChainId (sample_floor_input Typed ''--private-key=0x01'')) \<and> passphraseFileReason (spec_of (sample_floor_input Typed ''--private-key=0x01'')) \<noteq> None)"
    by code_simp+
  have "is_ok (assertFloors sample_hostname (sample_floor_input Typed ''env:signer''))" by code_simp
  with plaintext_refused [OF h(1) _ h(2,3)] show ?thesis by simp
qed

end
