(* ===== verification/SafeTool.thy ===== *)
theory SafeTool
  imports SafeProposal PublishBase
begin

text \<open>
  The operator's Safe tool (publish-contracts/src/safe): signature shapes (sig.ts), the transaction
  lifecycle (tx.ts), reads after a write (read-after-write.ts) and the timelock operations (timelock.ts).
  Its bundle is the file the dapp's proposal page writes and reads, so the two share the record of
  \<^theory_text>\<open>SafeProposal\<close>; a bundle the tool has executed carries the receipt beside it.

  The outside is a record of reads: viem's codec, the Safe SDK (protocol-kit), the Safe contract, the
  timelock, the signer and the sender. A read that throws is \<^const>\<open>None\<close>. The Safe's live nonce is read several
  times in one operation, so it is a sequence.
\<close>

section \<open>sig.ts\<close>

datatype SignMode = Raw | EthSign

definition sig_error :: failure where "sig_error = SafeToolError SafeErrorCode.SIGNATURE_INVALID"

definition sig_v :: "string \<Rightarrow> nat" where
  "sig_v sg = read_hex (take 2 (drop 130 sg))"

definition splitSignature :: "string \<Rightarrow> failure + (string \<times> string \<times> nat)" where
  "splitSignature sg =
     (if \<not> hex_of_len 130 sg then Inl sig_error
      else Inr (''0x'' @ take 64 (drop 2 sg), ''0x'' @ take 64 (drop 66 sg), sig_v sg))"

text \<open>\<open>n.toString(16).padStart(2, "0")\<close> of a byte.\<close>

definition hex_digit :: "nat \<Rightarrow> char" where
  "hex_digit d = (if d < 10 then digit_char d else char_of (87 + d))"

definition hex_byte :: "nat \<Rightarrow> string" where
  "hex_byte n = [hex_digit (n div 16), hex_digit (n mod 16)]"

definition tool_toSafeSignature :: "string \<Rightarrow> SignMode \<Rightarrow> failure + string" where
  "tool_toSafeSignature sg mode =
     res_bind (splitSignature sg) (\<lambda>(r, s, v).
     res_bind (if v = 0 \<or> v = 1 then Inr (v + 27) else if v = 27 \<or> v = 28 then Inr v else Inl sig_error) (\<lambda>base.
     Inr (''0x'' @ take 128 (drop 2 sg) @ hex_byte (if mode = EthSign then base + 4 else base))))"

definition modeOf :: "string \<Rightarrow> failure + SignMode" where
  "modeOf sg =
     res_bind (splitSignature sg) (\<lambda>(r, s, v).
     if v = 27 \<or> v = 28 then Inr Raw else if v = 31 \<or> v = 32 then Inr EthSign else Inl sig_error)"

text \<open>What the tool uses of viem: the dapp's functions and \<open>hashMessage({ raw })\<close>.\<close>

record tool_viem =
  vm :: safe_viem
  hashMessage :: "string \<Rightarrow> string"

definition plain_signature :: "string \<Rightarrow> string" where
  "plain_signature sg = ''0x'' @ take 128 (drop 2 sg) @ hex_byte (sig_v sg - 4)"

definition recoverSafeSigner :: "tool_viem \<Rightarrow> string \<Rightarrow> string \<Rightarrow> failure + string" where
  "recoverSafeSigner T hash sg =
     res_bind (modeOf sg) (\<lambda>mode.
     of_option PlainError
       (if mode = Raw then recoverAddress (vm T) hash sg
        else recoverAddress (vm T) (hashMessage T hash) (plain_signature sg)))"

definition verifySafeSignature :: "tool_viem \<Rightarrow> string \<Rightarrow> string \<Rightarrow> string \<Rightarrow> bool" where
  "verifySafeSignature T hash owner sg =
     (case recoverSafeSigner T hash sg of Inl _ \<Rightarrow> False | Inr a \<Rightarrow> lc a = lc owner)"

section \<open>read-after-write.ts\<close>

datatype ReadVerdict = Fresh | Stale | Wrong

definition STALE_READ_TRIES :: nat where "STALE_READ_TRIES = 10"

text \<open>\<open>reads k\<close> is the answer of the k-th read; the loop tries \<open>n\<close> more times. A read that throws is stale.\<close>

fun read_loop :: "(nat \<Rightarrow> 'a option) \<Rightarrow> ('a \<Rightarrow> ReadVerdict) \<Rightarrow> nat \<Rightarrow> nat \<Rightarrow> failure + 'a" where
  "read_loop reads judge k 0 = Inl (SafeToolError STALE_READ_TIMEOUT)"
| "read_loop reads judge k (Suc n) =
     (case reads k of
        Some v \<Rightarrow> if judge v \<noteq> Stale then Inr v else read_loop reads judge (Suc k) n
      | None \<Rightarrow> read_loop reads judge (Suc k) n)"

definition readAfterWrite :: "(nat \<Rightarrow> 'a option) \<Rightarrow> ('a \<Rightarrow> ReadVerdict) \<Rightarrow> nat option \<Rightarrow> failure + 'a" where
  "readAfterWrite reads judge tries =
     read_loop reads judge 0 (max 1 (case tries of None \<Rightarrow> STALE_READ_TRIES | Some n \<Rightarrow> n))"

definition settle :: "nat option option \<Rightarrow> (nat \<Rightarrow> 'a option) \<Rightarrow> ('a \<Rightarrow> ReadVerdict) \<Rightarrow> failure + 'a" where
  "settle retry reads judge =
     (case retry of Some tries \<Rightarrow> readAfterWrite reads judge tries | None \<Rightarrow> of_option PlainError (reads 0))"

section \<open>The Safe\<close>

record sdk_tx =
  d_safeTxGas :: string
  d_baseGas :: string
  d_gasPrice :: string
  d_gasToken :: string
  d_refundReceiver :: string
  d_operation :: int
  d_nonce :: jsnum
  d_to :: string
  d_value :: string
  d_data :: string

record SafeHandle =
  h_chainId :: int
  h_address :: string
  h_version :: string
  h_owners :: "string list"
  h_threshold :: int
  h_nonce :: "nat \<Rightarrow> int option"
  sdk_create :: "string \<Rightarrow> string \<Rightarrow> jsnum \<Rightarrow> sdk_tx option"
  sdk_hash :: "sdk_tx \<Rightarrow> string option"
  sdk_encode :: "sdk_tx \<Rightarrow> BundleSignature list \<Rightarrow> string option"
  rd_getTransactionHash :: "js list \<Rightarrow> string option"
  rd_checkNSignatures :: "string \<Rightarrow> string \<Rightarrow> int \<Rightarrow> bool"
  rd_simulate :: "js list \<Rightarrow> string \<Rightarrow> bool option"
  rd_balance :: "string \<Rightarrow> int option"

definition refuse :: "bool \<Rightarrow> SafeErrorCode \<Rightarrow> failure + unit" where "refuse b c = ensure (\<not> b) (SafeToolError c)"

lemma refuse_Inr [simp]: "refuse b c = Inr u \<longleftrightarrow> \<not> b"
  by (simp add: refuse_def)

lemma refuse_Inl [simp]: "refuse b c = Inl e \<longleftrightarrow> b \<and> e = SafeToolError c"
  by (simp add: refuse_def)

definition TIMELOCK_ALLOWED_FUNCTIONS :: "string list" where
  "TIMELOCK_ALLOWED_FUNCTIONS = [''schedule'', ''scheduleBatch'', ''execute'', ''executeBatch'', ''cancel'']"

text \<open>The EIP-712 document is the one of the dapp, with the nonce as a \<open>bigint\<close>.\<close>

definition localSafeTxHash :: "tool_viem \<Rightarrow> int \<Rightarrow> string \<Rightarrow> string \<Rightarrow> string \<Rightarrow> jsnum \<Rightarrow> failure + string" where
  "localSafeTxHash T chain sf t dt n =
     (case n of NFrac _ \<Rightarrow> Inl PlainError
      | NInt k \<Rightarrow> of_option PlainError (hashTypedData (vm T) (hash_input chain sf t dt k)))"

definition buildSdkTx :: "SafeHandle \<Rightarrow> string \<Rightarrow> string \<Rightarrow> jsnum \<Rightarrow> failure + sdk_tx" where
  "buildSdkTx H t dt n =
     res_bind (of_option PlainError (sdk_create H t dt n)) (\<lambda>d.
     res_bind (refuse (d_safeTxGas d \<noteq> ''0'' \<or> d_baseGas d \<noteq> ''0'' \<or> d_gasPrice d \<noteq> ''0'' \<or> \<not> same_address (d_gasToken d) zero_address
         \<or> \<not> same_address (d_refundReceiver d) zero_address \<or> d_operation d \<noteq> 0 \<or> d_nonce d \<noteq> n) SafeErrorCode.BUNDLE_INVALID) (\<lambda>_.
     Inr d))"

definition tx_hash_args :: "string \<Rightarrow> string \<Rightarrow> int \<Rightarrow> js list" where
  "tx_hash_args t dt k =
     [JStr t, JBig 0, JStr dt, JNum 0, JBig 0, JBig 0, JBig 0, JStr zero_address, JStr zero_address, JBig k]"

definition safeTxHashOf :: "tool_viem \<Rightarrow> SafeHandle \<Rightarrow> string \<Rightarrow> string \<Rightarrow> jsnum \<Rightarrow> failure + string" where
  "safeTxHashOf T H t dt n =
     res_bind (buildSdkTx H t dt n) (\<lambda>tx.
     res_bind (of_option PlainError (sdk_hash H tx)) (\<lambda>sdkHash.
     res_bind (localSafeTxHash T (h_chainId H) (h_address H) t dt n) (\<lambda>local.
     res_bind (refuse (lc sdkHash \<noteq> lc local) HASH_MISMATCH) (\<lambda>_.
     res_bind (case n of NInt k \<Rightarrow> of_option PlainError (rd_getTransactionHash H (tx_hash_args t dt k)) | NFrac _ \<Rightarrow> Inl PlainError) (\<lambda>onchain.
     res_bind (refuse (lc onchain \<noteq> lc sdkHash) HASH_MISMATCH) (\<lambda>_.
     Inr sdkHash))))))"

definition assertTimelockCall :: "tool_viem \<Rightarrow> string \<Rightarrow> string \<Rightarrow> string \<Rightarrow> failure + unit" where
  "assertTimelockCall T t dt lock =
     res_bind (refuse (\<not> same_address t lock) SafeErrorCode.CALL_NOT_ALLOWED) (\<lambda>_.
     refuse (case decodeCall (vm T) dt of None \<Rightarrow> True | Some (fn, _) \<Rightarrow> fn \<notin> set TIMELOCK_ALLOWED_FUNCTIONS) SafeErrorCode.CALL_NOT_ALLOWED)"

text \<open>\<open>b.timelock\<close> in a condition: absent or empty is false.\<close>

definition timelock_of :: "SafeTxBundle \<Rightarrow> string option" where
  "timelock_of b = (case timelock b of Some l \<Rightarrow> if l = [] then None else Some l | None \<Rightarrow> None)"

definition reverifyBundle :: "tool_viem \<Rightarrow> SafeHandle \<Rightarrow> SafeTxBundle \<Rightarrow> failure + unit" where
  "reverifyBundle T H b =
     res_bind (refuse (format b \<noteq> BUNDLE_FORMAT) SafeErrorCode.BUNDLE_INVALID) (\<lambda>_.
     res_bind (refuse (chain_id b \<noteq> NInt (h_chainId H)) SafeErrorCode.BUNDLE_INVALID) (\<lambda>_.
     res_bind (refuse (\<not> same_address (safe b) (h_address H)) SafeErrorCode.BUNDLE_INVALID) (\<lambda>_.
     res_bind (refuse (bundle_value b \<noteq> ''0'' \<or> operation b \<noteq> 0) SafeErrorCode.BUNDLE_INVALID) (\<lambda>_.
     res_bind (refuse (safe_tx_gas b \<noteq> ''0'' \<or> base_gas b \<noteq> ''0'' \<or> gas_price b \<noteq> ''0'' \<or> \<not> same_address (gas_token b) zero_address
         \<or> \<not> same_address (refund_receiver b) zero_address) SafeErrorCode.BUNDLE_INVALID) (\<lambda>_.
     res_bind (case timelock_of b of None \<Rightarrow> Inr () | Some lock \<Rightarrow> assertTimelockCall T (to b) (data b) lock) (\<lambda>_.
     res_bind (of_option PlainError (h_nonce H 0)) (\<lambda>live.
     res_bind (refuse (nonce b \<noteq> NInt live) STALE_BUNDLE) (\<lambda>_.
     res_bind (safeTxHashOf T H (to b) (data b) (nonce b)) (\<lambda>hash.
     refuse (lc hash \<noteq> lc (safe_tx_hash b)) HASH_MISMATCH)))))))))"

section \<open>Proposing\<close>

record ProposeOpts =
  po_to :: string
  po_data :: string
  po_action :: "string option"
  po_description :: "string option"
  po_timelock :: "string option"
  po_operationId :: "string option"
  po_minDelay :: "int option"

definition truthy_str :: "string option \<Rightarrow> string option" where
  "truthy_str v = (case v of Some s \<Rightarrow> if s = [] then None else Some s | None \<Rightarrow> None)"

text \<open>\<open>now\<close> is the time stamp; the write of the bundle file is not modelled.\<close>

definition proposeTx :: "tool_viem \<Rightarrow> SafeHandle \<Rightarrow> string \<Rightarrow> ProposeOpts \<Rightarrow> failure + SafeTxBundle" where
  "proposeTx T H now opts =
     res_bind (refuse (\<not> isHex (vm T) (po_data opts) \<or> (int (length (po_data opts)) - 2) mod 2 \<noteq> 0) SafeErrorCode.BAD_INPUT) (\<lambda>_.
     res_bind (of_option PlainError (getAddress (vm T) (po_to opts))) (\<lambda>t.
     res_bind (case truthy_str (po_timelock opts) of None \<Rightarrow> Inr () | Some lock \<Rightarrow> assertTimelockCall T t (po_data opts) lock) (\<lambda>_.
     res_bind (of_option PlainError (h_nonce H 0)) (\<lambda>n.
     res_bind (safeTxHashOf T H t (po_data opts) (NInt n)) (\<lambda>hash.
     res_bind (case truthy_str (po_timelock opts) of None \<Rightarrow> Inr None
               | Some lock \<Rightarrow> res_bind (of_option PlainError (getAddress (vm T) lock)) (\<lambda>l. Inr (Some l))) (\<lambda>lock.
     Inr \<lparr>format = BUNDLE_FORMAT, chain_id = NInt (h_chainId H), safe = h_address H, safe_version = h_version H, timelock = lock,
          action = (case po_action opts of None \<Rightarrow> ''call'' | Some a \<Rightarrow> a), description = (case po_description opts of None \<Rightarrow> [] | Some d \<Rightarrow> d),
          to = t, bundle_value = ''0'', data = po_data opts, operation = 0, safe_tx_gas = ''0'', base_gas = ''0'', gas_price = ''0'',
          gas_token = zero_address, refund_receiver = zero_address, nonce = NInt n, safe_tx_hash = hash,
          timelock_operation_id = truthy_str (po_operationId opts), timelock_min_delay = map_option show_int (po_minDelay opts),
          threshold = NInt (h_threshold H), owners = h_owners H, signatures = [], proposed_at = now\<rparr>))))))"

section \<open>Signing\<close>

text \<open>
  \<open>sort((a, b) => lc(a.owner) < lc(b.owner) ? -1 : 1)\<close>, for lists with one entry per owner, where the
  comparison is a strict order.
\<close>

definition bundle_addSignature :: "SafeTxBundle \<Rightarrow> BundleSignature \<Rightarrow> SafeTxBundle" where
  "bundle_addSignature b s =
     b\<lparr>signatures := sort_by_owner (filter (\<lambda>x. lc (sig_owner x) \<noteq> lc (sig_owner s)) (signatures b) @ [s])\<rparr>"

definition tool_packSignatures :: "BundleSignature list \<Rightarrow> string" where
  "tool_packSignatures sigs = ''0x'' @ concat (map (\<lambda>s. drop 2 (signature s)) (sort_by_owner sigs))"

definition checkSignaturesOnChain :: "SafeHandle \<Rightarrow> SafeTxBundle \<Rightarrow> BundleSignature list \<Rightarrow> int option \<Rightarrow> failure + unit" where
  "checkSignaturesOnChain H b sigs required =
     refuse (\<not> rd_checkNSignatures H (safe_tx_hash b) (tool_packSignatures sigs) (case required of None \<Rightarrow> h_threshold H | Some n \<Rightarrow> n)) SAFE_REVERT"

record Signer =
  sg_address :: "string option"
  sg_modes :: "SignMode list"
  sg_sign :: "string \<Rightarrow> SignMode \<Rightarrow> string option"

record SignOpts =
  so_mode :: "SignMode option"
  so_allowNonOwner :: bool
  so_skipChainChecks :: bool

definition is_owner :: "SafeHandle \<Rightarrow> string \<Rightarrow> bool" where
  "is_owner H a = (\<exists>o' \<in> set (h_owners H). same_address o' a)"

definition signTx :: "tool_viem \<Rightarrow> SafeHandle \<Rightarrow> SafeTxBundle \<Rightarrow> Signer \<Rightarrow> SignOpts \<Rightarrow> failure + SafeTxBundle" where
  "signTx T H b sg opts =
     res_bind (if so_skipChainChecks opts then Inr () else reverifyBundle T H b) (\<lambda>_.
     res_bind (of_option PlainError (sg_address sg)) (\<lambda>owner.
     res_bind (refuse (\<not> so_allowNonOwner opts \<and> \<not> is_owner H owner) SafeErrorCode.NOT_OWNER) (\<lambda>_.
     let mode = (case so_mode opts of Some m \<Rightarrow> m | None \<Rightarrow> if Raw \<in> set (sg_modes sg) then Raw else EthSign) in
     res_bind (refuse (mode \<notin> set (sg_modes sg)) UNSUPPORTED_SIGN_MODE) (\<lambda>_.
     res_bind (of_option PlainError (sg_sign sg (safe_tx_hash b) mode)) (\<lambda>sig.
     res_bind (refuse (\<not> verifySafeSignature T (safe_tx_hash b) owner sig) SafeErrorCode.SIGNATURE_INVALID) (\<lambda>_.
     res_bind (if so_skipChainChecks opts then Inr ()
               else checkSignaturesOnChain H b [\<lparr>sig_owner = owner, signature = sig\<rparr>] (Some 1)) (\<lambda>_.
     res_bind (of_option PlainError (getAddress (vm T) owner)) (\<lambda>o'.
     Inr (bundle_addSignature b \<lparr>sig_owner = o', signature = sig\<rparr>)))))))))"

section \<open>Importing signatures\<close>

text \<open>
  The source of an import: a value, or a text that is hex, the name of a file, or JSON. \<open>file\<close> is the content
  of an existing file.
\<close>

datatype import_source = SourceText string | SourceValue js

definition import_value :: "tool_viem \<Rightarrow> (string \<Rightarrow> string option) \<Rightarrow> import_source \<Rightarrow> failure + js" where
  "import_value T file src =
     (case src of SourceValue v \<Rightarrow> Inr v
      | SourceText s \<Rightarrow>
          let t = trim s in
          if hex_prefixed t then Inr (JStr t)
          else (case file t of
                  Some content \<Rightarrow> of_option PlainError (json_parse (vm T) content)
                | None \<Rightarrow> of_option (SafeToolError SafeErrorCode.BUNDLE_INVALID) (json_parse (vm T) t)))"

function blob_claims :: "string \<Rightarrow> string list" where
  "blob_claims blob = (if blob = [] then [] else (''0x'' @ take 130 blob) # blob_claims (drop 130 blob))"
  by pat_completeness auto
termination
  by (relation "measure length") auto

declare blob_claims.simps [simp del]

text \<open>One entry of an imported list: who it claims to be, and the signature.\<close>

definition entry_claim :: "js \<Rightarrow> failure + (js \<times> js)" where
  "entry_claim e =
     res_bind (dot e ''signature'') (\<lambda>sg0.
     let sg = jcoalesce sg0 (jget e ''data'') in
     res_bind (refuse (\<not> truthy sg) SafeErrorCode.BUNDLE_INVALID) (\<lambda>_.
     Inr (jcoalesce (jget e ''owner'') (jget e ''signer''), sg)))"

definition lc_js :: "js \<Rightarrow> failure + string" where
  "lc_js v = (case v of JStr s \<Rightarrow> Inr (lc s) | _ \<Rightarrow> Inl TypeError)"

definition import_claims :: "SafeTxBundle \<Rightarrow> js \<Rightarrow> failure + (js \<times> js) list" where
  "import_claims b parsed =
     (case parsed of
        JStr t \<Rightarrow>
          let blob = drop 2 t in
          res_bind (refuse (blob = [] \<or> length blob mod 130 \<noteq> 0) SafeErrorCode.SIGNATURE_INVALID) (\<lambda>_.
          Inr (map (\<lambda>s. (JUndef, JStr s)) (blob_claims blob)))
      | _ \<Rightarrow>
          res_bind (dot parsed ''safeTxHash'') (\<lambda>h0.
          let theirs = jcoalesce h0 (jget parsed ''safe_tx_hash'') in
          res_bind (if truthy theirs then res_bind (lc_js theirs) (\<lambda>h. refuse (h \<noteq> lc (safe_tx_hash b)) HASH_MISMATCH) else Inr ()) (\<lambda>_.
          res_bind (of_option (SafeToolError SafeErrorCode.BUNDLE_INVALID)
            (js_list (if (case parsed of JArr _ \<Rightarrow> True | _ \<Rightarrow> False) then parsed else jget parsed ''signatures''))) (\<lambda>es.
          map_res entry_claim es))))"

text \<open>A signature that is no string fails the test of its shape.\<close>

definition import_claim :: "tool_viem \<Rightarrow> SafeHandle \<Rightarrow> SafeTxBundle \<Rightarrow> js \<times> js \<Rightarrow> SafeTxBundle \<Rightarrow> failure + SafeTxBundle" where
  "import_claim T H b = (\<lambda>(owner, sg) out.
     res_bind (of_option sig_error (jstr sg)) (\<lambda>sig.
     res_bind (splitSignature sig) (\<lambda>_.
     res_bind (recoverSafeSigner T (safe_tx_hash b) sig) (\<lambda>recovered.
     res_bind (if truthy owner then res_bind (lc_js owner) (\<lambda>c. refuse (c \<noteq> lc recovered) SafeErrorCode.SIGNATURE_INVALID) else Inr ()) (\<lambda>_.
     res_bind (refuse (\<not> is_owner H recovered) SafeErrorCode.NOT_OWNER) (\<lambda>_.
     res_bind (of_option PlainError (getAddress (vm T) recovered)) (\<lambda>o'.
     Inr (bundle_addSignature out \<lparr>sig_owner = o', signature = sig\<rparr>))))))))"

fun import_all :: "tool_viem \<Rightarrow> SafeHandle \<Rightarrow> SafeTxBundle \<Rightarrow> (js \<times> js) list \<Rightarrow> SafeTxBundle \<Rightarrow> failure + SafeTxBundle" where
  "import_all T H b [] out = Inr out"
| "import_all T H b (c # cs) out = res_bind (import_claim T H b c out) (import_all T H b cs)"

definition importSignatureBundle :: "tool_viem \<Rightarrow> SafeHandle \<Rightarrow> (string \<Rightarrow> string option) \<Rightarrow> SafeTxBundle \<Rightarrow> import_source \<Rightarrow> failure + SafeTxBundle" where
  "importSignatureBundle T H file b src =
     res_bind (import_value T file src) (\<lambda>parsed.
     res_bind (import_claims b parsed) (\<lambda>claims. import_all T H b claims b))"

section \<open>Executing\<close>

record ExecuteOpts =
  eo_localChecks :: bool
  eo_dryRun :: bool
  eo_tries :: "nat option"
  eo_allSignatures :: bool

record ExecuteResult =
  er_txHash :: "string option"
  er_block :: "int option"
  er_sentBy :: string
  er_nonceBefore :: int
  er_nonceAfter :: "int option"
  er_simulated :: bool

text \<open>The loop over the signatures; \<open>prev\<close> is the owner before, empty at first.\<close>

fun check_signatures :: "tool_viem \<Rightarrow> SafeHandle \<Rightarrow> SafeTxBundle \<Rightarrow> string \<Rightarrow> BundleSignature list \<Rightarrow> failure + unit" where
  "check_signatures T H b prev [] = Inr ()"
| "check_signatures T H b prev (s # ss) =
     (let o' = lc (sig_owner s) in
      res_bind (refuse (\<not> (\<exists>x \<in> set (h_owners H). lc x = o')) SafeErrorCode.NOT_OWNER) (\<lambda>_.
      res_bind (refuse (prev \<noteq> [] \<and> o' = prev) SafeErrorCode.SIGNATURE_INVALID) (\<lambda>_.
      res_bind (refuse (prev \<noteq> [] \<and> \<not> prev < o') SafeErrorCode.SIGNATURE_INVALID) (\<lambda>_.
      res_bind (refuse (\<not> verifySafeSignature T (safe_tx_hash b) (sig_owner s) (signature s)) SafeErrorCode.SIGNATURE_INVALID) (\<lambda>_.
      check_signatures T H b o' ss)))))"

text \<open>\<open>awaitSafeNonce\<close>: the reads after the two of \<open>executeTx\<close> itself.\<close>

definition awaitSafeNonce :: "SafeHandle \<Rightarrow> int \<Rightarrow> nat option \<Rightarrow> failure + int" where
  "awaitSafeNonce H wanted tries =
     res_bind (readAfterWrite (\<lambda>k. h_nonce H (k + 2)) (\<lambda>v. if v < wanted then Stale else if v = wanted then Fresh else Wrong) tries) (\<lambda>n.
     res_bind (refuse (n \<noteq> wanted) NONCE_DID_NOT_MOVE) (\<lambda>_. Inr n))"

text \<open>
  The sender: its address, the hash a send returns (\<^const>\<open>None\<close> when the send throws), and the receipt's status
  and block.
\<close>

record Sender =
  sn_address :: "string option"
  sn_send :: "string \<Rightarrow> string \<Rightarrow> string option"
  sn_receipt :: "string \<Rightarrow> (bool \<times> int) option"

definition exec_args :: "SafeTxBundle \<Rightarrow> string \<Rightarrow> js list" where
  "exec_args b packed =
     [JStr (to b), JBig 0, JStr (data b), JNum 0, JBig 0, JBig 0, JBig 0, JStr zero_address, JStr zero_address, JStr packed]"

text \<open>Everything up to the send: the nonce before, the sender's address and the signatures used.\<close>

definition execute_checks ::
  "tool_viem \<Rightarrow> SafeHandle \<Rightarrow> SafeTxBundle \<Rightarrow> Sender \<Rightarrow> ExecuteOpts \<Rightarrow> failure + (int \<times> string \<times> BundleSignature list)" where
  "execute_checks T H b se opts =
     (let strict = eo_localChecks opts; sigs = signatures b in
      res_bind (if strict then reverifyBundle T H b else Inr ()) (\<lambda>_.
      res_bind (of_option PlainError (h_nonce H 1)) (\<lambda>nonceBefore.
      res_bind (refuse (strict \<and> int (length sigs) < h_threshold H) BELOW_THRESHOLD) (\<lambda>_.
      res_bind (if strict then check_signatures T H b [] sigs else Inr ()) (\<lambda>_.
      let used = (if strict \<and> \<not> eo_allSignatures opts then slice_to (NInt (h_threshold H)) (sort_by_owner sigs) else sort_by_owner sigs) in
      res_bind (checkSignaturesOnChain H b used (if eo_allSignatures opts then Some (int (length used)) else None)) (\<lambda>_.
      res_bind (of_option PlainError (sn_address se)) (\<lambda>senderAddr.
      res_bind (of_option (SafeToolError SAFE_REVERT) (rd_simulate H (exec_args b (tool_packSignatures used)) senderAddr)) (\<lambda>result.
      res_bind (refuse (\<not> result) SAFE_REVERT) (\<lambda>_.
      Inr (nonceBefore, senderAddr, used))))))))))"

text \<open>The calldata of the send, built by the kit, after the sender is seen to have funds.\<close>

definition execute_calldata ::
  "SafeHandle \<Rightarrow> SafeTxBundle \<Rightarrow> string \<Rightarrow> BundleSignature list \<Rightarrow> failure + string" where
  "execute_calldata H b senderAddr used =
     res_bind (of_option PlainError (rd_balance H senderAddr)) (\<lambda>balance.
     res_bind (refuse (balance = 0) INSUFFICIENT_FUNDS) (\<lambda>_.
     res_bind (buildSdkTx H (to b) (data b) (nonce b)) (\<lambda>tx.
     of_option PlainError (sdk_encode H tx used))))"

definition after_send :: "SafeHandle \<Rightarrow> Sender \<Rightarrow> ExecuteOpts \<Rightarrow> string \<Rightarrow> int \<Rightarrow> string \<Rightarrow> failure + ExecuteResult" where
  "after_send H se opts senderAddr nonceBefore txHash =
     res_bind (of_option PlainError (sn_receipt se txHash)) (\<lambda>(success, block).
     res_bind (refuse (\<not> success) TX_REVERTED) (\<lambda>_.
     res_bind (awaitSafeNonce H (nonceBefore + 1) (eo_tries opts)) (\<lambda>nonceAfter.
     Inr \<lparr>er_txHash = Some txHash, er_block = Some block, er_sentBy = senderAddr, er_nonceBefore = nonceBefore, er_nonceAfter = Some nonceAfter, er_simulated = False\<rparr>)))"

text \<open>The result, and the transactions handed to the sender on the way, whether or not it ends well.\<close>

definition executeTx ::
  "tool_viem \<Rightarrow> SafeHandle \<Rightarrow> SafeTxBundle \<Rightarrow> Sender \<Rightarrow> ExecuteOpts \<Rightarrow> (string \<times> string) list \<times> (failure + ExecuteResult)" where
  "executeTx T H b se opts =
     (case execute_checks T H b se opts of
        Inl e \<Rightarrow> ([], Inl e)
      | Inr (nonceBefore, senderAddr, used) \<Rightarrow>
          if eo_dryRun opts
          then ([], Inr \<lparr>er_txHash = None, er_block = None, er_sentBy = senderAddr, er_nonceBefore = nonceBefore, er_nonceAfter = None, er_simulated = True\<rparr>)
          else (case execute_calldata H b senderAddr used of
                  Inl e \<Rightarrow> ([], Inl e)
                | Inr encoded \<Rightarrow>
                    ([(h_address H, encoded)],
                     case sn_send se (h_address H) encoded of
                       None \<Rightarrow> Inl (SafeToolError SEND_FAILED)
                     | Some txHash \<Rightarrow> after_send H se opts senderAddr nonceBefore txHash)))"

section \<open>timelock.ts\<close>

definition MIN_SAFE_DELAY :: int where "MIN_SAFE_DELAY = 3600"
definition MAX_SAFE_DELAY :: int where "MAX_SAFE_DELAY = 2592000"

record TimelockCall =
  tc_target :: string
  tc_value :: "int option"
  tc_data :: string

datatype op_form = Batch | Single

record Ordered =
  od_timelock :: string
  od_description :: "string option"
  od_calls :: "TimelockCall list"
  od_predecessor :: "string option"
  od_salt :: string
  od_form :: op_form

record OperationState =
  os_exists :: bool
  os_pending :: bool
  os_ready :: bool
  os_done :: bool
  os_readyAt :: int

datatype TimelockRole = PROPOSER | EXECUTOR | CANCELLER

text \<open>The reads of a timelock, \<^const>\<open>None\<close> when one throws; a code read may answer \<open>undefined\<close>.\<close>

record timelock_chain =
  tl_code :: "string \<Rightarrow> string option option"
  tl_minDelay :: "string \<Rightarrow> int option"
  tl_hasRole :: "string \<Rightarrow> TimelockRole \<Rightarrow> string \<Rightarrow> bool option"
  tl_hash :: "string \<Rightarrow> js list \<Rightarrow> string option"
  tl_state :: "string \<Rightarrow> string \<Rightarrow> OperationState option"

definition timelockMinDelay :: "timelock_chain \<Rightarrow> string \<Rightarrow> failure + int" where
  "timelockMinDelay C lock =
     res_bind (of_option PlainError (tl_code C lock)) (\<lambda>code.
     res_bind (refuse (\<not> has_code code) TIMELOCK_INVALID) (\<lambda>_.
     of_option (SafeToolError TIMELOCK_INVALID) (tl_minDelay C lock)))"

definition requireRole :: "timelock_chain \<Rightarrow> SafeHandle \<Rightarrow> string \<Rightarrow> TimelockRole \<Rightarrow> failure + unit" where
  "requireRole C H lock role =
     res_bind (of_option PlainError (tl_hasRole C lock role (h_address H))) (\<lambda>mine.
     if mine then Inr ()
     else if role = EXECUTOR
     then res_bind (of_option PlainError (tl_hasRole C lock role zero_address)) (\<lambda>open'. refuse (\<not> open') TIMELOCK_ROLE_MISSING)
     else Inl (SafeToolError TIMELOCK_ROLE_MISSING))"

record split_calls =
  sp_single :: bool
  sp_targets :: "string list"
  sp_values :: "int list"
  sp_datas :: "string list"
  sp_predecessor :: string
  sp_salt :: string

definition splitCalls :: "tool_viem \<Rightarrow> Ordered \<Rightarrow> failure + split_calls" where
  "splitCalls T p =
     res_bind (refuse (od_calls p = []) SafeErrorCode.BAD_INPUT) (\<lambda>_.
     res_bind (refuse (od_form p = Single \<and> length (od_calls p) \<noteq> 1) SafeErrorCode.BAD_INPUT) (\<lambda>_.
     res_bind (refuse (\<not> hex_of_len 64 (od_salt p)) SafeErrorCode.BAD_INPUT) (\<lambda>_.
     let predecessor = (case od_predecessor p of None \<Rightarrow> ZERO_BYTES32 | Some h \<Rightarrow> h) in
     res_bind (refuse (\<not> hex_of_len 64 predecessor) SafeErrorCode.BAD_INPUT) (\<lambda>_.
     res_bind (map_res (\<lambda>c. of_option PlainError (getAddress (vm T) (tc_target c))) (od_calls p)) (\<lambda>targets.
     Inr \<lparr>sp_single = (od_form p = Single), sp_targets = targets,
          sp_values = map (\<lambda>c. case tc_value c of None \<Rightarrow> 0 | Some v \<Rightarrow> v) (od_calls p),
          sp_datas = map tc_data (od_calls p), sp_predecessor = predecessor, sp_salt = od_salt p\<rparr>)))))"

text \<open>The arguments both forms share: of the first call, or of all of them.\<close>

definition op_args :: "split_calls \<Rightarrow> js list" where
  "op_args s =
     (if sp_single s
      then [JStr (hd (sp_targets s)), JBig (hd (sp_values s)), JStr (hd (sp_datas s)), JStr (sp_predecessor s), JStr (sp_salt s)]
      else [JArr (map JStr (sp_targets s)), JArr (map JBig (sp_values s)), JArr (map JStr (sp_datas s)), JStr (sp_predecessor s), JStr (sp_salt s)])"

definition operationId :: "tool_viem \<Rightarrow> timelock_chain \<Rightarrow> Ordered \<Rightarrow> failure + string" where
  "operationId T C p = res_bind (splitCalls T p) (\<lambda>s. of_option PlainError (tl_hash C (od_timelock p) (op_args s)))"

definition propose :: "tool_viem \<Rightarrow> SafeHandle \<Rightarrow> string \<Rightarrow> string \<Rightarrow> string option \<Rightarrow> string \<Rightarrow> string \<Rightarrow> string \<Rightarrow> int \<Rightarrow> failure + SafeTxBundle" where
  "propose T H now lock descr act dt oid minDelay =
     proposeTx T H now \<lparr>po_to = lock, po_data = dt, po_action = Some act, po_description = descr, po_timelock = Some lock,
       po_operationId = Some oid, po_minDelay = Some minDelay\<rparr>"

definition scheduleOnTimelock :: "tool_viem \<Rightarrow> SafeHandle \<Rightarrow> timelock_chain \<Rightarrow> string \<Rightarrow> Ordered \<Rightarrow> int option \<Rightarrow> failure + SafeTxBundle" where
  "scheduleOnTimelock T H C now p delay0 =
     res_bind (of_option PlainError (getAddress (vm T) (od_timelock p))) (\<lambda>lock.
     res_bind (timelockMinDelay C lock) (\<lambda>minDelay.
     res_bind (splitCalls T p) (\<lambda>s.
     let delay = (case delay0 of None \<Rightarrow> minDelay | Some d \<Rightarrow> d) in
     res_bind (refuse (delay < minDelay) TIMELOCK_STATE) (\<lambda>_.
     res_bind (requireRole C H lock PROPOSER) (\<lambda>_.
     res_bind (operationId T C (p\<lparr>od_timelock := lock\<rparr>)) (\<lambda>oid.
     res_bind (of_option PlainError (tl_state C lock oid)) (\<lambda>st.
     res_bind (refuse (os_exists st) TIMELOCK_STATE) (\<lambda>_.
     let fn = (if sp_single s then ''schedule'' else ''scheduleBatch'') in
     res_bind (of_option PlainError (encodeCall (vm T) fn (op_args s @ [JBig delay]))) (\<lambda>dt.
     propose T H now lock (od_description p) fn dt oid minDelay)))))))))"

text \<open>An operation that is pending and not ready is only warned about.\<close>

definition executeOnTimelock :: "tool_viem \<Rightarrow> SafeHandle \<Rightarrow> timelock_chain \<Rightarrow> string \<Rightarrow> Ordered \<Rightarrow> failure + SafeTxBundle" where
  "executeOnTimelock T H C now p =
     res_bind (of_option PlainError (getAddress (vm T) (od_timelock p))) (\<lambda>lock.
     res_bind (timelockMinDelay C lock) (\<lambda>minDelay.
     res_bind (splitCalls T p) (\<lambda>s.
     res_bind (requireRole C H lock EXECUTOR) (\<lambda>_.
     res_bind (operationId T C (p\<lparr>od_timelock := lock\<rparr>)) (\<lambda>oid.
     res_bind (of_option PlainError (tl_state C lock oid)) (\<lambda>st.
     res_bind (refuse (\<not> os_pending st) TIMELOCK_STATE) (\<lambda>_.
     let fn = (if sp_single s then ''execute'' else ''executeBatch'') in
     res_bind (of_option PlainError (encodeCall (vm T) fn (op_args s))) (\<lambda>dt.
     propose T H now lock (od_description p) fn dt oid minDelay))))))))"

definition cancelOnTimelock :: "tool_viem \<Rightarrow> SafeHandle \<Rightarrow> timelock_chain \<Rightarrow> string \<Rightarrow> string \<Rightarrow> string option \<Rightarrow> string \<Rightarrow> failure + SafeTxBundle" where
  "cancelOnTimelock T H C now lock0 descr oid =
     res_bind (of_option PlainError (getAddress (vm T) lock0)) (\<lambda>lock.
     res_bind (timelockMinDelay C lock) (\<lambda>minDelay.
     res_bind (refuse (\<not> hex_of_len 64 oid) SafeErrorCode.BAD_INPUT) (\<lambda>_.
     res_bind (requireRole C H lock CANCELLER) (\<lambda>_.
     res_bind (of_option PlainError (tl_state C lock oid)) (\<lambda>st.
     res_bind (refuse (\<not> os_pending st) TIMELOCK_STATE) (\<lambda>_.
     res_bind (of_option PlainError (encodeCall (vm T) ''cancel'' [JStr oid])) (\<lambda>dt.
     propose T H now lock descr ''cancel'' dt oid minDelay)))))))"

datatype delay_phase = PSchedule | PExecute

record UpdateDelayParams =
  ud_timelock :: string
  ud_description :: "string option"
  ud_newDelay :: int
  ud_phase :: delay_phase
  ud_salt :: string
  ud_predecessor :: "string option"
  ud_delay :: "int option"
  ud_allowUnsafeDelay :: bool
  ud_deploymentKind :: "DeploymentKind option"

definition ud_kind :: "UpdateDelayParams \<Rightarrow> DeploymentKind" where
  "ud_kind p = (case ud_deploymentKind p of None \<Rightarrow> Production | Some k \<Rightarrow> k)"

text \<open>The bounds, in the order of the source.\<close>

definition delay_bounds :: "int \<Rightarrow> UpdateDelayParams \<Rightarrow> failure + unit" where
  "delay_bounds chainId p =
     (let kind = ud_kind p; newDelay = ud_newDelay p; minSafe = (if kind = Rehearsal then REHEARSAL_DELAY_FLOOR else MIN_SAFE_DELAY) in
      res_bind (refuse (newDelay < 0) SafeErrorCode.BAD_INPUT) (\<lambda>_.
      res_bind (refuse (newDelay < delayFloor chainId kind) UNSAFE_DELAY) (\<lambda>_.
      res_bind (refuse (kind = Rehearsal \<and> rehearsalDelayProblem newDelay \<noteq> []) UNSAFE_DELAY) (\<lambda>_.
      res_bind (refuse (newDelay > MAX_SAFE_DELAY) UNSAFE_DELAY) (\<lambda>_.
      refuse ((newDelay < minSafe \<or> newDelay > MAX_SAFE_DELAY) \<and> \<not> ud_allowUnsafeDelay p) UNSAFE_DELAY)))))"

definition updateTimelockDelay :: "tool_viem \<Rightarrow> SafeHandle \<Rightarrow> timelock_chain \<Rightarrow> string \<Rightarrow> UpdateDelayParams \<Rightarrow> failure + SafeTxBundle" where
  "updateTimelockDelay T H C now p =
     res_bind (delay_bounds (h_chainId H) p) (\<lambda>_.
     res_bind (of_option PlainError (getAddress (vm T) (ud_timelock p))) (\<lambda>lock.
     res_bind (of_option PlainError (encodeCall (vm T) ''updateDelay'' [JBig (ud_newDelay p)])) (\<lambda>inner.
     let common = \<lparr>od_timelock = lock, od_description = ud_description p, od_calls = [\<lparr>tc_target = lock, tc_value = None, tc_data = inner\<rparr>],
                   od_predecessor = ud_predecessor p, od_salt = ud_salt p, od_form = Single\<rparr> in
     res_bind (case ud_phase p of PSchedule \<Rightarrow> scheduleOnTimelock T H C now common (ud_delay p) | PExecute \<Rightarrow> executeOnTimelock T H C now common) (\<lambda>b.
     Inr (b\<lparr>action := (case ud_phase p of PSchedule \<Rightarrow> ''updateDelay-schedule'' | PExecute \<Rightarrow> ''updateDelay-execute'')\<rparr>)))))"

definition verifyTimelockEffect :: "timelock_chain \<Rightarrow> SafeTxBundle \<Rightarrow> failure + OperationState" where
  "verifyTimelockEffect C b =
     (case (timelock_of b, truthy_str (timelock_operation_id b)) of
        (Some lock, Some oid) \<Rightarrow>
          res_bind (of_option PlainError (tl_state C lock oid)) (\<lambda>st.
          let a = action b;
              ok = (if starts_with ''schedule'' a \<or> a = ''updateDelay-schedule'' then os_pending st
                    else if a = ''cancel'' then \<not> os_exists st else os_done st) in
          res_bind (refuse (\<not> ok) EFFECT_NOT_OBSERVED) (\<lambda>_. Inr st))
      | _ \<Rightarrow> Inl (SafeToolError SafeErrorCode.BUNDLE_INVALID))"

section \<open>Signature shapes\<close>

lemma hex_byte_values:
  "hex_byte 27 = ''1b''" "hex_byte 28 = ''1c''" "hex_byte 31 = ''1f''" "hex_byte 32 = ''20''"
  by code_simp+

lemma read_hex_values: "read_hex ''1b'' = 27" "read_hex ''1c'' = 28" "read_hex ''1f'' = 31" "read_hex ''20'' = 32"
  by code_simp+

text \<open>A signature put together from the 64 bytes of another and a recovery byte.\<close>

lemma rebuilt_signature:
  assumes "hex_of_len 130 sg" and "v = ''1b'' \<or> v = ''1c'' \<or> v = ''1f'' \<or> v = ''20''"
  shows "hex_of_len 130 (''0x'' @ take 128 (drop 2 sg) @ v)" "take 128 (drop 2 (''0x'' @ take 128 (drop 2 sg) @ v)) = take 128 (drop 2 sg)"
    "sig_v (''0x'' @ take 128 (drop 2 sg) @ v) = read_hex v"
proof -
  have len: "length (take 128 (drop 2 sg)) = 128" and hex: "list_all is_hex_char (take 128 (drop 2 sg))"
    using assms(1) by (auto simp: hex_of_len_def hex_prefixed_def list_all_iff dest: in_set_takeD)
  have "list_all is_hex_char v"
  proof -
    have "list_all is_hex_char ''1b''" "list_all is_hex_char ''1c''" "list_all is_hex_char ''1f''" "list_all is_hex_char ''20''" by code_simp+
    with assms(2) show ?thesis by auto
  qed
  moreover have "length v = 2" using assms(2) by auto
  ultimately show "hex_of_len 130 (''0x'' @ take 128 (drop 2 sg) @ v)" "take 128 (drop 2 (''0x'' @ take 128 (drop 2 sg) @ v)) = take 128 (drop 2 sg)"
    "sig_v (''0x'' @ take 128 (drop 2 sg) @ v) = read_hex v"
    using len hex by (simp_all add: hex_of_len_def hex_prefixed_def sig_v_def)
qed

lemma toSafeSignature_cases:
  assumes "tool_toSafeSignature sg mode = Inr out"
  shows "hex_of_len 130 sg \<and> (\<exists>base \<in> {27, 28}. (sig_v sg = base \<or> sig_v sg + 27 = base)
    \<and> out = ''0x'' @ take 128 (drop 2 sg) @ hex_byte (if mode = EthSign then base + 4 else base))"
  using assms by (auto simp: tool_toSafeSignature_def splitSignature_def split: if_splits)

text \<open>
  A wallet's signature turned into the Safe's form says how it was made: its mode is read back from the
  recovery byte, the 64 signature bytes are the wallet's, and what is recovered from it is what the plain
  wallet signature recovers to, over the hash itself or over its message prefix.
\<close>

theorem safe_signature_roundtrip:
  assumes "tool_toSafeSignature sg mode = Inr out"
  shows "modeOf out = Inr mode \<and> take 128 (drop 2 out) = take 128 (drop 2 sg)
    \<and> (\<exists>plain. tool_toSafeSignature sg Raw = Inr plain
         \<and> recoverSafeSigner T hash out
             = of_option PlainError (recoverAddress (vm T) (if mode = Raw then hash else hashMessage T hash) plain))"
proof -
  obtain base where h: "hex_of_len 130 sg" and base: "base \<in> {27, 28}" "sig_v sg = base \<or> sig_v sg + 27 = base"
    and out: "out = ''0x'' @ take 128 (drop 2 sg) @ hex_byte (if mode = EthSign then base + 4 else base)"
    using toSafeSignature_cases [OF assms] by blast
  define v where "v = hex_byte (if mode = EthSign then base + 4 else base)"
  have v: "v = ''1b'' \<or> v = ''1c'' \<or> v = ''1f'' \<or> v = ''20''" and rv: "read_hex v = (if mode = EthSign then base + 4 else base)"
    using base(1) by (auto simp: v_def hex_byte_values read_hex_values)
  note rb = rebuilt_signature [OF h v]
  have out': "out = ''0x'' @ take 128 (drop 2 sg) @ v" using out by (simp add: v_def)
  have mode: "modeOf out = Inr mode"
    using rb rv base(1) by (cases mode) (auto simp: modeOf_def splitSignature_def out')
  have plain: "tool_toSafeSignature sg Raw = Inr (''0x'' @ take 128 (drop 2 sg) @ hex_byte base)"
    using h base by (auto simp: tool_toSafeSignature_def splitSignature_def)
  have "mode = EthSign \<Longrightarrow> plain_signature out = ''0x'' @ take 128 (drop 2 sg) @ hex_byte base"
    using rb(2,3) rv by (simp add: plain_signature_def out')
  moreover have "mode = Raw \<Longrightarrow> out = ''0x'' @ take 128 (drop 2 sg) @ hex_byte base" by (simp add: out)
  ultimately show ?thesis using mode plain rb(2) out' by (cases mode) (auto simp: recoverSafeSigner_def)
qed

section \<open>Reading after a write\<close>

lemma read_loop_Inr:
  "read_loop reads judge k n = Inr v \<longleftrightarrow>
     (\<exists>i < n. reads (k + i) = Some v \<and> judge v \<noteq> Stale \<and> (\<forall>j < i. \<forall>w. reads (k + j) = Some w \<longrightarrow> judge w = Stale))"
proof (induction n arbitrary: k)
  case (Suc n)
  have step: "(\<exists>i < Suc n. P i) \<longleftrightarrow> P 0 \<or> (\<exists>i < n. P (Suc i))" for P
    using Ex_less_Suc2 by auto
  have all: "(\<forall>j < Suc i. Q j) \<longleftrightarrow> Q 0 \<and> (\<forall>j < i. Q (Suc j))" for Q i
    using All_less_Suc2 by auto
  show ?case
    by (cases "reads k") (auto simp: Suc step all)
qed simp

text \<open>
  A read after a write always ends: it returns the first answer that is not stale within its number of
  tries (ten, or the caller's, never fewer than one), a wrong answer included, and fails with
  \<open>STALE_READ_TIMEOUT\<close> exactly when every try was stale or threw.
\<close>

theorem readAfterWrite_spec:
  "let n = max 1 (case tries of None \<Rightarrow> 10 | Some k \<Rightarrow> k) in
   (readAfterWrite reads judge tries = Inr v \<longleftrightarrow>
      (\<exists>i < n. reads i = Some v \<and> judge v \<noteq> Stale \<and> (\<forall>j < i. \<forall>w. reads j = Some w \<longrightarrow> judge w = Stale)))
   \<and> (readAfterWrite reads judge tries = Inl e \<longleftrightarrow>
        e = SafeToolError STALE_READ_TIMEOUT \<and> (\<forall>i < n. \<forall>w. reads i = Some w \<longrightarrow> judge w = Stale))"
proof -
  have inl: "read_loop reads judge k n = Inl e \<longleftrightarrow>
      e = SafeToolError STALE_READ_TIMEOUT \<and> (\<forall>i < n. \<forall>w. reads (k + i) = Some w \<longrightarrow> judge w = Stale)" for k n
  proof (induction n arbitrary: k)
    case (Suc n)
    have all: "(\<forall>j < Suc i. Q j) \<longleftrightarrow> Q 0 \<and> (\<forall>j < i. Q (Suc j))" for Q i
      using All_less_Suc2 by auto
    show ?case by (cases "reads k") (auto simp: Suc all)
  qed auto
  show ?thesis
    unfolding readAfterWrite_def Let_def STALE_READ_TRIES_def
    using read_loop_Inr [of reads judge 0] inl [of 0] by simp
qed

section \<open>Execution\<close>

lemma owner_iff: "(\<exists>x \<in> set (h_owners H). lc x = lc a) \<longleftrightarrow> is_owner H a"
  by (simp add: is_owner_def same_address_def)

text \<open>The loop over the signatures, from any owner before on.\<close>

lemma check_signatures_from:
  assumes "[] \<notin> set (h_owners H)"
  shows "check_signatures T H b prev ss = Inr () \<longleftrightarrow>
     sorted_wrt (<) (map owner_key ss) \<and> (prev \<noteq> [] \<longrightarrow> (\<forall>s \<in> set ss. prev < owner_key s))
     \<and> (\<forall>s \<in> set ss. is_owner H (sig_owner s) \<and> verifySafeSignature T (safe_tx_hash b) (sig_owner s) (signature s))"
proof (induction ss arbitrary: prev)
  case (Cons s ss)
  have ne: "owner_key s \<noteq> []" if "is_owner H (sig_owner s)"
    using that assms by (auto simp: is_owner_def same_address_def)
  show ?case
  proof (cases "is_owner H (sig_owner s)")
    case True
    have "check_signatures T H b prev (s # ss) = Inr () \<longleftrightarrow>
        (prev \<noteq> [] \<longrightarrow> prev < owner_key s) \<and> verifySafeSignature T (safe_tx_hash b) (sig_owner s) (signature s)
        \<and> check_signatures T H b (owner_key s) ss = Inr ()"
      using True by (auto simp: Let_def owner_iff)
    with Cons.IH [of "owner_key s"] ne [OF True] True show ?thesis
      by (auto intro: less_trans)
  next
    case False
    then show ?thesis by (auto simp: Let_def owner_iff)
  qed
qed simp

lemma check_signatures_iff:
  assumes "[] \<notin> set (h_owners H)"
  shows "check_signatures T H b [] ss = Inr () \<longleftrightarrow>
     sorted_wrt (<) (map owner_key ss)
     \<and> (\<forall>s \<in> set ss. is_owner H (sig_owner s) \<and> verifySafeSignature T (safe_tx_hash b) (sig_owner s) (signature s))"
  using check_signatures_from [OF assms, of T b "[]" ss] by simp

lemma sorted_sort: "sorted_wrt (<) (map owner_key ss) \<Longrightarrow> sort_by_owner ss = ss"
  by (simp add: sort_by_owner_def sort_key_id_if_sorted strict_sorted_iff)

lemma execute_checks_strict:
  assumes "execute_checks T H b se opts = Inr (n, a, used)" and "eo_localChecks opts"
  shows "reverifyBundle T H b = Inr ()" "h_nonce H 1 = Some n" "h_threshold H \<le> int (length (signatures b))"
    "check_signatures T H b [] (signatures b) = Inr ()"
    "used = (if eo_allSignatures opts then sort_by_owner (signatures b) else slice_to (NInt (h_threshold H)) (sort_by_owner (signatures b)))"
    "rd_checkNSignatures H (safe_tx_hash b) (tool_packSignatures used) (if eo_allSignatures opts then int (length used) else h_threshold H)"
    "rd_simulate H (exec_args b (tool_packSignatures used)) a = Some True"
  using assms by (auto simp: execute_checks_def Let_def checkSignaturesOnChain_def split: if_splits)


text \<open>
  Below the threshold, with a signature by someone else, out of order, or not over this hash: an error and
  nothing sent.
\<close>

lemma executeTx_refuses:
  assumes "eo_localChecks opts" and "[] \<notin> set (h_owners H)"
    and "int (length (signatures b)) < h_threshold H \<or> check_signatures T H b [] (signatures b) \<noteq> Inr () \<or> reverifyBundle T H b \<noteq> Inr ()"
  shows "fst (executeTx T H b se opts) = [] \<and> \<not> is_ok (Product_Type.snd (executeTx T H b se opts))"
proof (cases "execute_checks T H b se opts")
  case (Inl e)
  then show ?thesis by (simp add: executeTx_def)
next
  case (Inr r)
  obtain n a used where "r = (n, a, used)" by (cases r) auto
  with execute_checks_strict [of T H b se opts n a used] Inr assms show ?thesis by auto
qed

section \<open>Imported signatures\<close>

text \<open>The tool's signature list is the dapp's keyed set of signatures.\<close>

lemma signatures_add: "signatures (bundle_addSignature b s) = SafeProposal.addSignature (signatures b) s"
  by (simp add: bundle_addSignature_def SafeProposal.addSignature_def)

lemma addSignature_rest [simp]: "safe_tx_hash (bundle_addSignature b s) = safe_tx_hash b" "(bundle_addSignature b s)\<lparr>signatures := x\<rparr> = b\<lparr>signatures := x\<rparr>"
  by (simp_all add: bundle_addSignature_def)

definition tool_signed :: "tool_viem \<Rightarrow> SafeHandle \<Rightarrow> SafeTxBundle \<Rightarrow> BundleSignature \<Rightarrow> bool" where
  "tool_signed T H b s \<longleftrightarrow>
     (\<exists>r. recoverSafeSigner T (safe_tx_hash b) (signature s) = Inr r \<and> is_owner H r \<and> getAddress (vm T) r = Some (sig_owner s))"

lemma import_claim_ok:
  assumes "import_claim T H b c out = Inr out'"
  shows "\<exists>s. out' = bundle_addSignature out s \<and> tool_signed T H b s"
proof -
  obtain sig r o' where "recoverSafeSigner T (safe_tx_hash b) sig = Inr r" "is_owner H r" "getAddress (vm T) r = Some o'"
    "out' = bundle_addSignature out \<lparr>sig_owner = o', signature = sig\<rparr>"
    using assms by (cases c) (auto simp: import_claim_def)
  then show ?thesis by (intro exI [of _ "\<lparr>sig_owner = o', signature = sig\<rparr>"]) (auto simp: tool_signed_def)
qed

lemma import_all_ok:
  "import_all T H b cs out = Inr out' \<Longrightarrow> distinct (map owner_key (signatures out)) \<Longrightarrow> sorted (map owner_key (signatures out)) \<Longrightarrow>
     sorted (map owner_key (signatures out')) \<and> distinct (map owner_key (signatures out'))
     \<and> out' = out\<lparr>signatures := signatures out'\<rparr>
     \<and> owner_key ` set (signatures out) \<subseteq> owner_key ` set (signatures out')
     \<and> (\<forall>s \<in> set (signatures out'). s \<in> set (signatures out) \<or> tool_signed T H b s)"
proof (induction cs arbitrary: out)
  case (Cons c cs)
  then obtain mid where mid: "import_claim T H b c out = Inr mid" "import_all T H b cs mid = Inr out'" by auto
  obtain s where s: "mid = bundle_addSignature out s" "tool_signed T H b s" using import_claim_ok [OF mid(1)] by blast
  have sigs: "signatures mid = SafeProposal.addSignature (signatures out) s" using s(1) by (simp add: signatures_add)
  have wf: "distinct (map owner_key (signatures mid))" "sorted (map owner_key (signatures mid))"
    using sigset.add_distinct [OF Cons.prems(2)] sigset.add_sorted sigs by auto
  note IH = Cons.IH [OF mid(2) wf]
  have set_mid: "set (signatures mid) = {y \<in> set (signatures out). owner_key y \<noteq> owner_key s} \<union> {s}"
    using sigset.add_set [of "signatures out" s] sigs by simp
  then have "owner_key ` set (signatures out) \<subseteq> owner_key ` set (signatures mid)" by (auto simp: image_iff)
  then have keep: "owner_key ` set (signatures out) \<subseteq> owner_key ` set (signatures out')" using IH by blast
  have "out' = mid\<lparr>signatures := signatures out'\<rparr>" using IH by blast
  then have rest: "out' = out\<lparr>signatures := signatures out'\<rparr>" unfolding s(1) addSignature_rest(2) .
  have "s' \<in> set (signatures out) \<or> tool_signed T H b s'" if "s' \<in> set (signatures out')" for s'
    using IH that set_mid s(2) by blast
  with IH keep rest show ?case by blast
qed auto

text \<open>
  The operator's import only adds owners' signatures over this transaction: it changes nothing of the
  bundle but the signatures, keeps them strictly ascending with one entry per owner, loses no owner who
  had signed, and every new entry recovers, in its own mode, over this bundle's hash, to an owner of the
  Safe.
\<close>

theorem importSignatureBundle_sound:
  assumes "importSignatureBundle T H file b src = Inr b'"
    and "distinct (map owner_key (signatures b))" and "sorted (map owner_key (signatures b))"
  shows "b' = b\<lparr>signatures := signatures b'\<rparr>
    \<and> sorted (map owner_key (signatures b')) \<and> distinct (map owner_key (signatures b'))
    \<and> owner_key ` set (signatures b) \<subseteq> owner_key ` set (signatures b')
    \<and> (\<forall>s \<in> set (signatures b'). s \<in> set (signatures b) \<or> tool_signed T H b s)"
proof -
  obtain claims where "import_all T H b claims b = Inr b'"
    using assms(1) by (auto simp: importSignatureBundle_def)
  from import_all_ok [OF this assms(2,3)] show ?thesis by blast
qed

section \<open>The dapp and the tool\<close>

text \<open>
  Documented behaviour of the Safe SDK and of the Safe contract: for a plain call they give the EIP-712 hash
  of the Safe transaction, with no gas or refund terms.
\<close>

definition kit_agrees :: "tool_viem \<Rightarrow> SafeHandle \<Rightarrow> bool" where
  "kit_agrees T H \<longleftrightarrow>
     (\<forall>t dt k h. hashTypedData (vm T) (hash_input (h_chainId H) (h_address H) t dt k) = Some h \<longrightarrow>
        (\<exists>tx h1 h2. sdk_create H t dt (NInt k) = Some tx \<and> d_safeTxGas tx = ''0'' \<and> d_baseGas tx = ''0'' \<and> d_gasPrice tx = ''0''
           \<and> same_address (d_gasToken tx) zero_address \<and> same_address (d_refundReceiver tx) zero_address
           \<and> d_operation tx = 0 \<and> d_nonce tx = NInt k
           \<and> sdk_hash H tx = Some h1 \<and> rd_getTransactionHash H (tx_hash_args t dt k) = Some h2 \<and> lc h1 = lc h \<and> lc h2 = lc h))"

lemma parsed_target:
  assumes "strict_address_laws V" and "parseBundle V json = Inr b"
  shows "getAddress V (to b) = Some (to b)"
proof -
  obtain v where "addr_field V v ''to'' = Inr (to b)"
    using assms(2) unfolding parseBundle_def res_bind_Inr by (elim exE conjE) (drule sum.inject(2) [THEN iffD1], hypsubst, simp)
  then obtain a where "getAddress V a = Some (to b)" by (auto simp: addr_field_def split: js.splits if_splits)
  with getAddress_stable(1) [OF assms(1)] show ?thesis by blast
qed

lemma kit_hash:
  assumes "kit_agrees T H" and "hashTypedData (vm T) (hash_input (h_chainId H) (h_address H) t dt k) = Some h"
  shows "\<exists>h1. safeTxHashOf T H t dt (NInt k) = Inr h1 \<and> lc h1 = lc h"
  using assms unfolding kit_agrees_def
  by (fastforce simp: safeTxHashOf_def buildSdkTx_def localSafeTxHash_def)

lemma verifyBundleFields_parts:
  assumes "verifyBundleFields V b = Inr built"
  shows "\<exists>lock n. timelock b = Some lock \<and> lock \<noteq> [] \<and> nonce b = NInt n \<and> format b = BUNDLE_FORMAT \<and> bundle_value b = ''0'' \<and> operation b = 0
    \<and> safe_tx_gas b = ''0'' \<and> base_gas b = ''0'' \<and> gas_price b = ''0'' \<and> same_address (gas_token b) zero_address
    \<and> same_address (refund_receiver b) zero_address \<and> buildSafeTx V (bundle_input b lock n) = Inr built
    \<and> lc (safeTxHash built) = lc (safe_tx_hash b)"
  using assms by (auto simp: verifyBundleFields_def to_bigint_def split: option.splits if_splits jsnum.splits)

text \<open>
  What the dapp proposes, the operator's tool signs. A bundle file the dapp reads and verifies passes every
  check of \<open>reverifyBundle\<close> when the tool is connected to the bundle's chain and Safe and the Safe is still at
  the bundle's nonce: the same target and call rules, the same zero fields, the same digest.
\<close>

theorem dapp_bundle_accepted:
  assumes "strict_address_laws (vm T)" and "parseBundle (vm T) json = Inr b" and "verifyBundleFields (vm T) b = Inr built"
    and "chain_id b = NInt (h_chainId H)" and "getAddress (vm T) (safe b) = Some (h_address H)"
    and "\<exists>n. nonce b = NInt n \<and> h_nonce H 0 = Some n" and "kit_agrees T H"
  shows "reverifyBundle T H b = Inr ()"
proof -
  obtain lock n where lock: "timelock b = Some lock" "lock \<noteq> []" and n: "nonce b = NInt n" and
    z: "format b = BUNDLE_FORMAT" "bundle_value b = ''0''" "operation b = 0" "safe_tx_gas b = ''0''" "base_gas b = ''0''" "gas_price b = ''0''"
      "same_address (gas_token b) zero_address" "same_address (refund_receiver b) zero_address"
    and built: "buildSafeTx (vm T) (bundle_input b lock n) = Inr built" and hash: "lc (safeTxHash built) = lc (safe_tx_hash b)"
    using verifyBundleFields_parts [OF assms(3)] by blast
  obtain chain sf t v where p: "check_input (vm T) (bundle_input b lock n) = Inr chain"
    "timelockFunctionOf (vm T) (data b) = Inr (timelockFunction built)" "getAddress (vm T) (safe b) = Some sf" "getAddress (vm T) (to b) = Some t"
    "hashTypedData (vm T) (hash_input chain sf t (data b) n) = Some v" "lc (safeTxHash built) = lc v"
    using buildSafeTx_parts [OF built] by (auto simp: bundle_input_def)
  have chain: "chain = h_chainId H" using check_input_ok(1) [OF p(1)] assms(4) by (simp add: bundle_input_def)
  have sf: "sf = h_address H" using p(3) assms(5) by simp
  have t: "t = to b" using p(4) parsed_target [OF assms(1,2)] by simp
  have call: "assertTimelockCall T (to b) (data b) lock = Inr ()"
    using check_input_ok(4) [OF p(1)] p(2)
    by (cases "timelockFunction built") (auto simp: assertTimelockCall_def bundle_input_def timelockFunctionOf_ok TIMELOCK_ALLOWED_FUNCTIONS_def)
  obtain h1 where h1: "safeTxHashOf T H (to b) (data b) (NInt n) = Inr h1" "lc h1 = lc v"
    using kit_hash [OF assms(7)] p(5) unfolding chain sf t by blast
  have "same_address (safe b) (h_address H)" using getAddress_stable(3) [OF assms(1,5)] by (simp add: same_address_def)
  then show ?thesis
    using z n lock call h1 p(6) hash assms(4,6) by (auto simp: reverifyBundle_def timelock_of_def)
qed

text \<open>A normal signature of the dapp is a raw signature of the tool, by the same signer.\<close>

lemma owner_signed_verifies:
  assumes "strict_address_laws (vm T)" and "owner_signed (vm T) b s"
  shows "verifySafeSignature T (safe_tx_hash b) (sig_owner s) (signature s)" "owner_key s \<in> lc ` set (owners b)"
proof -
  obtain r where n: "SafeProposal.toSafeSignature (signature s) = Inr (signature s)"
    and r: "recoverAddress (vm T) (safe_tx_hash b) (signature s) = Some r" "getAddress (vm T) r = Some (sig_owner s)" "lc r \<in> lc ` set (owners b)"
    using assms(2) by (auto simp: owner_signed_def)
  have h: "hex_of_len 130 (signature s)" and v: "drop 130 (signature s) = ''1b'' \<or> drop 130 (signature s) = ''1c''"
    using toSafeSignature_ok [OF n] by auto
  then have "sig_v (signature s) = 27 \<or> sig_v (signature s) = 28" by (auto simp: sig_v_def read_hex_values)
  with h have "recoverSafeSigner T (safe_tx_hash b) (signature s) = Inr r"
    using r(1) by (auto simp: recoverSafeSigner_def modeOf_def splitSignature_def)
  moreover have key: "lc (sig_owner s) = lc r" using getAddress_stable(3) [OF assms(1) r(2)] .
  ultimately show "verifySafeSignature T (safe_tx_hash b) (sig_owner s) (signature s)" by (simp add: verifySafeSignature_def)
  show "owner_key s \<in> lc ` set (owners b)" using r(3) key by simp
qed


section \<open>Timelock proposals\<close>

lemma proposeTx_target:
  assumes "proposeTx T H now opts = Inr b" and "po_timelock opts = Some (po_to opts)" and "po_to opts \<noteq> []"
  shows "getAddress (vm T) (po_to opts) = Some (to b) \<and> timelock b = Some (to b) \<and> data b = po_data opts
    \<and> timelock_operation_id b = truthy_str (po_operationId opts) \<and> bundle_value b = ''0'' \<and> operation b = 0 \<and> signatures b = []"
  using assms by (auto simp: proposeTx_def truthy_str_def)

lemma propose_target:
  assumes "propose T H now lock descr act dt oid md = Inr b" and "lock \<noteq> []"
  shows "getAddress (vm T) lock = Some (to b) \<and> timelock b = Some (to b) \<and> data b = dt \<and> timelock_operation_id b = truthy_str (Some oid)
    \<and> bundle_value b = ''0'' \<and> operation b = 0"
  using proposeTx_target [OF assms(1) [unfolded propose_def]] assms(2) by simp

lemma schedule_parts:
  assumes laws: "strict_address_laws (vm T)" and ok: "scheduleOnTimelock T H C now p d = Inr b"
  shows "\<exists>lock md s oid st delay. getAddress (vm T) (od_timelock p) = Some lock \<and> timelockMinDelay C lock = Inr md
    \<and> splitCalls T p = Inr s \<and> delay = (case d of None \<Rightarrow> md | Some x \<Rightarrow> x) \<and> md \<le> delay
    \<and> tl_hasRole C lock PROPOSER (h_address H) = Some True
    \<and> tl_hash C lock (op_args s) = Some oid \<and> tl_state C lock oid = Some st \<and> \<not> os_exists st
    \<and> encodeCall (vm T) (if sp_single s then ''schedule'' else ''scheduleBatch'') (op_args s @ [JBig delay]) = Some (data b)
    \<and> to b = lock \<and> timelock b = Some lock \<and> timelock_operation_id b = truthy_str (Some oid) \<and> bundle_value b = ''0'' \<and> operation b = 0"
proof -
  obtain lock md s oid st dt where p: "getAddress (vm T) (od_timelock p) = Some lock" "timelockMinDelay C lock = Inr md" "splitCalls T p = Inr s"
    "md \<le> (case d of None \<Rightarrow> md | Some x \<Rightarrow> x)" "requireRole C H lock PROPOSER = Inr ()" "operationId T C (p\<lparr>od_timelock := lock\<rparr>) = Inr oid"
    "tl_state C lock oid = Some st" "\<not> os_exists st"
    "encodeCall (vm T) (if sp_single s then ''schedule'' else ''scheduleBatch'') (op_args s @ [JBig (case d of None \<Rightarrow> md | Some x \<Rightarrow> x)]) = Some dt"
    "propose T H now lock (od_description p) (if sp_single s then ''schedule'' else ''scheduleBatch'') dt oid md = Inr b"
    using ok unfolding scheduleOnTimelock_def Let_def res_bind_Inr of_option_Inr refuse_Inr
    by (elim exE conjE) (rule that, (assumption | simp add: not_less)+)
  have role: "tl_hasRole C lock PROPOSER (h_address H) = Some True"
    using p(5) by (auto simp: requireRole_def split: if_splits)
  have "splitCalls T (p\<lparr>od_timelock := lock\<rparr>) = splitCalls T p" by (simp add: splitCalls_def)
  then have oid: "tl_hash C lock (op_args s) = Some oid" using p(3,6) by (simp add: operationId_def)
  have ne: "lock \<noteq> []" using getAddress_stable(4) [OF laws p(1)] .
  have "getAddress (vm T) lock = Some lock" using getAddress_stable(1) [OF laws p(1)] .
  with propose_target [OF p(10) ne] p role oid show ?thesis by auto
qed

lemma delay_bounds_ok:
  assumes "delay_bounds chainId p = Inr ()"
  shows "delayFloor chainId (ud_kind p) \<le> ud_newDelay p" "ud_newDelay p \<le> MAX_SAFE_DELAY" "0 \<le> ud_newDelay p"
    "ud_kind p = Rehearsal \<Longrightarrow> REHEARSAL_DELAY_FLOOR \<le> ud_newDelay p \<and> ud_newDelay p < MAINNET_DELAY_FLOOR"
    "\<not> ud_allowUnsafeDelay p \<Longrightarrow> ud_kind p = Production \<Longrightarrow> MIN_SAFE_DELAY \<le> ud_newDelay p"
  using assms by (auto simp: delay_bounds_def Let_def)

text \<open>
  A proposal to change the timelock's delay. Whatever flags are given, one that is accepted has a new delay
  of at most 30 days and, on 8453, at least 172800 s in production and 900 s up to below that in a rehearsal;
  without the unsafe flag a production delay is at least an hour on every chain. The scheduling proposal calls the timelock on itself,
  waits at least its current minimum delay, is not on the timelock already, and the Safe holds the
  proposer role.
\<close>

theorem updateDelay_bounded:
  assumes "strict_address_laws (vm T)" and "updateTimelockDelay T H C now p = Inr b"
  shows "ud_newDelay p \<le> 2592000 \<and> delayFloor (h_chainId H) (ud_kind p) \<le> ud_newDelay p
    \<and> (h_chainId H = 8453 \<and> ud_kind p = Production \<longrightarrow> 172800 \<le> ud_newDelay p)
    \<and> (ud_kind p = Rehearsal \<longrightarrow> 900 \<le> ud_newDelay p \<and> ud_newDelay p < 172800)
    \<and> (\<not> ud_allowUnsafeDelay p \<and> ud_kind p = Production \<longrightarrow> 3600 \<le> ud_newDelay p)
    \<and> (ud_phase p = PSchedule \<longrightarrow>
        (\<exists>lock inner md delay oid st. getAddress (vm T) (ud_timelock p) = Some lock \<and> to b = lock \<and> timelock b = Some lock
           \<and> encodeCall (vm T) ''updateDelay'' [JBig (ud_newDelay p)] = Some inner
           \<and> encodeCall (vm T) ''schedule'' [JStr lock, JBig 0, JStr inner,
               JStr (case ud_predecessor p of None \<Rightarrow> ZERO_BYTES32 | Some h \<Rightarrow> h), JStr (ud_salt p), JBig delay] = Some (data b)
           \<and> timelockMinDelay C lock = Inr md \<and> md \<le> delay \<and> tl_hasRole C lock PROPOSER (h_address H) = Some True
           \<and> tl_state C lock oid = Some st \<and> \<not> os_exists st \<and> timelock_operation_id b = truthy_str (Some oid)))"
proof -
  obtain lock inner b0 where bounds: "delay_bounds (h_chainId H) p = Inr ()" and lock: "getAddress (vm T) (ud_timelock p) = Some lock"
    and inner: "encodeCall (vm T) ''updateDelay'' [JBig (ud_newDelay p)] = Some inner"
    and b0: "(case ud_phase p of PSchedule \<Rightarrow> scheduleOnTimelock T H C now \<lparr>od_timelock = lock, od_description = ud_description p, od_calls = [\<lparr>tc_target = lock, tc_value = None, tc_data = inner\<rparr>],
                   od_predecessor = ud_predecessor p, od_salt = ud_salt p, od_form = Single\<rparr> (ud_delay p)
      | PExecute \<Rightarrow> executeOnTimelock T H C now \<lparr>od_timelock = lock, od_description = ud_description p, od_calls = [\<lparr>tc_target = lock, tc_value = None, tc_data = inner\<rparr>],
                   od_predecessor = ud_predecessor p, od_salt = ud_salt p, od_form = Single\<rparr>) = Inr b0"
    and b: "b = b0\<lparr>action := (case ud_phase p of PSchedule \<Rightarrow> ''updateDelay-schedule'' | PExecute \<Rightarrow> ''updateDelay-execute'')\<rparr>"
    using assms(2) unfolding updateTimelockDelay_def Let_def by auto
  let ?od = "\<lparr>od_timelock = lock, od_description = ud_description p, od_calls = [\<lparr>tc_target = lock, tc_value = None, tc_data = inner\<rparr>],
                   od_predecessor = ud_predecessor p, od_salt = ud_salt p, od_form = Single\<rparr>"
  have stable: "getAddress (vm T) lock = Some lock" using getAddress_stable(1) [OF assms(1) lock] .
  have "\<exists>md delay oid st. to b = lock \<and> timelock b = Some lock
           \<and> encodeCall (vm T) ''schedule'' [JStr lock, JBig 0, JStr inner,
               JStr (case ud_predecessor p of None \<Rightarrow> ZERO_BYTES32 | Some h \<Rightarrow> h), JStr (ud_salt p), JBig delay] = Some (data b)
           \<and> timelockMinDelay C lock = Inr md \<and> md \<le> delay \<and> tl_hasRole C lock PROPOSER (h_address H) = Some True
           \<and> tl_state C lock oid = Some st \<and> \<not> os_exists st \<and> timelock_operation_id b = truthy_str (Some oid)"
    if ph: "ud_phase p = PSchedule"
  proof -
    have "scheduleOnTimelock T H C now ?od (ud_delay p) = Inr b0" using b0 ph by simp
    from schedule_parts [OF assms(1) this] obtain md s oid st delay where sp: "timelockMinDelay C lock = Inr md"
      "splitCalls T ?od = Inr s" "md \<le> delay" "tl_hasRole C lock PROPOSER (h_address H) = Some True" "tl_state C lock oid = Some st" "\<not> os_exists st"
      "encodeCall (vm T) (if sp_single s then ''schedule'' else ''scheduleBatch'') (op_args s @ [JBig delay]) = Some (data b0)"
      "to b0 = lock" "timelock b0 = Some lock" "timelock_operation_id b0 = truthy_str (Some oid)"
      using stable by auto
    have s: "s = \<lparr>sp_single = True, sp_targets = [lock], sp_values = [0], sp_datas = [inner],
        sp_predecessor = (case ud_predecessor p of None \<Rightarrow> ZERO_BYTES32 | Some h \<Rightarrow> h), sp_salt = ud_salt p\<rparr>"
      using sp(2) stable by (auto simp: splitCalls_def Let_def)
    show ?thesis using sp b by (auto simp: s op_args_def)
  qed
  with lock inner delay_bounds_ok [OF bounds] show ?thesis
    by (auto simp: MAX_SAFE_DELAY_def MIN_SAFE_DELAY_def delayFloor_def isMainnet_def MAINNET_CHAIN_ID_def MAINNET_DELAY_FLOOR_def REHEARSAL_DELAY_FLOOR_def)
qed

section \<open>Concrete runs\<close>

definition sample_tool :: "js \<Rightarrow> tool_viem" where
  "sample_tool v = \<lparr>vm = sample_json v, hashMessage = (\<lambda>h. h @ ''00'')\<rparr>"

definition sample_hash :: string where
  "sample_hash = sample_keccak_safe (''0x'' @ replicate 132 (CHR ''0''))"

definition sample_handle :: "int \<Rightarrow> SafeHandle" where
  "sample_handle n0 =
     \<lparr>h_chainId = 8453, h_address = sample_addr ''aa'', h_version = ''1.4.1'',
      h_owners = [sample_addr ''01'', sample_addr ''02'', sample_addr ''03''], h_threshold = 2,
      h_nonce = (\<lambda>k. if k < 3 then Some n0 else Some (n0 + 1)),
      sdk_create = (\<lambda>t dt n. Some \<lparr>d_safeTxGas = ''0'', d_baseGas = ''0'', d_gasPrice = ''0'', d_gasToken = zero_address,
        d_refundReceiver = zero_address, d_operation = 0, d_nonce = n, d_to = t, d_value = ''0'', d_data = dt\<rparr>),
      sdk_hash = (\<lambda>_. Some sample_hash), sdk_encode = (\<lambda>tx sigs. Some ''0x6a761202''),
      rd_getTransactionHash = (\<lambda>_. Some sample_hash), rd_checkNSignatures = (\<lambda>h p n. True),
      rd_simulate = (\<lambda>as a. Some True), rd_balance = (\<lambda>_. Some 1)\<rparr>"

definition sample_sender :: Sender where
  "sample_sender = \<lparr>sn_address = Some (sample_addr ''77''), sn_send = (\<lambda>_ _. Some ''0xfeed''), sn_receipt = (\<lambda>_. Some (True, 100))\<rparr>"

definition sample_opts :: ExecuteOpts where
  "sample_opts = \<lparr>eo_localChecks = True, eo_dryRun = False, eo_tries = None, eo_allSignatures = False\<rparr>"

lemma sample_tool_laws: "strict_address_laws (vm (sample_tool v))"
  using sample_codec_safe_laws by (simp add: sample_tool_def sample_json_def strict_address_laws_def address_laws_def sample_codec_safe_def)

lemma sample_kit: "kit_agrees (sample_tool v) (sample_handle n)"
  by (simp add: kit_agrees_def sample_tool_def sample_json_def sample_codec_safe_def sample_handle_def sample_hash_def)

theorem safe_signature_roundtrip_witness:
  "\<exists>out. tool_toSafeSignature (''0x'' @ replicate 128 (CHR ''a'') @ ''01'') EthSign = Inr out \<and> modeOf out = Inr EthSign"
proof -
  have "is_ok (tool_toSafeSignature (''0x'' @ replicate 128 (CHR ''a'') @ ''01'') EthSign)" by code_simp
  then obtain out where out: "tool_toSafeSignature (''0x'' @ replicate 128 (CHR ''a'') @ ''01'') EthSign = Inr out" by (auto simp: is_ok_iff)
  with safe_signature_roundtrip [OF out, of "sample_tool JNull" sample_hash] show ?thesis by blast
qed

theorem readAfterWrite_spec_witness:
  "readAfterWrite (\<lambda>k. if k < 3 then Some (7 :: int) else Some 8) (\<lambda>v. if v < 8 then Stale else Fresh) None = Inr 8"
proof -
  have "(if (3 :: nat) < 3 then Some (7 :: int) else Some 8) = Some 8" by simp
  then show ?thesis
    using readAfterWrite_spec [of None "\<lambda>k. if k < 3 then Some (7 :: int) else Some 8" "\<lambda>v. if v < 8 then Stale else Fresh" 8]
    by (auto simp: Let_def intro!: exI [of _ 3])
qed

definition sample_sorted :: SafeTxBundle where
  "sample_sorted = sample_bundle\<lparr>signatures :=
     [\<lparr>sig_owner = sample_addr ''01'', signature = sample_sig ''01''\<rparr>, \<lparr>sig_owner = sample_addr ''03'', signature = sample_sig ''03''\<rparr>]\<rparr>"


theorem importSignatureBundle_sound_witness:
  "\<exists>b'. importSignatureBundle (sample_tool JNull) (sample_handle 7) (\<lambda>_. None) sample_bundle
       (SourceValue (bundle_js sample_sorted)) = Inr b'
     \<and> distinct (map owner_key (signatures b')) \<and> (\<forall>s \<in> set (signatures b'). tool_signed (sample_tool JNull) (sample_handle 7) sample_bundle s)"
proof -
  let ?x = "importSignatureBundle (sample_tool JNull) (sample_handle 7) (\<lambda>_. None) sample_bundle (SourceValue (bundle_js sample_sorted))"
  have "is_ok ?x" by code_simp
  then obtain b' where b': "?x = Inr b'" by (auto simp: is_ok_iff)
  have "signatures sample_bundle = []" by code_simp
  with importSignatureBundle_sound [OF b'] b' show ?thesis by auto
qed

theorem dapp_bundle_accepted_witness: "reverifyBundle (sample_tool (bundle_js sample_bundle)) (sample_handle 7) sample_bundle = Inr ()"
proof -
  let ?T = "sample_tool (bundle_js sample_bundle)"
  have p: "parseBundle (vm ?T) ''text'' = Inr sample_bundle" by code_simp
  have "is_ok (verifyBundleFields (vm ?T) sample_bundle)" by code_simp
  then obtain built where v: "verifyBundleFields (vm ?T) sample_bundle = Inr built" by (auto simp: is_ok_iff)
  have c: "chain_id sample_bundle = NInt (h_chainId (sample_handle 7))" "getAddress (vm ?T) (safe sample_bundle) = Some (h_address (sample_handle 7))"
    "nonce sample_bundle = NInt 7 \<and> h_nonce (sample_handle 7) 0 = Some 7" by code_simp+
  show ?thesis by (rule dapp_bundle_accepted [OF sample_tool_laws p v c(1,2) _ sample_kit]) (use c(3) in blast)
qed


definition sample_timelock :: timelock_chain where
  "sample_timelock =
     \<lparr>tl_code = (\<lambda>_. Some (Some ''0x6080'')), tl_minDelay = (\<lambda>_. Some 172800), tl_hasRole = (\<lambda>_ _ _. Some True),
      tl_hash = (\<lambda>_ _. Some (''0x'' @ replicate 64 (CHR ''5''))),
      tl_state = (\<lambda>_ _. Some \<lparr>os_exists = False, os_pending = False, os_ready = False, os_done = False, os_readyAt = 0\<rparr>)\<rparr>"

definition sample_update :: "int \<Rightarrow> UpdateDelayParams" where
  "sample_update d =
     \<lparr>ud_timelock = sample_addr ''bb'', ud_description = None, ud_newDelay = d, ud_phase = PSchedule, ud_salt = ''0x'' @ replicate 64 (CHR ''1''),
      ud_predecessor = None, ud_delay = None, ud_allowUnsafeDelay = True, ud_deploymentKind = None\<rparr>"

definition encoding_tool :: tool_viem where
  "encoding_tool = (sample_tool JNull)\<lparr>vm := sample_codec_safe\<lparr>encodeCall := \<lambda>fn as. Some (if fn = ''schedule'' then ''0x01d5062a'' else ''0x64d62353'')\<rparr>\<rparr>"

theorem updateDelay_bounded_witness:
  "\<exists>b. updateTimelockDelay encoding_tool (sample_handle 7) sample_timelock ''now'' (sample_update 259200) = Inr b \<and> to b = sample_addr ''bb''
     \<and> \<not> is_ok (updateTimelockDelay encoding_tool (sample_handle 7) sample_timelock ''now'' (sample_update 86400))"
proof -
  let ?x = "updateTimelockDelay encoding_tool (sample_handle 7) sample_timelock ''now'' (sample_update 259200)"
  have "is_ok ?x" by code_simp
  then obtain b where b: "?x = Inr b" by (auto simp: is_ok_iff)
  have laws: "strict_address_laws (vm encoding_tool)"
    using sample_codec_safe_laws by (simp add: encoding_tool_def strict_address_laws_def address_laws_def sample_codec_safe_def)
  have f: "ud_phase (sample_update 259200) = PSchedule" "getAddress (vm encoding_tool) (ud_timelock (sample_update 259200)) = Some (sample_addr ''bb'')"
    by code_simp+
  have "\<not> is_ok (updateTimelockDelay encoding_tool (sample_handle 7) sample_timelock ''now'' (sample_update 86400))"
  proof -
    have "h_chainId (sample_handle 7) = 8453" "ud_kind (sample_update 86400) = Production" "ud_newDelay (sample_update 86400) = 86400" by code_simp+
    then show ?thesis
      using updateDelay_bounded [OF laws, of "sample_handle 7" sample_timelock "''now''" "sample_update 86400"] by (force simp: is_ok_iff)
  qed
  with updateDelay_bounded [OF laws b] b f show ?thesis by auto
qed

end
