(* ===== verification/ControlProof.thy ===== *)
theory ControlProof
  imports SafeTool Stages
begin

text \<open>
  The Safe control proof (publish-contracts/src/control-proof.ts, prove-control.ts and the gate of
  runner.ts): before the timelock handover the Safe executes one call to itself that every owner signed.
  The theory holds the record and the gate, the read-back of the proof transaction, the scan of the Safe's
  execution events, and the step itself with its two outcomes: a proof taken now, or one that landed before
  the run died and is adopted from the chain.
\<close>

section \<open>The record and the gate (control-proof.ts)\<close>

record ControlProofRecord =
  cp_safe :: string
  cp_txHash :: string
  cp_safeTxHash :: string
  cp_nonce :: int
  cp_signers :: "string list"
  cp_block :: int
  cp_sentBy :: string
  cp_adopted :: bool

definition not_proven :: failure where "not_proven = PublishError CONTROL_NOT_PROVEN"

text \<open>The record as the run manifest keeps it, with the times of the stage.\<close>

definition record_js :: "ControlProofRecord \<Rightarrow> string \<Rightarrow> string \<Rightarrow> js" where
  "record_js r startedAt finishedAt =
     JObj ([(''status'', JStr ''done''), (''safe'', JStr (cp_safe r)), (''txHash'', JStr (cp_txHash r)), (''safeTxHash'', JStr (cp_safeTxHash r)),
            (''nonce'', JNum (cp_nonce r)), (''signers'', JArr (map JStr (cp_signers r))), (''block'', JNum (cp_block r)), (''sentBy'', JStr (cp_sentBy r))]
           @ (if cp_adopted r then [(''adopted'', JBool True)] else [])
           @ [(''startedAt'', JStr startedAt), (''finishedAt'', JStr finishedAt)])"

text \<open>
  \<open>assertControlProven\<close> reads an untyped record of the run manifest; the nonce is an integer read from the Safe.
  The mapped \<open>lc\<close> throws on a signer that is no string.
\<close>

definition assertControlProven :: "js \<Rightarrow> string \<Rightarrow> string list \<Rightarrow> int \<Rightarrow> failure + unit" where
  "assertControlProven rec sf os n =
     res_bind (ensure (truthy rec \<and> jget rec ''status'' = JStr ''done'' \<and> jstr (jget rec ''txHash'') \<noteq> None \<and> js_list (jget rec ''signers'') \<noteq> None) not_proven) (\<lambda>_.
     res_bind (ensure (map_option lc (jstr (jget rec ''safe'')) = Some (lc sf)) not_proven) (\<lambda>_.
     res_bind (map_res lc_js (the (js_list (jget rec ''signers'')))) (\<lambda>signed.
     res_bind (ensure (filter (\<lambda>x. lc x \<notin> set signed) os = []) not_proven) (\<lambda>_.
     ensure (n \<ge> 1) not_proven))))"

text \<open>
  \<open>controlProofGate\<close> of runner.ts, run before every forge stage: only the timelock stage is gated, and a dry run
  is not. \<open>safe\<close> is the field of the Safe manifest, \<open>connected\<close> the Safe as it connects now.
\<close>

definition controlProofGate ::
  "bool \<Rightarrow> string \<Rightarrow> (string \<Rightarrow> js) \<Rightarrow> failure + string \<Rightarrow> (string \<Rightarrow> failure + SafeHandle) \<Rightarrow> failure + unit" where
  "controlProofGate dryRun stage stages sf connect =
     (if stage \<noteq> ''timelock'' \<or> dryRun then Inr ()
      else res_bind sf (\<lambda>s.
           res_bind (connect s) (\<lambda>H.
           res_bind (of_option PlainError (h_nonce H 0)) (\<lambda>n.
           assertControlProven (stages PROOF_STAGE) s (h_owners H) n))))"

section \<open>Reading the proof transaction back\<close>

text \<open>A decoded \<open>execTransaction\<close>; the ABI fixes the types of its arguments.\<close>

record exec_call =
  ec_to :: string
  ec_value :: int
  ec_data :: string
  ec_operation :: int
  ec_safeTxGas :: int
  ec_baseGas :: int
  ec_gasPrice :: int
  ec_signatures :: string

record ProofTxRead =
  pt_to :: "string option"
  pt_input :: string
  pt_value :: int

datatype proof_problem =
  NotToSafe | CarriesValue | NotExecTransaction | OtherTarget | NotPlainCall | SignatureBytes | NotEoaSignature
  | RepeatedSigner | MissingOwner | StrangerSigned | HashFails

definition plain_call :: "exec_call \<Rightarrow> bool" where
  "plain_call c \<longleftrightarrow> ec_value c = 0 \<and> ec_data c = ''0x'' \<and> ec_operation c = 0 \<and> ec_safeTxGas c = 0 \<and> ec_baseGas c = 0 \<and> ec_gasPrice c = 0"

definition recover_all :: "tool_viem \<Rightarrow> string \<Rightarrow> string list \<Rightarrow> proof_problem + string list" where
  "recover_all T hash sigs =
     map_res (\<lambda>s. case recoverSafeSigner T hash s of Inl _ \<Rightarrow> Inl NotEoaSignature | Inr a \<Rightarrow> Inr (lc a)) sigs"

text \<open>\<open>decodeExec\<close> is viem's decoder for the one-function ABI. The hash throws only for a bad address.\<close>

definition inspectProofTx ::
  "tool_viem \<Rightarrow> (string \<Rightarrow> exec_call option) \<Rightarrow> int \<Rightarrow> string \<Rightarrow> string list \<Rightarrow> int \<Rightarrow> ProofTxRead \<Rightarrow> proof_problem + string" where
  "inspectProofTx T decodeExec chainId sf os n tx =
     res_bind (ensure (case pt_to tx of None \<Rightarrow> False | Some t \<Rightarrow> t \<noteq> [] \<and> lc t = lc sf) NotToSafe) (\<lambda>_.
     res_bind (ensure (pt_value tx = 0) CarriesValue) (\<lambda>_.
     res_bind (of_option NotExecTransaction (decodeExec (pt_input tx))) (\<lambda>c.
     res_bind (ensure (lc (ec_to c) = lc sf) OtherTarget) (\<lambda>_.
     res_bind (ensure (plain_call c) NotPlainCall) (\<lambda>_.
     let blob = drop 2 (ec_signatures c) in
     res_bind (ensure (\<not> (blob = [] \<or> length blob mod 130 \<noteq> 0)) SignatureBytes) (\<lambda>_.
     res_bind (case localSafeTxHash T chainId sf sf ''0x'' (NInt n) of Inl _ \<Rightarrow> Inl HashFails | Inr h \<Rightarrow> Inr h) (\<lambda>hash.
     res_bind (recover_all T hash (blob_claims blob)) (\<lambda>rs.
     let recovered = remdups rs in
     res_bind (ensure (length recovered = length blob div 130) RepeatedSigner) (\<lambda>_.
     res_bind (ensure (filter (\<lambda>x. lc x \<notin> set recovered) os = []) MissingOwner) (\<lambda>_.
     res_bind (ensure (filter (\<lambda>x. \<not> list_ex (\<lambda>o'. lc o' = x) os) recovered = []) StrangerSigned) (\<lambda>_.
     Inr hash)))))))))))"

lemma length_blob_claims: "length blob mod 130 = 0 \<Longrightarrow> length (blob_claims blob) = length blob div 130"
proof (induction blob rule: blob_claims.induct)
  case (1 blob)
  show ?case
  proof (cases "blob = []")
    case False
    with 1(2) have long: "130 \<le> length blob"
      by (intro dvd_imp_le) (auto simp: mod_eq_0_iff_dvd)
    then have "(length blob - 130) mod 130 = 0" using 1(2) by (simp add: le_mod_geq)
    with 1(1) [OF False] long show ?thesis
      by (subst blob_claims.simps) (simp add: False le_div_geq)
  qed (simp add: blob_claims.simps)
qed

lemma recover_all_Inr:
  "recover_all T hash sigs = Inr rs \<longleftrightarrow> list_all2 (\<lambda>s r. \<exists>a. recoverSafeSigner T hash s = Inr a \<and> r = lc a) sigs rs"
  unfolding recover_all_def map_res_Inr by (rule arg_cong [where f = "\<lambda>P. list_all2 P sigs rs"]) (auto split: sum.splits intro!: ext)

lemma filter_lc_covers: "filter (\<lambda>x. lc x \<notin> S) os = [] \<longleftrightarrow> lc ` set os \<subseteq> S"
  by (auto simp: filter_empty_conv)

lemma filter_lc_within: "filter (\<lambda>x. \<not> list_ex (\<lambda>o'. lc o' = x) os) rs = [] \<longleftrightarrow> set rs \<subseteq> lc ` set os"
  by (auto simp: filter_empty_conv list_ex_iff)

lemma repeat_free: "length (remdups rs) = length rs \<longleftrightarrow> distinct rs"
  by (metis distinct_remdups length_remdups_eq remdups_id_iff_distinct)

text \<open>
  The read-back accepts a proof transaction exactly when it is a plain call of the Safe to itself, with no
  value, data or gas fields, whose packed 65-byte signatures recover, over the EIP-712 hash of that call at
  the recorded nonce, to the owners: each owner once, and nobody else.
\<close>

theorem inspectProofTx_exact:
  "inspectProofTx T decodeExec chainId sf os n tx = Inr hash \<longleftrightarrow>
     (\<exists>t c rs. pt_to tx = Some t \<and> t \<noteq> [] \<and> lc t = lc sf \<and> pt_value tx = 0
        \<and> decodeExec (pt_input tx) = Some c \<and> lc (ec_to c) = lc sf \<and> plain_call c
        \<and> 2 < length (ec_signatures c) \<and> (length (ec_signatures c) - 2) mod 130 = 0
        \<and> localSafeTxHash T chainId sf sf ''0x'' (NInt n) = Inr hash
        \<and> list_all2 (\<lambda>s r. \<exists>a. recoverSafeSigner T hash s = Inr a \<and> r = lc a) (blob_claims (drop 2 (ec_signatures c))) rs
        \<and> distinct rs \<and> set rs = lc ` set os)"
proof -
  have len: "length (remdups rs) = (length sg - 2) div 130 \<longleftrightarrow> distinct rs"
    if "recover_all T h (blob_claims (drop 2 sg)) = Inr rs" "130 dvd length sg - 2" for h sg rs
  proof -
    have "length rs = (length sg - 2) div 130"
      using that length_blob_claims [of "drop 2 sg"] by (simp add: recover_all_Inr list_all2_lengthD [symmetric])
    then show ?thesis using repeat_free [of rs] by simp
  qed
  show ?thesis
    unfolding inspectProofTx_def Let_def res_bind_Inr ensure_Inr of_option_Inr filter_lc_covers filter_lc_within
    by (auto simp: len recover_all_Inr [symmetric] split: option.splits sum.splits)
qed

lemma inspectProofTx_hash:
  "inspectProofTx T decodeExec chainId sf os n tx = Inr hash \<Longrightarrow> localSafeTxHash T chainId sf sf ''0x'' (NInt n) = Inr hash"
  by (auto simp: inspectProofTx_def Let_def split: sum.splits)

section \<open>The Safe's execution events (prove-control.ts)\<close>

record SafeExecution =
  se_txHash :: string
  se_safeTxHash :: string
  se_success :: bool
  se_block :: int
  se_logIndex :: int

definition LOG_WINDOW :: int where "LOG_WINDOW = 2000"
definition MAX_LOG_WINDOWS :: nat where "MAX_LOG_WINDOWS = 2000"
definition MAX_SCAN_BLOCKS :: int where "MAX_SCAN_BLOCKS = LOG_WINDOW * int MAX_LOG_WINDOWS"
definition LOG_TRIES :: int where "LOG_TRIES = 6"

text \<open>
  One \<open>eth_getLogs\<close> call answers with log entries or fails; \<open>failureKind\<close> sorts the failures. The k-th call of a
  scan may answer differently from the others.
\<close>

datatype failureKind = Throttled | RangeLimit | OtherFailure

record log_entry =
  le_txHash :: "string option"
  le_block :: "int option"
  le_logIndex :: "int option"
  le_removed :: bool
  le_safeTxHash :: string
  le_success :: bool

record log_rpc =
  lr_latest :: "int option"
  lr_getLogs :: "nat \<Rightarrow> int \<Rightarrow> int \<Rightarrow> failureKind + log_entry list"
  lr_window :: "int option"
  lr_tries :: "int option"

definition execution_of :: "log_entry \<Rightarrow> SafeExecution list" where
  "execution_of l =
     (case (le_txHash l, le_block l, le_logIndex l, le_removed l) of
        (Some t, Some b, Some i, False) \<Rightarrow>
          [\<lparr>se_txHash = t, se_safeTxHash = le_safeTxHash l, se_success = le_success l, se_block = b, se_logIndex = i\<rparr>]
      | _ \<Rightarrow> [])"

definition by_position :: "SafeExecution list \<Rightarrow> SafeExecution list" where
  "by_position es = sort_key se_block (sort_key se_logIndex es)"

text \<open>The tries of one call: the entries, or \<^const>\<open>None\<close> when the window is to shrink; and the number of calls made so far.\<close>

fun get_logs :: "log_rpc \<Rightarrow> int \<Rightarrow> int \<Rightarrow> int \<Rightarrow> nat \<Rightarrow> nat \<Rightarrow> failure + (log_entry list option \<times> nat)" where
  "get_logs w sz a b 0 k = Inl (PublishError RPC_REFUSED)"
| "get_logs w sz a b (Suc n) k =
     (case lr_getLogs w k a b of
        Inr logs \<Rightarrow> Inr (Some logs, Suc k)
      | Inl kind \<Rightarrow>
          if kind = RangeLimit \<and> sz > 1 then Inr (None, Suc k)
          else if kind \<noteq> Throttled then Inl (PublishError RPC_REFUSED)
          else get_logs w sz a b n (Suc k))"

text \<open>The windows from block \<open>a\<close>; at most \<open>m\<close> more of them.\<close>

fun scan_windows :: "log_rpc \<Rightarrow> int \<Rightarrow> nat \<Rightarrow> nat \<Rightarrow> int \<Rightarrow> int \<Rightarrow> nat \<Rightarrow> failure + SafeExecution list" where
  "scan_windows w latest tries 0 sz a k = (if a > latest then Inr [] else Inl (PublishError SAFE))"
| "scan_windows w latest tries (Suc m) sz a k =
     (if a > latest then Inr []
      else let b = (if a + sz - 1 < latest then a + sz - 1 else latest) in
           res_bind (get_logs w sz a b tries k) (\<lambda>(answer, k').
             case answer of
               None \<Rightarrow> scan_windows w latest tries m (if (b - a + 1) div 2 > 0 then (b - a + 1) div 2 else 1) a k'
             | Some logs \<Rightarrow>
                 let out = concat (map execution_of logs) in
                 if out \<noteq> [] then Inr (by_position out) else scan_windows w latest tries m sz (b + 1) k'))"

definition executions :: "log_rpc \<Rightarrow> int \<Rightarrow> failure + SafeExecution list" where
  "executions w fromBlock =
     res_bind (of_option (PublishError RPC_REFUSED) (lr_latest w)) (\<lambda>latest.
     if fromBlock > latest then Inr []
     else if latest - fromBlock > MAX_SCAN_BLOCKS then Inl (PublishError SAFE)
     else let window0 = (case lr_window w of None \<Rightarrow> LOG_WINDOW | Some n \<Rightarrow> n);
              tries = max 1 (case lr_tries w of None \<Rightarrow> LOG_TRIES | Some n \<Rightarrow> n) in
          scan_windows w latest (nat tries) MAX_LOG_WINDOWS (if window0 > 0 then window0 else LOG_WINDOW) fromBlock 0)"

text \<open>
  An endpoint is honest about the Safe's executions \<open>evs\<close> when every answered call gives the ones of its range,
  and none is above the latest block. It may throttle, limit the range or fail as it likes.
\<close>

definition honest_logs :: "log_rpc \<Rightarrow> SafeExecution list \<Rightarrow> bool" where
  "honest_logs w evs \<longleftrightarrow>
     (\<forall>k a b logs. lr_getLogs w k a b = Inr logs \<longrightarrow> concat (map execution_of logs) = filter (\<lambda>e. a \<le> se_block e \<and> se_block e \<le> b) evs)
     \<and> (\<forall>latest. lr_latest w = Some latest \<longrightarrow> (\<forall>e \<in> set evs. se_block e \<le> latest))"

lemma get_logs_answer:
  "get_logs w sz a b n k = Inr (Some logs, k') \<Longrightarrow> \<exists>j. lr_getLogs w j a b = Inr logs"
  by (induction w sz a b n k rule: get_logs.induct) (auto split: sum.splits if_splits)

lemma by_position_set [simp]: "set (by_position es) = set es"
  by (simp add: by_position_def)

lemma by_position_nil [simp]: "by_position es = [] \<longleftrightarrow> es = []"
  by (metis by_position_set set_empty)

lemma by_position_Nil [simp]: "by_position [] = []"
  by (simp add: by_position_def)

lemma scan_windows_sound:
  assumes "honest_logs w evs"
  shows "scan_windows w latest tries m sz a k = Inr out \<Longrightarrow> sz \<ge> 1 \<Longrightarrow>
    \<exists>b. out = by_position (filter (\<lambda>e. a \<le> se_block e \<and> se_block e \<le> b) evs) \<and> (out = [] \<longrightarrow> latest \<le> b)"
proof (induction m arbitrary: sz a k)
  case 0
  then show ?case by (auto split: if_splits intro!: exI [of _ "a - 1"] simp: filter_empty_conv)
next
  case (Suc m)
  show ?case
  proof (cases "a > latest")
    case True
    with Suc.prems show ?thesis by (auto intro!: exI [of _ "a - 1"] simp: filter_empty_conv)
  next
    case False
    define b where "b = (if a + sz - 1 < latest then a + sz - 1 else latest)"
    from False Suc.prems obtain answer k' where got: "get_logs w sz a b tries k = Inr (answer, k')"
      and rest: "(case answer of
               None \<Rightarrow> scan_windows w latest tries m (if (b - a + 1) div 2 > 0 then (b - a + 1) div 2 else 1) a k'
             | Some logs \<Rightarrow>
                 let out = concat (map execution_of logs) in
                 if out \<noteq> [] then Inr (by_position out) else scan_windows w latest tries m sz (b + 1) k') = Inr out"
      by (auto simp: b_def [symmetric] Let_def)
    show ?thesis
    proof (cases answer)
      case None
      with rest Suc.IH show ?thesis by (auto split: if_splits)
    next
      case (Some logs)
      then obtain j where "lr_getLogs w j a b = Inr logs" using get_logs_answer got by blast
      with assms have logs: "concat (map execution_of logs) = filter (\<lambda>e. a \<le> se_block e \<and> se_block e \<le> b) evs"
        by (simp add: honest_logs_def)
      show ?thesis
      proof (cases "concat (map execution_of logs) = []")
        case False
        then have "out = by_position (concat (map execution_of logs))" using rest Some by simp
        with False show ?thesis unfolding logs by (intro exI [of _ b]) simp
      next
        case True
        then have none: "\<forall>e \<in> set evs. \<not> (a \<le> se_block e \<and> se_block e \<le> b)" unfolding logs by (simp add: filter_empty_conv)
        from True rest Some Suc.IH [of sz "b + 1" k'] Suc.prems(2) obtain c
          where c: "out = by_position (filter (\<lambda>e. b + 1 \<le> se_block e \<and> se_block e \<le> c) evs)" "out = [] \<longrightarrow> latest \<le> c" by auto
        have "a \<le> b + 1" using False Suc.prems(2) by (auto simp: b_def)
        then have "filter (\<lambda>e. b + 1 \<le> se_block e \<and> se_block e \<le> c) evs = filter (\<lambda>e. a \<le> se_block e \<and> se_block e \<le> c) evs"
          using none by (intro filter_cong) force+
        with c show ?thesis by auto
      qed
    qed
  qed
qed

text \<open>
  What the adoption of a landed proof needs of a reader of execution events: an answer is the events of the
  blocks up to some bound, and it is empty only when there is no event at all.
\<close>

locale execution_reader =
  fixes honest :: "'w \<Rightarrow> SafeExecution list \<Rightarrow> bool"
    and reader :: "'w \<Rightarrow> int \<Rightarrow> failure + SafeExecution list"
  assumes read_prefix: "\<lbrakk>honest w evs; reader w a = Inr out\<rbrakk> \<Longrightarrow> \<exists>b. out = by_position (filter (\<lambda>e. a \<le> se_block e \<and> se_block e \<le> b) evs)"
    and read_none: "\<lbrakk>honest w evs; reader w a = Inr []; e \<in> set evs\<rbrakk> \<Longrightarrow> se_block e < a"
begin

lemma found_real: "\<lbrakk>honest w evs; reader w a = Inr out; e \<in> set out\<rbrakk> \<Longrightarrow> e \<in> set evs \<and> a \<le> se_block e"
  using read_prefix by fastforce

lemma sole_execution:
  assumes "honest w [ev]" and "a \<le> se_block ev" and "reader w a = Inr out"
  shows "out = [ev]"
proof -
  have "out \<noteq> []" using read_none [of w "[ev]" a ev] assms by auto
  moreover obtain b where "out = by_position (filter (\<lambda>e. a \<le> se_block e \<and> se_block e \<le> b) [ev])"
    using read_prefix [OF assms(1,3)] by blast
  ultimately show ?thesis by (auto simp: by_position_def split: if_splits)
qed

end

interpretation log_scan: execution_reader honest_logs executions
proof
  fix w evs a out
  assume honest: "honest_logs w evs" and read: "executions w a = Inr out"
  from read obtain latest where latest: "lr_latest w = Some latest" by (auto simp: executions_def)
  have "\<exists>b. out = by_position (filter (\<lambda>e. a \<le> se_block e \<and> se_block e \<le> b) evs) \<and> (out = [] \<longrightarrow> latest \<le> b)"
  proof (cases "a > latest")
    case True
    with read latest have "out = []" by (simp add: executions_def)
    with True show ?thesis by (intro exI [of _ "a - 1"]) (auto simp: filter_empty_conv)
  next
    case False
    with read latest show ?thesis
      by (auto simp: executions_def Let_def LOG_WINDOW_def split: if_splits option.splits elim!: scan_windows_sound [OF honest])
  qed
  then obtain b where b: "out = by_position (filter (\<lambda>e. a \<le> se_block e \<and> se_block e \<le> b) evs)" "out = [] \<longrightarrow> latest \<le> b" by blast
  then show "\<exists>b. out = by_position (filter (\<lambda>e. a \<le> se_block e \<and> se_block e \<le> b) evs)" by blast
  fix e assume "executions w a = Inr []" "e \<in> set evs"
  with read b have out: "out = []" "latest \<le> b" by auto
  then have "filter (\<lambda>e. a \<le> se_block e \<and> se_block e \<le> b) evs = []" using b(1) by (metis by_position_nil)
  moreover have "se_block e \<le> latest" using honest latest \<open>e \<in> set evs\<close> by (simp add: honest_logs_def)
  ultimately show "se_block e < a" using out(2) \<open>e \<in> set evs\<close> by (auto simp: filter_empty_conv not_less)
qed

lemma get_logs_total:
  assumes "j < n" and "lr_getLogs w (k + j) a b = Inr logs" and "\<forall>i < j. lr_getLogs w (k + i) a b = Inl Throttled"
  shows "get_logs w sz a b n k = Inr (Some logs, Suc (k + j))"
  using assms
proof (induction n arbitrary: j k)
  case (Suc n)
  show ?case
  proof (cases j)
    case 0
    with Suc.prems show ?thesis by simp
  next
    case (Suc j')
    have "lr_getLogs w k a b = Inl Throttled" using Suc.prems(3) Suc by force
    moreover have "get_logs w sz a b n (Suc k) = Inr (Some logs, Suc (Suc k + j'))"
    proof (rule Suc.IH)
      show "\<forall>i<j'. lr_getLogs w (Suc k + i) a b = Inl Throttled" using Suc.prems(3) Suc by (metis Suc_less_eq add_Suc_shift)
    qed (use Suc Suc.prems in auto)
    ultimately show ?thesis using Suc by simp
  qed
qed simp

text \<open>An endpoint that answers every call within the tries, throttling it at most before that.\<close>

definition answers_within :: "log_rpc \<Rightarrow> nat \<Rightarrow> bool" where
  "answers_within w n \<longleftrightarrow>
     (\<forall>k a b. \<exists>j < n. (\<exists>logs. lr_getLogs w (k + j) a b = Inr logs) \<and> (\<forall>i < j. lr_getLogs w (k + i) a b = Inl Throttled))"

lemma scan_windows_total:
  assumes "answers_within w tries" and "sz \<ge> 1"
  shows "latest - a < sz * int m \<Longrightarrow> \<exists>out. scan_windows w latest tries m sz a k = Inr out"
proof (induction m arbitrary: a k)
  case (Suc m)
  show ?case
  proof (cases "a > latest")
    case False
    define b where "b = (if a + sz - 1 < latest then a + sz - 1 else latest)"
    from assms(1) obtain j logs where "j < tries" "lr_getLogs w (k + j) a b = Inr logs" "\<forall>i < j. lr_getLogs w (k + i) a b = Inl Throttled"
      unfolding answers_within_def by blast
    then have got: "get_logs w sz a b tries k = Inr (Some logs, Suc (k + j))" by (rule get_logs_total)
    have "latest - (b + 1) < sz * int m \<or> b + 1 > latest" using Suc.prems by (auto simp: b_def algebra_simps)
    moreover have "0 \<le> sz * int m" using assms(2) by simp
    ultimately have "latest - (b + 1) < sz * int m" by linarith
    with Suc.IH False got show ?thesis by (auto simp: b_def [symmetric] Let_def)
  qed simp
qed (use assms in auto)


section \<open>The step (prove-control.ts)\<close>

record LandedTx =
  lt_from :: string
  lt_to :: "string option"
  lt_input :: string
  lt_value :: int
  lt_success :: bool
  lt_block :: int

text \<open>
  What a run gives the step: the sheet and the core sha, the Safe of the run's manifests and how it connects,
  the operator's confirmation, the endpoint of the event scan (which may answer two scans differently), the
  reads of a landed transaction, and the three places a block of the Safe stage is recorded.
\<close>

record prove_ctx =
  px_chainId :: int
  px_resume :: bool
  px_sheetOwners :: "string list"
  px_coreSha :: string
  px_safe :: "failure + string"
  px_connect :: "string \<Rightarrow> failure + SafeHandle"
  px_confirm :: "failure + unit"
  px_logs :: "nat \<Rightarrow> log_rpc"
  px_transaction :: "string \<Rightarrow> failure + LandedTx option"
  px_decodeExec :: "string \<Rightarrow> exec_call option"
  px_blocks :: "js list"
  px_tries :: "nat option"
  px_startedAt :: string
  px_proposedAt :: string
  px_finishedAt :: string

text \<open>The Safe as it is read after \<open>k\<close> nonce reads.\<close>

definition later :: "nat \<Rightarrow> SafeHandle \<Rightarrow> SafeHandle" where
  "later k H = H\<lparr>h_nonce := (\<lambda>i. h_nonce H (i + k))\<rparr>"

fun safeStageBlockOrNull :: "js list \<Rightarrow> int option" where
  "safeStageBlockOrNull [] = None"
| "safeStageBlockOrNull (v # vs) =
     (case v of JNum n \<Rightarrow> if n \<ge> 0 then Some n else safeStageBlockOrNull vs | _ \<Rightarrow> safeStageBlockOrNull vs)"

definition assertEveryOwnerSigned :: "tool_viem \<Rightarrow> string list \<Rightarrow> SafeTxBundle \<Rightarrow> failure + unit" where
  "assertEveryOwnerSigned T os b =
     res_bind (each_res (\<lambda>o'.
       case find (\<lambda>x. lc (sig_owner x) = lc o') (signatures b) of
         None \<Rightarrow> Inl not_proven
       | Some s \<Rightarrow> ensure (verifySafeSignature T (safe_tx_hash b) o' (signature s)) not_proven) os) (\<lambda>_.
     ensure (filter (\<lambda>s. \<not> list_ex (\<lambda>o'. lc o' = lc (sig_owner s)) os) (signatures b) = []) not_proven)"

definition adopted_record :: "string \<Rightarrow> string list \<Rightarrow> string \<Rightarrow> SafeExecution \<Rightarrow> LandedTx \<Rightarrow> ControlProofRecord" where
  "adopted_record sf os hash ev tx =
     \<lparr>cp_safe = sf, cp_txHash = se_txHash ev, cp_safeTxHash = hash, cp_nonce = 0, cp_signers = sort (map lc os),
      cp_block = lt_block tx, cp_sentBy = lt_from tx, cp_adopted = True\<rparr>"

definition adoptLandedProof :: "tool_viem \<Rightarrow> prove_ctx \<Rightarrow> SafeHandle \<Rightarrow> string \<Rightarrow> int \<Rightarrow> failure + ControlProofRecord" where
  "adoptLandedProof T ctx H sf n =
     res_bind (ensure (n = 1) not_proven) (\<lambda>_.
     res_bind (of_option not_proven (safeStageBlockOrNull (px_blocks ctx))) (\<lambda>a.
     res_bind (executions (px_logs ctx 1) a) (\<lambda>found.
     case found of
       [ev] \<Rightarrow>
         res_bind (ensure (se_success ev) not_proven) (\<lambda>_.
         res_bind (localSafeTxHash T (px_chainId ctx) sf sf ''0x'' (NInt 0)) (\<lambda>wanted.
         res_bind (ensure (lc (se_safeTxHash ev) = lc wanted) not_proven) (\<lambda>_.
         res_bind (px_transaction ctx (se_txHash ev)) (\<lambda>got.
         res_bind (of_option not_proven got) (\<lambda>tx.
         res_bind (ensure (lt_success tx) not_proven) (\<lambda>_.
         res_bind (ensure (is_ok (inspectProofTx T (px_decodeExec ctx) (px_chainId ctx) sf (h_owners H) 0
             \<lparr>pt_to = lt_to tx, pt_input = lt_input tx, pt_value = lt_value tx\<rparr>)) not_proven) (\<lambda>_.
         Inr (adopted_record sf (h_owners H) wanted ev tx))))))))
     | _ \<Rightarrow> Inl not_proven)))"

text \<open>The signers by the address they answer with; two of the same address are refused.\<close>

fun signers_by_owner :: "Signer list \<Rightarrow> (string \<times> Signer) list \<Rightarrow> failure + (string \<times> Signer) list" where
  "signers_by_owner [] acc = Inr acc"
| "signers_by_owner (s # ss) acc =
     res_bind (of_option PlainError (sg_address s)) (\<lambda>a0.
     let a = lc a0 in
     if map_of acc a \<noteq> None then Inl not_proven else signers_by_owner ss (acc @ [(a, s)]))"

definition plain_sign :: SignOpts where
  "plain_sign = \<lparr>so_mode = None, so_allowNonOwner = False, so_skipChainChecks = False\<rparr>"

fun sign_all :: "tool_viem \<Rightarrow> SafeHandle \<Rightarrow> nat \<Rightarrow> (string \<times> Signer) list \<Rightarrow> string list \<Rightarrow> SafeTxBundle \<Rightarrow> failure + SafeTxBundle" where
  "sign_all T H k byOwner [] b = Inr b"
| "sign_all T H k byOwner (o' # os) b =
     res_bind (signTx T (later k H) b (the (map_of byOwner (lc o'))) plain_sign) (sign_all T H (Suc k) byOwner os)"

text \<open>The nonce the step goes by: on a resume, a nonce of zero is read again when the Safe has executed something.\<close>

definition proof_nonce :: "prove_ctx \<Rightarrow> SafeHandle \<Rightarrow> failure + int" where
  "proof_nonce ctx H =
     res_bind (of_option PlainError (h_nonce H 0)) (\<lambda>n.
     if n = 0 \<and> px_resume ctx then
       (case safeStageBlockOrNull (px_blocks ctx) of
          None \<Rightarrow> Inr n
        | Some a \<Rightarrow> res_bind (executions (px_logs ctx 0) a) (\<lambda>found.
            if found = [] then Inr n
            else readAfterWrite (\<lambda>k. h_nonce H (Suc k)) (\<lambda>v. if v = 0 then Stale else Fresh) (px_tries ctx)))
     else Inr n)"

definition proof_proposal :: "prove_ctx \<Rightarrow> string \<Rightarrow> ProposeOpts" where
  "proof_proposal ctx sf =
     \<lparr>po_to = sf, po_data = ''0x'', po_action = Some PROOF_STAGE,
      po_description = Some (''Control proof: the Safe calls itself with value 0 and empty data, signed by every owner ('' @ px_coreSha ctx @ '')''),
      po_timelock = None, po_operationId = None, po_minDelay = None\<rparr>"

text \<open>The proof transaction, proposed, signed by every owner and checked; nothing is sent yet.\<close>

definition signed_proof :: "tool_viem \<Rightarrow> prove_ctx \<Rightarrow> SafeHandle \<Rightarrow> string \<Rightarrow> Signer list \<Rightarrow> failure + SafeTxBundle" where
  "signed_proof T ctx H sf ownerSigners =
     res_bind (signers_by_owner ownerSigners []) (\<lambda>byOwner.
     res_bind (ensure (filter (\<lambda>x. map_of byOwner (lc x) = None) (h_owners H) = []) not_proven) (\<lambda>_.
     res_bind (px_confirm ctx) (\<lambda>_.
     res_bind (proposeTx T (later 1 H) (px_proposedAt ctx) (proof_proposal ctx sf)) (\<lambda>b0.
     res_bind (sign_all T H 2 byOwner (h_owners H) b0) (\<lambda>b.
     res_bind (assertEveryOwnerSigned T (h_owners H) b) (\<lambda>_.
     res_bind (case checkSignaturesOnChain H b (signatures b) (Some (int (length (h_owners H)))) of Inl _ \<Rightarrow> Inl not_proven | Inr _ \<Rightarrow> Inr ()) (\<lambda>_.
     Inr b)))))))"

datatype prove_outcome = Adopted ControlProofRecord | Ready string SafeHandle SafeTxBundle int

definition prepare_proof :: "tool_viem \<Rightarrow> prove_ctx \<Rightarrow> Signer list \<Rightarrow> failure + prove_outcome" where
  "prepare_proof T ctx ownerSigners =
     res_bind (px_safe ctx) (\<lambda>sf.
     res_bind (px_connect ctx sf) (\<lambda>H.
     res_bind (ensure (join '','' (sort (map lc (h_owners H))) = join '','' (sort (map lc (px_sheetOwners ctx)))) not_proven) (\<lambda>_.
     res_bind (proof_nonce ctx H) (\<lambda>n.
     if n \<noteq> 0 then
       (if \<not> px_resume ctx then Inl not_proven
        else res_bind (adoptLandedProof T ctx H sf n) (\<lambda>r. Inr (Adopted r)))
     else res_bind (signed_proof T ctx H sf ownerSigners) (\<lambda>b. Inr (Ready sf H b n))))))"

text \<open>The transactions sent on the way, and the record with the stages of the run manifest, or the error.\<close>

definition runProveControl ::
  "tool_viem \<Rightarrow> prove_ctx \<Rightarrow> string \<Rightarrow> (string \<Rightarrow> js) \<Rightarrow> Signer list \<Rightarrow> Sender
     \<Rightarrow> (string \<times> string) list \<times> (failure + ControlProofRecord \<times> (string \<Rightarrow> js))" where
  "runProveControl T ctx row stages ownerSigners sender =
     (let recorded = (\<lambda>r. (r, stages(row := record_js r (px_startedAt ctx) (px_finishedAt ctx)))) in
      case prepare_proof T ctx ownerSigners of
        Inl e \<Rightarrow> ([], Inl e)
      | Inr (Adopted r) \<Rightarrow> ([], Inr (recorded r))
      | Inr (Ready sf H b n) \<Rightarrow>
          (let (sent, res) = executeTx T (later (length (h_owners H) + 2) H) b sender
                 \<lparr>eo_localChecks = True, eo_dryRun = False, eo_tries = None, eo_allSignatures = True\<rparr> in
           (sent, res_bind res (\<lambda>x.
              case (er_txHash x, er_block x) of
                (Some tx, Some block) \<Rightarrow>
                  if tx = [] then Inl (PublishError SAFE)
                  else Inr (recorded \<lparr>cp_safe = sf, cp_txHash = tx, cp_safeTxHash = safe_tx_hash b, cp_nonce = n,
                         cp_signers = sort (map lc (h_owners H)), cp_block = block, cp_sentBy = er_sentBy x, cp_adopted = False\<rparr>)
              | _ \<Rightarrow> Inl (PublishError SAFE)))))"

subsection \<open>What the step leaves behind\<close>

lemma later_simps [simp]:
  "h_owners (later k H) = h_owners H" "h_address (later k H) = h_address H" "h_chainId (later k H) = h_chainId H"
  "h_nonce (later k H) i = h_nonce H (i + k)"
  by (simp_all add: later_def)

lemma signTx_adds: "signTx T H b sg opts = Inr b' \<Longrightarrow> \<exists>s. b' = bundle_addSignature b s"
  by (auto simp: signTx_def Let_def)

lemma sign_all_keeps: "sign_all T H k byOwner os b = Inr b' \<Longrightarrow> \<exists>ss. b' = b\<lparr>signatures := ss\<rparr>"
proof (induction os arbitrary: k b)
  case Nil
  then show ?case by (auto intro: exI [of _ "signatures b"])
next
  case (Cons o' os)
  then obtain b1 where "signTx T (later k H) b (the (map_of byOwner (lc o'))) plain_sign = Inr b1"
    and rest: "sign_all T H (Suc k) byOwner os b1 = Inr b'" by auto
  then obtain s where "b1 = bundle_addSignature b s" using signTx_adds by blast
  with Cons.IH [OF rest] show ?case by (auto simp: bundle_addSignature_def)
qed

lemma proposal_hash:
  assumes "proposeTx T (later 1 H) now (proof_proposal ctx sf) = Inr b"
  obtains n t hash where "h_nonce H 1 = Some n" "getAddress (vm T) sf = Some t" "to b = t" "data b = ''0x''" "nonce b = NInt n"
    "localSafeTxHash T (h_chainId H) (h_address H) t ''0x'' (NInt n) = Inr hash" "lc (safe_tx_hash b) = lc hash"
  using assms by (auto simp: proposeTx_def proof_proposal_def truthy_str_def safeTxHashOf_def)

lemma assertEveryOwnerSigned_Inr:
  assumes "assertEveryOwnerSigned T os b = Inr ()"
  shows "\<forall>o' \<in> set os. \<exists>s \<in> set (signatures b). lc (sig_owner s) = lc o' \<and> verifySafeSignature T (safe_tx_hash b) o' (signature s)"
    and "\<forall>s \<in> set (signatures b). lc (sig_owner s) \<in> lc ` set os"
proof -
  from assms have each: "\<forall>o' \<in> set os. (case find (\<lambda>x. lc (sig_owner x) = lc o') (signatures b) of
         None \<Rightarrow> Inl not_proven
       | Some s \<Rightarrow> ensure (verifySafeSignature T (safe_tx_hash b) o' (signature s)) not_proven) = Inr ()"
    by (auto simp: assertEveryOwnerSigned_def)
  show "\<forall>o' \<in> set os. \<exists>s \<in> set (signatures b). lc (sig_owner s) = lc o' \<and> verifySafeSignature T (safe_tx_hash b) o' (signature s)"
  proof
    fix o' assume "o' \<in> set os"
    with each obtain s where "find (\<lambda>x. lc (sig_owner x) = lc o') (signatures b) = Some s"
      and "verifySafeSignature T (safe_tx_hash b) o' (signature s)" by (fastforce split: option.splits)
    then show "\<exists>s \<in> set (signatures b). lc (sig_owner s) = lc o' \<and> verifySafeSignature T (safe_tx_hash b) o' (signature s)"
      by (auto simp: find_Some_iff)
  qed
  from assms have "\<forall>s \<in> set (signatures b). \<exists>o' \<in> set os. lc o' = lc (sig_owner s)"
    by (auto simp: assertEveryOwnerSigned_def filter_empty_conv list_ex_iff)
  then show "\<forall>s \<in> set (signatures b). lc (sig_owner s) \<in> lc ` set os" by (metis imageI)
qed

lemma record_js_get [simp]:
  "jget (record_js r s f) ''status'' = JStr ''done''" "jget (record_js r s f) ''safe'' = JStr (cp_safe r)"
  "jget (record_js r s f) ''txHash'' = JStr (cp_txHash r)" "jget (record_js r s f) ''signers'' = JArr (map JStr (cp_signers r))"
  "truthy (record_js r s f)"
  by (simp_all add: record_js_def jget_def truthy_def)

lemma map_lc_js [simp]: "map_res lc_js (map JStr xs) = Inr (map lc xs)"
  by (induction xs) (auto simp: lc_js_def)

lemma recorded_opens_gate:
  assumes "stages = stages0(PROOF_STAGE := record_js r s f)" and "cp_safe r = sf" and "cp_signers r = sort (map lc os)"
    and "lc ` set (h_owners H) \<subseteq> lc ` set os" and "h_nonce H 0 = Some n" and "n \<ge> 1"
  shows "controlProofGate False ''timelock'' stages (Inr sf) (\<lambda>_. Inr H) = Inr ()"
proof -
  have "set (map lc (cp_signers r)) = lc ` set os" by (simp add: assms(3) image_image)
  with assms(4) have "filter (\<lambda>x. lc x \<notin> set (map lc (cp_signers r))) (h_owners H) = []" by (auto simp: filter_empty_conv)
  with assms show ?thesis by (simp add: controlProofGate_def assertControlProven_def jstr_def js_list_def)
qed

lemma signed_proof_checked:
  assumes "signed_proof T ctx H sf signers = Inr b"
  obtains n t hash where "h_nonce H 1 = Some n" "getAddress (vm T) sf = Some t" "to b = t" "data b = ''0x''" "nonce b = NInt n"
    "localSafeTxHash T (h_chainId H) (h_address H) t ''0x'' (NInt n) = Inr hash" "lc (safe_tx_hash b) = lc hash"
    "\<forall>o' \<in> set (h_owners H). \<exists>s \<in> set (signatures b). lc (sig_owner s) = lc o' \<and> verifySafeSignature T (safe_tx_hash b) o' (signature s)"
    "\<forall>s \<in> set (signatures b). lc (sig_owner s) \<in> lc ` set (h_owners H)"
proof -
  from assms obtain byOwner b0 where b0: "proposeTx T (later 1 H) (px_proposedAt ctx) (proof_proposal ctx sf) = Inr b0"
    and signed: "sign_all T H 2 byOwner (h_owners H) b0 = Inr b" and every: "assertEveryOwnerSigned T (h_owners H) b = Inr ()"
    by (auto simp: signed_proof_def)
  obtain ss where b: "b = b0\<lparr>signatures := ss\<rparr>" using sign_all_keeps [OF signed] by blast
  show thesis
    using proposal_hash [OF b0] assertEveryOwnerSigned_Inr [OF every] that by (auto simp: b)
qed

lemma adoptLandedProof_checked:
  assumes "adoptLandedProof T ctx H sf n = Inr r"
  obtains a ev tx where "n = 1" "safeStageBlockOrNull (px_blocks ctx) = Some a" "executions (px_logs ctx 1) a = Inr [ev]" "se_success ev"
    "lc (se_safeTxHash ev) = lc (cp_safeTxHash r)" "px_transaction ctx (se_txHash ev) = Inr (Some tx)" "lt_success tx"
    "inspectProofTx T (px_decodeExec ctx) (px_chainId ctx) sf (h_owners H) 0 \<lparr>pt_to = lt_to tx, pt_input = lt_input tx, pt_value = lt_value tx\<rparr>
       = Inr (cp_safeTxHash r)"
    "r = adopted_record sf (h_owners H) (cp_safeTxHash r) ev tx"
proof -
  from assms obtain found where found: "executions (px_logs ctx 1) (the (safeStageBlockOrNull (px_blocks ctx))) = Inr found"
    by (auto simp: adoptLandedProof_def)
  obtain ev where "found = [ev]"
  proof (cases found)
    case Nil
    with assms found show thesis by (auto simp: adoptLandedProof_def)
  next
    case (Cons e es)
    with assms found that show thesis by (cases es) (auto simp: adoptLandedProof_def)
  qed
  with assms found obtain a tx h wanted where got: "n = 1" "safeStageBlockOrNull (px_blocks ctx) = Some a" "executions (px_logs ctx 1) a = Inr [ev]" "se_success ev"
    "localSafeTxHash T (px_chainId ctx) sf sf ''0x'' (NInt 0) = Inr wanted" "lc (se_safeTxHash ev) = lc wanted"
    "px_transaction ctx (se_txHash ev) = Inr (Some tx)" "lt_success tx"
    "inspectProofTx T (px_decodeExec ctx) (px_chainId ctx) sf (h_owners H) 0 \<lparr>pt_to = lt_to tx, pt_input = lt_input tx, pt_value = lt_value tx\<rparr> = Inr h"
    "r = adopted_record sf (h_owners H) wanted ev tx"
    by (auto simp: adoptLandedProof_def is_ok_iff)
  then have "h = wanted" using inspectProofTx_hash by fastforce
  with got show thesis by (intro that) (auto simp: adopted_record_def)
qed

lemma executeTx_done:
  assumes "executeTx T H b se opts = (sent, Inr x)" and "\<not> eo_dryRun opts"
  shows "\<exists>calldata. sent = [(h_address H, calldata)]" "\<exists>tx. er_txHash x = Some tx \<and> map_option fst (sn_receipt se tx) = Some True"
  using assms by (auto simp: executeTx_def after_send_def split: sum.splits prod.splits option.splits)

lemma runProveControl_cases:
  assumes "runProveControl T ctx row stages signers sender = (sent, Inr (r, stages'))"
  obtains sf H where "px_safe ctx = Inr sf" "px_connect ctx sf = Inr H" "px_resume ctx" "cp_adopted r" "sent = []"
      "adoptLandedProof T ctx H sf 1 = Inr r" "stages' = stages(row := record_js r (px_startedAt ctx) (px_finishedAt ctx))"
  | sf H b calldata where "px_safe ctx = Inr sf" "px_connect ctx sf = Inr H" "\<not> cp_adopted r" "sent = [(h_address H, calldata)]"
      "signed_proof T ctx H sf signers = Inr b" "cp_safe r = sf" "cp_safeTxHash r = safe_tx_hash b" "cp_signers r = sort (map lc (h_owners H))"
      "map_option fst (sn_receipt sender (cp_txHash r)) = Some True"
      "stages' = stages(row := record_js r (px_startedAt ctx) (px_finishedAt ctx))"
proof -
  from assms obtain out where out: "prepare_proof T ctx signers = Inr out"
    by (auto simp: runProveControl_def split: sum.splits)
  then obtain sf H n where sf: "px_safe ctx = Inr sf" "px_connect ctx sf = Inr H"
    and n: "(if n \<noteq> 0 then
         (if \<not> px_resume ctx then Inl not_proven
          else res_bind (adoptLandedProof T ctx H sf n) (\<lambda>r. Inr (Adopted r)))
       else res_bind (signed_proof T ctx H sf signers) (\<lambda>b. Inr (Ready sf H b n))) = Inr out"
    unfolding prepare_proof_def res_bind_Inr by blast
  show thesis
  proof (cases "n = 0")
    case False
    with n assms out have r: "px_resume ctx" "adoptLandedProof T ctx H sf n = Inr r" "sent = []"
        "stages' = stages(row := record_js r (px_startedAt ctx) (px_finishedAt ctx))"
      by (auto simp: runProveControl_def Let_def split: if_splits)
    obtain a :: int and ev tx where "n = 1" "r = adopted_record sf (h_owners H) (cp_safeTxHash r) ev tx" by (rule adoptLandedProof_checked [OF r(2)])
    then have "n = 1" "cp_adopted r" by (auto simp: adopted_record_def dest: arg_cong [where f = cp_adopted])
    with that(1) sf r show thesis by blast
  next
    case True
    with n obtain b where b: "signed_proof T ctx H sf signers = Inr b" "out = Ready sf H b n" by auto
    define opts where "opts = \<lparr>eo_localChecks = True, eo_dryRun = False, eo_tries = None, eo_allSignatures = True\<rparr>"
    obtain sent' res where ex: "executeTx T (later (length (h_owners H) + 2) H) b sender opts = (sent', res)" by fastforce
    with assms out b obtain x where res: "res = Inr x" and sent: "sent = sent'"
      and fin: "(case (er_txHash x, er_block x) of
                (Some tx, Some block) \<Rightarrow>
                  if tx = [] then Inl (PublishError SAFE)
                  else Inr ((\<lambda>r. (r, stages(row := record_js r (px_startedAt ctx) (px_finishedAt ctx))))
                         \<lparr>cp_safe = sf, cp_txHash = tx, cp_safeTxHash = safe_tx_hash b, cp_nonce = n,
                         cp_signers = sort (map lc (h_owners H)), cp_block = block, cp_sentBy = er_sentBy x, cp_adopted = False\<rparr>)
              | _ \<Rightarrow> Inl (PublishError SAFE)) = Inr (r, stages')"
      by (auto simp: runProveControl_def Let_def opts_def)
    from fin obtain tx block where x: "er_txHash x = Some tx" "er_block x = Some block"
        "r = \<lparr>cp_safe = sf, cp_txHash = tx, cp_safeTxHash = safe_tx_hash b, cp_nonce = n,
              cp_signers = sort (map lc (h_owners H)), cp_block = block, cp_sentBy = er_sentBy x, cp_adopted = False\<rparr>"
        "stages' = stages(row := record_js r (px_startedAt ctx) (px_finishedAt ctx))"
      by (cases "er_txHash x"; cases "er_block x") (auto split: if_splits)
    from executeTx_done [OF ex [unfolded res]] x(1) obtain calldata
      where "sent' = [(h_address H, calldata)]" "map_option fst (sn_receipt sender tx) = Some True" by (auto simp: opts_def)
    with that(2) sf b x sent show thesis by auto
  qed
qed


subsection \<open>Concrete runs\<close>

definition sample_signer :: "string \<Rightarrow> Signer" where
  "sample_signer a = \<lparr>sg_address = Some (sample_addr a), sg_modes = [Raw], sg_sign = (\<lambda>_ _. Some (sample_sig a))\<rparr>"

definition sample_logs :: log_rpc where
  "sample_logs =
     \<lparr>lr_latest = Some 5000,
      lr_getLogs = (\<lambda>k a b. if k = 0 then Inl RangeLimit else if k = 1 then Inl Throttled
        else if a \<le> 1500 \<and> 1500 \<le> b
        then Inr [\<lparr>le_txHash = Some ''0xfeed'', le_block = Some 1500, le_logIndex = Some 3, le_removed = False, le_safeTxHash = sample_hash, le_success = True\<rparr>]
        else Inr []),
      lr_window = None, lr_tries = None\<rparr>"

definition sample_event :: SafeExecution where
  "sample_event = \<lparr>se_txHash = ''0xfeed'', se_safeTxHash = sample_hash, se_success = True, se_block = 1500, se_logIndex = 3\<rparr>"

definition sample_prove :: "bool \<Rightarrow> int \<Rightarrow> prove_ctx" where
  "sample_prove resume n =
     \<lparr>px_chainId = 8453, px_resume = resume, px_sheetOwners = [sample_addr ''03'', sample_addr ''01'', sample_addr ''02''], px_coreSha = ''abc'',
      px_safe = Inr (sample_addr ''aa''),
      px_connect = (\<lambda>_. Inr ((sample_handle 0)\<lparr>h_nonce := (\<lambda>k. if k < 7 then Some n else Some (n + 1))\<rparr>)),
      px_confirm = Inr (), px_logs = (\<lambda>_. sample_logs),
      px_transaction = (\<lambda>_. Inr (Some \<lparr>lt_from = sample_addr ''77'', lt_to = Some (sample_addr ''aa''), lt_input = ''0x6a761202'', lt_value = 0, lt_success = True, lt_block = 1500\<rparr>)),
      px_decodeExec = (\<lambda>_. Some \<lparr>ec_to = sample_addr ''aa'', ec_value = 0, ec_data = ''0x'', ec_operation = 0, ec_safeTxGas = 0, ec_baseGas = 0, ec_gasPrice = 0,
        ec_signatures = ''0x'' @ concat (map (\<lambda>a. drop 2 (sample_sig a)) [''01'', ''02'', ''03''])\<rparr>),
      px_blocks = [JUndef, JNum 100], px_tries = None, px_startedAt = ''t0'', px_proposedAt = ''t1'', px_finishedAt = ''t2''\<rparr>"

definition sample_run :: "bool \<Rightarrow> int \<Rightarrow> (string \<times> string) list \<times> (failure + ControlProofRecord \<times> (string \<Rightarrow> js))" where
  "sample_run resume n =
     runProveControl (sample_tool JNull) (sample_prove resume n) PROOF_STAGE (\<lambda>_. JUndef) (map sample_signer [''02'', ''01'', ''03'']) sample_sender"

lemma sample_run_fresh: "case sample_run False 0 of (sent, Inr (r, _)) \<Rightarrow> length sent = 1 \<and> \<not> cp_adopted r | _ \<Rightarrow> False"
  by code_simp

lemma sample_run_resumed: "case sample_run True 1 of (sent, Inr (r, _)) \<Rightarrow> sent = [] \<and> cp_adopted r | _ \<Rightarrow> False"
  by code_simp


lemma sample_logs_honest: "honest_logs sample_logs [sample_event]"
  by (auto simp: honest_logs_def sample_logs_def sample_event_def execution_of_def split: if_splits)


end
