(* ===== verification/RunManifest.thy ===== *)
theory RunManifest
  imports Stages
begin

text \<open>
  The run manifest of the publishing tool (publish-contracts/src/runner.ts): the part two processes write. A
  govern run keeps its copy in memory and saves it; a pause-all, started by hand or by a failed check, appends
  a pause entry to the file at any time. Both number their events from one counter in the file, so that an
  unpause scheduled before a pause can be told from one scheduled after it.

  Each read-modify-write of the file is one step, as the lock file makes it.
\<close>

section \<open>The manifest\<close>

record PauseEntry =
  pe_seq :: int
  pe_at :: string
  pe_trigger :: string
  pe_reason :: string
  pe_done :: bool
  pe_allPaused :: "bool option"
  pe_vaults :: "js list"

text \<open>
  A phase of a govern row, and the row (govern.ts); \<open>rr_skipped\<close> holds the time and the reason of a skipped row,
  \<open>rr_rest\<close> what the on-demand rows keep beside the phases.
\<close>

record PhaseRecord =
  ph_seq :: "int option"
  ph_at :: string
  ph_operation_id :: "string option"
  ph_ready_at :: "int option"
  ph_tx_hash :: "string option"
  ph_safe_tx_hash :: "string option"
  ph_status :: "int option"
  ph_note :: "string option"

record RowRecord =
  rr_round :: "int option"
  rr_scheduled :: "PhaseRecord option"
  rr_executed :: "PhaseRecord option"
  rr_cancelled :: "PhaseRecord option"
  rr_skipped :: "(string \<times> string) option"
  rr_rest :: js

record RunManifest =
  rm_govern :: "(string \<times> RowRecord) list"
  rm_pauses :: "PauseEntry list"
  rm_seqHigh :: "int option"
  rm_stages :: "(string \<times> js) list"
  rm_rest :: js

text \<open>The file: absent, not JSON, JSON of another version, or a manifest.\<close>

datatype manifest_file = Missing | NotJson | OtherVersion | Stored RunManifest

definition loadRunManifest :: "manifest_file \<Rightarrow> failure + RunManifest option" where
  "loadRunManifest f = (case f of Missing \<Rightarrow> Inr None | NotJson \<Rightarrow> Inl PlainError | OtherVersion \<Rightarrow> Inl (PublishError RESUME) | Stored m \<Rightarrow> Inr (Some m))"

definition readDisk :: "manifest_file \<Rightarrow> RunManifest option" where
  "readDisk f = (case loadRunManifest f of Inl _ \<Rightarrow> None | Inr m \<Rightarrow> m)"

section \<open>Sequence numbers\<close>

definition governScheduled :: "RunManifest \<Rightarrow> PhaseRecord list" where
  "governScheduled m = concat (map (\<lambda>(_, r). case rr_scheduled r of None \<Rightarrow> [] | Some p \<Rightarrow> [p]) (rm_govern m))"

definition or_zero :: "int option \<Rightarrow> int" where
  "or_zero v = (case v of None \<Rightarrow> 0 | Some n \<Rightarrow> n)"

definition nextManifestSeq :: "RunManifest \<Rightarrow> int" where
  "nextManifestSeq m =
     1 + fold max (or_zero (rm_seqHigh m) # map pe_seq (rm_pauses m) @ map (\<lambda>p. or_zero (ph_seq p)) (governScheduled m)) 0"

text \<open>\<open>bySeq.set(e.seq, e)\<close>: a Map keeps the place of a key it has and appends a new one.\<close>

fun put_entry :: "PauseEntry list \<Rightarrow> PauseEntry \<Rightarrow> PauseEntry list" where
  "put_entry [] e = [e]"
| "put_entry (x # xs) e = (if pe_seq x = pe_seq e then e # xs else x # put_entry xs e)"

definition merge_pauses :: "PauseEntry list \<Rightarrow> PauseEntry list \<Rightarrow> PauseEntry list" where
  "merge_pauses mine disk = sort_key pe_seq (foldl put_entry [] (mine @ disk))"

definition mergeDisk :: "RunManifest \<Rightarrow> RunManifest option \<Rightarrow> RunManifest" where
  "mergeDisk m disk =
     (let pauses = merge_pauses (rm_pauses m) (case disk of None \<Rightarrow> [] | Some d \<Rightarrow> rm_pauses d);
          high = max (or_zero (rm_seqHigh m)) (case disk of None \<Rightarrow> 0 | Some d \<Rightarrow> or_zero (rm_seqHigh d)) in
      m\<lparr>rm_pauses := pauses, rm_seqHigh := (if high > 0 then Some high else rm_seqHigh m)\<rparr>)"

text \<open>The file and the saver's own copy after a save; the merge changes the copy too.\<close>

definition saveRunManifest :: "manifest_file \<Rightarrow> RunManifest \<Rightarrow> manifest_file \<times> RunManifest" where
  "saveRunManifest f m = (let m' = mergeDisk m (readDisk f) in (Stored m', m'))"

definition reserveManifestSeq :: "manifest_file \<Rightarrow> RunManifest \<Rightarrow> int \<times> manifest_file \<times> RunManifest" where
  "reserveManifestSeq f m =
     (let m1 = mergeDisk m (readDisk f); s = nextManifestSeq m1; m' = m1\<lparr>rm_seqHigh := Some s\<rparr> in (s, Stored m', m'))"

definition beginPauseEntry :: "manifest_file \<Rightarrow> string \<Rightarrow> string \<Rightarrow> string \<Rightarrow> failure + PauseEntry option \<times> manifest_file" where
  "beginPauseEntry f at' trigger reason =
     res_bind (loadRunManifest f) (\<lambda>disk.
       case disk of
         None \<Rightarrow> Inr (None, f)
       | Some d \<Rightarrow>
           let e = \<lparr>pe_seq = nextManifestSeq d, pe_at = at', pe_trigger = trigger, pe_reason = reason, pe_done = False, pe_allPaused = None, pe_vaults = []\<rparr> in
           Inr (Some e, Stored (d\<lparr>rm_pauses := rm_pauses d @ [e], rm_seqHigh := Some (pe_seq e)\<rparr>)))"

definition updatePauseEntry :: "manifest_file \<Rightarrow> PauseEntry \<Rightarrow> failure + manifest_file" where
  "updatePauseEntry f e =
     res_bind (loadRunManifest f) (\<lambda>disk.
       case disk of
         None \<Rightarrow> Inr f
       | Some d \<Rightarrow> Inr (Stored (d\<lparr>rm_pauses := map (\<lambda>p. if pe_seq p = pe_seq e then e else p) (rm_pauses d)\<rparr>)))"

section \<open>The pauses govern sees\<close>

text \<open>\<open>livePauses\<close> of govern.ts: the entries on disk merged over the ones in memory; an unreadable file adds none.\<close>

definition livePauses :: "manifest_file \<Rightarrow> RunManifest \<Rightarrow> PauseEntry list" where
  "livePauses f m = merge_pauses (rm_pauses m) (case readDisk f of None \<Rightarrow> [] | Some d \<Rightarrow> rm_pauses d)"

definition newest_pause_after :: "PauseEntry list \<Rightarrow> int \<Rightarrow> PauseEntry option" where
  "newest_pause_after ps s = (case rev (filter (\<lambda>e. pe_seq e > s) ps) of [] \<Rightarrow> None | e # _ \<Rightarrow> Some e)"

section \<open>Merging\<close>

lemma put_entry_seqs [simp]: "set (map pe_seq (put_entry xs e)) = insert (pe_seq e) (set (map pe_seq xs))"
  by (induction xs e rule: put_entry.induct) auto

lemma put_entry_distinct: "distinct (map pe_seq xs) \<Longrightarrow> distinct (map pe_seq (put_entry xs e))"
proof (induction xs e rule: put_entry.induct)
  case (2 x xs e)
  then show ?case using put_entry_seqs [of xs e] by (auto simp: image_iff)
qed simp

lemma foldl_put_entry_seqs [simp]:
  "set (map pe_seq (foldl put_entry acc es)) = set (map pe_seq acc) \<union> set (map pe_seq es)"
  by (induction es arbitrary: acc) (use put_entry_seqs in auto)

lemma foldl_put_entry_distinct: "distinct (map pe_seq acc) \<Longrightarrow> distinct (map pe_seq (foldl put_entry acc es))"
  by (induction es arbitrary: acc) (simp_all add: put_entry_distinct)

lemma put_entry_set: "set (put_entry xs e) \<subseteq> insert e (set xs)"
  by (induction xs e rule: put_entry.induct) auto

lemma put_entry_mem: "e \<in> set (put_entry xs e)"
  by (induction xs e rule: put_entry.induct) auto

lemma put_entry_keeps: "x \<in> set xs \<Longrightarrow> pe_seq x \<noteq> pe_seq e \<Longrightarrow> x \<in> set (put_entry xs e)"
  by (induction xs e rule: put_entry.induct) auto

lemma foldl_put_entry_keeps:
  "x \<in> set acc \<Longrightarrow> pe_seq x \<notin> set (map pe_seq es) \<Longrightarrow> x \<in> set (foldl put_entry acc es)"
  by (induction es arbitrary: acc) (auto simp: put_entry_keeps)

lemma foldl_put_entry_set: "set (foldl put_entry acc es) \<subseteq> set acc \<union> set es"
  by (induction es arbitrary: acc) (use put_entry_set in fastforce)+

lemma foldl_put_entry_last:
  "distinct (map pe_seq es) \<Longrightarrow> set es \<subseteq> set (foldl put_entry acc es)"
proof (induction es arbitrary: acc)
  case (Cons e es)
  then have "e \<in> set (foldl put_entry (put_entry acc e) es)"
    using foldl_put_entry_keeps [OF put_entry_mem] by simp
  with Cons show ?case by simp
qed simp

definition pause_seqs :: "RunManifest \<Rightarrow> int set" where
  "pause_seqs m = pe_seq ` set (rm_pauses m)"

lemma merge_pauses_seqs: "pe_seq ` set (merge_pauses xs ys) = pe_seq ` set xs \<union> pe_seq ` set ys"
  using foldl_put_entry_seqs [of "[]" "xs @ ys"] by (simp add: merge_pauses_def image_Un)

lemma merge_pauses_sorted: "sorted_wrt (<) (map pe_seq (merge_pauses xs ys))"
proof -
  have "distinct (map pe_seq (merge_pauses xs ys))"
    using foldl_put_entry_distinct [of "[]" "xs @ ys"]
    by (simp add: merge_pauses_def distinct_map inj_on_def)
  moreover have "sorted (map pe_seq (merge_pauses xs ys))" by (simp add: merge_pauses_def)
  ultimately show ?thesis by (simp add: strict_sorted_iff)
qed

lemma merge_pauses_disk_wins: "distinct (map pe_seq ys) \<Longrightarrow> set ys \<subseteq> set (merge_pauses xs ys)"
  using foldl_put_entry_last [of ys "foldl put_entry [] xs"] by (simp add: merge_pauses_def)

lemma merge_pauses_only: "set (merge_pauses xs ys) \<subseteq> set xs \<union> set ys"
  using foldl_put_entry_set [of "[]" "xs @ ys"] by (simp add: merge_pauses_def)

section \<open>Numbers only grow\<close>

lemma or_zero_simps [simp]: "or_zero None = 0" "or_zero (Some n) = n"
  by (simp_all add: or_zero_def)

definition manifest_seqs :: "RunManifest \<Rightarrow> int set" where
  "manifest_seqs m = insert (or_zero (rm_seqHigh m)) (pause_seqs m \<union> (\<lambda>p. or_zero (ph_seq p)) ` set (governScheduled m))"

lemma nextManifestSeq_Max: "nextManifestSeq m = 1 + Max (insert 0 (manifest_seqs m))"
proof -
  have "fold max xs (0 :: int) = Max (insert 0 (set xs))" for xs by (simp add: Max.set_eq_fold [symmetric])
  then show ?thesis by (simp only: nextManifestSeq_def manifest_seqs_def pause_seqs_def) (simp add: insert_commute)
qed

lemma finite_manifest_seqs [simp]: "finite (manifest_seqs m)"
  by (simp add: manifest_seqs_def pause_seqs_def)

lemma nextManifestSeq_above: "n \<in> manifest_seqs m \<Longrightarrow> n < nextManifestSeq m" "0 < nextManifestSeq m"
proof -
  have M: "k \<le> Max (insert 0 (manifest_seqs m))" if "k \<in> insert 0 (manifest_seqs m)" for k
    using that by (intro Max_ge) simp_all
  show "0 < nextManifestSeq m" unfolding nextManifestSeq_Max using M [OF insertI1] by linarith
  show "n < nextManifestSeq m" if "n \<in> manifest_seqs m"
    unfolding nextManifestSeq_Max using M [OF insertI2 [OF that]] by linarith
qed

lemma mergeDisk_pauses [simp]:
  "rm_pauses (mergeDisk m d) = merge_pauses (rm_pauses m) (case d of None \<Rightarrow> [] | Some x \<Rightarrow> rm_pauses x)"
  by (simp add: mergeDisk_def Let_def)

lemma mergeDisk_rest [simp]:
  "rm_govern (mergeDisk m d) = rm_govern m" "rm_stages (mergeDisk m d) = rm_stages m"
  by (simp_all add: mergeDisk_def Let_def)

lemma mergeDisk_high:
  "0 < n \<Longrightarrow> n \<le> or_zero (rm_seqHigh x) \<Longrightarrow> n \<le> or_zero (rm_seqHigh (mergeDisk m (Some x)))"
  by (auto simp: mergeDisk_def Let_def or_zero_def split: option.splits)

lemma readDisk_Stored [simp]: "readDisk (Stored m) = Some m" "loadRunManifest (Stored m) = Inr (Some m)"
  by (simp_all add: readDisk_def loadRunManifest_def)

section \<open>Two processes on one file\<close>

text \<open>
  What was handed out, in order: a number reserved for a schedule, or the number of a pause-all that began. The
  govern process may edit its rows between two accesses of the file, as long as a schedule it stamps carries a
  number it reserved (or none); it may crash and be started again, loading the file; a pause-all may begin or
  update its entry at any moment.
\<close>

datatype handout = Reserved int | Began int

definition stamped_in :: "handout list \<Rightarrow> PhaseRecord \<Rightarrow> bool" where
  "stamped_in l p \<longleftrightarrow> or_zero (ph_seq p) = 0 \<or> Reserved (or_zero (ph_seq p)) \<in> set l"

fun handout_seq :: "handout \<Rightarrow> int" where
  "handout_seq (Reserved s) = s"
| "handout_seq (Began s) = s"

record manifest_state =
  ms_file :: manifest_file
  ms_mem :: RunManifest
  ms_log :: "handout list"

inductive manifest_step :: "manifest_state \<Rightarrow> manifest_state \<Rightarrow> bool" where
  save: "saveRunManifest (ms_file s) (ms_mem s) = (f, m) \<Longrightarrow> manifest_step s (s\<lparr>ms_file := f, ms_mem := m\<rparr>)"
| reserve: "reserveManifestSeq (ms_file s) (ms_mem s) = (n, f, m) \<Longrightarrow>
    manifest_step s (s\<lparr>ms_file := f, ms_mem := m, ms_log := ms_log s @ [Reserved n]\<rparr>)"
| rows: "m = (ms_mem s)\<lparr>rm_govern := g, rm_stages := st\<rparr> \<Longrightarrow>
    \<forall>p\<in>set (governScheduled m). stamped_in (ms_log s) p \<Longrightarrow>
    manifest_step s (s\<lparr>ms_mem := m\<rparr>)"
| look: "manifest_step s (s\<lparr>ms_mem := (ms_mem s)\<lparr>rm_pauses := livePauses (ms_file s) (ms_mem s)\<rparr>\<rparr>)"
| resume: "loadRunManifest (ms_file s) = Inr (Some m) \<Longrightarrow> manifest_step s (s\<lparr>ms_mem := m\<rparr>)"
| pause_begin: "beginPauseEntry (ms_file s) at' trigger reason = Inr (Some e, f) \<Longrightarrow>
    manifest_step s (s\<lparr>ms_file := f, ms_log := ms_log s @ [Began (pe_seq e)]\<rparr>)"
| pause_update: "updatePauseEntry (ms_file s) e = Inr f \<Longrightarrow> manifest_step s (s\<lparr>ms_file := f\<rparr>)"

inductive manifest_reach :: "manifest_state \<Rightarrow> manifest_state \<Rightarrow> bool" for s0 where
  start: "manifest_reach s0 s0"
| step: "manifest_reach s0 s \<Longrightarrow> manifest_step s s' \<Longrightarrow> manifest_reach s0 s'"

inductive_cases manifest_stepE: "manifest_step s s'"

text \<open>A run that begins, or resumes, with the manifest \<open>m\<close> on disk.\<close>

definition manifest_start :: "RunManifest \<Rightarrow> manifest_state" where
  "manifest_start m = \<lparr>ms_file = Stored m, ms_mem = m, ms_log = []\<rparr>"

section \<open>The invariant\<close>

text \<open>
  \<open>P\<close> is the set of pause entries the run started with. Numbers are handed out in increasing order, all above
  the entries of \<open>P\<close>; the file's \<open>seqHigh\<close> is at least each of them; the entries on disk are those of \<open>P\<close> and one
  for every pause that began.
\<close>

definition manifest_inv :: "int set \<Rightarrow> manifest_state \<Rightarrow> bool" where
  "manifest_inv P s \<longleftrightarrow>
     sorted_wrt (<) (map handout_seq (ms_log s)) \<and>
     (\<forall>h\<in>set (ms_log s). 0 < handout_seq h \<and> (\<forall>t\<in>P. t < handout_seq h)) \<and>
     (\<exists>d. ms_file s = Stored d \<and>
        (\<forall>h\<in>set (ms_log s). handout_seq h \<le> or_zero (rm_seqHigh d)) \<and>
        pause_seqs d = P \<union> {t. Began t \<in> set (ms_log s)} \<and>
        pause_seqs (ms_mem s) \<subseteq> pause_seqs d)"

lemma manifest_inv_start: "manifest_inv (pause_seqs m) (manifest_start m)"
  by (simp add: manifest_inv_def manifest_start_def)

lemma mergeDisk_seqs: "pause_seqs (mergeDisk m (Some d)) = pause_seqs m \<union> pause_seqs d"
  by (simp add: pause_seqs_def merge_pauses_seqs)

lemma manifest_invE:
  assumes "manifest_inv P s"
  obtains d where "ms_file s = Stored d"
    "\<forall>h\<in>set (ms_log s). 0 < handout_seq h \<and> handout_seq h \<le> or_zero (rm_seqHigh d)"
    "pause_seqs d = P \<union> {t. Began t \<in> set (ms_log s)}" "pause_seqs (ms_mem s) \<subseteq> pause_seqs d"
  using assms unfolding manifest_inv_def by blast

lemma inv_save:
  assumes "manifest_inv P s" "saveRunManifest (ms_file s) (ms_mem s) = (f, m)"
  shows "manifest_inv P (s\<lparr>ms_file := f, ms_mem := m\<rparr>)"
proof -
  from assms(1) obtain d where d: "ms_file s = Stored d"
    "\<forall>h\<in>set (ms_log s). 0 < handout_seq h \<and> handout_seq h \<le> or_zero (rm_seqHigh d)"
    "pause_seqs d = P \<union> {t. Began t \<in> set (ms_log s)}" "pause_seqs (ms_mem s) \<subseteq> pause_seqs d"
    by (rule manifest_invE)
  from assms(2) d(1) have m: "m = mergeDisk (ms_mem s) (Some d)" "f = Stored m"
    by (auto simp: saveRunManifest_def Let_def)
  have "handout_seq h \<le> or_zero (rm_seqHigh m)" if "h \<in> set (ms_log s)" for h
    using mergeDisk_high d(2) that m(1) by simp
  moreover have "pause_seqs m = pause_seqs d" using d(4) by (auto simp: m(1) mergeDisk_seqs)
  ultimately show ?thesis using assms(1) d(3) m(2) by (simp add: manifest_inv_def)
qed

text \<open>Handing out the next number of a manifest at least as new as the file, and writing it as the new \<open>seqHigh\<close>.\<close>

lemma inv_handout:
  assumes inv: "manifest_inv P s" and f: "ms_file s = Stored d"
    and newer: "\<And>n. 0 < n \<Longrightarrow> n \<le> or_zero (rm_seqHigh d) \<Longrightarrow> n \<le> or_zero (rm_seqHigh m)" "pause_seqs d \<subseteq> pause_seqs m"
    and n: "handout_seq h = nextManifestSeq m" "or_zero (rm_seqHigh d') = nextManifestSeq m"
    and ps: "pause_seqs d' = P \<union> {t. Began t \<in> set (ms_log s @ [h])}" "pause_seqs mem \<subseteq> pause_seqs d'"
  shows "manifest_inv P (s\<lparr>ms_file := Stored d', ms_mem := mem, ms_log := ms_log s @ [h]\<rparr>)"
proof -
  have log: "handout_seq k < handout_seq h" if "k \<in> set (ms_log s)" for k
  proof -
    from inv f that have "0 < handout_seq k" "handout_seq k \<le> or_zero (rm_seqHigh d)" by (auto simp: manifest_inv_def)
    then have "handout_seq k \<le> or_zero (rm_seqHigh m)" by (rule newer)
    then show ?thesis using nextManifestSeq_above(1) [of "or_zero (rm_seqHigh m)" m] n(1) by (simp add: manifest_seqs_def)
  qed
  moreover have "0 < handout_seq h \<and> (\<forall>t\<in>P. t < handout_seq h)"
    using inv f newer(2) nextManifestSeq_above [where m = m] by (auto simp: manifest_inv_def manifest_seqs_def n)
  moreover have "\<forall>k\<in>set (ms_log s @ [h]). handout_seq k \<le> nextManifestSeq m"
    using log by (auto simp: n less_imp_le)
  ultimately show ?thesis using inv n ps by (simp add: manifest_inv_def sorted_wrt_append)
qed

lemma inv_reserve:
  assumes inv: "manifest_inv P s" and r: "reserveManifestSeq (ms_file s) (ms_mem s) = (n, f, m)"
  shows "manifest_inv P (s\<lparr>ms_file := f, ms_mem := m, ms_log := ms_log s @ [Reserved n]\<rparr>)"
proof -
  from inv obtain d where d: "ms_file s = Stored d" "pause_seqs d = P \<union> {t. Began t \<in> set (ms_log s)}"
    "pause_seqs (ms_mem s) \<subseteq> pause_seqs d" by (auto elim: manifest_invE)
  define m1 where "m1 = mergeDisk (ms_mem s) (Some d)"
  from r d(1) have m: "n = nextManifestSeq m1" "m = m1\<lparr>rm_seqHigh := Some n\<rparr>" "f = Stored m"
    by (auto simp: reserveManifestSeq_def Let_def m1_def)
  have seqs: "pause_seqs m = pause_seqs d" "pause_seqs m1 = pause_seqs d"
    using d(3) m(2) by (auto simp: m1_def mergeDisk_seqs pause_seqs_def merge_pauses_seqs)
  show ?thesis unfolding m(3)
    by (rule inv_handout [OF inv d(1), of m1]) (use m seqs d(2) in \<open>auto simp: m1_def mergeDisk_high\<close>)
qed

lemma inv_pause_begin:
  assumes inv: "manifest_inv P s" and r: "beginPauseEntry (ms_file s) at' trigger reason = Inr (Some e, f)"
  shows "manifest_inv P (s\<lparr>ms_file := f, ms_log := ms_log s @ [Began (pe_seq e)]\<rparr>)"
proof -
  from inv obtain d where d: "ms_file s = Stored d" "pause_seqs d = P \<union> {t. Began t \<in> set (ms_log s)}"
    "pause_seqs (ms_mem s) \<subseteq> pause_seqs d" by (auto elim: manifest_invE)
  define d' where "d' = d\<lparr>rm_pauses := rm_pauses d @ [e], rm_seqHigh := Some (pe_seq e)\<rparr>"
  from r d(1) have m: "pe_seq e = nextManifestSeq d" "f = Stored d'"
    by (auto simp: beginPauseEntry_def Let_def d'_def)
  have seqs: "pause_seqs d' = insert (pe_seq e) (pause_seqs d)" by (simp add: d'_def pause_seqs_def)
  have "manifest_inv P (s\<lparr>ms_file := Stored d', ms_mem := ms_mem s, ms_log := ms_log s @ [Began (pe_seq e)]\<rparr>)"
    by (rule inv_handout [OF inv d(1), of d]) (use m seqs d(2,3) in \<open>auto simp: d'_def\<close>)
  then show ?thesis unfolding m(2) by simp
qed

lemma inv_pause_update:
  assumes inv: "manifest_inv P s" and r: "updatePauseEntry (ms_file s) e = Inr f"
  shows "manifest_inv P (s\<lparr>ms_file := f\<rparr>)"
proof -
  from inv obtain d where d: "ms_file s = Stored d" by (auto elim: manifest_invE)
  define d' where "d' = d\<lparr>rm_pauses := map (\<lambda>p. if pe_seq p = pe_seq e then e else p) (rm_pauses d)\<rparr>"
  from r d have "f = Stored d'" by (auto simp: updatePauseEntry_def d'_def)
  moreover have "map pe_seq (rm_pauses d') = map pe_seq (rm_pauses d)" by (simp add: d'_def)
  then have "pause_seqs d' = pause_seqs d" unfolding pause_seqs_def by (metis set_map)
  moreover have "rm_seqHigh d' = rm_seqHigh d" by (simp add: d'_def)
  ultimately show ?thesis using inv d by (auto simp: manifest_inv_def)
qed

lemma inv_mem:
  "manifest_inv P s \<Longrightarrow> pause_seqs m \<subseteq> (case readDisk (ms_file s) of None \<Rightarrow> {} | Some d \<Rightarrow> pause_seqs d) \<union> pause_seqs (ms_mem s) \<Longrightarrow>
   manifest_inv P (s\<lparr>ms_mem := m\<rparr>)"
  by (fastforce simp: manifest_inv_def)

theorem manifest_inv_step: "manifest_inv P s \<Longrightarrow> manifest_step s s' \<Longrightarrow> manifest_inv P s'"
proof (erule manifest_stepE, goal_cases)
  case 3 then show ?case by (auto intro: inv_mem simp: pause_seqs_def)
next
  case 4 then show ?case
    by (auto intro!: inv_mem simp: pause_seqs_def livePauses_def merge_pauses_seqs split: option.splits)
next
  case 5 then show ?case
    by (auto intro!: inv_mem simp: readDisk_def)
qed (auto intro: inv_save inv_reserve inv_pause_begin inv_pause_update)

lemma manifest_inv_reach: "manifest_reach (manifest_start m) s \<Longrightarrow> manifest_inv (pause_seqs m) s"
  by (induction rule: manifest_reach.induct) (auto intro: manifest_inv_start manifest_inv_step)

section \<open>What the check before an unpause knows\<close>

lemma newest_pause_after_None: "newest_pause_after ps n = None \<longleftrightarrow> (\<forall>e\<in>set ps. pe_seq e \<le> n)"
proof -
  have "newest_pause_after ps n = None \<longleftrightarrow> rev (filter (\<lambda>e. pe_seq e > n) ps) = []"
    by (auto simp: newest_pause_after_def split: list.splits)
  then show ?thesis by (auto simp: filter_empty_conv not_less)
qed

lemma newest_pause_after_Some:
  assumes "newest_pause_after ps n = Some e" "sorted_wrt (<) (map pe_seq ps)"
  shows "e \<in> set ps \<and> n < pe_seq e \<and> (\<forall>x\<in>set ps. pe_seq x \<le> pe_seq e)"
proof -
  from assms(1) obtain r where "rev (filter (\<lambda>e. pe_seq e > n) ps) = e # r"
    by (auto simp: newest_pause_after_def split: list.splits)
  then have f: "filter (\<lambda>e. pe_seq e > n) ps = rev r @ [e]" by (metis rev.simps(2) rev_rev_ident)
  have sub: "{x \<in> set ps. pe_seq x > n} = insert e (set r)"
    using arg_cong [OF f, of set] by simp
  then have e: "e \<in> set ps" "n < pe_seq e" by blast+
  have "sorted_wrt (<) (map pe_seq (filter (\<lambda>e. pe_seq e > n) ps))"
    using assms(2) by (simp add: sorted_wrt_map sorted_wrt_filter)
  then have "pe_seq x < pe_seq e" if "x \<in> set r" for x using that by (simp add: f sorted_wrt_append)
  moreover have "x \<in> insert e (set r)" if "x \<in> set ps" "pe_seq x > n" for x
    using that sub by blast
  ultimately have "pe_seq x \<le> pe_seq e" if "x \<in> set ps" for x
    using that e(2) by (cases "pe_seq x > n") force+
  with e show ?thesis by blast
qed

lemma livePauses_seqs:
  assumes "manifest_inv P s"
  shows "pe_seq ` set (livePauses (ms_file s) (ms_mem s)) = P \<union> {t. Began t \<in> set (ms_log s)}"
proof -
  from assms obtain d where "ms_file s = Stored d" "pause_seqs d = P \<union> {t. Began t \<in> set (ms_log s)}"
    "pause_seqs (ms_mem s) \<subseteq> pause_seqs d" by (rule manifest_invE)
  then show ?thesis by (simp add: livePauses_def merge_pauses_seqs pause_seqs_def Un_absorb1)
qed

lemma sorted_split_seq:
  assumes "sorted_wrt (<) (map handout_seq (xs @ x # ys))"
  shows "h \<in> set (xs @ x # ys) \<Longrightarrow> handout_seq x < handout_seq h \<longleftrightarrow> h \<in> set ys"
  using assms by (auto simp: sorted_wrt_append dest: less_asym)

lemma began_after:
  assumes inv: "manifest_inv P s" and l: "ms_log s = xs @ Reserved n # ys"
  shows "{t. t \<in> pe_seq ` set (livePauses (ms_file s) (ms_mem s)) \<and> n < t} = {t. Began t \<in> set ys}"
proof -
  from inv have "sorted_wrt (<) (map handout_seq (xs @ Reserved n # ys))" "\<forall>t\<in>P. t < n"
    by (auto simp: manifest_inv_def l)
  then show ?thesis
    using sorted_split_seq [of xs "Reserved n" ys "Began t" for t] by (auto simp: livePauses_seqs [OF inv] l)
qed

lemma newest_after_reserved:
  assumes "manifest_reach (manifest_start m) s" "ms_log s = xs @ Reserved n # ys"
  shows "case newest_pause_after (livePauses (ms_file s) (ms_mem s)) n of
           None \<Rightarrow> \<nexists>t. Began t \<in> set ys
         | Some e \<Rightarrow> \<exists>us vs. ys = us @ Began (pe_seq e) # vs \<and> (\<nexists>t. Began t \<in> set vs)"
proof -
  let ?ps = "livePauses (ms_file s) (ms_mem s)"
  have inv: "manifest_inv (pause_seqs m) s" by (rule manifest_inv_reach) (fact assms(1))
  note after = began_after [OF inv assms(2)]
  show ?thesis
  proof (cases "newest_pause_after ?ps n")
    case None
    then have "{t. t \<in> pe_seq ` set ?ps \<and> n < t} = {}" by (auto simp: newest_pause_after_None)
    with None after show ?thesis by auto
  next
    case (Some e)
    with merge_pauses_sorted have e: "e \<in> set ?ps" "n < pe_seq e" "\<forall>x\<in>set ?ps. pe_seq x \<le> pe_seq e"
      using newest_pause_after_Some [of ?ps n e] by (simp_all add: livePauses_def)
    then have "Began (pe_seq e) \<in> set ys" using after by blast
    then obtain us vs where ys: "ys = us @ Began (pe_seq e) # vs" by (meson split_list)
    have sorted: "sorted_wrt (<) (map handout_seq (ms_log s))" using inv by (simp add: manifest_inv_def)
    have "\<nexists>t. Began t \<in> set vs"
    proof
      assume "\<exists>t. Began t \<in> set vs"
      then obtain t where t: "Began t \<in> set vs" ..
      with sorted have "pe_seq e < t" by (auto simp: assms(2) ys sorted_wrt_append)
      moreover have "t \<in> pe_seq ` set ?ps" using t after by (auto simp: ys)
      ultimately show False using e(3) by auto
    qed
    with Some ys show ?thesis by auto
  qed
qed

section \<open>Stamps\<close>

text \<open>From a manifest with no rows on, every schedule in memory or on disk is unstamped or carries a reserved number.\<close>

definition rows_stamped :: "handout list \<Rightarrow> RunManifest \<Rightarrow> bool" where
  "rows_stamped l m \<longleftrightarrow> (\<forall>p\<in>set (governScheduled m). stamped_in l p)"

lemma governScheduled_frame [simp]:
  "governScheduled (mergeDisk m d) = governScheduled m"
  "governScheduled (m\<lparr>rm_pauses := ps\<rparr>) = governScheduled m"
  "governScheduled (m\<lparr>rm_seqHigh := h\<rparr>) = governScheduled m"
  by (simp_all add: governScheduled_def)

lemma rows_stamped_more: "rows_stamped l m \<Longrightarrow> rows_stamped (l @ l') m"
  by (auto simp: rows_stamped_def stamped_in_def)

lemma rows_stamped_frame [simp]:
  "rows_stamped l (mergeDisk m d) = rows_stamped l m"
  "rows_stamped l (m\<lparr>rm_pauses := ps\<rparr>) = rows_stamped l m"
  "rows_stamped l (m\<lparr>rm_seqHigh := h\<rparr>) = rows_stamped l m"
  by (simp_all add: rows_stamped_def)

definition state_stamped :: "manifest_state \<Rightarrow> bool" where
  "state_stamped s \<longleftrightarrow> rows_stamped (ms_log s) (ms_mem s) \<and> (\<forall>d. ms_file s = Stored d \<longrightarrow> rows_stamped (ms_log s) d)"

lemma state_stamped_step:
  assumes "manifest_step s s'" "state_stamped s"
  shows "state_stamped s'"
  using assms
proof cases
  case (pause_begin at' trigger reason e f)
  then show ?thesis using assms(2)
    by (cases "ms_file s") (auto simp: state_stamped_def beginPauseEntry_def loadRunManifest_def Let_def rows_stamped_more)
next
  case (pause_update e f)
  then show ?thesis using assms(2)
    by (cases "ms_file s") (auto simp: state_stamped_def updatePauseEntry_def loadRunManifest_def Let_def)
next
  case (resume m)
  then show ?thesis using assms(2)
    by (cases "ms_file s") (auto simp: state_stamped_def loadRunManifest_def)
next
  case (rows m g st)
  then show ?thesis using assms(2) by (auto simp: state_stamped_def rows_stamped_def)
qed (use assms(2) in \<open>auto simp: state_stamped_def saveRunManifest_def reserveManifestSeq_def Let_def rows_stamped_more\<close>)

lemma state_stamped_reach:
  "manifest_reach (manifest_start m) s \<Longrightarrow> rm_govern m = [] \<Longrightarrow> state_stamped s"
  by (induction rule: manifest_reach.induct)
    (auto simp: state_stamped_step, simp add: state_stamped_def manifest_start_def rows_stamped_def governScheduled_def)

text \<open>
  C6. The check before an unpause sees exactly the pause-alls that came after its schedule. Two processes share the
  manifest file, in any interleaving of saves, reservations, edits of the rows, crashes with a resume, and pause-alls that begin
  or update their entry. Whenever a number \<open>n\<close> was reserved for a schedule, the newest pause entry above \<open>n\<close> that govern
  finds (on disk and in memory) is the last pause-all that began after the reservation, and there is none exactly when none
  began; no entry is lost, and no earlier pause-all is taken for a later one.
\<close>

theorem pause_after_schedule_seen:
  assumes "manifest_reach (manifest_start m) s" "ms_log s = xs @ Reserved n # ys"
  shows "case newest_pause_after (livePauses (ms_file s) (ms_mem s)) n of
           None \<Rightarrow> \<nexists>t. Began t \<in> set ys
         | Some e \<Rightarrow> \<exists>us vs. ys = us @ Began (pe_seq e) # vs \<and> (\<nexists>t. Began t \<in> set vs)"
  using assms by (rule newest_after_reserved)

section \<open>A concrete interleaving\<close>

definition fresh_manifest :: RunManifest where
  "fresh_manifest = \<lparr>rm_govern = [], rm_pauses = [], rm_seqHigh = None, rm_stages = [], rm_rest = JNull\<rparr>"

definition paused_state :: manifest_state where
  "paused_state =
     (case reserveManifestSeq (Stored fresh_manifest) fresh_manifest of
        (n, f, m) \<Rightarrow> (case beginPauseEntry f ''2026'' ''incident'' ''drill'' of
           Inr (Some e, f') \<Rightarrow> \<lparr>ms_file = f', ms_mem = m, ms_log = [Reserved n, Began (pe_seq e)]\<rparr>
         | _ \<Rightarrow> manifest_start fresh_manifest))"

lemma paused_state_log: "ms_log paused_state = [] @ Reserved 1 # [Began 2]"
  by code_simp

lemma paused_state_reach: "manifest_reach (manifest_start fresh_manifest) paused_state"
proof -
  let ?s0 = "manifest_start fresh_manifest"
  obtain n f m where r: "reserveManifestSeq (ms_file ?s0) (ms_mem ?s0) = (n, f, m)" by (cases "reserveManifestSeq (ms_file ?s0) (ms_mem ?s0)") auto
  let ?s1 = "?s0\<lparr>ms_file := f, ms_mem := m, ms_log := ms_log ?s0 @ [Reserved n]\<rparr>"
  have "\<exists>e f'. beginPauseEntry f ''2026'' ''incident'' ''drill'' = Inr (Some e, f')"
    using r by (auto simp: reserveManifestSeq_def Let_def beginPauseEntry_def)
  then obtain e f' where b: "beginPauseEntry (ms_file ?s1) ''2026'' ''incident'' ''drill'' = Inr (Some e, f')" by auto
  have "manifest_step ?s0 ?s1" by (rule manifest_step.reserve [OF r])
  moreover have "manifest_step ?s1 (?s1\<lparr>ms_file := f', ms_log := ms_log ?s1 @ [Began (pe_seq e)]\<rparr>)"
    by (rule manifest_step.pause_begin [OF b])
  moreover have "paused_state = ?s1\<lparr>ms_file := f', ms_log := ms_log ?s1 @ [Began (pe_seq e)]\<rparr>"
    using r b by (simp add: paused_state_def manifest_start_def)
  ultimately show ?thesis by (metis manifest_reach.intros)
qed

theorem pause_after_schedule_seen_witness:
  "\<exists>e. newest_pause_after (livePauses (ms_file paused_state) (ms_mem paused_state)) 1 = Some e \<and> pe_seq e = 2"
  using pause_after_schedule_seen [OF paused_state_reach paused_state_log]
  by (auto split: option.splits simp: Cons_eq_append_conv)

end
