(* ===== verification/Rounds.thy ===== *)
theory Rounds
  imports RunManifest SafeTool
begin

text \<open>
  The governance rounds of the publishing tool (publish-contracts/src/govern.ts): scheduling an operation on the
  timelock through the Safe, waiting for its delay and executing it, for the unpause rows as a set and for the
  Twin-only rows one at a time.

  A run is a function of a world: the manifest on disk and in memory, the transactions handed to the sender and
  a count of the interactions so far. What the chain answers is a function of these two counts, and before each
  access of the file the other processes may have written pause entries. The operations of the Safe tool are the
  injected \<open>GovernApi\<close>; \<open>realGovernApi\<close> takes them from \<open>SafeTool\<close>.
\<close>

section \<open>Actions\<close>

datatype 'a outcome = Returned 'a | Threw failure | StillWaiting

datatype GovernPhase = Scheduled | Executed | Cancelled

text \<open>
  A transaction handed to the sender, with the row and phase it is for. The sequence number of the row's
  schedule and the numbers handed out so far are kept beside it to state what the run knew when it sent it.
\<close>

record sent =
  sd_row :: string
  sd_phase :: GovernPhase
  sd_tx :: "string \<times> string"
  sd_seq :: int
  sd_log :: "handout list"

record GovernRowLine =
  gl_row :: string
  gl_phase :: GovernPhase
  gl_txHash :: string
  gl_status :: int
  gl_readyAt :: int

record gworld =
  gw_ms :: manifest_state
  gw_tick :: nat
  gw_sent :: "sent list"
  gw_lines :: "GovernRowLine list"
  gw_opIds :: "(string \<times> string) list"
  gw_ran :: "string list"
  gw_skipped :: "string list"

type_synonym 'a act = "gworld \<Rightarrow> 'a outcome \<times> gworld"

definition act_ret :: "'a \<Rightarrow> 'a act" where "act_ret a w = (Returned a, w)"
definition act_throw :: "failure \<Rightarrow> 'a act" where "act_throw e w = (Threw e, w)"

definition act_bind :: "'a act \<Rightarrow> ('a \<Rightarrow> 'b act) \<Rightarrow> 'b act" where
  "act_bind m f w =
     (case m w of (Returned a, w') \<Rightarrow> f a w' | (Threw e, w') \<Rightarrow> (Threw e, w') | (StillWaiting, w') \<Rightarrow> (StillWaiting, w'))"

definition act_when :: "bool \<Rightarrow> unit act \<Rightarrow> unit act" where
  "act_when c m = (if c then m else act_ret ())"

definition act_upd :: "(gworld \<Rightarrow> gworld) \<Rightarrow> unit act" where "act_upd f w = (Returned (), f w)"
definition act_get :: "(gworld \<Rightarrow> 'a) \<Rightarrow> 'a act" where "act_get f w = (Returned (f w), w)"

definition of_res :: "failure + 'a \<Rightarrow> 'a outcome" where
  "of_res r = (case r of Inl e \<Rightarrow> Threw e | Inr a \<Rightarrow> Returned a)"

definition govern_error :: "'a act" where "govern_error = act_throw (PublishError GOVERN)"

section \<open>What a run is given\<close>

text \<open>A pause-all of another process acts on the file.\<close>

datatype pause_act = PauseBegin string string string | PauseUpdate PauseEntry

fun apply_pause :: "pause_act \<Rightarrow> manifest_state \<Rightarrow> manifest_state" where
  "apply_pause (PauseBegin at' trigger reason) s =
     (case beginPauseEntry (ms_file s) at' trigger reason of
        Inr (Some e, f) \<Rightarrow> s\<lparr>ms_file := f, ms_log := ms_log s @ [Began (pe_seq e)]\<rparr>
      | _ \<Rightarrow> s)"
| "apply_pause (PauseUpdate e) s =
     (case updatePauseEntry (ms_file s) e of Inr f \<Rightarrow> s\<lparr>ms_file := f\<rparr> | Inl _ \<Rightarrow> s)"

text \<open>
  A moment of the run: how many interactions and how many transactions there have been. The chain's answers depend
  on both, so that what others do to it is in the first and what this run does in the second.
\<close>

type_synonym moment = "nat \<times> nat"

definition now_of :: "gworld \<Rightarrow> moment" where
  "now_of w = (gw_tick w, length (gw_sent w))"

text \<open>The operations of the Safe tool, at a moment.\<close>

record GovernApi =
  ap_operationState :: "moment \<Rightarrow> string \<Rightarrow> string \<Rightarrow> failure + OperationState"
  ap_operationId :: "moment \<Rightarrow> Ordered \<Rightarrow> failure + string"
  ap_timelockMinDelay :: "moment \<Rightarrow> string \<Rightarrow> failure + int"
  ap_scheduleOnTimelock :: "moment \<Rightarrow> Ordered \<Rightarrow> failure + SafeTxBundle"
  ap_executeOnTimelock :: "moment \<Rightarrow> Ordered \<Rightarrow> failure + SafeTxBundle"
  ap_cancelOnTimelock :: "moment \<Rightarrow> string \<Rightarrow> string option \<Rightarrow> string \<Rightarrow> failure + SafeTxBundle"
  ap_updateTimelockDelay :: "moment \<Rightarrow> UpdateDelayParams \<Rightarrow> failure + SafeTxBundle"
  ap_signTx :: "moment \<Rightarrow> SafeTxBundle \<Rightarrow> Signer \<Rightarrow> failure + SafeTxBundle"
  ap_executeTx :: "moment \<Rightarrow> SafeTxBundle \<Rightarrow> (string \<times> string) list \<times> (failure + ExecuteResult)"
  ap_verifyTimelockEffect :: "moment \<Rightarrow> SafeTxBundle \<Rightarrow> failure + OperationState"

text \<open>The reads of a run of the real tool, and the real interface on them.\<close>

record tool_chain =
  tc_viem :: tool_viem
  tc_handle :: "moment \<Rightarrow> SafeHandle"
  tc_timelock :: "moment \<Rightarrow> timelock_chain"
  tc_now :: "moment \<Rightarrow> string"
  tc_sender :: Sender

definition realGovernApi :: "tool_chain \<Rightarrow> GovernApi" where
  "realGovernApi R =
     \<lparr>ap_operationState = (\<lambda>k lock oid. of_option PlainError (tl_state (tc_timelock R k) lock oid)),
      ap_operationId = (\<lambda>k p. operationId (tc_viem R) (tc_timelock R k) p),
      ap_timelockMinDelay = (\<lambda>k lock. timelockMinDelay (tc_timelock R k) lock),
      ap_scheduleOnTimelock = (\<lambda>k p. scheduleOnTimelock (tc_viem R) (tc_handle R k) (tc_timelock R k) (tc_now R k) p None),
      ap_executeOnTimelock = (\<lambda>k p. executeOnTimelock (tc_viem R) (tc_handle R k) (tc_timelock R k) (tc_now R k) p),
      ap_cancelOnTimelock = (\<lambda>k lock descr oid. cancelOnTimelock (tc_viem R) (tc_handle R k) (tc_timelock R k) (tc_now R k) lock descr oid),
      ap_updateTimelockDelay = (\<lambda>k p. updateTimelockDelay (tc_viem R) (tc_handle R k) (tc_timelock R k) (tc_now R k) p),
      ap_signTx = (\<lambda>k b s. signTx (tc_viem R) (tc_handle R k) b s \<lparr>so_mode = None, so_allowNonOwner = False, so_skipChainChecks = False\<rparr>),
      ap_executeTx = (\<lambda>k b. executeTx (tc_viem R) (tc_handle R k) b (tc_sender R)
                        \<lparr>eo_localChecks = True, eo_dryRun = False, eo_tries = None, eo_allSignatures = False\<rparr>),
      ap_verifyTimelockEffect = (\<lambda>k b. verifyTimelockEffect (tc_timelock R k) b)\<rparr>"

datatype warp_opt = WarpDefault | WarpOff | WarpGiven

text \<open>
  The context and the options of a run; \<open>ge_pauses\<close> is what other processes write to the file before an
  interaction, \<open>ge_lock\<close> whether the lock file is obtained there.
\<close>

record govern_env =
  ge_chainId :: int
  ge_coreSha :: string
  ge_kind :: DeploymentKind
  ge_timelock :: string
  ge_vaults :: "string \<Rightarrow> string"
  ge_vaultName :: "string \<Rightarrow> string"
  ge_unpauseRows :: "string list"
  ge_stage13Rows :: "string list"
  ge_unpauseVaults :: "string list"
  ge_newDelay :: int
  ge_selected :: "string option"
  ge_dependsOn :: "(string \<times> string) list"
  ge_owners :: "string list"
  ge_threshold :: int
  ge_ownerSigners :: "Signer list"
  ge_maxWaitSeconds :: "int option"
  ge_warp :: warp_opt
  ge_isTwinFork :: bool
  ge_warpOk :: "moment \<Rightarrow> bool"
  ge_viem :: tool_viem
  ge_keccak :: "string \<Rightarrow> string"
  ge_api :: GovernApi
  ge_now :: "nat \<Rightarrow> string"
  ge_time :: "moment \<Rightarrow> int option"
  ge_depositsPaused :: "moment \<Rightarrow> string \<Rightarrow> bool option"
  ge_perDepositCap :: "moment \<Rightarrow> string \<Rightarrow> int option"
  ge_pauses :: "nat \<Rightarrow> pause_act list"
  ge_lock :: "nat \<Rightarrow> bool"

text \<open>One interaction: a read of the chain, or an access of the file.\<close>

definition chain_read :: "(moment \<Rightarrow> failure + 'a) \<Rightarrow> 'a act" where
  "chain_read f w = (of_res (f (now_of w)), w\<lparr>gw_tick := Suc (gw_tick w)\<rparr>)"

definition others :: "govern_env \<Rightarrow> gworld \<Rightarrow> manifest_state" where
  "others E w = fold apply_pause (ge_pauses E (gw_tick w)) (gw_ms w)"

definition locked :: "govern_env \<Rightarrow> (manifest_state \<Rightarrow> 'a \<times> manifest_state) \<Rightarrow> 'a act" where
  "locked E f w =
     (if ge_lock E (gw_tick w)
      then (case f (others E w) of (a, s) \<Rightarrow> (Returned a, w\<lparr>gw_ms := s, gw_tick := Suc (gw_tick w)\<rparr>))
      else (Threw (PublishError MANIFEST), w\<lparr>gw_ms := others E w, gw_tick := Suc (gw_tick w)\<rparr>))"

definition save :: "govern_env \<Rightarrow> unit act" where
  "save E = locked E (\<lambda>s. case saveRunManifest (ms_file s) (ms_mem s) of (f, m) \<Rightarrow> ((), s\<lparr>ms_file := f, ms_mem := m\<rparr>))"

definition reserve :: "govern_env \<Rightarrow> int act" where
  "reserve E = locked E (\<lambda>s. case reserveManifestSeq (ms_file s) (ms_mem s) of
     (n, f, m) \<Rightarrow> (n, s\<lparr>ms_file := f, ms_mem := m, ms_log := ms_log s @ [Reserved n]\<rparr>))"

definition live_pauses :: "govern_env \<Rightarrow> PauseEntry list act" where
  "live_pauses E w =
     (let s = others E w; ps = livePauses (ms_file s) (ms_mem s) in
      (Returned ps, w\<lparr>gw_ms := s\<lparr>ms_mem := (ms_mem s)\<lparr>rm_pauses := ps\<rparr>\<rparr>, gw_tick := Suc (gw_tick w)\<rparr>))"

definition w_mem :: "gworld \<Rightarrow> RunManifest" where "w_mem w = ms_mem (gw_ms w)"

definition w_row :: "string \<Rightarrow> gworld \<Rightarrow> RowRecord option" where
  "w_row name w = map_of (rm_govern (w_mem w)) name"

text \<open>\<open>state[name] = rec\<close>, in memory.\<close>

definition set_row :: "string \<Rightarrow> RowRecord \<Rightarrow> gworld \<Rightarrow> gworld" where
  "set_row name r w =
     w\<lparr>gw_ms := (gw_ms w)\<lparr>ms_mem := (w_mem w)\<lparr>rm_govern := AList_upd name r (rm_govern (w_mem w))\<rparr>\<rparr>\<rparr>"

section \<open>Signing and sending\<close>

definition rowComplete :: "RowRecord option \<Rightarrow> bool" where
  "rowComplete r = (case r of None \<Rightarrow> False | Some x \<Rightarrow> rr_skipped x \<noteq> None \<or> rr_executed x \<noteq> None \<or> rr_cancelled x \<noteq> None)"

fun sign_loop :: "govern_env \<Rightarrow> Signer list \<Rightarrow> int \<Rightarrow> SafeTxBundle \<Rightarrow> (SafeTxBundle \<times> int) act" where
  "sign_loop E [] n b = act_ret (b, n)"
| "sign_loop E (s # ss) n b =
     (if n \<ge> ge_threshold E then act_ret (b, n)
      else (case sg_address s of
              None \<Rightarrow> act_throw PlainError
            | Some who \<Rightarrow>
                if lc who \<notin> set (map lc (ge_owners E)) then sign_loop E ss n b
                else act_bind (chain_read (\<lambda>k. ap_signTx (ge_api E) k b s)) (\<lambda>b'. sign_loop E ss (n + 1) b')))"

text \<open>The transactions handed to the sender are kept whether or not the execution ends well.\<close>

definition send :: "govern_env \<Rightarrow> string \<Rightarrow> GovernPhase \<Rightarrow> int \<Rightarrow> SafeTxBundle \<Rightarrow> ExecuteResult act" where
  "send E name phase s b w =
     (case ap_executeTx (ge_api E) (now_of w) b of
        (txs, r) \<Rightarrow>
          (of_res r,
           w\<lparr>gw_tick := Suc (gw_tick w),
             gw_sent := gw_sent w @ map (\<lambda>tx. \<lparr>sd_row = name, sd_phase = phase, sd_tx = tx, sd_seq = s, sd_log = ms_log (gw_ms w)\<rparr>) txs\<rparr>))"

definition signAndExecute :: "govern_env \<Rightarrow> string \<Rightarrow> GovernPhase \<Rightarrow> int \<Rightarrow> SafeTxBundle \<Rightarrow> (SafeTxBundle \<times> ExecuteResult) act" where
  "signAndExecute E name phase s bundle =
     act_bind (sign_loop E (ge_ownerSigners E) 0 bundle) (\<lambda>(b, signed).
       if signed < ge_threshold E then govern_error
       else act_bind (send E name phase s b) (\<lambda>res. act_ret (b, res)))"

section \<open>Waiting\<close>

definition warpFor :: "govern_env \<Rightarrow> bool" where
  "warpFor E = (if ge_chainId E = MAINNET_CHAIN_ID then False
                else case ge_warp E of WarpOff \<Rightarrow> False | WarpGiven \<Rightarrow> True | WarpDefault \<Rightarrow> ge_isTwinFork E)"

text \<open>The pass over the operations: the latest ready time of the ones not ready yet, 0 when there is none.\<close>

fun latest_ready :: "govern_env \<Rightarrow> (string \<times> string) list \<Rightarrow> int \<Rightarrow> int act" where
  "latest_ready E [] latest = act_ret latest"
| "latest_ready E ((oid, name) # ops) latest =
     act_bind (chain_read (\<lambda>k. ap_operationState (ge_api E) k (ge_timelock E) oid)) (\<lambda>st.
       if os_ready st \<or> os_done st then latest_ready E ops latest
       else if \<not> os_pending st then govern_error
       else latest_ready E ops (if os_readyAt st > latest then os_readyAt st else latest))"

definition max_wait :: "govern_env \<Rightarrow> int" where
  "max_wait E = (let m = (case ge_maxWaitSeconds E of None \<Rightarrow> 3600 | Some n \<Rightarrow> n) in
                 if ge_chainId E = MAINNET_CHAIN_ID then min m 3600 else m)"

text \<open>The loop has no bound of its own; \<open>fuel\<close> counts its passes, and \<^const>\<open>StillWaiting\<close> is a run that has not come back.\<close>

fun waitReady :: "govern_env \<Rightarrow> nat \<Rightarrow> (string \<times> string) list \<Rightarrow> unit act" where
  "waitReady E 0 ops w = (StillWaiting, w)"
| "waitReady E (Suc fuel) ops w =
     act_bind (latest_ready E ops 0) (\<lambda>latest.
       if latest = 0 then act_ret ()
       else act_bind (chain_read (\<lambda>k. of_option PlainError (ge_time E k))) (\<lambda>now.
         let remaining = latest - now in
         if remaining > 0 \<and> warpFor E
         then act_bind (chain_read (\<lambda>k. if ge_warpOk E k then Inr () else Inl PlainError)) (\<lambda>_. waitReady E fuel ops)
         else if remaining > max_wait E then act_throw (PublishError GOVERN_PENDING)
         else act_bind (chain_read (\<lambda>k. Inr ())) (\<lambda>_. waitReady E fuel ops))) w"

section \<open>The phases of a round\<close>

record RoundPlan =
  rp_id :: string
  rp_dependsOn :: "string option"
  rp_schedule :: "moment \<Rightarrow> failure + SafeTxBundle"
  rp_execute :: "(moment \<Rightarrow> failure + SafeTxBundle) option"
  rp_cancel :: "(moment \<Rightarrow> failure + SafeTxBundle) option"
  rp_readBack :: "moment \<Rightarrow> failure + string list"
  rp_observed :: "moment \<Rightarrow> (string \<times> js) list"

definition emitPhase :: "string \<Rightarrow> GovernPhase \<Rightarrow> PhaseRecord \<Rightarrow> unit act" where
  "emitPhase name phase r =
     (case truthy_str (ph_tx_hash r) of
        None \<Rightarrow> act_ret ()
      | Some h \<Rightarrow> act_upd (\<lambda>w. w\<lparr>gw_lines := gw_lines w @ [\<lparr>gl_row = name, gl_phase = phase, gl_txHash = h,
          gl_status = (if ph_status r = Some 0 then 0 else 1), gl_readyAt = or_zero (ph_ready_at r)\<rparr>]\<rparr>))"

definition op_state :: "govern_env \<Rightarrow> string \<Rightarrow> OperationState act" where
  "op_state E oid = chain_read (\<lambda>k. ap_operationState (ge_api E) k (ge_timelock E) oid)"

definition now_act :: "govern_env \<Rightarrow> string act" where
  "now_act E = act_get (\<lambda>w. ge_now E (gw_tick w))"

text \<open>A phase found on the chain, and a phase this run sent (\<open>...note(done)\<close>).\<close>

definition adopted_phase :: "string \<Rightarrow> int option \<Rightarrow> string \<Rightarrow> int option \<Rightarrow> string \<Rightarrow> PhaseRecord" where
  "adopted_phase oid s at' ready why =
     \<lparr>ph_seq = s, ph_at = at', ph_operation_id = Some oid, ph_ready_at = ready, ph_tx_hash = None, ph_safe_tx_hash = None,
      ph_status = None, ph_note = Some why\<rparr>"

definition sent_phase :: "string \<Rightarrow> int option \<Rightarrow> string \<Rightarrow> int option \<Rightarrow> SafeTxBundle \<times> ExecuteResult \<Rightarrow> PhaseRecord" where
  "sent_phase oid s at' ready d =
     \<lparr>ph_seq = s, ph_at = at', ph_operation_id = Some oid, ph_ready_at = ready, ph_tx_hash = er_txHash (Product_Type.snd d),
      ph_safe_tx_hash = Some (safe_tx_hash (fst d)), ph_status = Some 1, ph_note = None\<rparr>"

definition empty_row :: RowRecord where
  "empty_row = \<lparr>rr_round = None, rr_scheduled = None, rr_executed = None, rr_cancelled = None, rr_skipped = None, rr_rest = JObj []\<rparr>"

definition row_or_first :: "RowRecord option \<Rightarrow> RowRecord" where
  "row_or_first r = (case r of None \<Rightarrow> empty_row\<lparr>rr_round := Some 1\<rparr> | Some x \<Rightarrow> x)"

definition schedulePhase :: "govern_env \<Rightarrow> string \<Rightarrow> RoundPlan \<Rightarrow> string \<Rightarrow> unit act" where
  "schedulePhase E name p emitAs =
     act_bind (act_upd (\<lambda>w. w\<lparr>gw_opIds := AList_upd name (rp_id p) (gw_opIds w)\<rparr>)) (\<lambda>_.
     act_bind (act_get (\<lambda>w. row_or_first (w_row name w))) (\<lambda>r.
     case rr_scheduled r of
       Some sched \<Rightarrow> emitPhase emitAs Scheduled sched
     | None \<Rightarrow>
         act_bind (op_state E (rp_id p)) (\<lambda>st.
         act_bind
           (if os_exists st
            then act_bind (now_act E) (\<lambda>t. act_ret (adopted_phase (rp_id p) (Some 0) t (Some (os_readyAt st)) ''already scheduled by an earlier run''))
            else act_bind (reserve E) (\<lambda>s.
                 act_bind (chain_read (rp_schedule p)) (\<lambda>b.
                 act_bind (signAndExecute E name Scheduled s b) (\<lambda>d.
                 act_bind (op_state E (rp_id p)) (\<lambda>after.
                 act_bind (now_act E) (\<lambda>t. act_ret (sent_phase (rp_id p) (Some s) t (Some (os_readyAt after)) d)))))))
           (\<lambda>sched.
         act_bind (act_upd (set_row name (r\<lparr>rr_scheduled := Some sched\<rparr>))) (\<lambda>_.
         act_bind (save E) (\<lambda>_.
         emitPhase emitAs Scheduled sched))))))"

text \<open>\<open>rec.scheduled!.ready_at\<close> of a record the schedule phase wrote.\<close>

definition sched_ready :: "RowRecord \<Rightarrow> int option act" where
  "sched_ready r = (case rr_scheduled r of None \<Rightarrow> act_throw TypeError | Some p \<Rightarrow> act_ret (ph_ready_at p))"

definition the_row :: "string \<Rightarrow> RowRecord act" where
  "the_row name w = (case w_row name w of None \<Rightarrow> (Threw TypeError, w) | Some r \<Rightarrow> (Returned r, w))"

text \<open>
  The problems the read-back finds stop the run. The on-demand rows keep in the row's record what a read-back
  without problems saw (\<open>state[name].observed\<close>); for the other rows the list is empty.
\<close>

definition check_readback :: "RoundPlan \<Rightarrow> (string \<times> js) list act" where
  "check_readback p =
     act_bind (chain_read (\<lambda>k. res_bind (rp_readBack p k) (\<lambda>bad. Inr (bad, rp_observed p k)))) (\<lambda>(bad, seen).
       if bad \<noteq> [] then govern_error else act_ret seen)"

definition note_seen :: "(string \<times> js) list \<Rightarrow> RowRecord \<Rightarrow> RowRecord" where
  "note_seen seen r = r\<lparr>rr_rest := fold (\<lambda>(k, v) o'. jput o' k v) seen (rr_rest r)\<rparr>"

definition optional_call :: "(moment \<Rightarrow> failure + 'a) option \<Rightarrow> 'a act" where
  "optional_call f = (case f of None \<Rightarrow> act_throw TypeError | Some g \<Rightarrow> chain_read g)"

definition schedule_seq :: "RowRecord \<Rightarrow> int" where
  "schedule_seq r = (case rr_scheduled r of None \<Rightarrow> 0 | Some p \<Rightarrow> or_zero (ph_seq p))"

definition cancel_rest :: "govern_env \<Rightarrow> string \<Rightarrow> RoundPlan \<Rightarrow> string \<Rightarrow> RowRecord \<Rightarrow> unit act" where
  "cancel_rest E name p emitAs r =
     act_bind (op_state E (rp_id p)) (\<lambda>st.
     act_bind
       (act_bind (now_act E) (\<lambda>t.
        act_bind (sched_ready r) (\<lambda>ready.
        if \<not> os_exists st
        then act_ret (adopted_phase (rp_id p) None t ready ''already cancelled by an earlier run'')
        else act_bind (optional_call (rp_cancel p)) (\<lambda>b.
             act_bind (signAndExecute E name Cancelled (schedule_seq r) b) (\<lambda>d.
             act_ret (sent_phase (rp_id p) None t ready d))))))
       (\<lambda>c.
     act_bind (check_readback p) (\<lambda>_.
     act_bind (act_upd (set_row name (r\<lparr>rr_cancelled := Some c\<rparr>))) (\<lambda>_.
     act_bind (save E) (\<lambda>_.
     emitPhase emitAs Cancelled c)))))"

definition cancelPhase :: "govern_env \<Rightarrow> string \<Rightarrow> RoundPlan \<Rightarrow> string \<Rightarrow> unit act" where
  "cancelPhase E name p emitAs =
     act_bind (the_row name) (\<lambda>r.
     case rr_cancelled r of
       Some c \<Rightarrow> emitPhase emitAs Cancelled c
     | None \<Rightarrow> cancel_rest E name p emitAs r)"

definition REDEPLOY_ROW :: string where "REDEPLOY_ROW = ''redeploy-vault''"

definition opens_a_vault :: "string \<Rightarrow> bool" where
  "opens_a_vault name = (starts_with ''unpause-'' name \<or> starts_with (REDEPLOY_ROW @ ''-'') name)"

definition refuseIfPausedSince :: "govern_env \<Rightarrow> string \<Rightarrow> RoundPlan \<Rightarrow> unit act" where
  "refuseIfPausedSince E name p =
     (if \<not> opens_a_vault name then act_ret ()
      else act_bind (act_get (w_row name)) (\<lambda>ro.
        case ro of
          None \<Rightarrow> act_ret ()
        | Some r \<Rightarrow>
            if rr_scheduled r = None \<or> rr_executed r \<noteq> None then act_ret ()
            else act_bind (live_pauses E) (\<lambda>ps.
              case newest_pause_after ps (schedule_seq r) of
                None \<Rightarrow> act_ret ()
              | Some newest \<Rightarrow>
                  act_bind (op_state E (rp_id p)) (\<lambda>st.
                    if os_done st \<or> \<not> os_exists st then act_ret () else govern_error))))"

text \<open>The part of the execution phase after the check.\<close>

definition execute_rest :: "govern_env \<Rightarrow> string \<Rightarrow> RoundPlan \<Rightarrow> string \<Rightarrow> RowRecord \<Rightarrow> unit act" where
  "execute_rest E name p emitAs r =
     act_bind (op_state E (rp_id p)) (\<lambda>st.
     act_bind
       (if os_done st
        then act_bind (check_readback p) (\<lambda>seen.
             act_bind (now_act E) (\<lambda>t.
             act_bind (sched_ready r) (\<lambda>ready. act_ret (seen, adopted_phase (rp_id p) None t ready ''already executed by an earlier run''))))
        else act_bind (optional_call (rp_execute p)) (\<lambda>b.
             act_bind (signAndExecute E name Executed (schedule_seq r) b) (\<lambda>d.
             act_bind (chain_read (\<lambda>k. ap_verifyTimelockEffect (ge_api E) k (fst d))) (\<lambda>eff.
             act_bind (check_readback p) (\<lambda>seen.
             act_bind (now_act E) (\<lambda>t.
             act_bind (sched_ready r) (\<lambda>ready. act_ret (seen, sent_phase (rp_id p) None t ready d))))))))
       (\<lambda>(seen, x).
     act_bind (act_upd (set_row name ((note_seen seen r)\<lparr>rr_executed := Some x\<rparr>))) (\<lambda>_.
     act_bind (save E) (\<lambda>_.
     emitPhase emitAs Executed x))))"

definition executePhase :: "govern_env \<Rightarrow> string \<Rightarrow> RoundPlan \<Rightarrow> string \<Rightarrow> unit act" where
  "executePhase E name p emitAs =
     act_bind (the_row name) (\<lambda>r.
     case rr_executed r of
       Some x \<Rightarrow> emitPhase emitAs Executed x
     | None \<Rightarrow> act_bind (refuseIfPausedSince E name p) (\<lambda>_. execute_rest E name p emitAs r))"

definition run_round :: "govern_env \<Rightarrow> nat \<Rightarrow> string \<Rightarrow> RoundPlan \<Rightarrow> string \<Rightarrow> unit act" where
  "run_round E fuel name p emitAs =
     act_bind (schedulePhase E name p emitAs) (\<lambda>_.
       if rp_cancel p \<noteq> None then cancelPhase E name p emitAs
       else act_bind (the_row name) (\<lambda>r.
         if rr_executed r \<noteq> None then executePhase E name p emitAs
         else act_bind (waitReady E fuel [(rp_id p, name)]) (\<lambda>_. executePhase E name p emitAs)))"

definition reprint :: "string \<Rightarrow> unit act" where
  "reprint name =
     act_bind (the_row name) (\<lambda>r.
     act_bind (case rr_scheduled r of None \<Rightarrow> act_ret () | Some p \<Rightarrow> emitPhase name Scheduled p) (\<lambda>_.
     act_bind (case rr_executed r of None \<Rightarrow> act_ret () | Some p \<Rightarrow> emitPhase name Executed p) (\<lambda>_.
     case rr_cancelled r of None \<Rightarrow> act_ret () | Some p \<Rightarrow> emitPhase name Cancelled p)))"

section \<open>The plan of a row\<close>

definition governSalt :: "govern_env \<Rightarrow> string \<Rightarrow> string" where
  "governSalt E label =
     ge_keccak E (''publish-contracts:govern:'' @ ge_coreSha E @ '':'' @ show_int (ge_chainId E) @ '':'' @ label)"

definition roundKey :: "string \<Rightarrow> int \<Rightarrow> string" where
  "roundKey name n = name @ '':round-'' @ show_int n"

record LabelledCall = TimelockCall +
  lcl_label :: string

definition vault_of_row :: "string \<Rightarrow> string" where
  "vault_of_row name = drop (length ''unpause-'') name"

definition encode :: "govern_env \<Rightarrow> string \<Rightarrow> js list \<Rightarrow> failure + string" where
  "encode E fn xs = of_option PlainError (encodeCall (vm (ge_viem E)) fn xs)"

definition buildStepCalls :: "govern_env \<Rightarrow> string \<Rightarrow> failure + LabelledCall list" where
  "buildStepCalls E name =
     (if starts_with ''unpause-'' name \<and> vault_of_row name \<in> set (ge_unpauseVaults E)
      then res_bind (encode E ''unpauseDeposits'' []) (\<lambda>dt.
           Inr [\<lparr>tc_target = ge_vaults E (vault_of_row name), tc_value = None, tc_data = dt,
                 lcl_label = ge_vaultName E (vault_of_row name) @ ''.unpauseDeposits''\<rparr>])
      else Inr [])"

definition readBackStep :: "govern_env \<Rightarrow> string \<Rightarrow> moment \<Rightarrow> failure + string list" where
  "readBackStep E name k =
     (if starts_with ''unpause-'' name
      then res_bind (of_option PlainError (ge_depositsPaused E k (ge_vaults E (vault_of_row name)))) (\<lambda>paused.
           Inr (if paused then [ge_vaultName E (vault_of_row name) @ ''.depositsPaused''] else []))
      else Inr [])"

definition join_semi :: "string list \<Rightarrow> string" where
  "join_semi xs = concat (case xs of [] \<Rightarrow> [] | y # ys \<Rightarrow> y # map (\<lambda>x. ''; '' @ x) ys)"

definition labelled_call :: "LabelledCall \<Rightarrow> TimelockCall" where
  "labelled_call c = \<lparr>tc_target = tc_target c, tc_value = None, tc_data = tc_data c\<rparr>"

definition orderedPlan ::
  "govern_env \<Rightarrow> string \<Rightarrow> string option \<Rightarrow> string option \<Rightarrow> LabelledCall list \<Rightarrow> string \<Rightarrow> (moment \<Rightarrow> failure + string list) \<Rightarrow> RoundPlan act" where
  "orderedPlan E name pre predecessor calls saltName readBack =
     (let o' = \<lparr>od_timelock = ge_timelock E, od_description = None, od_calls = map labelled_call calls,
               od_predecessor = truthy_str predecessor, od_salt = governSalt E saltName,
               od_form = (if length calls = 1 then Single else Batch)\<rparr> in
      act_bind (chain_read (\<lambda>k. ap_operationId (ge_api E) k o')) (\<lambda>oid.
      act_ret
        \<lparr>rp_id = oid, rp_dependsOn = pre,
         rp_schedule = (\<lambda>k. ap_scheduleOnTimelock (ge_api E) k
           (o'\<lparr>od_description := Some (name @ '' ('' @ show_nat (length calls) @ '' calls): '' @ join_semi (map lcl_label calls))\<rparr>)),
         rp_execute = Some (\<lambda>k. ap_executeOnTimelock (ge_api E) k (o'\<lparr>od_description := Some (name @ '' execute'')\<rparr>)),
         rp_cancel = None, rp_readBack = readBack, rp_observed = (\<lambda>_. [])\<rparr>))"

text \<open>The three demonstrations of the Safe tool.\<close>

definition plan_update_delay :: "govern_env \<Rightarrow> RoundPlan act" where
  "plan_update_delay E =
     (let lock = ge_timelock E; newDelay = ge_newDelay E; s = governSalt E ''update-delay'';
          params = (\<lambda>phase descr. \<lparr>ud_timelock = lock, ud_description = Some descr, ud_newDelay = newDelay, ud_phase = phase, ud_salt = s,
                      ud_predecessor = None, ud_delay = None, ud_allowUnsafeDelay = False, ud_deploymentKind = Some (ge_kind E)\<rparr>) in
      act_bind (chain_read (\<lambda>_. encode E ''updateDelay'' [JBig newDelay])) (\<lambda>inner.
      act_bind (chain_read (\<lambda>k. ap_operationId (ge_api E) k
        \<lparr>od_timelock = lock, od_description = None, od_calls = [\<lparr>tc_target = lock, tc_value = None, tc_data = inner\<rparr>],
         od_predecessor = None, od_salt = s, od_form = Single\<rparr>)) (\<lambda>oid.
      act_ret
        \<lparr>rp_id = oid, rp_dependsOn = None,
         rp_schedule = (\<lambda>k. ap_updateTimelockDelay (ge_api E) k (params PSchedule (''update-delay: updateDelay to '' @ show_int newDelay))),
         rp_execute = Some (\<lambda>k. ap_updateTimelockDelay (ge_api E) k (params PExecute (''update-delay: execute updateDelay to '' @ show_int newDelay))),
         rp_cancel = None,
         rp_readBack = (\<lambda>k. res_bind (ap_timelockMinDelay (ge_api E) k lock) (\<lambda>now.
           Inr (if now = newDelay then [] else [''getMinDelay is '' @ show_int now @ '', want '' @ show_int newDelay]))),
         rp_observed = (\<lambda>_. [])\<rparr>)))"

definition plan_batch :: "govern_env \<Rightarrow> string option \<Rightarrow> string option \<Rightarrow> RoundPlan act" where
  "plan_batch E pre predecessor =
     (let lock = ge_timelock E; usdc = ge_vaults E ''USDC''; cap = (\<lambda>k. of_option PlainError (ge_perDepositCap E k usdc)) in
      act_bind (chain_read (\<lambda>k. ap_timelockMinDelay (ge_api E) k lock)) (\<lambda>delay.
      act_bind (chain_read cap) (\<lambda>liveCap.
      act_bind (chain_read (\<lambda>_. encode E ''updateDelay'' [JBig delay])) (\<lambda>d1.
      act_bind (chain_read (\<lambda>_. encode E ''setPerDepositCap'' [JBig liveCap])) (\<lambda>d2.
      orderedPlan E ''batch'' pre predecessor
        [\<lparr>tc_target = lock, tc_value = None, tc_data = d1, lcl_label = ''timelock.updateDelay(unchanged)''\<rparr>,
         \<lparr>tc_target = usdc, tc_value = None, tc_data = d2, lcl_label = ''rmUSDC.setPerDepositCap(unchanged)''\<rparr>]
        ''batch''
        (\<lambda>k. res_bind (ap_timelockMinDelay (ge_api E) k lock) (\<lambda>now.
             res_bind (cap k) (\<lambda>c.
             Inr ((if now \<noteq> delay then [''getMinDelay changed''] else []) @ (if c \<noteq> liveCap then [''rmUSDC.perDepositCap changed''] else []))))))))))"

definition plan_cancel :: "govern_env \<Rightarrow> RoundPlan act" where
  "plan_cancel E =
     (let lock = ge_timelock E in
      act_bind (chain_read (\<lambda>k. ap_timelockMinDelay (ge_api E) k lock)) (\<lambda>delay.
      act_bind (chain_read (\<lambda>_. encode E ''updateDelay'' [JBig delay])) (\<lambda>inner.
      let o' = \<lparr>od_timelock = lock, od_description = None, od_calls = [\<lparr>tc_target = lock, tc_value = None, tc_data = inner\<rparr>],
               od_predecessor = None, od_salt = governSalt E ''cancel'', od_form = Single\<rparr> in
      act_bind (chain_read (\<lambda>k. ap_operationId (ge_api E) k o')) (\<lambda>oid.
      act_ret
        \<lparr>rp_id = oid, rp_dependsOn = None,
         rp_schedule = (\<lambda>k. ap_scheduleOnTimelock (ge_api E) k (o'\<lparr>od_description := Some ''cancel: a no-op operation that the Safe cancels''\<rparr>)),
         rp_execute = None,
         rp_cancel = Some (\<lambda>k. ap_cancelOnTimelock (ge_api E) k lock (Some ''cancel: cancel the no-op'') oid),
         rp_readBack = (\<lambda>k. res_bind (ap_operationState (ge_api E) k lock oid) (\<lambda>st.
           Inr (if os_pending st \<or> os_exists st then [''the cancelled operation is still on the timelock''] else []))),
         rp_observed = (\<lambda>_. [])\<rparr>))))"

definition labelOf :: "string \<Rightarrow> gworld \<Rightarrow> string" where
  "labelOf name w = roundKey name (case w_row name w of None \<Rightarrow> 1 | Some r \<Rightarrow> (case rr_round r of None \<Rightarrow> 1 | Some n \<Rightarrow> n))"

text \<open>The plan of a row, or (\<^const>\<open>Inl\<close>) the reason to skip it.\<close>

definition plan :: "govern_env \<Rightarrow> string \<Rightarrow> (string + RoundPlan) act" where
  "plan E name =
     (let pre = map_of (ge_dependsOn E) name in
      act_bind (case pre of
                  None \<Rightarrow> act_ret None
                | Some q \<Rightarrow> act_bind (act_get (\<lambda>w. map_of (gw_opIds w) q)) (\<lambda>oid. if oid = None then govern_error else act_ret oid))
        (\<lambda>predecessor.
      if name = ''update-delay'' then act_bind (plan_update_delay E) (\<lambda>p. act_ret (Inr p))
      else if name = ''batch'' then act_bind (plan_batch E pre predecessor) (\<lambda>p. act_ret (Inr p))
      else if name = ''cancel'' then act_bind (plan_cancel E) (\<lambda>p. act_ret (Inr p))
      else act_bind (chain_read (\<lambda>_. buildStepCalls E name)) (\<lambda>calls.
        if calls = [] then act_ret (Inl (vault_of_row name @ '' is not in GOVERN_UNPAUSE_VAULTS: it stays paused''))
        else act_bind (act_get (labelOf name)) (\<lambda>label.
             act_bind (orderedPlan E name pre predecessor calls label (readBackStep E name)) (\<lambda>p. act_ret (Inr p))))))"

section \<open>The unpause rows as a set\<close>

definition pausedNow :: "govern_env \<Rightarrow> string \<Rightarrow> bool act" where
  "pausedNow E name = chain_read (\<lambda>k. of_option PlainError (ge_depositsPaused E k (ge_vaults E (vault_of_row name))))"

definition round_of :: "RowRecord \<Rightarrow> int" where
  "round_of r = (case rr_round r of None \<Rightarrow> 1 | Some n \<Rightarrow> n)"

definition cancelledKey :: "string \<Rightarrow> int \<Rightarrow> nat \<Rightarrow> string" where
  "cancelledKey name n k = roundKey name n @ '':cancelled-'' @ show_nat k"

text \<open>\<open>while (state[key k]) k++\<close>: among one more numbers than there are rows, one is free.\<close>

definition free_cancelled :: "string \<Rightarrow> int \<Rightarrow> (string \<times> RowRecord) list \<Rightarrow> string" where
  "free_cancelled name n rows =
     (case find (\<lambda>k. cancelledKey name n k \<notin> set (map fst rows)) [1..<length rows + 2] of
        None \<Rightarrow> [] | Some k \<Rightarrow> cancelledKey name n k)"

text \<open>The round whose operation the operator cancelled through the Safe is kept under its own key and starts again.\<close>

definition reopen_row :: "govern_env \<Rightarrow> string \<Rightarrow> RowRecord \<Rightarrow> unit act" where
  "reopen_row E name r =
     (case truthy_str (Option.bind (rr_scheduled r) ph_operation_id) of
        None \<Rightarrow> act_ret ()
      | Some oid \<Rightarrow>
          if ge_selected E \<noteq> Some name \<or> rowComplete (Some r) then act_ret ()
          else act_bind (op_state E oid) (\<lambda>st.
                 if \<not> os_exists st \<and> \<not> os_done st
                 then act_bind (act_upd (\<lambda>w. set_row name (empty_row\<lparr>rr_round := Some (round_of r)\<rparr>)
                                             (set_row (free_cancelled name (round_of r) (rm_govern (w_mem w))) r w))) (\<lambda>_.
                      save E)
                 else act_ret ()))"

definition reopen_cancelled :: "govern_env \<Rightarrow> string \<Rightarrow> unit act" where
  "reopen_cancelled E name =
     act_bind (act_get (w_row name)) (\<lambda>cur. case cur of None \<Rightarrow> act_ret () | Some r \<Rightarrow> reopen_row E name r)"

text \<open>A complete row: reprinted and left, unless its vault reads paused again. The answer is whether to go on with the row.\<close>

definition complete_row :: "govern_env \<Rightarrow> string \<Rightarrow> RowRecord \<Rightarrow> bool act" where
  "complete_row E name prev =
     act_bind (if rr_executed prev \<noteq> None then pausedNow E name else act_ret False) (\<lambda>again.
       if again
       then (if ge_selected E \<noteq> Some name then govern_error
             else act_bind (act_upd (\<lambda>w. set_row name (empty_row\<lparr>rr_round := Some (round_of prev + 1)\<rparr>)
                                         (set_row (roundKey name (round_of prev)) prev w))) (\<lambda>_.
                  act_bind (save E) (\<lambda>_. act_ret True)))
       else act_bind (case truthy_str (Option.bind (rr_scheduled prev) ph_operation_id) of
                        None \<Rightarrow> act_ret ()
                      | Some oid \<Rightarrow> act_upd (\<lambda>w. w\<lparr>gw_opIds := AList_upd name oid (gw_opIds w)\<rparr>)) (\<lambda>_.
            act_bind (reprint name) (\<lambda>_. act_ret False)))"

text \<open>A row that is not complete: skipped, refused, or scheduled.\<close>

definition open_planned :: "govern_env \<Rightarrow> string \<Rightarrow> string + RoundPlan \<Rightarrow> RoundPlan option act" where
  "open_planned E name pl =
     (case pl of
        Inl reason \<Rightarrow>
          act_bind (now_act E) (\<lambda>t.
          act_bind (act_upd (set_row name (empty_row\<lparr>rr_skipped := Some (t, reason)\<rparr>))) (\<lambda>_.
          act_bind (save E) (\<lambda>_.
          act_bind (act_upd (\<lambda>w. w\<lparr>gw_skipped := gw_skipped w @ [name]\<rparr>)) (\<lambda>_. act_ret None))))
      | Inr p \<Rightarrow>
          act_bind (act_get (w_row name)) (\<lambda>ro.
          act_bind
            (if (case ro of None \<Rightarrow> True | Some r \<Rightarrow> rr_scheduled r = None)
             then act_bind (op_state E (rp_id p)) (\<lambda>st.
                  if os_exists st then act_ret () else act_bind (pausedNow E name) (\<lambda>paused. if paused then act_ret () else govern_error))
             else act_ret ()) (\<lambda>_.
          act_bind (schedulePhase E name p name) (\<lambda>_. act_ret (Some p)))))"

definition open_row :: "govern_env \<Rightarrow> string \<Rightarrow> RoundPlan option act" where
  "open_row E name = act_bind (plan E name) (open_planned E name)"

definition set_member :: "govern_env \<Rightarrow> string \<Rightarrow> RoundPlan option act" where
  "set_member E name =
     act_bind (reopen_cancelled E name) (\<lambda>_.
     act_bind (act_get (w_row name)) (\<lambda>ro.
     act_bind (case ro of
                 None \<Rightarrow> act_ret True
               | Some prev \<Rightarrow> if rowComplete ro then complete_row E name prev else act_ret True) (\<lambda>go.
     if go then open_row E name else act_ret None)))"

fun schedule_set :: "govern_env \<Rightarrow> string list \<Rightarrow> (string \<times> RoundPlan) list act" where
  "schedule_set E [] = act_ret []"
| "schedule_set E (name # ns) =
     act_bind (set_member E name) (\<lambda>p.
     act_bind (schedule_set E ns) (\<lambda>live.
     act_ret (case p of None \<Rightarrow> live | Some q \<Rightarrow> (name, q) # live)))"

fun each_act :: "('a \<Rightarrow> unit act) \<Rightarrow> 'a list \<Rightarrow> unit act" where
  "each_act f [] = act_ret ()"
| "each_act f (x # xs) = act_bind (f x) (\<lambda>_. each_act f xs)"

definition execute_member :: "govern_env \<Rightarrow> string \<times> RoundPlan \<Rightarrow> unit act" where
  "execute_member E x =
     act_bind (executePhase E (fst x) (Product_Type.snd x) (fst x)) (\<lambda>_. act_upd (\<lambda>w. w\<lparr>gw_ran := gw_ran w @ [fst x]\<rparr>))"

definition runSet :: "govern_env \<Rightarrow> nat \<Rightarrow> string list \<Rightarrow> unit act" where
  "runSet E fuel names =
     act_bind (schedule_set E names) (\<lambda>live.
     act_bind (each_act (\<lambda>x. refuseIfPausedSince E (fst x) (Product_Type.snd x)) live) (\<lambda>_.
     act_bind (waitReady E fuel (map (\<lambda>x. (rp_id (Product_Type.snd x), fst x)) live)) (\<lambda>_.
     each_act (execute_member E) live)))"

section \<open>A run of the stage\<close>

definition TWIN_ONLY_ROWS :: "string list" where "TWIN_ONLY_ROWS = [''update-delay'', ''batch'', ''cancel'']"
definition isTwinOnlyRow :: "string \<Rightarrow> bool" where "isTwinOnlyRow name = (name \<in> set TWIN_ONLY_ROWS)"

definition GOVERN_ROWS :: "govern_env \<Rightarrow> string list" where "GOVERN_ROWS E = ge_unpauseRows E @ TWIN_ONLY_ROWS"

definition stageRows :: "govern_env \<Rightarrow> string list" where
  "stageRows E = (if ge_chainId E = MAINNET_CHAIN_ID then ge_stage13Rows E else GOVERN_ROWS E)"

definition twinOnlyRefused :: "string \<Rightarrow> int \<Rightarrow> DeploymentKind \<Rightarrow> bool" where
  "twinOnlyRefused name chainId kind = (isTwinOnlyRow name \<and> chainId = MAINNET_CHAIN_ID \<and> kind \<noteq> Rehearsal)"

definition twin_member :: "govern_env \<Rightarrow> nat \<Rightarrow> string \<Rightarrow> unit act" where
  "twin_member E fuel name =
     act_bind (act_get (w_row name)) (\<lambda>ro.
     if rowComplete ro then reprint name
     else act_bind (act_get (\<lambda>w. list_ex (\<lambda>n. \<not> rowComplete (w_row n w)) (takeWhile (\<lambda>n. n \<noteq> name) (GOVERN_ROWS E)))) (\<lambda>blocked.
       if blocked then govern_error
       else act_bind (plan E name) (\<lambda>pl.
         case pl of
           Inl _ \<Rightarrow> govern_error
         | Inr p \<Rightarrow>
             act_bind (run_round E fuel name p name) (\<lambda>_.
             act_upd (\<lambda>w. w\<lparr>gw_ran := gw_ran w @ [name]\<rparr>)))))"

definition mark_done :: "govern_env \<Rightarrow> string \<Rightarrow> gworld \<Rightarrow> gworld" where
  "mark_done E stage w =
     (let m = w_mem w in
      if list_all (\<lambda>n. rowComplete (w_row n w)) (stageRows E)
         \<and> (case map_of (rm_stages m) stage of None \<Rightarrow> True | Some r \<Rightarrow> jget r ''status'' \<noteq> JStr ''done'')
      then w\<lparr>gw_ms := (gw_ms w)\<lparr>ms_mem := m\<lparr>rm_stages := AList_upd stage
             (JObj [(''status'', JStr ''done''), (''startedAt'', JStr (ge_now E (gw_tick w))), (''finishedAt'', JStr (ge_now E (gw_tick w))),
                    (''steps'', JNum (of_nat (length (rm_govern m))))]) (rm_stages m)\<rparr>\<rparr>\<rparr>
      else w)"

text \<open>The end of \<open>runGovern\<close>: the stage's rows, or the one selected.\<close>

definition runRows :: "govern_env \<Rightarrow> nat \<Rightarrow> string \<Rightarrow> unit act" where
  "runRows E fuel stage =
     (let wanted = (case ge_selected E of None \<Rightarrow> stageRows E | Some n \<Rightarrow> [n]);
          unpauses = filter (\<lambda>n. \<not> isTwinOnlyRow n) wanted in
      act_bind (if unpauses = [] then act_ret () else runSet E fuel unpauses) (\<lambda>_.
      act_bind (each_act (twin_member E fuel) (filter isTwinOnlyRow wanted)) (\<lambda>_.
      act_bind (act_upd (mark_done E stage)) (\<lambda>_. save E))))"

end
