(* ===== verification/RoundSafety.thy ===== *)
theory RoundSafety
  imports Rounds
begin

text \<open>
  What a run of the governance rounds keeps, whatever the chain answers and whatever pause-alls write to the file
  meanwhile. The locale \<open>run_invariant\<close> is the contract of an invariant with the primitive actions; its lemmas
  carry it through every action that neither sends nor edits a row.
\<close>

section \<open>Invariants of actions\<close>

definition keeps :: "(gworld \<Rightarrow> bool) \<Rightarrow> 'a act \<Rightarrow> bool" where
  "keeps I m \<longleftrightarrow> (\<forall>w. I w \<longrightarrow> I (Product_Type.snd (m w)))"

text \<open>With what holds before, and of the value returned.\<close>

definition triple :: "(gworld \<Rightarrow> bool) \<Rightarrow> (gworld \<Rightarrow> bool) \<Rightarrow> 'a act \<Rightarrow> ('a \<Rightarrow> gworld \<Rightarrow> bool) \<Rightarrow> bool" where
  "triple I P m Q \<longleftrightarrow>
     (\<forall>w. I w \<and> P w \<longrightarrow> I (Product_Type.snd (m w)) \<and> (\<forall>a. fst (m w) = Returned a \<longrightarrow> Q a (Product_Type.snd (m w))))"

named_theorems keeps_intros \<open>actions that keep an invariant\<close>

lemma keeps_ret [keeps_intros]: "keeps I (act_ret a)"
  by (simp add: keeps_def act_ret_def)

lemma keeps_throw [keeps_intros]: "keeps I (act_throw e)" "keeps I govern_error"
  by (simp_all add: keeps_def act_throw_def govern_error_def)

lemma keeps_get [keeps_intros]: "keeps I (act_get f)" "keeps I (now_act E)"
  by (simp_all add: keeps_def act_get_def now_act_def)

lemma keeps_the_row [keeps_intros]: "keeps I (the_row name)"
  by (simp add: keeps_def the_row_def split: option.splits)

lemma keeps_sched_ready [keeps_intros]: "keeps I (sched_ready r)"
  by (simp add: sched_ready_def keeps_intros split: option.splits)

lemma keeps_bind [keeps_intros]: "keeps I m \<Longrightarrow> (\<And>a. keeps I (f a)) \<Longrightarrow> keeps I (act_bind m f)"
  by (fastforce simp: keeps_def act_bind_def split: prod.splits outcome.splits)

lemma keeps_if [keeps_intros]: "(c \<Longrightarrow> keeps I m) \<Longrightarrow> (\<not> c \<Longrightarrow> keeps I n) \<Longrightarrow> keeps I (if c then m else n)"
  by simp

lemma keeps_case [keeps_intros]:
  "keeps I m \<Longrightarrow> (\<And>x. v = Some x \<Longrightarrow> keeps I (n x)) \<Longrightarrow> keeps I (case v of None \<Rightarrow> m | Some x \<Rightarrow> n x)"
  "(\<And>x. keeps I (g x)) \<Longrightarrow> (\<And>x. keeps I (h x)) \<Longrightarrow> keeps I (case u of Inl x \<Rightarrow> g x | Inr x \<Rightarrow> h x)"
  "(\<And>x y. keeps I (k x y)) \<Longrightarrow> keeps I (case q of (x, y) \<Rightarrow> k x y)"
  by (simp_all split: option.splits sum.splits prod.splits)

lemma keeps_upd: "(\<And>w. I w \<Longrightarrow> I (f w)) \<Longrightarrow> keeps I (act_upd f)"
  by (simp add: keeps_def act_upd_def)

lemma keeps_each [keeps_intros]: "(\<And>x. x \<in> set xs \<Longrightarrow> keeps I (f x)) \<Longrightarrow> keeps I (each_act f xs)"
  by (induction xs) (auto intro!: keeps_intros)

lemma keepsD: "keeps I m \<Longrightarrow> I w \<Longrightarrow> m w = (r, w') \<Longrightarrow> I w'"
  by (force simp: keeps_def)

lemma triple_of_keeps: "keeps I m \<Longrightarrow> triple I P m (\<lambda>_ _. True)"
  by (simp add: keeps_def triple_def)

lemma keeps_of_triple: "triple I (\<lambda>_. True) m Q \<Longrightarrow> keeps I m"
  by (simp add: keeps_def triple_def)

lemma triple_bind: "triple I P m R \<Longrightarrow> (\<And>a. triple I (R a) (f a) Q) \<Longrightarrow> triple I P (act_bind m f) Q"
  unfolding triple_def act_bind_def
  by (intro allI impI) (erule_tac x = w in allE, auto split: prod.splits outcome.splits)

lemma triple_ret: "(\<And>w. I w \<Longrightarrow> P w \<Longrightarrow> Q a w) \<Longrightarrow> triple I P (act_ret a) Q"
  by (simp add: triple_def act_ret_def)

lemma triple_throw: "triple I P (act_throw e) Q" "triple I P govern_error Q"
  by (simp_all add: triple_def act_throw_def govern_error_def)

lemma triple_get: "(\<And>w. I w \<Longrightarrow> P w \<Longrightarrow> Q (f w) w) \<Longrightarrow> triple I P (act_get f) Q"
  by (simp add: triple_def act_get_def)

lemma triple_pre: "triple I P m Q \<Longrightarrow> (\<And>w. I w \<Longrightarrow> P' w \<Longrightarrow> P w) \<Longrightarrow> triple I P' m Q"
  by (simp add: triple_def)

lemma triple_post: "triple I P m Q \<Longrightarrow> (\<And>a w. I w \<Longrightarrow> Q a w \<Longrightarrow> Q' a w) \<Longrightarrow> triple I P m Q'"
  by (simp add: triple_def)

section \<open>The contract of an invariant\<close>

locale run_invariant =
  fixes I :: "gworld \<Rightarrow> bool"
  assumes I_tick: "I w \<Longrightarrow> I (w\<lparr>gw_tick := n\<rparr>)"
    and I_lines: "I w \<Longrightarrow> I (w\<lparr>gw_lines := ls\<rparr>)"
    and I_opIds: "I w \<Longrightarrow> I (w\<lparr>gw_opIds := ids\<rparr>)"
    and I_ran: "I w \<Longrightarrow> I (w\<lparr>gw_ran := ns\<rparr>)"
    and I_skipped: "I w \<Longrightarrow> I (w\<lparr>gw_skipped := ns\<rparr>)"
    and I_pause: "I w \<Longrightarrow> I (w\<lparr>gw_ms := apply_pause a (gw_ms w)\<rparr>)"
    and I_look: "I w \<Longrightarrow> ps = livePauses (ms_file (gw_ms w)) (w_mem w) \<Longrightarrow>
      I (w\<lparr>gw_ms := (gw_ms w)\<lparr>ms_mem := (w_mem w)\<lparr>rm_pauses := ps\<rparr>\<rparr>\<rparr>)"
    and I_save: "I w \<Longrightarrow> saveRunManifest (ms_file (gw_ms w)) (w_mem w) = (f, m) \<Longrightarrow>
      I (w\<lparr>gw_ms := (gw_ms w)\<lparr>ms_file := f, ms_mem := m\<rparr>\<rparr>)"
    and I_reserve: "I w \<Longrightarrow> reserveManifestSeq (ms_file (gw_ms w)) (w_mem w) = (s, f, m) \<Longrightarrow>
      I (w\<lparr>gw_ms := (gw_ms w)\<lparr>ms_file := f, ms_mem := m, ms_log := ms_log (gw_ms w) @ [Reserved s]\<rparr>\<rparr>)"
begin

lemma I_others: "I w \<Longrightarrow> I (w\<lparr>gw_ms := others E w\<rparr>)"
proof -
  have "I v \<Longrightarrow> I (v\<lparr>gw_ms := fold apply_pause as (gw_ms v)\<rparr>)" for v as
  proof (induction as arbitrary: v)
    case (Cons a as)
    from Cons.IH [OF I_pause [OF Cons.prems, of a]] show ?case by simp
  qed simp
  then show "I w \<Longrightarrow> I (w\<lparr>gw_ms := others E w\<rparr>)" by (simp add: others_def)
qed

lemma keeps_chain_read [keeps_intros]: "keeps I (chain_read f)"
  by (simp add: keeps_def chain_read_def I_tick)

lemma keeps_save [keeps_intros]: "keeps I (save E)"
proof -
  have "I (w\<lparr>gw_ms := s, gw_tick := n\<rparr>)" if "I w" "saveRunManifest (ms_file (others E w)) (ms_mem (others E w)) = (f, m)"
    "s = (others E w)\<lparr>ms_file := f, ms_mem := m\<rparr>" for w s n f m
    using I_tick [OF I_save [OF I_others [OF that(1), of E]], of f m n] that(2,3) by (simp add: w_mem_def)
  then show ?thesis
    by (auto simp: keeps_def save_def locked_def I_others I_tick split: prod.splits)
qed

lemma keeps_reserve [keeps_intros]: "keeps I (reserve E)"
proof -
  have "I (w\<lparr>gw_ms := s, gw_tick := n\<rparr>)" if "I w" "reserveManifestSeq (ms_file (others E w)) (ms_mem (others E w)) = (k, f, m)"
    "s = (others E w)\<lparr>ms_file := f, ms_mem := m, ms_log := ms_log (others E w) @ [Reserved k]\<rparr>" for w s n k f m
    using I_tick [OF I_reserve [OF I_others [OF that(1), of E]], of k f m n] that(2,3) by (simp add: w_mem_def)
  then show ?thesis
    by (auto simp: keeps_def reserve_def locked_def I_others I_tick split: prod.splits)
qed

lemma keeps_live_pauses [keeps_intros]: "keeps I (live_pauses E)"
  using I_tick [OF I_look [OF I_others]] by (auto simp: keeps_def live_pauses_def Let_def w_mem_def)

lemma keeps_side [keeps_intros]:
  "keeps I (emitPhase n ph r)"
  "keeps I (act_upd (\<lambda>w. w\<lparr>gw_opIds := ids w\<rparr>))"
  "keeps I (act_upd (\<lambda>w. w\<lparr>gw_ran := ns w\<rparr>))"
  "keeps I (act_upd (\<lambda>w. w\<lparr>gw_skipped := ns w\<rparr>))"
  by (auto simp: emitPhase_def intro!: keeps_upd keeps_intros intro: I_lines I_opIds I_ran I_skipped)

lemma keeps_reads [keeps_intros]:
  "keeps I (op_state E oid)" "keeps I (check_readback p)" "keeps I (optional_call g)" "keeps I (pausedNow E name)"
  by (auto simp: op_state_def check_readback_def optional_call_def pausedNow_def intro!: keeps_intros)

lemma keeps_sign_loop [keeps_intros]: "keeps I (sign_loop E ss n b)"
  by (induction ss arbitrary: n b) (auto intro!: keeps_intros)

lemma keeps_latest_ready [keeps_intros]: "keeps I (latest_ready E ops n)"
  by (induction ops arbitrary: n) (auto intro!: keeps_intros)

lemma keeps_waitReady [keeps_intros]: "keeps I (waitReady E fuel ops)"
proof (induction fuel)
  case (Suc fuel)
  have "waitReady E (Suc fuel) ops = (\<lambda>w. waitReady E (Suc fuel) ops w)" ..
  then show ?case using Suc by (simp only: waitReady.simps) (intro keeps_intros; simp add: Let_def; intro keeps_intros conjI impI)
qed (simp add: keeps_def)

lemma keeps_refuse [keeps_intros]: "keeps I (refuseIfPausedSince E name p)"
  unfolding refuseIfPausedSince_def by (intro keeps_intros)

lemma keeps_reprint [keeps_intros]: "keeps I (reprint name)"
  unfolding reprint_def by (intro keeps_intros)

lemma keeps_plan [keeps_intros]: "keeps I (plan E name)"
  unfolding plan_def plan_update_delay_def plan_batch_def plan_cancel_def orderedPlan_def Let_def
  by (intro keeps_intros)

end

section \<open>Reachable manifests and what was sent\<close>

text \<open>No pause-all began after the number \<open>n\<close> was reserved; with no number, none began at all.\<close>

definition unpaused_since :: "int \<Rightarrow> handout list \<Rightarrow> bool" where
  "unpaused_since n l \<longleftrightarrow>
     (if n = 0 then \<nexists>t. Began t \<in> set l else \<exists>xs ys. l = xs @ Reserved n # ys \<and> (\<nexists>t. Began t \<in> set ys))"

definition sent_ok :: "sent \<Rightarrow> bool" where
  "sent_ok s \<longleftrightarrow> (sd_phase s = Executed \<and> opens_a_vault (sd_row s) \<longrightarrow> unpaused_since (sd_seq s) (sd_log s))"

definition row_scheduled :: "gworld \<Rightarrow> string \<Rightarrow> bool" where
  "row_scheduled w name \<longleftrightarrow> (\<exists>r. w_row name w = Some r \<and> rr_scheduled r \<noteq> None)"

text \<open>
  The invariant of a run: the manifests are ones the two processes can reach from a manifest with no rows, the
  numbers of \<open>S\<close> were handed out, the rows of \<open>X\<close> are scheduled, and every execution sent was of a round that no
  pause-all had overtaken.
\<close>

definition govern_inv :: "RunManifest \<Rightarrow> handout set \<Rightarrow> string set \<Rightarrow> gworld \<Rightarrow> bool" where
  "govern_inv m0 S X w \<longleftrightarrow>
     rm_govern m0 = [] \<and> manifest_reach (manifest_start m0) (gw_ms w) \<and> S \<subseteq> set (ms_log (gw_ms w)) \<and>
     (\<forall>n\<in>X. row_scheduled w n) \<and> (\<forall>s\<in>set (gw_sent w). sent_ok s)"

lemma apply_pause_step: "apply_pause a s = s \<or> manifest_step s (apply_pause a s)"
  by (cases a) (auto split: sum.splits option.splits intro: manifest_step.intros)

lemma apply_pause_mem [simp]: "ms_mem (apply_pause a s) = ms_mem s"
  by (cases a) (auto split: sum.splits option.splits)

lemma manifest_step_log: "manifest_step s s' \<Longrightarrow> set (ms_log s) \<subseteq> set (ms_log s')"
  by (auto elim: manifest_stepE)

lemma govern_inv_step:
  assumes "govern_inv m0 S X w" "manifest_step (gw_ms w) s" "rm_govern (ms_mem s) = rm_govern (w_mem w)"
  shows "govern_inv m0 S X (w\<lparr>gw_ms := s\<rparr>)"
  using assms manifest_step_log [OF assms(2)]
  by (auto simp: govern_inv_def row_scheduled_def w_row_def w_mem_def intro: manifest_reach.step)

interpretation gov: run_invariant "govern_inv m0 S X" for m0 S X
proof
  fix w a assume w: "govern_inv m0 S X w"
  show "govern_inv m0 S X (w\<lparr>gw_ms := apply_pause a (gw_ms w)\<rparr>)"
    using apply_pause_step [of a "gw_ms w"] govern_inv_step [OF w, of "apply_pause a (gw_ms w)"] w by (auto simp: w_mem_def)
next
  fix w ps assume w: "govern_inv m0 S X w" and "ps = livePauses (ms_file (gw_ms w)) (w_mem w)"
  then show "govern_inv m0 S X (w\<lparr>gw_ms := (gw_ms w)\<lparr>ms_mem := (w_mem w)\<lparr>rm_pauses := ps\<rparr>\<rparr>\<rparr>)"
    by (intro govern_inv_step [OF w]) (auto simp: w_mem_def intro: manifest_step.look)
next
  fix w f m assume w: "govern_inv m0 S X w" and r: "saveRunManifest (ms_file (gw_ms w)) (w_mem w) = (f, m)"
  then have "rm_govern m = rm_govern (w_mem w)" by (auto simp: saveRunManifest_def Let_def)
  with w r show "govern_inv m0 S X (w\<lparr>gw_ms := (gw_ms w)\<lparr>ms_file := f, ms_mem := m\<rparr>\<rparr>)"
    by (intro govern_inv_step [OF w]) (auto simp: w_mem_def intro: manifest_step.save)
next
  fix w s f m assume w: "govern_inv m0 S X w" and r: "reserveManifestSeq (ms_file (gw_ms w)) (w_mem w) = (s, f, m)"
  then have "rm_govern m = rm_govern (w_mem w)" by (auto simp: reserveManifestSeq_def Let_def)
  with w r show "govern_inv m0 S X (w\<lparr>gw_ms := (gw_ms w)\<lparr>ms_file := f, ms_mem := m, ms_log := ms_log (gw_ms w) @ [Reserved s]\<rparr>\<rparr>)"
    by (intro govern_inv_step [OF w]) (auto simp: w_mem_def intro: manifest_step.reserve)
qed (auto simp: govern_inv_def row_scheduled_def w_row_def w_mem_def)

lemmas gov_keeps [keeps_intros] =
  gov.keeps_chain_read gov.keeps_save gov.keeps_reserve gov.keeps_live_pauses gov.keeps_side gov.keeps_reads gov.keeps_sign_loop
  gov.keeps_latest_ready gov.keeps_waitReady gov.keeps_refuse gov.keeps_reprint gov.keeps_plan

section \<open>Rows\<close>

definition row_stamped :: "handout set \<Rightarrow> RowRecord \<Rightarrow> bool" where
  "row_stamped S r \<longleftrightarrow> schedule_seq r = 0 \<or> Reserved (schedule_seq r) \<in> S"

lemma row_stamped_none [simp]: "rr_scheduled r = None \<Longrightarrow> row_stamped S r"
  by (simp add: row_stamped_def schedule_seq_def)

lemma w_row_stamped:
  assumes "govern_inv m0 S X w" "w_row name w = Some r"
  shows "row_stamped (set (ms_log (gw_ms w))) r"
proof -
  have "state_stamped (gw_ms w)" using assms(1) state_stamped_reach by (auto simp: govern_inv_def)
  then have "\<forall>p\<in>set (governScheduled (w_mem w)). stamped_in (ms_log (gw_ms w)) p"
    by (simp add: state_stamped_def rows_stamped_def w_mem_def)
  moreover have "p \<in> set (governScheduled (w_mem w))" if "rr_scheduled r = Some p" for p
    using map_of_SomeD [of "rm_govern (w_mem w)" name r] assms(2) that by (force simp: w_row_def governScheduled_def)
  ultimately show ?thesis
    by (cases "rr_scheduled r") (auto simp: row_stamped_def schedule_seq_def stamped_in_def)
qed

lemma w_row_set_row [simp]: "w_row n (set_row name r w) = (if n = name then Some r else w_row n w)"
  by (simp add: w_row_def set_row_def w_mem_def map_of_AList_upd)

lemma set_governScheduled: "set (governScheduled m) = {p. \<exists>n r. (n, r) \<in> set (rm_govern m) \<and> rr_scheduled r = Some p}"
  by (auto simp: governScheduled_def split: option.splits) force

lemma AList_upd_vals: "x \<in> set (AList_upd k v kvs) \<Longrightarrow> x = (k, v) \<or> x \<in> set kvs"
  by (induction k v kvs rule: AList_upd.induct) (auto split: if_splits)

lemma set_row_keeps:
  assumes w: "govern_inv m0 S X w" and r: "row_stamped S r" and x: "name \<in> X \<Longrightarrow> rr_scheduled r \<noteq> None"
  shows "govern_inv m0 S X (set_row name r w)"
proof -
  have st: "state_stamped (gw_ms w)" using w state_stamped_reach by (auto simp: govern_inv_def)
  have "stamped_in (ms_log (gw_ms w)) p" if "rr_scheduled r = Some p" for p
    using r that w by (auto simp: row_stamped_def schedule_seq_def stamped_in_def govern_inv_def)
  moreover have "\<forall>p\<in>set (governScheduled (w_mem w)). stamped_in (ms_log (gw_ms w)) p"
    using st by (simp add: state_stamped_def rows_stamped_def w_mem_def)
  ultimately have "\<forall>p\<in>set (governScheduled ((w_mem w)\<lparr>rm_govern := AList_upd name r (rm_govern (w_mem w))\<rparr>)). stamped_in (ms_log (gw_ms w)) p"
    using AList_upd_vals [of _ name r "rm_govern (w_mem w)"] by (simp add: set_governScheduled) (metis prod.inject)
  then have "manifest_step (gw_ms w) (gw_ms (set_row name r w))"
    unfolding set_row_def
    using manifest_step.rows [where s = "gw_ms w" and st = "rm_stages (w_mem w)" and g = "AList_upd name r (rm_govern (w_mem w))", OF refl]
    by (simp add: w_mem_def)
  moreover have "row_scheduled (set_row name r w) n" if "n \<in> X" for n
    using that w x by (auto simp: row_scheduled_def govern_inv_def)
  ultimately show ?thesis using w
    by (auto simp: govern_inv_def set_row_def intro: manifest_reach.step)
qed

text \<open>Going on with a row read from memory, or with a number just reserved, the invariant knows of it.\<close>

lemma govern_inv_more: "govern_inv m0 (S \<union> T) X w \<Longrightarrow> govern_inv m0 S X w"
  by (auto simp: govern_inv_def)

lemma keeps_grow:
  assumes m: "keeps (govern_inv m0 S X) m"
    and grow: "\<And>w a w'. govern_inv m0 S X w \<Longrightarrow> m w = (Returned a, w') \<Longrightarrow> \<exists>T. Q a T \<and> T \<subseteq> set (ms_log (gw_ms w'))"
    and f: "\<And>a T. Q a T \<Longrightarrow> keeps (govern_inv m0 (S \<union> T) X) (f a)"
  shows "keeps (govern_inv m0 S X) (act_bind m f)"
  unfolding keeps_def
proof (intro allI impI)
  fix w assume w: "govern_inv m0 S X w"
  show "govern_inv m0 S X (Product_Type.snd (act_bind m f w))"
  proof (cases "m w")
    case (Pair r w')
    have w': "govern_inv m0 S X w'" using keepsD [OF m w Pair] .
    show ?thesis
    proof (cases r)
      case (Returned a)
      then obtain T where T: "Q a T" "T \<subseteq> set (ms_log (gw_ms w'))" using grow [OF w] Pair by blast
      with w' have "govern_inv m0 (S \<union> T) X w'" by (auto simp: govern_inv_def)
      then have "govern_inv m0 (S \<union> T) X (Product_Type.snd (f a w'))" using f [OF T(1)] by (simp add: keeps_def)
      then show ?thesis using Pair Returned by (auto simp: act_bind_def dest: govern_inv_more)
    qed (use Pair w' in \<open>simp_all add: act_bind_def\<close>)
  qed
qed

lemma keeps_read_row:
  assumes "\<And>ro T. (\<And>r. ro = Some r \<Longrightarrow> row_stamped (S \<union> T) r) \<Longrightarrow> keeps (govern_inv m0 (S \<union> T) X) (f ro)"
  shows "keeps (govern_inv m0 S X) (act_bind (act_get (w_row name)) f)"
proof (rule keeps_grow [where Q = "\<lambda>ro T. \<forall>r. ro = Some r \<longrightarrow> row_stamped T r"])
  fix w a w' assume "govern_inv m0 S X w" "act_get (w_row name) w = (Returned a, w')"
  then show "\<exists>T. (\<forall>r. a = Some r \<longrightarrow> row_stamped T r) \<and> T \<subseteq> set (ms_log (gw_ms w'))"
    by (intro exI [of _ "set (ms_log (gw_ms w'))"]) (auto simp: act_get_def dest: w_row_stamped)
next
  fix a T assume "\<forall>r. a = Some r \<longrightarrow> row_stamped T r"
  then show "keeps (govern_inv m0 (S \<union> T) X) (f a)" by (intro assms) (auto simp: row_stamped_def)
qed (intro keeps_intros)

lemma keeps_reserved:
  assumes "\<And>s T. Reserved s \<in> T \<Longrightarrow> keeps (govern_inv m0 (S \<union> T) X) (f s)"
  shows "keeps (govern_inv m0 S X) (act_bind (reserve E) f)"
proof (rule keeps_grow [where Q = "\<lambda>s T. Reserved s \<in> T"])
  fix w s w' assume "govern_inv m0 S X w" "reserve E w = (Returned s, w')"
  then show "\<exists>T. Reserved s \<in> T \<and> T \<subseteq> set (ms_log (gw_ms w'))"
    by (intro exI [of _ "{Reserved s}"]) (auto simp: reserve_def locked_def split: if_splits prod.splits)
qed (use assms in \<open>auto intro: keeps_intros\<close>)

lemma keeps_set_row:
  "row_stamped S r \<Longrightarrow> (name \<in> X \<Longrightarrow> rr_scheduled r \<noteq> None) \<Longrightarrow> keeps (govern_inv m0 S X) (act_upd (set_row name r))"
  by (intro keeps_upd set_row_keeps)

text \<open>Chains of actions in one shape: the first action, then the rest.\<close>

lemma act_bind_assoc: "act_bind (act_bind m f) g = act_bind m (\<lambda>a. act_bind (f a) g)"
  by (rule ext) (simp add: act_bind_def split: prod.splits outcome.splits)

lemma act_bind_simps:
  "act_bind (act_ret a) f = f a"
  "act_bind (act_throw e) f = act_throw e"
  "act_bind govern_error f = govern_error"
  "act_bind (if c then m else n) f = (if c then act_bind m f else act_bind n f)"
  "act_bind (case v of None \<Rightarrow> m | Some x \<Rightarrow> k x) f = (case v of None \<Rightarrow> act_bind m f | Some x \<Rightarrow> act_bind (k x) f)"
  by (auto simp: act_bind_def act_ret_def act_throw_def govern_error_def fun_eq_iff split: option.splits)

lemma act_bind_get: "act_bind (act_get (\<lambda>w. g (h w))) f = act_bind (act_get h) (\<lambda>a. f (g a))"
  by (simp add: act_bind_def act_get_def fun_eq_iff)

lemmas act_chain = act_bind_assoc act_bind_simps

section \<open>Sending\<close>

definition sendable :: "string \<Rightarrow> GovernPhase \<Rightarrow> int \<Rightarrow> gworld \<Rightarrow> bool" where
  "sendable name phase s w \<longleftrightarrow> (phase = Executed \<and> opens_a_vault name \<longrightarrow> unpaused_since s (ms_log (gw_ms w)))"

lemma keeps_send: "keeps (\<lambda>w. govern_inv m0 S X w \<and> sendable name phase s w) (send E name phase s b)"
  by (auto simp: keeps_def send_def govern_inv_def sendable_def sent_ok_def row_scheduled_def w_row_def w_mem_def split: prod.splits)

lemma sendable_tick: "sendable name phase s (w\<lparr>gw_tick := n\<rparr>) = sendable name phase s w"
  by (simp add: sendable_def)

lemma keeps_sendable_read: "keeps (\<lambda>w. govern_inv m0 S X w \<and> sendable name phase s w) (chain_read f)"
  by (simp add: keeps_def chain_read_def sendable_tick gov.I_tick)

lemma keeps_sendable_sign: "keeps (\<lambda>w. govern_inv m0 S X w \<and> sendable name phase s w) (sign_loop E ss n b)"
  by (induction ss arbitrary: n b) (auto intro!: keeps_intros keeps_sendable_read)

lemma keeps_signAndExecute:
  "keeps (\<lambda>w. govern_inv m0 S X w \<and> sendable name phase s w) (signAndExecute E name phase s b)"
  unfolding signAndExecute_def by (intro keeps_intros keeps_sendable_sign keeps_send)

lemma keeps_sign_then [keeps_intros]:
  assumes "phase \<noteq> Executed \<or> \<not> opens_a_vault name" "\<And>d. keeps (govern_inv m0 S X) (f d)"
  shows "keeps (govern_inv m0 S X) (act_bind (signAndExecute E name phase s b) f)"
proof (rule keeps_bind)
  have "sendable name phase s w" for w using assms(1) by (auto simp: sendable_def)
  then show "keeps (govern_inv m0 S X) (signAndExecute E name phase s b)"
    using keeps_signAndExecute [of m0 S X name phase s E b] by simp
qed (fact assms(2))

lemma act_bind_Returned:
  "act_bind m f w = (Returned b, w') \<longleftrightarrow> (\<exists>a w1. m w = (Returned a, w1) \<and> f a w1 = (Returned b, w'))"
  by (auto simp: act_bind_def split: prod.splits outcome.splits)

section \<open>Scheduling\<close>

lemma others_mem [simp]: "ms_mem (others E w) = w_mem w"
proof -
  have "ms_mem (fold apply_pause as s) = ms_mem s" for as s by (induction as arbitrary: s) simp_all
  then show ?thesis by (simp add: others_def w_mem_def)
qed

lemma save_rows: "save E w = (r, w') \<Longrightarrow> w_row n w' = w_row n w"
  by (auto simp: save_def locked_def w_row_def saveRunManifest_def Let_def w_mem_def [of "_\<lparr>gw_ms := _\<rparr>"] w_mem_def [of "_\<lparr>gw_tick := _\<rparr>"]
      split: if_splits)

lemma emit_rows: "emitPhase e ph x w = (r, w') \<Longrightarrow> w_row n w' = w_row n w"
  by (auto simp: emitPhase_def act_ret_def act_upd_def w_row_def w_mem_def split: option.splits)

lemma schedulePhase_scheduled:
  assumes "schedulePhase E name p e w = (Returned u, w')"
  shows "row_scheduled w' name"
proof -
  have tail: "row_scheduled w2 name"
    if "act_bind (act_upd (set_row name (r\<lparr>rr_scheduled := Some sched\<rparr>))) (\<lambda>_. act_bind (save E) (\<lambda>_. emitPhase e Scheduled sched)) w1
        = (Returned v, w2)" for r sched w1 w2 v
    using that by (auto simp: act_bind_Returned act_upd_def row_scheduled_def dest!: save_rows [where n = name] emit_rows [where n = name])
  define r where "r = row_or_first (w_row name w)"
  show ?thesis
  proof (cases "rr_scheduled r")
    case None
    with assms show ?thesis
      by (auto simp: schedulePhase_def act_bind_Returned [of "act_upd _"] act_bind_Returned [of "act_get _"] act_bind_Returned [of "op_state _ _"]
          act_upd_def act_get_def r_def w_row_def w_mem_def act_bind_Returned [of "if _ then _ else _"] intro: tail)
  next
    case (Some sched)
    then have row: "w_row name w = Some r" by (cases "w_row name w") (auto simp: r_def row_or_first_def empty_row_def)
    with assms Some have "emitPhase e Scheduled sched (w\<lparr>gw_opIds := AList_upd name (rp_id p) (gw_opIds w)\<rparr>) = (Returned u, w')"
      by (simp add: schedulePhase_def act_bind_def act_upd_def act_get_def w_row_def w_mem_def r_def)
    from emit_rows [OF this, of name] row Some show ?thesis by (simp add: row_scheduled_def w_row_def w_mem_def)
  qed
qed

lemma row_or_first_stamped: "(\<And>r. ro = Some r \<Longrightarrow> row_stamped S r) \<Longrightarrow> row_stamped S (row_or_first ro)"
  by (cases ro) (auto simp: row_or_first_def empty_row_def)

lemma stamped_schedule [simp]: "schedule_seq (r\<lparr>rr_scheduled := Some q\<rparr>) = or_zero (ph_seq q)"
  "schedule_seq (r\<lparr>rr_executed := x\<rparr>) = schedule_seq r" "schedule_seq (r\<lparr>rr_cancelled := x\<rparr>) = schedule_seq r"
  by (simp_all add: schedule_seq_def)

lemma keeps_schedulePhase [keeps_intros]: "keeps (govern_inv m0 S X) (schedulePhase E name p e)"
  unfolding schedulePhase_def act_chain act_bind_get
  apply (rule keeps_bind [OF gov.keeps_side(2)])
  apply (rule keeps_read_row)
  apply (rule keeps_case)
   apply (rule keeps_bind, intro keeps_intros)
   apply (rule keeps_if)
    apply (rule keeps_bind, intro keeps_intros)
    apply (rule keeps_bind)
     apply (rule keeps_set_row; simp add: row_stamped_def adopted_phase_def)
    apply (intro keeps_intros)
   apply (rule keeps_reserved)
   apply (rule keeps_bind, intro keeps_intros)
   apply (rule keeps_sign_then, simp)
   apply (rule keeps_bind, intro keeps_intros)
   apply (rule keeps_bind, intro keeps_intros)
   apply (rule keeps_bind)
    apply (rule keeps_set_row; simp add: row_stamped_def sent_phase_def)
   apply (intro keeps_intros)
  apply (intro keeps_intros)
  done

section \<open>The check before an execution\<close>

lemma unpaused_by_check:
  assumes reach: "manifest_reach (manifest_start m) s" and n: "n = 0 \<or> Reserved n \<in> set (ms_log s)"
    and none: "newest_pause_after (livePauses (ms_file s) (ms_mem s)) n = None"
  shows "unpaused_since n (ms_log s)"
proof (cases "n = 0")
  case True
  have inv: "manifest_inv (pause_seqs m) s" by (rule manifest_inv_reach) (fact reach)
  have "t \<le> 0" if "Began t \<in> set (ms_log s)" for t
    using none that livePauses_seqs [OF inv] by (force simp: newest_pause_after_None True)
  moreover have "0 < t" if "Began t \<in> set (ms_log s)" for t using inv that by (force simp: manifest_inv_def)
  ultimately show ?thesis using True by (force simp: unpaused_since_def)
next
  case False
  then obtain xs ys where l: "ms_log s = xs @ Reserved n # ys" using n by (meson split_list)
  with newest_after_reserved [OF reach l] none False show ?thesis by (auto simp: unpaused_since_def)
qed

text \<open>The timelock has just said that the operation is done, or that it does not know it.\<close>

definition op_dead :: "govern_env \<Rightarrow> string \<Rightarrow> gworld \<Rightarrow> bool" where
  "op_dead E oid w \<longleftrightarrow>
     (\<exists>k<gw_tick w. \<exists>st. ap_operationState (ge_api E) (k, length (gw_sent w)) (ge_timelock E) oid = Inr st \<and> (os_done st \<or> \<not> os_exists st))"

lemma of_res_Returned [simp]: "of_res r = Returned a \<longleftrightarrow> r = Inr a"
  by (simp add: of_res_def split: sum.splits)

lemma others_log: "set (ms_log (gw_ms w)) \<subseteq> set (ms_log (others E w))"
proof -
  have "set (ms_log s) \<subseteq> set (ms_log (apply_pause a s))" for a s
    using apply_pause_step [of a s] manifest_step_log by force
  then have "set (ms_log s) \<subseteq> set (ms_log (fold apply_pause as s))" for as s
    by (induction as arbitrary: s) (simp, simp, blast)
  then show ?thesis by (simp add: others_def)
qed

lemma refuse_clears:
  assumes w: "govern_inv m0 S X w" and r: "w_row name w = Some r" "rr_scheduled r \<noteq> None" "rr_executed r = None"
    and v: "opens_a_vault name" and ret: "refuseIfPausedSince E name p w = (Returned u, w')"
  shows "unpaused_since (schedule_seq r) (ms_log (gw_ms w')) \<or> op_dead E (rp_id p) w'"
proof -
  define s where "s = others E w"
  have stamp: "schedule_seq r = 0 \<or> Reserved (schedule_seq r) \<in> set (ms_log s)"
    using w_row_stamped [OF w r(1)] others_log [of w E] by (auto simp: row_stamped_def s_def)
  have reach: "manifest_reach (manifest_start m0) s"
    using gov.I_others [OF w, of E] by (simp add: govern_inv_def s_def)
  let ?ps = "livePauses (ms_file s) (w_mem w)"
  have mem: "ms_mem s = w_mem w" by (simp add: s_def)
  show ?thesis
  proof (cases "newest_pause_after ?ps (schedule_seq r)")
    case None
    then have "w' = w\<lparr>gw_ms := s\<lparr>ms_mem := (w_mem w)\<lparr>rm_pauses := ?ps\<rparr>\<rparr>, gw_tick := Suc (gw_tick w)\<rparr>"
      using ret v r by (simp add: refuseIfPausedSince_def act_bind_def act_get_def live_pauses_def Let_def s_def act_ret_def)
    then show ?thesis using unpaused_by_check [OF reach stamp] None mem by simp
  next
    case (Some e)
    then show ?thesis
      using ret v r
      by (auto simp: refuseIfPausedSince_def act_bind_def act_get_def live_pauses_def Let_def s_def [symmetric] mem act_ret_def op_state_def
          chain_read_def now_of_def govern_error_def act_throw_def op_dead_def of_res_def split: sum.splits if_splits)
  qed
qed

definition leads :: "(gworld \<Rightarrow> bool) \<Rightarrow> 'a act \<Rightarrow> (gworld \<Rightarrow> bool) \<Rightarrow> bool" where
  "leads J m I \<longleftrightarrow> (\<forall>w. J w \<longrightarrow> I (Product_Type.snd (m w)))"

lemma leads_bind:
  assumes "keeps J m" "\<And>a. leads J (f a) I" "\<And>w. J w \<Longrightarrow> I w"
  shows "leads J (act_bind m f) I"
  using assms by (fastforce simp: leads_def keeps_def act_bind_def split: prod.splits outcome.splits)

lemma leads_keeps: "keeps I m \<Longrightarrow> (\<And>w. J w \<Longrightarrow> I w) \<Longrightarrow> leads J m I"
  by (simp add: leads_def keeps_def)

lemma leads_if: "(c \<Longrightarrow> leads J m I) \<Longrightarrow> (\<not> c \<Longrightarrow> leads J n I) \<Longrightarrow> leads J (if c then m else n) I"
  by simp

text \<open>
  What the tool relies on for an operation: while this run sends nothing, the timelock keeps saying done, and the
  execution of an operation it did not know is not proposed.
\<close>

definition settled_plan :: "govern_env \<Rightarrow> RoundPlan \<Rightarrow> bool" where
  "settled_plan E p \<longleftrightarrow>
     (\<forall>k k' n st. k < k' \<and> ap_operationState (ge_api E) (k, n) (ge_timelock E) (rp_id p) = Inr st \<longrightarrow>
        (os_done st \<longrightarrow> (\<forall>st'. ap_operationState (ge_api E) (k', n) (ge_timelock E) (rp_id p) = Inr st' \<longrightarrow> os_done st')) \<and>
        (\<not> os_exists st \<longrightarrow> (\<forall>g b. rp_execute p = Some g \<longrightarrow> g (k', n) \<noteq> Inr b)))"

lemma note_seen_row [simp]:
  "schedule_seq (note_seen seen r) = schedule_seq r" "rr_scheduled (note_seen seen r) = rr_scheduled r"
  by (simp_all add: schedule_seq_def note_seen_def)

lemma keeps_record:
  assumes "row_stamped S r" "rr_scheduled r \<noteq> None"
  shows "keeps (govern_inv m0 S X) (act_upd (set_row name ((note_seen seen r)\<lparr>rr_executed := x\<rparr>)))"
    "keeps (govern_inv m0 S X) (act_upd (set_row name (r\<lparr>rr_cancelled := x\<rparr>)))"
  using assms by (auto simp: row_stamped_def intro!: keeps_set_row)

lemma rest_sendable:
  assumes "row_stamped S r" "rr_scheduled r \<noteq> None"
  shows "leads (\<lambda>w. govern_inv m0 S X w \<and> sendable name Executed (schedule_seq r) w) (execute_rest E name p e r) (govern_inv m0 S X)"
proof -
  let ?J = "\<lambda>w. govern_inv m0 S X w \<and> sendable name Executed (schedule_seq r) w"
  note tail = keeps_record(1) [OF assms, of m0 X name]
  have sent: "leads ?J (act_bind (signAndExecute E name Executed (schedule_seq r) b) f) (govern_inv m0 S X)"
    if "\<And>d. keeps (govern_inv m0 S X) (f d)" for b f
    by (rule leads_bind [OF keeps_signAndExecute]) (use that in \<open>auto intro: leads_keeps\<close>)
  show ?thesis
    unfolding execute_rest_def act_chain
    apply (rule leads_bind)
      apply (simp add: op_state_def keeps_sendable_read)
     apply (rule leads_if)
      apply (rule leads_keeps, intro keeps_intros tail, simp)
     apply (rule leads_bind)
       apply (simp add: optional_call_def keeps_sendable_read keeps_intros split: option.splits)
      apply (rule sent, intro keeps_intros tail)
     apply simp_all
    done
qed

lemma bind_op_state:
  "act_bind (op_state E oid) g w =
     (case ap_operationState (ge_api E) (now_of w) (ge_timelock E) oid of
        Inl e \<Rightarrow> (Threw e, w\<lparr>gw_tick := Suc (gw_tick w)\<rparr>) | Inr st \<Rightarrow> g st (w\<lparr>gw_tick := Suc (gw_tick w)\<rparr>))"
  by (simp add: act_bind_def op_state_def chain_read_def of_res_def split: sum.splits)

lemma rest_dead:
  assumes p: "settled_plan E p" and r: "row_stamped S r" "rr_scheduled r \<noteq> None" and w: "govern_inv m0 S X w" "op_dead E (rp_id p) w"
  shows "govern_inv m0 S X (Product_Type.snd (execute_rest E name p e r w))"
proof -
  note tail = keeps_record(1) [OF r, of m0 X name]
  from w(2) obtain k st where k: "k < gw_tick w" "ap_operationState (ge_api E) (k, length (gw_sent w)) (ge_timelock E) (rp_id p) = Inr st"
    "os_done st \<or> \<not> os_exists st" by (auto simp: op_dead_def)
  let ?w1 = "w\<lparr>gw_tick := Suc (gw_tick w)\<rparr>"
  have w1: "govern_inv m0 S X ?w1" by (rule gov.I_tick) (fact w(1))
  have w2: "govern_inv m0 S X (?w1\<lparr>gw_tick := Suc (Suc (gw_tick w))\<rparr>)" by (rule gov.I_tick) (fact w1)
  show ?thesis
  proof (cases "ap_operationState (ge_api E) (now_of w) (ge_timelock E) (rp_id p)")
    case (Inl x)
    then show ?thesis using w1 by (simp add: execute_rest_def act_bind_def op_state_def chain_read_def of_res_def)
  next
    case (Inr st')
    show ?thesis
    proof (cases "os_done st'")
      case True
      have "keeps (govern_inv m0 S X) (act_bind (act_bind (check_readback p) (\<lambda>seen. act_bind (now_act E) (\<lambda>t.
          act_bind (sched_ready r) (\<lambda>ready. act_ret (seen, adopted_phase (rp_id p) None t ready ''already executed by an earlier run'')))))
        (\<lambda>(seen, x). act_bind (act_upd (set_row name ((note_seen seen r)\<lparr>rr_executed := Some x\<rparr>))) (\<lambda>_. act_bind (save E) (\<lambda>_. emitPhase e Executed x))))"
        by (intro keeps_intros tail)
      with w1 show ?thesis
        using Inr True by (simp add: execute_rest_def bind_op_state keeps_def)
    next
      case False
      with p k Inr have "\<not> os_exists st" by (auto simp: settled_plan_def now_of_def)
      then have refused: "rp_execute p = Some g \<Longrightarrow> g (now_of ?w1) \<noteq> Inr b" for g b
        using p k by (simp add: settled_plan_def now_of_def) (meson less_SucI)
      have "Product_Type.snd (execute_rest E name p e r w) \<in> {?w1, ?w1\<lparr>gw_tick := Suc (Suc (gw_tick w))\<rparr>}"
        using Inr False refused
        by (cases "rp_execute p"; cases "the (rp_execute p) (now_of ?w1)")
          (auto simp: execute_rest_def act_bind_def op_state_def chain_read_def of_res_def optional_call_def act_throw_def)
      then show ?thesis using w1 w2 by auto
    qed
  qed
qed

lemma keeps_executePhase:
  assumes x: "name \<in> X" and p: "opens_a_vault name \<Longrightarrow> settled_plan E p"
  shows "keeps (govern_inv m0 S X) (executePhase E name p e)"
  unfolding keeps_def
proof (intro allI impI)
  fix w assume w: "govern_inv m0 S X w"
  with x obtain r where r: "w_row name w = Some r" "rr_scheduled r \<noteq> None" by (auto simp: govern_inv_def row_scheduled_def)
  define T where "T = set (ms_log (gw_ms w))"
  have stamp: "row_stamped (S \<union> T) r" using w_row_stamped [OF w r(1)] by (auto simp: row_stamped_def T_def)
  have wT: "govern_inv m0 (S \<union> T) X w" using w by (auto simp: govern_inv_def T_def)
  have "govern_inv m0 (S \<union> T) X (Product_Type.snd (executePhase E name p e w))"
  proof (cases "rr_executed r")
    case (Some x)
    have "keeps (govern_inv m0 (S \<union> T) X) (emitPhase e Executed x)" by (intro keeps_intros)
    with Some wT r(1) show ?thesis by (simp add: executePhase_def act_bind_def the_row_def keeps_def)
  next
    case None
    have run: "executePhase E name p e w = act_bind (refuseIfPausedSince E name p) (\<lambda>_. execute_rest E name p e r) w"
      using None r(1) by (simp add: executePhase_def act_bind_def the_row_def)
    obtain o' w1 where ref: "refuseIfPausedSince E name p w = (o', w1)" by fastforce
    have w1: "govern_inv m0 (S \<union> T) X w1" by (rule keepsD [OF gov.keeps_refuse wT ref])
    show ?thesis
    proof (cases o')
      case (Returned u)
      have step: "executePhase E name p e w = execute_rest E name p e r w1" by (simp add: run act_bind_def ref Returned)
      consider "sendable name Executed (schedule_seq r) w1" | "opens_a_vault name" "op_dead E (rp_id p) w1"
        using refuse_clears [OF w r(1,2) None] ref Returned by (auto simp: sendable_def)
      then show ?thesis
      proof cases
        case 1
        then show ?thesis using rest_sendable [OF stamp r(2)] w1 by (simp add: step leads_def)
      next
        case 2
        then show ?thesis unfolding step by (intro rest_dead [OF p stamp r(2) w1])
      qed
    qed (use w1 in \<open>simp_all add: run act_bind_def ref\<close>)
  qed
  then show "govern_inv m0 S X (Product_Type.snd (executePhase E name p e w))" by (rule govern_inv_more)
qed

section \<open>Cancelling, and one round on its own\<close>

lemma keeps_the_row_bind:
  assumes "name \<in> X" "\<And>r T. row_stamped (S \<union> T) r \<Longrightarrow> rr_scheduled r \<noteq> None \<Longrightarrow> keeps (govern_inv m0 (S \<union> T) X) (f r)"
  shows "keeps (govern_inv m0 S X) (act_bind (the_row name) f)"
proof (rule keeps_grow [where Q = "\<lambda>r T. row_stamped T r \<and> rr_scheduled r \<noteq> None"])
  fix w a w' assume w: "govern_inv m0 S X w" and a: "the_row name w = (Returned a, w')"
  then show "\<exists>T. (row_stamped T a \<and> rr_scheduled a \<noteq> None) \<and> T \<subseteq> set (ms_log (gw_ms w'))"
    using assms(1) w_row_stamped [OF w, of name a]
    by (intro exI [of _ "set (ms_log (gw_ms w'))"])
      (auto simp: the_row_def govern_inv_def row_scheduled_def split: option.splits)
next
  fix a T assume "row_stamped T a \<and> rr_scheduled a \<noteq> None"
  then show "keeps (govern_inv m0 (S \<union> T) X) (f a)" by (intro assms(2)) (auto simp: row_stamped_def)
qed (intro keeps_intros)

lemma keeps_cancelPhase:
  assumes "name \<in> X"
  shows "keeps (govern_inv m0 S X) (cancelPhase E name p e)"
  unfolding cancelPhase_def act_chain
proof (rule keeps_the_row_bind [OF assms], rule keeps_case)
  fix r T assume r: "row_stamped (S \<union> T) r" "rr_scheduled r \<noteq> None"
  have sign: "Cancelled \<noteq> Executed \<or> \<not> opens_a_vault name" by simp
  show "keeps (govern_inv m0 (S \<union> T) X) (cancel_rest E name p e r)"
    unfolding cancel_rest_def act_chain by (intro keeps_intros keeps_record(2) [OF r] sign)
qed (intro keeps_intros)

lemma bind_keepsI:
  assumes m: "keeps I m" and f: "\<And>w a w'. I w \<Longrightarrow> m w = (Returned a, w') \<Longrightarrow> I w' \<Longrightarrow> I (Product_Type.snd (f a w'))"
  shows "keeps I (act_bind m f)"
  unfolding keeps_def
proof (intro allI impI)
  fix w assume w: "I w"
  obtain r w' where mw: "m w = (r, w')" by fastforce
  have "I w'" by (rule keepsD [OF m w mw])
  then show "I (Product_Type.snd (act_bind m f w))" using f [OF w] mw by (cases r) (auto simp: act_bind_def)
qed

lemma govern_inv_subset: "govern_inv m0 S (X \<union> Y) w \<Longrightarrow> govern_inv m0 S X w"
  by (auto simp: govern_inv_def)

lemma keeps_scheduled_bind:
  assumes "\<And>u. keeps (govern_inv m0 S ({name} \<union> X)) (f u)"
  shows "keeps (govern_inv m0 S X) (act_bind (schedulePhase E name p e) f)"
proof (rule bind_keepsI)
  fix w u w' assume "schedulePhase E name p e w = (Returned u, w')" "govern_inv m0 S X w'"
  then have "govern_inv m0 S ({name} \<union> X) w'" using schedulePhase_scheduled by (auto simp: govern_inv_def)
  then show "govern_inv m0 S X (Product_Type.snd (f u w'))"
    using assms [of u] govern_inv_subset [of m0 S X "{name}"] by (simp add: keeps_def Un_commute)
qed (intro keeps_intros)

lemma keeps_round:
  assumes "opens_a_vault name \<Longrightarrow> settled_plan E p"
  shows "keeps (govern_inv m0 S X) (run_round E fuel name p e)"
  unfolding run_round_def
  by (rule keeps_scheduled_bind) (use assms in \<open>intro keeps_intros keeps_executePhase keeps_cancelPhase; simp\<close>)

section \<open>The plans of the unpause rows\<close>

text \<open>
  What is relied on of the timelock and the Safe tool, at two moments between which this run sends nothing: an
  operation reported done is done, and the execution of an operation the timelock reported unknown is refused.
\<close>

definition timelock_laws :: "govern_env \<Rightarrow> bool" where
  "timelock_laws E \<longleftrightarrow>
     (\<forall>k k' n oid st st'. k < k' \<and> ap_operationState (ge_api E) (k, n) (ge_timelock E) oid = Inr st \<and> os_done st \<and>
        ap_operationState (ge_api E) (k', n) (ge_timelock E) oid = Inr st' \<longrightarrow> os_done st') \<and>
     (\<forall>t0 k k' n p descr oid st b. od_timelock p = ge_timelock E \<and> ap_operationId (ge_api E) t0 p = Inr oid \<and> k < k' \<and>
        ap_operationState (ge_api E) (k, n) (ge_timelock E) oid = Inr st \<and> \<not> os_exists st \<longrightarrow>
        ap_executeOnTimelock (ge_api E) (k', n) (p\<lparr>od_description := descr\<rparr>) \<noteq> Inr b)"

lemma orderedPlan_settled:
  assumes "timelock_laws E" "orderedPlan E name pre predecessor calls s rb w = (Returned p, w')"
  shows "settled_plan E p"
proof -
  define o' where "o' = \<lparr>od_timelock = ge_timelock E, od_description = None, od_calls = map labelled_call calls,
    od_predecessor = truthy_str predecessor, od_salt = governSalt E s, od_form = (if length calls = 1 then Single else Batch)\<rparr>"
  from assms(2) have p: "ap_operationId (ge_api E) (now_of w) o' = Inr (rp_id p)"
    "rp_execute p = Some (\<lambda>k. ap_executeOnTimelock (ge_api E) k (o'\<lparr>od_description := Some (name @ '' execute'')\<rparr>))"
    by (auto simp: orderedPlan_def Let_def act_bind_Returned chain_read_def act_ret_def o'_def)
  moreover have "od_timelock o' = ge_timelock E" by (simp add: o'_def)
  ultimately show ?thesis using assms(1) unfolding settled_plan_def timelock_laws_def by (metis option.inject)
qed

lemma opens_not_twin: "opens_a_vault name \<Longrightarrow> name \<noteq> ''update-delay'' \<and> name \<noteq> ''batch'' \<and> name \<noteq> ''cancel''"
  by (auto simp: opens_a_vault_def starts_with_def REDEPLOY_ROW_def)

lemma plan_settled:
  assumes "timelock_laws E" "opens_a_vault name" "plan E name w = (Returned (Inr p), w')"
  shows "settled_plan E p"
  using assms opens_not_twin [OF assms(2)] orderedPlan_settled [OF assms(1)]
  by (auto simp: plan_def Let_def act_bind_Returned act_ret_def act_get_def govern_error_def act_throw_def split: if_splits option.splits)

section \<open>The set of unpauses\<close>

lemma keeps_fresh_row:
  assumes "name \<notin> X" "rr_scheduled r = None"
  shows "keeps (govern_inv m0 S X) (act_upd (set_row name r))"
  using assms by (intro keeps_set_row) auto

lemma keeps_archive:
  assumes "row_stamped S prev" "X = {}" "rr_scheduled r = None"
  shows "keeps (govern_inv m0 S X) (act_upd (\<lambda>w. set_row name r (set_row (key w) prev w)))"
  using assms by (intro keeps_upd set_row_keeps) auto

lemma keeps_reopen:
  assumes "ge_selected E = Some name \<Longrightarrow> X = {}"
  shows "keeps (govern_inv m0 S X) (reopen_cancelled E name)"
  unfolding reopen_cancelled_def
proof (rule keeps_read_row, rule keeps_case)
  fix ro T r assume ro: "\<And>r. ro = Some r \<Longrightarrow> row_stamped (S \<union> T) r" "ro = Some r"
  note arch = keeps_archive [OF ro(1) [OF ro(2)], of X "empty_row\<lparr>rr_round := Some (round_of r)\<rparr>" m0 name]
  show "keeps (govern_inv m0 (S \<union> T) X) (reopen_row E name r)"
    unfolding reopen_row_def using assms by (intro keeps_intros arch) (auto simp: empty_row_def)
qed (intro keeps_intros)

lemma keeps_complete:
  assumes "ge_selected E = Some name \<Longrightarrow> X = {}" "row_stamped S prev"
  shows "keeps (govern_inv m0 S X) (complete_row E name prev)"
  unfolding complete_row_def
  by (intro keeps_intros keeps_archive [OF assms(2)]) (use assms(1) in \<open>auto simp: empty_row_def\<close>)

lemma keeps_open_row:
  assumes "name \<notin> X"
  shows "keeps (govern_inv m0 S X) (open_row E name)"
  unfolding open_row_def open_planned_def
  by (intro keeps_intros keeps_fresh_row [OF assms]) (simp add: empty_row_def)

lemma keeps_set_member:
  assumes "name \<notin> X" "ge_selected E = Some name \<Longrightarrow> X = {}"
  shows "keeps (govern_inv m0 S X) (set_member E name)"
  unfolding set_member_def
proof (rule keeps_bind [OF keeps_reopen [OF assms(2)]], assumption, rule keeps_read_row)
  fix ro T assume "\<And>r. ro = Some r \<Longrightarrow> row_stamped (S \<union> T) r"
  then show "keeps (govern_inv m0 (S \<union> T) X)
     (act_bind (case ro of None \<Rightarrow> act_ret True | Some prev \<Rightarrow> if rowComplete ro then complete_row E name prev else act_ret True)
       (\<lambda>go. if go then open_row E name else act_ret None))"
    using assms by (intro keeps_intros keeps_complete keeps_open_row) auto
qed

lemma set_member_live:
  assumes "timelock_laws E" "set_member E name w = (Returned (Some p), w')"
  shows "row_scheduled w' name \<and> (opens_a_vault name \<longrightarrow> settled_plan E p)"
proof -
  from assms(2) obtain w1 where "open_row E name w1 = (Returned (Some p), w')"
    by (auto simp: set_member_def act_bind_Returned act_ret_def split: if_splits)
  then obtain pl w2 where pl: "plan E name w1 = (Returned pl, w2)"
    and rest: "open_planned E name pl w2 = (Returned (Some p), w')"
    unfolding open_row_def act_bind_Returned by blast
  from rest obtain w3 u where "pl = Inr p" "schedulePhase E name p name w3 = (Returned u, w')"
    by (cases pl) (auto simp: open_planned_def act_bind_Returned act_ret_def)
  with pl have "plan E name w1 = (Returned (Inr p), w2)" "schedulePhase E name p name w3 = (Returned u, w')" by simp_all
  then show ?thesis using schedulePhase_scheduled plan_settled [OF assms(1)] by blast
qed

lemma schedule_set_live:
  assumes "timelock_laws E" "distinct names" "set names \<inter> X = {}" "ge_selected E = None \<or> (X = {} \<and> length names \<le> 1)"
    and "govern_inv m0 S X w" "schedule_set E names w = (r, w')"
  shows "govern_inv m0 S X w' \<and>
    (\<forall>live. r = Returned live \<longrightarrow> govern_inv m0 S (X \<union> fst ` set live) w' \<and> (\<forall>(n, p)\<in>set live. opens_a_vault n \<longrightarrow> settled_plan E p))"
  using assms(2-)
proof (induction names arbitrary: X w w' r)
  case Nil
  then show ?case by (auto simp: act_ret_def)
next
  case (Cons name ns)
  obtain o' w1 where m: "set_member E name w = (o', w1)" by fastforce
  have k: "keeps (govern_inv m0 S X) (set_member E name)" using Cons.prems by (intro keeps_set_member) auto
  have w1: "govern_inv m0 S X w1" by (rule keepsD [OF k Cons.prems(4) m])
  show ?case
  proof (cases o')
    case (Returned po)
    define X' where "X' = X \<union> (if po = None then {} else {name})"
    have member: "row_scheduled w1 name \<and> (opens_a_vault name \<longrightarrow> settled_plan E p)" if "po = Some p" for p
      using set_member_live [OF assms(1), of name w p w1] m Returned that by simp
    have w1': "govern_inv m0 S X' w1" using w1 member by (cases po) (auto simp: X'_def govern_inv_def)
    obtain r2 w2 where s: "schedule_set E ns w1 = (r2, w2)" by fastforce
    have IH: "govern_inv m0 S X' w2 \<and> (\<forall>live. r2 = Returned live \<longrightarrow> govern_inv m0 S (X' \<union> fst ` set live) w2 \<and>
        (\<forall>(n, p)\<in>set live. opens_a_vault n \<longrightarrow> settled_plan E p))"
    proof (cases "ns = []")
      case True
      then show ?thesis using s w1' by (auto simp: act_ret_def)
    next
      case False
      with Cons.prems(3) have "ge_selected E = None" by (cases ns) auto
      then show ?thesis using Cons.prems(1,2) by (intro Cons.IH [OF _ _ _ w1' s]) (auto simp: X'_def)
    qed
    have run: "schedule_set E (name # ns) w =
        (case r2 of Returned live \<Rightarrow> (Returned (case po of None \<Rightarrow> live | Some q \<Rightarrow> (name, q) # live), w2) | Threw e \<Rightarrow> (Threw e, w2) | StillWaiting \<Rightarrow> (StillWaiting, w2))"
      by (simp add: act_bind_def m Returned s act_ret_def split: outcome.splits)
    have "w' = w2" using Cons.prems(5) run by (auto split: outcome.splits)
    then have "govern_inv m0 S X w'" using IH by (auto simp: X'_def govern_inv_def)
    moreover have "govern_inv m0 S (X \<union> fst ` set live) w' \<and> (\<forall>(n, p)\<in>set live. opens_a_vault n \<longrightarrow> settled_plan E p)"
      if "r = Returned live" for live
    proof -
      from Cons.prems(5) run that obtain l2 where l2: "r2 = Returned l2" "live = (case po of None \<Rightarrow> l2 | Some q \<Rightarrow> (name, q) # l2)"
        by (auto split: outcome.splits)
      show ?thesis
      proof (cases po)
        case None
        then show ?thesis using IH l2 \<open>w' = w2\<close> by (simp add: X'_def)
      next
        case (Some q)
        then show ?thesis using IH l2 member \<open>w' = w2\<close> by (auto simp: X'_def)
      qed
    qed
    ultimately show ?thesis by blast
  qed (use Cons.prems(5) w1 in \<open>auto simp: act_bind_def m\<close>)
qed

lemma keeps_runSet:
  assumes "timelock_laws E" "distinct names" "ge_selected E = None \<or> length names \<le> 1"
  shows "keeps (govern_inv m0 S {}) (runSet E fuel names)"
  unfolding runSet_def
proof (rule bind_keepsI)
  show "keeps (govern_inv m0 S {}) (schedule_set E names)"
    unfolding keeps_def using schedule_set_live [OF assms(1,2), of "{}" m0 S] assms(3) by (metis Int_empty_right prod.collapse)
next
  fix w live w' assume "govern_inv m0 S {} w" "schedule_set E names w = (Returned live, w')"
  then have live: "govern_inv m0 S (fst ` set live) w'" "\<forall>(n, p)\<in>set live. opens_a_vault n \<longrightarrow> settled_plan E p"
    using schedule_set_live [OF assms(1,2), of "{}" m0 S w] assms(3) by auto
  have "keeps (govern_inv m0 S (fst ` set live)) (execute_member E x)" if "x \<in> set live" for x
    unfolding execute_member_def using live(2) that by (intro keeps_intros keeps_executePhase) auto
  then have "keeps (govern_inv m0 S (fst ` set live))
     (act_bind (each_act (\<lambda>x. refuseIfPausedSince E (fst x) (Product_Type.snd x)) live) (\<lambda>_.
      act_bind (waitReady E fuel (map (\<lambda>x. (rp_id (Product_Type.snd x), fst x)) live)) (\<lambda>_. each_act (execute_member E) live)))"
    by (intro keeps_intros)
  with live(1) have "govern_inv m0 S ({} \<union> fst ` set live) (Product_Type.snd
     (act_bind (each_act (\<lambda>x. refuseIfPausedSince E (fst x) (Product_Type.snd x)) live) (\<lambda>_.
      act_bind (waitReady E fuel (map (\<lambda>x. (rp_id (Product_Type.snd x), fst x)) live)) (\<lambda>_. each_act (execute_member E) live)) w'))"
    by (simp add: keeps_def)
  then show "govern_inv m0 S {} (Product_Type.snd
     (act_bind (each_act (\<lambda>x. refuseIfPausedSince E (fst x) (Product_Type.snd x)) live) (\<lambda>_.
      act_bind (waitReady E fuel (map (\<lambda>x. (rp_id (Product_Type.snd x), fst x)) live)) (\<lambda>_. each_act (execute_member E) live)) w'))"
    by (rule govern_inv_subset)
qed

section \<open>A run of the stage\<close>

lemma twin_not_opens: "isTwinOnlyRow name \<Longrightarrow> \<not> opens_a_vault name"
  using opens_not_twin by (auto simp: isTwinOnlyRow_def TWIN_ONLY_ROWS_def)

lemma keeps_twin_member:
  "isTwinOnlyRow name \<Longrightarrow> keeps (govern_inv m0 S X) (twin_member E fuel name)"
  unfolding twin_member_def by (intro keeps_intros keeps_round) (auto dest: twin_not_opens)

lemma mark_done_keeps: "govern_inv m0 S X w \<Longrightarrow> govern_inv m0 S X (mark_done E stage w)"
proof -
  assume w: "govern_inv m0 S X w"
  have st: "\<forall>p\<in>set (governScheduled (w_mem w)). stamped_in (ms_log (gw_ms w)) p"
    using w state_stamped_reach by (auto simp: govern_inv_def state_stamped_def rows_stamped_def w_mem_def)
  have "govern_inv m0 S X (w\<lparr>gw_ms := (gw_ms w)\<lparr>ms_mem := (w_mem w)\<lparr>rm_stages := st\<rparr>\<rparr>\<rparr>)" for st
    using manifest_step.rows [where s = "gw_ms w" and st = st and g = "rm_govern (w_mem w)", OF refl] st
    by (intro govern_inv_step [OF w]) (simp_all add: w_mem_def governScheduled_def)
  then show ?thesis using w by (simp add: mark_done_def Let_def)
qed

theorem keeps_runRows:
  assumes "timelock_laws E" "distinct (stageRows E)"
  shows "keeps (govern_inv m0 S {}) (runRows E fuel stage)"
proof -
  have "keeps (govern_inv m0 S {}) (runSet E fuel names)"
    if "names = filter (\<lambda>n. \<not> isTwinOnlyRow n) (case ge_selected E of None \<Rightarrow> stageRows E | Some n \<Rightarrow> [n])" for names
    using that assms by (intro keeps_runSet) (auto split: option.splits)
  then show ?thesis
    unfolding runRows_def Let_def by (intro keeps_intros keeps_twin_member keeps_upd mark_done_keeps) auto
qed

section \<open>The real timelock\<close>

text \<open>
  Documented behaviour of the OpenZeppelin timelock over a run: the hash of an operation is a pure function, and at
  two moments between which this run sends nothing an operation that was done is done, and one that the timelock did
  not know is not pending (nobody else schedules it). The address is in its checksummed form.
\<close>

definition timelock_reads :: "tool_chain \<Rightarrow> string \<Rightarrow> bool" where
  "timelock_reads R lock \<longleftrightarrow>
     getAddress (vm (tc_viem R)) lock = Some lock \<and>
     (\<forall>t t'. tl_hash (tc_timelock R t) = tl_hash (tc_timelock R t')) \<and>
     (\<forall>k k' n oid st st'. k < k' \<and> tl_state (tc_timelock R (k, n)) lock oid = Some st \<and> tl_state (tc_timelock R (k', n)) lock oid = Some st' \<longrightarrow>
        (os_done st \<longrightarrow> os_done st') \<and> (\<not> os_exists st \<longrightarrow> \<not> os_pending st'))"

lemma splitCalls_description: "splitCalls T (p\<lparr>od_description := d\<rparr>) = splitCalls T p"
  by (simp add: splitCalls_def)

lemma operationId_pure:
  assumes "tl_hash C = tl_hash C'"
  shows "operationId T C (p\<lparr>od_description := d\<rparr>) = operationId T C' p"
  using assms by (simp add: operationId_def splitCalls_description)

lemma executeOnTimelock_pending:
  assumes "executeOnTimelock T H C now p = Inr b" "getAddress (vm T) (od_timelock p) = Some (od_timelock p)" "operationId T C p = Inr oid"
  shows "\<exists>st. tl_state C (od_timelock p) oid = Some st \<and> os_pending st"
proof -
  have "p\<lparr>od_timelock := od_timelock p\<rparr> = p" by simp
  then show ?thesis using assms by (auto simp: executeOnTimelock_def Let_def)
qed

lemma real_api_laws:
  assumes "timelock_reads R (ge_timelock E)" "ge_api E = realGovernApi R"
  shows "timelock_laws E"
  unfolding timelock_laws_def
proof (intro conjI allI impI; elim conjE)
  fix k k' n :: nat and oid st st'
  assume "k < k'" "ap_operationState (ge_api E) (k, n) (ge_timelock E) oid = Inr st" "os_done st"
    "ap_operationState (ge_api E) (k', n) (ge_timelock E) oid = Inr st'"
  with assms show "os_done st'" by (auto simp: realGovernApi_def timelock_reads_def)
next
  fix t0 :: moment and k k' n :: nat and p :: Ordered and descr oid st b
  assume p: "od_timelock p = ge_timelock E" "ap_operationId (ge_api E) t0 p = Inr oid" and k: "k < k'"
    and st: "ap_operationState (ge_api E) (k, n) (ge_timelock E) oid = Inr st" "\<not> os_exists st"
  let ?p = "p\<lparr>od_description := descr\<rparr>" and ?C = "tc_timelock R (k', n)"
  show "ap_executeOnTimelock (ge_api E) (k', n) ?p \<noteq> Inr b"
  proof
    assume "ap_executeOnTimelock (ge_api E) (k', n) ?p = Inr b"
    then have "executeOnTimelock (tc_viem R) (tc_handle R (k', n)) ?C (tc_now R (k', n)) ?p = Inr b"
      by (simp add: assms(2) realGovernApi_def)
    moreover have hash: "tl_hash ?C = tl_hash (tc_timelock R t0)" using assms(1) unfolding timelock_reads_def by blast
    have "operationId (tc_viem R) ?C ?p = Inr oid"
      using p(2) operationId_pure [OF hash] by (simp add: assms(2) realGovernApi_def)
    moreover have "getAddress (vm (tc_viem R)) (od_timelock ?p) = Some (od_timelock ?p)"
      using assms(1) p(1) by (simp add: timelock_reads_def)
    ultimately obtain st' where "tl_state ?C (od_timelock ?p) oid = Some st'" "os_pending st'"
      using executeOnTimelock_pending by blast
    moreover have "tl_state (tc_timelock R (k, n)) (ge_timelock E) oid = Some st"
      using st(1) by (simp add: assms(2) realGovernApi_def)
    ultimately show False using assms(1) k st(2) p(1) unfolding timelock_reads_def by fastforce
  qed
qed

section \<open>Properties\<close>


text \<open>
  C8. An unpause that a pause-all has overtaken is refused: when a row is scheduled under the number \<open>n\<close> and not
  executed, some pause-all began after \<open>n\<close> was reserved (as the manifest on disk shows at the check), and the
  timelock still holds the operation undone, then the execution phase ends with the GOVERN error, nothing is sent,
  and no row changes in memory or on disk.
\<close>

theorem overtaken_unpause_refused:
  assumes "manifest_reach (manifest_start m) (others E w)" "ms_log (others E w) = xs @ Reserved n # ys" "Began t \<in> set ys"
    and "opens_a_vault name" "w_row name w = Some rec" "rr_scheduled rec \<noteq> None" "schedule_seq rec = n" "rr_executed rec = None"
    and "ap_operationState (ge_api E) (Suc (gw_tick w), length (gw_sent w)) (ge_timelock E) (rp_id p) = Inr st" "os_exists st" "\<not> os_done st"
  shows "\<exists>w'. executePhase E name p emitAs w = (Threw (PublishError GOVERN), w') \<and> gw_sent w' = gw_sent w
    \<and> rm_govern (w_mem w') = rm_govern (w_mem w) \<and> ms_file (gw_ms w') = ms_file (others E w)"
proof -
  obtain e where e: "newest_pause_after (livePauses (ms_file (others E w)) (w_mem w)) n = Some e"
    using newest_after_reserved [OF assms(1,2)] assms(3) by (auto split: option.splits)
  moreover obtain q where "rr_scheduled rec = Some q" using assms(6) by blast
  ultimately show ?thesis
    using assms(4,5,7-) by (simp add: executePhase_def act_bind_def the_row_def refuseIfPausedSince_def act_get_def live_pauses_def Let_def
        op_state_def chain_read_def now_of_def of_res_def govern_error_def act_throw_def w_mem_def)
qed

end
