(* ===== verification/RoundHistory.thy ===== *)
theory RoundHistory
  imports RoundSafety
begin

text \<open>
  What a run of the governance stage leaves alone: the rounds that executed before it. The invariant of this theory
  is a second instance of the contract \<open>run_invariant\<close>. Also the wait for the timelock's delay, and when it ends.
\<close>

section \<open>Rows that are kept\<close>

text \<open>The rows of \<open>R\<close> are as they were, and nothing sent since \<open>sent0\<close> was for one of them.\<close>

definition kept_inv :: "(string \<Rightarrow> RowRecord option) \<Rightarrow> sent list \<Rightarrow> gworld \<Rightarrow> bool" where
  "kept_inv R sent0 w \<longleftrightarrow>
     (\<forall>n r. R n = Some r \<longrightarrow> w_row n w = Some r) \<and> (\<exists>new. gw_sent w = sent0 @ new \<and> (\<forall>s\<in>set new. R (sd_row s) = None))"

lemma kept_inv_ms:
  "kept_inv R sent0 w \<Longrightarrow> rm_govern (ms_mem s) = rm_govern (w_mem w) \<Longrightarrow> kept_inv R sent0 (w\<lparr>gw_ms := s\<rparr>)"
  by (simp add: kept_inv_def w_row_def w_mem_def)

interpretation kept: run_invariant "kept_inv R sent0" for R sent0
proof
  fix w f m assume w: "kept_inv R sent0 w" and "saveRunManifest (ms_file (gw_ms w)) (w_mem w) = (f, m)"
  then show "kept_inv R sent0 (w\<lparr>gw_ms := (gw_ms w)\<lparr>ms_file := f, ms_mem := m\<rparr>\<rparr>)"
    by (intro kept_inv_ms [OF w]) (auto simp: saveRunManifest_def Let_def)
next
  fix w s f m assume w: "kept_inv R sent0 w" and "reserveManifestSeq (ms_file (gw_ms w)) (w_mem w) = (s, f, m)"
  then show "kept_inv R sent0 (w\<lparr>gw_ms := (gw_ms w)\<lparr>ms_file := f, ms_mem := m, ms_log := ms_log (gw_ms w) @ [Reserved s]\<rparr>\<rparr>)"
    by (intro kept_inv_ms [OF w]) (auto simp: reserveManifestSeq_def Let_def)
qed (auto simp: w_mem_def intro: kept_inv_ms, auto simp: kept_inv_def w_row_def w_mem_def)

lemmas kept_keeps [keeps_intros] =
  kept.keeps_chain_read kept.keeps_save kept.keeps_reserve kept.keeps_live_pauses kept.keeps_side kept.keeps_reads kept.keeps_sign_loop
  kept.keeps_latest_ready kept.keeps_waitReady kept.keeps_refuse kept.keeps_reprint kept.keeps_plan

lemma kept_set_row: "name \<notin> dom R \<Longrightarrow> keeps (kept_inv R sent0) (act_upd (set_row name r))"
  by (rule keeps_upd) (auto simp: kept_inv_def set_row_def w_row_def w_mem_def map_of_AList_upd)

lemma kept_send: "name \<notin> dom R \<Longrightarrow> keeps (kept_inv R sent0) (send E name phase s b)"
  by (auto simp: keeps_def send_def kept_inv_def w_row_def w_mem_def split: prod.splits)

lemma kept_sign: "name \<notin> dom R \<Longrightarrow> keeps (kept_inv R sent0) (signAndExecute E name phase s b)"
  unfolding signAndExecute_def by (intro keeps_intros kept_send)

lemma kept_phases:
  assumes "name \<notin> dom R"
  shows "keeps (kept_inv R sent0) (schedulePhase E name p e)"
    "keeps (kept_inv R sent0) (executePhase E name p e)"
    "keeps (kept_inv R sent0) (cancelPhase E name p e)"
    "keeps (kept_inv R sent0) (run_round E fuel name p e)"
proof -
  note own = kept_set_row [OF assms] kept_sign [OF assms]
  show s: "keeps (kept_inv R sent0) (schedulePhase E name p e)" unfolding schedulePhase_def by (intro keeps_intros own)
  show x: "keeps (kept_inv R sent0) (executePhase E name p e)" unfolding executePhase_def execute_rest_def by (intro keeps_intros own)
  show c: "keeps (kept_inv R sent0) (cancelPhase E name p e)" unfolding cancelPhase_def cancel_rest_def by (intro keeps_intros own)
  show "keeps (kept_inv R sent0) (run_round E fuel name p e)" unfolding run_round_def by (intro keeps_intros s x c)
qed

lemma kept_open_row: "name \<notin> dom R \<Longrightarrow> keeps (kept_inv R sent0) (open_row E name)"
  unfolding open_row_def open_planned_def by (intro keeps_intros kept_phases(1) kept_set_row)

section \<open>A run with no row selected\<close>

lemma reopen_default:
  assumes "ge_selected E = None"
  shows "reopen_cancelled E name w = (Returned (), w)"
  using assms by (auto simp: reopen_cancelled_def reopen_row_def act_bind_def act_get_def act_ret_def split: option.splits)

lemma rowComplete_executed: "rr_executed r \<noteq> None \<Longrightarrow> rowComplete (Some r)"
  by (simp add: rowComplete_def)

lemma complete_default:
  assumes "ge_selected E = None"
  shows "keeps (kept_inv R sent0) (complete_row E name prev)" "complete_row E name prev w \<noteq> (Returned True, w')"
proof -
  show "keeps (kept_inv R sent0) (complete_row E name prev)"
    unfolding complete_row_def using assms by (intro keeps_intros) simp_all
  show "complete_row E name prev w \<noteq> (Returned True, w')"
    using assms by (auto simp: complete_row_def act_bind_Returned act_ret_def govern_error_def act_throw_def split: if_splits)
qed

lemma member_executed:
  assumes "ge_selected E = None" "w_row name w = Some prev" "rr_executed prev \<noteq> None"
  shows "set_member E name w = act_bind (complete_row E name prev) (\<lambda>go. if go then open_row E name else act_ret None) w"
  using assms rowComplete_executed [OF assms(3)]
  by (simp add: set_member_def act_bind_def reopen_default act_get_def)

lemma member_default:
  assumes sel: "ge_selected E = None" and ex: "\<forall>r\<in>ran R. rr_executed r \<noteq> None"
    and w: "kept_inv R sent0 w" and run: "set_member E name w = (o', w')"
  shows "kept_inv R sent0 w' \<and> (\<forall>p. o' = Returned (Some p) \<longrightarrow> name \<notin> dom R)"
proof (cases "R name")
  case None
  then have dom: "name \<notin> dom R" by auto
  have "keeps (kept_inv R sent0) (set_member E name)"
    unfolding set_member_def reopen_cancelled_def reopen_row_def
    by (intro keeps_intros complete_default [OF sel] kept_open_row [OF dom]) (use sel in simp_all)
  from keepsD [OF this w run] dom show ?thesis by simp
next
  case (Some r)
  with w have row: "w_row name w = Some r" by (simp add: kept_inv_def)
  from ex Some have rx: "rr_executed r \<noteq> None" by (auto simp: ran_def)
  obtain c w1 where c: "complete_row E name r w = (c, w1)" by fastforce
  have w1: "kept_inv R sent0 w1" by (rule keepsD [OF complete_default(1) [OF sel] w c])
  have "c \<noteq> Returned True" using complete_default(2) [OF sel, of name r w w1] c by auto
  then have "w' = w1 \<and> (\<forall>p. o' \<noteq> Returned (Some p))"
    using run by (cases c) (auto simp: member_executed [OF sel row rx] act_bind_def c act_ret_def split: if_splits)
  with w1 show ?thesis by simp
qed

lemma schedule_set_default:
  assumes sel: "ge_selected E = None" and ex: "\<forall>r\<in>ran R. rr_executed r \<noteq> None"
    and w: "kept_inv R sent0 w" and run: "schedule_set E names w = (o', w')"
  shows "kept_inv R sent0 w' \<and> (\<forall>live. o' = Returned live \<longrightarrow> (\<forall>x\<in>set live. fst x \<notin> dom R))"
  using w run
proof (induction names arbitrary: w o' w')
  case (Cons name ns)
  obtain m w1 where m: "set_member E name w = (m, w1)" by fastforce
  obtain q w2 where s: "schedule_set E ns w1 = (q, w2)" by fastforce
  have w1: "kept_inv R sent0 w1" "\<And>p. m = Returned (Some p) \<Longrightarrow> name \<notin> dom R"
    using member_default [OF sel ex Cons.prems(1) m] by auto
  have w2: "kept_inv R sent0 w2" "\<And>live. q = Returned live \<Longrightarrow> \<forall>x\<in>set live. fst x \<notin> dom R"
    using Cons.IH [OF w1(1) s] by auto
  show ?case
    using Cons.prems(2) w1 w2 by (cases m; cases q) (auto simp: act_bind_def m s act_ret_def split: option.splits)
qed (auto simp: act_ret_def)

lemma runSet_default:
  assumes sel: "ge_selected E = None" and ex: "\<forall>r\<in>ran R. rr_executed r \<noteq> None"
  shows "keeps (kept_inv R sent0) (runSet E fuel names)"
  unfolding runSet_def
proof (rule bind_keepsI)
  show "keeps (kept_inv R sent0) (schedule_set E names)"
    unfolding keeps_def
  proof (intro allI impI)
    fix w assume w: "kept_inv R sent0 w"
    obtain o' w' where "schedule_set E names w = (o', w')" by fastforce
    then show "kept_inv R sent0 (Product_Type.snd (schedule_set E names w))" using schedule_set_default [OF sel ex w] by simp
  qed
next
  fix w live w' assume "kept_inv R sent0 w" "schedule_set E names w = (Returned live, w')" and w': "kept_inv R sent0 w'"
  then have "\<forall>x\<in>set live. fst x \<notin> dom R" using schedule_set_default [OF sel ex] by blast
  then have "keeps (kept_inv R sent0) (act_bind (each_act (\<lambda>x. refuseIfPausedSince E (fst x) (Product_Type.snd x)) live) (\<lambda>_.
      act_bind (waitReady E fuel (map (\<lambda>x. (rp_id (Product_Type.snd x), fst x)) live)) (\<lambda>_. each_act (execute_member E) live)))"
    unfolding execute_member_def by (intro keeps_intros kept_phases(2)) blast
  with w' show "kept_inv R sent0 (Product_Type.snd (act_bind (each_act (\<lambda>x. refuseIfPausedSince E (fst x) (Product_Type.snd x)) live) (\<lambda>_.
      act_bind (waitReady E fuel (map (\<lambda>x. (rp_id (Product_Type.snd x), fst x)) live)) (\<lambda>_. each_act (execute_member E) live)) w'))"
    by (simp add: keeps_def)
qed

lemma twin_default:
  assumes "isTwinOnlyRow name" "dom R \<subseteq> {n. \<not> isTwinOnlyRow n}"
  shows "keeps (kept_inv R sent0) (twin_member E fuel name)"
proof -
  have "name \<notin> dom R" using assms by auto
  then show ?thesis unfolding twin_member_def by (intro keeps_intros kept_phases(4))
qed

lemma kept_mark_done: "kept_inv R sent0 w \<Longrightarrow> kept_inv R sent0 (mark_done E stage w)"
  by (simp add: mark_done_def Let_def kept_inv_def w_row_def w_mem_def)

text \<open>A default run over a vault that reads paused again after its unpause executed does not come back normally.\<close>

lemma set_member_refuses:
  assumes sel: "ge_selected E = None" and row: "w_row name w = Some prev" "rr_executed prev \<noteq> None"
    and paused: "\<And>k. ge_depositsPaused E k (ge_vaults E (vault_of_row name)) = Some True"
  shows "fst (set_member E name w) = Threw (PublishError GOVERN)"
  using assms by (simp add: member_executed [OF sel row] complete_row_def act_bind_def pausedNow_def chain_read_def of_res_def
      of_option_def govern_error_def act_throw_def)

lemma schedule_set_refuses:
  assumes sel: "ge_selected E = None" and ex: "\<forall>r\<in>ran R. rr_executed r \<noteq> None" and w: "kept_inv R sent0 w"
    and name: "name \<in> set names" "name \<in> dom R" and paused: "\<And>k. ge_depositsPaused E k (ge_vaults E (vault_of_row name)) = Some True"
  shows "fst (schedule_set E names w) \<noteq> Returned live"
  using w name(1)
proof (induction names arbitrary: w live)
  case (Cons n ns)
  obtain m w1 where m: "set_member E n w = (m, w1)" by fastforce
  have w1: "kept_inv R sent0 w1" using member_default [OF sel ex Cons.prems(1) m] by simp
  show ?case
  proof (cases "n = name")
    case True
    from name(2) obtain prev where prev: "R name = Some prev" by blast
    with Cons.prems(1) have "w_row name w = Some prev" by (simp add: kept_inv_def)
    moreover have "rr_executed prev \<noteq> None" using ex prev by (auto simp: ran_def)
    ultimately have "m = Threw (PublishError GOVERN)"
      using set_member_refuses [OF sel _ _ paused, of w prev] m True by simp
    then show ?thesis by (simp add: act_bind_def m)
  next
    case False
    with Cons.prems(2) have "name \<in> set ns" by simp
    then have "fst (schedule_set E ns w1) \<noteq> Returned l" for l using Cons.IH w1 by blast
    then show ?thesis by (cases m; cases "schedule_set E ns w1") (auto simp: act_bind_def m split: outcome.splits)
  qed
qed simp

text \<open>
  C7. A run with no row selected never touches an unpause that executed before it: whatever the chain answers, the
  row's record is the same afterwards and no transaction is sent for it; and when the vault reads paused again, the run
  does not end normally, so a script that runs the stage again never reopens a vault that was paused on purpose.
\<close>

theorem default_run_never_reopens:
  assumes "ge_selected E = None" "w_row name w = Some rec" "rr_executed rec \<noteq> None" "\<not> isTwinOnlyRow name"
    and "runRows E fuel stage w = (r, w')"
  shows "w_row name w' = Some rec
    \<and> (\<exists>new. gw_sent w' = gw_sent w @ new \<and> (\<forall>s\<in>set new. sd_row s \<noteq> name))
    \<and> (name \<in> set (stageRows E) \<and> (\<forall>k. ge_depositsPaused E k (ge_vaults E (vault_of_row name)) = Some True) \<longrightarrow> r \<noteq> Returned ())"
proof -
  define R where "R = [name \<mapsto> rec]"
  have ex: "\<forall>r\<in>ran R. rr_executed r \<noteq> None" using assms(3) by (auto simp: R_def ran_def split: if_splits)
  have w: "kept_inv R (gw_sent w) w" using assms(2) by (simp add: kept_inv_def R_def)
  have twin: "dom R \<subseteq> {n. \<not> isTwinOnlyRow n}" using assms(4) by (simp add: R_def)
  have "keeps (kept_inv R (gw_sent w)) (runRows E fuel stage)"
    unfolding runRows_def Let_def
    by (intro keeps_intros runSet_default [OF assms(1) ex] twin_default [OF _ twin] keeps_upd kept_mark_done) auto
  from keepsD [OF this w assms(5)] have "w_row name w' = Some rec \<and> (\<exists>new. gw_sent w' = gw_sent w @ new \<and> (\<forall>s\<in>set new. sd_row s \<noteq> name))"
    by (auto simp: kept_inv_def R_def split: if_splits)
  moreover have "r \<noteq> Returned ()" if n: "name \<in> set (stageRows E)" and p: "\<And>k. ge_depositsPaused E k (ge_vaults E (vault_of_row name)) = Some True"
  proof -
    let ?names = "filter (\<lambda>n. \<not> isTwinOnlyRow n) (stageRows E)"
    have in': "name \<in> set ?names" using n assms(4) by simp
    then have ne: "?names \<noteq> []" by (metis empty_iff list.set(1))
    have "fst (schedule_set E ?names w) \<noteq> Returned live" for live
      by (rule schedule_set_refuses [OF assms(1) ex w in' _ p]) (simp add: R_def)
    then have "fst (runSet E fuel ?names w) \<noteq> Returned ()"
      by (cases "schedule_set E ?names w") (auto simp: runSet_def act_bind_def split: outcome.splits)
    then show ?thesis
      using assms(5) ne by (cases "runSet E fuel ?names w") (auto simp: runRows_def Let_def assms(1) act_bind_def split: outcome.splits)
  qed
  ultimately show ?thesis by blast
qed

section \<open>The wait ends\<close>

definition op_at :: "govern_env \<Rightarrow> moment \<Rightarrow> string \<Rightarrow> OperationState option" where
  "op_at E k oid = (case ap_operationState (ge_api E) k (ge_timelock E) oid of Inl _ \<Rightarrow> None | Inr st \<Rightarrow> Some st)"

definition waits_at :: "govern_env \<Rightarrow> moment \<Rightarrow> string \<Rightarrow> OperationState \<Rightarrow> bool" where
  "waits_at E k oid st \<longleftrightarrow> op_at E k oid = Some st \<and> \<not> os_ready st \<and> \<not> os_done st \<and> os_pending st"

text \<open>
  The chain's clock never runs back and moves between two passes; an operation is ready from its ready time on,
  pending and not ready only before it, and done for good.
\<close>

definition clock_laws :: "govern_env \<Rightarrow> nat \<Rightarrow> (string \<times> string) list \<Rightarrow> (nat \<Rightarrow> int) \<Rightarrow> (string \<Rightarrow> int) \<Rightarrow> bool" where
  "clock_laws E n ops clock ready \<longleftrightarrow>
     (\<forall>k. ge_time E (k, n) = Some (clock k)) \<and> (\<forall>k k'. k \<le> k' \<longrightarrow> clock k \<le> clock k') \<and> (\<forall>k. clock k + 1 \<le> clock (k + length ops + 2)) \<and>
     (\<forall>oid\<in>fst ` set ops. \<forall>k st. op_at E (k, n) oid = Some st \<longrightarrow>
        (os_ready st \<longrightarrow> ready oid \<le> clock k) \<and>
        (os_done st \<longrightarrow> (\<forall>k'>k. \<forall>st'. op_at E (k', n) oid = Some st' \<longrightarrow> os_done st')) \<and>
        (waits_at E (k, n) oid st \<longrightarrow> os_readyAt st = ready oid \<and> clock k < ready oid))"

text \<open>A pass over the operations takes one read of each.\<close>

lemma latest_ready_pass:
  assumes "latest_ready E ops acc w = (Returned l, w')"
  shows "gw_tick w' = gw_tick w + length ops \<and> gw_sent w' = gw_sent w \<and> acc \<le> l
    \<and> (l = acc \<or> (\<exists>j<length ops. \<exists>st. waits_at E (gw_tick w + j, length (gw_sent w)) (fst (ops ! j)) st \<and> os_readyAt st = l))
    \<and> (\<forall>j<length ops. \<exists>st. op_at E (gw_tick w + j, length (gw_sent w)) (fst (ops ! j)) = Some st \<and>
         (os_ready st \<or> os_done st \<or> (waits_at E (gw_tick w + j, length (gw_sent w)) (fst (ops ! j)) st \<and> os_readyAt st \<le> l)))"
  using assms
proof (induction ops arbitrary: acc w)
  case (Cons op ops)
  obtain oid name where op: "op = (oid, name)" by fastforce
  let ?w1 = "w\<lparr>gw_tick := Suc (gw_tick w)\<rparr>"
  from Cons.prems obtain st where st: "ap_operationState (ge_api E) (now_of w) (ge_timelock E) oid = Inr st"
    by (cases "ap_operationState (ge_api E) (now_of w) (ge_timelock E) oid") (auto simp: op act_bind_def chain_read_def of_res_def)
  then have at: "op_at E (gw_tick w, length (gw_sent w)) oid = Some st" by (simp add: op_at_def now_of_def)
  define acc' where "acc' = (if os_ready st \<or> os_done st then acc else if os_readyAt st > acc then os_readyAt st else acc)"
  have pend: "os_ready st \<or> os_done st \<or> os_pending st"
    using Cons.prems st by (auto simp: op act_bind_def chain_read_def of_res_def govern_error_def act_throw_def split: if_splits)
  have "latest_ready E ops acc' ?w1 = (Returned l, w')"
    using Cons.prems st pend by (auto simp: op act_bind_def chain_read_def of_res_def acc'_def split: if_splits)
  note IH = Cons.IH [OF this]
  have here: "os_ready st \<or> os_done st \<or> (waits_at E (gw_tick w, length (gw_sent w)) oid st \<and> os_readyAt st \<le> l)"
    using pend IH at by (auto simp: waits_at_def acc'_def split: if_splits)
  have l: "l = acc \<or> (\<exists>j<length (op # ops). \<exists>st. waits_at E (gw_tick w + j, length (gw_sent w)) (fst ((op # ops) ! j)) st \<and> os_readyAt st = l)"
  proof (cases "l = acc'")
    case True
    then show ?thesis using pend at by (auto simp: acc'_def op waits_at_def split: if_splits intro!: exI [of _ 0])
  next
    case False
    with IH obtain j st' where "j < length ops" "waits_at E (gw_tick ?w1 + j, length (gw_sent ?w1)) (fst (ops ! j)) st'" "os_readyAt st' = l" by blast
    then show ?thesis by (intro disjI2 exI [of _ "Suc j"]) auto
  qed
  have all: "\<exists>st. op_at E (gw_tick w + j, length (gw_sent w)) (fst ((op # ops) ! j)) = Some st \<and>
      (os_ready st \<or> os_done st \<or> (waits_at E (gw_tick w + j, length (gw_sent w)) (fst ((op # ops) ! j)) st \<and> os_readyAt st \<le> l))" if "j < length (op # ops)" for j
  proof (cases j)
    case 0
    then show ?thesis using at here by (auto simp: op)
  next
    case (Suc i)
    with that IH have "\<exists>st. op_at E (gw_tick ?w1 + i, length (gw_sent ?w1)) (fst (ops ! i)) = Some st \<and>
        (os_ready st \<or> os_done st \<or> (waits_at E (gw_tick ?w1 + i, length (gw_sent ?w1)) (fst (ops ! i)) st \<and> os_readyAt st \<le> l))" by simp
    then show ?thesis using Suc by simp
  qed
  show ?case using IH l all by (auto simp: acc'_def split: if_splits)
qed (simp add: act_ret_def)

lemma latest_ready_returns: "fst (latest_ready E ops acc w) \<noteq> StillWaiting"
proof (induction ops arbitrary: acc w)
  case (Cons op ops)
  obtain oid name where "op = (oid, name)" by fastforce
  then show ?case using Cons by (auto simp: act_bind_def chain_read_def of_res_def govern_error_def act_throw_def split: sum.splits)
qed (simp add: act_ret_def)

lemma waitReady_pass:
  assumes "\<not> warpFor E" "ge_time E (gw_tick w + length ops, length (gw_sent w)) = Some now"
  shows "fst (waitReady E (Suc fuel) ops w) = StillWaiting \<longleftrightarrow>
    (\<exists>l w1. latest_ready E ops 0 w = (Returned l, w1) \<and> l \<noteq> 0 \<and> l - now \<le> max_wait E \<and>
       fst (waitReady E fuel ops (w1\<lparr>gw_tick := gw_tick w + length ops + 2\<rparr>)) = StillWaiting)"
proof -
  obtain o' w1 where lr: "latest_ready E ops 0 w = (o', w1)" by fastforce
  then have o': "o' \<noteq> StillWaiting" using latest_ready_returns [of E ops 0 w] by auto
  show ?thesis
  proof (cases o')
    case (Returned l)
    then have "gw_tick w1 = gw_tick w + length ops" "gw_sent w1 = gw_sent w" using latest_ready_pass [of E ops 0 w l w1] lr by simp_all
    then show ?thesis using assms lr Returned
      by (auto simp: act_bind_def chain_read_def now_of_def of_res_def of_option_def act_throw_def act_ret_def Let_def)
  qed (use lr o' in \<open>auto simp: act_bind_def\<close>)
qed

lemma clock_lawsD:
  assumes "clock_laws E n ops clock ready"
  shows clock_time: "ge_time E (k, n) = Some (clock k)"
    and clock_mono: "k \<le> k' \<Longrightarrow> clock k \<le> clock k'"
    and clock_moves: "clock k + 1 \<le> clock (k + length ops + 2)"
    and clock_ready: "j < length ops \<Longrightarrow> op_at E (k, n) (fst (ops ! j)) = Some st \<Longrightarrow> os_ready st \<Longrightarrow> ready (fst (ops ! j)) \<le> clock k"
    and clock_done: "j < length ops \<Longrightarrow> op_at E (k, n) (fst (ops ! j)) = Some st \<Longrightarrow> os_done st \<Longrightarrow> k < k' \<Longrightarrow>
      op_at E (k', n) (fst (ops ! j)) = Some st' \<Longrightarrow> os_done st'"
    and clock_waits: "j < length ops \<Longrightarrow> waits_at E (k, n) (fst (ops ! j)) st \<Longrightarrow>
      os_readyAt st = ready (fst (ops ! j)) \<and> clock k < ready (fst (ops ! j))"
proof -
  have "fst (ops ! j) \<in> fst ` set ops" if "j < length ops" using that by simp
  with assms show "j < length ops \<Longrightarrow> op_at E (k, n) (fst (ops ! j)) = Some st \<Longrightarrow> os_ready st \<Longrightarrow> ready (fst (ops ! j)) \<le> clock k"
    "j < length ops \<Longrightarrow> op_at E (k, n) (fst (ops ! j)) = Some st \<Longrightarrow> os_done st \<Longrightarrow> k < k' \<Longrightarrow> op_at E (k', n) (fst (ops ! j)) = Some st' \<Longrightarrow> os_done st'"
    "j < length ops \<Longrightarrow> waits_at E (k, n) (fst (ops ! j)) st \<Longrightarrow> os_readyAt st = ready (fst (ops ! j)) \<and> clock k < ready (fst (ops ! j))"
    unfolding clock_laws_def waits_at_def by blast+
qed (use assms in \<open>simp_all add: clock_laws_def\<close>)

lemma pass_advances:
  assumes "clock_laws E (length (gw_sent w)) ops clock ready" "latest_ready E ops 0 w = (Returned l, w1)" "l \<noteq> 0"
  shows "clock (gw_tick w) < l"
proof -
  from latest_ready_pass [OF assms(2)] assms(3) obtain j st where j: "j < length ops"
    "waits_at E (gw_tick w + j, length (gw_sent w)) (fst (ops ! j)) st" "os_readyAt st = l" by auto
  then have "clock (gw_tick w + j) < l" using clock_waits [OF assms(1) j(1,2)] by simp
  moreover have "clock (gw_tick w) \<le> clock (gw_tick w + j)" by (rule clock_mono [OF assms(1)]) simp
  ultimately show ?thesis by linarith
qed

text \<open>While no operation that still waits is ready later than \<open>b\<close>, the passes left are bounded by the time left.\<close>

lemma wait_bounded:
  assumes laws: "clock_laws E n ops clock ready" and nowarp: "\<not> warpFor E"
  shows "length (gw_sent w) = n \<Longrightarrow> nat (b - clock (gw_tick w)) < fuel \<Longrightarrow>
    (\<And>j k st. j < length ops \<Longrightarrow> gw_tick w \<le> k \<Longrightarrow> waits_at E (k, n) (fst (ops ! j)) st \<Longrightarrow> os_readyAt st \<le> b) \<Longrightarrow>
    fst (waitReady E fuel ops w) \<noteq> StillWaiting"
proof (induction fuel arbitrary: w)
  case (Suc fuel)
  have time: "ge_time E (gw_tick w + length ops, length (gw_sent w)) = Some (clock (gw_tick w + length ops))"
    using clock_time [OF laws] Suc.prems(1) by simp
  show ?case
  proof
    assume "fst (waitReady E (Suc fuel) ops w) = StillWaiting"
    then obtain l w1 where l: "latest_ready E ops 0 w = (Returned l, w1)" "l \<noteq> 0"
      and rest: "fst (waitReady E fuel ops (w1\<lparr>gw_tick := gw_tick w + length ops + 2\<rparr>)) = StillWaiting"
      unfolding waitReady_pass [OF nowarp time] by blast
    from latest_ready_pass [OF l(1)] l(2) obtain j st where "j < length ops" "waits_at E (gw_tick w + j, n) (fst (ops ! j)) st" "os_readyAt st = l"
      using Suc.prems(1) by auto
    with Suc.prems(3) have "l \<le> b" by (metis le_add1)
    with pass_advances [of E w ops clock ready l w1] laws l Suc.prems(1) have "clock (gw_tick w) < b" by simp
    moreover note clock_moves [OF laws, of "gw_tick w"]
    ultimately have "nat (b - clock (gw_tick w + length ops + 2)) < fuel" using Suc.prems(2) by linarith
    then have "fst (waitReady E fuel ops (w1\<lparr>gw_tick := gw_tick w + length ops + 2\<rparr>)) \<noteq> StillWaiting"
    proof (intro Suc.IH)
      fix j k st assume "j < length ops" "gw_tick (w1\<lparr>gw_tick := gw_tick w + length ops + 2\<rparr>) \<le> k" "waits_at E (k, n) (fst (ops ! j)) st"
      then show "os_readyAt st \<le> b" by (intro Suc.prems(3) [of j k]) simp_all
    qed (use latest_ready_pass [OF l(1)] Suc.prems(1) in simp_all)
    with rest show False by simp
  qed
qed simp

text \<open>
  C24. The wait for the timelock's delay ends. On a chain without the time warp (Base mainnet always), when the clock
  moves between two passes and the timelock's answers follow its clock, the loop comes back after at most two passes
  more than the seconds the run may wait (at most 3600 on mainnet): every operation is ready or done, or an error says the
  run is pending or an operation was cancelled.
\<close>

theorem wait_ends:
  assumes "clock_laws E (length (gw_sent w)) ops clock ready" "\<not> warpFor E" "nat (max_wait E) + 2 \<le> fuel"
  shows "fst (waitReady E fuel ops w) \<noteq> StillWaiting"
proof
  obtain f where f: "fuel = Suc f" "nat (max_wait E) < f" using assms(3) by (cases fuel) auto
  note time = clock_time [OF assms(1), of "gw_tick w + length ops"]
  assume "fst (waitReady E fuel ops w) = StillWaiting"
  then obtain l w1 where l: "latest_ready E ops 0 w = (Returned l, w1)" "l - clock (gw_tick w + length ops) \<le> max_wait E"
    and rest: "fst (waitReady E f ops (w1\<lparr>gw_tick := gw_tick w + length ops + 2\<rparr>)) = StillWaiting"
    unfolding f(1) waitReady_pass [OF assms(2) time] by blast
  have "clock (gw_tick w + length ops) \<le> clock (gw_tick w + length ops + 2)" by (rule clock_mono [OF assms(1)]) simp
  with l(2) f(2) have fuel: "nat (l - clock (gw_tick w + length ops + 2)) < f" by linarith
  have "os_readyAt st \<le> l" if j: "j < length ops" and k: "gw_tick w + length ops + 2 \<le> k" and st: "waits_at E (k, length (gw_sent w)) (fst (ops ! j)) st" for j k st
  proof -
    let ?oid = "fst (ops ! j)"
    have wk: "os_readyAt st = ready ?oid" "clock k < ready ?oid" using clock_waits [OF assms(1) j st] by simp_all
    from latest_ready_pass [OF l(1)] j obtain st0 where st0: "op_at E (gw_tick w + j, length (gw_sent w)) ?oid = Some st0"
      "os_ready st0 \<or> os_done st0 \<or> (waits_at E (gw_tick w + j, length (gw_sent w)) ?oid st0 \<and> os_readyAt st0 \<le> l)" by blast
    have early: "gw_tick w + j < k" using j k by simp
    have "\<not> os_ready st0"
      using clock_ready [OF assms(1) j st0(1)] clock_mono [OF assms(1) less_imp_le [OF early]] wk(2) by linarith
    moreover have "\<not> os_done st0" using clock_done [OF assms(1) j st0(1) _ early] st by (auto simp: waits_at_def)
    ultimately have "waits_at E (gw_tick w + j, length (gw_sent w)) ?oid st0" "os_readyAt st0 \<le> l" using st0(2) by auto
    then show ?thesis using clock_waits [OF assms(1) j] wk(1) by simp
  qed
  then have "fst (waitReady E f ops (w1\<lparr>gw_tick := gw_tick w + length ops + 2\<rparr>)) \<noteq> StillWaiting"
    by (intro wait_bounded [OF assms(1,2), of _ l]) (use fuel latest_ready_pass [OF l(1)] in simp_all)
  with rest show False by simp
qed

end
