(* ===== verification/RoundRuns.thy ===== *)
theory RoundRuns
  imports RoundHistory
begin

text \<open>
  Concrete runs of the governance rounds: one vault is scheduled and executed through the real Safe tool on a chain
  whose answers are scripted, and the same run with a pause-all recorded during the wait.
\<close>

definition sample_world :: gworld where
  "sample_world = \<lparr>gw_ms = manifest_start fresh_manifest, gw_tick = 0, gw_sent = [], gw_lines = [], gw_opIds = [], gw_ran = [], gw_skipped = []\<rparr>"

definition rounds_tool :: tool_viem where
  "rounds_tool = (sample_tool JNull)\<lparr>vm := sample_codec_safe\<lparr>encodeCall := \<lambda>fn as.
     Some (if fn = ''schedule'' then ''0x01d5062a'' else if fn = ''execute'' then ''0x134008d3'' else ''0x0ca29fd0'')\<rparr>\<rparr>"

definition sample_signer :: "string \<Rightarrow> Signer" where
  "sample_signer o' = \<lparr>sg_address = Some (sample_addr o'), sg_modes = [Raw], sg_sign = (\<lambda>h m. Some (sample_sig o'))\<rparr>"

text \<open>The operation: unknown before the first transaction, ready after it, done after the second.\<close>

definition scripted_state :: "nat \<Rightarrow> OperationState" where
  "scripted_state k =
     (if k = 0 then \<lparr>os_exists = False, os_pending = False, os_ready = False, os_done = False, os_readyAt = 0\<rparr>
      else if k = 1 then \<lparr>os_exists = True, os_pending = True, os_ready = True, os_done = False, os_readyAt = 100\<rparr>
      else \<lparr>os_exists = True, os_pending = False, os_ready = False, os_done = True, os_readyAt = 1\<rparr>)"

definition sample_chain :: tool_chain where
  "sample_chain =
     \<lparr>tc_viem = rounds_tool, tc_handle = (\<lambda>(k, n). sample_handle (7 + int n)),
      tc_timelock = (\<lambda>(k, n). sample_timelock\<lparr>tl_state := \<lambda>_ _. Some (scripted_state n)\<rparr>),
      tc_now = (\<lambda>_. ''now''), tc_sender = sample_sender\<rparr>"

definition sample_env :: "(nat \<Rightarrow> pause_act list) \<Rightarrow> govern_env" where
  "sample_env pauses =
     \<lparr>ge_chainId = 8453, ge_coreSha = ''abc'', ge_kind = Production, ge_timelock = sample_addr ''bb'', ge_vaults = (\<lambda>_. sample_addr ''cc''),
      ge_vaultName = (\<lambda>k. ''rm'' @ k), ge_unpauseRows = [''unpause-USDC''], ge_stage13Rows = [''unpause-USDC''], ge_unpauseVaults = [''USDC''],
      ge_newDelay = 172800, ge_selected = None, ge_dependsOn = [], ge_owners = h_owners (sample_handle 7), ge_threshold = 2,
      ge_ownerSigners = [sample_signer ''01'', sample_signer ''03''], ge_maxWaitSeconds = None, ge_warp = WarpOff, ge_isTwinFork = False,
      ge_warpOk = (\<lambda>_. False), ge_viem = rounds_tool, ge_keccak = (\<lambda>_. ''0x'' @ replicate 64 (CHR ''7'')), ge_api = realGovernApi sample_chain,
      ge_now = (\<lambda>_. ''now''), ge_time = (\<lambda>(k, n). Some (int k)), ge_depositsPaused = (\<lambda>(k, n) v. Some (n < 2)), ge_perDepositCap = (\<lambda>k v. Some 0),
      ge_pauses = pauses, ge_lock = (\<lambda>_. True)\<rparr>"

definition sample_run :: "(nat \<Rightarrow> pause_act list) \<Rightarrow> unit outcome \<times> gworld" where
  "sample_run pauses = runRows (sample_env pauses) 5 ''govern'' sample_world"

section \<open>The properties at these runs\<close>

lemma sample_reads: "timelock_reads sample_chain (sample_addr ''bb'')"
proof -
  have "getAddress (vm (tc_viem sample_chain)) (sample_addr ''bb'') = Some (sample_addr ''bb'')" by code_simp
  then show ?thesis by (auto simp: timelock_reads_def sample_chain_def sample_timelock_def scripted_state_def)
qed

text \<open>A row scheduled under number 1, and a pause-all that begins before the next access of the file.\<close>

definition scheduled_row :: RowRecord where
  "scheduled_row = empty_row\<lparr>rr_round := Some 1, rr_scheduled := Some (adopted_phase ''0x51'' (Some 1) ''now'' (Some 100) ''n'')\<rparr>"

definition sent_schedule :: sent where
  "sent_schedule = \<lparr>sd_row = ''unpause-USDC'', sd_phase = Scheduled, sd_tx = (sample_addr ''aa'', ''0x6a761202''), sd_seq = 1, sd_log = [Reserved 1]\<rparr>"

definition reserved_world :: gworld where
  "reserved_world = sample_world\<lparr>gw_tick := 11, gw_sent := [sent_schedule], gw_ms := (case reserveManifestSeq (Stored fresh_manifest) fresh_manifest of
     (n, f, m) \<Rightarrow> \<lparr>ms_file = f, ms_mem = m\<lparr>rm_govern := [(''unpause-USDC'', scheduled_row)]\<rparr>, ms_log = [Reserved n]\<rparr>)\<rparr>"

definition paused_meanwhile :: "nat \<Rightarrow> pause_act list" where
  "paused_meanwhile k = (if k = 11 then [PauseBegin ''2026'' ''incident'' ''drill''] else [])"

lemma reserved_world_reach: "manifest_reach (manifest_start fresh_manifest) (gw_ms reserved_world)"
proof -
  obtain n f m where r: "reserveManifestSeq (Stored fresh_manifest) fresh_manifest = (n, f, m)" by (cases "reserveManifestSeq (Stored fresh_manifest) fresh_manifest") auto
  let ?s1 = "(manifest_start fresh_manifest)\<lparr>ms_file := f, ms_mem := m, ms_log := ms_log (manifest_start fresh_manifest) @ [Reserved n]\<rparr>"
  have n: "n = 1" using r by (simp add: reserveManifestSeq_def Let_def) (simp add: fresh_manifest_def mergeDisk_def merge_pauses_def nextManifestSeq_def governScheduled_def Let_def)
  have s1: "manifest_step (manifest_start fresh_manifest) ?s1" using r by (intro manifest_step.reserve) (simp add: manifest_start_def)
  let ?m = "m\<lparr>rm_govern := [(''unpause-USDC'', scheduled_row)], rm_stages := rm_stages m\<rparr>"
  have "\<forall>p\<in>set (governScheduled ?m). stamped_in (ms_log ?s1) p"
    by (simp add: governScheduled_def scheduled_row_def empty_row_def adopted_phase_def stamped_in_def n)
  then have "manifest_step ?s1 (?s1\<lparr>ms_mem := ?m\<rparr>)"
    by (intro manifest_step.rows [where g = "[(''unpause-USDC'', scheduled_row)]" and st = "rm_stages m"]) simp_all
  moreover have "gw_ms reserved_world = ?s1\<lparr>ms_mem := ?m\<rparr>" by (simp add: reserved_world_def r manifest_start_def)
  ultimately show ?thesis using s1 by (metis manifest_reach.intros)
qed

theorem overtaken_unpause_refused_witness:
  "\<exists>p w'. executePhase (sample_env paused_meanwhile) ''unpause-USDC'' p ''unpause-USDC'' reserved_world = (Threw (PublishError GOVERN), w')
     \<and> gw_sent w' = [sent_schedule]"
proof -
  let ?E = "sample_env paused_meanwhile" and ?w = reserved_world
  let ?p = "\<lparr>rp_id = ''0x51'', rp_dependsOn = None, rp_schedule = (\<lambda>k. Inl PlainError), rp_execute = None, rp_cancel = None, rp_readBack = (\<lambda>k. Inr []), rp_observed = (\<lambda>k. [])\<rparr>"
  have "ms_log (others ?E ?w) = [Reserved 1, Began 2]" by code_simp
  then have log: "ms_log (others ?E ?w) = [] @ Reserved 1 # [Began 2]" by simp
  have step: "apply_pause a s = s \<or> manifest_step s (apply_pause a s)" for a s by (rule apply_pause_step)
  have reach: "manifest_reach (manifest_start fresh_manifest) (others ?E ?w)"
    using reserved_world_reach step [of "PauseBegin ''2026'' ''incident'' ''drill''" "gw_ms ?w"] manifest_reach.step
    by (fastforce simp: others_def paused_meanwhile_def sample_env_def reserved_world_def)
  have st: "ap_operationState (ge_api ?E) (Suc (gw_tick ?w), length (gw_sent ?w)) (ge_timelock ?E) (rp_id ?p) = Inr (scripted_state 1)"
    by (simp add: sample_env_def realGovernApi_def sample_chain_def sample_timelock_def reserved_world_def)
  have row: "w_row ''unpause-USDC'' ?w = Some scheduled_row"
    by (simp add: w_row_def w_mem_def reserved_world_def split: prod.splits)
  have rest: "opens_a_vault ''unpause-USDC''" "rr_scheduled scheduled_row \<noteq> None" "schedule_seq scheduled_row = 1" "rr_executed scheduled_row = None"
    "os_exists (scripted_state 1)" "\<not> os_done (scripted_state 1)"
    by (simp_all add: opens_a_vault_def starts_with_def scheduled_row_def empty_row_def schedule_seq_def adopted_phase_def scripted_state_def)
  have "Began 2 \<in> set [Began 2]" by simp
  from overtaken_unpause_refused [OF reach log this rest(1) row rest(2-4) st rest(5,6)]
  show ?thesis by (fastforce simp: reserved_world_def sample_world_def)
qed

definition send_fresh :: "sent \<Rightarrow> bool" where
  "send_fresh s \<longleftrightarrow> (sd_phase s = Executed \<and> starts_with ''unpause-'' (sd_row s) \<longrightarrow> unpaused_since (sd_seq s) (sd_log s))"


definition executed_world :: gworld where
  "executed_world = set_row ''unpause-USDC'' (scheduled_row\<lparr>rr_executed := Some (adopted_phase ''0x51'' None ''now'' (Some 100) ''n'')\<rparr>) sample_world"

theorem default_run_never_reopens_witness:
  "fst (runRows ((sample_env (\<lambda>_. []))\<lparr>ge_depositsPaused := \<lambda>_ _. Some True\<rparr>) 5 ''govern'' executed_world) \<noteq> Returned ()"
proof -
  let ?E = "(sample_env (\<lambda>_. []))\<lparr>ge_depositsPaused := \<lambda>_ _. Some True\<rparr>"
  have "ge_selected ?E = None" "\<not> isTwinOnlyRow ''unpause-USDC''" "''unpause-USDC'' \<in> set (stageRows ?E)"
    by (simp_all add: sample_env_def isTwinOnlyRow_def TWIN_ONLY_ROWS_def stageRows_def MAINNET_CHAIN_ID_def)
  moreover have "w_row ''unpause-USDC'' executed_world = Some (scheduled_row\<lparr>rr_executed := Some (adopted_phase ''0x51'' None ''now'' (Some 100) ''n'')\<rparr>)"
    by (simp add: executed_world_def)
  ultimately show ?thesis
    using default_run_never_reopens [of ?E "''unpause-USDC''" executed_world _ 5 "''govern''" "fst (runRows ?E 5 ''govern'' executed_world)"
        "Product_Type.snd (runRows ?E 5 ''govern'' executed_world)"] by simp
qed

text \<open>An operation that is ready at time 30, on a chain whose clock counts the interactions.\<close>

definition waiting_state :: "nat \<Rightarrow> OperationState" where
  "waiting_state k = \<lparr>os_exists = True, os_pending = True, os_ready = 30 \<le> k, os_done = False, os_readyAt = 30\<rparr>"

definition waiting_env :: govern_env where
  "waiting_env = (sample_env (\<lambda>_. []))\<lparr>ge_api := (realGovernApi sample_chain)\<lparr>ap_operationState := \<lambda>(k, n) _ _. Inr (waiting_state k)\<rparr>\<rparr>"

theorem wait_ends_witness:
  "fst (waitReady waiting_env 3602 [(''0x51'', ''unpause-USDC'')] sample_world) \<noteq> StillWaiting"
proof (rule wait_ends)
  show "clock_laws waiting_env (length (gw_sent sample_world)) [(''0x51'', ''unpause-USDC'')] int (\<lambda>_. 30)"
    by (auto simp: clock_laws_def waits_at_def op_at_def waiting_env_def sample_env_def waiting_state_def)
  show "\<not> warpFor waiting_env" by (simp add: warpFor_def waiting_env_def sample_env_def)
  show "nat (max_wait waiting_env) + 2 \<le> 3602" by (simp add: max_wait_def Let_def waiting_env_def sample_env_def)
qed

end
