(* ===== verification/PauseAll.thy ===== *)
theory PauseAll
  imports RunManifest
begin

text \<open>
  pause-all of the publishing tool (publish-contracts/src/pause-all.ts, with \<open>nextNonce\<close>, \<open>receiptBlock\<close> and
  \<open>waitForReceiptBlock\<close> of runner.ts): it records a pause entry, sends \<open>pauseDeposits()\<close> to every vault, and reads each
  vault back.

  A run is a function of a world: the manifest file (with the other processes' writes before each access), the
  answers of the \<open>cast\<close> processes by their order, the sends so far, the nonces used and the result of the vault in
  hand, and the rollout report file. What the source throws and catches inside the loop over the vaults is a value here.
\<close>

section \<open>Data\<close>

datatype PauseSignerRole = RDeployer | REmergency

datatype stage_role = Sure PauseSignerRole | Unsure

record PauseVaultResult =
  pr_vault :: string
  pr_key :: string
  pr_address :: string
  pr_retired :: bool
  pr_signerRole :: PauseSignerRole
  pr_signer :: string
  pr_txHash :: "string option"
  pr_depositsPaused :: "bool option"
  pr_error :: "failure option"

record PauseAllReport =
  pa_trigger :: string
  pa_reason :: string
  pa_at :: string
  pa_allPaused :: bool
  pa_manifestRecorded :: bool
  pa_blocked :: bool
  pa_vaults :: "PauseVaultResult list"

text \<open>A \<open>cast send\<close>, with the manifest on disk and in the memory of govern when it was started.\<close>

record pause_send =
  sp_to :: string
  sp_from :: string
  sp_nonce :: "int option"
  sp_ok :: bool
  sp_manifest :: manifest_state

record pworld =
  pw_ms :: manifest_state
  pw_tick :: nat
  pw_sends :: "pause_send list"
  pw_sentNonce :: "string \<rightharpoonup> int"
  pw_res :: PauseVaultResult
  pw_report :: "PauseAllReport option"

text \<open>
  The context: \<open>pv_cast\<close> is a \<open>cast\<close> process (did it exit with 0, and its output), \<open>pv_address\<close> the vault address of a
  stage's manifest, \<open>pv_others\<close> what other processes do to the manifest before an access. A signer is the answer of
  its \<open>address()\<close>, \<^const>\<open>None\<close> where it throws; \<open>pv_emergency\<close> is the EMERGENCY signer, when there is one, or the
  error of making it.
\<close>

record pause_env =
  pv_dryRun :: bool
  pv_admin :: string
  pv_emergencyAddress :: string
  pv_deployer :: "string option"
  pv_emergency :: "failure + string option option"
  pv_EMERGENCY_ROLE :: string
  pv_forgeArgs :: "PauseSignerRole \<Rightarrow> failure + string list"
  pv_vaultStages :: "(string \<times> string) list"
  pv_retiredStages :: "(string \<times> string) list"
  pv_address :: "string \<Rightarrow> failure + string"
  pv_cast :: "nat \<Rightarrow> string list \<Rightarrow> bool \<times> string"
  pv_json :: "string \<Rightarrow> js option"
  pv_others :: "nat \<Rightarrow> manifest_state \<Rightarrow> manifest_state"
  pv_lock :: "nat \<Rightarrow> bool"
  pv_writable :: bool
  pv_trigger :: string
  pv_reason :: string
  pv_at :: string

definition vaultDisplayName :: "string \<Rightarrow> failure + string" where
  "vaultDisplayName k =
     of_option (PublishError INPUT_MISSING) (case VAULT_NAME k of Some n \<Rightarrow> Some n | None \<Rightarrow> RETIRED_VAULT_NAME k)"

section \<open>Who signs\<close>

definition HANDOVER_STAGE :: string where "HANDOVER_STAGE = ''timelock''"

definition pauseSignerRole :: "RunManifest \<Rightarrow> stage_role" where
  "pauseSignerRole m =
     (case map_of (rm_stages m) HANDOVER_STAGE of None \<Rightarrow> Sure RDeployer | Some v \<Rightarrow> if jget v ''status'' = JStr ''done'' then Sure REmergency else Unsure)"

definition check_signer :: "string option \<Rightarrow> string \<Rightarrow> failure + string" where
  "check_signer s want =
     res_bind (of_option PlainError s) (\<lambda>a. if lc a \<noteq> lc want then Inl (PublishError SIGNER) else Inr a)"

section \<open>The world\<close>

type_synonym 'a pact = "pworld \<Rightarrow> (failure + 'a) \<times> pworld"

definition p_ret :: "'a \<Rightarrow> 'a pact" where "p_ret a w = (Inr a, w)"
definition p_throw :: "failure \<Rightarrow> 'a pact" where "p_throw e w = (Inl e, w)"
definition p_bind :: "'a pact \<Rightarrow> ('a \<Rightarrow> 'b pact) \<Rightarrow> 'b pact" where
  "p_bind m f w = (case m w of (Inl e, w') \<Rightarrow> (Inl e, w') | (Inr a, w') \<Rightarrow> f a w')"

definition p_try :: "'a pact \<Rightarrow> (failure \<Rightarrow> 'a pact) \<Rightarrow> 'a pact" where
  "p_try m h w = (case m w of (Inl e, w') \<Rightarrow> h e w' | r \<Rightarrow> r)"

definition p_res :: "failure + 'a \<Rightarrow> 'a pact" where "p_res r w = (r, w)"

definition p_cast :: "pause_env \<Rightarrow> string list \<Rightarrow> (bool \<times> string) pact" where
  "p_cast E as w = (Inr (pv_cast E (pw_tick w) as), w\<lparr>pw_tick := Suc (pw_tick w)\<rparr>)"

definition castOut :: "pause_env \<Rightarrow> string list \<Rightarrow> string pact" where
  "castOut E as = p_bind (p_cast E as) (\<lambda>(ok, out). if ok then p_ret (trim out) else p_throw (PublishError TOOL))"

text \<open>An access of the manifest under its lock; pause-all catches every failure of it (\<open>record\<close>).\<close>

definition p_locked :: "pause_env \<Rightarrow> (manifest_state \<Rightarrow> 'a \<times> manifest_state) \<Rightarrow> 'a \<Rightarrow> 'a pact" where
  "p_locked E f fallback w =
     (let s = pv_others E (pw_tick w) (pw_ms w); n = Suc (pw_tick w) in
      if pv_lock E (pw_tick w) then (case f s of (a, s') \<Rightarrow> (Inr a, w\<lparr>pw_ms := s', pw_tick := n\<rparr>))
      else (Inr fallback, w\<lparr>pw_ms := s, pw_tick := n\<rparr>))"

definition begin_entry :: "pause_env \<Rightarrow> PauseEntry option pact" where
  "begin_entry E = p_locked E (\<lambda>s.
     case beginPauseEntry (ms_file s) (pv_at E) (pv_trigger E) (pv_reason E) of
       Inr (Some e, f) \<Rightarrow> (Some e, s\<lparr>ms_file := f, ms_log := ms_log s @ [Began (pe_seq e)]\<rparr>)
     | _ \<Rightarrow> (None, s)) None"

definition update_entry :: "pause_env \<Rightarrow> PauseEntry \<Rightarrow> unit pact" where
  "update_entry E e = p_locked E (\<lambda>s.
     case updatePauseEntry (ms_file s) e of Inr f \<Rightarrow> ((), s\<lparr>ms_file := f\<rparr>) | Inl _ \<Rightarrow> ((), s)) ()"

section \<open>Reads and waits\<close>

definition hasEmergencyRole :: "pause_env \<Rightarrow> string \<Rightarrow> string \<Rightarrow> bool pact" where
  "hasEmergencyRole E vault who =
     p_bind (castOut E [''call'', vault, ''hasRole(bytes32,address)(bool)'', pv_EMERGENCY_ROLE E, who]) (\<lambda>out. p_ret (trim out = ''true''))"

text \<open>\<open>BigInt(text)\<close> of a decimal or hexadecimal text.\<close>

definition big_text :: "string \<Rightarrow> int option" where
  "big_text t = (case t of
       c # r \<Rightarrow> if c = CHR ''-'' then (if all_digits r then Some (- int (read_nat r)) else None)
                else if c = CHR ''+'' then (if all_digits r then Some (int (read_nat r)) else None)
                else js_number (JStr t)
     | [] \<Rightarrow> Some 0)"

definition unfundedSigner :: "pause_env \<Rightarrow> string \<Rightarrow> bool pact" where
  "unfundedSigner E who =
     p_try (p_bind (castOut E [''balance'', who]) (\<lambda>out.
              case big_text (trim out) of None \<Rightarrow> p_throw PlainError | Some b \<Rightarrow> p_ret (\<not> b > 0)))
           (\<lambda>_. p_ret False)"

definition RECEIPT_BLOCK_READS :: nat where "RECEIPT_BLOCK_READS = 3"
definition RECEIPT_BLOCK_TRIES :: nat where "RECEIPT_BLOCK_TRIES = 60"

text \<open>\<open>/^(0x[0-9a-f]+|[0-9]+)$/i\<close>\<close>

definition block_text :: "string \<Rightarrow> bool" where
  "block_text t = (all_digits t \<or> (take 2 (lc t) = ''0x'' \<and> 2 < length t \<and> list_all is_hex_char (drop 2 t)))"

definition MAX_SAFE_INTEGER :: int where "MAX_SAFE_INTEGER = 9007199254740991"

definition receiptBlock :: "js \<Rightarrow> int option" where
  "receiptBlock receipt = (case jget receipt ''blockNumber'' of
       JNum n \<Rightarrow> if \<bar>n\<bar> \<le> MAX_SAFE_INTEGER then Some n else None
     | JStr s \<Rightarrow> if block_text (trim s) then js_number (JStr (trim s)) else None
     | _ \<Rightarrow> None)"

text \<open>The loop of the wait: \<open>seen\<close> reads in a row have shown the block, \<open>left\<close> reads are left.\<close>

fun wait_block :: "pause_env \<Rightarrow> int \<Rightarrow> nat \<Rightarrow> nat \<Rightarrow> unit pact" where
  "wait_block E block seen 0 = p_throw (PublishError TOOL)"
| "wait_block E block seen (Suc left) =
     p_bind (p_try (p_bind (castOut E [''block-number'']) (\<lambda>out. p_ret (if all_digits out then Some (int (read_nat out)) else None)))
                   (\<lambda>_. p_ret None)) (\<lambda>head.
       if (case head of None \<Rightarrow> False | Some h \<Rightarrow> h \<ge> block)
       then (if Suc seen \<ge> RECEIPT_BLOCK_READS then p_ret () else wait_block E block (Suc seen) left)
       else wait_block E block 0 left)"

definition waitForReceiptBlock :: "pause_env \<Rightarrow> int \<Rightarrow> unit pact" where
  "waitForReceiptBlock E block = wait_block E block 0 RECEIPT_BLOCK_TRIES"

definition nextNonce :: "pause_env \<Rightarrow> string \<Rightarrow> int option \<Rightarrow> int option pact" where
  "nextNonce E who sent =
     (let floor = map_option (\<lambda>n. n + 1) sent in
      p_bind (p_try (p_bind (castOut E [''nonce'', ''--block'', ''pending'', who]) (\<lambda>out.
                       p_ret (if all_digits out then Some (int (read_nat out)) else None)))
                    (\<lambda>_. p_ret None)) (\<lambda>nread.
      p_ret (case nread of None \<Rightarrow> floor | Some r \<Rightarrow> (case floor of None \<Rightarrow> Some r | Some f \<Rightarrow> Some (max r f)))))"

definition sentOk :: "js \<Rightarrow> bool" where
  "sentOk receipt = (lc (js_String (jget receipt ''status'')) \<in> set [''0x1'', ''1'', ''success''] \<or> jget receipt ''status'' = JNum 1)"

section \<open>One vault\<close>

definition upd_res :: "(PauseVaultResult \<Rightarrow> PauseVaultResult) \<Rightarrow> unit pact" where
  "upd_res f w = (Inr (), w\<lparr>pw_res := f (pw_res w)\<rparr>)"

record pause_target =
  pt_key :: string
  pt_stage :: string
  pt_retiredLine :: bool

record pause_signers =
  sr_stageRole :: stage_role
  sr_deployerAddr :: "string option"
  sr_emergencyAddr :: "string option"
  sr_blocked :: bool

definition or_empty :: "string option \<Rightarrow> string" where
  "or_empty v = (case v of None \<Rightarrow> [] | Some s \<Rightarrow> s)"

definition role_of :: "bool \<Rightarrow> PauseSignerRole" where
  "role_of deployer = (if deployer then RDeployer else REmergency)"

text \<open>\<open>retired()\<close> of a vault of the prior line; an unreadable answer is not a proof.\<close>

definition reads_retired :: "pause_env \<Rightarrow> string \<Rightarrow> bool pact" where
  "reads_retired E address =
     p_bind (p_try (p_bind (castOut E [''call'', address, ''retired()(bool)'']) (\<lambda>out. p_ret (trim out))) (\<lambda>_. p_ret [])) (\<lambda>out.
     p_ret (out = ''true''))"

definition last_json_line :: "string \<Rightarrow> string" where
  "last_json_line out = (case rev (filter (\<lambda>l. starts_with ''{'' l) (split_on (CHR 0x0A) (trim out))) of [] \<Rightarrow> ''{}'' | l # _ \<Rightarrow> l)"

definition pause_receipt :: "pause_env \<Rightarrow> string \<Rightarrow> js" where
  "pause_receipt E out = (case pv_json E (last_json_line out) of None \<Rightarrow> JObj [] | Some r \<Rightarrow> r)"

definition cast_send :: "pause_env \<Rightarrow> string \<Rightarrow> string \<Rightarrow> int option \<Rightarrow> string list \<Rightarrow> (bool \<times> string) pact" where
  "cast_send E address who n sargs w =
     (let cmd = [''send'', address, ''pauseDeposits()'', ''--json''] @ (case n of None \<Rightarrow> [] | Some k \<Rightarrow> [''--nonce'', show_int k]) @ sargs;
          r = pv_cast E (pw_tick w) cmd in
      (Inr r, w\<lparr>pw_tick := Suc (pw_tick w),
         pw_sends := pw_sends w @ [\<lparr>sp_to = address, sp_from = who, sp_nonce = n, sp_ok = fst r, sp_manifest = pw_ms w\<rparr>]\<rparr>))"

definition note_nonce :: "string \<Rightarrow> int option \<Rightarrow> unit pact" where
  "note_nonce who n w = (Inr (), case n of None \<Rightarrow> w | Some k \<Rightarrow> w\<lparr>pw_sentNonce := (pw_sentNonce w)(lc who \<mapsto> k)\<rparr>)"

definition castSignerArgs :: "pause_env \<Rightarrow> PauseSignerRole \<Rightarrow> failure + string list" where
  "castSignerArgs E role = res_bind (pv_forgeArgs E role) (\<lambda>as. Inr (map (\<lambda>a. if a = ''--sender'' then ''--from'' else a) as))"

text \<open>The send, from the nonce to the receipt.\<close>

definition send_pause :: "pause_env \<Rightarrow> string \<Rightarrow> string \<Rightarrow> PauseSignerRole \<Rightarrow> unit pact" where
  "send_pause E address who role =
     p_bind (\<lambda>w. nextNonce E who (pw_sentNonce w (lc who)) w) (\<lambda>n.
     p_bind (p_res (castSignerArgs E role)) (\<lambda>sargs.
     p_bind (cast_send E address who n sargs) (\<lambda>(ok, out).
     if \<not> ok then p_throw (PublishError TOOL)
     else
       let receipt = pause_receipt E out in
       p_bind (note_nonce who n) (\<lambda>_.
       p_bind (case jget receipt ''transactionHash'' of JStr h \<Rightarrow> upd_res (\<lambda>r. r\<lparr>pr_txHash := Some h\<rparr>) | _ \<Rightarrow> p_ret ()) (\<lambda>_.
       p_bind (case receiptBlock receipt of None \<Rightarrow> p_ret () | Some b \<Rightarrow> waitForReceiptBlock E b) (\<lambda>_.
       if jget receipt ''status'' \<noteq> JUndef \<and> \<not> sentOk receipt then p_throw (PublishError BROADCAST) else p_ret ()))))))"

text \<open>The try block: \<^const>\<open>True\<close> when the vault is retired and nothing is to be done.\<close>

definition try_vault :: "pause_env \<Rightarrow> pause_signers \<Rightarrow> PauseSignerRole option \<Rightarrow> pause_target \<Rightarrow> bool pact" where
  "try_vault E sr role0 v =
     p_bind (p_res (pv_address E (pt_stage v))) (\<lambda>address.
     p_bind (upd_res (\<lambda>r. r\<lparr>pr_address := address\<rparr>)) (\<lambda>_.
     p_bind (if pt_retiredLine v then reads_retired E address else p_ret False) (\<lambda>gone.
     if gone then p_bind (upd_res (\<lambda>r. r\<lparr>pr_retired := True\<rparr>)) (\<lambda>_. p_ret True)
     else
       p_bind (case sr_stageRole sr of
                 Sure r \<Rightarrow> p_ret r
               | Unsure \<Rightarrow> (case role0 of Some r \<Rightarrow> p_ret r
                           | None \<Rightarrow> p_bind (hasEmergencyRole E address (or_empty (sr_deployerAddr sr))) (\<lambda>d. p_ret (role_of d)))) (\<lambda>role.
       let who = or_empty (case role of RDeployer \<Rightarrow> sr_deployerAddr sr | REmergency \<Rightarrow> sr_emergencyAddr sr) in
       p_bind (upd_res (\<lambda>r. r\<lparr>pr_signerRole := role, pr_signer := who\<rparr>)) (\<lambda>_.
       p_bind (if sr_blocked sr then p_throw (PublishError PAUSE) else send_pause E address who role) (\<lambda>_.
       p_ret False))))))"

definition read_paused :: "pause_env \<Rightarrow> bool \<Rightarrow> string \<Rightarrow> unit pact" where
  "read_paused E blocked address =
     p_try
       (p_bind (castOut E [''call'', address, ''depositsPaused()(bool)'']) (\<lambda>out.
          if trim out \<noteq> ''true'' \<and> trim out \<noteq> ''false'' then p_throw (PublishError TOOL)
          else upd_res (\<lambda>r. let r' = r\<lparr>pr_depositsPaused := Some (trim out = ''true'')\<rparr> in
                            if blocked \<and> trim out = ''true'' then r'\<lparr>pr_error := None\<rparr> else r')))
       (\<lambda>e. upd_res (\<lambda>r. if pr_error r = None then r\<lparr>pr_error := Some e\<rparr> else r))"

definition read_back :: "pause_env \<Rightarrow> bool \<Rightarrow> unit pact" where
  "read_back E blocked w =
     (let address = pr_address (pw_res w) in if address = [] then (Inr (), w) else read_paused E blocked address w)"

definition first_role :: "stage_role \<Rightarrow> PauseSignerRole" where
  "first_role sr = (case sr of Sure r \<Rightarrow> r | Unsure \<Rightarrow> RDeployer)"

text \<open>One pass of the loop; the result of the vault.\<close>

definition pause_vault :: "pause_env \<Rightarrow> pause_signers \<Rightarrow> PauseSignerRole option \<Rightarrow> pause_target \<Rightarrow> PauseVaultResult pact" where
  "pause_vault E sr role0 v =
     p_bind (p_res (vaultDisplayName (pt_key v))) (\<lambda>name.
     p_bind (upd_res (\<lambda>_. \<lparr>pr_vault = name, pr_key = pt_key v, pr_address = [], pr_retired = False, pr_signerRole = first_role (sr_stageRole sr),
                          pr_signer = [], pr_txHash = None, pr_depositsPaused = None, pr_error = None\<rparr>)) (\<lambda>_.
     p_bind (p_try (try_vault E sr role0 v) (\<lambda>e. p_bind (upd_res (\<lambda>r. r\<lparr>pr_error := Some e\<rparr>)) (\<lambda>_. p_ret False))) (\<lambda>gone.
     p_bind (if gone then p_ret () else read_back E (sr_blocked sr)) (\<lambda>_.
     (\<lambda>w. (Inr (pw_res w), w))))))"

text \<open>\<open>{ ...x }\<close> in the manifest; the text of an error is not modelled.\<close>

definition result_js :: "PauseVaultResult \<Rightarrow> js" where
  "result_js r =
     JObj ([(''vault'', JStr (pr_vault r)), (''key'', JStr (pr_key r)), (''address'', JStr (pr_address r)),
            (''signerRole'', JStr (case pr_signerRole r of RDeployer \<Rightarrow> ''deployer'' | REmergency \<Rightarrow> ''emergency'')), (''signer'', JStr (pr_signer r))]
       @ (if pr_retired r then [(''retired'', JBool True)] else [])
       @ (case pr_txHash r of None \<Rightarrow> [] | Some h \<Rightarrow> [(''txHash'', JStr h)])
       @ (case pr_error r of None \<Rightarrow> [] | Some e \<Rightarrow> [(''error'', JStr ''message'')])
       @ (case pr_depositsPaused r of None \<Rightarrow> [] | Some b \<Rightarrow> [(''depositsPaused'', JBool b)]))"

definition update_if :: "pause_env \<Rightarrow> PauseEntry option \<Rightarrow> (PauseEntry \<Rightarrow> PauseEntry) \<Rightarrow> unit pact" where
  "update_if E entry f = (case entry of None \<Rightarrow> p_ret () | Some e \<Rightarrow> update_entry E (f e))"

fun pause_vaults ::
  "pause_env \<Rightarrow> pause_signers \<Rightarrow> PauseEntry option \<Rightarrow> (PauseSignerRole option \<times> pause_target) list \<Rightarrow> PauseVaultResult list \<Rightarrow> PauseVaultResult list pact" where
  "pause_vaults E sr entry [] out = p_ret out"
| "pause_vaults E sr entry ((role0, v) # vs) out =
     p_bind (pause_vault E sr role0 v) (\<lambda>r.
     p_bind (update_if E entry (\<lambda>e. e\<lparr>pe_vaults := map result_js (out @ [r])\<rparr>)) (\<lambda>_.
     pause_vaults E sr entry vs (out @ [r])))"

section \<open>pause-all\<close>

definition targets :: "pause_env \<Rightarrow> pause_target list" where
  "targets E = map (\<lambda>(k, st). \<lparr>pt_key = k, pt_stage = st, pt_retiredLine = False\<rparr>) (pv_vaultStages E)
             @ map (\<lambda>(k, st). \<lparr>pt_key = k, pt_stage = st, pt_retiredLine = True\<rparr>) (pv_retiredStages E)"

definition read_role :: "pause_env \<Rightarrow> stage_role \<Rightarrow> string option \<Rightarrow> pause_target \<Rightarrow> PauseSignerRole option pact" where
  "read_role E sr deployerAddr v =
     (case sr of
        Sure r \<Rightarrow> p_ret (Some r)
      | Unsure \<Rightarrow>
          p_try (p_bind (p_res (pv_address E (pt_stage v))) (\<lambda>address.
                 p_bind (hasEmergencyRole E address (or_empty deployerAddr)) (\<lambda>d. p_ret (Some (role_of d)))))
                (\<lambda>_. p_ret None))"

fun read_roles :: "pause_env \<Rightarrow> stage_role \<Rightarrow> string option \<Rightarrow> pause_target list \<Rightarrow> PauseSignerRole option list pact" where
  "read_roles E sr d [] = p_ret []"
| "read_roles E sr d (v # vs) = p_bind (read_role E sr d v) (\<lambda>r. p_bind (read_roles E sr d vs) (\<lambda>rs. p_ret (r # rs)))"

definition read_blocked :: "pause_env \<Rightarrow> string option \<Rightarrow> string option \<Rightarrow> PauseSignerRole option list \<Rightarrow> bool pact" where
  "read_blocked E d em roles =
     p_bind (if Some RDeployer \<in> set roles then unfundedSigner E (or_empty d) else p_ret False) (\<lambda>b.
     if \<not> b \<and> Some REmergency \<in> set roles then unfundedSigner E (or_empty em) else p_ret b)"

definition vault_covered :: "PauseVaultResult \<Rightarrow> bool" where
  "vault_covered r = (pr_depositsPaused r = Some True \<or> pr_retired r)"

text \<open>The rollout report, or the throw of a directory that cannot be written.\<close>

definition writeRolloutReport :: "pause_env \<Rightarrow> PauseAllReport \<Rightarrow> unit pact" where
  "writeRolloutReport E report w = (if pv_writable E then (Inr (), w\<lparr>pw_report := Some report\<rparr>) else (Inl PlainError, w))"

text \<open>What follows the entry: the funding of the signers, the vaults, the report.\<close>

definition pause_recorded :: "pause_env \<Rightarrow> stage_role \<Rightarrow> string option \<Rightarrow> string option \<Rightarrow> PauseEntry option \<Rightarrow> PauseAllReport pact" where
  "pause_recorded E sr d em entry =
     p_bind (read_roles E sr d (targets E)) (\<lambda>roles.
     p_bind (read_blocked E d em roles) (\<lambda>blocked.
     p_bind (pause_vaults E \<lparr>sr_stageRole = sr, sr_deployerAddr = d, sr_emergencyAddr = em, sr_blocked = blocked\<rparr> entry (zip roles (targets E)) []) (\<lambda>vaults.
     let report = \<lparr>pa_trigger = pv_trigger E, pa_reason = pv_reason E, pa_at = pv_at E, pa_allPaused = list_all vault_covered vaults,
                   pa_manifestRecorded = (entry \<noteq> None), pa_blocked = blocked, pa_vaults = vaults\<rparr> in
     p_bind (update_if E entry (\<lambda>e. e\<lparr>pe_done := True, pe_allPaused := Some (pa_allPaused report), pe_vaults := map result_js vaults\<rparr>)) (\<lambda>_.
     p_bind (writeRolloutReport E report) (\<lambda>_.
     p_ret report)))))"

definition pause_signer_check :: "pause_env \<Rightarrow> stage_role \<Rightarrow> string option option \<Rightarrow> failure + (string option \<times> string option)" where
  "pause_signer_check E sr emergency =
     (if sr \<noteq> Sure RDeployer \<and> emergency = None then Inl (PublishError SIGNER)
      else
        res_bind (if sr = Sure REmergency then Inr None else res_bind (check_signer (pv_deployer E) (pv_admin E)) (\<lambda>a. Inr (Some a))) (\<lambda>d.
        res_bind (if sr = Sure RDeployer then Inr None
                  else (case emergency of None \<Rightarrow> Inr None
                        | Some s \<Rightarrow> res_bind (check_signer s (pv_emergencyAddress E)) (\<lambda>a. Inr (Some a)))) (\<lambda>em.
        Inr (d, em))))"

definition pauseAll :: "pause_env \<Rightarrow> RunManifest \<Rightarrow> string option option \<Rightarrow> PauseAllReport pact" where
  "pauseAll E m emergency =
     (if pv_dryRun E then p_throw (PublishError USAGE)
      else
        let sr = pauseSignerRole m in
        p_bind (p_res (pause_signer_check E sr emergency)) (\<lambda>(d, em).
        p_bind (\<lambda>w. (Inr (), w\<lparr>pw_sentNonce := Map.empty\<rparr>)) (\<lambda>_.
        p_bind (begin_entry E) (\<lambda>entry.
        pause_recorded E sr d em entry))))"

section \<open>What a failed pause-all reports\<close>

text \<open>The kind and the details of the errors; their texts are not modelled.\<close>

record pause_error =
  px_kind :: PublishErrorKind
  px_unpaused :: "string list"
  px_blocked :: bool
  px_recorded :: bool

definition pauseUnrecorded :: "PauseAllReport \<Rightarrow> pause_error" where
  "pauseUnrecorded report = \<lparr>px_kind = PAUSE, px_unpaused = [], px_blocked = False, px_recorded = False\<rparr>"

definition pauseIncomplete :: "PauseAllReport \<Rightarrow> pause_error" where
  "pauseIncomplete report =
     (let bad = map pr_vault (filter (\<lambda>v. pr_depositsPaused v \<noteq> Some True \<and> \<not> pr_retired v) (pa_vaults report)) in
      \<lparr>px_kind = PAUSE, px_unpaused = bad, px_blocked = pa_blocked report, px_recorded = pa_manifestRecorded report\<rparr>)"

text \<open>What the caller throws: the failure that fired the pause-all or one of its own, or an error of the pause-all.\<close>

datatype pause_outcome = Cause failure | PauseFailed pause_error | Failed failure

definition load_manifest :: "RunManifest pact" where
  "load_manifest w = (case loadRunManifest (ms_file (pw_ms w)) of
       Inl e \<Rightarrow> (Inl e, w) | Inr None \<Rightarrow> (Inl (PublishError RESUME), w) | Inr (Some m) \<Rightarrow> (Inr m, w))"

definition run_pause :: "pause_env \<Rightarrow> PauseAllReport pact" where
  "run_pause E = p_bind load_manifest (\<lambda>m. p_bind (p_res (pv_emergency E)) (\<lambda>em. pauseAll E m em))"

text \<open>The verb \<open>pause-all\<close>: \<^const>\<open>None\<close> is exit 0.\<close>

definition pause_verb :: "pause_env \<Rightarrow> pworld \<Rightarrow> pause_outcome option \<times> pworld" where
  "pause_verb E w = (case run_pause E w of
       (Inl e, w') \<Rightarrow> (Some (Failed e), w')
     | (Inr report, w') \<Rightarrow>
         (if \<not> pa_allPaused report then Some (PauseFailed (pauseIncomplete report))
          else if \<not> pa_manifestRecorded report then Some (PauseFailed (pauseUnrecorded report))
          else None, w'))"

text \<open>A failed verify or postflight: the error the run fails with.\<close>

definition pauseOnFailure :: "pause_env \<Rightarrow> failure \<Rightarrow> pworld \<Rightarrow> pause_outcome \<times> pworld" where
  "pauseOnFailure E cause w = (case run_pause E w of
       (Inl e, w') \<Rightarrow> (if e = PublishError PAUSE then Failed e else Failed (PublishError PAUSE), w')
     | (Inr report, w') \<Rightarrow>
         (if pa_allPaused report \<and> \<not> pa_manifestRecorded report then PauseFailed (pauseUnrecorded report)
          else if pa_allPaused report then Cause cause
          else PauseFailed (pauseIncomplete report), w'))"

end
