(* ===== verification/PauseSafety.thy ===== *)
theory PauseSafety
  imports PauseAll
begin

text \<open>
  What a pause-all keeps: its entry is on disk before the first send, nonces grow, and a covered vault was read back.
\<close>

section \<open>Invariants of a run\<close>

definition p_keeps :: "(pworld \<Rightarrow> bool) \<Rightarrow> 'a pact \<Rightarrow> bool" where
  "p_keeps I m \<longleftrightarrow> (\<forall>w. I w \<longrightarrow> I (Product_Type.snd (m w)))"

named_theorems p_intros \<open>steps of a pause-all that keep an invariant\<close>

lemma p_keepsD: "p_keeps I m \<Longrightarrow> I w \<Longrightarrow> m w = (r, w') \<Longrightarrow> I w'"
  by (force simp: p_keeps_def)

lemma p_keeps_basic [p_intros]: "p_keeps I (p_ret a)" "p_keeps I (p_throw e)" "p_keeps I (p_res r)"
  by (simp_all add: p_keeps_def p_ret_def p_throw_def p_res_def)

lemma p_keeps_bind [p_intros]: "p_keeps I m \<Longrightarrow> (\<And>a. p_keeps I (f a)) \<Longrightarrow> p_keeps I (p_bind m f)"
  by (fastforce simp: p_keeps_def p_bind_def split: prod.splits sum.splits)

lemma p_keeps_try [p_intros]: "p_keeps I m \<Longrightarrow> (\<And>e. p_keeps I (h e)) \<Longrightarrow> p_keeps I (p_try m h)"
  by (fastforce simp: p_keeps_def p_try_def split: prod.splits sum.splits)

lemma p_keeps_if [p_intros]: "(c \<Longrightarrow> p_keeps I m) \<Longrightarrow> (\<not> c \<Longrightarrow> p_keeps I n) \<Longrightarrow> p_keeps I (if c then m else n)"
  by simp

lemma p_keeps_case [p_intros]:
  "p_keeps I m \<Longrightarrow> (\<And>x. p_keeps I (n x)) \<Longrightarrow> p_keeps I (case v of None \<Rightarrow> m | Some x \<Rightarrow> n x)"
  "(\<And>x y. p_keeps I (k x y)) \<Longrightarrow> p_keeps I (case q of (x, y) \<Rightarrow> k x y)"
  "(\<And>r. p_keeps I (g r)) \<Longrightarrow> p_keeps I u \<Longrightarrow> p_keeps I (case sr of Sure r \<Rightarrow> g r | Unsure \<Rightarrow> u)"
  by (simp_all split: option.splits prod.splits stage_role.splits)

text \<open>
  The contract of an invariant with the steps of a pause-all that neither send nor touch the result in hand: a \<open>cast\<close>
  that only reads, the writes of other processes, an update of the entry, and the report.
\<close>

locale pause_frame =
  fixes E :: pause_env and I :: "pworld \<Rightarrow> bool"
  assumes I_tick: "I w \<Longrightarrow> pw_tick w \<le> n \<Longrightarrow> I (w\<lparr>pw_tick := n\<rparr>)"
    and I_other: "I w \<Longrightarrow> I (w\<lparr>pw_ms := pv_others E k (pw_ms w)\<rparr>)"
    and I_report: "I w \<Longrightarrow> I (w\<lparr>pw_report := p\<rparr>)"
    and I_update: "I w \<Longrightarrow> updatePauseEntry (ms_file (pw_ms w)) e = Inr f \<Longrightarrow> I (w\<lparr>pw_ms := (pw_ms w)\<lparr>ms_file := f\<rparr>\<rparr>)"
begin

lemma p_keeps_cast [p_intros]: "p_keeps I (p_cast E as)"
  by (simp add: p_keeps_def p_cast_def I_tick)

lemma p_keeps_castOut [p_intros]: "p_keeps I (castOut E as)"
  unfolding castOut_def by (intro p_intros)

lemma p_keeps_update [p_intros]: "p_keeps I (update_entry E e)"
proof -
  have o': "I (w\<lparr>pw_ms := pv_others E k (pw_ms w), pw_tick := Suc (pw_tick w)\<rparr>)" if "I w" for w k
    using I_tick [OF I_other [OF that, of k], of "Suc (pw_tick w)"] by simp
  have u: "I (w\<lparr>pw_ms := (pv_others E k (pw_ms w))\<lparr>ms_file := f\<rparr>, pw_tick := Suc (pw_tick w)\<rparr>)"
    if "I w" "updatePauseEntry (ms_file (pv_others E k (pw_ms w))) e = Inr f" for w k f
    using I_tick [OF I_update [OF I_other [OF that(1), of k], of e f], of "Suc (pw_tick w)"] that(2) by simp
  show ?thesis
    by (auto simp: p_keeps_def update_entry_def p_locked_def Let_def o' u split: prod.splits sum.splits)
qed

lemma p_keeps_update_if [p_intros]: "p_keeps I (update_if E entry f)"
  unfolding update_if_def by (intro p_intros)

lemma p_keeps_wait [p_intros]: "p_keeps I (wait_block E b seen left)" "p_keeps I (waitForReceiptBlock E b)"
proof -
  show "p_keeps I (wait_block E b seen left)" for b seen left
    by (induction left arbitrary: seen) (auto intro!: p_intros)
  then show "p_keeps I (waitForReceiptBlock E b)" by (simp add: waitForReceiptBlock_def)
qed

lemma p_keeps_reads [p_intros]:
  "p_keeps I (hasEmergencyRole E a who)" "p_keeps I (unfundedSigner E who)" "p_keeps I (reads_retired E a)"
  "p_keeps I (nextNonce E who s)" "p_keeps I (\<lambda>w. nextNonce E who (sf w) w)" "p_keeps I (read_role E sr d v)"
  "p_keeps I (read_blocked E d' em roles)"
proof -
  show n: "p_keeps I (nextNonce E who s)" for s unfolding nextNonce_def Let_def by (intro p_intros)
  then show "p_keeps I (\<lambda>w. nextNonce E who (sf w) w)" by (simp add: p_keeps_def)
  show r: "p_keeps I (hasEmergencyRole E a who)" for a who unfolding hasEmergencyRole_def by (intro p_intros)
  show u: "p_keeps I (unfundedSigner E who)" for who unfolding unfundedSigner_def by (intro p_intros)
  show "p_keeps I (reads_retired E a)" unfolding reads_retired_def by (intro p_intros)
  show "p_keeps I (read_role E sr d v)" unfolding read_role_def by (intro p_intros r)
  show "p_keeps I (read_blocked E d' em roles)" unfolding read_blocked_def by (intro p_intros u)
qed

lemma p_keeps_roles [p_intros]: "p_keeps I (read_roles E sr d vs)"
  by (induction vs) (auto intro!: p_intros)

lemma p_keeps_report [p_intros]: "p_keeps I (writeRolloutReport E report)"
  by (simp add: p_keeps_def writeRolloutReport_def I_report)

end

text \<open>An invariant that does not look at the result in hand either.\<close>

locale pause_invariant = pause_frame +
  assumes I_res: "I w \<Longrightarrow> I (w\<lparr>pw_res := r\<rparr>)"
begin

lemma p_keeps_res [p_intros]: "p_keeps I (upd_res f)"
  by (simp add: p_keeps_def upd_res_def I_res)

lemma p_keeps_read_back [p_intros]: "p_keeps I (read_back E b)"
proof -
  have "p_keeps I (read_paused E b address)" for address unfolding read_paused_def by (intro p_intros)
  then show ?thesis by (simp add: p_keeps_def read_back_def Let_def)
qed

text \<open>An invariant that a send and its nonce keep is kept by all that follows the entry.\<close>

lemma p_keeps_recorded:
  assumes "\<And>address who role. p_keeps I (send_pause E address who role)"
  shows "p_keeps I (pause_recorded E sr d em entry)"
proof -
  have t: "p_keeps I (try_vault E s role0 v)" for s role0 v
    unfolding try_vault_def Let_def by (intro p_intros assms)
  have "p_keeps I (\<lambda>w. (Inr (pw_res w), w))" by (simp add: p_keeps_def)
  then have v: "p_keeps I (pause_vault E s role0 v)" for s role0 v
    unfolding pause_vault_def by (intro p_intros t)
  have "p_keeps I (pause_vaults E s entry vs out)" for s vs out
  proof (induction vs arbitrary: out)
    case (Cons x xs)
    obtain role0 v' where "x = (role0, v')" by fastforce
    with Cons v show ?case by (auto intro!: p_intros)
  qed (auto intro: p_intros)
  then show ?thesis unfolding pause_recorded_def Let_def by (intro p_intros)
qed

end

section \<open>Binds\<close>

lemma p_bind_Inr: "p_bind m f w = (Inr b, w') \<longleftrightarrow> (\<exists>a w1. m w = (Inr a, w1) \<and> f a w1 = (Inr b, w'))"
  by (auto simp: p_bind_def split: prod.splits sum.splits)

lemma p_res_Inr: "p_res r w = (Inr a, w') \<longleftrightarrow> r = Inr a \<and> w' = w"
  by (auto simp: p_res_def)

lemma p_bind_res: "p_bind (p_res (Inr a)) f = f a"
  by (rule ext) (simp add: p_bind_def p_res_def)

lemma p_ret_eq: "p_ret a w = (Inr b, w') \<longleftrightarrow> b = a \<and> w' = w"
  by (auto simp: p_ret_def)

lemma pauseAll_Inr:
  "pauseAll E m emergency w = (Inr report, w') \<longleftrightarrow>
     \<not> pv_dryRun E \<and>
     (\<exists>d em entry w1. pause_signer_check E (pauseSignerRole m) emergency = Inr (d, em) \<and>
        begin_entry E (w\<lparr>pw_sentNonce := Map.empty\<rparr>) = (Inr entry, w1) \<and>
        pause_recorded E (pauseSignerRole m) d em entry w1 = (Inr report, w'))"
  by (auto simp: pauseAll_def Let_def p_bind_Inr p_res_Inr p_throw_def split: prod.splits)

section \<open>The entry comes first\<close>

text \<open>What the pause-all relies on of the other processes: they do to the manifest what govern and another pause-all do.\<close>

definition manifest_others :: "pause_env \<Rightarrow> bool" where
  "manifest_others E \<longleftrightarrow> (\<forall>k s. manifest_reach s (pv_others E k s))"

text \<open>The manifests after a state have its handouts first.\<close>

definition manifest_after :: "manifest_state \<Rightarrow> handout list \<Rightarrow> manifest_state \<Rightarrow> bool" where
  "manifest_after s0 l s \<longleftrightarrow> manifest_reach s0 s \<and> (\<exists>ys. ms_log s = l @ ys)"

lemma manifest_step_handouts: "manifest_step s s' \<Longrightarrow> \<exists>ys. ms_log s' = ms_log s @ ys"
  by (auto elim!: manifest_stepE)

lemma manifest_after_step: "manifest_after s0 l s \<Longrightarrow> manifest_step s s' \<Longrightarrow> manifest_after s0 l s'"
  using manifest_step_handouts [of s s'] by (auto simp: manifest_after_def intro: manifest_reach.step)

lemma manifest_after_reach: "manifest_reach s s' \<Longrightarrow> manifest_after s0 l s \<Longrightarrow> manifest_after s0 l s'"
  by (induction rule: manifest_reach.induct) (auto intro: manifest_after_step)

definition recorded_inv :: "manifest_state \<Rightarrow> handout list \<Rightarrow> pworld \<Rightarrow> bool" where
  "recorded_inv s0 l w \<longleftrightarrow> manifest_after s0 l (pw_ms w) \<and> (\<forall>s\<in>set (pw_sends w). manifest_after s0 l (sp_manifest s))"

lemma recorded_pause_invariant:
  assumes "manifest_others E"
  shows "pause_invariant E (recorded_inv s0 l)"
proof
  fix w k assume w: "recorded_inv s0 l w"
  have r: "manifest_reach (pw_ms w) (pv_others E k (pw_ms w))" using assms by (simp add: manifest_others_def)
  show "recorded_inv s0 l (w\<lparr>pw_ms := pv_others E k (pw_ms w)\<rparr>)"
    using w manifest_after_reach [OF r] by (simp add: recorded_inv_def)
next
  fix w e f assume w: "recorded_inv s0 l w" and u: "updatePauseEntry (ms_file (pw_ms w)) e = Inr f"
  then show "recorded_inv s0 l (w\<lparr>pw_ms := (pw_ms w)\<lparr>ms_file := f\<rparr>\<rparr>)"
    using manifest_after_step [OF _ manifest_step.pause_update [OF u]] by (simp add: recorded_inv_def)
qed (simp_all add: recorded_inv_def)

lemma p_keeps_send_steps:
  "p_keeps (recorded_inv s0 l) (cast_send E address who n sargs)" "p_keeps (recorded_inv s0 l) (note_nonce who n)"
  by (simp_all add: p_keeps_def recorded_inv_def cast_send_def note_nonce_def Let_def split: option.splits)

lemma p_keeps_js_case:
  "(\<And>h. p_keeps I (f h)) \<Longrightarrow> p_keeps I g \<Longrightarrow> p_keeps I (case v of JStr h \<Rightarrow> f h | _ \<Rightarrow> g)"
  by (simp split: js.splits)

lemma recorded_kept:
  assumes "manifest_others E"
  shows "p_keeps (recorded_inv s0 l) (pause_recorded E sr d em entry)"
proof -
  have i: "pause_invariant E (recorded_inv s0 l)" by (rule recorded_pause_invariant) (fact assms)
  then have f: "pause_frame E (recorded_inv s0 l)" by (simp add: pause_invariant_def)
  have "p_keeps (recorded_inv s0 l) (send_pause E address who role)" for address who role
    unfolding send_pause_def Let_def
    by (intro p_intros p_keeps_js_case p_keeps_send_steps pause_frame.p_keeps_reads [OF f] pause_frame.p_keeps_wait [OF f]
        pause_invariant.p_keeps_res [OF i])
  then show ?thesis by (rule pause_invariant.p_keeps_recorded [OF i])
qed

text \<open>An entry that was recorded was handed out after all that came before it.\<close>

lemma begin_entry_recorded:
  assumes "begin_entry E w = (Inr (Some e), w1)" "manifest_others E" "manifest_reach s0 (pw_ms w)" "pw_sends w = []"
  shows "\<exists>ys. recorded_inv s0 (ms_log (pw_ms w) @ ys @ [Began (pe_seq e)]) w1"
proof -
  let ?s = "pv_others E (pw_tick w) (pw_ms w)"
  have "manifest_reach (pw_ms w) ?s" using assms(2) by (simp add: manifest_others_def)
  then have "manifest_after s0 (ms_log (pw_ms w)) ?s"
    by (rule manifest_after_reach) (simp add: manifest_after_def assms(3))
  then obtain ys where s: "manifest_reach s0 ?s" "ms_log ?s = ms_log (pw_ms w) @ ys" by (auto simp: manifest_after_def)
  from assms(1) obtain f where b: "beginPauseEntry (ms_file ?s) (pv_at E) (pv_trigger E) (pv_reason E) = Inr (Some e, f)"
    and w1: "w1 = w\<lparr>pw_ms := ?s\<lparr>ms_file := f, ms_log := ms_log ?s @ [Began (pe_seq e)]\<rparr>, pw_tick := Suc (pw_tick w)\<rparr>"
    by (auto simp: begin_entry_def p_locked_def Let_def split: if_splits sum.splits prod.splits option.splits)
  have "manifest_reach s0 (pw_ms w1)"
    using manifest_reach.step [OF s(1) manifest_step.pause_begin [OF b]] by (simp add: w1)
  then have "recorded_inv s0 (ms_log (pw_ms w) @ ys @ [Began (pe_seq e)]) w1"
    by (simp add: recorded_inv_def manifest_after_def w1 assms(4) s(2))
  then show ?thesis ..
qed

definition unpause_refused :: "manifest_state \<Rightarrow> int \<Rightarrow> bool" where
  "unpause_refused s n \<longleftrightarrow> newest_pause_after (livePauses (ms_file s) (ms_mem s)) n \<noteq> None"

lemma manifest_after_refused:
  assumes "manifest_after (manifest_start m) (l @ ys @ [Began t]) s" "Reserved n \<in> set l"
  shows "unpause_refused s n"
proof -
  obtain a b where l: "l = a @ Reserved n # b" using assms(2) by (meson split_list)
  from assms(1) obtain zs where s: "manifest_reach (manifest_start m) s" "ms_log s = a @ Reserved n # (b @ ys @ Began t # zs)"
    by (auto simp: manifest_after_def l)
  show ?thesis using newest_after_reserved [OF s] by (auto simp: unpause_refused_def split: option.splits)
qed

text \<open>
  C9. The record of a pause-all comes before its first transaction. Govern schedules an unpause with a number it
  reserved in the manifest, then a pause-all runs while govern and other pause-alls keep reading and writing the same file.
  When the pause-all reports that its entry was recorded, govern's check refuses that unpause at the moment of each of
  its sends and at its end: a crash between two sends cannot leave a paused vault that a stale unpause reopens.
\<close>

theorem pause_recorded_before_sends:
  assumes "manifest_others E" "manifest_reach (manifest_start m0) (pw_ms w)" "Reserved n \<in> set (ms_log (pw_ms w))" "pw_sends w = []"
    and "pauseAll E m emergency w = (Inr report, w')" "pa_manifestRecorded report"
  shows "list_all (\<lambda>s. unpause_refused (sp_manifest s) n) (pw_sends w') \<and> unpause_refused (pw_ms w') n"
proof -
  let ?w = "w\<lparr>pw_sentNonce := Map.empty\<rparr>"
  from assms(5) obtain d em entry w1 where b: "begin_entry E ?w = (Inr entry, w1)"
    and r: "pause_recorded E (pauseSignerRole m) d em entry w1 = (Inr report, w')" by (auto simp: pauseAll_Inr)
  from r have "pa_manifestRecorded report \<longleftrightarrow> entry \<noteq> None" by (auto simp: pause_recorded_def Let_def p_bind_Inr p_ret_eq)
  with assms(6) b obtain e where e: "begin_entry E ?w = (Inr (Some e), w1)" by auto
  have "manifest_reach (manifest_start m0) (pw_ms ?w)" "pw_sends ?w = []" using assms by simp_all
  from begin_entry_recorded [OF e assms(1) this]
  obtain ys where "recorded_inv (manifest_start m0) (ms_log (pw_ms w) @ ys @ [Began (pe_seq e)]) w1" by auto
  with r have "recorded_inv (manifest_start m0) (ms_log (pw_ms w) @ ys @ [Began (pe_seq e)]) w'"
    by (metis p_keepsD recorded_kept assms(1))
  then show ?thesis
    using manifest_after_refused [OF _ assms(3)] by (auto simp: recorded_inv_def list_all_iff)
qed

section \<open>Nonces\<close>

text \<open>The nonces of the sends of one key that the RPC took, in order.\<close>

definition sent_nonces :: "string \<Rightarrow> pause_send list \<Rightarrow> int list" where
  "sent_nonces a ss = concat (map (\<lambda>s. case sp_nonce s of Some n \<Rightarrow> if sp_ok s \<and> lc (sp_from s) = a then [n] else [] | None \<Rightarrow> []) ss)"

lemma sent_nonces_append [simp]: "sent_nonces a (xs @ ys) = sent_nonces a xs @ sent_nonces a ys"
  by (simp add: sent_nonces_def)

lemma sent_nonces_one:
  "sent_nonces a [s] = (case sp_nonce s of Some n \<Rightarrow> if sp_ok s \<and> lc (sp_from s) = a then [n] else [] | None \<Rightarrow> [])"
  by (simp add: sent_nonces_def)

definition nonce_inv :: "pworld \<Rightarrow> bool" where
  "nonce_inv w \<longleftrightarrow> (\<forall>a. sorted_wrt (<) (sent_nonces a (pw_sends w)) \<and>
     (\<forall>n\<in>set (sent_nonces a (pw_sends w)). \<exists>k. pw_sentNonce w a = Some k \<and> n \<le> k))"

interpretation nonces: pause_invariant E nonce_inv for E
  by unfold_locales (simp_all add: nonce_inv_def)

lemma nextNonce_result:
  assumes "nextNonce E who sent w = (r, w')"
  shows "\<exists>n. r = Inr n \<and> w' = w\<lparr>pw_tick := Suc (pw_tick w)\<rparr> \<and> (\<forall>s. sent = Some s \<longrightarrow> (\<exists>j. n = Some j \<and> s < j))"
  using assms
  by (auto simp: nextNonce_def Let_def castOut_def p_cast_def p_bind_def p_try_def p_ret_def p_throw_def less_max_iff_disj split: prod.splits option.splits if_splits)

text \<open>The nonces used, after a send.\<close>

definition used_after :: "pause_send \<Rightarrow> (string \<rightharpoonup> int) \<Rightarrow> (string \<rightharpoonup> int)" where
  "used_after x u = (if sp_ok x then (case sp_nonce x of None \<Rightarrow> u | Some k \<Rightarrow> u(lc (sp_from x) \<mapsto> k)) else u)"

lemma nonce_inv_send:
  assumes "nonce_inv w" "\<forall>s. pw_sentNonce w (lc (sp_from x)) = Some s \<longrightarrow> (\<exists>j. sp_nonce x = Some j \<and> s < j)"
    and "pw_sends w' = pw_sends w @ [x]" "pw_sentNonce w' = used_after x (pw_sentNonce w)"
  shows "nonce_inv w'"
  unfolding nonce_inv_def
proof (intro allI)
  fix a
  let ?old = "sent_nonces a (pw_sends w)"
  have o': "sorted_wrt (<) ?old" "\<forall>n\<in>set ?old. \<exists>k. pw_sentNonce w a = Some k \<and> n \<le> k" using assms(1) by (auto simp: nonce_inv_def)
  have n: "\<forall>n\<in>set ?old. n < j" if "lc (sp_from x) = a" "sp_nonce x = Some j" for j
    using assms(2) o'(2) that by fastforce
  show "sorted_wrt (<) (sent_nonces a (pw_sends w')) \<and> (\<forall>n\<in>set (sent_nonces a (pw_sends w')). \<exists>k. pw_sentNonce w' a = Some k \<and> n \<le> k)"
    using o' n by (auto simp: assms(3,4) used_after_def sent_nonces_one sorted_wrt_append less_imp_le split: option.splits)
qed

lemma nonce_inv_send_pause: "p_keeps nonce_inv (send_pause E address who role)"
  unfolding p_keeps_def
proof (intro allI impI)
  fix w assume w: "nonce_inv w"
  let ?tail = "\<lambda>receipt. p_bind (case jget receipt ''transactionHash'' of JStr h \<Rightarrow> upd_res (\<lambda>r. r\<lparr>pr_txHash := Some h\<rparr>) | _ \<Rightarrow> p_ret ()) (\<lambda>_.
       p_bind (case receiptBlock receipt of None \<Rightarrow> p_ret () | Some b \<Rightarrow> waitForReceiptBlock E b) (\<lambda>_.
       if jget receipt ''status'' \<noteq> JUndef \<and> \<not> sentOk receipt then p_throw (PublishError BROADCAST) else p_ret ()))"
  have t: "p_keeps nonce_inv (?tail receipt)" for receipt by (intro p_intros p_keeps_js_case)
  obtain r0 w0 where "nextNonce E who (pw_sentNonce w (lc who)) w = (r0, w0)" by fastforce
  with nextNonce_result [OF this] obtain n where n: "nextNonce E who (pw_sentNonce w (lc who)) w = (Inr n, w\<lparr>pw_tick := Suc (pw_tick w)\<rparr>)"
    "\<forall>s. pw_sentNonce w (lc who) = Some s \<longrightarrow> (\<exists>j. n = Some j \<and> s < j)"
    by auto
  show "nonce_inv (Product_Type.snd (send_pause E address who role w))"
  proof (cases "castSignerArgs E role")
    case (Inl e)
    with w n(1) show ?thesis by (simp add: send_pause_def p_bind_def p_res_def nonce_inv_def)
  next
    case (Inr sargs)
    let ?w1 = "w\<lparr>pw_tick := Suc (pw_tick w)\<rparr>"
    obtain ok out w2 where c: "cast_send E address who n sargs ?w1 = (Inr (ok, out), w2)" by (force simp: cast_send_def Let_def)
    let ?x = "\<lparr>sp_to = address, sp_from = who, sp_nonce = n, sp_ok = ok, sp_manifest = pw_ms w\<rparr>"
    have w2: "pw_sends w2 = pw_sends w @ [?x]" "pw_sentNonce w2 = pw_sentNonce w" using c by (auto simp: cast_send_def Let_def)
    show ?thesis
    proof (cases ok)
      case True
      have "nonce_inv (Product_Type.snd (note_nonce who n w2))"
        by (rule nonce_inv_send [OF w, of ?x]) (use n(2) w2 True in \<open>auto simp: note_nonce_def used_after_def split: option.splits\<close>)
      moreover have "send_pause E address who role w = ?tail (pause_receipt E out) (Product_Type.snd (note_nonce who n w2))"
        by (simp add: send_pause_def p_bind_def p_res_def n(1) Inr c True Let_def note_nonce_def)
      ultimately show ?thesis using t by (simp add: p_keeps_def)
    next
      case False
      have "nonce_inv w2" by (rule nonce_inv_send [OF w, of ?x]) (use n(2) w2 False in \<open>auto simp: used_after_def\<close>)
      with False c show ?thesis by (simp add: send_pause_def p_bind_def p_res_def n(1) Inr p_throw_def)
    qed
  qed
qed

lemma nonce_inv_begin: "p_keeps nonce_inv (begin_entry E)"
  by (auto simp: p_keeps_def begin_entry_def p_locked_def Let_def nonce_inv_def split: prod.splits)


section \<open>What the report says was read\<close>

text \<open>A call of a view of the vault was answered \<open>out\<close> between two moments.\<close>

definition answered :: "pause_env \<Rightarrow> nat \<Rightarrow> nat \<Rightarrow> string \<Rightarrow> string \<Rightarrow> string \<Rightarrow> bool" where
  "answered E t0 t1 view address out \<longleftrightarrow>
     (\<exists>t reply. t0 \<le> t \<and> t < t1 \<and> pv_cast E t [''call'', address, view] = (True, reply) \<and> trim (trim reply) = out)"

lemma answered_mono:
  assumes "answered E t0 t1 view a out" "t0' \<le> t0" "t1 \<le> t1'"
  shows "answered E t0' t1' view a out"
proof -
  from assms(1) obtain t reply where "t0 \<le> t" "t < t1" "pv_cast E t [''call'', a, view] = (True, reply)" "trim (trim reply) = out"
    by (auto simp: answered_def)
  with assms(2,3) show ?thesis unfolding answered_def by (intro exI [of _ t] exI [of _ reply]) simp
qed

definition shown_retired :: "pause_env \<Rightarrow> nat \<Rightarrow> nat \<Rightarrow> pause_target \<Rightarrow> bool" where
  "shown_retired E t0 t1 v \<longleftrightarrow>
     pt_retiredLine v \<and> (\<exists>a. pv_address E (pt_stage v) = Inr a \<and> answered E t0 t1 ''retired()(bool)'' a ''true'')"

definition shown_paused :: "pause_env \<Rightarrow> nat \<Rightarrow> nat \<Rightarrow> pause_target \<Rightarrow> bool \<Rightarrow> bool" where
  "shown_paused E t0 t1 v b \<longleftrightarrow>
     (\<exists>a. pv_address E (pt_stage v) = Inr a \<and> answered E t0 t1 ''depositsPaused()(bool)'' a (if b then ''true'' else ''false''))"

lemma shown_mono:
  "shown_retired E t0 t1 v \<Longrightarrow> t0' \<le> t0 \<Longrightarrow> t1 \<le> t1' \<Longrightarrow> shown_retired E t0' t1' v"
  "shown_paused E t0 t1 v b \<Longrightarrow> t0' \<le> t0 \<Longrightarrow> t1 \<le> t1' \<Longrightarrow> shown_paused E t0' t1' v b"
  unfolding shown_retired_def shown_paused_def using answered_mono by blast+

text \<open>The result in hand before the read-back.\<close>

definition res_inv :: "pause_env \<Rightarrow> nat \<Rightarrow> pause_target \<Rightarrow> pworld \<Rightarrow> bool" where
  "res_inv E t0 v w \<longleftrightarrow>
     t0 \<le> pw_tick w \<and> pr_key (pw_res w) = pt_key v \<and> pr_depositsPaused (pw_res w) = None \<and>
     (pr_address (pw_res w) = [] \<or> pv_address E (pt_stage v) = Inr (pr_address (pw_res w))) \<and>
     (pr_retired (pw_res w) \<longrightarrow> shown_retired E t0 (pw_tick w) v)"

interpretation results: pause_frame E "res_inv E t0 v" for E t0 v
  by unfold_locales (auto simp: res_inv_def elim!: shown_mono)

interpretation ticks: pause_invariant E "\<lambda>w. t0 \<le> pw_tick w" for E t0
  by unfold_locales simp_all

lemma p_keeps_res_upd:
  "(\<And>r. pr_key (f r) = pr_key r \<and> pr_depositsPaused (f r) = pr_depositsPaused r \<and> pr_address (f r) = pr_address r \<and> pr_retired (f r) = pr_retired r)
   \<Longrightarrow> p_keeps (res_inv E t0 v) (upd_res f)"
  by (simp add: p_keeps_def upd_res_def res_inv_def)

lemma res_inv_send: "p_keeps (res_inv E t0 v) (send_pause E a who role)"
proof -
  have "p_keeps (res_inv E t0 v) (cast_send E a who n sargs)" "p_keeps (res_inv E t0 v) (note_nonce who n)" for n sargs
    by (auto simp: p_keeps_def res_inv_def cast_send_def note_nonce_def Let_def elim!: shown_mono split: option.splits)
  then show ?thesis
    unfolding send_pause_def Let_def by (intro p_intros p_keeps_js_case p_keeps_res_upd) simp_all
qed

lemma reads_retired_true:
  assumes "reads_retired E a w = (Inr True, w')" shows "answered E (pw_tick w) (pw_tick w') ''retired()(bool)'' a ''true''"
  using assms unfolding answered_def
  by (auto simp: reads_retired_def castOut_def p_cast_def p_bind_def p_try_def p_ret_def p_throw_def split: prod.splits if_splits sum.splits)

lemma p_keeps_bind_post:
  assumes "p_keeps I m" "\<And>w a w'. I w \<Longrightarrow> m w = (Inr a, w') \<Longrightarrow> K a w'" "\<And>a w. I w \<Longrightarrow> K a w \<Longrightarrow> I (Product_Type.snd (f a w))"
  shows "p_keeps I (p_bind m f)"
  using assms by (fastforce simp: p_keeps_def p_bind_def split: prod.splits sum.splits)

lemma res_inv_try: "p_keeps (res_inv E t0 v) (try_vault E sr role0 v)"
proof (cases "pv_address E (pt_stage v)")
  case (Inl e)
  then show ?thesis by (simp add: p_keeps_def try_vault_def p_bind_def p_res_def)
next
  case (Inr a)
  let ?I = "res_inv E t0 v" and ?K = "\<lambda>gone w. gone \<longrightarrow> shown_retired E t0 (pw_tick w) v"
  let ?ask = "if pt_retiredLine v then reads_retired E a else p_ret False"
  have addr: "p_keeps ?I (upd_res (\<lambda>r. r\<lparr>pr_address := a\<rparr>))" using Inr by (simp add: p_keeps_def upd_res_def res_inv_def)
  have ask: "p_keeps ?I ?ask" by (intro p_intros)
  have asked: "?K gone w'" if "?I w" "?ask w = (Inr gone, w')" for w gone w'
    using that Inr reads_retired_true [of E a w w']
    by (auto simp: shown_retired_def res_inv_def p_ret_def elim: answered_mono split: if_splits)
  have frame: "p_keeps ?I (p_bind (upd_res (\<lambda>r. r\<lparr>pr_address := a\<rparr>)) (\<lambda>_. p_bind ?ask
     (\<lambda>gone. if gone then p_bind (upd_res (\<lambda>r. r\<lparr>pr_retired := True\<rparr>)) (\<lambda>_. p_ret True) else go)))" if go: "p_keeps ?I go" for go
  proof (rule p_keeps_bind [OF addr], rule p_keeps_bind_post [OF ask, of ?K])
    show "?K gone w'" if "?I w" "?ask w = (Inr gone, w')" for w gone w' using asked that by blast
    show "?I (Product_Type.snd ((if gone then p_bind (upd_res (\<lambda>r. r\<lparr>pr_retired := True\<rparr>)) (\<lambda>_. p_ret True) else go) w))"
      if "?I w" "?K gone w" for gone w
      using that go by (auto simp: p_bind_def upd_res_def p_ret_def res_inv_def p_keeps_def)
  qed
  have "p_keeps ?I (upd_res (\<lambda>r. r\<lparr>pr_signerRole := role, pr_signer := who\<rparr>))" for role who
    by (rule p_keeps_res_upd) simp
  then show ?thesis
    unfolding try_vault_def Inr Let_def p_bind_res by (intro frame) (intro p_intros res_inv_send)
qed

definition vault_told :: "pause_env \<Rightarrow> nat \<Rightarrow> nat \<Rightarrow> pause_target \<Rightarrow> PauseVaultResult \<Rightarrow> bool" where
  "vault_told E t0 t1 v r \<longleftrightarrow>
     pr_key r = pt_key v \<and> (\<forall>b. pr_depositsPaused r = Some b \<longrightarrow> shown_paused E t0 t1 v b) \<and> (pr_retired r \<longrightarrow> shown_retired E t0 t1 v)"

lemma vault_told_mono: "vault_told E t0 t1 v r \<Longrightarrow> t0' \<le> t0 \<Longrightarrow> t1 \<le> t1' \<Longrightarrow> vault_told E t0' t1' v r"
  by (auto simp: vault_told_def intro: shown_mono)

lemma read_back_told:
  assumes "res_inv E t0 v w" "read_back E b w = (x, w')" shows "vault_told E t0 (pw_tick w') v (pw_res w')"
proof (cases "pr_address (pw_res w) = []")
  case True
  with assms show ?thesis by (auto simp: read_back_def vault_told_def res_inv_def)
next
  case False
  let ?a = "pr_address (pw_res w)" and ?n = "Suc (pw_tick w)"
  obtain ok out where c: "pv_cast E (pw_tick w) [''call'', ?a, ''depositsPaused()(bool)''] = (ok, out)" by fastforce
  have t: "t0 \<le> pw_tick w" and a: "pv_address E (pt_stage v) = Inr ?a" using assms(1) False by (simp_all add: res_inv_def)
  have p: "shown_paused E t0 ?n v y" if "ok" "trim (trim out) = (if y then ''true'' else ''false'')" for y
    unfolding shown_paused_def answered_def using that c t a by (intro exI [of _ ?a] conjI exI [of _ "pw_tick w"] exI [of _ out]) simp_all
  have "pr_retired (pw_res w) \<Longrightarrow> shown_retired E t0 ?n v" using assms(1) by (auto simp: res_inv_def elim: shown_mono)
  then show ?thesis
    using assms False p c
    by (auto simp: read_back_def read_paused_def castOut_def p_cast_def p_bind_def p_try_def p_ret_def p_throw_def upd_res_def
        Let_def vault_told_def res_inv_def split: if_splits)
qed

lemma pause_vault_told:
  assumes "pause_vault E sr role0 v w = (Inr r, w')"
  shows "vault_told E (pw_tick w) (pw_tick w') v r \<and> pw_tick w \<le> pw_tick w'"
proof -
  let ?t0 = "pw_tick w"
  let ?res = "\<lambda>name. \<lparr>pr_vault = name, pr_key = pt_key v, pr_address = [], pr_retired = False, pr_signerRole = first_role (sr_stageRole sr),
    pr_signer = [], pr_txHash = None, pr_depositsPaused = None, pr_error = None\<rparr>"
  from assms obtain name gone w2 where
    t: "p_try (try_vault E sr role0 v) (\<lambda>e. p_bind (upd_res (\<lambda>r. r\<lparr>pr_error := Some e\<rparr>)) (\<lambda>_. p_ret False)) (w\<lparr>pw_res := ?res name\<rparr>) = (Inr gone, w2)"
    and b: "(if gone then p_ret () else read_back E (sr_blocked sr)) w2 = (Inr (), w')" and r: "r = pw_res w'"
    by (auto simp: pause_vault_def p_bind_Inr p_res_Inr upd_res_def)
  have w1: "res_inv E ?t0 v (w\<lparr>pw_res := ?res name\<rparr>)" by (simp add: res_inv_def)
  have "p_keeps (res_inv E ?t0 v) (p_try (try_vault E sr role0 v) (\<lambda>e. p_bind (upd_res (\<lambda>r. r\<lparr>pr_error := Some e\<rparr>)) (\<lambda>_. p_ret False)))"
    by (intro p_intros res_inv_try p_keeps_res_upd) simp
  from p_keepsD [OF this w1 t] have w2: "res_inv E ?t0 v w2" .
  then have "?t0 \<le> pw_tick w2" by (simp add: res_inv_def)
  moreover from this have "?t0 \<le> pw_tick w'" using b p_keepsD [OF ticks.p_keeps_read_back] by (fastforce simp: p_ret_def split: if_splits)
  ultimately show ?thesis
    using b w2 read_back_told [OF w2] r by (cases gone) (auto simp: p_ret_def vault_told_def res_inv_def)
qed

lemma pause_vaults_told:
  assumes "pause_vaults E sr entry vs out w = (Inr res, w')"
  shows "\<exists>rs. res = out @ rs \<and> list_all2 (vault_told E (pw_tick w) (pw_tick w')) (map Product_Type.snd vs) rs \<and> pw_tick w \<le> pw_tick w'"
  using assms
proof (induction vs arbitrary: out w)
  case Nil
  then show ?case by (simp add: p_ret_def)
next
  case (Cons x vs)
  obtain role0 v where x: "x = (role0, v)" by fastforce
  from Cons.prems obtain r w1 w2 where v: "pause_vault E sr role0 v w = (Inr r, w1)"
    and u: "update_if E entry (\<lambda>e. e\<lparr>pe_vaults := map result_js (out @ [r])\<rparr>) w1 = (Inr (), w2)"
    and rest: "pause_vaults E sr entry vs (out @ [r]) w2 = (Inr res, w')" by (auto simp: x p_bind_Inr)
  have t: "pw_tick w1 \<le> pw_tick w2" by (rule p_keepsD [OF ticks.p_keeps_update_if _ u]) simp
  from Cons.IH [OF rest] obtain rs where rs: "res = (out @ [r]) @ rs" "pw_tick w2 \<le> pw_tick w'"
    "list_all2 (vault_told E (pw_tick w2) (pw_tick w')) (map Product_Type.snd vs) rs" by blast
  note v' = pause_vault_told [OF v]
  have "list_all2 (vault_told E (pw_tick w) (pw_tick w')) (map Product_Type.snd vs) rs"
    using rs(3) by (rule list.rel_mono_strong) (use v' t in \<open>auto elim!: vault_told_mono\<close>)
  moreover have "vault_told E (pw_tick w) (pw_tick w') v r" using v' t rs(2) by (auto elim!: vault_told_mono)
  ultimately show ?case using rs(1,2) v' t by (intro exI [of _ "r # rs"]) (simp add: x)
qed

lemma begin_entry_tick: "begin_entry E w = (r, w') \<Longrightarrow> pw_tick w \<le> pw_tick w'"
  by (auto simp: begin_entry_def p_locked_def Let_def split: prod.splits if_splits)

lemma read_roles_length: "read_roles E sr d vs w = (Inr rs, w') \<Longrightarrow> length rs = length vs"
  by (induction vs arbitrary: rs w) (auto simp: p_bind_Inr p_ret_eq)

lemma report_told:
  assumes "pauseAll E m emergency w = (Inr report, w')"
  shows "list_all2 (vault_told E (pw_tick w) (pw_tick w')) (targets E) (pa_vaults report) \<and>
    (pa_allPaused report \<longrightarrow>
       list_all (\<lambda>v. shown_paused E (pw_tick w) (pw_tick w') v True \<or> shown_retired E (pw_tick w) (pw_tick w') v) (targets E))"
proof -
  let ?sr = "pauseSignerRole m" and ?w = "w\<lparr>pw_sentNonce := Map.empty\<rparr>"
  from assms obtain d em entry w1 where b: "begin_entry E ?w = (Inr entry, w1)"
    and r: "pause_recorded E ?sr d em entry w1 = (Inr report, w')" by (auto simp: pauseAll_Inr)
  from r obtain roles blocked vaults w2 w3 w4 w5 where
    r1: "read_roles E ?sr d (targets E) w1 = (Inr roles, w2)" and r2: "read_blocked E d em roles w2 = (Inr blocked, w3)" and
    r3: "pause_vaults E \<lparr>sr_stageRole = ?sr, sr_deployerAddr = d, sr_emergencyAddr = em, sr_blocked = blocked\<rparr> entry (zip roles (targets E)) [] w3 = (Inr vaults, w4)"
    and r4: "update_if E entry (\<lambda>e. e\<lparr>pe_done := True, pe_allPaused := Some (pa_allPaused report), pe_vaults := map result_js vaults\<rparr>) w4 = (Inr (), w5)"
    and r5: "writeRolloutReport E report w5 = (Inr (), w')"
    and rep: "pa_vaults report = vaults" "pa_allPaused report = list_all vault_covered vaults"
    by (auto simp: pause_recorded_def Let_def p_bind_Inr p_ret_eq)
  have tick: "pw_tick w \<le> pw_tick w3" "pw_tick w4 \<le> pw_tick w'"
    using begin_entry_tick [OF b] p_keepsD [OF ticks.p_keeps_roles _ r1, of "pw_tick w"] p_keepsD [OF ticks.p_keeps_reads(7) _ r2, of "pw_tick w"]
      p_keepsD [OF ticks.p_keeps_update_if _ r4, of "pw_tick w4"] p_keepsD [OF ticks.p_keeps_report _ r5, of "pw_tick w4"] by simp_all
  have "list_all2 (vault_told E (pw_tick w3) (pw_tick w4)) (targets E) vaults"
    using pause_vaults_told [OF r3] read_roles_length [OF r1] by (simp add: map_snd_zip)
  then have told: "list_all2 (vault_told E (pw_tick w) (pw_tick w')) (targets E) vaults"
    by (rule list.rel_mono_strong) (use tick in \<open>auto elim!: vault_told_mono\<close>)
  then have "list_all (\<lambda>v. shown_paused E (pw_tick w) (pw_tick w') v True \<or> shown_retired E (pw_tick w) (pw_tick w') v) (targets E)"
    if "list_all vault_covered vaults" using that
    by (induction rule: list_all2_induct) (auto simp: vault_covered_def vault_told_def)
  with told rep show ?thesis by simp
qed

text \<open>
  C17. The report of a pause-all tells what the chain answered. It has one result for every vault of this line and of the
  prior one, in the order of the stage table, whichever of them failed; a result names a pause state only where
  \<open>depositsPaused()\<close> of that stage's address gave that answer in this run, and names a vault retired only where it is of the
  prior line and answered \<open>retired()\<close> with true. So \<open>allPaused\<close> means that each vault answered one or the other.
\<close>

theorem pause_report_told:
  assumes "pauseAll E m emergency w = (Inr report, w')"
  shows "list_all2 (vault_told E (pw_tick w) (pw_tick w')) (targets E) (pa_vaults report) \<and>
    (pa_allPaused report \<longrightarrow>
       list_all (\<lambda>v. shown_paused E (pw_tick w) (pw_tick w') v True \<or> shown_retired E (pw_tick w) (pw_tick w') v) (targets E))"
  using assms by (rule report_told)

section \<open>The wait for a receipt's block\<close>

text \<open>The read of moment \<open>t\<close> shows the block.\<close>

definition shows_block :: "pause_env \<Rightarrow> int \<Rightarrow> nat \<Rightarrow> bool" where
  "shows_block E block t =
     (case pv_cast E t [''block-number''] of (ok, out) \<Rightarrow> ok \<and> all_digits (trim out) \<and> block \<le> int (read_nat (trim out)))"

lemma wait_block_step:
  "wait_block E block seen (Suc left) w =
     (let w1 = w\<lparr>pw_tick := Suc (pw_tick w)\<rparr> in
      if shows_block E block (pw_tick w) then (if RECEIPT_BLOCK_READS \<le> Suc seen then (Inr (), w1) else wait_block E block (Suc seen) left w1)
      else wait_block E block 0 left w1)"
  by (auto simp: shows_block_def castOut_def p_cast_def p_bind_def p_try_def p_ret_def p_throw_def Let_def split: prod.splits)

text \<open>Three good reads in a row within the next \<open>left\<close>, where \<open>seen\<close> good ones came just before.\<close>

definition three_in_row :: "(nat \<Rightarrow> bool) \<Rightarrow> nat \<Rightarrow> nat \<Rightarrow> nat \<Rightarrow> bool" where
  "three_in_row good seen left t \<longleftrightarrow>
     (\<exists>k. k + 3 \<le> left \<and> good (t + k) \<and> good (t + k + 1) \<and> good (t + k + 2)) \<or>
     (\<exists>k. 0 < k \<and> k \<le> left \<and> 3 \<le> k + seen \<and> (\<forall>j<k. good (t + j)))"

lemma three_in_row_fresh:
  "three_in_row good 0 left t \<longleftrightarrow> (\<exists>k. k + 3 \<le> left \<and> good (t + k) \<and> good (t + k + 1) \<and> good (t + k + 2))" (is "_ \<longleftrightarrow> ?R")
proof
  assume "three_in_row good 0 left t"
  then consider ?R | k where "k \<le> left" "3 \<le> k" "\<forall>j<k. good (t + j)" unfolding three_in_row_def by auto
  then show ?R
  proof cases
    case (2 k)
    then have "good (t + j)" if "j < 3" for j using that by (meson less_le_trans)
    from this [of 0] this [of 1] this [of 2] 2(1,2) show ?thesis by (intro exI [of _ 0]) simp
  qed
next
  assume ?R
  then show "three_in_row good 0 left t" unfolding three_in_row_def by blast
qed

lemma three_in_row_good:
  assumes "good t" "seen < 2" shows "three_in_row good seen (Suc left) t \<longleftrightarrow> three_in_row good (Suc seen) left (Suc t)"
proof
  assume "three_in_row good seen (Suc left) t"
  then consider k where "k + 3 \<le> Suc left" "good (t + k)" "good (t + k + 1)" "good (t + k + 2)"
    | k where "0 < k" "k \<le> Suc left" "3 \<le> k + seen" "\<forall>j<k. good (t + j)" unfolding three_in_row_def by blast
  then show "three_in_row good (Suc seen) left (Suc t)"
  proof cases
    case 1
    show ?thesis
    proof (cases k)
      case 0
      with 1 show ?thesis unfolding three_in_row_def by (intro disjI2 exI [of _ 2]) (auto simp: less_Suc_eq numeral_2_eq_2)
    next
      case (Suc k')
      with 1 show ?thesis unfolding three_in_row_def by (intro disjI1 exI [of _ k']) simp
    qed
  next
    case 2
    then have "good (t + Suc j)" if "j < k - 1" for j using that by (metis less_diff_conv Suc_eq_plus1)
    then have "\<forall>j<k - 1. good (Suc t + j)" by simp
    with 2 assms(2) show ?thesis unfolding three_in_row_def by (intro disjI2 exI [of _ "k - 1"]) auto
  qed
next
  assume "three_in_row good (Suc seen) left (Suc t)"
  then consider k where "k + 3 \<le> left" "good (Suc t + k)" "good (Suc t + k + 1)" "good (Suc t + k + 2)"
    | k where "0 < k" "k \<le> left" "3 \<le> k + Suc seen" "\<forall>j<k. good (Suc t + j)" unfolding three_in_row_def by blast
  then show "three_in_row good seen (Suc left) t"
  proof cases
    case 1
    then show ?thesis unfolding three_in_row_def by (intro disjI1 exI [of _ "Suc k"]) simp
  next
    case 2
    then have "\<forall>j<Suc k. good (t + j)" using assms(1) by (auto simp: less_Suc_eq_0_disj)
    with 2 show ?thesis unfolding three_in_row_def by (intro disjI2 exI [of _ "Suc k"]) auto
  qed
qed

lemma three_in_row_bad:
  assumes "\<not> good t" shows "three_in_row good seen (Suc left) t \<longleftrightarrow> three_in_row good 0 left (Suc t)"
proof
  assume "three_in_row good seen (Suc left) t"
  then obtain k where k: "k + 3 \<le> Suc left" "good (t + k)" "good (t + k + 1)" "good (t + k + 2)"
    using assms unfolding three_in_row_def by fastforce
  then obtain k' where "k = Suc k'" using assms by (cases k) auto
  with k show "three_in_row good 0 left (Suc t)" unfolding three_in_row_fresh by (intro exI [of _ k']) simp
next
  assume "three_in_row good 0 left (Suc t)"
  then obtain k where "k + 3 \<le> left" "good (Suc t + k)" "good (Suc t + k + 1)" "good (Suc t + k + 2)"
    unfolding three_in_row_fresh by blast
  then show "three_in_row good seen (Suc left) t" unfolding three_in_row_def by (intro disjI1 exI [of _ "Suc k"]) simp
qed

lemma wait_block_three:
  "seen < 3 \<Longrightarrow> fst (wait_block E block seen left w) =
     (if three_in_row (shows_block E block) seen left (pw_tick w) then Inr () else Inl (PublishError TOOL))"
proof (induction left arbitrary: seen w)
  case 0
  then show ?case by (simp add: p_throw_def three_in_row_def)
next
  case (Suc left)
  let ?g = "shows_block E block" and ?t = "pw_tick w"
  show ?case
  proof (cases "?g ?t")
    case good: True
    show ?thesis
    proof (cases "seen = 2")
      case True
      with good have "three_in_row ?g seen (Suc left) ?t" unfolding three_in_row_def by (intro disjI2 exI [of _ 1]) simp
      with good True show ?thesis by (simp add: wait_block_step RECEIPT_BLOCK_READS_def Let_def del: wait_block.simps)
    next
      case False
      with good Suc show ?thesis
        by (simp add: wait_block_step RECEIPT_BLOCK_READS_def Let_def three_in_row_good del: wait_block.simps)
    qed
  next
    case False
    with Suc show ?thesis by (simp add: wait_block_step Let_def three_in_row_bad del: wait_block.simps)
  qed
qed

text \<open>
  The wait after a mined pause ends, within 60 reads, and it succeeds exactly when three reads in a row among them show
  the receipt's block; a read that fails or is no number counts as behind, and otherwise the wait fails with the TOOL error.
\<close>

theorem receipt_wait_exact:
  "fst (waitForReceiptBlock E block w) =
     (if \<exists>k\<le>57. shows_block E block (pw_tick w + k) \<and> shows_block E block (pw_tick w + k + 1) \<and> shows_block E block (pw_tick w + k + 2)
      then Inr () else Inl (PublishError TOOL))"
proof -
  have "three_in_row good 0 60 t \<longleftrightarrow> (\<exists>k\<le>57. good (t + k) \<and> good (t + k + 1) \<and> good (t + k + 2))" for good t
  proof -
    have "k + 3 \<le> 60 \<longleftrightarrow> k \<le> (57::nat)" for k by auto
    then show ?thesis unfolding three_in_row_fresh by simp
  qed
  then show ?thesis by (simp add: waitForReceiptBlock_def RECEIPT_BLOCK_TRIES_def wait_block_three)
qed

section \<open>A pause-all that starts ends with a report\<close>

definition p_total :: "'a pact \<Rightarrow> bool" where
  "p_total m \<longleftrightarrow> (\<forall>w. \<exists>a w'. m w = (Inr a, w'))"

named_theorems p_totals \<open>steps that do not throw\<close>

lemma p_total_basic [p_totals]: "p_total (p_ret a)" "p_total (p_res (Inr a))" "p_total (upd_res f)" "p_total (\<lambda>w. (Inr (g w), w))"
  by (simp_all add: p_total_def p_ret_def p_res_def upd_res_def)

lemma p_total_bind [p_totals]: "p_total m \<Longrightarrow> (\<And>a. p_total (f a)) \<Longrightarrow> p_total (p_bind m f)"
  unfolding p_total_def p_bind_def by (metis (mono_tags, lifting) case_prod_conv sum.case(2))

lemma p_total_try [p_totals]: "(\<And>e. p_total (h e)) \<Longrightarrow> p_total (p_try m h)"
  unfolding p_total_def p_try_def by (auto split: prod.splits sum.splits)

lemma p_total_split [p_totals]:
  "(c \<Longrightarrow> p_total m) \<Longrightarrow> (\<not> c \<Longrightarrow> p_total n) \<Longrightarrow> p_total (if c then m else n)"
  "p_total n \<Longrightarrow> (\<And>x. p_total (k x)) \<Longrightarrow> p_total (case v of None \<Rightarrow> n | Some x \<Rightarrow> k x)"
  "(\<And>r. p_total (g r)) \<Longrightarrow> p_total u \<Longrightarrow> p_total (case sr of Sure r \<Rightarrow> g r | Unsure \<Rightarrow> u)"
  by (simp_all split: option.splits stage_role.splits)

lemma p_total_manifest [p_totals]: "p_total (begin_entry E)" "p_total (update_entry E e)"
  by (auto simp: p_total_def begin_entry_def update_entry_def p_locked_def Let_def split: prod.splits)

lemma p_total_update_if [p_totals]: "p_total (update_if E entry f)"
  unfolding update_if_def by (intro p_totals)

lemma p_total_reads [p_totals]: "p_total (unfundedSigner E who)" "p_total (read_role E sr d v)"
  unfolding unfundedSigner_def read_role_def by (intro p_totals)+

lemma p_total_read_back [p_totals]: "p_total (read_back E b)"
proof -
  have "p_total (read_paused E b a)" for a unfolding read_paused_def by (intro p_totals)
  then show ?thesis by (simp add: p_total_def read_back_def Let_def)
qed

lemma p_total_roles [p_totals]: "p_total (read_roles E sr d vs)"
  by (induction vs) (auto intro!: p_totals)

lemma p_total_blocked [p_totals]: "p_total (read_blocked E d em roles)"
  unfolding read_blocked_def by (intro p_totals)

lemma p_total_vault: "vaultDisplayName (pt_key v) = Inr name \<Longrightarrow> p_total (pause_vault E sr role0 v)"
  unfolding pause_vault_def by (intro p_totals) (simp add: p_totals)

lemma p_total_vaults:
  "\<forall>v\<in>Product_Type.snd ` set vs. \<exists>name. vaultDisplayName (pt_key v) = Inr name \<Longrightarrow> p_total (pause_vaults E sr entry vs out)"
proof (induction vs arbitrary: out)
  case (Cons x vs)
  obtain role0 v where x: "x = (role0, v)" by fastforce
  then obtain name where "vaultDisplayName (pt_key v) = Inr name" using Cons.prems by auto
  with Cons show ?case by (auto simp: x intro!: p_totals p_total_vault)
qed (simp add: p_totals)


lemma run_pause_Inr:
  "run_pause E w = (Inr report, w') \<Longrightarrow> \<exists>m em. pauseAll E m em w = (Inr report, w')"
  by (auto simp: run_pause_def load_manifest_def p_bind_Inr p_res_Inr split: sum.splits option.splits)

lemma pauseAll_report: "pauseAll E m em w = (Inr report, w') \<Longrightarrow> pw_report w' = Some report"
  by (auto simp: pauseAll_Inr pause_recorded_def Let_def p_bind_Inr p_ret_eq writeRolloutReport_def split: if_splits)

text \<open>
  The two callers take a pause-all for done only when it is: the verb \<open>pause-all\<close> exits with 0, and a failed verify or
  postflight ends with its own failure, only when the report written says that the entry was recorded, and each vault of the
  stage table answered in this run that its deposits are paused, or, of the prior line, that it is retired. In every other
  case the run ends with an error of the pause-all.
\<close>

theorem pause_taken_for_done:
  assumes "pause_verb E w = (None, w') \<or> pauseOnFailure E cause w = (Cause c, w')"
  shows "(\<exists>report. pw_report w' = Some report \<and> pa_manifestRecorded report) \<and>
    list_all (\<lambda>v. shown_paused E (pw_tick w) (pw_tick w') v True \<or> shown_retired E (pw_tick w) (pw_tick w') v) (targets E)"
proof -
  from assms obtain report where r: "run_pause E w = (Inr report, w')" "pa_allPaused report" "pa_manifestRecorded report"
    by (auto simp: pause_verb_def pauseOnFailure_def split: prod.splits sum.splits if_splits)
  obtain m em where p: "pauseAll E m em w = (Inr report, w')" using run_pause_Inr [OF r(1)] by blast
  show ?thesis using report_told [OF p] pauseAll_report [OF p] r by blast
qed

section \<open>A pause-all of three vaults\<close>

definition demo_env :: pause_env where
  "demo_env =
     \<lparr>pv_dryRun = False, pv_admin = ''0xAA'', pv_emergencyAddress = ''0xEE'', pv_deployer = Some ''0xaa'', pv_emergency = Inr None,
      pv_EMERGENCY_ROLE = ''0x01'', pv_forgeArgs = (\<lambda>_. Inr [''--sender'', ''0xaa'']),
      pv_vaultStages = [(''USDC'', ''vault-usdc''), (''RWA'', ''vault-rwa'')], pv_retiredStages = [(''AGENT'', ''vault-agent'')],
      pv_address = (\<lambda>s. Inr (''0x'' @ s)),
      pv_cast = (\<lambda>t as. (True, case as of c # _ \<Rightarrow> if c = ''call'' then ''true'' else if c = ''send'' then ''{}'' else ''7'' | [] \<Rightarrow> [])),
      pv_json = (\<lambda>_. Some (JObj [(''transactionHash'', JStr ''0xbb''), (''blockNumber'', JStr ''0x5''), (''status'', JStr ''0x1'')])),
      pv_others = (\<lambda>_ s. s), pv_lock = (\<lambda>_. True), pv_writable = True,
      pv_trigger = ''manual'', pv_reason = ''drill'', pv_at = ''2026''\<rparr>"

definition demo_world :: pworld where
  "demo_world =
     \<lparr>pw_ms = paused_state, pw_tick = 0, pw_sends = [], pw_sentNonce = Map.empty,
      pw_res = \<lparr>pr_vault = [], pr_key = [], pr_address = [], pr_retired = False, pr_signerRole = RDeployer, pr_signer = [],
               pr_txHash = None, pr_depositsPaused = None, pr_error = None\<rparr>,
      pw_report = None\<rparr>"

definition demo_report :: "PauseAllReport option" where
  "demo_report = (case pauseAll demo_env fresh_manifest None demo_world of (Inr r, _) \<Rightarrow> Some r | _ \<Rightarrow> None)"

lemma demo_facts:
  "map_option (\<lambda>r. (pa_allPaused r, pa_manifestRecorded r, map pr_retired (pa_vaults r))) demo_report = Some (True, True, [False, False, True])"
  by code_simp

lemma demo_sends:
  "map (\<lambda>s. (sp_to s, sp_nonce s)) (pw_sends (Product_Type.snd (pauseAll demo_env fresh_manifest None demo_world)))
     = [(''0xvault-usdc'', Some 7), (''0xvault-rwa'', Some 8)]"
  by code_simp

lemma demo_run:
  obtains report w' where "pauseAll demo_env fresh_manifest None demo_world = (Inr report, w')" "pa_manifestRecorded report" "pa_allPaused report"
    "map (\<lambda>s. (sp_to s, sp_nonce s)) (pw_sends w') = [(''0xvault-usdc'', Some 7), (''0xvault-rwa'', Some 8)]"
  using demo_facts demo_sends by (auto simp: demo_report_def split: prod.splits sum.splits)

lemma demo_others: "manifest_others demo_env"
  by (simp add: manifest_others_def demo_env_def manifest_reach.start)

lemma demo_world_start: "pw_sends demo_world = []" "pw_ms demo_world = paused_state"
  by (simp_all add: demo_world_def)

theorem pause_recorded_before_sends_witness:
  "\<exists>report w' s1 s2. pauseAll demo_env fresh_manifest None demo_world = (Inr report, w') \<and> pw_sends w' = [s1, s2] \<and>
     unpause_refused (sp_manifest s1) 1 \<and> unpause_refused (sp_manifest s2) 1 \<and> unpause_refused (pw_ms w') 1"
proof -
  obtain report w' where r: "pauseAll demo_env fresh_manifest None demo_world = (Inr report, w')" "pa_manifestRecorded report"
    and s: "map (\<lambda>s. (sp_to s, sp_nonce s)) (pw_sends w') = [(''0xvault-usdc'', Some 7), (''0xvault-rwa'', Some 8)]" by (rule demo_run)
  have "manifest_reach (manifest_start fresh_manifest) (pw_ms demo_world)" by (simp add: demo_world_start paused_state_reach)
  moreover have "Reserved 1 \<in> set (ms_log (pw_ms demo_world))" by (simp add: demo_world_start paused_state_log)
  ultimately have "list_all (\<lambda>s. unpause_refused (sp_manifest s) 1) (pw_sends w') \<and> unpause_refused (pw_ms w') 1"
    by (rule pause_recorded_before_sends [OF demo_others _ _ demo_world_start(1) r])
  with r(1) s show ?thesis by fastforce
qed


lemma demo_targets: "map pt_key (targets demo_env) = [''USDC'', ''RWA'', ''AGENT'']"
  by (simp add: targets_def demo_env_def)

theorem pause_report_told_witness:
  "\<exists>report w'. pauseAll demo_env fresh_manifest None demo_world = (Inr report, w') \<and> map pr_key (pa_vaults report) = [''USDC'', ''RWA'', ''AGENT''] \<and>
     list_all (\<lambda>v. shown_paused demo_env (pw_tick demo_world) (pw_tick w') v True \<or> shown_retired demo_env (pw_tick demo_world) (pw_tick w') v) (targets demo_env)"
proof -
  obtain report w' where r: "pauseAll demo_env fresh_manifest None demo_world = (Inr report, w')" and a: "pa_allPaused report" by (rule demo_run)
  note t = pause_report_told [OF r]
  have "list_all2 (\<lambda>v r. pr_key r = pt_key v) (targets demo_env) (pa_vaults report)"
    using t by (auto elim!: list.rel_mono_strong simp: vault_told_def)
  then have "map pr_key (pa_vaults report) = map pt_key (targets demo_env)"
    by (induction rule: list_all2_induct) simp_all
  with r a t show ?thesis by (auto simp: demo_targets)
qed

lemma demo_signers: "\<not> pv_dryRun demo_env" "pause_signer_check demo_env (pauseSignerRole fresh_manifest) None = Inr (Some ''0xaa'', None)" "pv_writable demo_env"
  by code_simp+


lemma demo_verb: "fst (pause_verb demo_env demo_world) = None"
  by code_simp

theorem pause_taken_for_done_witness:
  "\<exists>w'. pause_verb demo_env demo_world = (None, w') \<and> (\<exists>report. pw_report w' = Some report \<and> pa_manifestRecorded report)"
proof -
  obtain w' where v: "pause_verb demo_env demo_world = (None, w')" using demo_verb by (metis prod.collapse)
  then have "pause_verb demo_env demo_world = (None, w') \<or> pauseOnFailure demo_env PlainError demo_world = (Cause PlainError, w')" ..
  from pause_taken_for_done [OF this] v show ?thesis by blast
qed

end
