(* ===== verification/SheetText.thy ===== *)
theory SheetText
  imports PublishBase
begin

text \<open>
  The text of the deployment sheet (publish-contracts/src/sheet.ts, the first half): \<open>NAME=value\<close> lines, the whitelist
  of names, and the lines a follow-on verb drops. A sheet is data: nothing in it is expanded or run.
\<close>

abbreviation sheet_error :: failure where
  "sheet_error \<equiv> PublishError SHEET"

type_synonym raw_sheet = "(string \<times> string) list"

section \<open>Lines\<close>

definition LF :: char where "LF = CHR 0x0A"
definition CR :: char where "CR = CHR 0x0D"

text \<open>\<open>text.replace(/^\uFEFF/, "")\<close>\<close>

definition strip_bom :: "string \<Rightarrow> string" where
  "strip_bom t = (if map char_code (take 3 t) = [0xEF, 0xBB, 0xBF] then drop 3 t else t)"

definition drop_cr :: "string \<Rightarrow> string" where
  "drop_cr l = (if l \<noteq> [] \<and> last l = CR then butlast l else l)"

text \<open>\<open>split(/\r?\n/)\<close>\<close>

definition sheet_lines :: "string \<Rightarrow> string list" where
  "sheet_lines t = (let ls = split_on LF t in map drop_cr (butlast ls) @ [last ls])"

text \<open>The line terminators a dot does not match: CR, LF, U+2028 and U+2029.\<close>

fun one_line :: "string \<Rightarrow> bool" where
  "one_line [] = True"
| "one_line (c # s) =
     (c \<noteq> LF \<and> c \<noteq> CR \<and> \<not> (map char_code (take 3 (c # s)) = [0xE2, 0x80, 0xA8] \<or> map char_code (take 3 (c # s)) = [0xE2, 0x80, 0xA9])
      \<and> one_line s)"

text \<open>\<open>(?:export\s+)?\<close>: the word is taken off only with the blanks after it.\<close>

definition drop_export :: "string \<Rightarrow> string" where
  "drop_export t =
     (case drop_prefix ''export'' t of
        Some r \<Rightarrow> if blank_len wide_blanks r = 0 then t else trim_start wide_blanks r
      | None \<Rightarrow> t)"

text \<open>\<open>/^(?:export\s+)?([A-Za-z_][A-Za-z0-9_]*)=(.*)$/\<close>\<close>

definition name_value :: "string \<Rightarrow> (string \<times> string) option" where
  "name_value t =
     (let u = drop_export t; name = takeWhile is_word_char u in
      case dropWhile is_word_char u of
        [] \<Rightarrow> None
      | c # v \<Rightarrow> if name \<noteq> [] \<and> \<not> is_digit (hd name) \<and> c = CHR ''='' \<and> one_line v then Some (name, v) else None)"

text \<open>\<open>v.replace(/\s+#.*$/, "")\<close> on one line: cut at the first blanks that a \<open>#\<close> follows.\<close>

fun strip_comment :: "string \<Rightarrow> string" where
  "strip_comment [] = []"
| "strip_comment (c # s) =
     (if blank_len wide_blanks (c # s) > 0 \<and> starts_with ''#'' (trim_start wide_blanks (c # s)) then []
      else c # strip_comment s)"

definition shell_chars :: string where
  "shell_chars = ''`$;&|<>'' @ [CHR 0x5C]"

definition is_quote :: "char \<Rightarrow> bool" where
  "is_quote c = (c = CHR 0x22 \<or> c = CHR 0x27)"

text \<open>The value of a line, unquoted or with the comment taken off.\<close>

definition line_value :: "string \<Rightarrow> failure + string" where
  "line_value v0 =
     (let v = trim v0 in
      case v of
        q # r \<Rightarrow>
          if is_quote q then
            (if q \<in> set r then
               let rest = trim (tl (dropWhile (\<lambda>c. c \<noteq> q) r)) in
               if rest \<noteq> [] \<and> \<not> starts_with ''#'' rest then Inl sheet_error else Inr (takeWhile (\<lambda>c. c \<noteq> q) r)
             else Inl sheet_error)
          else Inr (trim (strip_comment v))
      | [] \<Rightarrow> Inr (trim (strip_comment v)))"

definition sheet_line :: "raw_sheet \<Rightarrow> string \<Rightarrow> failure + raw_sheet" where
  "sheet_line out line =
     (let t = trim line in
      if t = [] \<or> starts_with ''#'' t then Inr out
      else
        res_bind (of_option sheet_error (name_value t)) (\<lambda>(name, v0).
        res_bind (line_value v0) (\<lambda>v.
        res_bind (ensure (list_all (\<lambda>c. c \<notin> set shell_chars) v) sheet_error) (\<lambda>_.
        res_bind (ensure (name \<notin> set (map fst out) \<and> name \<notin> set object_prototype_keys) sheet_error) (\<lambda>_.
        Inr (out @ [(name, v)]))))))"

fun fold_res :: "('s \<Rightarrow> 'a \<Rightarrow> 'e + 's) \<Rightarrow> 's \<Rightarrow> 'a list \<Rightarrow> 'e + 's" where
  "fold_res f s [] = Inr s"
| "fold_res f s (x # xs) = res_bind (f s x) (\<lambda>s'. fold_res f s' xs)"

definition parseSheetText :: "string \<Rightarrow> failure + raw_sheet" where
  "parseSheetText t = fold_res sheet_line [] (sheet_lines (strip_bom t))"

section \<open>Names\<close>

datatype name_kind = KAddress | KAddressOrSafe | KAddressList | KUint | KString

definition vaultSheetNames :: "string \<Rightarrow> string list" where
  "vaultSheetNames k = map (\<lambda>s. ''VAULT_'' @ k @ s) [''_TVL_CAP'', ''_PER_DEPOSIT_CAP'', ''_EXIT_FEE_BPS'']"

definition basketSheetNames :: "string \<Rightarrow> string list" where
  "basketSheetNames k =
     (if k \<in> set BASKET_KEYS then map (\<lambda>s. ''VAULT_'' @ k @ s) [''_NAV_DEVIATION_BPS'', ''_MIN_POOL_LIQUIDITY''] else [])"

definition GLOBAL_NAMES :: "(string \<times> name_kind) list" where
  "GLOBAL_NAMES =
     [(''CHAIN_ID'', KUint), (''EXPECTED_CHAIN_ID'', KUint), (''ADMIN_ADDRESS'', KAddress), (''PAUSER_ADDRESS'', KAddress),
      (''EMERGENCY_ADDRESS'', KAddress), (''SHARE_RECEIVER_ADDRESS'', KAddress), (''RECEIPT_ADMIN_ADDRESS'', KAddress),
      (''SAFE_OWNERS'', KAddressList), (''SAFE_THRESHOLD'', KUint), (''SAFE_VERSION'', KString), (''SAFE_SALT_NONCE'', KUint),
      (''GATEWAY_ADMIN_ADDRESS'', KAddress), (''GATEWAY_UPGRADE_TIMELOCK'', KAddress), (''USDC_ADDRESS'', KAddress),
      (''FEE_RECIPIENT_ADDRESS'', KAddressOrSafe), (''SEED_DEPOSIT_USDC'', KUint), (''SWAP_ROUTER'', KAddress),
      (''TIMELOCK_MIN_DELAY'', KUint), (''UPGRADE_MODE'', KString), (''UPGRADE_FREEZE_DEADLINE'', KString),
      (''DEPLOYMENT_KIND'', KString), (''ELIGIBLE_VAULTS'', KString), (''ROUTER_WEIGHTS'', KString),
      (''GOVERN_UNPAUSE_VAULTS'', KString), (''GOVERN_NEW_DELAY'', KUint)]"

definition VAULT_NAMES :: "(string \<times> name_kind) list" where
  "VAULT_NAMES = map (\<lambda>n. (n, KUint)) (concat (map (\<lambda>k. vaultSheetNames k @ basketSheetNames k) VAULT_KEYS))"

definition SHEET_SPEC :: "(string \<times> name_kind) list" where
  "SHEET_SPEC = GLOBAL_NAMES @ VAULT_NAMES"

definition GATEWAY_ONLY_NAMES :: "string list" where
  "GATEWAY_ONLY_NAMES = [''GATEWAY_ADMIN_ADDRESS'', ''GATEWAY_UPGRADE_TIMELOCK'']"

definition OPTIONAL_NAMES :: "string list" where
  "OPTIONAL_NAMES =
     [''SAFE_VERSION'', ''SAFE_SALT_NONCE'', ''USDC_ADDRESS'', ''DEPLOYMENT_KIND'', ''UPGRADE_FREEZE_DEADLINE'', ''GATEWAY_ADMIN_ADDRESS'', ''GATEWAY_UPGRADE_TIMELOCK'']"

definition GATEWAY_SHEET_NAMES :: "string list" where
  "GATEWAY_SHEET_NAMES =
     [''CHAIN_ID'', ''EXPECTED_CHAIN_ID'', ''ADMIN_ADDRESS'', ''PAUSER_ADDRESS'', ''SHARE_RECEIVER_ADDRESS'', ''UPGRADE_MODE'', ''DEPLOYMENT_KIND'', ''USDC_ADDRESS'']
     @ GATEWAY_ONLY_NAMES"

definition GATEWAY_REQUIRED :: "string list" where
  "GATEWAY_REQUIRED = filter (\<lambda>n. n \<notin> set [''DEPLOYMENT_KIND'', ''USDC_ADDRESS'']) GATEWAY_SHEET_NAMES"

definition REQUIRED_NAMES :: "string list" where
  "REQUIRED_NAMES = filter (\<lambda>n. n \<notin> set OPTIONAL_NAMES) (map fst SHEET_SPEC)"

text \<open>The classes \<open>[A-Z_]\<close> and the words of a name that holds a secret.\<close>

definition upper_or_underscore :: "char \<Rightarrow> bool" where
  "upper_or_underscore c = (is_upper c \<or> c = CHR ''_'')"

definition SECRET_WORDS :: "string list" where
  "SECRET_WORDS = [''PRIVATE_KEY'', ''PASSWORD'', ''PASSPHRASE'', ''SECRET'', ''MNEMONIC'']"

definition secret_name :: "string \<Rightarrow> bool" where
  "secret_name n =
     (n \<in> set [''PRIVATE_KEY'', ''ETH_PRIVATE_KEY'', ''MNEMONIC'', ''ETH_MNEMONIC'', ''ETH_PASSWORD'', ''CHAIN_SIGNER_KEYSTORE'', ''CHAIN_SIGNER_PASSWORD'']
      \<or> (list_all upper_or_underscore n \<and> list_ex (\<lambda>w. str_includes w n) SECRET_WORDS))"

text \<open>\<open>/^GOVERN_(?!UNPAUSE_VAULTS$|NEW_DELAY$)[A-Z_]*$/\<close>\<close>

definition other_govern_name :: "string \<Rightarrow> bool" where
  "other_govern_name n =
     (case drop_prefix ''GOVERN_'' n of None \<Rightarrow> False
      | Some r \<Rightarrow> list_all upper_or_underscore r \<and> r \<noteq> ''UNPAUSE_VAULTS'' \<and> r \<noteq> ''NEW_DELAY'')"

definition REFUSED_NAME :: "string \<Rightarrow> bool" where
  "REFUSED_NAME n =
     (n \<in> set [''YES'', ''CONFIRM'']
      \<or> n \<in> set [''REHEARSAL'', ''ALLOW_SHORT_TIMELOCK_DELAY'', ''SKIP_ROUTER_ADMIN_GRANT'', ''BASKET_VAULT_AUDIT_COMPLETE'', ''MOCK_ALL'', ''CONFIG_PATH'']
      \<or> n \<in> set [''RPC'', ''RPC_URL'', ''ETH_RPC_URL'', ''RPC_ENDPOINT'']
      \<or> secret_name n
      \<or> n \<in> set [''SAFE_ADDRESS'', ''REGISTRY_ADDRESS'', ''ROUTER_ADDRESS'', ''GATEWAY_ADDRESS'', ''GOVERNANCE_ADDRESS'', ''CONSENSUS_RECEIPT_ADDRESS'', ''VAULT_ADDRESS'',
                 ''VAULT_ADDRESSES'', ''TIMELOCK_ADDRESS'', ''AGENT_ADDRESSES'', ''DEPLOYMENT_OUT'', ''DEPLOY_SHA'']
      \<or> n \<in> set [''AGENT_ADDRESS'', ''AGENT_VALID_UNTIL'', ''AGENT_MAX_PER_PAYMENT'', ''AGENT_MAX_PER_WINDOW'', ''AGENT_MAX_WITHDRAW_PER_PAYMENT'', ''AGENT_MAX_WITHDRAW_PER_WINDOW'']
      \<or> other_govern_name n
      \<or> n \<in> set [''VOTER_ADDRESSES'', ''VOTER_POWER'', ''QUORUM_THRESHOLD'', ''VOTING_PERIOD'', ''EXECUTION_DELAY'']
      \<or> n = ''VAULT_NAME''
      \<or> n \<in> set [''VAULT_TVL_CAP'', ''VAULT_PER_DEPOSIT_CAP'', ''VAULT_EXIT_FEE_BPS'']
      \<or> n \<in> set [''VAULT_NAV_DEVIATION_BPS'', ''VAULT_USDC_NAV_DEVIATION_BPS'', ''VAULT_MIN_POOL_LIQUIDITY'', ''VAULT_USDC_MIN_POOL_LIQUIDITY''])"

end
