(* ===== verification/SheetParse.thy ===== *)
theory SheetParse
  imports SheetText Floors SafeProposal JsDate
begin

text \<open>
  The deployment sheet itself (publish-contracts/src/sheet.ts, the second half): what a text must say to be a sheet, and
  what a run reads from it. viem's address functions are the parameter of the other components; \<open>stage13\<close> is the
  list of the vaults stage 13 opens, from the stage table (vault-rules.ts).
\<close>

section \<open>The sheet\<close>

record SheetVault =
  sv_tvlCap :: int
  sv_perDepositCap :: int
  sv_exitFeeBps :: int
  sv_navDeviationBps :: "int option"
  sv_minPoolLiquidity :: "int option"

datatype UpgradeMode = Upgradeable | Frozen

datatype fee_recipient = AtSafe | FeeTo string

text \<open>The record the floors read, with all other lines.\<close>

record full_sheet = Sheet +
  sf_gateway :: "(string \<times> string) option"
  sf_values :: raw_sheet
  sf_expectedChainId :: int
  sf_admin :: string
  sf_pauser :: string
  sf_emergency :: string
  sf_shareReceiver :: string
  sf_receiptAdmin :: string
  sf_safeOwners :: "string list"
  sf_safeThreshold :: int
  sf_safeSalt :: "string option"
  sf_usdc :: string
  sf_swapRouter :: string
  sf_feeRecipient :: fee_recipient
  sf_seedDeposit :: int
  sf_upgrade :: "UpgradeMode \<times> string option"
  sf_vaults :: "(string \<times> SheetVault) list"
  sf_eligibleVaults :: "string list"
  sf_weights :: "(string \<times> int) list"
  sf_unpauseVaults :: "string list"
  sf_retiredVaults :: "string list"

record ParseSheetOpts =
  po_system :: "SystemName option"
  po_verb :: "string option"
  po_now :: int

section \<open>The vault rules of the table\<close>

definition STAGE13_UNPAUSE_VAULTS :: "TableVault list \<Rightarrow> js list" where
  "STAGE13_UNPAUSE_VAULTS rules = map tv_key (filter (\<lambda>v. truthy (jget (tv_row v) ''unpauseInStage13'')) rules)"

section \<open>Values\<close>

definition USDC_ADDRESS :: string where "USDC_ADDRESS = ''0x833589fCD6eDb6E08f4c7C32D4f71b54bdA02913''"
definition MAX_NAV_DEVIATION_BPS :: int where "MAX_NAV_DEVIATION_BPS = 2000"
definition MAX_POOL_LIQUIDITY :: int where "MAX_POOL_LIQUIDITY = 2 ^ 128 - 1"

text \<open>\<open>/^(0|[1-9][0-9]*)$/\<close>\<close>

definition asUint :: "string \<Rightarrow> failure + int" where
  "asUint v = (if all_digits v \<and> (v = ''0'' \<or> hd v \<noteq> CHR ''0'') then Inr (int (read_nat v)) else Inl sheet_error)"

definition asSafeInt :: "string \<Rightarrow> failure + int" where
  "asSafeInt v = res_bind (asUint v) (\<lambda>n. if n > 9007199254740991 then Inl sheet_error else Inr n)"

definition asAddress :: "safe_viem \<Rightarrow> string \<Rightarrow> failure + string" where
  "asAddress V v =
     (if \<not> isAddressStrict V v then Inl sheet_error
      else res_bind (of_option PlainError (getAddress V v)) (\<lambda>a. if zero_of_len 40 a then Inl sheet_error else Inr a))"

definition comma_list :: "string \<Rightarrow> string list" where
  "comma_list v = map trim (split_on (CHR '','') v)"

definition asList :: "safe_viem \<Rightarrow> string \<Rightarrow> failure + string list" where
  "asList V v =
     (let parts = comma_list v in
      res_bind (ensure ([] \<notin> set parts) sheet_error) (\<lambda>_. map_res (asAddress V) parts))"

fun assertDistinct :: "string list \<Rightarrow> string list \<Rightarrow> failure + unit" where
  "assertDistinct seen [] = Inr ()"
| "assertDistinct seen (a # as) = (if lc a \<in> set seen then Inl sheet_error else assertDistinct (lc a # seen) as)"

fun vault_key_loop :: "string list \<Rightarrow> string list \<Rightarrow> failure + unit" where
  "vault_key_loop seen [] = Inr ()"
| "vault_key_loop seen (k # ks) =
     (if k \<notin> set VAULT_KEYS then Inl sheet_error
      else if k \<in> set seen then Inl sheet_error else vault_key_loop (k # seen) ks)"

definition asVaultKeys :: "string \<Rightarrow> failure + string list" where
  "asVaultKeys v =
     (if v = ''none'' then Inr []
      else let keys = comma_list v in res_bind (vault_key_loop [] keys) (\<lambda>_. Inr keys))"

text \<open>\<open>v.NAME!\<close> of a required name.\<close>

definition line :: "raw_sheet \<Rightarrow> string \<Rightarrow> failure + string" where
  "line v n = of_option sheet_error (map_of v n)"

section \<open>Lines a follow-on verb drops\<close>

definition LEGACY_VAULT_NAME_VERBS :: "string list" where
  "LEGACY_VAULT_NAME_VERBS = [''pause-all'', ''govern'', ''verify'', ''record-receipt'']"

definition RETIRED_VAULT_VERBS :: "string list" where
  "RETIRED_VAULT_VERBS = LEGACY_VAULT_NAME_VERBS @ [''deploy-implementation'']"

definition verb_in :: "ParseSheetOpts \<Rightarrow> string list \<Rightarrow> bool" where
  "verb_in opts verbs = (case po_verb opts of None \<Rightarrow> [] \<in> set verbs | Some x \<Rightarrow> x \<in> set verbs)"

definition del_names :: "string list \<Rightarrow> raw_sheet \<Rightarrow> raw_sheet" where
  "del_names ns raw = filter (\<lambda>(n, _). n \<notin> set ns) raw"

definition put_name :: "string \<Rightarrow> string \<Rightarrow> raw_sheet \<Rightarrow> raw_sheet" where
  "put_name n v raw = map (\<lambda>(m, x). if m = n then (m, v) else (m, x)) raw"

definition dropLegacyVaultName :: "raw_sheet \<Rightarrow> ParseSheetOpts \<Rightarrow> raw_sheet" where
  "dropLegacyVaultName raw opts = (if verb_in opts LEGACY_VAULT_NAME_VERBS then del_names [''VAULT_NAME''] raw else raw)"

definition retiredVaultSheetNames :: "string \<Rightarrow> string list" where
  "retiredVaultSheetNames k =
     map (\<lambda>s. ''VAULT_'' @ k @ s) [''_TVL_CAP'', ''_PER_DEPOSIT_CAP'', ''_EXIT_FEE_BPS'', ''_NAV_DEVIATION_BPS'', ''_MIN_POOL_LIQUIDITY'']"

definition drop_key :: "string \<Rightarrow> string \<Rightarrow> raw_sheet \<Rightarrow> raw_sheet" where
  "drop_key k name raw =
     (case map_of raw name of
        None \<Rightarrow> raw
      | Some v \<Rightarrow>
          if v = ''none'' then raw
          else let left = filter (\<lambda>x. x \<noteq> k) (comma_list v) in
               put_name name (if left \<noteq> [] then join '','' left else ''none'') raw)"

definition drop_leg :: "string \<Rightarrow> raw_sheet \<Rightarrow> failure + raw_sheet" where
  "drop_leg k raw =
     (case map_of raw ''ROUTER_WEIGHTS'' of
        None \<Rightarrow> Inr raw
      | Some v \<Rightarrow>
          let legs = comma_list v; leg = find (\<lambda>x. starts_with (k @ '':'') x) legs in
          if leg \<noteq> None \<and> leg \<noteq> Some (k @ '':0'') then Inl sheet_error
          else Inr (put_name ''ROUTER_WEIGHTS'' (join '','' (filter (\<lambda>x. Some x \<noteq> leg) legs)) raw))"

definition retired_floors :: "int list \<Rightarrow> bool" where
  "retired_floors ns =
     (case ns of [t, p, f, g, l] \<Rightarrow>
        \<not> (t = 0 \<or> p > t \<or> f > 10000 \<or> g = 0 \<or> g > MAX_NAV_DEVIATION_BPS \<or> l = 0 \<or> l > MAX_POOL_LIQUIDITY)
      | _ \<Rightarrow> False)"

definition take_retired :: "raw_sheet \<Rightarrow> string \<Rightarrow> failure + raw_sheet" where
  "take_retired raw k =
     (let names = retiredVaultSheetNames k in
      res_bind (ensure (list_all (\<lambda>n. map_of raw n \<noteq> None \<and> map_of raw n \<noteq> Some []) names) sheet_error) (\<lambda>_.
      res_bind (map_res (\<lambda>n. res_bind (line raw n) asUint) names) (\<lambda>ns.
      res_bind (ensure (retired_floors ns) sheet_error) (\<lambda>_.
      drop_leg k (drop_key k ''GOVERN_UNPAUSE_VAULTS'' (drop_key k ''ELIGIBLE_VAULTS'' (del_names names raw)))))))"

fun take_retired_keys :: "raw_sheet \<Rightarrow> string list \<Rightarrow> failure + raw_sheet \<times> string list" where
  "take_retired_keys raw [] = Inr (raw, [])"
| "take_retired_keys raw (k # ks) =
     (if \<not> list_ex (\<lambda>n. map_of raw n \<noteq> None) (retiredVaultSheetNames k) then take_retired_keys raw ks
      else res_bind (take_retired raw k) (\<lambda>raw'. res_bind (take_retired_keys raw' ks) (\<lambda>(raw'', out). Inr (raw'', k # out))))"

definition takeRetiredVaultLines :: "raw_sheet \<Rightarrow> ParseSheetOpts \<Rightarrow> failure + raw_sheet \<times> string list" where
  "takeRetiredVaultLines raw opts =
     (if \<not> verb_in opts RETIRED_VAULT_VERBS then Inr (raw, []) else take_retired_keys raw RETIRED_VAULT_KEYS)"

section \<open>The whitelist\<close>

definition check_name :: "bool \<Rightarrow> string \<Rightarrow> failure + unit" where
  "check_name gateway n =
     res_bind (ensure (\<not> REFUSED_NAME n) sheet_error) (\<lambda>_.
     res_bind (ensure (n \<in> set (map fst SHEET_SPEC) \<or> n \<in> set object_prototype_keys) sheet_error) (\<lambda>_.
     res_bind (ensure (gateway \<or> n \<notin> set GATEWAY_ONLY_NAMES) sheet_error) (\<lambda>_.
     ensure (\<not> gateway \<or> n \<in> set GATEWAY_SHEET_NAMES) sheet_error)))"

definition has_names :: "raw_sheet \<Rightarrow> string list \<Rightarrow> bool" where
  "has_names raw ns = list_all (\<lambda>n. map_of raw n \<noteq> None \<and> map_of raw n \<noteq> Some []) ns"

definition checkNames :: "raw_sheet \<Rightarrow> bool \<Rightarrow> failure + unit" where
  "checkNames raw gateway =
     res_bind (each_res (check_name gateway) (map fst raw)) (\<lambda>_.
     ensure (has_names raw (if gateway then GATEWAY_REQUIRED else REQUIRED_NAMES)) sheet_error)"

section \<open>The release mode\<close>

text \<open>\<open>Date.UTC\<close> on whole fields, in seconds: a month past 12 runs into the next year, and a year below 100 is of the 1900s.\<close>

definition days_from_civil :: "int \<Rightarrow> int \<Rightarrow> int \<Rightarrow> int" where
  "days_from_civil y m d =
     (let y' = (if m \<le> 2 then y - 1 else y); era = y' div 400; yoe = y' - era * 400;
          doy = (153 * ((m + 9) mod 12) + 2) div 5 + d - 1
      in era * 146097 + yoe * 365 + yoe div 4 - yoe div 100 + doy - 719468)"

definition date_UTC :: "int \<Rightarrow> int \<Rightarrow> int \<Rightarrow> int \<Rightarrow> int \<Rightarrow> int \<Rightarrow> int" where
  "date_UTC y mo d h mi s =
     (let y0 = (if 0 \<le> y \<and> y \<le> 99 then 1900 + y else y) in
      (days_from_civil (y0 + mo div 12) (mo mod 12 + 1) 1 + d - 1) * 86400 + h * 3600 + mi * 60 + s)"

text \<open>\<open>/^(\d{4})-(\d{2})-(\d{2})T(\d{2}):(\d{2}):(\d{2})Z$/\<close> with its six groups.\<close>

definition group :: "string \<Rightarrow> nat \<Rightarrow> nat \<Rightarrow> int" where
  "group r i n = int (read_nat (take n (drop i r)))"

definition DEADLINE :: "string \<Rightarrow> bool" where
  "DEADLINE r =
     (length r = 20 \<and> list_all2 (\<lambda>p c. if p = CHR ''d'' then is_digit c else c = p) ''dddd-dd-ddTdd:dd:ddZ'' r)"

definition deadline_seconds :: "string \<Rightarrow> int" where
  "deadline_seconds r = date_UTC (group r 0 4) (group r 5 2 - 1) (group r 8 2) (group r 11 2) (group r 14 2) (group r 17 2)"

definition iso_seconds :: "int \<Rightarrow> string option" where
  "iso_seconds t = map_option (\<lambda>s. take (length s - 5) s @ ''Z'') (toISOString t)"

definition asUpgradeMode :: "raw_sheet \<Rightarrow> failure + UpgradeMode" where
  "asUpgradeMode v =
     (case map_of v ''UPGRADE_MODE'' of
        Some m \<Rightarrow> if m = ''upgradeable'' then Inr Upgradeable else if m = ''frozen'' then Inr Frozen else Inl sheet_error
      | None \<Rightarrow> Inl sheet_error)"

definition parseUpgrade :: "raw_sheet \<Rightarrow> int \<Rightarrow> DeploymentKind \<Rightarrow> (int \<times> int) option \<Rightarrow> failure + UpgradeMode \<times> string option" where
  "parseUpgrade v chainId kind deadlineCheck =
     res_bind (asUpgradeMode v) (\<lambda>mode.
     case map_of v ''UPGRADE_FREEZE_DEADLINE'' of
       None \<Rightarrow> res_bind (ensure (\<not> (mode = Upgradeable \<and> chainId = MAINNET_CHAIN_ID \<and> kind = Production)) sheet_error) (\<lambda>_. Inr (mode, None))
     | Some d \<Rightarrow>
         if d = [] then res_bind (ensure (\<not> (mode = Upgradeable \<and> chainId = MAINNET_CHAIN_ID \<and> kind = Production)) sheet_error) (\<lambda>_. Inr (mode, None))
         else
           res_bind (ensure (mode \<noteq> Frozen) sheet_error) (\<lambda>_.
           res_bind (ensure (DEADLINE d \<and> iso_seconds (deadline_seconds d) = Some d) sheet_error) (\<lambda>_.
           res_bind (case deadlineCheck of
                       None \<Rightarrow> Inr ()
                     | Some (minDelay, nowMs) \<Rightarrow>
                         ensure (\<not> 1000 * deadline_seconds d < nowMs + minDelay * 1000 + 86400000) sheet_error) (\<lambda>_.
           Inr (mode, Some d)))))"

section \<open>Weights\<close>

text \<open>\<open>/^\s*([A-Z]+):([0-9]+)\s*$/\<close>\<close>

definition parse_weight :: "string \<Rightarrow> failure + string \<times> int" where
  "parse_weight p =
     (let t = trim p; k = takeWhile is_upper t in
      case dropWhile is_upper t of
        c # n \<Rightarrow> if c = CHR '':'' \<and> all_digits n \<and> k \<in> set VAULT_KEYS then Inr (k, int (read_nat n)) else Inl sheet_error
      | [] \<Rightarrow> Inl sheet_error)"

definition parseWeights :: "string \<Rightarrow> failure + (string \<times> int) list" where
  "parseWeights t =
     res_bind (map_res parse_weight (split_on (CHR '','') t)) (\<lambda>out.
     res_bind (ensure (length (remdups (map fst out)) = length out) sheet_error) (\<lambda>_.
     res_bind (ensure (sum_list (map Product_Type.snd out) = 10000) sheet_error) (\<lambda>_.
     Inr out)))"

definition weight_text :: "string \<times> int \<Rightarrow> string" where
  "weight_text w = (case w of (k, b) \<Rightarrow> k @ '':'' @ show_int b)"

definition LAUNCH_ROUTER_WEIGHTS_8453 :: string where
  "LAUNCH_ROUTER_WEIGHTS_8453 = join '','' (sort [''USDC:9500'', ''PROTO:500'', ''RWA:0''])"

section \<open>One vault\<close>

definition parse_basket :: "raw_sheet \<Rightarrow> string \<Rightarrow> SheetVault \<Rightarrow> failure + SheetVault" where
  "parse_basket v k vault =
     (case basketSheetNames k of
        [g, l] \<Rightarrow>
          res_bind (res_bind (line v g) asUint) (\<lambda>nav.
          res_bind (res_bind (line v l) asUint) (\<lambda>floor.
          res_bind (ensure (nav \<noteq> 0) sheet_error) (\<lambda>_.
          res_bind (ensure (\<not> nav > MAX_NAV_DEVIATION_BPS) sheet_error) (\<lambda>_.
          res_bind (ensure (floor \<noteq> 0) sheet_error) (\<lambda>_.
          res_bind (ensure (\<not> floor > MAX_POOL_LIQUIDITY) sheet_error) (\<lambda>_.
          Inr (vault\<lparr>sv_navDeviationBps := Some nav, sv_minPoolLiquidity := Some floor\<rparr>)))))))
      | _ \<Rightarrow> Inl sheet_error)"

definition parse_sheet_vault :: "raw_sheet \<Rightarrow> string \<Rightarrow> failure + string \<times> SheetVault" where
  "parse_sheet_vault v k =
     (case vaultSheetNames k of
        [t, p, f] \<Rightarrow>
          res_bind (res_bind (line v t) asUint) (\<lambda>tvlCap.
          res_bind (res_bind (line v p) asUint) (\<lambda>perDepositCap.
          res_bind (res_bind (line v f) asUint) (\<lambda>exitFeeBps.
          res_bind (ensure (tvlCap \<noteq> 0) sheet_error) (\<lambda>_.
          res_bind (ensure (\<not> perDepositCap > tvlCap) sheet_error) (\<lambda>_.
          res_bind (ensure (\<not> exitFeeBps > 10000) sheet_error) (\<lambda>_.
          let vault = \<lparr>sv_tvlCap = tvlCap, sv_perDepositCap = perDepositCap, sv_exitFeeBps = exitFeeBps,
                       sv_navDeviationBps = None, sv_minPoolLiquidity = None\<rparr> in
          res_bind (if k \<noteq> ''USDC'' then parse_basket v k vault else Inr vault) (\<lambda>x. Inr (k, x))))))))
      | _ \<Rightarrow> Inl sheet_error)"

section \<open>Values as written\<close>

definition address_kind :: "name_kind option \<Rightarrow> bool" where
  "address_kind k = (case k of Some KAddress \<Rightarrow> True | Some KAddressOrSafe \<Rightarrow> True | Some KAddressList \<Rightarrow> True | _ \<Rightarrow> False)"

definition sheet_value :: "safe_viem \<Rightarrow> string \<times> string \<Rightarrow> failure + string \<times> string" where
  "sheet_value V nv =
     (case nv of (n, v) \<Rightarrow>
        if address_kind (map_of SHEET_SPEC n) \<and> v \<noteq> ''@safe'' \<and> CHR '','' \<notin> set v
        then res_bind (of_option PlainError (getAddress V v)) (\<lambda>a. Inr (n, a)) else Inr (n, v))"

definition gateway_value :: "safe_viem \<Rightarrow> string \<times> string \<Rightarrow> failure + string \<times> string" where
  "gateway_value V nv =
     (case nv of (n, v) \<Rightarrow>
        if address_kind (map_of SHEET_SPEC n) then res_bind (of_option PlainError (getAddress V v)) (\<lambda>a. Inr (n, a)) else Inr (n, v))"

definition asKind :: "raw_sheet \<Rightarrow> failure + DeploymentKind" where
  "asKind v =
     (case map_of v ''DEPLOYMENT_KIND'' of
        None \<Rightarrow> Inr Production
      | Some k \<Rightarrow> if k = ''production'' then Inr Production else if k = ''rehearsal'' then Inr Rehearsal else Inl sheet_error)"

text \<open>The lines both kinds of sheet start with.\<close>

definition parse_chain :: "raw_sheet \<Rightarrow> failure + int" where
  "parse_chain v =
     res_bind (res_bind (line v ''CHAIN_ID'') asSafeInt) (\<lambda>chainId.
     res_bind (res_bind (line v ''EXPECTED_CHAIN_ID'') asSafeInt) (\<lambda>expected.
     res_bind (ensure (\<not> chainId \<le> 0) sheet_error) (\<lambda>_.
     res_bind (ensure (expected = chainId) sheet_error) (\<lambda>_.
     Inr chainId))))"

definition check_usdc :: "safe_viem \<Rightarrow> raw_sheet \<Rightarrow> failure + unit" where
  "check_usdc V v =
     (case map_of v ''USDC_ADDRESS'' of
        None \<Rightarrow> Inr ()
      | Some u \<Rightarrow> res_bind (asAddress V u) (\<lambda>a. ensure (lc a = lc USDC_ADDRESS) sheet_error))"

section \<open>The sheet of the vaults system\<close>

record sheet_roles =
  ro_admin :: string
  ro_pauser :: string
  ro_emergency :: string
  ro_shareReceiver :: string
  ro_receiptAdmin :: string
  ro_owners :: "string list"
  ro_threshold :: int

definition address_line :: "safe_viem \<Rightarrow> raw_sheet \<Rightarrow> string \<Rightarrow> failure + string" where
  "address_line V v n = res_bind (line v n) (asAddress V)"

definition parse_roles :: "safe_viem \<Rightarrow> raw_sheet \<Rightarrow> failure + sheet_roles" where
  "parse_roles V v =
     res_bind (address_line V v ''ADMIN_ADDRESS'') (\<lambda>admin.
     res_bind (address_line V v ''PAUSER_ADDRESS'') (\<lambda>pauser.
     res_bind (address_line V v ''EMERGENCY_ADDRESS'') (\<lambda>emergency.
     res_bind (address_line V v ''SHARE_RECEIVER_ADDRESS'') (\<lambda>receiver.
     res_bind (address_line V v ''RECEIPT_ADMIN_ADDRESS'') (\<lambda>receiptAdmin.
     res_bind (res_bind (line v ''SAFE_OWNERS'') (asList V)) (\<lambda>safeOwners.
     res_bind (res_bind (line v ''SAFE_THRESHOLD'') asSafeInt) (\<lambda>safeThreshold.
     res_bind (ensure (map_of v ''SAFE_VERSION'' = None \<or> map_of v ''SAFE_VERSION'' = Some ''1.4.1'') sheet_error) (\<lambda>_.
     Inr \<lparr>ro_admin = admin, ro_pauser = pauser, ro_emergency = emergency, ro_shareReceiver = receiver, ro_receiptAdmin = receiptAdmin,
          ro_owners = safeOwners, ro_threshold = safeThreshold\<rparr>))))))))"

definition check_roles :: "sheet_roles \<Rightarrow> failure + unit" where
  "check_roles r =
     (let n = int (length (ro_owners r)) in
      res_bind (ensure (lc (ro_receiptAdmin r) = lc (ro_admin r)) sheet_error) (\<lambda>_.
      res_bind (assertDistinct [] [ro_admin r, ro_pauser r, ro_emergency r]) (\<lambda>_.
      res_bind (assertDistinct [] (ro_owners r)) (\<lambda>_.
      res_bind (each_res (\<lambda>a. ensure (lc a \<notin> set [lc (ro_admin r), lc (ro_pauser r), lc (ro_emergency r)]) sheet_error) (ro_owners r)) (\<lambda>_.
      res_bind (ensure (\<not> n < 3) sheet_error) (\<lambda>_.
      ensure (\<not> (ro_threshold r < 2 \<or> ro_threshold r > n - 1)) sheet_error))))))"

definition parse_fee :: "safe_viem \<Rightarrow> raw_sheet \<Rightarrow> string \<Rightarrow> failure + fee_recipient" where
  "parse_fee V v admin =
     res_bind (line v ''FEE_RECIPIENT_ADDRESS'') (\<lambda>f.
     res_bind (if f = ''@safe'' then Inr AtSafe else res_bind (asAddress V f) (\<lambda>a. Inr (FeeTo a))) (\<lambda>fee.
     res_bind (ensure (case fee of AtSafe \<Rightarrow> True | FeeTo a \<Rightarrow> lc a \<noteq> lc admin) sheet_error) (\<lambda>_.
     Inr fee)))"

definition parse_delay :: "raw_sheet \<Rightarrow> DeploymentKind \<Rightarrow> failure + int" where
  "parse_delay v kind =
     res_bind (res_bind (line v ''TIMELOCK_MIN_DELAY'') asUint) (\<lambda>d.
     res_bind (ensure (\<not> d < 1) sheet_error) (\<lambda>_.
     res_bind (if kind = Rehearsal then
                 res_bind (ensure (rehearsalDelayProblem d = []) sheet_error) (\<lambda>_.
                 ensure (map_of v ''SAFE_SALT_NONCE'' \<noteq> None \<and> map_of v ''SAFE_SALT_NONCE'' \<noteq> Some []) sheet_error)
               else Inr ()) (\<lambda>_.
     Inr d)))"

text \<open>\<open>keys.sort().join(",")\<close>\<close>

definition sorted_text :: "string list \<Rightarrow> string" where
  "sorted_text ks = join '','' (sort ks)"

definition parse_router :: "js list \<Rightarrow> raw_sheet \<Rightarrow> int \<Rightarrow> failure + string list \<times> string list \<times> (string \<times> int) list" where
  "parse_router stage13 v chainId =
     res_bind (res_bind (line v ''ELIGIBLE_VAULTS'') asVaultKeys) (\<lambda>eligible.
     res_bind (ensure (''USDC'' \<notin> set eligible) sheet_error) (\<lambda>_.
     res_bind (res_bind (line v ''GOVERN_UNPAUSE_VAULTS'') asVaultKeys) (\<lambda>unpause.
     res_bind (ensure (\<not> (chainId = MAINNET_CHAIN_ID \<and> filter (\<lambda>k. k \<notin> set (map JStr unpause)) stage13 \<noteq> [])) sheet_error) (\<lambda>_.
     res_bind (res_bind (line v ''ROUTER_WEIGHTS'') parseWeights) (\<lambda>weights.
     res_bind (ensure (sorted_text (map fst weights) = sorted_text (''USDC'' # eligible)) sheet_error) (\<lambda>_.
     res_bind (ensure (\<not> (chainId = MAINNET_CHAIN_ID \<and> sorted_text (map weight_text weights) \<noteq> LAUNCH_ROUTER_WEIGHTS_8453)) sheet_error) (\<lambda>_.
     Inr (eligible, unpause, weights))))))))"

definition parse_new_delay :: "raw_sheet \<Rightarrow> DeploymentKind \<Rightarrow> failure + int" where
  "parse_new_delay v kind =
     res_bind (res_bind (line v ''GOVERN_NEW_DELAY'') asUint) (\<lambda>d.
     res_bind (ensure (\<not> (d < (if kind = Rehearsal then REHEARSAL_DELAY_FLOOR else 3600) \<or> d > 2592000)) sheet_error) (\<lambda>_.
     res_bind (if kind = Rehearsal then ensure (rehearsalDelayProblem d = []) sheet_error else Inr ()) (\<lambda>_.
     Inr d)))"

definition deadline_check :: "ParseSheetOpts \<Rightarrow> int \<Rightarrow> (int \<times> int) option" where
  "deadline_check opts minDelay =
     (if verb_in opts LEGACY_VAULT_NAME_VERBS \<or> po_verb opts = Some ''redeploy-vault'' then None else Some (minDelay, po_now opts))"

definition vaults_sheet :: "safe_viem \<Rightarrow> js list \<Rightarrow> ParseSheetOpts \<Rightarrow> raw_sheet \<Rightarrow> string list \<Rightarrow> raw_sheet \<Rightarrow> failure + full_sheet" where
  "vaults_sheet V stage13 opts written retired v =
     res_bind (parse_chain v) (\<lambda>chainId.
     res_bind (asKind v) (\<lambda>kind.
     res_bind (parse_roles V v) (\<lambda>r.
     res_bind (check_roles r) (\<lambda>_.
     res_bind (check_usdc V v) (\<lambda>_.
     res_bind (address_line V v ''SWAP_ROUTER'') (\<lambda>swapRouter.
     res_bind (parse_fee V v (ro_admin r)) (\<lambda>fee.
     res_bind (res_bind (line v ''SEED_DEPOSIT_USDC'') asUint) (\<lambda>seed.
     res_bind (ensure (seed \<noteq> 0) sheet_error) (\<lambda>_.
     res_bind (parse_delay v kind) (\<lambda>minDelay.
     res_bind (parseUpgrade v chainId kind (deadline_check opts minDelay)) (\<lambda>upgrade.
     res_bind (map_res (parse_sheet_vault v) VAULT_KEYS) (\<lambda>vaults.
     res_bind (parse_router stage13 v chainId) (\<lambda>(eligible, unpause, weights).
     res_bind (parse_new_delay v kind) (\<lambda>newDelay.
     res_bind (map_res (sheet_value V) written) (\<lambda>values.
     Inr \<lparr>sh_system = None, sh_chainId = chainId, sh_kind = kind, sh_timelockMinDelay = minDelay, sh_newDelay = newDelay,
          sf_gateway = None, sf_values = values, sf_expectedChainId = chainId, sf_admin = ro_admin r, sf_pauser = ro_pauser r,
          sf_emergency = ro_emergency r, sf_shareReceiver = ro_shareReceiver r, sf_receiptAdmin = ro_receiptAdmin r,
          sf_safeOwners = ro_owners r, sf_safeThreshold = ro_threshold r, sf_safeSalt = map_of v ''SAFE_SALT_NONCE'', sf_usdc = USDC_ADDRESS,
          sf_swapRouter = swapRouter, sf_feeRecipient = fee, sf_seedDeposit = seed, sf_upgrade = upgrade, sf_vaults = vaults,
          sf_eligibleVaults = eligible, sf_weights = weights, sf_unpauseVaults = unpause, sf_retiredVaults = retired\<rparr>)))))))))))))))"

section \<open>The sheet of the gateway system\<close>

definition gatewaySheet :: "safe_viem \<Rightarrow> raw_sheet \<Rightarrow> failure + full_sheet" where
  "gatewaySheet V v =
     res_bind (parse_chain v) (\<lambda>chainId.
     res_bind (asKind v) (\<lambda>kind.
     res_bind (address_line V v ''ADMIN_ADDRESS'') (\<lambda>admin.
     res_bind (address_line V v ''PAUSER_ADDRESS'') (\<lambda>pauser.
     res_bind (address_line V v ''SHARE_RECEIVER_ADDRESS'') (\<lambda>receiver.
     res_bind (address_line V v ''GATEWAY_ADMIN_ADDRESS'') (\<lambda>gatewayAdmin.
     res_bind (address_line V v ''GATEWAY_UPGRADE_TIMELOCK'') (\<lambda>upTimelock.
     res_bind (check_usdc V v) (\<lambda>_.
     res_bind (assertDistinct [] [admin, pauser]) (\<lambda>_.
     res_bind (ensure (lc gatewayAdmin \<noteq> lc admin) sheet_error) (\<lambda>_.
     res_bind (ensure (lc gatewayAdmin \<noteq> lc pauser) sheet_error) (\<lambda>_.
     res_bind (asUpgradeMode v) (\<lambda>mode.
     res_bind (map_res (gateway_value V) v) (\<lambda>values.
     Inr \<lparr>sh_system = Some Gateway, sh_chainId = chainId, sh_kind = kind, sh_timelockMinDelay = 0, sh_newDelay = 0,
          sf_gateway = Some (gatewayAdmin, upTimelock), sf_values = values, sf_expectedChainId = chainId, sf_admin = admin, sf_pauser = pauser,
          sf_emergency = zero_address, sf_shareReceiver = receiver, sf_receiptAdmin = zero_address,
          sf_safeOwners = [], sf_safeThreshold = 0, sf_safeSalt = None, sf_usdc = USDC_ADDRESS,
          sf_swapRouter = zero_address, sf_feeRecipient = AtSafe, sf_seedDeposit = 0, sf_upgrade = (mode, None), sf_vaults = [],
          sf_eligibleVaults = [], sf_weights = [], sf_unpauseVaults = [], sf_retiredVaults = []\<rparr>)))))))))))))"

definition parseSheet :: "safe_viem \<Rightarrow> js list \<Rightarrow> string \<Rightarrow> ParseSheetOpts \<Rightarrow> failure + full_sheet" where
  "parseSheet V stage13 t opts =
     (let gateway = (po_system opts = Some Gateway) in
      res_bind (parseSheetText t) (\<lambda>raw0.
      let written = dropLegacyVaultName raw0 opts in
      res_bind (if gateway then Inr (written, []) else takeRetiredVaultLines written opts) (\<lambda>(raw, retired).
      res_bind (checkNames raw gateway) (\<lambda>_.
      if gateway then gatewaySheet V raw else vaults_sheet V stage13 opts written retired raw))))"

section \<open>What a run reads from the sheet\<close>

definition names_of :: "full_sheet \<Rightarrow> full_sheet \<Rightarrow> string list" where
  "names_of a b = sort (remdups (map fst (sf_values a) @ map fst (sf_values b)))"

definition diffSheets :: "full_sheet \<Rightarrow> full_sheet \<Rightarrow> (string \<times> string option \<times> string option) list" where
  "diffSheets a b =
     map (\<lambda>n. (n, map_of (sf_values a) n, map_of (sf_values b) n))
         (filter (\<lambda>n. map_of (sf_values a) n \<noteq> map_of (sf_values b) n) (names_of a b))"

definition eligibleInOrder :: "full_sheet \<Rightarrow> string list" where
  "eligibleInOrder s = filter (\<lambda>k. k \<in> set (sf_eligibleVaults s)) BASKET_KEYS"

fun indexOf :: "'a \<Rightarrow> 'a list \<Rightarrow> nat option" where
  "indexOf x [] = None"
| "indexOf x (y # ys) = (if y = x then Some 0 else map_option Suc (indexOf x ys))"

definition add_first :: "int \<Rightarrow> int list \<Rightarrow> int list" where
  "add_first d xs = (case xs of [] \<Rightarrow> [] | x # r \<Rightarrow> (x + d) # r)"

definition weight_of :: "full_sheet \<Rightarrow> string \<Rightarrow> int" where
  "weight_of s k = (case map_of (sf_weights s) k of None \<Rightarrow> 0 | Some b \<Rightarrow> b)"

text \<open>
  The weights scaled to 10000, or an equal split of it. The source divides floating point numbers and rounds down; on
  weights of at most 10000 that is the integer quotient.
\<close>

definition scaled :: "int list \<Rightarrow> int list" where
  "scaled goal =
     (let n = int (length goal); whole = sum_list goal in
      if whole = 0 then map (\<lambda>j. 10000 div n + (if j = 0 then 10000 mod n else 0)) [0..<length goal]
      else map (\<lambda>x. x * 10000 div whole) goal)"

definition eligibilityBps :: "full_sheet \<Rightarrow> string \<Rightarrow> int list option" where
  "eligibilityBps s basket =
     (let eligible = eligibleInOrder s in
      case indexOf basket eligible of
        None \<Rightarrow> None
      | Some i \<Rightarrow>
          let goal = map (weight_of s) (take (i + 2) (''USDC'' # eligible)) in
          if i + 1 = length eligible then Some goal
          else let bps = scaled goal in Some (add_first (10000 - sum_list bps) bps))"

end
