(* ===== verification/SheetRules.thy ===== *)
theory SheetRules
  imports SheetParse
begin

text \<open>
  What holds of every sheet that parses: it is data and nothing else, its keys are separate, its vault and router lines are
  within their floors, and the lines of a retired vault change nothing but what they say.
\<close>

section \<open>A sheet is data\<close>

lemma fold_res_keeps:
  assumes "fold_res f s xs = Inr s'" "I s" and step: "\<And>s x s'. I s \<Longrightarrow> f s x = Inr s' \<Longrightarrow> I s'"
  shows "I s'"
  using assms(1,2)
proof (induction xs arbitrary: s)
  case (Cons x xs)
  then obtain s1 where "f s x = Inr s1" "fold_res f s1 xs = Inr s'" by auto
  with Cons.IH Cons.prems(2) step show ?case by blast
qed simp

definition plain_name :: "string \<Rightarrow> bool" where
  "plain_name n \<longleftrightarrow> n \<noteq> [] \<and> list_all is_word_char n \<and> \<not> is_digit (hd n)"

definition plain_lines :: "raw_sheet \<Rightarrow> bool" where
  "plain_lines raw \<longleftrightarrow> distinct (map fst raw) \<and>
     list_all (\<lambda>(n, v). plain_name n \<and> n \<notin> set object_prototype_keys \<and> list_all (\<lambda>c. c \<notin> set shell_chars) v) raw"

lemma name_value_plain_name: "name_value t = Some (n, v) \<Longrightarrow> plain_name n"
  by (auto simp: name_value_def Let_def plain_name_def list_all_iff dest: set_takeWhileD split: list.splits if_splits)

lemma sheet_line_plain: "plain_lines out \<Longrightarrow> sheet_line out l = Inr out' \<Longrightarrow> plain_lines out'"
  by (auto simp: sheet_line_def Let_def plain_lines_def name_value_plain_name split: if_splits)

lemma parseSheetText_plain: "parseSheetText t = Inr raw \<Longrightarrow> plain_lines raw"
  unfolding parseSheetText_def by (erule fold_res_keeps) (simp add: plain_lines_def, erule sheet_line_plain)

lemma del_names_plain: "plain_lines raw \<Longrightarrow> plain_lines (del_names ns raw)"
  by (auto simp: plain_lines_def del_names_def list_all_iff distinct_map_filter)

lemma del_names_fst [simp]: "map fst (del_names ns raw) = filter (\<lambda>n. n \<notin> set ns) (map fst raw)"
  by (induction raw) (auto simp: del_names_def)

lemma put_name_fst [simp]: "map fst (put_name n v raw) = map fst raw"
  by (induction raw) (auto simp: put_name_def)

lemma drop_key_fst [simp]: "map fst (drop_key k n raw) = map fst raw"
  by (simp add: drop_key_def Let_def split: option.splits)

lemma drop_leg_fst: "drop_leg k raw = Inr raw' \<Longrightarrow> map fst raw' = map fst raw"
  by (auto simp: drop_leg_def Let_def split: option.splits if_splits)

lemma take_retired_fst:
  "take_retired raw k = Inr raw' \<Longrightarrow> map fst raw' = filter (\<lambda>n. n \<notin> set (retiredVaultSheetNames k)) (map fst raw)"
  by (auto simp: take_retired_def Let_def dest!: drop_leg_fst)

text \<open>The names a follow-on verb may find beside the whitelist.\<close>

definition retired_names :: "ParseSheetOpts \<Rightarrow> string list" where
  "retired_names opts = (if verb_in opts RETIRED_VAULT_VERBS then concat (map retiredVaultSheetNames RETIRED_VAULT_KEYS) else [])"

lemma take_retired_keys_names:
  "take_retired_keys raw ks' = Inr (raw', ks) \<Longrightarrow> n \<in> set (map fst raw) \<Longrightarrow>
     n \<in> set (map fst raw') \<or> n \<in> set (concat (map retiredVaultSheetNames ks'))"
proof (induction ks' arbitrary: raw ks)
  case (Cons k ks')
  show ?case
  proof (cases "list_ex (\<lambda>n. map_of raw n \<noteq> None) (retiredVaultSheetNames k)")
    case True
    with Cons.prems(1) obtain raw1 out where r: "take_retired raw k = Inr raw1" "take_retired_keys raw1 ks' = Inr (raw', out)" by auto
    have "n \<in> set (map fst raw1) \<or> n \<in> set (retiredVaultSheetNames k)" using Cons.prems(2) by (simp add: take_retired_fst [OF r(1)] del: set_map)
    with Cons.IH [OF r(2)] show ?thesis by (auto simp del: set_map)
  next
    case False
    with Cons show ?thesis by (auto simp del: set_map)
  qed
qed simp

lemma takeRetired_names:
  assumes "takeRetiredVaultLines raw opts = Inr (raw', ks)" "n \<in> set (map fst raw)"
  shows "n \<in> set (map fst raw') \<or> n \<in> set (retired_names opts)"
  using assms take_retired_keys_names [of raw RETIRED_VAULT_KEYS raw' ks n]
  by (auto simp: retired_names_def takeRetiredVaultLines_def simp del: set_map split: if_splits)

lemma map_res_fst:
  assumes "map_res f xs = Inr ys" "\<And>x y. f x = Inr y \<Longrightarrow> fst y = fst x" shows "map fst ys = map fst xs"
  using assms(1) by (induction xs arbitrary: ys) (auto dest: assms(2))

lemma map_res_mem: "map_res f xs = Inr ys \<Longrightarrow> y \<in> set ys \<Longrightarrow> \<exists>x\<in>set xs. f x = Inr y"
  by (induction xs arbitrary: ys) auto

lemma value_fst: "sheet_value V x = Inr y \<Longrightarrow> fst y = fst x" "gateway_value V x = Inr y \<Longrightarrow> fst y = fst x"
  by (auto simp: sheet_value_def gateway_value_def split: prod.splits if_splits)

lemma values_fst:
  "map_res (sheet_value V) raw = Inr vs \<or> map_res (gateway_value V) raw = Inr vs \<Longrightarrow> map fst vs = map fst raw"
  using map_res_fst [of "sheet_value V" raw vs] map_res_fst [of "gateway_value V" raw vs] value_fst by metis

lemma value_snd:
  "sheet_value V x = Inr y \<or> gateway_value V x = Inr y \<Longrightarrow>
     Product_Type.snd y = Product_Type.snd x \<or> getAddress V (Product_Type.snd x) = Some (Product_Type.snd y)"
  by (auto simp: sheet_value_def gateway_value_def split: prod.splits if_splits)

lemma hex_no_shell: "hex_prefixed a \<Longrightarrow> list_all (\<lambda>c. c \<notin> set shell_chars) a"
proof -
  assume h: "hex_prefixed a"
  have "list_all (\<lambda>c. c \<notin> set shell_chars) ''0x''" by code_simp
  moreover have "is_hex_char c \<Longrightarrow> c \<notin> set shell_chars" for c by (auto simp: shell_chars_def is_hex_char_def is_digit_def)
  ultimately have "list_all (\<lambda>c. c \<notin> set shell_chars) (take 2 a @ drop 2 a)" using h by (auto simp: hex_prefixed_def list_all_iff)
  then show ?thesis by simp
qed

text \<open>The lines a sheet keeps are those of its text, less the name of the old fragment.\<close>

lemma parseSheet_values:
  assumes "parseSheet V stage13 t opts = Inr s"
  obtains raw0 where "parseSheetText t = Inr raw0"
    "map_res (sheet_value V) (dropLegacyVaultName raw0 opts) = Inr (sf_values s) \<or> map_res (gateway_value V) (dropLegacyVaultName raw0 opts) = Inr (sf_values s)"
    "\<forall>n\<in>set (map fst (dropLegacyVaultName raw0 opts)). (\<exists>g. check_name g n = Inr ()) \<or> n \<in> set (retired_names opts)"
proof -
  from assms obtain raw0 raw retired where p: "parseSheetText t = Inr raw0"
    and r: "(if po_system opts = Some Gateway then Inr (dropLegacyVaultName raw0 opts, []) else takeRetiredVaultLines (dropLegacyVaultName raw0 opts) opts) = Inr (raw, retired)"
    and c: "checkNames raw (po_system opts = Some Gateway) = Inr ()"
    and v: "(if po_system opts = Some Gateway then gatewaySheet V raw else vaults_sheet V stage13 opts (dropLegacyVaultName raw0 opts) retired raw) = Inr s"
    by (auto simp: parseSheet_def Let_def)
  have c': "check_name (po_system opts = Some Gateway) n = Inr ()" if "n \<in> set (map fst raw)" for n
    using c that by (auto simp: checkNames_def simp del: set_map)
  have n: "(\<exists>g. check_name g n = Inr ()) \<or> n \<in> set (retired_names opts)" if "n \<in> set (map fst (dropLegacyVaultName raw0 opts))" for n
  proof (cases "po_system opts = Some Gateway")
    case True
    with r that c' show ?thesis by (auto simp del: set_map)
  next
    case False
    with r have "takeRetiredVaultLines (dropLegacyVaultName raw0 opts) opts = Inr (raw, retired)" by simp
    from takeRetired_names [OF this that] c' show ?thesis by blast
  qed
  have "map_res (sheet_value V) (dropLegacyVaultName raw0 opts) = Inr (sf_values s) \<or> map_res (gateway_value V) (dropLegacyVaultName raw0 opts) = Inr (sf_values s)"
    using v r by (auto simp: vaults_sheet_def gatewaySheet_def split: if_splits prod.splits)
  with p n that show ?thesis by blast
qed

lemma retired_not_refused: "n \<in> set (retired_names opts) \<Longrightarrow> \<not> REFUSED_NAME n"
proof -
  have "list_all (\<lambda>n. \<not> REFUSED_NAME n) (concat (map retiredVaultSheetNames RETIRED_VAULT_KEYS))" by code_simp
  then show "n \<in> set (retired_names opts) \<Longrightarrow> \<not> REFUSED_NAME n" by (auto simp: retired_names_def list_all_iff split: if_splits)
qed

lemma values_plain:
  assumes "strict_address_laws V" "plain_lines raw" "map_res (sheet_value V) raw = Inr vs \<or> map_res (gateway_value V) raw = Inr vs"
  shows "plain_lines vs"
proof -
  have f: "map fst vs = map fst raw" using assms(3) by (rule values_fst)
  have "plain_name n \<and> n \<notin> set object_prototype_keys \<and> list_all (\<lambda>c. c \<notin> set shell_chars) v" if nv: "(n, v) \<in> set vs" for n v
  proof -
    obtain x where x: "x \<in> set raw" "sheet_value V x = Inr (n, v) \<or> gateway_value V x = Inr (n, v)"
      using assms(3)
    proof
      assume "map_res (sheet_value V) raw = Inr vs"
      from map_res_mem [OF this nv] that show ?thesis by blast
    next
      assume "map_res (gateway_value V) raw = Inr vs"
      from map_res_mem [OF this nv] that show ?thesis by blast
    qed
    then have "fst x = n" using value_fst(1) [of V x "(n, v)"] value_fst(2) [of V x "(n, v)"] by auto
    moreover have x': "plain_name (fst x) \<and> fst x \<notin> set object_prototype_keys \<and> list_all (\<lambda>c. c \<notin> set shell_chars) (Product_Type.snd x)"
      using x(1) assms(2) unfolding plain_lines_def list_all_iff by fastforce
    moreover have "list_all (\<lambda>c. c \<notin> set shell_chars) v"
      using value_snd [OF x(2)]
    proof
      assume "getAddress V (Product_Type.snd x) = Some (Product_Type.snd (n, v))"
      then have "getAddress V v = Some v" using getAddress_stable(1) [OF assms(1)] by simp
      then have "isAddress V v" by (simp add: getAddress_def split: if_splits)
      then have "hex_of_len 40 v" using assms(1) unfolding strict_address_laws_def by blast
      then show ?thesis using hex_no_shell by (simp add: hex_of_len_def)
    qed (use x' in simp)
    ultimately show ?thesis using x' by simp
  qed
  with assms(2) show ?thesis by (auto simp: plain_lines_def list_all_iff f)
qed

text \<open>
  C21. A sheet is data and nothing else. When a text parses as a sheet, of either system and for any verb, no line is
  given twice; every name is on the whitelist, or is a line of a retired vault that the verb may read; none of the refused names is
  there, so no secret, no confirmation, no RPC and no address a stage produces; and no value kept holds a character a
  shell would act on.
\<close>

theorem sheet_is_data:
  assumes "strict_address_laws V" "parseSheet V stage13 t opts = Inr s"
  shows "distinct (map fst (sf_values s)) \<and>
    list_all (\<lambda>(n, v). \<not> REFUSED_NAME n \<and> \<not> secret_name n \<and> (n \<in> set (map fst SHEET_SPEC) \<or> n \<in> set (retired_names opts)) \<and>
                       list_all (\<lambda>c. c \<notin> set shell_chars) v) (sf_values s)"
proof -
  from assms(2) obtain raw0 where raw: "parseSheetText t = Inr raw0"
    and v: "map_res (sheet_value V) (dropLegacyVaultName raw0 opts) = Inr (sf_values s) \<or> map_res (gateway_value V) (dropLegacyVaultName raw0 opts) = Inr (sf_values s)"
    and n: "\<forall>n\<in>set (map fst (dropLegacyVaultName raw0 opts)). (\<exists>g. check_name g n = Inr ()) \<or> n \<in> set (retired_names opts)"
    by (rule parseSheet_values)
  have "plain_lines (dropLegacyVaultName raw0 opts)"
    using parseSheetText_plain [OF raw] by (simp add: dropLegacyVaultName_def del_names_plain)
  from values_plain [OF assms(1) this v] have plain: "plain_lines (sf_values s)" .
  have f: "map fst (sf_values s) = map fst (dropLegacyVaultName raw0 opts)"
    using v by (rule values_fst)
  have "\<not> REFUSED_NAME m \<and> (m \<in> set (map fst SHEET_SPEC) \<or> m \<in> set (retired_names opts))" if m: "(m, x) \<in> set (sf_values s)" for m x
  proof -
    have "m \<in> set (map fst (sf_values s))" using m by force
    then have "(\<exists>g. check_name g m = Inr ()) \<or> m \<in> set (retired_names opts)" using n unfolding f by blast
    moreover have "m \<notin> set object_prototype_keys" using plain m by (auto simp: plain_lines_def list_all_iff)
    ultimately show ?thesis using retired_not_refused by (auto simp: check_name_def simp del: set_map)
  qed
  moreover have "\<not> REFUSED_NAME m \<Longrightarrow> \<not> secret_name m" for m by (simp add: REFUSED_NAME_def)
  ultimately show ?thesis using plain by (auto simp: plain_lines_def list_all_iff simp del: set_map)
qed

section \<open>Shapes of the lines\<close>

lemma assertDistinct_Inr [simp]: "assertDistinct seen as = Inr u \<longleftrightarrow> distinct (map lc as) \<and> set (map lc as) \<inter> set seen = {}"
  by (induction as arbitrary: seen) auto

declare assertDistinct.simps [simp del]

lemma vault_key_loop_Inr [simp]:
  "vault_key_loop seen ks = Inr u \<longleftrightarrow> distinct ks \<and> set ks \<inter> set seen = {} \<and> set ks \<subseteq> set VAULT_KEYS"
  by (induction ks arbitrary: seen) auto

lemma asUint_pos: "asUint v = Inr n \<Longrightarrow> 0 \<le> n"
  by (auto simp: asUint_def split: if_splits)

lemma asVaultKeys_Inr: "asVaultKeys v = Inr ks \<Longrightarrow> distinct ks \<and> set ks \<subseteq> set VAULT_KEYS"
  by (auto simp: asVaultKeys_def Let_def split: if_splits)

lemma parse_weight_Inr: "parse_weight p = Inr w \<Longrightarrow> fst w \<in> set VAULT_KEYS \<and> 0 \<le> Product_Type.snd w"
  unfolding parse_weight_def Let_def by (cases "dropWhile is_upper (trim p)") (simp_all split: if_splits, metis fst_conv snd_conv of_nat_0_le_iff)

lemma parseWeights_Inr:
  assumes "parseWeights t = Inr ws"
  shows "distinct (map fst ws)" "set (map fst ws) \<subseteq> set VAULT_KEYS" "sum_list (map Product_Type.snd ws) = 10000" "\<forall>b\<in>set (map Product_Type.snd ws). 0 \<le> b"
proof -
  from assms have m: "map_res parse_weight (split_on (CHR '','') t) = Inr ws" and d: "length (remdups (map fst ws)) = length ws"
    and s: "sum_list (map Product_Type.snd ws) = 10000" by (auto simp: parseWeights_def)
  show "distinct (map fst ws)" using d length_remdups_card_conv [of "map fst ws"] by (intro card_distinct) simp
  have "fst w \<in> set VAULT_KEYS \<and> 0 \<le> Product_Type.snd w" if "w \<in> set ws" for w
    using map_res_mem [OF m that] parse_weight_Inr by blast
  then show "set (map fst ws) \<subseteq> set VAULT_KEYS" "\<forall>b\<in>set (map Product_Type.snd ws). 0 \<le> b" by auto
  show "sum_list (map Product_Type.snd ws) = 10000" by (fact s)
qed

lemma sorted_text_inject:
  assumes "sorted_text xs = sorted_text ys" "\<forall>x\<in>set xs. CHR '','' \<notin> set x" "\<forall>y\<in>set ys. CHR '','' \<notin> set y" "xs \<noteq> []" "ys \<noteq> []"
  shows "mset xs = mset ys"
proof -
  have nil: "sort zs = [] \<longleftrightarrow> zs = []" for zs :: "string list" by (metis length_0_conv length_sort)
  have "split_on (CHR '','') (join '','' (sort xs)) = sort xs" "split_on (CHR '','') (join '','' (sort ys)) = sort ys"
    using assms(2-5) nil by (auto intro!: split_on_join)
  with arg_cong [OF assms(1) [unfolded sorted_text_def], of "split_on (CHR '','')"] have "sort xs = sort ys" by (simp only:)
  then have "mset (sort xs) = mset (sort ys)" by (rule arg_cong)
  then show ?thesis by simp
qed

lemma vault_keys_plain: "k \<in> set VAULT_KEYS \<Longrightarrow> CHR '','' \<notin> set k"
  by (auto simp: VAULT_KEYS_def)

section \<open>A well-formed sheet\<close>

definition basket_wf :: "SheetVault \<Rightarrow> bool" where
  "basket_wf x \<longleftrightarrow> (\<exists>nav floor. sv_navDeviationBps x = Some nav \<and> sv_minPoolLiquidity x = Some floor \<and>
     0 < nav \<and> nav \<le> 2000 \<and> 0 < floor \<and> floor < 2 ^ 128)"

definition vault_wf :: "string \<Rightarrow> SheetVault \<Rightarrow> bool" where
  "vault_wf k x \<longleftrightarrow> 0 < sv_tvlCap x \<and> 0 \<le> sv_perDepositCap x \<and> sv_perDepositCap x \<le> sv_tvlCap x \<and>
     0 \<le> sv_exitFeeBps x \<and> sv_exitFeeBps x \<le> 10000 \<and> (k \<noteq> ''USDC'' \<longrightarrow> basket_wf x)"

definition keys_wf :: "full_sheet \<Rightarrow> bool" where
  "keys_wf s \<longleftrightarrow> distinct (map lc ([sf_admin s, sf_pauser s, sf_emergency s] @ sf_safeOwners s)) \<and>
     lc (sf_receiptAdmin s) = lc (sf_admin s) \<and> 2 \<le> sf_safeThreshold s \<and> sf_safeThreshold s < int (length (sf_safeOwners s)) \<and>
     (\<forall>a. sf_feeRecipient s = FeeTo a \<longrightarrow> lc a \<noteq> lc (sf_admin s))"

definition router_wf :: "full_sheet \<Rightarrow> bool" where
  "router_wf s \<longleftrightarrow> distinct (map fst (sf_weights s)) \<and> set (map fst (sf_weights s)) = insert ''USDC'' (set (sf_eligibleVaults s)) \<and>
     set (sf_eligibleVaults s) \<subseteq> set BASKET_KEYS \<and> distinct (sf_eligibleVaults s) \<and>
     (\<forall>b\<in>set (map Product_Type.snd (sf_weights s)). 0 \<le> b) \<and> sum_list (map Product_Type.snd (sf_weights s)) = 10000"

definition delays_wf :: "full_sheet \<Rightarrow> bool" where
  "delays_wf s \<longleftrightarrow>
     (case sh_kind s of
        Production \<Rightarrow> 1 \<le> sh_timelockMinDelay s \<and> 3600 \<le> sh_newDelay s \<and> sh_newDelay s \<le> 2592000
      | Rehearsal \<Rightarrow> 900 \<le> sh_timelockMinDelay s \<and> sh_timelockMinDelay s < 172800 \<and> 900 \<le> sh_newDelay s \<and> sh_newDelay s < 172800
                     \<and> sf_safeSalt s \<noteq> None)"

definition sheet_wf :: "full_sheet \<Rightarrow> bool" where
  "sheet_wf s \<longleftrightarrow> 0 < sh_chainId s \<and> sf_expectedChainId s = sh_chainId s \<and> keys_wf s \<and> 0 < sf_seedDeposit s \<and>
     map fst (sf_vaults s) = VAULT_KEYS \<and> list_all (\<lambda>(k, x). vault_wf k x) (sf_vaults s) \<and> router_wf s \<and> delays_wf s"

lemma check_roles_Inr:
  assumes "check_roles r = Inr ()"
  shows "distinct (map lc ([ro_admin r, ro_pauser r, ro_emergency r] @ ro_owners r)) \<and> lc (ro_receiptAdmin r) = lc (ro_admin r)
    \<and> 2 \<le> ro_threshold r \<and> ro_threshold r < int (length (ro_owners r))"
  using assms by (auto simp: check_roles_def Let_def)

lemma parse_basket_Inr: "parse_basket v k x = Inr y \<Longrightarrow> basket_wf y \<and> sv_tvlCap y = sv_tvlCap x \<and> sv_perDepositCap y = sv_perDepositCap x \<and> sv_exitFeeBps y = sv_exitFeeBps x"
  unfolding parse_basket_def basket_wf_def
  by (auto simp: MAX_NAV_DEVIATION_BPS_def MAX_POOL_LIQUIDITY_def dest!: asUint_pos split: list.splits)

lemma parse_vault_Inr:
  assumes "parse_sheet_vault v k = Inr y" shows "fst y = k \<and> vault_wf k (Product_Type.snd y)"
proof -
  from assms obtain t p f x where n: "0 \<le> t" "0 \<le> p" "0 \<le> f" "t \<noteq> 0" "p \<le> t" "f \<le> 10000" and y: "y = (k, x)"
    and x: "(if k \<noteq> ''USDC'' then parse_basket v k \<lparr>sv_tvlCap = t, sv_perDepositCap = p, sv_exitFeeBps = f, sv_navDeviationBps = None, sv_minPoolLiquidity = None\<rparr>
       else Inr \<lparr>sv_tvlCap = t, sv_perDepositCap = p, sv_exitFeeBps = f, sv_navDeviationBps = None, sv_minPoolLiquidity = None\<rparr>) = Inr x"
    by (auto simp: parse_sheet_vault_def vaultSheetNames_def Let_def dest!: asUint_pos)
  show ?thesis using n x by (auto simp: y vault_wf_def dest!: parse_basket_Inr split: if_splits)
qed

lemma parse_vaults_Inr:
  assumes "map_res (parse_sheet_vault v) ks = Inr vs" shows "map fst vs = ks \<and> list_all (\<lambda>(k, x). vault_wf k x) vs"
  using assms by (induction ks arbitrary: vs) (auto dest!: parse_vault_Inr)

lemma parse_router_Inr:
  assumes "parse_router stage13 v chainId = Inr (elig, unpause, weights)"
  shows "distinct (map fst weights)" "set (map fst weights) = insert ''USDC'' (set elig)" "set elig \<subseteq> set BASKET_KEYS" "distinct elig"
    "\<forall>b\<in>set (map Product_Type.snd weights). 0 \<le> b" "sum_list (map Product_Type.snd weights) = 10000"
    "chainId = MAINNET_CHAIN_ID \<Longrightarrow> set stage13 \<subseteq> JStr ` set unpause"
    "chainId = MAINNET_CHAIN_ID \<Longrightarrow> sorted_text (map weight_text weights) = LAUNCH_ROUTER_WEIGHTS_8453"
proof -
  from assms obtain wt et where w: "parseWeights wt = Inr weights" and e: "asVaultKeys et = Inr elig" "''USDC'' \<notin> set elig"
    and s: "sorted_text (map fst weights) = sorted_text (''USDC'' # elig)"
    by (auto simp: parse_router_def)
  show "distinct (map fst weights)" "\<forall>b\<in>set (map Product_Type.snd weights). 0 \<le> b" "sum_list (map Product_Type.snd weights) = 10000"
    using parseWeights_Inr [OF w] by simp_all
  have el: "set elig \<subseteq> set VAULT_KEYS" "distinct elig" using asVaultKeys_Inr [OF e(1)] by auto
  then show "distinct elig" "set elig \<subseteq> set BASKET_KEYS" using e(2) by (auto simp: VAULT_KEYS_def BASKET_KEYS_def)
  have "weights \<noteq> []" using parseWeights_Inr(3) [OF w] by auto
  then have "mset (map fst weights) = mset (''USDC'' # elig)"
    using s el parseWeights_Inr(2) [OF w] vault_keys_plain by (intro sorted_text_inject) (auto simp: VAULT_KEYS_def)
  then show "set (map fst weights) = insert ''USDC'' (set elig)" by (metis list.simps(15) set_mset_mset)
  show "set stage13 \<subseteq> JStr ` set unpause" if "chainId = MAINNET_CHAIN_ID"
    using assms that by (auto simp: parse_router_def filter_empty_conv)
  show "sorted_text (map weight_text weights) = LAUNCH_ROUTER_WEIGHTS_8453" if "chainId = MAINNET_CHAIN_ID"
    using assms that by (auto simp: parse_router_def)
qed

lemma vaults_sheet_Inr:
  assumes "vaults_sheet V stage13 opts written retired v = Inr s"
  shows "sheet_wf s" "sh_system s = None"
    and "parse_router stage13 v (sh_chainId s) = Inr (sf_eligibleVaults s, sf_unpauseVaults s, sf_weights s)"
    and "parseUpgrade v (sh_chainId s) (sh_kind s) (deadline_check opts (sh_timelockMinDelay s)) = Inr (sf_upgrade s)"
proof -
  from assms obtain r where r: "check_roles r = Inr ()" "sf_admin s = ro_admin r" "sf_pauser s = ro_pauser r" "sf_emergency s = ro_emergency r"
      "sf_receiptAdmin s = ro_receiptAdmin r" "sf_safeOwners s = ro_owners r" "sf_safeThreshold s = ro_threshold r"
    and fee: "parse_fee V v (ro_admin r) = Inr (sf_feeRecipient s)" and chain: "parse_chain v = Inr (sh_chainId s)" "sf_expectedChainId s = sh_chainId s"
    and seed: "0 \<le> sf_seedDeposit s" "sf_seedDeposit s \<noteq> 0" and delay: "parse_delay v (sh_kind s) = Inr (sh_timelockMinDelay s)"
    and vaults: "map_res (parse_sheet_vault v) VAULT_KEYS = Inr (sf_vaults s)" and new: "parse_new_delay v (sh_kind s) = Inr (sh_newDelay s)"
    and salt: "sf_safeSalt s = map_of v ''SAFE_SALT_NONCE''" and sys: "sh_system s = None"
    and router: "parse_router stage13 v (sh_chainId s) = Inr (sf_eligibleVaults s, sf_unpauseVaults s, sf_weights s)"
    and up: "parseUpgrade v (sh_chainId s) (sh_kind s) (deadline_check opts (sh_timelockMinDelay s)) = Inr (sf_upgrade s)"
    by (auto simp: vaults_sheet_def dest!: asUint_pos split: prod.splits)
  show "sh_system s = None" by (fact sys)
  show "parse_router stage13 v (sh_chainId s) = Inr (sf_eligibleVaults s, sf_unpauseVaults s, sf_weights s)" by (fact router)
  show "parseUpgrade v (sh_chainId s) (sh_kind s) (deadline_check opts (sh_timelockMinDelay s)) = Inr (sf_upgrade s)" by (fact up)
  have "keys_wf s"
    using check_roles_Inr [OF r(1)] fee by (auto simp: keys_wf_def r(2-) parse_fee_def split: fee_recipient.splits if_splits)
  moreover have "router_wf s" unfolding router_wf_def using parse_router_Inr(1-6) [OF router] by blast
  moreover have "delays_wf s"
    using delay new by (cases "sh_kind s") (auto simp: delays_wf_def parse_delay_def parse_new_delay_def salt REHEARSAL_DELAY_FLOOR_def MAINNET_DELAY_FLOOR_def)
  moreover have "0 < sh_chainId s" using chain by (auto simp: parse_chain_def)
  ultimately show "sheet_wf s" using parse_vaults_Inr [OF vaults] seed chain(2) by (simp add: sheet_wf_def)
qed

lemma parseSheet_vaults:
  assumes "parseSheet V stage13 t opts = Inr s" "po_system opts \<noteq> Some Gateway"
  obtains written retired v where "vaults_sheet V stage13 opts written retired v = Inr s"
  using assms by (auto simp: parseSheet_def Let_def)

text \<open>
  C20. Every sheet of the vaults system that parses is well formed, whatever its text: the deployer, the pauser, the
  emergency key and all Safe owners are pairwise different, the threshold is from 2 to one less than the owners, and the fee never goes
  to the deployer; each vault has a TVL cap above its per-deposit cap and an exit fee of at most 100 percent, each basket a
  price guard and a pool floor that are neither off nor out of range; the router weights name rmUSDC and each eligible basket
  once and sum to 10000; and the delays fit the kind of the deployment.
\<close>

theorem parsed_sheet_wf:
  assumes "parseSheet V stage13 t opts = Inr s" "po_system opts \<noteq> Some Gateway"
  shows "sheet_wf s"
proof (rule parseSheet_vaults [OF assms])
qed (rule vaults_sheet_Inr(1))

lemma parseUpgrade_deadline:
  assumes "parseUpgrade v chainId kind check = Inr (mode, d)"
  shows "mode = Upgradeable \<Longrightarrow> chainId = MAINNET_CHAIN_ID \<Longrightarrow> kind = Production \<Longrightarrow> d \<noteq> None"
    and "d = Some x \<Longrightarrow> mode = Upgradeable \<and> iso_seconds (deadline_seconds x) = Some x"
    and "d = Some x \<Longrightarrow> check = Some (minDelay, nowMs) \<Longrightarrow> nowMs + minDelay * 1000 + 86400000 \<le> 1000 * deadline_seconds x"
  using assms by (cases mode; auto simp: parseUpgrade_def split: option.splits if_splits)+

lemma weight_text_plain: "k \<in> set VAULT_KEYS \<Longrightarrow> CHR '','' \<notin> set (weight_text (k, b))"
proof -
  have "CHR '','' \<notin> set (show_nat n)" for n
  proof
    assume c: "CHR '','' \<in> set (show_nat n)"
    have "is_digit (CHR '','')" using bspec [OF show_nat_digits [of n, unfolded list_all_iff] c] .
    then show False by code_simp
  qed
  then show "k \<in> set VAULT_KEYS \<Longrightarrow> CHR '','' \<notin> set (weight_text (k, b))"
    using vault_keys_plain [of k] by (simp add: weight_text_def show_int_def)
qed

lemma weight_text_inject:
  assumes "k \<in> set VAULT_KEYS" "k' \<in> set VAULT_KEYS" "weight_text (k, b) = weight_text (k', b')" "0 \<le> b" "0 \<le> b'"
  shows "k = k' \<and> b = b'"
proof -
  have "k = k'" using assms(1-3) by (auto simp: VAULT_KEYS_def weight_text_def)
  with assms(3-5) show ?thesis by (simp add: weight_text_def show_int_def)
qed

definition launch_weights :: "(string \<times> int) list" where
  "launch_weights = [(''USDC'', 9500), (''PROTO'', 500), (''RWA'', 0)]"

lemma launch_text: "LAUNCH_ROUTER_WEIGHTS_8453 = sorted_text (map weight_text launch_weights)"
  by code_simp

lemma launch_keys: "\<forall>w\<in>set launch_weights. fst w \<in> set VAULT_KEYS \<and> 0 \<le> Product_Type.snd w"
  by (simp add: launch_weights_def VAULT_KEYS_def)

lemma launch_only:
  assumes "sorted_text (map weight_text ws) = LAUNCH_ROUTER_WEIGHTS_8453" "\<forall>w\<in>set ws. fst w \<in> set VAULT_KEYS \<and> 0 \<le> Product_Type.snd w" "ws \<noteq> []"
  shows "set ws = set launch_weights"
proof -
  let ?D = "{w. fst w \<in> set VAULT_KEYS \<and> 0 \<le> Product_Type.snd w}"
  have plain: "\<forall>x\<in>set (map weight_text xs). CHR '','' \<notin> set x" if "set xs \<subseteq> ?D" for xs
    using that weight_text_plain by fastforce
  have sub: "set ws \<subseteq> ?D" "set launch_weights \<subseteq> ?D" using assms(2) launch_keys by auto
  have "mset (map weight_text ws) = mset (map weight_text launch_weights)"
    using assms(1,3) plain [OF sub(1)] plain [OF sub(2)] unfolding launch_text by (intro sorted_text_inject) (auto simp: launch_weights_def)
  then have "weight_text ` set ws = weight_text ` set launch_weights" by (metis set_map set_mset_mset)
  moreover have "inj_on weight_text ?D"
  proof (rule inj_onI)
    fix x y assume "x \<in> ?D" "y \<in> ?D" "weight_text x = weight_text y"
    then show "x = y" using weight_text_inject [of "fst x" "fst y" "Product_Type.snd x" "Product_Type.snd y"] by (simp add: prod_eq_iff)
  qed
  ultimately show ?thesis using inj_on_image_eq_iff [OF _ sub] by blast
qed

text \<open>
  A sheet for Base mainnet launches what was decided: the router weights are 9500 for rmUSDC, 500 for rmPROTO and 0
  for rmRWA; every vault that stage 13 opens is listed to be unpaused; and an upgradeable production release names the time by which
  its proxies are frozen, which in a deploy run leaves the timelock delay and a day.
\<close>

theorem mainnet_sheet_launches:
  assumes "parseSheet V stage13 t opts = Inr s" "po_system opts \<noteq> Some Gateway" "sh_chainId s = 8453"
  shows "set (sf_weights s) = {(''USDC'', 9500), (''PROTO'', 500), (''RWA'', 0)} \<and>
    set stage13 \<subseteq> JStr ` set (sf_unpauseVaults s) \<and>
    (sh_kind s = Production \<longrightarrow> fst (sf_upgrade s) = Upgradeable \<longrightarrow>
       (\<exists>d. Product_Type.snd (sf_upgrade s) = Some d \<and> iso_seconds (deadline_seconds d) = Some d \<and>
            (po_verb opts = None \<longrightarrow> po_now opts + sh_timelockMinDelay s * 1000 + 86400000 \<le> 1000 * deadline_seconds d)))"
proof (rule parseSheet_vaults [OF assms(1,2)])
  fix written retired v assume v: "vaults_sheet V stage13 opts written retired v = Inr s"
  note router = parse_router_Inr [OF vaults_sheet_Inr(3) [OF v]]
  have m: "sh_chainId s = MAINNET_CHAIN_ID" using assms(3) by (simp add: MAINNET_CHAIN_ID_def)
  have wf: "router_wf s" using vaults_sheet_Inr(1) [OF v] by (simp add: sheet_wf_def)
  have "set (map fst (sf_weights s)) \<subseteq> set VAULT_KEYS"
    using wf by (auto simp: router_wf_def VAULT_KEYS_def BASKET_KEYS_def)
  moreover have "\<forall>b\<in>set (map Product_Type.snd (sf_weights s)). 0 \<le> b" using wf unfolding router_wf_def by blast
  ultimately have "\<forall>w\<in>set (sf_weights s). fst w \<in> set VAULT_KEYS \<and> 0 \<le> Product_Type.snd w" by (simp add: image_subset_iff)
  moreover have "sf_weights s \<noteq> []" using wf by (auto simp: router_wf_def)
  ultimately have w: "set (sf_weights s) = {(''USDC'', 9500), (''PROTO'', 500), (''RWA'', 0)}"
    using launch_only [OF router(8) [OF m]] by (simp add: launch_weights_def)
  obtain mode d where md: "sf_upgrade s = (mode, d)" by (cases "sf_upgrade s")
  note up = parseUpgrade_deadline [OF vaults_sheet_Inr(4) [OF v, unfolded md]]
  have "deadline_check opts (sh_timelockMinDelay s) = Some (sh_timelockMinDelay s, po_now opts)" if "po_verb opts = None"
    using that by (simp add: deadline_check_def verb_in_def LEGACY_VAULT_NAME_VERBS_def)
  with up md m have "\<exists>d. Product_Type.snd (sf_upgrade s) = Some d \<and> iso_seconds (deadline_seconds d) = Some d \<and>
      (po_verb opts = None \<longrightarrow> po_now opts + sh_timelockMinDelay s * 1000 + 86400000 \<le> 1000 * deadline_seconds d)"
    if "sh_kind s = Production" "fst (sf_upgrade s) = Upgradeable" using that by auto
  with w router(7) [OF m] show ?thesis by blast
qed

section \<open>The default vector of the router\<close>

lemma weight_of_pos: "router_wf s \<Longrightarrow> 0 \<le> weight_of s k"
proof -
  assume wf: "router_wf s"
  have "0 \<le> b" if "map_of (sf_weights s) k = Some b" for b
  proof -
    have "b \<in> set (map Product_Type.snd (sf_weights s))" using map_of_SomeD [OF that] by force
    with wf show ?thesis unfolding router_wf_def by blast
  qed
  then show ?thesis by (simp add: weight_of_def split: option.splits)
qed

lemma eligibleInOrder_set: "router_wf s \<Longrightarrow> set (eligibleInOrder s) = set (sf_eligibleVaults s)"
  by (auto simp: eligibleInOrder_def router_wf_def)

lemma eligibleInOrder_distinct: "distinct (''USDC'' # eligibleInOrder s)"
  by (auto simp: eligibleInOrder_def BASKET_KEYS_def)

lemma weight_of_keys: "distinct (map fst (sf_weights s)) \<Longrightarrow> map (weight_of s) (map fst (sf_weights s)) = map Product_Type.snd (sf_weights s)"
  by (auto simp: weight_of_def comp_def map_eq_conv)

lemma full_vector_sum:
  assumes "router_wf s" shows "sum_list (map (weight_of s) (''USDC'' # eligibleInOrder s)) = 10000"
proof -
  have d: "distinct (map fst (sf_weights s))" "set (map fst (sf_weights s)) = set (''USDC'' # eligibleInOrder s)"
    using assms eligibleInOrder_set [OF assms] by (auto simp: router_wf_def)
  have "sum_list (map (weight_of s) (''USDC'' # eligibleInOrder s)) = sum (weight_of s) (set (''USDC'' # eligibleInOrder s))"
    by (rule sum_list_distinct_conv_sum_set) (rule eligibleInOrder_distinct)
  also have "\<dots> = sum_list (map (weight_of s) (map fst (sf_weights s)))"
    unfolding d(2) [symmetric] by (rule sum_list_distinct_conv_sum_set [symmetric]) (rule d(1))
  also have "\<dots> = 10000" unfolding weight_of_keys [OF d(1)] using assms by (simp add: router_wf_def)
  finally show ?thesis .
qed

lemma sum_div_le:
  fixes xs :: "int list" assumes "0 < whole"
  shows "sum_list (map (\<lambda>x. x * 10000 div whole) xs) * whole \<le> sum_list xs * 10000"
proof (induction xs)
  case (Cons x xs)
  have "x * 10000 div whole * whole \<le> x * 10000" using assms by (simp add: minus_mod_eq_div_mult [symmetric])
  with Cons show ?case by (simp add: algebra_simps)
qed simp

lemma add_first_sum: "xs \<noteq> [] \<Longrightarrow> sum_list (add_first d xs) = sum_list xs + d"
  by (cases xs) (simp_all add: add_first_def)

lemma add_first_pos: "\<forall>x\<in>set xs. 0 \<le> x \<Longrightarrow> 0 \<le> d \<Longrightarrow> \<forall>x\<in>set (add_first d xs). 0 \<le> x"
  by (cases xs) (simp_all add: add_first_def)

lemma scaled_ok:
  assumes "\<forall>x\<in>set goal. 0 \<le> x" "goal \<noteq> []"
  shows "length (scaled goal) = length goal \<and> (\<forall>x\<in>set (scaled goal). 0 \<le> x) \<and> sum_list (scaled goal) \<le> 10000"
proof (cases "sum_list goal = 0")
  case True
  let ?n = "int (length goal)"
  obtain m where m: "length goal = Suc m" using assms(2) by (cases goal) auto
  have n: "0 < ?n" using m by simp
  have "sum_list (map (\<lambda>j. 10000 div ?n + (if j = 0 then 10000 mod ?n else 0)) [0..<length goal]) = ?n * (10000 div ?n) + 10000 mod ?n"
    unfolding m by (simp add: upt_conv_Cons sum_list_triv sum_list_addf del: upt_Suc flip: map_Suc_upt cong: map_cong)
       (use mult_div_mod_eq [of "1 + int m" 10000] in \<open>simp add: comp_def sum_list_triv algebra_simps\<close>)
  then have "sum_list (scaled goal) = 10000" using True by (simp add: scaled_def Let_def)
  moreover have "\<forall>x\<in>set (scaled goal). 0 \<le> x" using True n by (auto simp: scaled_def Let_def pos_imp_zdiv_nonneg_iff)
  ultimately show ?thesis using True by (simp add: scaled_def Let_def)
next
  case False
  have t: "0 < sum_list goal" using False assms(1) by (metis order_le_neq_trans sum_list_nonneg)
  have "sum_list (scaled goal) * sum_list goal \<le> 10000 * sum_list goal"
    using sum_div_le [OF t, of goal] False by (simp add: scaled_def Let_def mult.commute)
  then have "sum_list (scaled goal) \<le> 10000" using t by (simp add: mult_le_cancel_right)
  then show ?thesis using assms(1) t False by (auto simp: scaled_def Let_def pos_imp_zdiv_nonneg_iff)
qed

lemma indexOf_Some: "indexOf x xs = Some i \<Longrightarrow> i < length xs \<and> xs ! i = x"
  by (induction xs arbitrary: i) (auto split: if_splits)

lemma eligibilityBps_cases:
  assumes "eligibilityBps s basket = Some bps"
  obtains i where "indexOf basket (eligibleInOrder s) = Some i" "i < length (eligibleInOrder s)"
    "bps = (if i + 1 = length (eligibleInOrder s) then map (weight_of s) (''USDC'' # eligibleInOrder s)
            else let goal = map (weight_of s) (take (i + 2) (''USDC'' # eligibleInOrder s))
                 in add_first (10000 - sum_list (scaled goal)) (scaled goal))"
proof -
  from assms obtain i where i: "indexOf basket (eligibleInOrder s) = Some i"
    by (auto simp: eligibilityBps_def Let_def split: option.splits)
  have "i < length (eligibleInOrder s)" using indexOf_Some [OF i] by simp
  with i assms show ?thesis
    by (intro that [of i]) (auto simp: eligibilityBps_def Let_def split: if_splits)
qed

text \<open>
  C22. The default vector the deployer sets after each basket becomes eligible is a split of the whole: for a sheet that
  parses, its entries are not negative and sum to 10000 basis points, one for rmUSDC and one for each basket up to this one; and
  after the last basket it is the sheet's own weights.
\<close>

theorem eligibility_vector:
  assumes "parseSheet V stage13 t opts = Inr s" "po_system opts \<noteq> Some Gateway" "eligibilityBps s basket = Some bps"
  shows "sum_list bps = 10000 \<and> (\<forall>x\<in>set bps. 0 \<le> x) \<and>
    (\<exists>i. indexOf basket (eligibleInOrder s) = Some i \<and> length bps = i + 2 \<and>
         (i + 1 = length (eligibleInOrder s) \<longrightarrow> bps = map (weight_of s) (''USDC'' # eligibleInOrder s)))"
proof -
  obtain written retired v where "vaults_sheet V stage13 opts written retired v = Inr s" by (rule parseSheet_vaults [OF assms(1,2)])
  then have wf: "router_wf s" using vaults_sheet_Inr(1) by (auto simp: sheet_wf_def)
  from assms(3) obtain i where i: "indexOf basket (eligibleInOrder s) = Some i" "i < length (eligibleInOrder s)"
    and bps: "bps = (if i + 1 = length (eligibleInOrder s) then map (weight_of s) (''USDC'' # eligibleInOrder s)
            else let goal = map (weight_of s) (take (i + 2) (''USDC'' # eligibleInOrder s))
                 in add_first (10000 - sum_list (scaled goal)) (scaled goal))" by (rule eligibilityBps_cases)
  show ?thesis
  proof (cases "i + 1 = length (eligibleInOrder s)")
    case True
    with bps have b: "bps = map (weight_of s) (''USDC'' # eligibleInOrder s)" by simp
    have "sum_list bps = 10000" unfolding b by (rule full_vector_sum) (fact wf)
    moreover have "\<forall>x\<in>set bps. 0 \<le> x" unfolding b using weight_of_pos [OF wf] by simp
    ultimately show ?thesis using i True b by simp
  next
    case False
    let ?goal = "map (weight_of s) (take (i + 2) (''USDC'' # eligibleInOrder s))"
    have g: "\<forall>x\<in>set ?goal. 0 \<le> x" "?goal \<noteq> []" "length ?goal = i + 2" using weight_of_pos [OF wf] i(2) by auto
    note ok = scaled_ok [OF g(1,2)]
    have ne: "scaled ?goal \<noteq> []" using ok g(3) by auto
    have b: "bps = add_first (10000 - sum_list (scaled ?goal)) (scaled ?goal)" using bps False by (simp add: Let_def)
    have "sum_list bps = 10000" unfolding b add_first_sum [OF ne] by simp
    moreover have "\<forall>x\<in>set bps. 0 \<le> x" unfolding b by (rule add_first_pos) (use ok in auto)
    moreover have "length bps = i + 2" unfolding b using ok g(3) ne by (cases "scaled ?goal") (simp_all add: add_first_def)
    ultimately show ?thesis using i False by blast
  qed
qed

end
