(* ===== verification/SheetRuns.thy ===== *)
theory SheetRuns
  imports SheetRules
begin

text \<open>
  Sheets written as plain \<open>NAME=value\<close> lines: they read back as written, which gives the concrete sheets of this theory.
\<close>

section \<open>Reading back\<close>

definition graphic :: "char \<Rightarrow> bool" where
  "graphic c \<longleftrightarrow> 32 < char_code c \<and> char_code c < 127"

definition value_char :: "char \<Rightarrow> bool" where
  "value_char c \<longleftrightarrow> graphic c \<and> c \<noteq> CHR ''#'' \<and> \<not> is_quote c \<and> c \<notin> set shell_chars"

definition writable :: "string \<times> string \<Rightarrow> bool" where
  "writable nv \<longleftrightarrow> plain_name (fst nv) \<and> fst nv \<notin> set object_prototype_keys \<and> list_all value_char (Product_Type.snd nv)"

definition write_line :: "string \<times> string \<Rightarrow> string" where
  "write_line nv = fst nv @ ''='' @ Product_Type.snd nv"

definition write_sheet :: "raw_sheet \<Rightarrow> string" where
  "write_sheet raw = join [LF] (map write_line raw)"

lemma graphic_solid: "graphic c \<Longrightarrow> solid c"
  by (auto simp: graphic_def solid_def ascii_blank_def)

lemma trim_graphic: "list_all graphic s \<Longrightarrow> trim s = s"
  by (cases "s = []") (auto simp: list_all_iff graphic_solid intro!: trim_solid)

lemma graphic_no_blank: "list_all graphic (c # s) \<Longrightarrow> blank_len wide_blanks (c # s) = 0"
  using wide_blank_bytes by (intro blank_len_solid) (auto simp: graphic_solid)

lemma strip_comment_graphic: "list_all graphic s \<Longrightarrow> strip_comment s = s"
  by (induction s) (simp_all add: graphic_no_blank)

lemma one_line_graphic: "list_all graphic s \<Longrightarrow> one_line s"
  by (induction s) (auto simp: graphic_def LF_def CR_def)

lemma word_graphic: "is_word_char c \<Longrightarrow> graphic c"
  by (auto simp: is_word_char_def is_alnum_def is_digit_def graphic_def)

lemma name_graphic: "plain_name n \<Longrightarrow> list_all graphic n"
  by (auto simp: plain_name_def list_all_iff word_graphic)

lemma value_graphic: "list_all value_char v \<Longrightarrow> list_all graphic v"
  by (auto simp: list_all_iff value_char_def)

lemma write_line_graphic: "writable nv \<Longrightarrow> list_all graphic (write_line nv)"
  using name_graphic value_graphic by (auto simp: writable_def write_line_def) (simp add: graphic_def)

lemma drop_export_graphic: "list_all graphic t \<Longrightarrow> drop_export t = t"
proof -
  assume t: "list_all graphic t"
  have "blank_len wide_blanks r = 0" if "drop_prefix ''export'' t = Some r" for r
  proof -
    have "list_all graphic r" using that t by (auto simp: drop_prefix_def list_all_iff dest: in_set_dropD split: if_splits)
    then show ?thesis by (cases r) (simp_all add: graphic_no_blank, simp add: blank_len_def)
  qed
  then show ?thesis by (auto simp: drop_export_def split: option.splits)
qed

lemma name_value_written:
  assumes "writable nv" shows "name_value (write_line nv) = Some nv"
proof -
  obtain n v where nv: "nv = (n, v)" by fastforce
  have n: "\<forall>c\<in>set n. is_word_char c" "n \<noteq> []" "\<not> is_digit (hd n)" and v: "one_line v"
    using assms one_line_graphic value_graphic by (auto simp: nv writable_def plain_name_def list_all_iff)
  have e: "\<not> is_word_char (CHR ''='')" by code_simp
  have "takeWhile is_word_char (n @ ''='' @ v) = n" "dropWhile is_word_char (n @ ''='' @ v) = CHR ''='' # v"
    using n(1) e by (simp_all add: takeWhile_append2 dropWhile_append2)
  then show ?thesis
    using n v drop_export_graphic [OF write_line_graphic [OF assms]] by (simp add: name_value_def Let_def nv write_line_def)
qed

lemma line_value_written: "list_all value_char v \<Longrightarrow> line_value v = Inr v"
proof -
  assume v: "list_all value_char v"
  then have g: "trim v = v" "strip_comment v = v" using value_graphic trim_graphic strip_comment_graphic by blast+
  then show ?thesis using v by (cases v) (simp_all add: line_value_def Let_def value_char_def)
qed

lemma sheet_line_written:
  assumes "writable nv" "fst nv \<notin> set (map fst out)" shows "sheet_line out (write_line nv) = Inr (out @ [nv])"
proof -
  have t: "trim (write_line nv) = write_line nv" using assms(1) by (simp add: trim_graphic write_line_graphic)
  have ne: "write_line nv \<noteq> []" by (simp add: write_line_def)
  have "fst nv \<noteq> []" "\<forall>c\<in>set (fst nv). is_word_char c" using assms(1) by (simp_all add: writable_def plain_name_def list_all_iff)
  then have "is_word_char (hd (write_line nv))" by (simp add: write_line_def)
  moreover have "\<not> is_word_char (CHR ''#'')" by code_simp
  ultimately have "hd (write_line nv) \<noteq> CHR ''#''" by metis
  then have "\<not> starts_with ''#'' (write_line nv)" using ne by (cases "write_line nv") (simp_all add: starts_with_def)
  moreover have "list_all value_char (Product_Type.snd nv)" using assms(1) by (simp add: writable_def)
  moreover from this have "list_all (\<lambda>c. c \<notin> set shell_chars) (Product_Type.snd nv)" by (simp add: list_all_iff value_char_def)
  ultimately show ?thesis
    using assms name_value_written [OF assms(1)] ne t
    by (cases nv) (simp add: sheet_line_def Let_def line_value_written writable_def)
qed

lemma fold_written:
  "list_all writable raw \<Longrightarrow> distinct (map fst (out @ raw)) \<Longrightarrow> fold_res sheet_line out (map write_line raw) = Inr (out @ raw)"
  by (induction raw arbitrary: out) (simp_all add: sheet_line_written)

lemma written_lines:
  assumes "list_all writable raw" "raw \<noteq> []" shows "sheet_lines (strip_bom (write_sheet raw)) = map write_line raw"
proof -
  let ?ls = "map write_line raw"
  have g: "\<forall>l\<in>set ?ls. list_all graphic l" using assms(1) by (auto simp: list_all_iff [of writable] write_line_graphic)
  have nl: "c \<noteq> LF" "c \<noteq> CR" if "graphic c" for c using that by (auto simp: graphic_def LF_def CR_def)
  have split: "split_on LF (join [LF] ?ls) = ?ls"
    by (rule split_on_join) (use assms(2) g nl in \<open>auto simp: list_all_iff\<close>)
  have "drop_cr l = l" if "l \<in> set ?ls" for l
    using g that nl last_in_set [of l] by (auto simp: drop_cr_def list_all_iff)
  then have "map drop_cr (butlast ?ls) = butlast ?ls" by (intro map_idI) (blast dest: in_set_butlastD)
  then have lines: "sheet_lines (join [LF] ?ls) = ?ls" using assms(2) unfolding sheet_lines_def split Let_def by simp
  obtain x xs where raw: "raw = x # xs" using assms(2) by (cases raw) auto
  obtain c r where c: "write_line x = c # r" by (cases "write_line x") (auto simp: write_line_def)
  then have "graphic c" using g by (auto simp: raw)
  moreover have "\<exists>r. join [LF] ?ls = c # r" using c by (cases xs) (simp_all add: raw)
  ultimately have "strip_bom (join [LF] ?ls) = join [LF] ?ls" by (auto simp: strip_bom_def graphic_def)
  then show ?thesis by (simp add: write_sheet_def lines)
qed

text \<open>
  C23. A sheet written as plain lines reads back exactly: for any names and values that the sheet's rules for text allow
  (an identifier, distinct from the others; printable characters with no blank, quote, \<open>#\<close> or shell character), the lines
  \<open>NAME=value\<close> parse to the same names and values in the same order.
\<close>

theorem written_sheet_reads_back:
  assumes "list_all writable raw" "distinct (map fst raw)"
  shows "parseSheetText (write_sheet raw) = Inr raw"
proof (cases "raw = []")
  case True
  then show ?thesis by (simp add: write_sheet_def parseSheetText_def strip_bom_def sheet_lines_def sheet_line_def)
next
  case False
  from written_lines [OF assms(1) False] show ?thesis
    using fold_written [OF assms(1), of "[]"] assms(2) by (simp add: parseSheetText_def)
qed

section \<open>A sheet for Base mainnet\<close>

definition sample_key :: "string \<Rightarrow> string" where
  "sample_key s = ''0x000000000000000000000000000000000000'' @ s"

definition sample_raw :: raw_sheet where
  "sample_raw =
     [(''CHAIN_ID'', ''8453''), (''EXPECTED_CHAIN_ID'', ''8453''), (''ADMIN_ADDRESS'', sample_key ''a001''), (''PAUSER_ADDRESS'', sample_key ''a002''),
      (''EMERGENCY_ADDRESS'', sample_key ''a003''), (''SHARE_RECEIVER_ADDRESS'', sample_key ''a005''), (''RECEIPT_ADMIN_ADDRESS'', sample_key ''a001''),
      (''SAFE_OWNERS'', sample_key ''c001'' @ '','' @ sample_key ''c002'' @ '','' @ sample_key ''c003''), (''SAFE_THRESHOLD'', ''2''), (''SAFE_VERSION'', ''1.4.1''),
      (''FEE_RECIPIENT_ADDRESS'', ''@safe''), (''SEED_DEPOSIT_USDC'', ''1000000''), (''SWAP_ROUTER'', sample_key ''d001''),
      (''VAULT_USDC_TVL_CAP'', ''1000''), (''VAULT_USDC_PER_DEPOSIT_CAP'', ''100''), (''VAULT_USDC_EXIT_FEE_BPS'', ''0''),
      (''VAULT_PROTO_TVL_CAP'', ''1000''), (''VAULT_PROTO_PER_DEPOSIT_CAP'', ''100''), (''VAULT_PROTO_EXIT_FEE_BPS'', ''0''),
      (''VAULT_PROTO_NAV_DEVIATION_BPS'', ''100''), (''VAULT_PROTO_MIN_POOL_LIQUIDITY'', ''100000''),
      (''VAULT_RWA_TVL_CAP'', ''1000''), (''VAULT_RWA_PER_DEPOSIT_CAP'', ''100''), (''VAULT_RWA_EXIT_FEE_BPS'', ''0''),
      (''VAULT_RWA_NAV_DEVIATION_BPS'', ''100''), (''VAULT_RWA_MIN_POOL_LIQUIDITY'', ''100000''),
      (''TIMELOCK_MIN_DELAY'', ''172800''), (''UPGRADE_MODE'', ''upgradeable''), (''UPGRADE_FREEZE_DEADLINE'', ''2027-01-31T00:00:00Z''),
      (''ELIGIBLE_VAULTS'', ''PROTO,RWA''), (''ROUTER_WEIGHTS'', ''USDC:9500,PROTO:500,RWA:0''), (''GOVERN_UNPAUSE_VAULTS'', ''USDC,PROTO,RWA''),
      (''GOVERN_NEW_DELAY'', ''172800'')]"

definition sheet_opts :: ParseSheetOpts where
  "sheet_opts = \<lparr>po_system = None, po_verb = None, po_now = 1790000000000\<rparr>"

definition sample_stage13 :: "js list" where
  "sample_stage13 = [JStr ''USDC'', JStr ''PROTO'', JStr ''RWA'']"

lemma sample_writable: "list_all writable sample_raw"
  by code_simp

lemma sample_names: "distinct (map fst sample_raw)"
  by code_simp

lemma sample_names_ok: "is_ok (checkNames sample_raw False)"
  by code_simp

definition sample_result :: "failure + full_sheet" where
  "sample_result = vaults_sheet sample_codec_safe sample_stage13 sheet_opts sample_raw [] sample_raw"

lemma sample_result_ok: "is_ok sample_result"
  by code_simp

definition sample_full :: full_sheet where
  "sample_full = projr sample_result"

theorem written_sheet_reads_back_witness: "parseSheetText (write_sheet sample_raw) = Inr sample_raw"
  by (rule written_sheet_reads_back [OF sample_writable sample_names])

lemma sample_text: "parseSheetText (write_sheet sample_raw) = Inr sample_raw"
proof -
  have "fold_res sheet_line [] (map write_line sample_raw) = Inr sample_raw" using fold_written [OF sample_writable, of "[]"] sample_names by simp
  moreover have "sheet_lines (strip_bom (write_sheet sample_raw)) = map write_line sample_raw" by (rule written_lines) (rule sample_writable, simp add: sample_raw_def)
  ultimately show ?thesis by (simp add: parseSheetText_def)
qed

lemma is_ok_projr: "is_ok r \<Longrightarrow> r = Inr (projr r)"
  by (cases r) (simp_all add: is_ok_def)

lemma sample_parse: "parseSheet sample_codec_safe sample_stage13 (write_sheet sample_raw) sheet_opts = Inr sample_full"
proof -
  have drop: "dropLegacyVaultName sample_raw sheet_opts = sample_raw" "takeRetiredVaultLines sample_raw sheet_opts = Inr (sample_raw, [])"
    by (simp_all add: dropLegacyVaultName_def takeRetiredVaultLines_def verb_in_def sheet_opts_def LEGACY_VAULT_NAME_VERBS_def RETIRED_VAULT_VERBS_def)
  have "sample_result = Inr sample_full" unfolding sample_full_def by (rule is_ok_projr [OF sample_result_ok])
  moreover have "checkNames sample_raw False = Inr ()" using sample_names_ok by (auto simp: is_ok_iff)
  moreover have "po_system sheet_opts \<noteq> Some Gateway" by (simp add: sheet_opts_def)
  ultimately show ?thesis by (simp add: parseSheet_def sample_text drop sample_result_def)
qed

lemma sample_system: "po_system sheet_opts \<noteq> Some Gateway"
  by (simp add: sheet_opts_def)

theorem sheet_is_data_witness:
  "distinct (map fst (sf_values sample_full)) \<and>
   list_all (\<lambda>(n, v). \<not> secret_name n \<and> list_all (\<lambda>c. c \<notin> set shell_chars) v) (sf_values sample_full)"
  using sheet_is_data [OF sample_codec_safe_laws sample_parse] by (auto simp: list_all_iff)

theorem parsed_sheet_wf_witness: "sheet_wf sample_full"
  by (rule parsed_sheet_wf [OF sample_parse sample_system])

lemma sheet_mainnet: "sh_chainId sample_full = 8453" "sh_kind sample_full = Production" "sf_upgrade sample_full = (Upgradeable, Some ''2027-01-31T00:00:00Z'')"
  by code_simp+

theorem mainnet_sheet_launches_witness:
  "set (sf_weights sample_full) = {(''USDC'', 9500), (''PROTO'', 500), (''RWA'', 0)} \<and>
   po_now sheet_opts + 172800 * 1000 + 86400000 \<le> 1000 * deadline_seconds ''2027-01-31T00:00:00Z''"
proof -
  have "sh_timelockMinDelay sample_full = 172800" by code_simp
  moreover have "po_verb sheet_opts = None" by (simp add: sheet_opts_def)
  ultimately show ?thesis
    using mainnet_sheet_launches [OF sample_parse sample_system sheet_mainnet(1)] sheet_mainnet(2,3) by auto
qed

lemma sample_eligibility: "eligibilityBps sample_full ''PROTO'' = Some [9500, 500]"
  by code_simp

theorem eligibility_vector_witness:
  "eligibilityBps sample_full ''PROTO'' = Some [9500, 500] \<and> (\<exists>i. indexOf ''PROTO'' (eligibleInOrder sample_full) = Some i \<and> length [9500 :: int, 500] = i + 2)"
  using eligibility_vector [OF sample_parse sample_system sample_eligibility] sample_eligibility by blast

end
