(* ===== verification/ReceiptRows.thy ===== *)
theory ReceiptRows
  imports SheetParse Rounds "HOL-Library.Multiset"
begin

text \<open>
  Consensus receipts and the weights they set: the digest scheme (publish-contracts/src/receipt-digest.ts), the vector a
  receipt is applied as (apply-receipt.ts) and the row that clears it (clear-voted-weights.ts). A file is the
  string of its bytes. \<open>keccak\<close> and \<open>parse_json\<close> (\<^const>\<open>None\<close> where \<open>JSON.parse\<close> throws) are parameters; decoding
  UTF-8 is written out.
\<close>

abbreviation usage_error :: failure where
  "usage_error \<equiv> PublishError USAGE"

section \<open>UTF-8\<close>

text \<open>The ranges of the bytes that follow a first byte, \<^const>\<open>None\<close> for a byte no character starts with.\<close>

definition utf8_follow :: "nat \<Rightarrow> (nat \<times> nat) list option" where
  "utf8_follow b =
     (let c = (0x80, 0xBF) in
      if b < 0x80 then Some []
      else if 0xC2 \<le> b \<and> b \<le> 0xDF then Some [c]
      else if b = 0xE0 then Some [(0xA0, 0xBF), c]
      else if b = 0xED then Some [(0x80, 0x9F), c]
      else if 0xE1 \<le> b \<and> b \<le> 0xEF then Some [c, c]
      else if b = 0xF0 then Some [(0x90, 0xBF), c, c]
      else if 0xF1 \<le> b \<and> b \<le> 0xF3 then Some [c, c, c]
      else if b = 0xF4 then Some [(0x80, 0x8F), c, c]
      else None)"

text \<open>How many of the bytes are as they must be.\<close>

fun utf8_match :: "(nat \<times> nat) list \<Rightarrow> string \<Rightarrow> nat" where
  "utf8_match ((lo, hi) # rs) (c # s) = (if lo \<le> char_code c \<and> char_code c \<le> hi then Suc (utf8_match rs s) else 0)"
| "utf8_match _ _ = 0"

text \<open>The bytes of the first character, or of the ill-formed part the decoder replaces as one, and which of the two it is.\<close>

definition utf8_unit :: "char \<Rightarrow> string \<Rightarrow> nat \<times> bool" where
  "utf8_unit c s =
     (case utf8_follow (char_code c) of
        None \<Rightarrow> (0, False)
      | Some rs \<Rightarrow> (utf8_match rs s, utf8_match rs s = length rs))"

function valid_utf8 :: "string \<Rightarrow> bool" where
  "valid_utf8 [] = True"
| "valid_utf8 (c # s) = (Product_Type.snd (utf8_unit c s) \<and> valid_utf8 (drop (fst (utf8_unit c s)) s))"
  by pat_completeness auto
termination by (relation "measure length") auto

function utf8_lossy :: "string \<Rightarrow> string" where
  "utf8_lossy [] = []"
| "utf8_lossy (c # s) =
     (if Product_Type.snd (utf8_unit c s) then c # take (fst (utf8_unit c s)) s else [CHR 0xEF, CHR 0xBF, CHR 0xBD])
     @ utf8_lossy (drop (fst (utf8_unit c s)) s)"
  by pat_completeness auto
termination by (relation "measure length") auto

text \<open>\<open>new TextDecoder().decode(b)\<close> and \<open>new TextDecoder("utf-8", { fatal: true }).decode(b)\<close>: both take a byte order mark off.\<close>

definition decode_text :: "string \<Rightarrow> string" where
  "decode_text b = utf8_lossy (strip_bom b)"

definition decode_fatal :: "string \<Rightarrow> string option" where
  "decode_fatal b = (if valid_utf8 (strip_bom b) then Some (strip_bom b) else None)"

lemma utf8_match_le: "utf8_match rs s \<le> length s"
  by (induction rs s rule: utf8_match.induct) auto

lemma lossy_valid: "valid_utf8 b \<Longrightarrow> utf8_lossy b = b"
  by (induction b rule: valid_utf8.induct) auto

lemma decode_fatal_text: "decode_fatal b = Some t \<Longrightarrow> decode_text b = t"
  by (auto simp: decode_fatal_def decode_text_def lossy_valid split: if_splits)

section \<open>The digest\<close>

definition RECEIPT_DOMAIN :: string where
  "RECEIPT_DOMAIN = ''robotmoney:consensus-receipt:v1'' @ [LF]"

definition RECEIPT_ID_DOMAIN :: string where
  "RECEIPT_ID_DOMAIN = ''robotmoney:consensus-receipt-id:v1'' @ [LF]"

definition startsWithDomain :: "string \<Rightarrow> bool" where
  "startsWithDomain b = starts_with RECEIPT_DOMAIN b"

definition receiptPreimage :: "string \<Rightarrow> string" where
  "receiptPreimage b = (if startsWithDomain b then b else RECEIPT_DOMAIN @ b)"

definition receiptPayloadDigest :: "(string \<Rightarrow> string) \<Rightarrow> string \<Rightarrow> string" where
  "receiptPayloadDigest keccak b = keccak (receiptPreimage b)"

definition deriveReceiptId :: "(string \<Rightarrow> string) \<Rightarrow> string \<Rightarrow> string \<Rightarrow> string" where
  "deriveReceiptId keccak session subject = keccak (RECEIPT_ID_DOMAIN @ session @ [LF] @ subject)"

text \<open>The bytes without the domain line.\<close>

definition receipt_body :: "string \<Rightarrow> string" where
  "receipt_body b = (if startsWithDomain b then drop (length RECEIPT_DOMAIN) b else b)"

definition receiptIdOfBytes :: "(string \<Rightarrow> string) \<Rightarrow> (string \<Rightarrow> js option) \<Rightarrow> string \<Rightarrow> string option" where
  "receiptIdOfBytes keccak parse_json b =
     (case parse_json (decode_text (receipt_body b)) of
        None \<Rightarrow> None
      | Some doc \<Rightarrow>
          (case (jstr (jget doc ''session_id''), jstr (jget doc ''subject_id'')) of
             (Some s, Some t) \<Rightarrow> Some (deriveReceiptId keccak s t)
           | _ \<Rightarrow> None))"

definition assertDigestMatchesBytes :: "(string \<Rightarrow> string) \<Rightarrow> string \<Rightarrow> string \<Rightarrow> failure + unit" where
  "assertDigestMatchesBytes keccak b digest =
     ensure (lc (receiptPayloadDigest keccak b) = lc digest) usage_error"

definition SUPPORTED_RECEIPT_SCHEMA_VERSION :: string where "SUPPORTED_RECEIPT_SCHEMA_VERSION = ''1.0''"

record SupportedPayload =
  sp_digest :: string
  sp_receiptId :: string
  sp_sessionId :: string
  sp_subjectId :: string

definition ends_with :: "string \<Rightarrow> string \<Rightarrow> bool" where
  "ends_with p s = (length p \<le> length s \<and> drop (length s - length p) s = p)"

definition nonempty_str :: "js \<Rightarrow> string option" where
  "nonempty_str v = (case jstr v of None \<Rightarrow> None | Some s \<Rightarrow> if s = [] then None else Some s)"

definition supportedReceiptPayload ::
  "(string \<Rightarrow> string) \<Rightarrow> (string \<Rightarrow> js option) \<Rightarrow> string option \<Rightarrow> failure + SupportedPayload" where
  "supportedReceiptPayload keccak parse_json bytes =
     (case bytes of
        None \<Rightarrow> Inl usage_error
      | Some b \<Rightarrow>
          if b = [] then Inl usage_error
          else
            res_bind (of_option usage_error (decode_fatal (receipt_body b))) (\<lambda>decoded.
            res_bind (ensure (starts_with ''{'' decoded \<and> ends_with (''}'' @ [LF]) decoded \<and> \<not> ends_with [LF, LF] decoded) usage_error) (\<lambda>_.
            res_bind (of_option usage_error (parse_json decoded)) (\<lambda>doc.
            res_bind (ensure (is_record doc) usage_error) (\<lambda>_.
            res_bind (ensure (jget doc ''schema_version'' = JStr SUPPORTED_RECEIPT_SCHEMA_VERSION) usage_error) (\<lambda>_.
            res_bind (of_option usage_error (nonempty_str (jget doc ''session_id''))) (\<lambda>s.
            res_bind (of_option usage_error (nonempty_str (jget doc ''subject_id''))) (\<lambda>t.
            Inr \<lparr>sp_digest = receiptPayloadDigest keccak b, sp_receiptId = deriveReceiptId keccak s t,
                 sp_sessionId = s, sp_subjectId = t\<rparr>))))))))"

section \<open>The vector of a receipt\<close>

definition APPLY_ROW :: string where "APPLY_ROW = ''apply-receipt''"

definition BUCKET_VAULT :: "(string \<times> string option) list" where
  "BUCKET_VAULT =
     [(''conservative_defi_yield'', Some ''USDC''), (''protocol_tokens'', Some ''PROTO''), (''agent_tokens'', None),
      (''real_world_assets'', Some ''RWA'')]"

definition BPS_TOTAL :: int where "BPS_TOTAL = 10000"

definition applyRecordKey :: "string \<Rightarrow> string" where
  "applyRecordKey receiptId = APPLY_ROW @ ''-'' @ lc receiptId"

record WeightVector =
  wv_vaults :: "string list"
  wv_bps :: "int list"

record ApplyInputs =
  ai_receiptId :: string
  ai_payload :: string
  ai_recorded :: bool
  ai_released :: bool
  ai_storedDigest :: "string option"
  ai_recordedAt :: "int option"
  ai_lastAppliedRecordedAt :: "int option"
  ai_eligible :: "string list"
  ai_vaultOf :: "string \<Rightarrow> string"
  ai_inFlight :: bool

text \<open>The bucket of an entry of the list, the weight it gives, and the loop over the list with the buckets seen.\<close>

definition entry_bucket :: "js \<Rightarrow> string" where
  "entry_bucket w = js_String (jget w ''bucket'')"

definition entry_bps :: "js \<Rightarrow> int option" where
  "entry_bps w = (case jget w ''weight_bps'' of JNum n \<Rightarrow> if 0 \<le> n \<and> n \<le> BPS_TOTAL then Some n else None | _ \<Rightarrow> None)"

fun payload_entries :: "(string \<Rightarrow> string) \<Rightarrow> string list \<Rightarrow> js list \<Rightarrow> failure + (string \<times> int) list" where
  "payload_entries vaultOf seen [] = Inr []"
| "payload_entries vaultOf seen (w # ws) =
     (let bucket = entry_bucket w in
      res_bind (of_option usage_error (map_of BUCKET_VAULT bucket)) (\<lambda>key.
      res_bind (ensure (bucket \<notin> set seen) usage_error) (\<lambda>_.
      res_bind (of_option usage_error (entry_bps w)) (\<lambda>bps.
      case key of
        None \<Rightarrow> if bps > 0 then Inl usage_error else payload_entries vaultOf (bucket # seen) ws
      | Some k \<Rightarrow> res_bind (payload_entries vaultOf (bucket # seen) ws) (\<lambda>es. Inr ((vaultOf k, bps) # es))))))"

definition payloadVector ::
  "(string \<Rightarrow> js option) \<Rightarrow> string \<Rightarrow> (string \<Rightarrow> string) \<Rightarrow> string list \<Rightarrow> failure + WeightVector" where
  "payloadVector parse_json payload vaultOf eligible' =
     res_bind (of_option usage_error (parse_json (decode_text payload))) (\<lambda>doc.
     res_bind (of_option usage_error (js_list (jget doc ''weights''))) (\<lambda>weights.
     res_bind (ensure (weights \<noteq> []) usage_error) (\<lambda>_.
     res_bind (payload_entries vaultOf [] weights) (\<lambda>es.
     res_bind (ensure (sum_list (map Product_Type.snd es) = BPS_TOTAL) usage_error) (\<lambda>_.
     let kept = filter (\<lambda>e. Product_Type.snd e > 0 \<or> lc (fst e) \<in> set (map lc eligible')) es in
     Inr \<lparr>wv_vaults = map fst kept, wv_bps = map Product_Type.snd kept\<rparr>)))))"

text \<open>The order of the registry: a stable sort of the positions by the place of their vault.\<close>

definition registry_order :: "string list \<Rightarrow> WeightVector \<Rightarrow> WeightVector" where
  "registry_order want v =
     (let order = sort_key (\<lambda>k. Stages.indexOf want (lc (wv_vaults v ! k))) [0..<length (wv_vaults v)] in
      \<lparr>wv_vaults = map (\<lambda>k. wv_vaults v ! k) order, wv_bps = map (\<lambda>k. wv_bps v ! k) order\<rparr>)"

definition not_newer :: "int option \<Rightarrow> int option \<Rightarrow> bool" where
  "not_newer at' last' = (case (at', last') of (Some a, Some l) \<Rightarrow> a \<le> l | _ \<Rightarrow> False)"

definition planApply :: "(string \<Rightarrow> string) \<Rightarrow> (string \<Rightarrow> js option) \<Rightarrow> ApplyInputs \<Rightarrow> failure + WeightVector" where
  "planApply keccak parse_json i =
     res_bind (ensure (ai_inFlight i \<or> (ai_recorded i \<and> \<not> ai_released i \<and> \<not> not_newer (ai_recordedAt i) (ai_lastAppliedRecordedAt i)))
                usage_error) (\<lambda>_.
     res_bind (of_option usage_error (ai_storedDigest i)) (\<lambda>stored.
     res_bind (ensure (lc (receiptPayloadDigest keccak (ai_payload i)) = lc stored) usage_error) (\<lambda>_.
     res_bind (payloadVector parse_json (ai_payload i) (ai_vaultOf i) (ai_eligible i)) (\<lambda>v.
     let want = map lc (ai_eligible i); got = map lc (wv_vaults v) in
     res_bind (ensure (length got = length want \<and> distinct got \<and> list_all (\<lambda>a. a \<in> set want) got) usage_error) (\<lambda>_.
     Inr (registry_order want v))))))"

section \<open>Calls and read-backs\<close>

text \<open>viem's encoder is the parameter of the other components; a vector is passed as its two arrays.\<close>

definition js_addresses :: "string list \<Rightarrow> js" where "js_addresses vs = JArr (map JStr vs)"
definition js_amounts :: "int list \<Rightarrow> js" where "js_amounts bs = JArr (map JBig bs)"

definition encode_call :: "'a viem_scheme \<Rightarrow> string \<Rightarrow> js list \<Rightarrow> failure + string" where
  "encode_call V fn xs = of_option PlainError (encodeCall V fn xs)"

definition call_to :: "string \<Rightarrow> string \<Rightarrow> string \<Rightarrow> LabelledCall" where
  "call_to label addr dt = \<lparr>tc_target = addr, tc_value = None, tc_data = dt, lcl_label = label\<rparr>"

definition applyCalldata :: "'a viem_scheme \<Rightarrow> string \<Rightarrow> string \<Rightarrow> WeightVector \<Rightarrow> failure + string" where
  "applyCalldata V receiptId digest v =
     encode_call V ''applyReceipt'' [JStr receiptId, JStr digest, js_addresses (wv_vaults v), js_amounts (wv_bps v)]"

definition buildApplyCall :: "'a viem_scheme \<Rightarrow> string \<Rightarrow> string \<Rightarrow> string \<Rightarrow> WeightVector \<Rightarrow> failure + LabelledCall" where
  "buildApplyCall V governance receiptId digest v =
     res_bind (applyCalldata V receiptId digest v) (\<lambda>dt.
     Inr (call_to (''governance.applyReceipt('' @ receiptId @ '','' @ digest @ '',['' @ join '','' (wv_vaults v) @ ''],[''
                   @ join '','' (map show_int (wv_bps v)) @ ''])'') governance dt))"

text \<open>\<open>vaults.map((a, k) => `${lc(a)}:${bps[k]}`).join(",")\<close>, of the three modules that compare vectors.\<close>

definition bps_text :: "int list \<Rightarrow> nat \<Rightarrow> string" where
  "bps_text bps k = (if k < length bps then show_int (bps ! k) else ''undefined'')"

definition vectorKey :: "string list \<Rightarrow> int list \<Rightarrow> string" where
  "vectorKey vaults bps = join '','' (map (\<lambda>k. lc (vaults ! k) @ '':'' @ bps_text bps k) [0..<length vaults])"

record RouterReadBack =
  rb_activeVaults :: "string list"
  rb_activeBps :: "int list"
  rb_effectiveVaults :: "string list"
  rb_effectiveBps :: "int list"
  rb_votedWeightsActive :: bool

definition applyReadBackProblems :: "string \<Rightarrow> bool \<Rightarrow> RouterReadBack \<Rightarrow> WeightVector \<Rightarrow> string list" where
  "applyReadBackProblems receiptId released r v =
     (let want = vectorKey (wv_vaults v) (wv_bps v);
          gotActive = vectorKey (rb_activeVaults r) (rb_activeBps r);
          gotEffective = vectorKey (rb_effectiveVaults r) (rb_effectiveBps r) in
      (if released then [] else [''receipt.isReleased('' @ receiptId @ '') is false''])
      @ (if gotActive = want then [] else [''router.getWeights() is ['' @ gotActive @ ''], want ['' @ want @ '']''])
      @ (if rb_votedWeightsActive r then [] else [''router.votedWeightsActive() is false: the applied vector is not in effect, routing still uses the default''])
      @ (if gotEffective = want then [] else [''router.getEffectiveWeights() is ['' @ gotEffective @ ''], want ['' @ want @ '']'']))"

definition CLEAR_ROW :: string where "CLEAR_ROW = ''clear-voted-weights''"

definition buildClearCall :: "'a viem_scheme \<Rightarrow> string \<Rightarrow> failure + LabelledCall" where
  "buildClearCall V governance =
     res_bind (encode_call V ''clearVotedWeights'' []) (\<lambda>dt. Inr (call_to ''governance.clearVotedWeights()'' governance dt))"

record ClearReadBack =
  cb_votedWeightsActive :: bool
  cb_defaultVaults :: "string list"
  cb_defaultBps :: "int list"
  cb_effectiveVaults :: "string list"
  cb_effectiveBps :: "int list"

definition clearReadBackProblems :: "ClearReadBack \<Rightarrow> string list" where
  "clearReadBackProblems r =
     (let d = vectorKey (cb_defaultVaults r) (cb_defaultBps r); e = vectorKey (cb_effectiveVaults r) (cb_effectiveBps r) in
      (if cb_votedWeightsActive r then [''router.votedWeightsActive() is still true''] else [])
      @ (if e = d then [] else [''router.getEffectiveWeights() is ['' @ e @ ''], want the default ['' @ d @ '']'']))"


section \<open>What a plan is\<close>

text \<open>What an entry of the payload asks for: a vault and its weight.\<close>

definition leg_of :: "(string \<Rightarrow> string) \<Rightarrow> js \<Rightarrow> (string \<times> int) option" where
  "leg_of vaultOf w =
     (case map_of BUCKET_VAULT (entry_bucket w) of
        Some (Some k) \<Rightarrow> map_option (\<lambda>b. (vaultOf k, b)) (entry_bps w)
      | _ \<Rightarrow> None)"

lemma payload_entries_legs:
  assumes "payload_entries vaultOf seen ws = Inr es"
  shows "es = List.map_filter (leg_of vaultOf) ws"
    and "\<forall>w \<in> set ws. entry_bps w \<noteq> None \<and> (leg_of vaultOf w = None \<longrightarrow> entry_bps w = Some 0)"
    and "distinct (map entry_bucket ws) \<and> set (map entry_bucket ws) \<inter> set seen = {}"
proof -
  have "es = List.map_filter (leg_of vaultOf) ws
    \<and> (\<forall>w \<in> set ws. entry_bps w \<noteq> None \<and> (leg_of vaultOf w = None \<longrightarrow> entry_bps w = Some 0))
    \<and> distinct (map entry_bucket ws) \<and> set (map entry_bucket ws) \<inter> set seen = {}"
    using assms
  proof (induction vaultOf seen ws arbitrary: es rule: payload_entries.induct)
    case (2 vaultOf seen w ws)
    have nonneg: "entry_bps w = Some b \<Longrightarrow> 0 \<le> b" for b
      by (auto simp: entry_bps_def split: js.splits if_splits)
    from "2.prems" obtain key bps where k: "map_of BUCKET_VAULT (entry_bucket w) = Some key" "entry_bucket w \<notin> set seen" "entry_bps w = Some bps"
      and rest: "(case key of None \<Rightarrow> if bps > 0 then Inl usage_error else payload_entries vaultOf (entry_bucket w # seen) ws
        | Some k \<Rightarrow> res_bind (payload_entries vaultOf (entry_bucket w # seen) ws) (\<lambda>es. Inr ((vaultOf k, bps) # es))) = Inr es"
      by (auto simp: Let_def of_option_def simp del: map_of.simps split: option.splits)
    obtain es' where es': "payload_entries vaultOf (entry_bucket w # seen) ws = Inr es'"
      and es: "es = (case key of None \<Rightarrow> es' | Some k \<Rightarrow> (vaultOf k, bps) # es')" "key = None \<Longrightarrow> bps = 0"
      using rest nonneg [OF k(3)] by (auto split: option.splits if_splits)
    have IH: "es' = List.map_filter (leg_of vaultOf) ws
      \<and> (\<forall>w \<in> set ws. entry_bps w \<noteq> None \<and> (leg_of vaultOf w = None \<longrightarrow> entry_bps w = Some 0))
      \<and> distinct (map entry_bucket ws) \<and> set (map entry_bucket ws) \<inter> set (entry_bucket w # seen) = {}"
      using "2.IH" es' k rest by (cases key) (auto split: if_splits)
    have leg: "leg_of vaultOf w = (case key of None \<Rightarrow> None | Some k \<Rightarrow> Some (vaultOf k, bps))"
      using k by (simp add: leg_of_def split: option.splits)
    show ?case using IH es leg k(2,3) by (auto simp: map_filter_simps split: option.splits)
  qed (simp add: map_filter_simps)
  then show "es = List.map_filter (leg_of vaultOf) ws"
    "\<forall>w \<in> set ws. entry_bps w \<noteq> None \<and> (leg_of vaultOf w = None \<longrightarrow> entry_bps w = Some 0)"
    "distinct (map entry_bucket ws) \<and> set (map entry_bucket ws) \<inter> set seen = {}" by blast+
qed

lemma indexOf_nth:
  assumes "distinct xs" "i < length xs"
  shows "Stages.indexOf xs (xs ! i) = int i"
proof -
  have xs: "xs = take i xs @ xs ! i # drop (Suc i) xs" using assms(2) by (rule id_take_nth_drop)
  have "xs ! i \<notin> set (take i xs)"
  proof -
    have "distinct (take i xs @ xs ! i # drop (Suc i) xs)" using assms(1) xs by simp
    then show ?thesis by simp
  qed
  from indexOf_split [OF this, of "drop (Suc i) xs"] show ?thesis using assms(2) by (simp flip: xs)
qed

text \<open>A list of the elements of a list, in the order of their places there, is that list.\<close>

lemma sorted_by_place:
  assumes "distinct want" "distinct xs" "set xs = set want" "sorted (map (Stages.indexOf want) xs)"
  shows "xs = want"
proof -
  let ?f = "Stages.indexOf want"
  have nth: "want ! nat (?f x) = x \<and> ?f x = int (nat (?f x))" if "x \<in> set want" for x
    using that assms(1) by (auto simp: in_set_conv_nth indexOf_nth)
  have inj: "inj_on ?f (set want)" using nth by (metis inj_on_def)
  have "map ?f want = map int [0..<length want]" by (intro nth_equalityI) (simp_all add: indexOf_nth assms(1))
  then have "sorted (map ?f want)" by (simp add: sorted_map)
  then have "map ?f xs = map ?f want"
    using assms inj by (intro sorted_distinct_set_unique) (auto simp: distinct_map)
  then show ?thesis using inj assms(3) by (metis map_inj_on inf_sup_aci(5) sup.idem)
qed

lemma registry_order_places:
  assumes "length (wv_bps v) = length (wv_vaults v)" "distinct (map lc (wv_vaults v))" "set (map lc (wv_vaults v)) = set want" "distinct want"
  shows "map lc (wv_vaults (registry_order want v)) = want"
    and "mset (zip (wv_vaults (registry_order want v)) (wv_bps (registry_order want v))) = mset (zip (wv_vaults v) (wv_bps v))"
proof -
  let ?n = "length (wv_vaults v)"
  define order where "order = sort_key (\<lambda>k. Stages.indexOf want (lc (wv_vaults v ! k))) [0..<?n]"
  have order: "mset order = mset [0..<?n]" by (simp add: order_def)
  have vaults: "wv_vaults (registry_order want v) = map (\<lambda>k. wv_vaults v ! k) order"
    and bps: "wv_bps (registry_order want v) = map (\<lambda>k. wv_bps v ! k) order" by (simp_all add: registry_order_def order_def Let_def)
  have lcs: "mset (map lc (wv_vaults (registry_order want v))) = mset (map lc (wv_vaults v))"
  proof -
    have "mset (map (\<lambda>k. wv_vaults v ! k) order) = mset (map (\<lambda>k. wv_vaults v ! k) [0..<?n])" by (simp only: mset_map order)
    then show ?thesis by (simp only: vaults mset_map map_nth)
  qed
  show "map lc (wv_vaults (registry_order want v)) = want"
  proof (rule sorted_by_place [OF assms(4)])
    show "distinct (map lc (wv_vaults (registry_order want v)))" using lcs assms(2) by (rule mset_eq_imp_distinct_iff [THEN iffD2])
    show "set (map lc (wv_vaults (registry_order want v))) = set want" using mset_eq_setD [OF lcs] assms(3) by simp
    have "map (Stages.indexOf want) (map lc (wv_vaults (registry_order want v)))
      = map (\<lambda>k. Stages.indexOf want (lc (wv_vaults v ! k))) order" by (simp add: vaults)
    then show "sorted (map (Stages.indexOf want) (map lc (wv_vaults (registry_order want v))))"
      by (simp only: order_def sorted_sort_key)
  qed
  have "zip (wv_vaults (registry_order want v)) (wv_bps (registry_order want v)) = map (\<lambda>k. zip (wv_vaults v) (wv_bps v) ! k) order"
  proof -
    have "k \<in> set order \<Longrightarrow> k < ?n" for k using mset_eq_setD [OF order] by simp
    then show ?thesis using assms(1) by (simp add: vaults bps zip_map_map zip_same_conv_map comp_def case_prod_unfold)
  qed
  then have "mset (zip (wv_vaults (registry_order want v)) (wv_bps (registry_order want v)))
      = mset (map (\<lambda>k. zip (wv_vaults v) (wv_bps v) ! k) [0..<?n])" by (simp only: mset_map order)
  then show "mset (zip (wv_vaults (registry_order want v)) (wv_bps (registry_order want v))) = mset (zip (wv_vaults v) (wv_bps v))"
    using assms(1) by (metis length_zip map_nth min.idem)
qed

lemma payloadVector_Inr:
  assumes "payloadVector parse_json payload vaultOf eligible' = Inr v"
  obtains doc ws where "parse_json (decode_text payload) = Some doc" "jget doc ''weights'' = JArr ws"
    "payload_entries vaultOf [] ws = Inr (List.map_filter (leg_of vaultOf) ws)"
    "sum_list (map Product_Type.snd (List.map_filter (leg_of vaultOf) ws)) = BPS_TOTAL"
    "zip (wv_vaults v) (wv_bps v)
       = filter (\<lambda>e. Product_Type.snd e > 0 \<or> lc (fst e) \<in> set (map lc eligible')) (List.map_filter (leg_of vaultOf) ws)"
    "length (wv_bps v) = length (wv_vaults v)"
proof -
  from assms obtain doc ws es where d: "parse_json (decode_text payload) = Some doc" "js_list (jget doc ''weights'') = Some ws"
    "payload_entries vaultOf [] ws = Inr es" "sum_list (map Product_Type.snd es) = BPS_TOTAL"
    and v: "v = (let kept = filter (\<lambda>e. Product_Type.snd e > 0 \<or> lc (fst e) \<in> set (map lc eligible')) es in
      \<lparr>wv_vaults = map fst kept, wv_bps = map Product_Type.snd kept\<rparr>)"
    by (auto simp: payloadVector_def Let_def)
  have es: "es = List.map_filter (leg_of vaultOf) ws" by (rule payload_entries_legs(1) [OF d(3)])
  have ws: "jget doc ''weights'' = JArr ws" using d(2) by (simp add: js_list_def split: js.splits)
  show ?thesis
    by (rule that [OF d(1) ws]) (use d es v in \<open>simp_all add: Let_def zip_map_fst_snd\<close>)
qed

text \<open>What is dropped weighs nothing.\<close>

lemma sum_kept:
  assumes "\<forall>e \<in> set es. 0 \<le> (Product_Type.snd e :: int)" "\<And>e. e \<in> set es \<Longrightarrow> \<not> P e \<Longrightarrow> Product_Type.snd e \<le> 0"
  shows "sum_list (map Product_Type.snd (filter P es)) = sum_list (map Product_Type.snd es)"
  using assms
proof (induction es)
  case (Cons e es)
  have "sum_list (map Product_Type.snd (filter P es)) = sum_list (map Product_Type.snd es)" using Cons by simp
  moreover have "\<not> P e \<Longrightarrow> Product_Type.snd e = 0" using Cons.prems by (metis list.set_intros(1) order_antisym)
  ultimately show ?case by simp
qed simp

lemma entry_bps_range: "entry_bps w = Some b \<Longrightarrow> 0 \<le> b \<and> b \<le> BPS_TOTAL"
  by (auto simp: entry_bps_def split: js.splits if_splits)

lemma leg_bps: "e \<in> set (List.map_filter (leg_of vaultOf) ws) \<Longrightarrow> 0 \<le> Product_Type.snd e \<and> Product_Type.snd e \<le> BPS_TOTAL"
proof -
  assume "e \<in> set (List.map_filter (leg_of vaultOf) ws)"
  then obtain w where "leg_of vaultOf w = Some e" by (auto simp: map_filter_def)
  then show ?thesis by (auto simp: leg_of_def dest: entry_bps_range split: option.splits)
qed

lemma subset_card_eq:
  assumes "distinct got" "length got = length want" "list_all (\<lambda>a. a \<in> set want) got"
  shows "distinct want \<and> set got = set want"
proof -
  have sub: "set got \<subseteq> set want" using assms(3) by (auto simp: list_all_iff)
  have "card (set got) = length want" using assms(1,2) distinct_card by metis
  then have "card (set want) = length want" using card_mono [OF _ sub] card_length [of want] by simp
  then show ?thesis using sub \<open>card (set got) = length want\<close> card_distinct by (metis card_subset_eq List.finite_set)
qed

lemma planApply_parts:
  assumes "planApply keccak parse_json i = Inr v"
  shows "map lc (wv_vaults v) = map lc (ai_eligible i) \<and> length (wv_bps v) = length (wv_vaults v) \<and> sum_list (wv_bps v) = BPS_TOTAL"
    and "\<exists>doc ws. parse_json (decode_text (ai_payload i)) = Some doc \<and> jget doc ''weights'' = JArr ws
      \<and> distinct (map entry_bucket ws)
      \<and> (\<forall>w \<in> set ws. \<exists>b. entry_bps w = Some b \<and> (0 < b \<longrightarrow> leg_of (ai_vaultOf i) w \<noteq> None))
      \<and> mset (zip (wv_vaults v) (wv_bps v))
        = mset (filter (\<lambda>e. Product_Type.snd e > 0 \<or> lc (fst e) \<in> set (map lc (ai_eligible i))) (List.map_filter (leg_of (ai_vaultOf i)) ws))"
    and "\<exists>stored. ai_storedDigest i = Some stored \<and> lc (receiptPayloadDigest keccak (ai_payload i)) = lc stored"
    and "ai_inFlight i \<or> ai_recorded i \<and> \<not> ai_released i
      \<and> (\<forall>at' last'. ai_recordedAt i = Some at' \<longrightarrow> ai_lastAppliedRecordedAt i = Some last' \<longrightarrow> last' < at')"
proof -
  from assms obtain stored u where gate: "ai_inFlight i \<or> ai_recorded i \<and> \<not> ai_released i \<and> \<not> not_newer (ai_recordedAt i) (ai_lastAppliedRecordedAt i)"
    and stored: "ai_storedDigest i = Some stored" "lc (receiptPayloadDigest keccak (ai_payload i)) = lc stored"
    and u: "payloadVector parse_json (ai_payload i) (ai_vaultOf i) (ai_eligible i) = Inr u"
    and got: "length (wv_vaults u) = length (ai_eligible i)" "distinct (map lc (wv_vaults u))"
      "list_all (\<lambda>a. a \<in> set (map lc (ai_eligible i))) (map lc (wv_vaults u))"
    and v: "v = registry_order (map lc (ai_eligible i)) u"
    unfolding planApply_def Let_def res_bind_Inr ensure_Inr of_option_Inr sum.inject by (elim exE conjE) simp
  obtain doc ws where doc: "parse_json (decode_text (ai_payload i)) = Some doc" "jget doc ''weights'' = JArr ws"
    and es: "payload_entries (ai_vaultOf i) [] ws = Inr (List.map_filter (leg_of (ai_vaultOf i)) ws)"
    and total: "sum_list (map Product_Type.snd (List.map_filter (leg_of (ai_vaultOf i)) ws)) = BPS_TOTAL"
    and kept: "zip (wv_vaults u) (wv_bps u)
       = filter (\<lambda>e. Product_Type.snd e > 0 \<or> lc (fst e) \<in> set (map lc (ai_eligible i))) (List.map_filter (leg_of (ai_vaultOf i)) ws)"
    and len: "length (wv_bps u) = length (wv_vaults u)"
    by (rule payloadVector_Inr [OF u])
  have set: "distinct (map lc (ai_eligible i)) \<and> set (map lc (wv_vaults u)) = set (map lc (ai_eligible i))"
    using got by (intro subset_card_eq) simp_all
  note order = registry_order_places [OF len got(2), of "map lc (ai_eligible i)", folded v]
  have lv: "length (wv_bps v) = length (wv_vaults v)" by (simp add: v registry_order_def Let_def)
  have "sum_list (wv_bps v) = sum_list (map Product_Type.snd (zip (wv_vaults u) (wv_bps u)))"
  proof -
    have "mset (map Product_Type.snd (zip (wv_vaults v) (wv_bps v))) = mset (map Product_Type.snd (zip (wv_vaults u) (wv_bps u)))"
      using order(2) set by (simp only: mset_map)
    then show ?thesis using lv by (metis map_snd_zip sum_mset_sum_list)
  qed
  also have "\<dots> = BPS_TOTAL"
    unfolding kept total [symmetric] by (rule sum_kept) (use leg_bps in \<open>auto\<close>)
  finally show "map lc (wv_vaults v) = map lc (ai_eligible i) \<and> length (wv_bps v) = length (wv_vaults v) \<and> sum_list (wv_bps v) = BPS_TOTAL"
    using order(1) set lv by simp
  have legs: "\<forall>w \<in> set ws. \<exists>b. entry_bps w = Some b \<and> (0 < b \<longrightarrow> leg_of (ai_vaultOf i) w \<noteq> None)"
    using payload_entries_legs(2) [OF es] by fastforce
  show "\<exists>doc ws. parse_json (decode_text (ai_payload i)) = Some doc \<and> jget doc ''weights'' = JArr ws
      \<and> distinct (map entry_bucket ws)
      \<and> (\<forall>w \<in> set ws. \<exists>b. entry_bps w = Some b \<and> (0 < b \<longrightarrow> leg_of (ai_vaultOf i) w \<noteq> None))
      \<and> mset (zip (wv_vaults v) (wv_bps v))
        = mset (filter (\<lambda>e. Product_Type.snd e > 0 \<or> lc (fst e) \<in> set (map lc (ai_eligible i))) (List.map_filter (leg_of (ai_vaultOf i)) ws))"
    using doc legs payload_entries_legs(3) [OF es] order(2) set kept by (intro exI [of _ doc] exI [of _ ws]) simp
  show "\<exists>stored. ai_storedDigest i = Some stored \<and> lc (receiptPayloadDigest keccak (ai_payload i)) = lc stored" using stored by blast
  show "ai_inFlight i \<or> ai_recorded i \<and> \<not> ai_released i
      \<and> (\<forall>at' last'. ai_recordedAt i = Some at' \<longrightarrow> ai_lastAppliedRecordedAt i = Some last' \<longrightarrow> last' < at')"
    using gate by (auto simp: not_newer_def)
qed


text \<open>A payload that names the retired bucket at zero, in the order receipts list their buckets.\<close>

definition sample_weight :: "string \<Rightarrow> int \<Rightarrow> js" where
  "sample_weight b n = JObj [(''bucket'', JStr b), (''weight_bps'', JNum n)]"

definition sample_payload_doc :: js where
  "sample_payload_doc = JObj [(''weights'', JArr [sample_weight ''agent_tokens'' 0, sample_weight ''conservative_defi_yield'' 9500,
     sample_weight ''protocol_tokens'' 500, sample_weight ''real_world_assets'' 0])]"

definition sample_vault_of :: "string \<Rightarrow> string" where
  "sample_vault_of k = sample_addr (if k = ''USDC'' then ''a1'' else if k = ''PROTO'' then ''b2'' else ''c3'')"

definition sample_apply :: ApplyInputs where
  "sample_apply = \<lparr>ai_receiptId = ''0x01'', ai_payload = ''{}'', ai_recorded = True, ai_released = False,
     ai_storedDigest = Some (receiptPayloadDigest (keccak_hex sample_viem) ''{}''), ai_recordedAt = Some 20, ai_lastAppliedRecordedAt = Some 10,
     ai_eligible = [sample_addr ''C3'', sample_addr ''A1'', sample_addr ''B2''], ai_vaultOf = sample_vault_of, ai_inFlight = False\<rparr>"

definition sample_vector :: WeightVector where
  "sample_vector = \<lparr>wv_vaults = [sample_addr ''c3'', sample_addr ''a1'', sample_addr ''b2''], wv_bps = [0, 9500, 500]\<rparr>"

lemma sample_apply_planned: "planApply (keccak_hex sample_viem) (\<lambda>_. Some sample_payload_doc) sample_apply = Inr sample_vector"
  by code_simp


section \<open>Read-backs compare vectors\<close>

definition plain_vector :: "string list \<Rightarrow> int list \<Rightarrow> bool" where
  "plain_vector vs bs \<longleftrightarrow> length bs = length vs \<and> (\<forall>v \<in> set vs. CHR '','' \<notin> set (lc v) \<and> CHR '':'' \<notin> set (lc v))"

lemma show_int_plain: "CHR '','' \<notin> set (show_int i)" "CHR '':'' \<notin> set (show_int i)"
  using show_int_digits [of i] by (auto simp: is_digit_def)

lemma join_Nil_iff: "\<forall>x \<in> set xs. x \<noteq> [] \<Longrightarrow> join sep xs = [] \<longleftrightarrow> xs = []"
  by (induction xs rule: induct_list012) auto

lemma key_leg_inject:
  assumes "CHR '':'' \<notin> set a" "CHR '':'' \<notin> set b" "a @ '':'' @ show_int i = b @ '':'' @ show_int j"
  shows "a = b \<and> i = j"
proof -
  have "split_on (CHR '':'') (a @ CHR '':'' # show_int i) = split_on (CHR '':'') (b @ CHR '':'' # show_int j)" using assms(3) by simp
  then show ?thesis using assms(1,2) by (simp add: split_on_append split_on_plain show_int_plain)
qed

lemma vectorKey_inject:
  assumes "plain_vector vs bs" "plain_vector ws cs" "vectorKey vs bs = vectorKey ws cs"
  shows "map lc vs = map lc ws \<and> bs = cs"
proof -
  let ?leg = "\<lambda>vs bs k. lc (vs ! k) @ '':'' @ show_int (bs ! k :: int)"
  have key: "vectorKey vs bs = join '','' (map (?leg vs bs) [0..<length vs])" if "plain_vector vs bs" for vs bs
    using that by (auto simp: vectorKey_def plain_vector_def bps_text_def intro!: arg_cong [of _ _ "join '',''"])
  have free: "\<forall>x \<in> set (map (?leg vs bs) [0..<length vs]). CHR '','' \<notin> set x" if "plain_vector vs bs" for vs bs
    using that show_int_plain by (auto simp: plain_vector_def)
  have empty: "vectorKey vs bs = [] \<longleftrightarrow> vs = []" if "plain_vector vs bs" for vs bs
    using that join_Nil_iff [of "map (?leg vs bs) [0..<length vs]" "'',''"] by (auto simp: key [OF that])
  have legs: "map (?leg vs bs) [0..<length vs] = map (?leg ws cs) [0..<length ws]"
  proof (cases "vs = []")
    case True
    then have "ws = []" using assms empty by metis
    with True show ?thesis by simp
  next
    case False
    then have "ws \<noteq> []" using assms empty by metis
    with False show ?thesis
      using assms(3) split_on_join [OF _ free [OF assms(1)]] split_on_join [OF _ free [OF assms(2)]]
      by (simp add: key [OF assms(1)] key [OF assms(2)])
  qed
  then have "length (map (?leg vs bs) [0..<length vs]) = length (map (?leg ws cs) [0..<length ws])" by (rule arg_cong)
  then have len: "length vs = length ws" by simp
  have nth: "lc (vs ! k) = lc (ws ! k) \<and> bs ! k = cs ! k" if "k < length vs" for k
  proof (rule key_leg_inject)
    show "?leg vs bs k = ?leg ws cs k" using legs that len by simp
  qed (use that assms(1,2) len in \<open>auto simp: plain_vector_def\<close>)
  show ?thesis
    using nth len assms(1,2) by (auto simp: plain_vector_def intro!: nth_equalityI)
qed

text \<open>
  C14. The read-back of an applied receipt passes exactly when the receipt reads released, the router's active vector and the vector deposits
  route by are both the vector sent (letter case of the addresses aside), and the active one is in effect: comparing the vectors as text
  takes no two for the same.
\<close>

theorem apply_read_back_exact:
  assumes "plain_vector (wv_vaults v) (wv_bps v)" "plain_vector (rb_activeVaults r) (rb_activeBps r)"
    "plain_vector (rb_effectiveVaults r) (rb_effectiveBps r)"
  shows "applyReadBackProblems receiptId released r v = [] \<longleftrightarrow>
     released \<and> rb_votedWeightsActive r
     \<and> map lc (rb_activeVaults r) = map lc (wv_vaults v) \<and> rb_activeBps r = wv_bps v
     \<and> map lc (rb_effectiveVaults r) = map lc (wv_vaults v) \<and> rb_effectiveBps r = wv_bps v"
proof -
  have eq: "vectorKey vs bs = vectorKey (wv_vaults v) (wv_bps v) \<longleftrightarrow> map lc vs = map lc (wv_vaults v) \<and> bs = wv_bps v"
    if p: "plain_vector vs bs" for vs bs
  proof
    assume same: "map lc vs = map lc (wv_vaults v) \<and> bs = wv_bps v"
    then have len: "length vs = length (wv_vaults v)" by (metis length_map)
    have "lc (vs ! k) = lc (wv_vaults v ! k)" if "k < length vs" for k using same len that by (metis nth_map)
    with len same show "vectorKey vs bs = vectorKey (wv_vaults v) (wv_bps v)" by (auto simp: vectorKey_def intro!: arg_cong [of _ _ "join '',''"])
  qed (use vectorKey_inject [OF p assms(1)] in blast)
  show ?thesis
    using eq [OF assms(2)] eq [OF assms(3)] by (auto simp: applyReadBackProblems_def Let_def)
qed

definition sample_read_back :: "bool \<Rightarrow> RouterReadBack" where
  "sample_read_back voted = \<lparr>rb_activeVaults = ai_eligible sample_apply, rb_activeBps = [0, 9500, 500],
     rb_effectiveVaults = ai_eligible sample_apply, rb_effectiveBps = [0, 9500, 500], rb_votedWeightsActive = voted\<rparr>"

lemma sample_plain: "plain_vector (wv_vaults sample_vector) (wv_bps sample_vector)" "plain_vector (ai_eligible sample_apply) [0, 9500, 500]"
  by (simp_all add: plain_vector_def) code_simp+

theorem apply_read_back_exact_witness:
  "applyReadBackProblems ''0x01'' True (sample_read_back True) sample_vector = []
   \<and> applyReadBackProblems ''0x01'' True (sample_read_back False) sample_vector \<noteq> []"
proof -
  have pl: "plain_vector (rb_activeVaults (sample_read_back b)) (rb_activeBps (sample_read_back b))"
    "plain_vector (rb_effectiveVaults (sample_read_back b)) (rb_effectiveBps (sample_read_back b))" for b
    using sample_plain by (simp_all add: sample_read_back_def)
  have ex: "applyReadBackProblems ''0x01'' True (sample_read_back b) sample_vector = [] \<longleftrightarrow>
     b \<and> map lc (ai_eligible sample_apply) = map lc (wv_vaults sample_vector) \<and> [0, 9500, 500] = wv_bps sample_vector" for b
    by (subst apply_read_back_exact [OF sample_plain(1) pl]) (auto simp: sample_read_back_def)
  have "map lc (ai_eligible sample_apply) = map lc (wv_vaults sample_vector)" "wv_bps sample_vector = [0, 9500, 500]" by code_simp+
  then show ?thesis by (simp add: ex)
qed

section \<open>The two forms of a receipt file\<close>

lemma domain_split: "startsWithDomain b \<Longrightarrow> b = RECEIPT_DOMAIN @ receipt_body b"
  unfolding startsWithDomain_def receipt_body_def starts_with_def by (metis append_take_drop_id)

lemma starts_with_append: "starts_with p (p @ s)"
  by (simp add: starts_with_def)

lemma not_domain: "starts_with ''{'' (strip_bom b) \<Longrightarrow> \<not> startsWithDomain b"
  by (cases b) (auto simp: startsWithDomain_def starts_with_def RECEIPT_DOMAIN_def strip_bom_def split: if_splits)

lemma supported_parts:
  assumes "supportedReceiptPayload keccak parse_json (Some b) = Inr s"
  obtains decoded doc where "decode_fatal (receipt_body b) = Some decoded" "starts_with ''{'' decoded" "ends_with (''}'' @ [LF]) decoded" "parse_json decoded = Some doc"
    "jstr (jget doc ''session_id'') = Some (sp_sessionId s)" "jstr (jget doc ''subject_id'') = Some (sp_subjectId s)"
    "sp_digest s = receiptPayloadDigest keccak b" "sp_receiptId s = deriveReceiptId keccak (sp_sessionId s) (sp_subjectId s)"
proof -
  from assms obtain decoded doc x y where "decode_fatal (receipt_body b) = Some decoded" "starts_with ''{'' decoded" "ends_with (''}'' @ [LF]) decoded"
    "parse_json decoded = Some doc" "nonempty_str (jget doc ''session_id'') = Some x" "nonempty_str (jget doc ''subject_id'') = Some y"
    "s = \<lparr>sp_digest = receiptPayloadDigest keccak b, sp_receiptId = deriveReceiptId keccak x y, sp_sessionId = x, sp_subjectId = y\<rparr>"
    by (auto simp: supportedReceiptPayload_def split: if_splits)
  then show ?thesis by (intro that) (auto simp: nonempty_str_def split: option.splits if_splits)
qed

text \<open>
  A receipt file may be the bytes the canonical route serves or the full preimage with the domain line. A payload accepted in one form is
  accepted in the other with the same digest and receipt id, the id is the one read from the bytes, and the digest is the one that is checked
  against the chain.
\<close>

theorem receipt_forms_agree:
  assumes "supportedReceiptPayload keccak parse_json (Some b) = Inr s"
  shows "supportedReceiptPayload keccak parse_json (Some (receipt_body b)) = Inr s
    \<and> supportedReceiptPayload keccak parse_json (Some (RECEIPT_DOMAIN @ receipt_body b)) = Inr s
    \<and> receiptIdOfBytes keccak parse_json b = Some (sp_receiptId s)
    \<and> (assertDigestMatchesBytes keccak b d = Inr () \<longleftrightarrow> lc d = lc (sp_digest s))"
proof -
  obtain decoded doc where t: "decode_fatal (receipt_body b) = Some decoded" "starts_with ''{'' decoded" "parse_json decoded = Some doc"
    "jstr (jget doc ''session_id'') = Some (sp_sessionId s)" "jstr (jget doc ''subject_id'') = Some (sp_subjectId s)"
    "sp_digest s = receiptPayloadDigest keccak b" "sp_receiptId s = deriveReceiptId keccak (sp_sessionId s) (sp_subjectId s)"
    by (rule supported_parts [OF assms])
  have decoded: "decoded = strip_bom (receipt_body b)" using t(1) by (simp add: decode_fatal_def split: if_splits)
  have nd: "\<not> startsWithDomain (receipt_body b)" using t(2) decoded by (intro not_domain) simp
  have ne: "receipt_body b \<noteq> []" using t(2) decoded by (auto simp: starts_with_def strip_bom_def)
  have pre: "receiptPreimage (receipt_body b) = receiptPreimage b" "receiptPreimage (RECEIPT_DOMAIN @ receipt_body b) = receiptPreimage b"
    using nd domain_split [of b] starts_with_append [of RECEIPT_DOMAIN]
    by (auto simp: receiptPreimage_def startsWithDomain_def receipt_body_def)
  have body: "receipt_body (receipt_body b) = receipt_body b" "receipt_body (RECEIPT_DOMAIN @ receipt_body b) = receipt_body b"
    using nd starts_with_append [of RECEIPT_DOMAIN] by (simp_all add: receipt_body_def startsWithDomain_def)
  have "b \<noteq> []" using assms by (auto simp: supportedReceiptPayload_def)
  then have "supportedReceiptPayload keccak parse_json (Some (receipt_body b)) = supportedReceiptPayload keccak parse_json (Some b)"
    "supportedReceiptPayload keccak parse_json (Some (RECEIPT_DOMAIN @ receipt_body b)) = supportedReceiptPayload keccak parse_json (Some b)"
    using ne by (simp_all add: supportedReceiptPayload_def body receiptPayloadDigest_def pre)
  moreover have "receiptIdOfBytes keccak parse_json b = Some (sp_receiptId s)"
    using t(3-5,7) decode_fatal_text [OF t(1)] by (auto simp: receiptIdOfBytes_def split: option.splits)
  ultimately show ?thesis using assms t(6) by (auto simp: assertDigestMatchesBytes_def)
qed

definition sample_receipt_doc :: js where
  "sample_receipt_doc = JObj [(''schema_version'', JStr ''1.0''), (''session_id'', JStr ''s''), (''subject_id'', JStr ''t'')]"

theorem receipt_forms_agree_witness:
  "supportedReceiptPayload (keccak_hex sample_viem) (\<lambda>_. Some sample_receipt_doc) (Some (''{ }'' @ [LF]))
     = supportedReceiptPayload (keccak_hex sample_viem) (\<lambda>_. Some sample_receipt_doc) (Some (RECEIPT_DOMAIN @ ''{ }'' @ [LF]))
   \<and> is_ok (supportedReceiptPayload (keccak_hex sample_viem) (\<lambda>_. Some sample_receipt_doc) (Some (''{ }'' @ [LF])))"
proof -
  let ?b = "''{ }'' @ [LF]"
  have body: "receipt_body ?b = ?b" by code_simp
  have "is_ok (supportedReceiptPayload (keccak_hex sample_viem) (\<lambda>_. Some sample_receipt_doc) (Some ?b))" by code_simp
  then obtain s where s: "supportedReceiptPayload (keccak_hex sample_viem) (\<lambda>_. Some sample_receipt_doc) (Some ?b) = Inr s"
    by (auto simp: is_ok_def split: sum.splits)
  from receipt_forms_agree [OF s] s show ?thesis by (simp only: body) (simp add: is_ok_def)
qed

text \<open>
  The file given to the row that applies a receipt has to be the served form: the digest of the full preimage is the stored one, and
  yet its text, which starts with the domain line, is no JSON, so the plan is refused before anything is sent.
\<close>

theorem apply_refuses_preimage:
  assumes "\<And>t. starts_with RECEIPT_DOMAIN t \<Longrightarrow> parse_json t = None"
  shows "receiptPayloadDigest keccak (RECEIPT_DOMAIN @ b) = keccak (RECEIPT_DOMAIN @ b)
    \<and> planApply keccak parse_json (i\<lparr>ai_payload := RECEIPT_DOMAIN @ b\<rparr>) = Inl usage_error"
proof -
  have "utf8_lossy (c # t) = c # utf8_lossy t" if "char_code c < 0x80" for c t
    using that by (simp add: utf8_unit_def utf8_follow_def)
  then have "list_all (\<lambda>c. char_code c < 0x80) p \<Longrightarrow> utf8_lossy (p @ t) = p @ utf8_lossy t" for p t
    by (induction p) (simp_all del: utf8_lossy.simps)
  moreover have "list_all (\<lambda>c. char_code c < 0x80) RECEIPT_DOMAIN" by code_simp
  ultimately have "utf8_lossy (RECEIPT_DOMAIN @ b) = RECEIPT_DOMAIN @ utf8_lossy b" by blast
  moreover have "strip_bom (RECEIPT_DOMAIN @ b) = RECEIPT_DOMAIN @ b" by (simp add: strip_bom_def RECEIPT_DOMAIN_def)
  ultimately have none: "parse_json (decode_text (RECEIPT_DOMAIN @ b)) = None"
    using assms starts_with_append by (simp add: decode_text_def)
  have "planApply keccak parse_json (i\<lparr>ai_payload := RECEIPT_DOMAIN @ b\<rparr>) = Inl e \<longrightarrow> e = usage_error" for e
    by (auto simp: planApply_def payloadVector_def none res_bind_Inl of_option_def Let_def split: option.splits)
  moreover have "planApply keccak parse_json (i\<lparr>ai_payload := RECEIPT_DOMAIN @ b\<rparr>) \<noteq> Inr v" for v
    by (simp add: planApply_def payloadVector_def none)
  ultimately have "planApply keccak parse_json (i\<lparr>ai_payload := RECEIPT_DOMAIN @ b\<rparr>) = Inl usage_error"
    by (cases "planApply keccak parse_json (i\<lparr>ai_payload := RECEIPT_DOMAIN @ b\<rparr>)") auto
  then show ?thesis
    using starts_with_append [of RECEIPT_DOMAIN] by (simp add: receiptPayloadDigest_def receiptPreimage_def startsWithDomain_def)
qed

theorem apply_refuses_preimage_witness:
  "planApply (keccak_hex sample_viem) (\<lambda>t. if starts_with RECEIPT_DOMAIN t then None else Some sample_payload_doc)
     (sample_apply\<lparr>ai_payload := RECEIPT_DOMAIN @ ''{}''\<rparr>) = Inl usage_error"
  by (rule conjunct2 [OF apply_refuses_preimage]) simp

end
