(* ===== verification/VaultRows.thy ===== *)
theory VaultRows
  imports ReceiptRows SheetRules
begin

text \<open>
  Two rows that change one vault: the retirement (publish-contracts/src/retire-vault.ts) and the emergency unwind
  guard (unwind-guard.ts). Both modules are pure: they check arguments, build the calls of one timelock operation and judge what
  the chain reads before and after it. viem's functions are the parameter of the other components.
\<close>

abbreviation govern_failure :: failure where
  "govern_failure \<equiv> PublishError GOVERN"

section \<open>Retiring a vault\<close>

definition RETIRE_ROW :: string where "RETIRE_ROW = ''retire-vault''"
definition STAYING_KEYS :: "string list" where "STAYING_KEYS = [''USDC'', ''PROTO'', ''RWA'']"
definition STATUS_ACTIVE :: int where "STATUS_ACTIVE = 0"
definition STATUS_RETIRED :: int where "STATUS_RETIRED = 2"

text \<open>\<open>STATUS_NAME[s] ?? s\<close>\<close>

definition status_text :: "int \<Rightarrow> string" where
  "status_text s =
     (if s = 0 then ''Active'' else if s = 1 then ''DepositsPaused'' else if s = 2 then ''Retired'' else show_int s)"

record RetireArgs =
  ra_vault :: "string option"
  ra_weights :: "string option"

record RetireWant =
  rw_vault :: string
  rw_weights :: "(string \<times> int) list"

text \<open>
  \<open>/^\s*([A-Z]+):([0-9]+)\s*$/\<close> with \<open>Number\<close> of the digits. A number too large to be exact makes the sum differ from 10000
  either way, so the weights are read as integers.
\<close>

definition weight_pair :: "string \<Rightarrow> (string \<times> int) option" where
  "weight_pair p =
     (let t = trim p; k = takeWhile is_upper t in
      case dropWhile is_upper t of
        c # n \<Rightarrow> if k \<noteq> [] \<and> c = CHR '':'' \<and> all_digits n then Some (k, int (read_nat n)) else None
      | [] \<Rightarrow> None)"

text \<open>The weights by the keys that stay; each is there when the keys have been checked.\<close>

definition staying_weights :: "(string \<times> int) list \<Rightarrow> (string \<times> int) list" where
  "staying_weights ws = List.map_filter (\<lambda>k. find (\<lambda>w. fst w = k) ws) STAYING_KEYS"

definition parseRetireArgs :: "'a viem_scheme \<Rightarrow> RetireArgs option \<Rightarrow> failure + RetireWant" where
  "parseRetireArgs V given =
     (let a = (case given of None \<Rightarrow> \<lparr>ra_vault = None, ra_weights = None\<rparr> | Some x \<Rightarrow> x) in
      res_bind (of_option usage_error (ra_vault a)) (\<lambda>vault.
      res_bind (ensure (hex_of_len 40 vault) usage_error) (\<lambda>_.
      res_bind (of_option usage_error (ra_weights a)) (\<lambda>ws.
      res_bind (map_res (\<lambda>p. of_option usage_error (weight_pair p)) (split_on (CHR '','') ws)) (\<lambda>weights.
      res_bind (ensure (sorted_text (map fst weights) = sorted_text STAYING_KEYS) usage_error) (\<lambda>_.
      res_bind (ensure (sum_list (map Product_Type.snd weights) = BPS_TOTAL) usage_error) (\<lambda>_.
      res_bind (of_option PlainError (getAddress V vault)) (\<lambda>addr.
      Inr \<lparr>rw_vault = addr, rw_weights = staying_weights weights\<rparr>))))))))"

definition weights_arg :: "RetireWant \<Rightarrow> string" where
  "weights_arg w = join '','' (map weight_text (rw_weights w))"

definition admin_args :: "string list \<Rightarrow> string" where
  "admin_args kvs = join '' '' (map (\<lambda>kv. ''--admin-arg '' @ kv) kvs)"

definition retireArgsText :: "RetireWant \<Rightarrow> string" where
  "retireArgsText w = admin_args [''vault='' @ rw_vault w, ''weights='' @ weights_arg w]"

definition retireRecordKey :: "string \<Rightarrow> string" where
  "retireRecordKey vault = RETIRE_ROW @ ''-'' @ drop 2 (lc vault)"

definition buildRetireCalls ::
  "'a viem_scheme \<Rightarrow> string \<Rightarrow> string \<Rightarrow> string list \<Rightarrow> int list \<Rightarrow> failure + LabelledCall list" where
  "buildRetireCalls V registry vault finalVaults finalBps =
     res_bind (ensure (length finalVaults = length STAYING_KEYS \<and> length finalVaults = length finalBps) govern_failure) (\<lambda>_.
     res_bind (ensure (distinct (map lc finalVaults)) govern_failure) (\<lambda>_.
     res_bind (ensure (lc vault \<notin> set (map lc finalVaults)) govern_failure) (\<lambda>_.
     res_bind (ensure (sum_list finalBps = BPS_TOTAL) govern_failure) (\<lambda>_.
     res_bind (encode_call V ''migrateEligibility'' [JStr vault, JBool False, js_addresses finalVaults, js_amounts finalBps]) (\<lambda>d1.
     res_bind (encode_call V ''retire'' [JStr vault]) (\<lambda>d2.
     Inr [call_to ''registry.migrateEligibility(vault, false, three legs)'' registry d1,
          call_to ''registry.retire(vault)'' registry d2]))))))"

record RetireBefore =
  be_listed :: "string list"
  be_status :: int
  be_eligible :: bool
  be_registryRouter :: string
  be_router :: string
  be_timelockIsRegistryAdmin :: bool
  be_votedWeightsActive :: bool
  be_defaultVaults :: "string list"
  be_hasCode :: bool

text \<open>A problem where the condition does not hold.\<close>

definition unless :: "bool \<Rightarrow> string \<Rightarrow> string list" where
  "unless c problem = (if c then [] else [problem])"

definition vector_problem :: "RetireWant \<Rightarrow> string list \<Rightarrow> RetireBefore \<Rightarrow> string list" where
  "vector_problem want finalVaults b =
     (let stays = filter (\<lambda>v. lc v \<noteq> lc (rw_vault want)) (be_defaultVaults b) in
      if lc (rw_vault want) \<notin> set (map lc (be_defaultVaults b))
      then [''the router's default vector does not hold the vault: ['' @ join '', '' (be_defaultVaults b) @ '']'']
      else unless (length stays = length finalVaults \<and> list_all (\<lambda>v. lc v \<in> set (map lc stays)) finalVaults)
             (''the vector that stays ['' @ join '', '' finalVaults @ ''] is not the router's current default vector without the vault [''
              @ join '', '' stays @ '']: the batch would revert LengthMismatch or VaultNotActive''))"

definition retireBeforeProblems :: "RetireWant \<Rightarrow> string list \<Rightarrow> RetireBefore \<Rightarrow> string list" where
  "retireBeforeProblems want finalVaults b =
     unless (be_hasCode b) (''the vault '' @ rw_vault want @ '' has no code'')
     @ unless (lc (rw_vault want) \<in> set (map lc (be_listed b))) (''the registry does not list the vault '' @ rw_vault want)
     @ unless (be_status b = STATUS_ACTIVE) (''the vault's registry status is '' @ status_text (be_status b) @ '', want Active'')
     @ unless (be_eligible b) ''the vault is not router-eligible: there is no eligibility to move, and the retire row only runs on an eligible vault''
     @ unless (lc (be_registryRouter b) = lc (be_router b))
         (''registry.router() is '' @ be_registryRouter b @ '', not the deployment's router '' @ be_router b @ '': migrateEligibility would revert RouterNotLinked'')
     @ unless (be_timelockIsRegistryAdmin b) ''the timelock does not hold ADMIN_ROLE on the registry: the batch would revert''
     @ unless (\<not> be_votedWeightsActive b)
         ''router.votedWeightsActive() is true: an applied receipt vector (which still names the vault) overrides the default. Run --row clear-voted-weights first, then apply a receipt over the three-vault set afterwards''
     @ vector_problem want finalVaults b"

record RetireAfter =
  rt_status :: int
  rt_eligible :: bool
  rt_eligibleCount :: int
  rt_votedWeightsActive :: bool
  rt_defaultVaults :: "string list"
  rt_defaultBps :: "int list"
  rt_effectiveVaults :: "string list"
  rt_effectiveBps :: "int list"
  rt_retiredFlag :: bool
  rt_hasCode :: bool

definition retireReadBackProblems :: "string list \<Rightarrow> int list \<Rightarrow> RetireAfter \<Rightarrow> string list" where
  "retireReadBackProblems finalVaults finalBps a =
     (let want = vectorKey finalVaults finalBps;
          d = vectorKey (rt_defaultVaults a) (rt_defaultBps a);
          e = vectorKey (rt_effectiveVaults a) (rt_effectiveBps a) in
      unless (rt_status a = STATUS_RETIRED) (''the vault's registry status is '' @ status_text (rt_status a) @ '', want Retired'')
      @ unless (\<not> rt_eligible a) ''the vault is still router-eligible''
      @ unless (rt_eligibleCount a = int (length finalVaults))
          (''registry.routerEligibleCount() is '' @ show_int (rt_eligibleCount a) @ '', want '' @ show_nat (length finalVaults))
      @ unless (\<not> rt_votedWeightsActive a) ''router.votedWeightsActive() is true: an applied receipt vector overrides the default the batch left''
      @ unless (d = want) (''router.getDefaultWeights() is ['' @ d @ ''], want ['' @ want @ '']'')
      @ unless (e = want) (''router.getEffectiveWeights() is ['' @ e @ ''], want ['' @ want @ '']'')
      @ unless (rt_retiredFlag a) ''the vault's retired() flag is false: its deposit halt did not run''
      @ unless (rt_hasCode a) ''the vault has no code: it must keep serving redeem and redeemInKind'')"

text \<open>The vaults the manifest records as retired; \<open>list\<close> is the manifest's \<open>vault_retirements\<close>.\<close>

definition retired_wanted :: "js \<Rightarrow> bool" where
  "retired_wanted e = (case jget e ''vault'' of JStr v \<Rightarrow> hex_of_len 40 v | _ \<Rightarrow> False)"

definition retired_address :: "js \<Rightarrow> string" where
  "retired_address e = (case jget e ''vault'' of JStr v \<Rightarrow> v | _ \<Rightarrow> [])"

fun retired_loop :: "string list \<Rightarrow> js list \<Rightarrow> string list" where
  "retired_loop seen [] = []"
| "retired_loop seen (e # es) =
     (if \<not> retired_wanted e \<or> lc (retired_address e) \<in> set seen then retired_loop seen es
      else retired_address e # retired_loop (lc (retired_address e) # seen) es)"

definition retiredVaultsOf :: "'a viem_scheme \<Rightarrow> js \<Rightarrow> failure + string list" where
  "retiredVaultsOf V list =
     map_res (\<lambda>v. of_option PlainError (getAddress V v)) (retired_loop [] (case js_list list of None \<Rightarrow> [] | Some es \<Rightarrow> es))"

section \<open>The emergency unwind guard\<close>

definition UNWIND_GUARD_ROW :: string where "UNWIND_GUARD_ROW = ''set-unwind-guard''"
definition MAX_BPS :: int where "MAX_BPS = 10000"

definition TWIN_UNWIND_MIN_USDC_OUT :: string where "TWIN_UNWIND_MIN_USDC_OUT = ''1000000''"
definition TWIN_UNWIND_MAX_LOSS_BPS :: string where "TWIN_UNWIND_MAX_LOSS_BPS = ''500''"

definition twinUnwindGuardArgs :: "string \<Rightarrow> string list" where
  "twinUnwindGuardArgs vault =
     [''--row'', UNWIND_GUARD_ROW, ''--admin-arg'', ''vault='' @ vault, ''--admin-arg'', ''token=all'',
      ''--admin-arg'', ''min-usdc-out='' @ TWIN_UNWIND_MIN_USDC_OUT, ''--admin-arg'', ''max-loss-bps='' @ TWIN_UNWIND_MAX_LOSS_BPS]"

record UnwindGuardArgs =
  ua_vault :: "string option"
  ua_token :: "string option"
  ua_minUsdcOut :: "string option"
  ua_maxLossBps :: "string option"
  ua_overrideAllowed :: "string option"

definition no_guard_args :: UnwindGuardArgs where
  "no_guard_args = \<lparr>ua_vault = None, ua_token = None, ua_minUsdcOut = None, ua_maxLossBps = None, ua_overrideAllowed = None\<rparr>"

text \<open>The token, \<^const>\<open>None\<close> for all.\<close>

record UnwindGuardWant =
  uw_vault :: string
  uw_token :: "string option"
  uw_minUsdcOut :: int
  uw_overrideAllowed :: bool
  uw_maxLossBps :: int

record GuardRead =
  gr_token :: string
  gr_minUsdcOut :: int
  gr_overrideAllowed :: bool
  gr_maxLossBps :: int

definition guard_uint :: "string option \<Rightarrow> failure + int" where
  "guard_uint v =
     res_bind (of_option usage_error v) (\<lambda>s. res_bind (ensure (all_digits s) usage_error) (\<lambda>_. Inr (int (read_nat s))))"

definition guard_token :: "'a viem_scheme \<Rightarrow> string \<Rightarrow> failure + string option" where
  "guard_token V t =
     (if t = ''all'' then Inr None
      else if hex_of_len 40 t then res_bind (of_option PlainError (getAddress V t)) (\<lambda>a. Inr (Some a))
      else Inl usage_error)"

text \<open>What the override path sells at.\<close>

definition override_floor :: "int \<Rightarrow> int \<Rightarrow> int" where
  "override_floor minUsdcOut maxLossBps = bigint_div (minUsdcOut * (MAX_BPS - maxLossBps)) MAX_BPS"

definition parseUnwindGuardArgs :: "'a viem_scheme \<Rightarrow> UnwindGuardArgs option \<Rightarrow> failure + UnwindGuardWant" where
  "parseUnwindGuardArgs V given =
     (let a = (case given of None \<Rightarrow> no_guard_args | Some x \<Rightarrow> x) in
      res_bind (of_option usage_error (ua_vault a)) (\<lambda>vault.
      res_bind (ensure (vault \<noteq> ''USDC'' \<and> vault \<in> set BASKET_KEYS) usage_error) (\<lambda>_.
      res_bind (of_option usage_error (ua_token a)) (\<lambda>t.
      res_bind (guard_token V t) (\<lambda>token.
      res_bind (guard_uint (ua_minUsdcOut a)) (\<lambda>minUsdcOut.
      res_bind (ensure (minUsdcOut \<noteq> 0) usage_error) (\<lambda>_.
      res_bind (guard_uint (ua_maxLossBps a)) (\<lambda>maxLossBps.
      let ov = (case ua_overrideAllowed a of None \<Rightarrow> ''true'' | Some x \<Rightarrow> x) in
      res_bind (ensure (ov = ''true'' \<or> ov = ''false'') usage_error) (\<lambda>_.
      res_bind (ensure (maxLossBps \<le> MAX_BPS) usage_error) (\<lambda>_.
      res_bind (ensure (\<not> (ov = ''true'' \<and> override_floor minUsdcOut maxLossBps = 0)) usage_error) (\<lambda>_.
      Inr \<lparr>uw_vault = vault, uw_token = token, uw_minUsdcOut = minUsdcOut, uw_overrideAllowed = (ov = ''true''),
           uw_maxLossBps = maxLossBps\<rparr>)))))))))))"

definition token_text :: "UnwindGuardWant \<Rightarrow> string" where
  "token_text w = (case uw_token w of None \<Rightarrow> ''all'' | Some t \<Rightarrow> t)"

definition unwindGuardArgsText :: "UnwindGuardWant \<Rightarrow> string" where
  "unwindGuardArgsText w =
     admin_args [''vault='' @ uw_vault w, ''token='' @ token_text w, ''min-usdc-out='' @ show_int (uw_minUsdcOut w),
       ''max-loss-bps='' @ show_int (uw_maxLossBps w), ''override-allowed='' @ show_bool (uw_overrideAllowed w)]"

definition vault_name :: "string \<Rightarrow> string" where
  "vault_name k = (case VAULT_NAME k of None \<Rightarrow> ''undefined'' | Some n \<Rightarrow> n)"

definition unwindGuardTargets :: "UnwindGuardWant \<Rightarrow> string list \<Rightarrow> string + string list" where
  "unwindGuardTargets want active' =
     (if active' = [] then Inl (vault_name (uw_vault want) @ '' lists no active asset: there is nothing to guard'')
      else case uw_token want of
        None \<Rightarrow> Inr active'
      | Some t \<Rightarrow>
          (case find (\<lambda>x. lc x = lc t) active' of
             Some hit \<Rightarrow> Inr [hit]
           | None \<Rightarrow> Inl (t @ '' is not an active asset of '' @ vault_name (uw_vault want) @ '' (active: '' @ join '', '' active'
               @ ''): setEmergencyUnwindGuard would revert AssetNotFound after the delay'')))"

definition guard_call :: "'a viem_scheme \<Rightarrow> string \<Rightarrow> UnwindGuardWant \<Rightarrow> string \<Rightarrow> failure + LabelledCall" where
  "guard_call V vault want token =
     res_bind (encode_call V ''setEmergencyUnwindGuard''
       [JStr token, JBig (uw_minUsdcOut want), JBool (uw_overrideAllowed want), JBig (uw_maxLossBps want)]) (\<lambda>dt.
     Inr (call_to (vault_name (uw_vault want) @ ''.setEmergencyUnwindGuard('' @ token @ '', '' @ show_int (uw_minUsdcOut want) @ '', ''
       @ show_bool (uw_overrideAllowed want) @ '', '' @ show_int (uw_maxLossBps want) @ '')'') vault dt))"

definition buildUnwindGuardCalls :: "'a viem_scheme \<Rightarrow> string \<Rightarrow> UnwindGuardWant \<Rightarrow> string list \<Rightarrow> failure + LabelledCall list" where
  "buildUnwindGuardCalls V vault want tokens = map_res (guard_call V vault want) tokens"

definition unwindGuardRecordKey :: "(string \<Rightarrow> string) \<Rightarrow> string \<Rightarrow> LabelledCall list \<Rightarrow> string" where
  "unwindGuardRecordKey keccak vault calls =
     UNWIND_GUARD_ROW @ ''-'' @ vault @ ''-'' @ take 8 (drop 2 (keccak (concat (map tc_data calls))))"

definition guard_text :: "GuardRead \<Rightarrow> string" where
  "guard_text r = ''('' @ show_int (gr_minUsdcOut r) @ '', '' @ show_bool (gr_overrideAllowed r) @ '', '' @ show_int (gr_maxLossBps r) @ '')''"

definition guard_matches :: "UnwindGuardWant \<Rightarrow> GuardRead \<Rightarrow> bool" where
  "guard_matches want r =
     (gr_minUsdcOut r = uw_minUsdcOut want \<and> gr_overrideAllowed r = uw_overrideAllowed want \<and> gr_maxLossBps r = uw_maxLossBps want)"

definition unwindGuardProblems :: "UnwindGuardWant \<Rightarrow> GuardRead list \<Rightarrow> string list" where
  "unwindGuardProblems want reads =
     concat (map (\<lambda>r. if guard_matches want r then []
       else [vault_name (uw_vault want) @ ''.emergencyUnwindGuard('' @ gr_token r @ '') reads '' @ guard_text r @ '', want ('' @ show_int (uw_minUsdcOut want)
             @ '', '' @ show_bool (uw_overrideAllowed want) @ '', '' @ show_int (uw_maxLossBps want) @ '')'']) reads)"


section \<open>Arguments\<close>

lemma unless_Nil [simp]: "unless c p = [] \<longleftrightarrow> c"
  by (simp add: unless_def)

lemma weight_pair_Some:
  assumes "weight_pair p = Some (k, b)"
  shows "k \<noteq> []" "list_all is_upper k" "0 \<le> b"
proof -
  obtain c n where "dropWhile is_upper (trim p) = c # n" and kb: "k = takeWhile is_upper (trim p)" "k \<noteq> []" "b = int (read_nat n)"
    using assms unfolding weight_pair_def Let_def by (cases "dropWhile is_upper (trim p)") (auto split: if_splits)
  then show "k \<noteq> []" "list_all is_upper k" "0 \<le> b" by (auto simp: list_all_iff dest: set_takeWhileD)
qed

lemma upper_plain: "list_all is_upper k \<Longrightarrow> CHR '','' \<notin> set k"
  by (auto simp: list_all_iff is_upper_def)

lemma find_key: "find (\<lambda>w. fst w = k) ws = map_option (Pair k) (map_of ws k)"
  by (induction ws) auto

lemma staying_lookup:
  assumes "mset (map fst ws) = mset STAYING_KEYS"
  shows "staying_weights ws = map (\<lambda>k. (k, the (map_of ws k))) STAYING_KEYS"
proof -
  have "\<exists>b. map_of ws k = Some b" if "k \<in> set STAYING_KEYS" for k
    using that mset_eq_setD [OF assms] map_of_eq_None_iff [of ws k] by (cases "map_of ws k") auto
  then have "List.map_filter (\<lambda>k. find (\<lambda>w. fst w = k) ws) ks = map (\<lambda>k. (k, the (map_of ws k))) ks" if "set ks \<subseteq> set STAYING_KEYS" for ks
    using that by (induction ks) (fastforce simp: map_filter_simps find_key)+
  then show ?thesis by (simp add: staying_weights_def)
qed

lemma staying_perm:
  assumes "mset (map fst ws) = mset STAYING_KEYS"
  shows "mset (staying_weights ws) = mset ws"
proof -
  have keys: "distinct (map fst ws)" "set (map fst ws) = set STAYING_KEYS"
    using mset_eq_imp_distinct_iff [OF assms] mset_eq_setD [OF assms] by (simp_all add: STAYING_KEYS_def)
  have "set (staying_weights ws) = set ws"
  proof -
    have "x \<in> set ws \<longleftrightarrow> fst x \<in> set STAYING_KEYS \<and> Product_Type.snd x = the (map_of ws (fst x))" for x
      using keys map_of_is_SomeI [OF keys(1), of "fst x" "Product_Type.snd x"] map_of_SomeD [of ws "fst x"]
      by (metis image_eqI list.set_map map_of_eq_None_iff option.collapse option.sel prod.collapse)
    then show ?thesis by (auto simp: staying_lookup [OF assms] image_iff)
  qed
  moreover have "distinct (staying_weights ws)" by (simp add: staying_lookup [OF assms] STAYING_KEYS_def)
  ultimately show ?thesis using keys(1) by (metis distinct_map set_eq_iff_mset_eq_distinct)
qed

lemma parseRetireArgs_Inr:
  assumes "parseRetireArgs V given = Inr w"
  obtains vault ws where "hex_of_len 40 vault" "getAddress V vault = Some (rw_vault w)" "rw_weights w = staying_weights ws"
    "mset (map fst ws) = mset STAYING_KEYS" "sum_list (map Product_Type.snd ws) = BPS_TOTAL" "\<forall>x \<in> set ws. 0 \<le> Product_Type.snd x"
proof -
  from assms obtain vault wt ws where v: "hex_of_len 40 vault" "getAddress V vault = Some (rw_vault w)" "rw_weights w = staying_weights ws"
    and ws: "map_res (\<lambda>p. of_option usage_error (weight_pair p)) (split_on (CHR '','') wt) = Inr ws"
    and keys: "sorted_text (map fst ws) = sorted_text STAYING_KEYS" and total: "sum_list (map Product_Type.snd ws) = BPS_TOTAL"
    unfolding parseRetireArgs_def Let_def by (auto split: option.splits)
  have pairs: "\<exists>p. weight_pair p = Some x" if "x \<in> set ws" for x
    using map_res_mem [OF ws that] by auto
  have "ws \<noteq> []" using ws by (cases "split_on (CHR '','') wt") auto
  have upper: "list_all is_upper (fst x) \<and> 0 \<le> Product_Type.snd x" if "x \<in> set ws" for x
    using pairs [OF that] weight_pair_Some(2,3) by (metis prod.collapse)
  have "mset (map fst ws) = mset STAYING_KEYS"
    using keys upper upper_plain \<open>ws \<noteq> []\<close> by (intro sorted_text_inject) (auto simp: STAYING_KEYS_def)
  with v total upper show ?thesis by (intro that) auto
qed

definition retire_wf :: "RetireWant \<Rightarrow> bool" where
  "retire_wf w \<longleftrightarrow> map fst (rw_weights w) = STAYING_KEYS \<and> sum_list (map Product_Type.snd (rw_weights w)) = BPS_TOTAL
     \<and> (\<forall>x \<in> set (rw_weights w). 0 \<le> Product_Type.snd x)"

lemma parseRetireArgs_wf: "parseRetireArgs V given = Inr w \<Longrightarrow> retire_wf w"
proof (erule parseRetireArgs_Inr)
  fix vault ws
  assume w: "rw_weights w = staying_weights ws" "mset (map fst ws) = mset STAYING_KEYS"
    "sum_list (map Product_Type.snd ws) = BPS_TOTAL" "\<forall>x \<in> set ws. 0 \<le> Product_Type.snd x"
  have "sum_list (map Product_Type.snd (staying_weights ws)) = sum_list (map Product_Type.snd ws)"
    using staying_perm [OF w(2)] by (metis mset_map sum_mset_sum_list)
  moreover have "set (staying_weights ws) = set ws" using staying_perm [OF w(2)] by (rule mset_eq_setD)
  ultimately show "retire_wf w" using w by (simp add: retire_wf_def staying_lookup [OF w(2)] comp_def)
qed

lemma weight_pair_text:
  assumes "k \<in> set STAYING_KEYS" "0 \<le> b"
  shows "weight_pair (weight_text (k, b)) = Some (k, b)" and "CHR '','' \<notin> set (weight_text (k, b))"
proof -
  obtain n where b: "b = int n" using assms(2) nonneg_int_cases by blast
  have t: "weight_text (k, int n) = k @ CHR '':'' # show_nat n" by (simp add: weight_text_def show_int_def)
  have k: "k \<noteq> []" "list_all is_upper k" "solid (hd k)" using assms(1) by (auto simp: STAYING_KEYS_def is_upper_def solid_def ascii_blank_def)
  have "solid (last (show_nat n))" using digits_hd_solid all_digits_show_nat by blast
  then have "trim (weight_text (k, b)) = weight_text (k, b)" unfolding b t using k by (intro trim_solid) simp_all
  moreover have "takeWhile is_upper (k @ CHR '':'' # show_nat n) = k" "dropWhile is_upper (k @ CHR '':'' # show_nat n) = CHR '':'' # show_nat n"
    using k(2) by (simp_all add: list_all_iff takeWhile_append dropWhile_append is_upper_def)
  ultimately show "weight_pair (weight_text (k, b)) = Some (k, b)" using k(1) by (simp add: weight_pair_def b t Let_def)
  show "CHR '','' \<notin> set (weight_text (k, b))"
    using upper_plain [OF k(2)] show_nat_digits [of n] by (auto simp: b t list_all_iff is_digit_def)
qed

text \<open>
  The arguments of a retirement that are accepted name the three vaults that stay, once each, with weights that sum to 10000; and the
  arguments printed for the resume command are accepted again and mean the same run.
\<close>

theorem retire_args_resume:
  assumes "strict_address_laws V" "parseRetireArgs V given = Inr w"
  shows "retire_wf w \<and> parseRetireArgs V (Some \<lparr>ra_vault = Some (rw_vault w), ra_weights = Some (weights_arg w)\<rparr>) = Inr w"
proof
  show wf: "retire_wf w" by (rule parseRetireArgs_wf [OF assms(2)])
  obtain vault where v: "getAddress V vault = Some (rw_vault w)" using parseRetireArgs_Inr [OF assms(2)] by metis
  note stable = getAddress_stable [OF assms(1) v]
  have hex: "hex_of_len 40 (rw_vault w)" using stable(1) assms(1) by (auto simp: getAddress_def strict_address_laws_def split: if_splits)
  have texts: "\<forall>x \<in> set (rw_weights w). weight_pair (weight_text x) = Some x \<and> CHR '','' \<notin> set (weight_text x)"
  proof
    fix x assume x: "x \<in> set (rw_weights w)"
    then have "fst x \<in> set STAYING_KEYS" using wf by (metis retire_wf_def image_eqI list.set_map)
    then show "weight_pair (weight_text x) = Some x \<and> CHR '','' \<notin> set (weight_text x)"
      using weight_pair_text [of "fst x" "Product_Type.snd x"] wf x by (simp add: retire_wf_def)
  qed
  have ne: "map weight_text (rw_weights w) \<noteq> []" using wf by (auto simp: retire_wf_def STAYING_KEYS_def)
  have parts: "split_on (CHR '','') (weights_arg w) = map weight_text (rw_weights w)"
    unfolding weights_arg_def by (rule split_on_join [OF ne]) (use texts in auto)
  have "map_res (\<lambda>p. of_option usage_error (weight_pair p)) (map weight_text xs) = Inr xs" if "set xs \<subseteq> set (rw_weights w)" for xs
    using that texts by (induction xs) auto
  then have read: "map_res (\<lambda>p. of_option usage_error (weight_pair p)) (split_on (CHR '','') (weights_arg w)) = Inr (rw_weights w)"
    using parts by simp
  have "staying_weights (rw_weights w) = rw_weights w"
  proof -
    have keys: "map fst (rw_weights w) = STAYING_KEYS" using wf by (simp add: retire_wf_def)
    have "distinct (map fst (rw_weights w))" using keys by (simp add: STAYING_KEYS_def)
    then have "map (\<lambda>k. (k, the (map_of (rw_weights w) k))) (map fst (rw_weights w)) = rw_weights w"
      by (auto intro!: map_idI simp: map_of_is_SomeI)
    then show ?thesis using keys by (simp add: staying_lookup)
  qed
  with wf hex stable(1) read show "parseRetireArgs V (Some \<lparr>ra_vault = Some (rw_vault w), ra_weights = Some (weights_arg w)\<rparr>) = Inr w"
    by (simp add: parseRetireArgs_def retire_wf_def)
qed

lemma retire_batch_parts:
  assumes "buildRetireCalls V registry (rw_vault want) finalVaults finalBps = Inr calls" "retireBeforeProblems want finalVaults b = []"
  shows "\<exists>d1 d2. calls = [call_to ''registry.migrateEligibility(vault, false, three legs)'' registry d1, call_to ''registry.retire(vault)'' registry d2]
      \<and> encodeCall V ''migrateEligibility'' [JStr (rw_vault want), JBool False, js_addresses finalVaults, js_amounts finalBps] = Some d1
      \<and> encodeCall V ''retire'' [JStr (rw_vault want)] = Some d2"
    and "set (map lc finalVaults) = set (map lc (be_defaultVaults b)) - {lc (rw_vault want)}
      \<and> distinct (map lc finalVaults) \<and> length finalBps = length STAYING_KEYS \<and> sum_list finalBps = BPS_TOTAL
      \<and> lc (rw_vault want) \<in> set (map lc (be_defaultVaults b)) \<and> \<not> be_votedWeightsActive b \<and> be_status b = STATUS_ACTIVE \<and> be_eligible b"
proof -
  let ?stays = "filter (\<lambda>v. lc v \<noteq> lc (rw_vault want)) (be_defaultVaults b)"
  show "\<exists>d1 d2. calls = [call_to ''registry.migrateEligibility(vault, false, three legs)'' registry d1, call_to ''registry.retire(vault)'' registry d2]
      \<and> encodeCall V ''migrateEligibility'' [JStr (rw_vault want), JBool False, js_addresses finalVaults, js_amounts finalBps] = Some d1
      \<and> encodeCall V ''retire'' [JStr (rw_vault want)] = Some d2"
    using assms(1) by (auto simp: buildRetireCalls_def encode_call_def)
  have built: "distinct (map lc finalVaults)" "length finalBps = length STAYING_KEYS" "sum_list finalBps = BPS_TOTAL"
    using assms(1) by (auto simp: buildRetireCalls_def)
  have before: "lc (rw_vault want) \<in> set (map lc (be_defaultVaults b))" "length ?stays = length finalVaults"
    "list_all (\<lambda>v. lc v \<in> set (map lc ?stays)) finalVaults" "\<not> be_votedWeightsActive b" "be_status b = STATUS_ACTIVE" "be_eligible b"
    using assms(2) by (auto simp: retireBeforeProblems_def vector_problem_def Let_def split: if_splits)
  have "distinct (map lc ?stays) \<and> set (map lc finalVaults) = set (map lc ?stays)"
    by (rule subset_card_eq) (use built(1) before(2,3) in \<open>auto simp: list_all_iff\<close>)
  with built before show "set (map lc finalVaults) = set (map lc (be_defaultVaults b)) - {lc (rw_vault want)}
      \<and> distinct (map lc finalVaults) \<and> length finalBps = length STAYING_KEYS \<and> sum_list finalBps = BPS_TOTAL
      \<and> lc (rw_vault want) \<in> set (map lc (be_defaultVaults b)) \<and> \<not> be_votedWeightsActive b \<and> be_status b = STATUS_ACTIVE \<and> be_eligible b"
    by auto
qed

text \<open>
  A retirement that is scheduled is two calls on the registry in the order the contracts ask for: first the vault leaves the eligible set
  and the default vector becomes the one given, then it is retired. The vector given has one leg per staying vault, does not
  hold the vault that goes, sums to 10000, and its vaults are exactly those of the router's default vector without that vault.
\<close>

theorem retire_batch_spans:
  assumes "buildRetireCalls V registry (rw_vault want) finalVaults finalBps = Inr calls" "retireBeforeProblems want finalVaults b = []"
  shows "(\<exists>d1 d2. calls = [call_to ''registry.migrateEligibility(vault, false, three legs)'' registry d1, call_to ''registry.retire(vault)'' registry d2]
      \<and> encodeCall V ''migrateEligibility'' [JStr (rw_vault want), JBool False, js_addresses finalVaults, js_amounts finalBps] = Some d1
      \<and> encodeCall V ''retire'' [JStr (rw_vault want)] = Some d2)
    \<and> set (map lc finalVaults) = set (map lc (be_defaultVaults b)) - {lc (rw_vault want)}
    \<and> distinct (map lc finalVaults) \<and> length finalBps = length STAYING_KEYS \<and> sum_list finalBps = BPS_TOTAL
    \<and> lc (rw_vault want) \<in> set (map lc (be_defaultVaults b)) \<and> \<not> be_votedWeightsActive b \<and> be_status b = STATUS_ACTIVE \<and> be_eligible b"
  using retire_batch_parts [OF assms] by blast

section \<open>The guard\<close>

text \<open>The values a guard may be set to.\<close>

definition guard_wf :: "UnwindGuardWant \<Rightarrow> bool" where
  "guard_wf w \<longleftrightarrow> uw_vault w \<in> set BASKET_KEYS \<and> 0 < uw_minUsdcOut w \<and> 0 \<le> uw_maxLossBps w \<and> uw_maxLossBps w \<le> MAX_BPS
     \<and> (uw_overrideAllowed w \<longrightarrow> 0 < override_floor (uw_minUsdcOut w) (uw_maxLossBps w))"

lemma override_floor_range:
  assumes "0 \<le> m" "0 \<le> l" "l \<le> MAX_BPS"
  shows "0 \<le> override_floor m l" "override_floor m l \<le> m"
proof -
  have f: "override_floor m l = m * (10000 - l) div 10000"
    using assms by (simp add: override_floor_def MAX_BPS_def bigint_div_nonneg)
  have "m * (10000 - l) \<le> m * 10000" using assms by (intro mult_left_mono) (simp_all add: MAX_BPS_def)
  then have "m * (10000 - l) div 10000 \<le> m * 10000 div 10000" by (rule zdiv_mono1) simp
  then show "override_floor m l \<le> m" using f by simp
  show "0 \<le> override_floor m l" using assms f by (simp add: MAX_BPS_def pos_imp_zdiv_nonneg_iff)
qed

lemma parseUnwindGuardArgs_Inr:
  assumes "parseUnwindGuardArgs V given = Inr w"
  shows "guard_wf w" and "uw_token w = None \<or> (\<exists>t. hex_of_len 40 t \<and> getAddress V t = uw_token w)"
proof -
  from assms obtain vault t ms ls where parts: "vault \<in> set BASKET_KEYS" "guard_token V t = Inr (uw_token w)" "uw_vault w = vault"
    "uw_minUsdcOut w = int (read_nat ms)" "uw_maxLossBps w = int (read_nat ls)" "uw_minUsdcOut w \<noteq> 0" "uw_maxLossBps w \<le> MAX_BPS"
    "\<not> (uw_overrideAllowed w \<and> override_floor (uw_minUsdcOut w) (uw_maxLossBps w) = 0)"
    unfolding parseUnwindGuardArgs_def Let_def guard_uint_def by auto
  then show "guard_wf w" using override_floor_range(1) [of "uw_minUsdcOut w" "uw_maxLossBps w"] by (auto simp: guard_wf_def)
  show "uw_token w = None \<or> (\<exists>t. hex_of_len 40 t \<and> getAddress V t = uw_token w)"
    using parts(2) by (auto simp: guard_token_def split: if_splits)
qed

text \<open>
  A guard the row sets leaves the vault a floor above zero: the least amount is positive, the loss it allows at most 10000, and where the
  override is on, what the override path sells at is at least one unit and never more than the least amount. The arguments printed for
  the resume command are accepted again and mean the same guard.
\<close>

theorem guard_floor_positive:
  assumes "strict_address_laws V" "parseUnwindGuardArgs V given = Inr w"
  shows "guard_wf w \<and> override_floor (uw_minUsdcOut w) (uw_maxLossBps w) \<le> uw_minUsdcOut w
    \<and> parseUnwindGuardArgs V (Some \<lparr>ua_vault = Some (uw_vault w), ua_token = Some (token_text w), ua_minUsdcOut = Some (show_int (uw_minUsdcOut w)),
         ua_maxLossBps = Some (show_int (uw_maxLossBps w)), ua_overrideAllowed = Some (show_bool (uw_overrideAllowed w))\<rparr>) = Inr w"
proof -
  note wf = parseUnwindGuardArgs_Inr(1) [OF assms(2)]
  have nat: "0 \<le> i \<Longrightarrow> guard_uint (Some (show_int i)) = Inr i" for i by (simp add: guard_uint_def show_int_def)
  have token: "guard_token V (token_text w) = Inr (uw_token w)"
  proof (cases "uw_token w")
    case None
    then show ?thesis by (simp add: guard_token_def token_text_def)
  next
    case (Some a)
    then obtain t where "getAddress V t = Some a" using parseUnwindGuardArgs_Inr(2) [OF assms(2)] by auto
    note stable = getAddress_stable(1) [OF assms(1) this]
    then have "hex_of_len 40 a" using assms(1) by (auto simp: getAddress_def strict_address_laws_def split: if_splits)
    moreover from this have "a \<noteq> ''all''" by (auto simp: hex_of_len_def)
    ultimately show ?thesis using stable Some by (simp add: guard_token_def token_text_def)
  qed
  have "show_bool (uw_overrideAllowed w) = ''true'' \<longleftrightarrow> uw_overrideAllowed w" "show_bool (uw_overrideAllowed w) \<in> {''true'', ''false''}"
    by (simp_all add: show_bool_def)
  moreover have "uw_vault w \<noteq> ''USDC''" using wf by (auto simp: guard_wf_def BASKET_KEYS_def)
  ultimately show ?thesis
    using wf override_floor_range(2) [of "uw_minUsdcOut w" "uw_maxLossBps w"]
    by (auto simp: guard_wf_def parseUnwindGuardArgs_def token nat)
qed

text \<open>The guard reads back as set, and the tokens it is set for are active ones.\<close>

lemma unwindGuardProblems_Nil: "unwindGuardProblems want reads = [] \<longleftrightarrow> (\<forall>r \<in> set reads. guard_matches want r)"
  by (auto simp: unwindGuardProblems_def)

lemma unwindGuardTargets_active: "unwindGuardTargets want active' = Inr ts \<Longrightarrow> ts \<noteq> [] \<and> set ts \<subseteq> set active'"
  by (auto simp: unwindGuardTargets_def find_Some_iff split: if_splits option.splits)

interpretation retired: first_wins "\<lambda>e. lc (retired_address e)" retired_wanted retired_address retired_loop
  by unfold_locales auto

lemma retired_loop_exact:
  "lc ` set (retired_loop [] es) = {lc v |v e. e \<in> set es \<and> jget e ''vault'' = JStr v \<and> hex_of_len 40 v} \<and> distinct (map lc (retired_loop [] es))"
proof
  show "distinct (map lc (retired_loop [] es))" using retired.run_distinct [of lc "[]" es] by simp
  show "lc ` set (retired_loop [] es) = {lc v |v e. e \<in> set es \<and> jget e ''vault'' = JStr v \<and> hex_of_len 40 v}"
  proof (intro equalityI subsetI)
    fix a assume "a \<in> lc ` set (retired_loop [] es)"
    then obtain e where "e \<in> set es" "retired_wanted e" "a = lc (retired_address e)" using retired.run_members [of _ "[]" es] by blast
    then show "a \<in> {lc v |v e. e \<in> set es \<and> jget e ''vault'' = JStr v \<and> hex_of_len 40 v}"
      by (auto simp: retired_wanted_def retired_address_def split: js.splits)
  next
    fix a assume "a \<in> {lc v |v e. e \<in> set es \<and> jget e ''vault'' = JStr v \<and> hex_of_len 40 v}"
    then obtain e where e: "e \<in> set es" "retired_wanted e" "a = lc (retired_address e)"
      by (auto simp: retired_wanted_def retired_address_def)
    then show "a \<in> lc ` set (retired_loop [] es)" using retired.run_covers [of lc e es "[]"] by auto
  qed
qed

section \<open>Concrete rows\<close>

definition sample_retire_args :: RetireArgs where
  "sample_retire_args = \<lparr>ra_vault = Some (sample_addr ''D4''), ra_weights = Some ''PROTO:500, USDC:9500,RWA:0''\<rparr>"

definition sample_retire :: RetireWant where
  "sample_retire = \<lparr>rw_vault = sample_addr ''d4'', rw_weights = [(''USDC'', 9500), (''PROTO'', 500), (''RWA'', 0)]\<rparr>"

lemma sample_retire_parsed: "parseRetireArgs sample_codec_safe (Some sample_retire_args) = Inr sample_retire"
  by code_simp

theorem retire_args_resume_witness:
  "parseRetireArgs sample_codec_safe (Some sample_retire_args) = Inr sample_retire
   \<and> weights_arg sample_retire = ''USDC:9500,PROTO:500,RWA:0''
   \<and> parseRetireArgs sample_codec_safe (Some \<lparr>ra_vault = Some (rw_vault sample_retire), ra_weights = Some (weights_arg sample_retire)\<rparr>) = Inr sample_retire"
proof -
  have "weights_arg sample_retire = ''USDC:9500,PROTO:500,RWA:0''" by code_simp
  with sample_retire_parsed retire_args_resume [OF sample_codec_safe_laws sample_retire_parsed] show ?thesis by simp
qed

definition sample_stays :: "string list" where
  "sample_stays = map sample_vault_of STAYING_KEYS"

definition sample_before :: RetireBefore where
  "sample_before = \<lparr>be_listed = sample_addr ''D4'' # sample_stays, be_status = 0, be_eligible = True, be_registryRouter = sample_addr ''E5'',
     be_router = sample_addr ''e5'', be_timelockIsRegistryAdmin = True, be_votedWeightsActive = False,
     be_defaultVaults = [sample_vault_of ''USDC'', sample_addr ''D4'', sample_vault_of ''RWA'', sample_vault_of ''PROTO''], be_hasCode = True\<rparr>"

lemma sample_retire_calls:
  "buildRetireCalls sample_codec_safe (sample_addr ''f6'') (rw_vault sample_retire) sample_stays [9500, 500, 0]
     = Inr [call_to ''registry.migrateEligibility(vault, false, three legs)'' (sample_addr ''f6'') ''0xmigrateEligibility'',
            call_to ''registry.retire(vault)'' (sample_addr ''f6'') ''0xretire'']"
  by code_simp

theorem retire_batch_spans_witness:
  "retireBeforeProblems sample_retire sample_stays sample_before = []
   \<and> set (map lc sample_stays) = set (map lc (be_defaultVaults sample_before)) - {lc (rw_vault sample_retire)}"
proof -
  have before: "retireBeforeProblems sample_retire sample_stays sample_before = []" by code_simp
  with retire_batch_spans [OF sample_retire_calls before] show ?thesis by blast
qed

definition sample_guard :: UnwindGuardWant where
  "sample_guard = \<lparr>uw_vault = ''PROTO'', uw_token = None, uw_minUsdcOut = 1000000, uw_overrideAllowed = True, uw_maxLossBps = 500\<rparr>"

lemma sample_guard_parsed:
  "parseUnwindGuardArgs sample_codec_safe (Some \<lparr>ua_vault = Some ''PROTO'', ua_token = Some ''all'', ua_minUsdcOut = Some TWIN_UNWIND_MIN_USDC_OUT,
     ua_maxLossBps = Some TWIN_UNWIND_MAX_LOSS_BPS, ua_overrideAllowed = None\<rparr>) = Inr sample_guard"
  by code_simp

theorem guard_floor_positive_witness:
  "guard_wf sample_guard \<and> override_floor 1000000 500 = 950000 \<and> 950000 \<le> uw_minUsdcOut sample_guard"
proof -
  have "override_floor 1000000 500 = 950000" "uw_minUsdcOut sample_guard = 1000000" "uw_maxLossBps sample_guard = 500" by code_simp+
  with guard_floor_positive [OF sample_codec_safe_laws sample_guard_parsed] show ?thesis by simp
qed

end
