(* ===== verification/AdminRows.thy ===== *)
theory AdminRows
  imports VaultRows
begin

text \<open>
  The rows of publish-contracts/src/govern.ts by name: which row a \<open>--row\<close> value is, where it is refused, the release of a
  receipt, and the self-administration of the Safe and the timelock (arguments, the rules of the Safe checked before anything is
  proposed, the calls, and what the roster must read afterwards).
  The sentences of the refusals are shortened where nothing depends on them.
\<close>

section \<open>Names\<close>

definition RECEIPT_ROW :: string where "RECEIPT_ROW = ''release-receipt''"
definition REGISTER_ROW :: string where "REGISTER_ROW = ''register-submitter''"
definition FREEZE_ROW :: string where "FREEZE_ROW = ''freeze-upgrades''"
definition UPGRADE_ROW :: string where "UPGRADE_ROW = ''upgrade-proxy''"

text \<open>The rows that are run by name with arguments of their own, in the order \<open>resolveGovernRow\<close> refuses them.\<close>

definition on_demand_rows :: "string list" where
  "on_demand_rows = [RECEIPT_ROW, REGISTER_ROW, APPLY_ROW, CLEAR_ROW, REDEPLOY_ROW, RETIRE_ROW, UNWIND_GUARD_ROW, FREEZE_ROW, UPGRADE_ROW]"

text \<open>\<open>rows[n - 1]\<close>, and the row of a \<open>--row\<close> value.\<close>

definition nth_row :: "string list \<Rightarrow> nat \<Rightarrow> string option" where
  "nth_row rows n = (if 0 < n \<and> n \<le> length rows then Some (rows ! (n - 1)) else None)"

definition resolveGovernRow :: "string list \<Rightarrow> string \<Rightarrow> failure + string" where
  "resolveGovernRow rows name =
     (if name \<in> set on_demand_rows then Inl usage_error
      else if all_digits name then of_option usage_error (nth_row rows (read_nat name))
      else if name \<in> set rows then Inr name
      else Inl usage_error)"

definition redeployRefusal :: "int \<Rightarrow> DeploymentKind \<Rightarrow> string option" where
  "redeployRefusal chainId kind =
     (if chainId = MAINNET_CHAIN_ID \<and> kind \<noteq> Rehearsal then Some (REDEPLOY_ROW @ '' is refused on chain 8453 in production'') else None)"

definition govRowRefusal :: "string list \<Rightarrow> string option \<Rightarrow> int \<Rightarrow> DeploymentKind \<Rightarrow> string option" where
  "govRowRefusal rows given chainId kind =
     (case given of
        None \<Rightarrow> None
      | Some name \<Rightarrow>
          if name = REDEPLOY_ROW then redeployRefusal chainId kind
          else if name \<in> set on_demand_rows then None
          else (case resolveGovernRow rows name of
                  Inl _ \<Rightarrow> None
                | Inr n \<Rightarrow> if twinOnlyRefused n chainId kind then Some (''--row '' @ n @ '' is a demonstration of the Safe tool'') else None))"

section \<open>Releasing a receipt\<close>

definition assertReceiptId :: "string \<Rightarrow> failure + string" where
  "assertReceiptId r = res_bind (ensure (hex_of_len 64 r) usage_error) (\<lambda>_. Inr (lc r))"

definition releaseRecordKey :: "string \<Rightarrow> string" where
  "releaseRecordKey receiptId = RECEIPT_ROW @ ''-'' @ lc receiptId"

definition buildReleaseCall :: "'a viem_scheme \<Rightarrow> string \<Rightarrow> string \<Rightarrow> failure + LabelledCall" where
  "buildReleaseCall V receipt receiptId =
     res_bind (encode_call V ''releaseReceipt'' [JStr receiptId]) (\<lambda>dt. Inr (call_to (''receipt.releaseReceipt('' @ receiptId @ '')'') receipt dt))"

section \<open>Self-administration\<close>

datatype SelfAdminRow = SafeAddOwner | SafeRemoveOwner | SafeSwapOwner | SafeChangeThreshold | TimelockGrantRole | TimelockRevokeRole

fun row_text :: "SelfAdminRow \<Rightarrow> string" where
  "row_text SafeAddOwner = ''safe-add-owner''"
| "row_text SafeRemoveOwner = ''safe-remove-owner''"
| "row_text SafeSwapOwner = ''safe-swap-owner''"
| "row_text SafeChangeThreshold = ''safe-change-threshold''"
| "row_text TimelockGrantRole = ''timelock-grant-role''"
| "row_text TimelockRevokeRole = ''timelock-revoke-role''"

definition SAFE_ADMIN_ROWS :: "SelfAdminRow list" where
  "SAFE_ADMIN_ROWS = [SafeAddOwner, SafeRemoveOwner, SafeSwapOwner, SafeChangeThreshold]"

definition TIMELOCK_ADMIN_ROWS :: "SelfAdminRow list" where
  "TIMELOCK_ADMIN_ROWS = [TimelockGrantRole, TimelockRevokeRole]"

definition SELF_ADMIN_ROWS :: "SelfAdminRow list" where
  "SELF_ADMIN_ROWS = SAFE_ADMIN_ROWS @ TIMELOCK_ADMIN_ROWS"

definition isSelfAdminRow :: "string \<Rightarrow> bool" where
  "isSelfAdminRow name = (name \<in> set (map row_text SELF_ADMIN_ROWS))"

definition isSafeAdminRow :: "SelfAdminRow \<Rightarrow> bool" where
  "isSafeAdminRow r = (r \<in> set SAFE_ADMIN_ROWS)"

definition assertSelfAdminAllowed :: "int \<Rightarrow> failure + unit" where
  "assertSelfAdminAllowed chainId = ensure (chainId \<noteq> MAINNET_CHAIN_ID) usage_error"

record SelfAdminArgs =
  sa_owner :: "string option"
  sa_oldOwner :: "string option"
  sa_newOwner :: "string option"
  sa_threshold :: js
  sa_role :: "string option"
  sa_account :: "string option"

definition REFUSED_SAFE_CONFIG :: "string list" where
  "REFUSED_SAFE_CONFIG = [''enableModule'', ''disableModule'', ''setGuard'', ''setModuleGuard'', ''setFallbackHandler'']"

definition refuseSafeConfigChange :: "'a viem_scheme \<Rightarrow> string \<Rightarrow> failure + unit" where
  "refuseSafeConfigChange V dt =
     (case decodeCall V dt of
        None \<Rightarrow> Inr ()
      | Some (fn, _) \<Rightarrow> ensure (fn \<notin> set REFUSED_SAFE_CONFIG) usage_error)"

definition TIMELOCK_ROLES :: "string list" where
  "TIMELOCK_ROLES = [''PROPOSER_ROLE'', ''EXECUTOR_ROLE'', ''CANCELLER_ROLE'']"

definition roleId :: "(string \<Rightarrow> string) \<Rightarrow> string \<Rightarrow> string" where
  "roleId keccak r = keccak r"

text \<open>The two reads are taken only when they are needed.\<close>

definition assertNotLastProposer ::
  "(string \<Rightarrow> string) \<Rightarrow> (string \<Rightarrow> string \<Rightarrow> failure + bool) \<Rightarrow> (failure + int) \<Rightarrow> string \<Rightarrow> string \<Rightarrow> failure + unit" where
  "assertNotLastProposer keccak hasRole proposerCount role account =
     (if lc role \<noteq> lc (roleId keccak ''PROPOSER_ROLE'') then Inr ()
      else res_bind (hasRole role account) (\<lambda>has.
        if \<not> has then Inr ()
        else res_bind proposerCount (\<lambda>n. ensure (n \<noteq> 1) govern_failure)))"

definition addrArg :: "'a viem_scheme \<Rightarrow> string option \<Rightarrow> failure + string" where
  "addrArg V v =
     res_bind (of_option usage_error v) (\<lambda>s.
     res_bind (ensure (hex_of_len 40 s) usage_error) (\<lambda>_.
     of_option PlainError (getAddress V s)))"

text \<open>\<open>/^[1-9][0-9]*$/\<close> of \<open>String(v)\<close>\<close>

definition thresholdArg :: "js \<Rightarrow> failure + int" where
  "thresholdArg v =
     res_bind (ensure (v \<noteq> JUndef) usage_error) (\<lambda>_.
     let s = js_String v in
     res_bind (ensure (all_digits s \<and> hd s \<noteq> CHR ''0'') usage_error) (\<lambda>_. Inr (int (read_nat s))))"

definition SAFE_SENTINEL_OWNER :: string where
  "SAFE_SENTINEL_OWNER = ''0x0000000000000000000000000000000000000001''"

datatype SafeAdminWant =
    AddOwner string int
  | RemoveOwner string int
  | SwapOwner string string
  | ChangeThreshold int

definition parseSafeAdminArgs :: "'a viem_scheme \<Rightarrow> SelfAdminRow \<Rightarrow> SelfAdminArgs \<Rightarrow> failure + SafeAdminWant" where
  "parseSafeAdminArgs V r a =
     (case r of
        SafeAddOwner \<Rightarrow> res_bind (addrArg V (sa_owner a)) (\<lambda>x. res_bind (thresholdArg (sa_threshold a)) (\<lambda>n. Inr (AddOwner x n)))
      | SafeRemoveOwner \<Rightarrow> res_bind (addrArg V (sa_owner a)) (\<lambda>x. res_bind (thresholdArg (sa_threshold a)) (\<lambda>n. Inr (RemoveOwner x n)))
      | SafeSwapOwner \<Rightarrow> res_bind (addrArg V (sa_oldOwner a)) (\<lambda>x. res_bind (addrArg V (sa_newOwner a)) (\<lambda>y. Inr (SwapOwner x y)))
      | SafeChangeThreshold \<Rightarrow> res_bind (thresholdArg (sa_threshold a)) (\<lambda>n. Inr (ChangeThreshold n))
      | _ \<Rightarrow> Inl TypeError)"

definition selfAdminWantKey :: "SafeAdminWant \<Rightarrow> string" where
  "selfAdminWantKey want =
     (case want of
        AddOwner x n \<Rightarrow> join '':'' [row_text SafeAddOwner, lc x, show_int n]
      | RemoveOwner x n \<Rightarrow> join '':'' [row_text SafeRemoveOwner, lc x, show_int n]
      | SwapOwner x y \<Rightarrow> join '':'' [row_text SafeSwapOwner, lc x, lc y]
      | ChangeThreshold n \<Rightarrow> join '':'' [row_text SafeChangeThreshold, show_int n])"

definition roleWantKey :: "SelfAdminRow \<Rightarrow> string \<Rightarrow> string \<Rightarrow> string" where
  "roleWantKey r role account = join '':'' [row_text r, lc role, lc account]"

definition describeSafeAdminWant :: "SafeAdminWant \<Rightarrow> string" where
  "describeSafeAdminWant want =
     (case want of
        AddOwner x n \<Rightarrow> x @ '' is an owner and the threshold is '' @ show_int n
      | RemoveOwner x n \<Rightarrow> x @ '' is not an owner and the threshold is '' @ show_int n
      | SwapOwner x y \<Rightarrow> y @ '' is an owner in place of '' @ x
      | ChangeThreshold n \<Rightarrow> ''the threshold is '' @ show_int n)"

record SafeRoster =
  ro_owners :: "string list"
  ro_threshold :: int

definition roster_has :: "SafeRoster \<Rightarrow> string \<Rightarrow> bool" where
  "roster_has live x = (lc x \<in> set (map lc (ro_owners live)))"

record admin_effect =
  ae_owner :: bool
  ae_threshold :: bool
  ae_problems :: "string list"

definition want_threshold :: "SafeAdminWant \<Rightarrow> int option" where
  "want_threshold want = (case want of AddOwner _ n \<Rightarrow> Some n | RemoveOwner _ n \<Rightarrow> Some n | SwapOwner _ _ \<Rightarrow> None | ChangeThreshold n \<Rightarrow> Some n)"

definition owner_effect :: "SafeAdminWant \<Rightarrow> SafeRoster \<Rightarrow> bool \<times> string" where
  "owner_effect want live =
     (case want of
        AddOwner x _ \<Rightarrow> (roster_has live x, x @ '' is not an owner'')
      | RemoveOwner x _ \<Rightarrow> (\<not> roster_has live x, x @ '' is still an owner'')
      | SwapOwner x y \<Rightarrow> (\<not> roster_has live x \<and> roster_has live y, ''the swap '' @ x @ '' -> '' @ y @ '' is not in effect'')
      | ChangeThreshold _ \<Rightarrow> (True, []))"

definition safeAdminEffect :: "SafeAdminWant \<Rightarrow> SafeRoster \<Rightarrow> admin_effect" where
  "safeAdminEffect want live =
     (let owner' = owner_effect want live;
          thr = (case want_threshold want of None \<Rightarrow> True | Some n \<Rightarrow> ro_threshold live = n) in
      \<lparr>ae_owner = fst owner', ae_threshold = thr,
       ae_problems = unless (fst owner') (Product_Type.snd owner')
         @ unless thr (''getThreshold is '' @ show_int (ro_threshold live) @ '', want ''
             @ (case want_threshold want of None \<Rightarrow> [] | Some n \<Rightarrow> show_int n))\<rparr>)"

definition invalid_owner :: "string \<Rightarrow> string \<Rightarrow> bool" where
  "invalid_owner safe' x = (lc x = zero_address \<or> lc x = lc SAFE_SENTINEL_OWNER \<or> lc x = lc safe')"

definition safeRuleProblem :: "SafeAdminWant \<Rightarrow> SafeRoster \<Rightarrow> string \<Rightarrow> string option" where
  "safeRuleProblem want live safe' =
     (let n = int (length (ro_owners live)) in
      case want of
        AddOwner x t \<Rightarrow>
          if invalid_owner safe' x then Some (x @ '' cannot be an owner (GS203)'')
          else if roster_has live x then Some (x @ '' is already an owner (GS204)'')
          else if t > n + 1 then Some (''threshold '' @ show_int t @ '' is above the owner count after the change ('' @ show_int (n + 1) @ '') (GS201)'')
          else None
      | RemoveOwner x t \<Rightarrow>
          if t > n - 1 then Some (''threshold '' @ show_int t @ '' is above the owner count after the change ('' @ show_int (n - 1) @ '') (GS201)'')
          else None
      | SwapOwner x y \<Rightarrow>
          if invalid_owner safe' y then Some (y @ '' cannot be an owner (GS203)'')
          else if roster_has live y then Some (y @ '' is already an owner (GS204)'')
          else None
      | ChangeThreshold t \<Rightarrow>
          if t > n then Some (''threshold '' @ show_int t @ '' is above the owner count ('' @ show_int n @ '') (GS201)'') else None)"

definition sheetRosterProblems :: "SafeRoster \<Rightarrow> string list \<Rightarrow> int \<Rightarrow> string list" where
  "sheetRosterProblems live sheetOwners sheetThreshold =
     (let l = sorted_text (map lc (ro_owners live)); s = sorted_text (map lc sheetOwners) in
      unless (l = s) (''owners on chain '' @ l @ '', sheet SAFE_OWNERS '' @ s)
      @ unless (ro_threshold live = sheetThreshold)
          (''threshold on chain '' @ show_int (ro_threshold live) @ '', sheet SAFE_THRESHOLD '' @ show_int sheetThreshold))"

text \<open>The predecessor in the Safe's linked list.\<close>

definition prevOf :: "string list \<Rightarrow> string \<Rightarrow> failure + string" where
  "prevOf owners' o' =
     (case findIndex (\<lambda>x. lc x = lc o') owners' of
        None \<Rightarrow> Inl usage_error
      | Some i \<Rightarrow> Inr (if i = 0 then SAFE_SENTINEL_OWNER else owners' ! (i - 1)))"

definition safe_admin_call :: "'a viem_scheme \<Rightarrow> string \<Rightarrow> string list \<Rightarrow> SafeAdminWant \<Rightarrow> failure + LabelledCall" where
  "safe_admin_call V safe' owners' want =
     (case want of
        AddOwner x n \<Rightarrow>
          res_bind (encode_call V ''addOwnerWithThreshold'' [JStr x, JBig n]) (\<lambda>dt.
          Inr (call_to (''safe.addOwnerWithThreshold('' @ x @ '', '' @ show_int n @ '')'') safe' dt))
      | RemoveOwner x n \<Rightarrow>
          res_bind (prevOf owners' x) (\<lambda>p.
          res_bind (encode_call V ''removeOwner'' [JStr p, JStr x, JBig n]) (\<lambda>dt.
          Inr (call_to (''safe.removeOwner('' @ x @ '', '' @ show_int n @ '')'') safe' dt)))
      | SwapOwner x y \<Rightarrow>
          res_bind (prevOf owners' x) (\<lambda>p.
          res_bind (encode_call V ''swapOwner'' [JStr p, JStr x, JStr y]) (\<lambda>dt.
          Inr (call_to (''safe.swapOwner('' @ x @ '' -> '' @ y @ '')'') safe' dt)))
      | ChangeThreshold n \<Rightarrow>
          res_bind (encode_call V ''changeThreshold'' [JBig n]) (\<lambda>dt.
          Inr (call_to (''safe.changeThreshold('' @ show_int n @ '')'') safe' dt)))"

definition role_call :: "'a viem_scheme \<Rightarrow> (string \<Rightarrow> string) \<Rightarrow> SelfAdminRow \<Rightarrow> string \<Rightarrow> SelfAdminArgs \<Rightarrow> failure + LabelledCall" where
  "role_call V keccak r timelock' a =
     res_bind (of_option usage_error (sa_role a)) (\<lambda>roleName.
     res_bind (ensure (roleName \<in> set TIMELOCK_ROLES) usage_error) (\<lambda>_.
     res_bind (addrArg V (sa_account a)) (\<lambda>account.
     let fn = (if r = TimelockGrantRole then ''grantRole'' else ''revokeRole'') in
     res_bind (encode_call V fn [JStr (roleId keccak roleName), JStr account]) (\<lambda>dt.
     Inr (call_to (''timelock.'' @ fn @ ''('' @ roleName @ '', '' @ account @ '')'') timelock' dt)))))"

definition buildSelfAdminCall ::
  "'a viem_scheme \<Rightarrow> (string \<Rightarrow> string) \<Rightarrow> SelfAdminRow \<Rightarrow> string \<Rightarrow> string \<Rightarrow> SelfAdminArgs \<Rightarrow> string list \<Rightarrow> failure + LabelledCall" where
  "buildSelfAdminCall V keccak r safe' timelock' a owners' =
     res_bind
       (if isSafeAdminRow r then res_bind (parseSafeAdminArgs V r a) (safe_admin_call V safe' owners')
        else role_call V keccak r timelock' a) (\<lambda>c.
     res_bind (refuseSafeConfigChange V (tc_data c)) (\<lambda>_. Inr c))"

definition selfAdminRecordKey :: "(string \<Rightarrow> string) \<Rightarrow> SelfAdminRow \<Rightarrow> string \<Rightarrow> int \<Rightarrow> string" where
  "selfAdminRecordKey keccak r dt n = row_text r @ ''-'' @ take 8 (drop 2 (keccak dt)) @ ''-n'' @ show_int n"

section \<open>The options of a run\<close>

text \<open>What \<open>runGovern\<close> is asked for, and the usage errors it raises before the Safe is read.\<close>

record GovernAsk =
  ga_row :: "string option"
  ga_call :: "(string \<times> string \<times> string) option"
  ga_receiptId :: "string option"
  ga_payload :: "string option"
  ga_selfAdmin :: "SelfAdminArgs option"
  ga_submitter :: "string option"
  ga_unwindGuard :: "UnwindGuardArgs option"
  ga_retire :: "RetireArgs option"
  ga_proxy :: "string option"
  ga_implementation :: "string option"
  ga_upgradeBuild :: "string option"
  ga_migration :: "string option"

record govern_wants =
  gv_retire :: "RetireWant option"
  gv_guard :: "UnwindGuardWant option"
  gv_selected :: "string option"

definition when_row :: "bool \<Rightarrow> failure + 'a \<Rightarrow> failure + 'a option" where
  "when_row c m = (if c then res_bind m (\<lambda>x. Inr (Some x)) else Inr None)"

definition askChecks :: "'a viem_scheme \<Rightarrow> string list \<Rightarrow> int \<Rightarrow> DeploymentKind \<Rightarrow> GovernAsk \<Rightarrow> failure + govern_wants" where
  "askChecks V rows chainId kind o' =
     (let name = ga_row o'; selfAdmin = (case name of None \<Rightarrow> False | Some n \<Rightarrow> isSelfAdminRow n) in
      res_bind (ensure (\<not> (ga_call o' \<noteq> None \<and> chainId = MAINNET_CHAIN_ID)) usage_error) (\<lambda>_.
      res_bind (ensure (\<not> (ga_call o' \<noteq> None \<and> name \<noteq> None)) usage_error) (\<lambda>_.
      res_bind (ensure (\<not> (ga_receiptId o' \<noteq> None \<and> name \<noteq> Some RECEIPT_ROW \<and> name \<noteq> Some APPLY_ROW)) usage_error) (\<lambda>_.
      res_bind (ensure (\<not> (ga_payload o' \<noteq> None \<and> name \<noteq> Some APPLY_ROW)) usage_error) (\<lambda>_.
      res_bind (ensure (\<not> (ga_call o' \<noteq> None \<and> (ga_payload o' \<noteq> None \<or> ga_receiptId o' \<noteq> None))) usage_error) (\<lambda>_.
      res_bind (ensure (\<not> (ga_selfAdmin o' \<noteq> None \<and> \<not> selfAdmin)) usage_error) (\<lambda>_.
      res_bind (if selfAdmin then assertSelfAdminAllowed chainId else Inr ()) (\<lambda>_.
      res_bind (ensure (\<not> ((ga_proxy o' \<noteq> None \<or> ga_implementation o' \<noteq> None \<or> ga_upgradeBuild o' \<noteq> None \<or> ga_migration o' \<noteq> None)
                           \<and> name \<noteq> Some UPGRADE_ROW)) usage_error) (\<lambda>_.
      res_bind (ensure (\<not> (ga_submitter o' \<noteq> None \<and> name \<noteq> Some REGISTER_ROW)) usage_error) (\<lambda>_.
      res_bind (ensure (\<not> (ga_unwindGuard o' \<noteq> None \<and> name \<noteq> Some UNWIND_GUARD_ROW)) usage_error) (\<lambda>_.
      res_bind (ensure (\<not> (ga_retire o' \<noteq> None \<and> name \<noteq> Some RETIRE_ROW)) usage_error) (\<lambda>_.
      res_bind (when_row (name = Some RETIRE_ROW) (parseRetireArgs V (ga_retire o'))) (\<lambda>retire.
      res_bind (when_row (name = Some UNWIND_GUARD_ROW) (parseUnwindGuardArgs V (ga_unwindGuard o'))) (\<lambda>guard.
      res_bind (ensure (govRowRefusal rows name chainId kind = None) usage_error) (\<lambda>_.
      res_bind (case name of
                  None \<Rightarrow> Inr None
                | Some n \<Rightarrow> if n \<in> set on_demand_rows \<or> selfAdmin then Inr None else res_bind (resolveGovernRow rows n) (\<lambda>x. Inr (Some x))) (\<lambda>selected.
      Inr \<lparr>gv_retire = retire, gv_guard = guard, gv_selected = selected\<rparr>))))))))))))))))"


section \<open>Which rows run where\<close>

lemma askChecks_Inr:
  assumes "askChecks V rows chainId kind o' = Inr w"
  shows "ga_call o' \<noteq> None \<Longrightarrow> chainId \<noteq> MAINNET_CHAIN_ID \<and> ga_row o' = None"
    and "ga_row o' = Some n \<Longrightarrow> isSelfAdminRow n \<Longrightarrow> chainId \<noteq> MAINNET_CHAIN_ID"
    and "govRowRefusal rows (ga_row o') chainId kind = None"
    and "ga_row o' = Some n \<Longrightarrow> n \<notin> set on_demand_rows \<Longrightarrow> \<not> isSelfAdminRow n \<Longrightarrow> \<exists>x. resolveGovernRow rows n = Inr x \<and> gv_selected w = Some x"
    and "ga_row o' = None \<Longrightarrow> gv_selected w = None"
    and "ga_row o' = Some n \<Longrightarrow> n \<in> set on_demand_rows \<Longrightarrow> gv_selected w = None"
  using assms unfolding askChecks_def Let_def assertSelfAdminAllowed_def res_bind_Inr ensure_Inr sum.inject
  by (elim exE conjE; auto split: if_splits)+

lemma resolveGovernRow_mem: "resolveGovernRow rows n = Inr x \<Longrightarrow> x \<in> set rows"
  by (auto simp: resolveGovernRow_def nth_row_def split: if_splits)

text \<open>
  C16. On Base mainnet a production run takes no generic call, no self-administration row, no demonstration of the Safe tool and no redeployed
  vault, by name or by number: it is a run of the stage, the unpause of one vault, or one of the on-demand rows other than the redeployment.
\<close>

theorem mainnet_production_rows:
  assumes "askChecks V (unpauses @ TWIN_ONLY_ROWS) MAINNET_CHAIN_ID Production o' = Inr w"
  shows "ga_call o' = None \<and>
    (case ga_row o' of
       None \<Rightarrow> gv_selected w = None
     | Some n \<Rightarrow> \<not> isSelfAdminRow n \<and> n \<noteq> REDEPLOY_ROW
         \<and> (if n \<in> set on_demand_rows then gv_selected w = None else (\<exists>x \<in> set unpauses. gv_selected w = Some x)))"
proof -
  note ask = askChecks_Inr [OF assms]
  show ?thesis
  proof (cases "ga_row o'")
    case None
    then show ?thesis using ask(1,5) by (cases "ga_call o'") auto
  next
    case (Some n)
    have self: "\<not> isSelfAdminRow n" using ask(2) [OF Some] by auto
    have redeploy: "n \<noteq> REDEPLOY_ROW" using ask(3) by (auto simp: Some govRowRefusal_def redeployRefusal_def)
    have "\<exists>x \<in> set unpauses. gv_selected w = Some x" if d: "n \<notin> set on_demand_rows"
    proof -
      obtain x where x: "resolveGovernRow (unpauses @ TWIN_ONLY_ROWS) n = Inr x" "gv_selected w = Some x" using ask(4) [OF Some d self] by blast
      have "\<not> isTwinOnlyRow x" using ask(3) d redeploy x(1) by (auto simp: Some govRowRefusal_def twinOnlyRefused_def split: if_splits)
      then show ?thesis using resolveGovernRow_mem [OF x(1)] x(2) by (auto simp: isTwinOnlyRow_def)
    qed
    then show ?thesis using self redeploy ask(1,6) Some by (cases "ga_call o'") auto
  qed
qed

definition ask_row :: "string \<Rightarrow> GovernAsk" where
  "ask_row n = \<lparr>ga_row = Some n, ga_call = None, ga_receiptId = None, ga_payload = None, ga_selfAdmin = None, ga_submitter = None,
     ga_unwindGuard = None, ga_retire = None, ga_proxy = None, ga_implementation = None, ga_upgradeBuild = None, ga_migration = None\<rparr>"

definition sample_unpauses :: "string list" where
  "sample_unpauses = [''unpause-USDC'', ''unpause-PROTO'', ''unpause-RWA'']"

theorem mainnet_production_rows_witness:
  "(\<exists>w. askChecks sample_codec_safe (sample_unpauses @ TWIN_ONLY_ROWS) MAINNET_CHAIN_ID Production (ask_row ''2'') = Inr w
      \<and> gv_selected w = Some ''unpause-PROTO'')
   \<and> \<not> is_ok (askChecks sample_codec_safe (sample_unpauses @ TWIN_ONLY_ROWS) MAINNET_CHAIN_ID Production (ask_row ''4''))
   \<and> \<not> is_ok (askChecks sample_codec_safe (sample_unpauses @ TWIN_ONLY_ROWS) MAINNET_CHAIN_ID Production (ask_row ''safe-add-owner''))"
proof -
  have ok: "askChecks sample_codec_safe (sample_unpauses @ TWIN_ONLY_ROWS) MAINNET_CHAIN_ID Production (ask_row ''2'')
      = Inr \<lparr>gv_retire = None, gv_guard = None, gv_selected = Some ''unpause-PROTO''\<rparr>"
    and no: "\<not> is_ok (askChecks sample_codec_safe (sample_unpauses @ TWIN_ONLY_ROWS) MAINNET_CHAIN_ID Production (ask_row ''4''))"
    "\<not> is_ok (askChecks sample_codec_safe (sample_unpauses @ TWIN_ONLY_ROWS) MAINNET_CHAIN_ID Production (ask_row ''safe-add-owner''))"
    by code_simp+
  then show ?thesis using mainnet_production_rows [OF ok] by simp
qed

section \<open>The roster after a change\<close>

text \<open>What the Safe contract documents: its owners are distinct and valid, and the threshold is one they can reach.\<close>

definition roster_wf :: "string \<Rightarrow> SafeRoster \<Rightarrow> bool" where
  "roster_wf safe' r \<longleftrightarrow> distinct (map lc (ro_owners r)) \<and> (\<forall>x \<in> set (ro_owners r). \<not> invalid_owner safe' x)
     \<and> 1 \<le> ro_threshold r \<and> ro_threshold r \<le> int (length (ro_owners r))"

text \<open>And what its owner functions do to the list and the threshold when they do not revert.\<close>

fun owner_manager :: "SafeAdminWant \<Rightarrow> SafeRoster \<Rightarrow> SafeRoster \<Rightarrow> bool" where
  "owner_manager (AddOwner x n) r r' \<longleftrightarrow> r' = \<lparr>ro_owners = x # ro_owners r, ro_threshold = n\<rparr>"
| "owner_manager (RemoveOwner x n) r r' \<longleftrightarrow> r' = \<lparr>ro_owners = filter (\<lambda>y. lc y \<noteq> lc x) (ro_owners r), ro_threshold = n\<rparr>"
| "owner_manager (SwapOwner x y) r r' \<longleftrightarrow> r' = r\<lparr>ro_owners := map (\<lambda>z. if lc z = lc x then y else z) (ro_owners r)\<rparr>"
| "owner_manager (ChangeThreshold n) r r' \<longleftrightarrow> r' = r\<lparr>ro_threshold := n\<rparr>"

lemma thresholdArg_pos: "thresholdArg v = Inr n \<Longrightarrow> 1 \<le> n"
proof -
  assume "thresholdArg v = Inr n"
  then obtain s where s: "all_digits s" "hd s \<noteq> CHR ''0''" "n = int (read_nat s)" by (auto simp: thresholdArg_def Let_def)
  obtain c t where "s = c # t" using s(1) by (cases s) (auto simp: all_digits_def)
  then have "is_digit c" "c \<noteq> CHR ''0''" using s by (auto simp: all_digits_def)
  moreover have "c = CHR ''0''" if "char_code c = (48 :: nat)"
  proof -
    have "c = char_of (48 :: nat)" using that by (metis char_of_char)
    moreover have "char_of (48 :: nat) = CHR ''0''" by code_simp
    ultimately show ?thesis by simp
  qed
  ultimately have "0 < digit_val c" by (fastforce simp: is_digit_def digit_val_def)
  then have "0 < read_nat [c] * 10 ^ length t" using read_nat_snoc [of "[]" c] by simp
  then have "0 < read_nat s" using read_nat_append [of "[c]" t] \<open>s = c # t\<close> by simp
  then show ?thesis using s(3) by simp
qed

lemma parseSafeAdminArgs_threshold: "parseSafeAdminArgs V r a = Inr want \<Longrightarrow> want_threshold want = Some n \<Longrightarrow> 1 \<le> n"
  by (auto simp: parseSafeAdminArgs_def want_threshold_def dest: thresholdArg_pos split: SelfAdminRow.splits)

text \<open>The predecessor is the element before the owner in the list that starts with the marker.\<close>

lemma findIndex_first: "findIndex p xs = Some i \<Longrightarrow> i < length xs \<and> p (xs ! i) \<and> (\<forall>j < i. \<not> p (xs ! j))"
proof (induction xs arbitrary: i)
  case (Cons x xs)
  then show ?case by (fastforce simp: nth_Cons split: if_splits nat.splits)
qed simp

lemma prevOf_predecessor:
  assumes "prevOf owners' x = Inr p"
  shows "\<exists>us y vs. SAFE_SENTINEL_OWNER # owners' = us @ p # y # vs \<and> lc y = lc x"
proof -
  from assms obtain i where i: "findIndex (\<lambda>z. lc z = lc x) owners' = Some i" "p = (if i = 0 then SAFE_SENTINEL_OWNER else owners' ! (i - 1))"
    by (auto simp: prevOf_def split: option.splits)
  note at = findIndex_first [OF i(1)]
  have "SAFE_SENTINEL_OWNER # owners' = take i (SAFE_SENTINEL_OWNER # owners') @ p # owners' ! i # drop (Suc i) owners'"
  proof (cases i)
    case 0
    then show ?thesis using at i(2) by (simp add: Cons_nth_drop_Suc)
  next
    case (Suc j)
    then have "owners' = take j owners' @ owners' ! j # owners' ! Suc j # drop (Suc (Suc j)) owners'"
      using at by (simp add: Cons_nth_drop_Suc)
    then show ?thesis using Suc i(2) by simp
  qed
  then show ?thesis using at by blast
qed

lemma filter_one_less:
  assumes "distinct (map lc xs)" "lc x \<in> set (map lc xs)"
  shows "length (filter (\<lambda>y. lc y \<noteq> lc x) xs) = length xs - 1"
proof -
  have "map lc (filter (\<lambda>y. lc y \<noteq> lc x) xs) = remove1 (lc x) (map lc xs)"
    using assms(1) by (induction xs) (auto simp: filter_id_conv remove1_idem intro!: filter_True)
  then show ?thesis using assms(2) by (metis length_map length_remove1)
qed

lemma swap_lcs:
  assumes "distinct (map lc xs)" "lc y \<notin> set (map lc xs)" "lc x \<in> set (map lc xs)"
  defines "zs \<equiv> map (\<lambda>z. if lc z = lc x then y else z) xs"
  shows "distinct (map lc zs)" "lc y \<in> set (map lc zs)" "lc x \<notin> set (map lc zs)"
proof -
  let ?g = "\<lambda>u. if u = lc x then lc y else u"
  have zs: "map lc zs = map ?g (map lc xs)" by (simp add: zs_def)
  have "inj_on (\<lambda>u. if u = a then b else u) L" if "b \<notin> L" for a b :: string and L
    using that by (auto simp: inj_on_def)
  from this [OF assms(2)] have "inj_on ?g (set (map lc xs))" .
  then show "distinct (map lc zs)" using assms(1) unfolding zs by (subst distinct_map) simp
  show "lc y \<in> set (map lc zs)" using assms(3) unfolding zs by (force simp: image_iff)
  show "lc x \<notin> set (map lc zs)" using assms(2,3) unfolding zs by auto
qed

lemma prevOf_mem: "prevOf owners' x = Inr p \<Longrightarrow> lc x \<in> set (map lc owners')"
  using prevOf_predecessor by (fastforce simp: Cons_eq_append_conv)

text \<open>
  C15. A change of the Safe's owners or threshold that passes the checks made before it is proposed leaves, once the Safe has made it, a roster
  the Safe can act with: distinct valid owners and a threshold of at least one that they can reach; and the read-back of the row then
  finds no problem. The call is one the Safe makes on itself.
\<close>

theorem admin_change_keeps_roster:
  assumes "roster_wf safe' live" "parseSafeAdminArgs V r a = Inr want" "safeRuleProblem want live safe' = None"
    "safe_admin_call V safe' (ro_owners live) want = Inr c" "owner_manager want live live'"
  shows "roster_wf safe' live' \<and> ae_problems (safeAdminEffect want live') = [] \<and> tc_target c = safe'"
proof -
  have thr: "want_threshold want = Some n \<Longrightarrow> 1 \<le> n" for n using parseSafeAdminArgs_threshold [OF assms(2)] by blast
  note defs = roster_wf_def roster_has_def safeAdminEffect_def owner_effect_def want_threshold_def safeRuleProblem_def
  have target: "tc_target c = safe'" using assms(4) by (auto simp: safe_admin_call_def call_to_def split: SafeAdminWant.splits)
  show ?thesis
  proof (cases want)
    case (AddOwner x n)
    then show ?thesis using assms thr target by (auto simp: defs Let_def split: if_splits)
  next
    case (RemoveOwner x n)
    then obtain p where p: "prevOf (ro_owners live) x = Inr p" using assms(4) by (auto simp: safe_admin_call_def)
    note mem = prevOf_mem [OF p]
    have "length (filter (\<lambda>y. lc y \<noteq> lc x) (ro_owners live)) = length (ro_owners live) - 1"
      using assms(1) mem by (intro filter_one_less) (auto simp: roster_wf_def)
    moreover have "0 < length (ro_owners live)" using mem by (cases "ro_owners live") auto
    moreover have "distinct (map lc (filter (\<lambda>y. lc y \<noteq> lc x) (ro_owners live)))" using assms(1) by (simp add: roster_wf_def distinct_map_filter)
    ultimately show ?thesis
      using assms thr target RemoveOwner by (auto simp: defs Let_def split: if_splits)
  next
    case (SwapOwner x y)
    then obtain p where "prevOf (ro_owners live) x = Inr p" using assms(4) by (auto simp: safe_admin_call_def)
    note mem = prevOf_mem [OF this]
    have y: "\<not> invalid_owner safe' y" "lc y \<notin> set (map lc (ro_owners live))"
      using assms(3) SwapOwner by (auto simp: safeRuleProblem_def roster_has_def Let_def split: if_splits)
    define zs where "zs = map (\<lambda>z. if lc z = lc x then y else z) (ro_owners live)"
    have zs: "distinct (map lc zs)" "lc y \<in> set (map lc zs)" "lc x \<notin> set (map lc zs)"
      unfolding zs_def using assms(1) by (intro swap_lcs [OF _ y(2) mem], simp add: roster_wf_def)+
    have live': "live' = live\<lparr>ro_owners := zs\<rparr>" using assms(5) SwapOwner by (simp add: zs_def)
    have "\<forall>z \<in> set zs. \<not> invalid_owner safe' z" "length zs = length (ro_owners live)" using assms(1) y(1) by (auto simp: zs_def roster_wf_def)
    with zs live' assms(1) target SwapOwner show ?thesis
      by (simp add: defs Let_def)
  next
    case (ChangeThreshold n)
    then show ?thesis using assms thr target by (auto simp: defs Let_def split: if_splits)
  qed
qed

definition sample_roster :: SafeRoster where
  "sample_roster = \<lparr>ro_owners = [sample_addr ''A1'', sample_addr ''B2'', sample_addr ''C3''], ro_threshold = 3\<rparr>"

definition sample_admin_args :: SelfAdminArgs where
  "sample_admin_args = \<lparr>sa_owner = Some (sample_addr ''b2''), sa_oldOwner = None, sa_newOwner = None, sa_threshold = JNum 2, sa_role = None, sa_account = None\<rparr>"

theorem admin_change_keeps_roster_witness:
  "safeRuleProblem (RemoveOwner (sample_addr ''b2'') 2) sample_roster (sample_addr ''ee'') = None
   \<and> roster_wf (sample_addr ''ee'') \<lparr>ro_owners = [sample_addr ''A1'', sample_addr ''C3''], ro_threshold = 2\<rparr>"
proof -
  let ?w = "RemoveOwner (sample_addr ''b2'') 2"
  have wf: "roster_wf (sample_addr ''ee'') sample_roster" unfolding roster_wf_def by code_simp
  have p: "parseSafeAdminArgs sample_codec_safe SafeRemoveOwner sample_admin_args = Inr ?w" by code_simp
  have rule: "safeRuleProblem ?w sample_roster (sample_addr ''ee'') = None" by code_simp
  have c: "safe_admin_call sample_codec_safe (sample_addr ''ee'') (ro_owners sample_roster) ?w
      = Inr (call_to (''safe.removeOwner('' @ sample_addr ''b2'' @ '', 2)'') (sample_addr ''ee'') ''0xremoveOwner'')" by code_simp
  have m: "owner_manager ?w sample_roster \<lparr>ro_owners = [sample_addr ''A1'', sample_addr ''C3''], ro_threshold = 2\<rparr>" by code_simp
  from admin_change_keeps_roster [OF wf p rule c m] rule show ?thesis by simp
qed

end
