(* ===== verification/OnDemand.thy ===== *)
theory OnDemand
  imports AdminRows RoundHistory
begin

text \<open>
  The on-demand rows of \<open>runGovern\<close> (publish-contracts/src/govern.ts): clear-voted-weights, retire-vault,
  set-unwind-guard, apply-receipt, release-receipt, the generic Twin call and the self-administration rows. Each is one round of
  the Safe and the timelock (a self-administration of the Safe is one Safe transaction), kept in the run manifest under a key of its own.

  The reads of one check are taken at one moment of the run. The lines logged are left out.
\<close>

section \<open>What the rows read\<close>

record demand_env =
  de_env :: govern_env
  de_safe :: string
  de_registry :: string
  de_router :: string
  de_governance :: string
  de_receipt :: string
  de_recorded :: "moment \<Rightarrow> string \<Rightarrow> failure + bool"
  de_released :: "moment \<Rightarrow> string \<Rightarrow> failure + bool"
  de_receiptById :: "moment \<Rightarrow> string \<Rightarrow> failure + string \<times> int"
  de_lastApplied :: "moment \<Rightarrow> failure + int"
  de_listVaults :: "moment \<Rightarrow> failure + string list"
  de_isEligible :: "moment \<Rightarrow> string \<Rightarrow> failure + bool"
  de_weights :: "moment \<Rightarrow> failure + string list \<times> int list"
  de_defaultWeights :: "moment \<Rightarrow> failure + string list \<times> int list"
  de_effectiveWeights :: "moment \<Rightarrow> failure + string list \<times> int list"
  de_voted :: "moment \<Rightarrow> failure + bool"
  de_vaultStatus :: "moment \<Rightarrow> string \<Rightarrow> failure + int"
  de_registryRouter :: "moment \<Rightarrow> failure + string"
  de_eligibleCount :: "moment \<Rightarrow> failure + int"
  de_retiredFlag :: "moment \<Rightarrow> string \<Rightarrow> failure + bool"
  de_hasCode :: "moment \<Rightarrow> string \<Rightarrow> failure + bool"
  de_hasRole :: "moment \<Rightarrow> string \<Rightarrow> string \<Rightarrow> string \<Rightarrow> failure + bool"
  de_proposerCount :: "moment \<Rightarrow> failure + int"
  de_asset :: "moment \<Rightarrow> string \<Rightarrow> nat \<Rightarrow> (js \<times> bool) option"
  de_guard :: "moment \<Rightarrow> string \<Rightarrow> string \<Rightarrow> failure + int \<times> bool \<times> int"
  de_timestamp :: "moment \<Rightarrow> string \<Rightarrow> failure + int"
  de_owners :: "moment \<Rightarrow> failure + string list"
  de_threshold :: "moment \<Rightarrow> failure + int"
  de_nonce :: "moment \<Rightarrow> failure + int"
  de_proposeTx :: "moment \<Rightarrow> string \<Rightarrow> string \<Rightarrow> string \<Rightarrow> string \<Rightarrow> failure + SafeTxBundle"
  de_readFile :: "string \<Rightarrow> string option"
  de_parseJson :: "string \<Rightarrow> js option"

abbreviation de_viem :: "demand_env \<Rightarrow> safe_viem" where
  "de_viem D \<equiv> vm (ge_viem (de_env D))"

abbreviation de_keccak :: "demand_env \<Rightarrow> string \<Rightarrow> string" where
  "de_keccak D \<equiv> ge_keccak (de_env D)"

definition act_res :: "failure + 'a \<Rightarrow> 'a act" where
  "act_res r = (case r of Inl e \<Rightarrow> act_throw e | Inr a \<Rightarrow> act_ret a)"

definition usage_act :: "'a act" where
  "usage_act = act_throw usage_error"

definition act_ensure :: "bool \<Rightarrow> failure \<Rightarrow> unit act" where
  "act_ensure c e = (if c then act_ret () else act_throw e)"

section \<open>Parts the rows share\<close>

text \<open>The operation of a row and its plan; \<open>checks\<close> are made again when the execution is built.\<close>

definition demand_order :: "govern_env \<Rightarrow> LabelledCall list \<Rightarrow> string \<Rightarrow> op_form \<Rightarrow> Ordered" where
  "demand_order E calls label form =
     \<lparr>od_timelock = ge_timelock E, od_description = None, od_calls = map labelled_call calls, od_predecessor = None,
      od_salt = governSalt E label, od_form = form\<rparr>"

definition demand_plan ::
  "govern_env \<Rightarrow> Ordered \<Rightarrow> string \<Rightarrow> string \<Rightarrow> string \<Rightarrow> (moment \<Rightarrow> failure + unit) \<Rightarrow> (moment \<Rightarrow> failure + string list)
     \<Rightarrow> (moment \<Rightarrow> (string \<times> js) list) \<Rightarrow> RoundPlan" where
  "demand_plan E o' oid scheduleText executeText checks readBack observed =
     \<lparr>rp_id = oid, rp_dependsOn = None,
      rp_schedule = (\<lambda>k. ap_scheduleOnTimelock (ge_api E) k (o'\<lparr>od_description := Some scheduleText\<rparr>)),
      rp_execute = Some (\<lambda>k. res_bind (checks k) (\<lambda>_. ap_executeOnTimelock (ge_api E) k (o'\<lparr>od_description := Some executeText\<rparr>))),
      rp_cancel = None, rp_readBack = readBack, rp_observed = observed\<rparr>"

definition no_checks :: "moment \<Rightarrow> failure + unit" where "no_checks k = Inr ()"
definition nothing_observed :: "moment \<Rightarrow> (string \<times> js) list" where "nothing_observed k = []"

definition operation_of :: "govern_env \<Rightarrow> Ordered \<Rightarrow> string act" where
  "operation_of E o' = chain_read (\<lambda>k. ap_operationId (ge_api E) k o')"

text \<open>A record of the key for another operation is refused.\<close>

definition check_prior :: "string \<Rightarrow> string \<Rightarrow> unit act" where
  "check_prior name oid =
     act_bind (act_get (w_row name)) (\<lambda>ro.
     case Option.bind (Option.bind ro rr_scheduled) ph_operation_id of
       None \<Rightarrow> act_ret ()
     | Some p \<Rightarrow> act_ensure (lc p = lc oid) usage_error)"

text \<open>\<open>state[name]?.scheduled === undefined && !(await operationState(id)).exists\<close>\<close>

definition fresh_round :: "govern_env \<Rightarrow> string \<Rightarrow> string \<Rightarrow> bool act" where
  "fresh_round E name oid =
     act_bind (act_get (w_row name)) (\<lambda>ro.
     if Option.bind ro rr_scheduled = None then act_bind (op_state E oid) (\<lambda>st. act_ret (\<not> os_exists st))
     else act_ret False)"

text \<open>\<open>while (state[key(k)]) k++\<close>\<close>

definition free_key :: "(nat \<Rightarrow> string) \<Rightarrow> (string \<times> RowRecord) list \<Rightarrow> string" where
  "free_key key rows =
     (case find (\<lambda>k. key k \<notin> set (map fst rows)) [1..<length rows + 2] of None \<Rightarrow> [] | Some k \<Rightarrow> key k)"

text \<open>A round whose operation was cancelled through the Safe is kept under the next free key and starts again.\<close>

definition requeue :: "govern_env \<Rightarrow> string \<Rightarrow> (int \<Rightarrow> nat \<Rightarrow> string) \<Rightarrow> unit act" where
  "requeue E name key =
     act_bind (act_get (w_row name)) (\<lambda>ro.
     case (ro, truthy_str (Option.bind (Option.bind ro rr_scheduled) ph_operation_id)) of
       (Some r, Some oid) \<Rightarrow>
         if rowComplete ro then act_ret ()
         else act_bind (op_state E oid) (\<lambda>st.
           if \<not> os_exists st \<and> \<not> os_done st
           then act_bind (act_upd (\<lambda>w. set_row name (empty_row\<lparr>rr_round := Some (round_of r)\<rparr>)
                                       (set_row (free_key (key (round_of r)) (rm_govern (w_mem w))) r w))) (\<lambda>_. save E)
           else act_ret ())
     | _ \<Rightarrow> act_ret ())"

text \<open>A complete round is kept under its own key and the next one starts.\<close>

definition next_round :: "govern_env \<Rightarrow> string \<Rightarrow> RowRecord \<Rightarrow> unit act" where
  "next_round E name prev =
     act_bind (act_upd (\<lambda>w. set_row name (empty_row\<lparr>rr_round := Some (round_of prev + 1)\<rparr>)
                            (set_row (roundKey name (round_of prev)) prev w))) (\<lambda>_. save E)"

text \<open>\<open>{ ...(state[name] ?? { round: 1 }), field: v }\<close>\<close>

definition open_record :: "string \<Rightarrow> (string \<times> js) list \<Rightarrow> unit act" where
  "open_record name fs = act_upd (\<lambda>w. set_row name (note_seen fs (row_or_first (w_row name w))) w)"

definition reprint_as :: "string \<Rightarrow> string \<Rightarrow> unit act" where
  "reprint_as name emitAs =
     act_bind (the_row name) (\<lambda>r.
     act_bind (case rr_scheduled r of None \<Rightarrow> act_ret () | Some p \<Rightarrow> emitPhase emitAs Scheduled p) (\<lambda>_.
     case rr_executed r of None \<Rightarrow> act_ret () | Some p \<Rightarrow> emitPhase emitAs Executed p))"

section \<open>Evidence entries\<close>

definition opt_text :: "string option \<Rightarrow> js" where
  "opt_text v = (case v of None \<Rightarrow> JUndef | Some s \<Rightarrow> JStr s)"

definition status_js :: "PhaseRecord \<Rightarrow> js" where
  "status_js p = JNum (case ph_status p of None \<Rightarrow> 1 | Some s \<Rightarrow> s)"

definition operation_fields :: "PhaseRecord \<Rightarrow> PhaseRecord \<Rightarrow> int \<Rightarrow> int \<Rightarrow> (string \<times> js) list" where
  "operation_fields s x ts tx =
     [(''operation_id'', opt_text (ph_operation_id s)), (''schedule_tx'', opt_text (ph_tx_hash s)), (''schedule_status'', status_js s),
      (''schedule_block_timestamp'', JNum ts), (''execute_tx'', opt_text (ph_tx_hash x)), (''execute_status'', status_js x),
      (''execute_block_timestamp'', JNum tx)]"

text \<open>The entry of the same id is replaced, else the entry is appended.\<close>

definition same_id :: "string \<Rightarrow> js \<Rightarrow> js \<Rightarrow> bool" where
  "same_id field entry x = (case jget x field of JStr s \<Rightarrow> lc s = lc (js_String (jget entry field)) | _ \<Rightarrow> False)"

definition put_evidence :: "string \<Rightarrow> js \<Rightarrow> js list \<Rightarrow> js list" where
  "put_evidence field entry xs =
     (case findIndex (same_id field entry) xs of None \<Rightarrow> xs @ [entry] | Some i \<Rightarrow> xs[i := entry])"

definition set_rest :: "string \<Rightarrow> js \<Rightarrow> gworld \<Rightarrow> gworld" where
  "set_rest field v w = w\<lparr>gw_ms := (gw_ms w)\<lparr>ms_mem := (w_mem w)\<lparr>rm_rest := jput (rm_rest (w_mem w)) field v\<rparr>\<rparr>\<rparr>"

text \<open>The entry of an executed round whose two transactions are known; \<open>own\<close> gives the row's own fields, or nothing to record.\<close>

definition record_entry :: "demand_env \<Rightarrow> string \<Rightarrow> string \<Rightarrow> string \<Rightarrow> (RowRecord \<Rightarrow> (string \<times> js) list option) \<Rightarrow> unit act" where
  "record_entry D name list_field id_field own =
     act_bind (act_get (w_row name)) (\<lambda>ro.
     case (ro, Option.bind ro rr_scheduled, Option.bind ro rr_executed) of
       (Some r, Some s, Some x) \<Rightarrow>
         (case (truthy_str (ph_tx_hash x), truthy_str (ph_tx_hash s), own r) of
            (Some hx, Some hs, Some fs) \<Rightarrow>
              act_bind (chain_read (\<lambda>k. de_timestamp D k hs)) (\<lambda>ts.
              act_bind (chain_read (\<lambda>k. de_timestamp D k hx)) (\<lambda>tx.
              act_bind (act_get (\<lambda>w. jget (rm_rest (w_mem w)) list_field)) (\<lambda>l.
              case (if jnullish l then Some [] else js_list l) of
                None \<Rightarrow> act_throw TypeError
              | Some xs \<Rightarrow>
                  act_bind (act_upd (set_rest list_field (JArr (put_evidence id_field (JObj (fs @ operation_fields s x ts tx)) xs)))) (\<lambda>_.
                  save (de_env D)))))
          | _ \<Rightarrow> act_ret ())
     | _ \<Rightarrow> act_ret ())"

definition observed_field :: "RowRecord \<Rightarrow> string \<Rightarrow> js" where
  "observed_field r f = jget (jget (rr_rest r) ''observed'') f"

definition observed_fields :: "RowRecord \<Rightarrow> (string \<times> js) list" where
  "observed_fields r = map (\<lambda>f. (f, observed_field r f)) [''voted_weights_active'', ''effective_vaults'', ''effective_bps'']"

definition round_js :: "RowRecord \<Rightarrow> js" where "round_js r = JNum (round_of r)"

definition observed_weights :: "demand_env \<Rightarrow> moment \<Rightarrow> (string \<times> js) list" where
  "observed_weights D k =
     (case (de_voted D k, de_effectiveWeights D k) of
        (Inr v, Inr (vs, bs)) \<Rightarrow>
          [(''observed'', JObj [(''voted_weights_active'', JBool v), (''effective_vaults'', js_addresses vs), (''effective_bps'', JArr (map JNum bs))])]
      | _ \<Rightarrow> [])"

section \<open>clear-voted-weights\<close>

definition clear_read_back :: "demand_env \<Rightarrow> moment \<Rightarrow> failure + string list" where
  "clear_read_back D k =
     res_bind (de_defaultWeights D k) (\<lambda>(dv, db).
     res_bind (de_effectiveWeights D k) (\<lambda>(ev, eb).
     res_bind (de_voted D k) (\<lambda>voted.
     Inr (clearReadBackProblems \<lparr>cb_votedWeightsActive = voted, cb_defaultVaults = dv, cb_defaultBps = db, cb_effectiveVaults = ev, cb_effectiveBps = eb\<rparr>))))"

definition record_clear :: "demand_env \<Rightarrow> unit act" where
  "record_clear D =
     record_entry D CLEAR_ROW ''voted_weights_clears'' ''operation_id'' (\<lambda>r. Some
       ([(''step'', JStr CLEAR_ROW), (''round'', round_js r), (''governance'', JStr (de_governance D)), (''router'', JStr (de_router D))]
        @ observed_fields r))"

definition open_clear :: "demand_env \<Rightarrow> nat \<Rightarrow> unit act" where
  "open_clear D fuel =
     (let E = de_env D in
      act_bind (act_res (buildClearCall (de_viem D) (de_governance D))) (\<lambda>c.
      act_bind (act_get (labelOf CLEAR_ROW)) (\<lambda>label.
      let o' = demand_order E [c] label Single in
      act_bind (operation_of E o') (\<lambda>oid.
      act_bind (fresh_round E CLEAR_ROW oid) (\<lambda>fresh.
      act_bind (if fresh then act_bind (chain_read (de_voted D)) (\<lambda>voted. if voted then act_ret () else govern_error) else act_ret ()) (\<lambda>_.
      act_bind (open_record CLEAR_ROW []) (\<lambda>_.
      run_round E fuel CLEAR_ROW
        (demand_plan E o' oid (CLEAR_ROW @ '': '' @ lcl_label c) (CLEAR_ROW @ '' execute'') no_checks (clear_read_back D) (observed_weights D))
        CLEAR_ROW))))))) "

definition clear_row :: "demand_env \<Rightarrow> nat \<Rightarrow> unit act" where
  "clear_row D fuel =
     (let E = de_env D in
      act_bind (act_get (w_row CLEAR_ROW)) (\<lambda>prev.
      act_bind (case prev of
                  None \<Rightarrow> act_ret ()
                | Some r \<Rightarrow>
                    if rowComplete prev
                    then act_bind (chain_read (de_voted D)) (\<lambda>voted. if voted then next_round E CLEAR_ROW r else govern_error)
                    else requeue E CLEAR_ROW (cancelledKey CLEAR_ROW)) (\<lambda>_.
      act_bind (act_get (w_row CLEAR_ROW)) (\<lambda>cur.
      act_bind (if rowComplete cur then reprint CLEAR_ROW else open_clear D fuel) (\<lambda>_.
      act_bind (record_clear D) (\<lambda>_. save E))))))"

section \<open>retire-vault\<close>

definition final_vaults :: "demand_env \<Rightarrow> RetireWant \<Rightarrow> string list" where
  "final_vaults D want = map (\<lambda>w. ge_vaults (de_env D) (fst w)) (rw_weights want)"

definition final_bps :: "RetireWant \<Rightarrow> int list" where
  "final_bps want = map Product_Type.snd (rw_weights want)"

definition retire_before :: "demand_env \<Rightarrow> RetireWant \<Rightarrow> moment \<Rightarrow> failure + RetireBefore" where
  "retire_before D want k =
     res_bind (de_listVaults D k) (\<lambda>listed.
     res_bind (de_vaultStatus D k (rw_vault want)) (\<lambda>status.
     res_bind (de_isEligible D k (rw_vault want)) (\<lambda>elig.
     res_bind (de_registryRouter D k) (\<lambda>registryRouter.
     res_bind (de_hasRole D k (de_registry D) (roleId (de_keccak D) ''ADMIN_ROLE'') (ge_timelock (de_env D))) (\<lambda>admin.
     res_bind (de_voted D k) (\<lambda>voted.
     res_bind (de_defaultWeights D k) (\<lambda>(dv, _).
     res_bind (de_hasCode D k (rw_vault want)) (\<lambda>has.
     Inr \<lparr>be_listed = listed, be_status = status, be_eligible = elig, be_registryRouter = registryRouter, be_router = de_router D,
          be_timelockIsRegistryAdmin = admin, be_votedWeightsActive = voted, be_defaultVaults = dv, be_hasCode = has\<rparr>))))))))"

definition retire_check :: "demand_env \<Rightarrow> RetireWant \<Rightarrow> moment \<Rightarrow> failure + unit" where
  "retire_check D want k =
     res_bind (retire_before D want k) (\<lambda>b. ensure (retireBeforeProblems want (final_vaults D want) b = []) govern_failure)"

definition retire_read_back :: "demand_env \<Rightarrow> RetireWant \<Rightarrow> moment \<Rightarrow> failure + string list" where
  "retire_read_back D want k =
     res_bind (de_vaultStatus D k (rw_vault want)) (\<lambda>status.
     res_bind (de_defaultWeights D k) (\<lambda>(dv, db).
     res_bind (de_effectiveWeights D k) (\<lambda>(ev, eb).
     res_bind (de_voted D k) (\<lambda>voted.
     res_bind (de_hasCode D k (rw_vault want)) (\<lambda>has.
     res_bind (de_isEligible D k (rw_vault want)) (\<lambda>elig.
     res_bind (de_eligibleCount D k) (\<lambda>count'.
     res_bind (de_retiredFlag D k (rw_vault want)) (\<lambda>flag.
     Inr (retireReadBackProblems (final_vaults D want) (final_bps want)
       \<lparr>rt_status = status, rt_eligible = elig, rt_eligibleCount = count', rt_votedWeightsActive = voted, rt_defaultVaults = dv, rt_defaultBps = db,
        rt_effectiveVaults = ev, rt_effectiveBps = eb, rt_retiredFlag = flag, rt_hasCode = has\<rparr>)))))))))"

definition record_retire :: "demand_env \<Rightarrow> RetireWant \<Rightarrow> unit act" where
  "record_retire D want =
     record_entry D (retireRecordKey (rw_vault want)) ''vault_retirements'' ''operation_id'' (\<lambda>r. Some
       ([(''step'', JStr RETIRE_ROW), (''round'', round_js r), (''vault'', JStr (rw_vault want)), (''registry'', JStr (de_registry D)),
         (''router'', JStr (de_router D)), (''timelock'', JStr (ge_timelock (de_env D))), (''vaults'', js_addresses (final_vaults D want)),
         (''bps'', JArr (map JNum (final_bps want)))] @ observed_fields r))"

definition open_retire :: "demand_env \<Rightarrow> nat \<Rightarrow> RetireWant \<Rightarrow> LabelledCall list \<Rightarrow> unit act" where
  "open_retire D fuel want calls =
     (let E = de_env D; name = retireRecordKey (rw_vault want) in
      act_bind (act_get (labelOf name)) (\<lambda>label.
      let o' = demand_order E calls label Batch in
      act_bind (operation_of E o') (\<lambda>oid.
      act_bind (check_prior name oid) (\<lambda>_.
      act_bind (fresh_round E name oid) (\<lambda>fresh.
      act_bind (if fresh then chain_read (retire_check D want) else act_ret ()) (\<lambda>_.
      act_bind (open_record name []) (\<lambda>_.
      run_round E fuel name
        (demand_plan E o' oid (RETIRE_ROW @ '' '' @ rw_vault want @ '': '' @ join_semi (map lcl_label calls))
          (RETIRE_ROW @ '' execute '' @ rw_vault want) (retire_check D want) (retire_read_back D want) (observed_weights D))
        RETIRE_ROW)))))))"

definition retire_row :: "demand_env \<Rightarrow> nat \<Rightarrow> RetireWant \<Rightarrow> unit act" where
  "retire_row D fuel want =
     (let E = de_env D; name = retireRecordKey (rw_vault want) in
      act_bind (act_res (buildRetireCalls (de_viem D) (de_registry D) (rw_vault want) (final_vaults D want) (final_bps want))) (\<lambda>calls.
      act_bind (requeue E name (cancelledKey name)) (\<lambda>_.
      act_bind (act_get (w_row name)) (\<lambda>cur.
      act_bind (if rowComplete cur then reprint name else open_retire D fuel want calls) (\<lambda>_.
      act_bind (record_retire D want) (\<lambda>_. save E))))))"

section \<open>apply-receipt and release-receipt\<close>

fun eligible_now :: "demand_env \<Rightarrow> string list \<Rightarrow> string list act" where
  "eligible_now D [] = act_ret []"
| "eligible_now D (v # vs) =
     act_bind (chain_read (\<lambda>k. de_isEligible D k v)) (\<lambda>b.
     act_bind (eligible_now D vs) (\<lambda>rest. act_ret (if b then v # rest else rest)))"

text \<open>What is read of the receipt before the plan is made.\<close>

definition read_receipt :: "demand_env \<Rightarrow> string \<Rightarrow> (bool \<times> bool \<times> (string \<times> int) option \<times> int option) act" where
  "read_receipt D receiptId =
     act_bind (chain_read (\<lambda>k. de_recorded D k receiptId)) (\<lambda>recorded.
     if \<not> recorded then act_ret (False, False, None, None)
     else act_bind (chain_read (\<lambda>k. de_released D k receiptId)) (\<lambda>released.
          act_bind (chain_read (\<lambda>k. de_receiptById D k receiptId)) (\<lambda>r.
          act_bind (chain_read (de_lastApplied D)) (\<lambda>last'.
          act_ret (True, released, Some r, Some last')))))"

definition apply_check :: "demand_env \<Rightarrow> string \<Rightarrow> moment \<Rightarrow> failure + unit" where
  "apply_check D receiptId k =
     res_bind (de_released D k receiptId) (\<lambda>released.
     res_bind (ensure (\<not> released) govern_failure) (\<lambda>_.
     res_bind (de_receiptById D k receiptId) (\<lambda>(_, at').
     res_bind (de_lastApplied D k) (\<lambda>last'.
     ensure (last' < at') govern_failure))))"

definition apply_read_back :: "demand_env \<Rightarrow> string \<Rightarrow> WeightVector \<Rightarrow> moment \<Rightarrow> failure + string list" where
  "apply_read_back D receiptId v k =
     res_bind (de_weights D k) (\<lambda>(av, ab).
     res_bind (de_effectiveWeights D k) (\<lambda>(ev, eb).
     res_bind (de_voted D k) (\<lambda>voted.
     res_bind (de_released D k receiptId) (\<lambda>released.
     Inr (applyReadBackProblems receiptId released
       \<lparr>rb_activeVaults = av, rb_activeBps = ab, rb_effectiveVaults = ev, rb_effectiveBps = eb, rb_votedWeightsActive = voted\<rparr> v)))))"

definition record_application :: "demand_env \<Rightarrow> string \<Rightarrow> unit act" where
  "record_application D receiptId =
     record_entry D (applyRecordKey receiptId) ''receipt_applications'' ''receipt_id'' (\<lambda>r.
       if jnullish (jget (rr_rest r) ''apply'') then None
       else Some
         ([(''step'', JStr APPLY_ROW), (''receipt_id'', JStr receiptId), (''target'', JStr (de_governance D)), (''governance'', JStr (de_governance D))]
          @ map (\<lambda>f. (f, jget (jget (rr_rest r) ''apply'') f)) [''vaults'', ''bps'', ''payload_digest''] @ observed_fields r))"

definition open_apply :: "demand_env \<Rightarrow> nat \<Rightarrow> string \<Rightarrow> string \<Rightarrow> unit act" where
  "open_apply D fuel receiptId payload =
     (let E = de_env D; name = applyRecordKey receiptId; digest = receiptPayloadDigest (de_keccak D) payload in
      act_bind (read_receipt D receiptId) (\<lambda>(recorded, released, r, lastApplied).
      act_bind (chain_read (de_listVaults D)) (\<lambda>listed.
      act_bind (eligible_now D listed) (\<lambda>elig.
      act_bind (act_get (\<lambda>w. Option.bind (w_row name w) rr_scheduled \<noteq> None)) (\<lambda>inFlight.
      act_bind (act_res (planApply (de_keccak D) (de_parseJson D)
        \<lparr>ai_receiptId = receiptId, ai_payload = payload, ai_recorded = recorded, ai_released = released, ai_storedDigest = map_option fst r,
         ai_recordedAt = map_option Product_Type.snd r, ai_lastAppliedRecordedAt = lastApplied, ai_eligible = elig, ai_vaultOf = ge_vaults E,
         ai_inFlight = inFlight\<rparr>)) (\<lambda>v.
      act_bind (act_res (buildApplyCall (de_viem D) (de_governance D) receiptId digest v)) (\<lambda>c.
      let o' = demand_order E [c] name Single in
      act_bind (operation_of E o') (\<lambda>oid.
      act_bind (check_prior name oid) (\<lambda>_.
      act_bind (open_record name [(''apply'', JObj [(''vaults'', js_addresses (wv_vaults v)), (''bps'', JArr (map JNum (wv_bps v))), (''payload_digest'', JStr digest)])]) (\<lambda>_.
      run_round E fuel name
        (demand_plan E o' oid (APPLY_ROW @ '': '' @ lcl_label c) (APPLY_ROW @ '' execute'') (apply_check D receiptId) (apply_read_back D receiptId v)
          (observed_weights D))
        APPLY_ROW))))))))))"

definition apply_row :: "demand_env \<Rightarrow> nat \<Rightarrow> string option \<Rightarrow> string option \<Rightarrow> unit act" where
  "apply_row D fuel receiptArg payloadArg =
     (let E = de_env D in
      act_bind (act_res (of_option usage_error receiptArg)) (\<lambda>ra.
      act_bind (act_res (of_option usage_error payloadArg)) (\<lambda>file.
      act_bind (act_res (assertReceiptId ra)) (\<lambda>receiptId.
      act_bind (act_res (of_option usage_error (de_readFile D file))) (\<lambda>payload.
      let name = applyRecordKey receiptId in
      act_bind (requeue E name (\<lambda>_ k. name @ '':cancelled-'' @ show_nat k)) (\<lambda>_.
      act_bind (act_get (w_row name)) (\<lambda>cur.
      act_bind (if rowComplete cur then reprint_as name APPLY_ROW else open_apply D fuel receiptId payload) (\<lambda>_.
      act_bind (record_application D receiptId) (\<lambda>_. save E)))))))))"

definition release_read_back :: "demand_env \<Rightarrow> string \<Rightarrow> moment \<Rightarrow> failure + string list" where
  "release_read_back D receiptId k =
     res_bind (de_released D k receiptId) (\<lambda>b. Inr (unless b (''receipt.isReleased('' @ receiptId @ '') is false'')))"

definition release_row :: "demand_env \<Rightarrow> nat \<Rightarrow> string option \<Rightarrow> unit act" where
  "release_row D fuel receiptArg =
     (let E = de_env D in
      act_bind (act_res (of_option usage_error receiptArg)) (\<lambda>ra.
      act_bind (act_res (assertReceiptId ra)) (\<lambda>receiptId.
      act_bind (chain_read (\<lambda>k. de_hasRole D k (de_receipt D) (roleId (de_keccak D) ''RECEIPT_RELEASER_ROLE'') (de_governance D))) (\<lambda>narrow.
      act_bind (if narrow then act_ret True
                else chain_read (\<lambda>k. de_hasRole D k (de_receipt D) (roleId (de_keccak D) ''ADMIN_ROLE'') (de_governance D))) (\<lambda>refused.
      if refused then usage_act
      else let name = releaseRecordKey receiptId in
      act_bind (act_res (buildReleaseCall (de_viem D) (de_receipt D) receiptId)) (\<lambda>c.
      let o' = demand_order E [c] name Single in
      act_bind (operation_of E o') (\<lambda>oid.
      act_bind (check_prior name oid) (\<lambda>_.
      act_bind (act_get (w_row name)) (\<lambda>cur.
      act_bind
        (if rowComplete cur then reprint_as name RECEIPT_ROW
         else act_bind (fresh_round E name oid) (\<lambda>fresh.
              act_bind (if fresh
                        then act_bind (chain_read (\<lambda>k. de_recorded D k receiptId)) (\<lambda>recorded.
                             if \<not> recorded then govern_error
                             else act_bind (chain_read (\<lambda>k. de_released D k receiptId)) (\<lambda>released. if released then govern_error else act_ret ()))
                        else act_ret ()) (\<lambda>_.
              run_round E fuel name
                (demand_plan E o' oid (RECEIPT_ROW @ '': '' @ lcl_label c) (RECEIPT_ROW @ '' execute'') no_checks (release_read_back D receiptId) nothing_observed)
                RECEIPT_ROW))) (\<lambda>_.
      save E))))))))))"

section \<open>set-unwind-guard\<close>

text \<open>The vault's active assets in its own order: the list ends where the read of the next index fails, at most at 64.\<close>

fun active_assets :: "demand_env \<Rightarrow> string \<Rightarrow> nat \<Rightarrow> nat \<Rightarrow> string list act" where
  "active_assets D vault i 0 = act_ret []"
| "active_assets D vault i (Suc n) =
     act_bind (chain_read (\<lambda>k. Inr (de_asset D k vault i))) (\<lambda>r.
     case r of
       None \<Rightarrow> act_ret []
     | Some (a, on) \<Rightarrow>
         if on then act_bind (act_res (of_option PlainError (getAddress (de_viem D) (js_String a)))) (\<lambda>addr.
                    act_bind (active_assets D vault (Suc i) n) (\<lambda>rest. act_ret (addr # rest)))
         else active_assets D vault (Suc i) n)"

definition guards_now :: "demand_env \<Rightarrow> string \<Rightarrow> string list \<Rightarrow> moment \<Rightarrow> failure + GuardRead list" where
  "guards_now D vault tokens k =
     map_res (\<lambda>t. res_bind (de_guard D k vault t) (\<lambda>(m, ov, l).
       Inr \<lparr>gr_token = t, gr_minUsdcOut = m, gr_overrideAllowed = ov, gr_maxLossBps = l\<rparr>)) tokens"

definition show_guards :: "GuardRead list \<Rightarrow> string" where
  "show_guards gs = join '', '' (map (\<lambda>g. gr_token g @ '' '' @ guard_text g) gs)"

definition guard_record :: "demand_env \<Rightarrow> UnwindGuardWant \<Rightarrow> string list \<Rightarrow> js" where
  "guard_record D want tokens =
     JObj [(''vault'', JStr (uw_vault want)), (''vault_address'', JStr (ge_vaults (de_env D) (uw_vault want))), (''tokens'', js_addresses tokens),
           (''min_usdc_out'', JStr (show_int (uw_minUsdcOut want))), (''override_allowed'', JBool (uw_overrideAllowed want)),
           (''max_loss_bps'', JNum (uw_maxLossBps want))]"

definition record_guard :: "demand_env \<Rightarrow> string \<Rightarrow> unit act" where
  "record_guard D name =
     record_entry D name ''unwind_guards'' ''operation_id'' (\<lambda>r.
       if jnullish (jget (rr_rest r) ''guard'') then None
       else Some
         ([(''step'', JStr UNWIND_GUARD_ROW), (''key'', JStr name), (''round'', round_js r)] @ entries (jget (rr_rest r) ''guard'')
          @ [(''timelock'', JStr (ge_timelock (de_env D)))]))"

text \<open>A round that is not complete. The answer is whether the guard was found in effect and the row recorded as skipped.\<close>

definition open_guard :: "demand_env \<Rightarrow> nat \<Rightarrow> UnwindGuardWant \<Rightarrow> string \<Rightarrow> string list \<Rightarrow> LabelledCall list \<Rightarrow> bool act" where
  "open_guard D fuel want name tokens calls =
     (let E = de_env D; vault = ge_vaults E (uw_vault want) in
      act_bind (act_get (labelOf name)) (\<lambda>label.
      let o' = demand_order E calls label (if length calls = 1 then Single else Batch) in
      act_bind (operation_of E o') (\<lambda>oid.
      act_bind (check_prior name oid) (\<lambda>_.
      act_bind (chain_read (guards_now D vault tokens)) (\<lambda>before'.
      act_bind (fresh_round E name oid) (\<lambda>fresh.
      if fresh \<and> unwindGuardProblems want before' = []
      then act_bind (now_act E) (\<lambda>t.
           act_bind (act_upd (\<lambda>w. set_row name ((row_or_first (w_row name w))\<lparr>rr_skipped :=
             Some (t, ''already in effect on chain: '' @ vault_name (uw_vault want) @ '' '' @ show_guards before')\<rparr>) w)) (\<lambda>_.
           act_bind (save E) (\<lambda>_. act_ret True)))
      else
        act_bind (if fresh
                  then act_bind (chain_read (\<lambda>k. de_hasRole D k vault (roleId (de_keccak D) ''ADMIN_ROLE'') (ge_timelock E))) (\<lambda>has.
                       if has then act_ret () else govern_error)
                  else act_ret ()) (\<lambda>_.
        act_bind (open_record name [(''guard'', guard_record D want tokens)]) (\<lambda>_.
        act_bind (run_round E fuel name
          (demand_plan E o' oid
            (UNWIND_GUARD_ROW @ '': '' @ vault_name (uw_vault want) @ '' '' @ vault @ '' from '' @ show_guards before' @ '': '' @ join_semi (map lcl_label calls))
            (UNWIND_GUARD_ROW @ '' execute'') no_checks
            (\<lambda>k. res_bind (guards_now D vault tokens k) (\<lambda>gs. Inr (unwindGuardProblems want gs))) nothing_observed)
          UNWIND_GUARD_ROW) (\<lambda>_. act_ret False)))))))))"

definition guard_row :: "demand_env \<Rightarrow> nat \<Rightarrow> UnwindGuardWant \<Rightarrow> unit act" where
  "guard_row D fuel want =
     (let E = de_env D; vault = ge_vaults E (uw_vault want) in
      act_bind (active_assets D vault 0 64) (\<lambda>active'.
      case unwindGuardTargets want active' of
        Inl _ \<Rightarrow> govern_error
      | Inr tokens \<Rightarrow>
          act_bind (act_res (buildUnwindGuardCalls (de_viem D) vault want tokens)) (\<lambda>calls.
          let name = unwindGuardRecordKey (de_keccak D) (uw_vault want) calls in
          act_bind (act_get (w_row name)) (\<lambda>prev.
          act_bind (case prev of
                      None \<Rightarrow> act_ret ()
                    | Some r \<Rightarrow>
                        if rowComplete prev
                        then act_bind (chain_read (guards_now D vault tokens)) (\<lambda>gs.
                             if unwindGuardProblems want gs = [] then act_ret () else next_round E name r)
                        else requeue E name (cancelledKey name)) (\<lambda>_.
          act_bind (act_get (w_row name)) (\<lambda>cur.
          act_bind (if rowComplete cur then act_bind (reprint_as name UNWIND_GUARD_ROW) (\<lambda>_. act_ret False)
                    else open_guard D fuel want name tokens calls) (\<lambda>skipped'.
          if skipped' then act_ret ()
          else act_bind (record_guard D name) (\<lambda>_. save E)))))))) "

section \<open>The generic call of the Twin chain\<close>

text \<open>\<open>/^[A-Za-z0-9._-]+$/\<close>\<close>

definition label_char :: "char \<Rightarrow> bool" where
  "label_char c = (is_word_char c \<or> c = CHR ''.'' \<or> c = CHR ''-'')"

definition call_label_ok :: "govern_env \<Rightarrow> string \<Rightarrow> bool" where
  "call_label_ok E label =
     (label \<noteq> [] \<and> list_all label_char label \<and> label \<notin> set (GOVERN_ROWS E)
      \<and> label \<notin> set [RECEIPT_ROW, APPLY_ROW, REGISTER_ROW, CLEAR_ROW, REDEPLOY_ROW, RETIRE_ROW, UNWIND_GUARD_ROW])"

definition call_row :: "demand_env \<Rightarrow> nat \<Rightarrow> string \<Rightarrow> string \<Rightarrow> string \<Rightarrow> unit act" where
  "call_row D fuel label addr dt =
     (let E = de_env D; name = ''call-'' @ label; o' = demand_order E [call_to label addr dt] name Single in
      act_bind (act_ensure (call_label_ok E label) usage_error) (\<lambda>_.
      act_bind (operation_of E o') (\<lambda>oid.
      act_bind (check_prior name oid) (\<lambda>_.
      act_bind (act_get (w_row name)) (\<lambda>cur.
      act_bind (if rowComplete cur then reprint_as name name
                else run_round E fuel name
                  (demand_plan E o' oid (name @ '': '' @ label) (name @ '' execute'') no_checks (\<lambda>_. Inr []) nothing_observed) name) (\<lambda>_.
      save E))))))"

section \<open>Self-administration\<close>

definition admin_want :: "RowRecord \<Rightarrow> js" where
  "admin_want r = jget (jget (rr_rest r) ''admin'') ''want''"

definition admin_nonce :: "RowRecord \<Rightarrow> int" where
  "admin_nonce r = (case jget (jget (rr_rest r) ''admin'') ''nonce'' of JNum n \<Rightarrow> n | _ \<Rightarrow> 0)"

text \<open>The records of this row that want the same change, newest Safe nonce first.\<close>

definition records_of :: "SelfAdminRow \<Rightarrow> string \<Rightarrow> gworld \<Rightarrow> (string \<times> RowRecord) list" where
  "records_of row wantKey w =
     sort_key (\<lambda>x. - admin_nonce (Product_Type.snd x))
       (filter (\<lambda>x. starts_with (row_text row @ ''-'') (fst x) \<and> admin_want (Product_Type.snd x) = JStr wantKey) (rm_govern (w_mem w)))"

definition admin_fields :: "string option \<Rightarrow> int \<Rightarrow> string \<Rightarrow> js" where
  "admin_fields dt n wantKey =
     JObj ((case dt of None \<Rightarrow> [] | Some d \<Rightarrow> [(''data'', JStr d)]) @ [(''nonce'', JNum n), (''want'', JStr wantKey)])"

definition admin_record :: "string option \<Rightarrow> int \<Rightarrow> string \<Rightarrow> RowRecord" where
  "admin_record dt n wantKey = empty_row\<lparr>rr_rest := JObj [(''admin'', admin_fields dt n wantKey)]\<rparr>"

definition skip_in_effect :: "demand_env \<Rightarrow> SelfAdminRow \<Rightarrow> string \<Rightarrow> int \<Rightarrow> string \<Rightarrow> unit act" where
  "skip_in_effect D row wantKey n reason =
     act_bind (now_act (de_env D)) (\<lambda>t.
     act_bind (act_upd (set_row (row_text row @ ''-'' @ take 8 (drop 2 (de_keccak D wantKey)) @ ''-n'' @ show_int n)
       ((admin_record None n wantKey)\<lparr>rr_skipped := Some (t, reason)\<rparr>))) (\<lambda>_.
     save (de_env D)))"

definition in_effect :: "demand_env \<Rightarrow> SelfAdminRow \<Rightarrow> string \<Rightarrow> (int act) \<Rightarrow> string \<Rightarrow> unit act" where
  "in_effect D row wantKey readNonce reason =
     act_bind (act_get (records_of row wantKey)) (\<lambda>rs.
     case rs of
       x # _ \<Rightarrow> act_bind (reprint (fst x)) (\<lambda>_. save (de_env D))
     | [] \<Rightarrow> act_bind readNonce (\<lambda>n. skip_in_effect D row wantKey n reason))"

definition read_roster :: "demand_env \<Rightarrow> SafeRoster act" where
  "read_roster D =
     act_bind (chain_read (de_owners D)) (\<lambda>os.
     act_bind (chain_read (de_threshold D)) (\<lambda>t. act_ret \<lparr>ro_owners = os, ro_threshold = t\<rparr>))"

text \<open>A change of the Safe itself: one Safe transaction.\<close>

definition send_admin :: "demand_env \<Rightarrow> SelfAdminRow \<Rightarrow> SelfAdminArgs \<Rightarrow> SafeAdminWant \<Rightarrow> SafeRoster \<Rightarrow> int \<Rightarrow> unit act" where
  "send_admin D row a want live n =
     (let E = de_env D in
      act_bind (act_ensure (safeRuleProblem want live (de_safe D) = None) usage_error) (\<lambda>_.
      act_bind (act_res (buildSelfAdminCall (de_viem D) (de_keccak D) row (de_safe D) (ge_timelock E) a (ro_owners live))) (\<lambda>c.
      let name = selfAdminRecordKey (de_keccak D) row (tc_data c) n in
      act_bind (chain_read (\<lambda>k. de_proposeTx D k (de_safe D) (tc_data c) (row_text row) (lcl_label c))) (\<lambda>b.
      act_bind (signAndExecute E name Executed 0 b) (\<lambda>d.
      act_bind (read_roster D) (\<lambda>after.
      if ae_problems (safeAdminEffect want after) \<noteq> [] then govern_error
      else act_bind (now_act E) (\<lambda>t.
        let x = \<lparr>ph_seq = None, ph_at = t, ph_operation_id = None, ph_ready_at = None, ph_tx_hash = er_txHash (Product_Type.snd d),
                 ph_safe_tx_hash = Some (safe_tx_hash (fst d)), ph_status = Some 1, ph_note = None\<rparr> in
        act_bind (act_upd (set_row name ((admin_record (Some (tc_data c)) n (selfAdminWantKey want))\<lparr>rr_executed := Some x\<rparr>))) (\<lambda>_.
        act_bind (save E) (\<lambda>_.
        act_bind (emitPhase (row_text row) Executed x) (\<lambda>_. save E)))))))))) "

definition safe_admin_row :: "demand_env \<Rightarrow> SelfAdminRow \<Rightarrow> SelfAdminArgs \<Rightarrow> unit act" where
  "safe_admin_row D row a =
     act_bind (read_roster D) (\<lambda>live.
     act_bind (act_res (parseSafeAdminArgs (de_viem D) row a)) (\<lambda>want.
     act_bind (chain_read (de_nonce D)) (\<lambda>n.
     let before' = safeAdminEffect want live; wantKey = selfAdminWantKey want in
     if ae_owner before' \<and> ae_threshold before'
     then in_effect D row wantKey (act_ret n)
            (''already in effect on chain: '' @ describeSafeAdminWant want @ '' (no record of it in this run manifest)'')
     else if ae_owner before' \<and> \<not> ae_threshold before' \<and> want_threshold want \<noteq> None \<and> row \<noteq> SafeChangeThreshold then usage_act
     else send_admin D row a want live n)))"

text \<open>A role of the timelock: a round whose target is the timelock itself.\<close>

definition role_read_back :: "demand_env \<Rightarrow> SelfAdminRow \<Rightarrow> string \<Rightarrow> string \<Rightarrow> moment \<Rightarrow> failure + string list" where
  "role_read_back D row role account k =
     res_bind (de_hasRole D k (ge_timelock (de_env D)) role account) (\<lambda>has.
     Inr (unless (has = (row = TimelockGrantRole)) (''timelock.hasRole('' @ role @ '', '' @ account @ '') is '' @ show_bool has)))"

definition role_round :: "demand_env \<Rightarrow> nat \<Rightarrow> SelfAdminRow \<Rightarrow> LabelledCall \<Rightarrow> string \<Rightarrow> string \<Rightarrow> string \<Rightarrow> unit act" where
  "role_round D fuel row c role account name =
     (let E = de_env D; o' = demand_order E [c] name Single in
      act_bind (operation_of E o') (\<lambda>oid.
      act_bind (run_round E fuel name
        (demand_plan E o' oid (row_text row @ '': '' @ lcl_label c) (row_text row @ '' execute'') no_checks (role_read_back D row role account) nothing_observed)
        (row_text row)) (\<lambda>_.
      save E)))"

text \<open>A round scheduled earlier resumes under its own key; else nothing is sent for a role that reads as wanted.\<close>

definition open_role :: "demand_env \<Rightarrow> nat \<Rightarrow> SelfAdminRow \<Rightarrow> LabelledCall \<Rightarrow> string \<Rightarrow> string \<Rightarrow> unit act" where
  "open_role D fuel row c role account =
     (let E = de_env D; wantKey = roleWantKey row role account in
      act_bind (act_get (\<lambda>w. find (\<lambda>x. \<not> rowComplete (Some (Product_Type.snd x))) (records_of row wantKey w))) (\<lambda>open'.
      case open' of
        Some x \<Rightarrow> role_round D fuel row c role account (fst x)
      | None \<Rightarrow>
          act_bind (chain_read (role_read_back D row role account)) (\<lambda>bad.
          if bad = [] then in_effect D row wantKey (chain_read (de_nonce D))
            (''already in effect on chain: '' @ lcl_label c @ '' (no record of it in this run manifest)'')
          else
            act_bind (if row = TimelockRevokeRole
                      then chain_read (\<lambda>k. assertNotLastProposer (de_keccak D) (de_hasRole D k (ge_timelock E)) (de_proposerCount D k) role account)
                      else act_ret ()) (\<lambda>_.
            act_bind (chain_read (de_nonce D)) (\<lambda>n.
            let name = selfAdminRecordKey (de_keccak D) row (tc_data c) n in
            act_bind (act_upd (set_row name (admin_record (Some (tc_data c)) n wantKey))) (\<lambda>_.
            act_bind (save E) (\<lambda>_.
            role_round D fuel row c role account name)))))))"

definition role_row :: "demand_env \<Rightarrow> nat \<Rightarrow> SelfAdminRow \<Rightarrow> SelfAdminArgs \<Rightarrow> unit act" where
  "role_row D fuel row a =
     act_bind (read_roster D) (\<lambda>live.
     act_bind (act_res (buildSelfAdminCall (de_viem D) (de_keccak D) row (de_safe D) (ge_timelock (de_env D)) a (ro_owners live))) (\<lambda>c.
     case decodeCall (de_viem D) (tc_data c) of
       Some (_, [JStr role, JStr account]) \<Rightarrow> open_role D fuel row c role account
     | _ \<Rightarrow> act_throw PlainError))"

section \<open>Which row runs\<close>

datatype demand =
    Clear
  | Retire RetireWant
  | Guard UnwindGuardWant
  | Apply "string option" "string option"
  | Release "string option"
  | Call string string string
  | SafeAdmin SelfAdminRow SelfAdminArgs
  | RoleAdmin SelfAdminRow SelfAdminArgs

fun run_demand :: "demand_env \<Rightarrow> nat \<Rightarrow> demand \<Rightarrow> unit act" where
  "run_demand D fuel Clear = clear_row D fuel"
| "run_demand D fuel (Retire want) = retire_row D fuel want"
| "run_demand D fuel (Guard want) = guard_row D fuel want"
| "run_demand D fuel (Apply r p) = apply_row D fuel r p"
| "run_demand D fuel (Release r) = release_row D fuel r"
| "run_demand D fuel (Call label addr dt) = call_row D fuel label addr dt"
| "run_demand D fuel (SafeAdmin row a) = safe_admin_row D row a"
| "run_demand D fuel (RoleAdmin row a) = role_row D fuel row a"

end
