(* ===== verification/OnDemandSafety.thy ===== *)
theory OnDemandSafety
  imports OnDemand RoundRuns
begin

text \<open>
  What the on-demand rows keep. The locale \<open>row_invariant\<close> extends the contract of an invariant of the rounds to an
  invariant that also stands the edits of the rows a run owns and of the evidence lists; its lemmas carry it through every
  on-demand row, up to the round itself.
\<close>

section \<open>The contract\<close>

lemma keeps_act_res [keeps_intros]: "keeps I (act_res r)" "keeps I usage_act" "keeps I (act_ensure c e)"
  by (simp_all add: act_res_def usage_act_def act_ensure_def keeps_intros split: sum.splits)

lemma keeps_let [keeps_intros]: "(\<And>x. x = v \<Longrightarrow> keeps I (f x)) \<Longrightarrow> keeps I (let x = v in f x)"
  by simp

lemma keeps_res_bind: "(\<And>a. r = Inr a \<Longrightarrow> keeps I (f a)) \<Longrightarrow> keeps I (act_bind (act_res r) f)"
  by (cases r) (simp_all add: act_res_def act_bind_def act_ret_def act_throw_def keeps_def)

locale row_invariant = run_invariant +
  fixes own :: "string \<Rightarrow> bool"
  assumes I_set_row: "own n \<Longrightarrow> I w \<Longrightarrow> I (set_row n r w)"
    and I_rest: "I w \<Longrightarrow> I (set_rest f v w)"
    and own_Nil: "own []"
begin

lemma keeps_own_row: "own n \<Longrightarrow> keeps I (act_upd (\<lambda>w. set_row n (f w) w))"
  by (rule keeps_upd) (rule I_set_row)

lemma keeps_plain_row: "own n \<Longrightarrow> keeps I (act_upd (set_row n r))"
  by (rule keeps_upd) (rule I_set_row)

lemma keeps_shared [keeps_intros]:
  "keeps I (operation_of E o')" "keeps I (check_prior name oid)" "keeps I (fresh_round E name oid)" "keeps I (reprint_as name e)"
  "keeps I (read_roster D)" "keeps I (read_receipt D receiptId)"
  unfolding operation_of_def check_prior_def fresh_round_def reprint_as_def read_roster_def read_receipt_def
  by (intro keeps_intros keeps_chain_read keeps_reads keeps_side)+

lemma keeps_loops [keeps_intros]: "keeps I (eligible_now D vs)" "keeps I (active_assets D vault i n)"
proof -
  show "keeps I (eligible_now D vs)" by (induction vs) (auto intro!: keeps_intros keeps_chain_read)
  show "keeps I (active_assets D vault i n)"
  proof (induction n arbitrary: i)
    case (Suc n)
    then show ?case by (auto intro!: keeps_intros keeps_chain_read split: option.splits)
  qed (auto intro!: keeps_intros)
qed

lemma own_free_key: "(\<And>k. own (key k)) \<Longrightarrow> own (free_key key rows)"
  by (simp add: free_key_def own_Nil split: option.splits)

lemma keeps_requeue:
  assumes "own name" "\<And>n k. own (key n k)"
  shows "keeps I (requeue E name key)"
proof -
  have upd: "keeps I (act_upd (\<lambda>w. set_row name a (set_row (free_key (key n) (f w)) b w)))" for a b n f
    by (rule keeps_upd) (intro I_set_row assms own_free_key)
  show ?thesis unfolding requeue_def by (intro keeps_intros keeps_reads keeps_save upd)
qed

lemma keeps_next_round: "own name \<Longrightarrow> (\<And>n. own (roundKey name n)) \<Longrightarrow> keeps I (next_round E name prev)"
  unfolding next_round_def by (intro keeps_intros keeps_save keeps_upd I_set_row)

lemma keeps_open_record: "own name \<Longrightarrow> keeps I (open_record name fs)"
  unfolding open_record_def by (rule keeps_own_row)

lemma keeps_record_entry [keeps_intros]: "keeps I (record_entry D name l i f)"
  unfolding record_entry_def by (intro keeps_intros keeps_chain_read keeps_save keeps_upd I_rest)

lemma keeps_retire_row:
  assumes own: "own name" "\<And>n k. own (cancelledKey name n k)" and name: "name = retireRecordKey (rw_vault want)"
    and round: "\<And>o' oid s x. keeps I (run_round (de_env D) fuel name
      (demand_plan (de_env D) o' oid s x (retire_check D want) (retire_read_back D want) (observed_weights D)) RETIRE_ROW)"
  shows "keeps I (retire_row D fuel want)"
  unfolding retire_row_def open_retire_def record_retire_def name [symmetric] Let_def
  by (intro keeps_intros keeps_chain_read keeps_save keeps_reprint keeps_requeue own keeps_open_record round)

lemma keeps_open_apply:
  assumes own: "own (applyRecordKey r)"
    and round: "\<And>v o' oid s x. keeps I (run_round (de_env D) fuel (applyRecordKey r)
      (demand_plan (de_env D) o' oid s x (apply_check D r) (apply_read_back D r v) (observed_weights D)) APPLY_ROW)"
  shows "keeps I (open_apply D fuel r payload)"
  unfolding open_apply_def Let_def by (intro keeps_intros keeps_chain_read keeps_save own keeps_open_record round)

lemma keeps_apply_row:
  assumes own: "\<And>r. own (applyRecordKey r)" "\<And>r k. own (applyRecordKey r @ '':cancelled-'' @ show_nat k)"
    and round: "\<And>r v o' oid s x a. ra = Some a \<Longrightarrow> assertReceiptId a = Inr r \<Longrightarrow> keeps I (run_round (de_env D) fuel (applyRecordKey r)
      (demand_plan (de_env D) o' oid s x (apply_check D r) (apply_read_back D r v) (observed_weights D)) APPLY_ROW)"
  shows "keeps I (apply_row D fuel ra pa)"
  unfolding apply_row_def record_application_def Let_def
proof (intro keeps_res_bind)
  fix a f r p assume "of_option usage_error ra = Inr a" "assertReceiptId a = Inr r"
  then have "keeps I (open_apply D fuel r p)"
    by (intro keeps_open_apply own round) (auto simp: of_option_def split: option.splits)
  then show "keeps I (act_bind (requeue (de_env D) (applyRecordKey r) (\<lambda>_ k. applyRecordKey r @ '':cancelled-'' @ show_nat k)) (\<lambda>_.
      act_bind (act_get (w_row (applyRecordKey r))) (\<lambda>cur.
      act_bind (if rowComplete cur then reprint_as (applyRecordKey r) APPLY_ROW else open_apply D fuel r p) (\<lambda>_.
      act_bind (record_entry D (applyRecordKey r) ''receipt_applications'' ''receipt_id'' (\<lambda>ra.
        if jnullish (jget (rr_rest ra) ''apply'') then None
        else Some
          ([(''step'', JStr APPLY_ROW), (''receipt_id'', JStr r), (''target'', JStr (de_governance D)), (''governance'', JStr (de_governance D))]
           @ map (\<lambda>f. (f, jget (jget (rr_rest ra) ''apply'') f)) [''vaults'', ''bps'', ''payload_digest''] @ observed_fields ra)))
        (\<lambda>_. save (de_env D))))))"
    by (intro keeps_intros keeps_save keeps_requeue own)
qed

lemma keeps_clear_row:
  assumes own: "own CLEAR_ROW" "\<And>n k. own (cancelledKey CLEAR_ROW n k)" "\<And>n. own (roundKey CLEAR_ROW n)"
    and round: "\<And>o' oid s x. keeps I (run_round (de_env D) fuel CLEAR_ROW
      (demand_plan (de_env D) o' oid s x no_checks (clear_read_back D) (observed_weights D)) CLEAR_ROW)"
  shows "keeps I (clear_row D fuel)"
  unfolding clear_row_def open_clear_def record_clear_def Let_def
  by (intro keeps_intros keeps_chain_read keeps_save keeps_reprint keeps_requeue keeps_next_round own keeps_open_record round)

end


text \<open>An invariant that every round of a row of its own keeps.\<close>

locale round_invariant = row_invariant +
  assumes I_signed: "own n \<Longrightarrow> keeps I (signAndExecute E n ph s b)"
    and I_round: "own n \<Longrightarrow> keeps I (run_round E fuel n p e)"
    and own_rows: "n \<noteq> [] \<Longrightarrow> hd n \<noteq> CHR ''u'' \<Longrightarrow> own n"
begin

lemma own_keys:
  "own CLEAR_ROW" "own (cancelledKey CLEAR_ROW i k)" "own (roundKey CLEAR_ROW i)"
  "own (retireRecordKey v)" "own (cancelledKey (retireRecordKey v) i k)"
  "own (applyRecordKey r)" "own (applyRecordKey r @ '':cancelled-'' @ show_nat k)" "own (releaseRecordKey r)"
  "own (unwindGuardRecordKey h v cs)" "own (cancelledKey (unwindGuardRecordKey h v cs) i k)" "own (roundKey (unwindGuardRecordKey h v cs) i)"
  "own (''call-'' @ label)"
  by (rule own_rows; simp add: CLEAR_ROW_def cancelledKey_def roundKey_def retireRecordKey_def RETIRE_ROW_def applyRecordKey_def APPLY_ROW_def
        releaseRecordKey_def RECEIPT_ROW_def unwindGuardRecordKey_def UNWIND_GUARD_ROW_def)+

lemma own_admin: "own (row_text row @ ''-'' @ s)"
  by (rule own_rows; cases row; simp)

lemma own_admin_key: "own (selfAdminRecordKey h row d n)"
  unfolding selfAdminRecordKey_def by (rule own_admin)

lemma keeps_guard_row: "keeps I (guard_row D fuel want)"
  unfolding guard_row_def open_guard_def record_guard_def Let_def
  by (intro keeps_intros keeps_chain_read keeps_reads keeps_save keeps_requeue keeps_next_round own_keys keeps_open_record keeps_own_row I_round)

lemma keeps_release_row: "keeps I (release_row D fuel ra)"
  unfolding release_row_def Let_def by (intro keeps_intros keeps_chain_read keeps_save own_keys I_round)

lemma keeps_call_row: "keeps I (call_row D fuel label addr dt)"
  unfolding call_row_def Let_def by (intro keeps_intros keeps_save own_keys I_round)

lemma keeps_in_effect: "keeps I n \<Longrightarrow> keeps I (in_effect D row wantKey n reason)"
  unfolding in_effect_def skip_in_effect_def
  using own_admin [of row] by (auto intro!: keeps_intros keeps_plain_row split: list.splits)

lemma keeps_safe_admin_row: "keeps I (safe_admin_row D row a)"
  unfolding safe_admin_row_def send_admin_def Let_def
  by (intro keeps_intros keeps_chain_read keeps_save keeps_side keeps_in_effect keeps_plain_row own_admin_key I_signed)

lemma records_own: "find f (records_of row k w) = Some x \<Longrightarrow> own (fst x)"
proof -
  assume "find f (records_of row k w) = Some x"
  then have "x \<in> set (records_of row k w)" by (metis find_Some_iff nth_mem)
  then have "starts_with (row_text row @ ''-'') (fst x)" by (simp add: records_of_def)
  then obtain t where "fst x = row_text row @ ''-'' @ t"
    unfolding starts_with_def by (metis append_assoc append_take_drop_id)
  then show ?thesis using own_admin by metis
qed

lemma keeps_role_round: "own name \<Longrightarrow> keeps I (role_round D fuel row c role account name)"
  unfolding role_round_def Let_def by (intro keeps_intros keeps_save I_round)

lemma keeps_open_role: "keeps I (open_role D fuel row c role account)"
proof -
  have open': "keeps I (act_bind (act_get (\<lambda>w. find f (records_of row k w))) (\<lambda>open'.
      case open' of Some x \<Rightarrow> role_round D fuel row c role account (fst x) | None \<Rightarrow> m))" if "keeps I m" for f k m
    using that records_own keeps_role_round by (fastforce simp: keeps_def act_bind_def act_get_def split: option.splits)
  show ?thesis
    unfolding open_role_def Let_def
    by (rule open') (intro keeps_intros keeps_chain_read keeps_save keeps_in_effect keeps_plain_row own_admin_key keeps_role_round)
qed

lemma keeps_role_row: "keeps I (role_row D fuel row a)"
  unfolding role_row_def by (auto intro!: keeps_intros keeps_open_role split: option.splits list.splits js.splits)

lemma keeps_run_demand: "keeps I (run_demand D fuel d)"
  by (cases d) (auto intro: keeps_clear_row keeps_retire_row keeps_apply_row own_keys I_round keeps_guard_row keeps_release_row keeps_call_row
      keeps_safe_admin_row keeps_role_row)

end

section \<open>The unpauses are left alone\<close>

definition away_inv :: "(string \<Rightarrow> bool) \<Rightarrow> (string \<Rightarrow> RowRecord option) \<Rightarrow> sent list \<Rightarrow> gworld \<Rightarrow> bool" where
  "away_inv P rows0 sent0 w \<longleftrightarrow>
     (\<forall>n. P n \<longrightarrow> w_row n w = rows0 n) \<and> (\<exists>new. gw_sent w = sent0 @ new \<and> (\<forall>s \<in> set new. \<not> P (sd_row s)))"

lemma away_inv_ms:
  "away_inv P rows0 sent0 w \<Longrightarrow> rm_govern (ms_mem s) = rm_govern (w_mem w) \<Longrightarrow> away_inv P rows0 sent0 (w\<lparr>gw_ms := s\<rparr>)"
  by (simp add: away_inv_def w_row_def w_mem_def)

interpretation away: run_invariant "away_inv P rows0 sent0" for P rows0 sent0
proof
  fix w f m assume w: "away_inv P rows0 sent0 w" and "saveRunManifest (ms_file (gw_ms w)) (w_mem w) = (f, m)"
  then show "away_inv P rows0 sent0 (w\<lparr>gw_ms := (gw_ms w)\<lparr>ms_file := f, ms_mem := m\<rparr>\<rparr>)"
    by (intro away_inv_ms [OF w]) (auto simp: saveRunManifest_def Let_def)
next
  fix w s f m assume w: "away_inv P rows0 sent0 w" and "reserveManifestSeq (ms_file (gw_ms w)) (w_mem w) = (s, f, m)"
  then show "away_inv P rows0 sent0 (w\<lparr>gw_ms := (gw_ms w)\<lparr>ms_file := f, ms_mem := m, ms_log := ms_log (gw_ms w) @ [Reserved s]\<rparr>\<rparr>)"
    by (intro away_inv_ms [OF w]) (auto simp: reserveManifestSeq_def Let_def)
qed (auto simp: w_mem_def intro: away_inv_ms, auto simp: away_inv_def w_row_def w_mem_def)

definition opens_by_unpause :: "string \<Rightarrow> bool" where
  "opens_by_unpause n = starts_with ''unpause-'' n"

lemma away_set_row: "\<not> P n \<Longrightarrow> away_inv P rows0 sent0 w \<Longrightarrow> away_inv P rows0 sent0 (set_row n r w)"
  by (auto simp: away_inv_def w_row_set_row) (auto simp: set_row_def)

lemma away_signed: "\<not> P n \<Longrightarrow> keeps (away_inv P rows0 sent0) (signAndExecute E n ph s b)"
proof -
  assume "\<not> P n"
  then have "keeps (away_inv P rows0 sent0) (send E n ph s b)" for b
    by (auto simp: keeps_def send_def away_inv_def w_row_def w_mem_def split: prod.splits)
  then show ?thesis unfolding signAndExecute_def by (intro keeps_intros away.keeps_sign_loop)
qed

lemma away_round: "\<not> P n \<Longrightarrow> keeps (away_inv P rows0 sent0) (run_round E fuel n p e)"
  unfolding run_round_def schedulePhase_def executePhase_def execute_rest_def cancelPhase_def cancel_rest_def
  by (intro keeps_intros away.keeps_chain_read away.keeps_save away.keeps_reserve away.keeps_side away.keeps_reads away.keeps_waitReady away.keeps_refuse
      away_signed keeps_upd away_set_row)

interpretation unpauses: round_invariant "away_inv opens_by_unpause rows0 sent0" "\<lambda>n. \<not> opens_by_unpause n" for rows0 sent0
proof
  show "away_inv opens_by_unpause rows0 sent0 (set_rest f v w)" if "away_inv opens_by_unpause rows0 sent0 w" for w f v
    using that by (auto simp: away_inv_def set_rest_def w_row_def w_mem_def)
  show "\<not> opens_by_unpause n" if "n \<noteq> []" "hd n \<noteq> CHR ''u''" for n
    using that by (cases n) (auto simp: opens_by_unpause_def starts_with_def)
qed (auto simp: opens_by_unpause_def starts_with_def intro: away_set_row away_signed away_round)


section \<open>Executions are checked\<close>

text \<open>
  \<open>G\<close> is what a check has to find. Every execution sent since \<open>sent0\<close> follows a moment at which \<open>G\<close> held, with nothing sent in between but
  transactions of that execution.
\<close>

definition checked_inv :: "(moment \<Rightarrow> bool) \<Rightarrow> sent list \<Rightarrow> gworld \<Rightarrow> bool" where
  "checked_inv G sent0 w \<longleftrightarrow>
     (\<exists>new. gw_sent w = sent0 @ new \<and>
       (\<forall>i < length new. sd_phase (new ! i) = Executed \<longrightarrow>
          (\<exists>t. \<exists>j \<le> i. G (t, length sent0 + j) \<and> (\<forall>m. j \<le> m \<and> m \<le> i \<longrightarrow> sd_phase (new ! m) = Executed))))"

definition check_holds :: "(moment \<Rightarrow> bool) \<Rightarrow> sent list \<Rightarrow> gworld \<Rightarrow> bool" where
  "check_holds G sent0 w \<longleftrightarrow> checked_inv G sent0 w \<and> (\<exists>t. G (t, length (gw_sent w)))"

interpretation checked: row_invariant "checked_inv G sent0" "\<lambda>_. True" for G sent0
  by unfold_locales (simp_all add: checked_inv_def set_row_def set_rest_def)

interpretation holds: run_invariant "check_holds G sent0" for G sent0
  by unfold_locales (simp_all add: check_holds_def checked_inv_def)

lemma checked_more:
  assumes "checked_inv G sent0 w" "\<And>s. s \<in> set txs \<Longrightarrow> sd_phase s = Executed \<Longrightarrow> (\<forall>s \<in> set txs. sd_phase s = Executed) \<and> (\<exists>t. G (t, length (gw_sent w)))"
  shows "checked_inv G sent0 (w\<lparr>gw_tick := n, gw_sent := gw_sent w @ txs\<rparr>)"
proof -
  obtain new where new: "gw_sent w = sent0 @ new"
    and old: "\<And>i. i < length new \<Longrightarrow> sd_phase (new ! i) = Executed \<Longrightarrow>
      \<exists>t. \<exists>j \<le> i. G (t, length sent0 + j) \<and> (\<forall>m. j \<le> m \<and> m \<le> i \<longrightarrow> sd_phase (new ! m) = Executed)"
    using assms(1) by (auto simp: checked_inv_def)
  have "\<exists>t. \<exists>j \<le> i. G (t, length sent0 + j) \<and> (\<forall>m. j \<le> m \<and> m \<le> i \<longrightarrow> sd_phase ((new @ txs) ! m) = Executed)"
    if i: "i < length (new @ txs)" "sd_phase ((new @ txs) ! i) = Executed" for i
  proof (cases "i < length new")
    case True
    with i old [OF True] show ?thesis by (fastforce simp: nth_append)
  next
    case False
    then have mem: "txs ! (i - length new) \<in> set txs" "sd_phase (txs ! (i - length new)) = Executed" using i by (auto simp: nth_append)
    from assms(2) [OF mem] obtain t where "\<forall>s \<in> set txs. sd_phase s = Executed" "G (t, length sent0 + length new)" using new by auto
    moreover have "sd_phase ((new @ txs) ! m) = Executed" if "length new \<le> m \<and> m \<le> i" for m
      using that i(1) \<open>\<forall>s \<in> set txs. sd_phase s = Executed\<close> by (auto simp: nth_append)
    ultimately show ?thesis using False by (intro exI [of _ t] exI [of _ "length new"]) auto
  qed
  then show ?thesis by (auto simp: checked_inv_def new intro!: exI [of _ "new @ txs"])
qed

lemma checked_scheduled: "keeps (checked_inv G sent0) (signAndExecute E n Scheduled s b)"
proof -
  have "keeps (checked_inv G sent0) (send E n Scheduled s b)" for b
    by (auto simp: keeps_def send_def intro!: checked_more split: prod.splits)
  then show ?thesis unfolding signAndExecute_def by (intro keeps_intros checked.keeps_sign_loop)
qed

lemma checked_cancelled: "keeps (checked_inv G sent0) (signAndExecute E n Cancelled s b)"
proof -
  have "keeps (checked_inv G sent0) (send E n Cancelled s b)" for b
    by (auto simp: keeps_def send_def intro!: checked_more split: prod.splits)
  then show ?thesis unfolding signAndExecute_def by (intro keeps_intros checked.keeps_sign_loop)
qed

lemma checked_executed: "leads (check_holds G sent0) (signAndExecute E n Executed s b) (checked_inv G sent0)"
proof -
  have sent: "leads (check_holds G sent0) (send E n Executed s b) (checked_inv G sent0)" for b
    by (auto simp: leads_def check_holds_def send_def intro!: checked_more split: prod.splits)
  have "leads (check_holds G sent0) (act_bind (send E n Executed s b) (\<lambda>res. act_ret (b, res))) (checked_inv G sent0)" for b
    using sent [of b] by (fastforce simp: leads_def act_bind_def act_ret_def split: prod.splits outcome.splits)
  then show ?thesis
    unfolding signAndExecute_def
    by (intro leads_bind [OF holds.keeps_sign_loop]) (auto simp: check_holds_def leads_def govern_error_def act_throw_def split: prod.splits)
qed

lemma checked_call:
  assumes "\<And>k b. g k = Inr b \<Longrightarrow> G k" "\<And>b. leads (check_holds G sent0) (f b) (checked_inv G sent0)"
  shows "keeps (checked_inv G sent0) (act_bind (chain_read g) f)"
  unfolding keeps_def
proof (intro allI impI)
  fix w assume w: "checked_inv G sent0 w"
  let ?w = "w\<lparr>gw_tick := Suc (gw_tick w)\<rparr>"
  have tick: "checked_inv G sent0 ?w" by (rule checked.I_tick) (fact w)
  show "checked_inv G sent0 (Product_Type.snd (act_bind (chain_read g) f w))"
  proof (cases "g (now_of w)")
    case (Inr b)
    then have "check_holds G sent0 ?w" using assms(1) tick by (auto simp: check_holds_def now_of_def)
    then show ?thesis using assms(2) Inr by (simp add: act_bind_def chain_read_def of_res_def leads_def)
  qed (use tick in \<open>simp add: act_bind_def chain_read_def of_res_def\<close>)
qed

lemma checked_sent_then:
  assumes "\<And>d. keeps (checked_inv G sent0) (f d)"
  shows "leads (check_holds G sent0) (act_bind (signAndExecute E n Executed s b) f) (checked_inv G sent0)"
  using checked_executed [of G sent0 E n s b] assms
  by (fastforce simp: leads_def keeps_def act_bind_def split: prod.splits outcome.splits)

lemma checked_rest:
  assumes "\<And>k b. g k = Inr b \<Longrightarrow> G k" "rp_execute p = Some g"
  shows "keeps (checked_inv G sent0) (execute_rest E n p e r)"
  unfolding execute_rest_def act_chain optional_call_def assms(2) option.case
  by (intro keeps_intros checked.keeps_chain_read checked.keeps_reads checked.keeps_save checked.keeps_side checked.keeps_plain_row
      checked_call [OF assms(1)] checked_sent_then) simp_all

lemma checked_round:
  assumes "\<And>k b. g k = Inr b \<Longrightarrow> G k" "rp_execute p = Some g"
  shows "keeps (checked_inv G sent0) (run_round E fuel n p e)"
  unfolding run_round_def schedulePhase_def executePhase_def cancelPhase_def cancel_rest_def
  by (intro keeps_intros checked.keeps_chain_read checked.keeps_save checked.keeps_reserve checked.keeps_side checked.keeps_reads checked.keeps_waitReady
      checked.keeps_refuse checked.keeps_plain_row checked_scheduled checked_cancelled checked_rest [OF assms]) simp_all

lemma check_passes: "res_bind (checks k) f = Inr b \<Longrightarrow> \<exists>u. checks k = Inr u"
  by (cases "checks k") simp_all

lemma checked_start: "keeps (checked_inv G (gw_sent w)) m \<Longrightarrow> checked_inv G (gw_sent w) (Product_Type.snd (m w))"
  by (simp add: keeps_def checked_inv_def)

text \<open>What is read of the chain when the execution of a retirement is built.\<close>

definition retire_ready :: "demand_env \<Rightarrow> RetireWant \<Rightarrow> moment \<Rightarrow> bool" where
  "retire_ready D want k \<longleftrightarrow>
     (\<exists>b. retire_before D want k = Inr b \<and> be_hasCode b \<and> be_status b = STATUS_ACTIVE \<and> be_eligible b \<and> be_timelockIsRegistryAdmin b
       \<and> lc (be_registryRouter b) = lc (de_router D) \<and> \<not> be_votedWeightsActive b \<and> vector_problem want (final_vaults D want) b = [])"

lemma before_router: "retire_before D want k = Inr b \<Longrightarrow> be_router b = de_router D"
  by (auto simp: retire_before_def split: sum.splits prod.splits)

lemma retire_check_ready: "retire_check D want k = Inr u \<Longrightarrow> retire_ready D want k"
  by (auto simp: retire_check_def retire_ready_def retireBeforeProblems_def ensure_def before_router split: if_splits sum.splits)

text \<open>
  C11. A retirement is executed on what the chain says at that point, not on what it said when it was scheduled days before: every transaction
  that executes it follows a moment at which the vault has code, is Active and router-eligible, the registry is linked to the deployment's
  router and administered by the timelock, no voted vector is active and the default vector spans the vault and the three that stay; and
  between that moment and the transaction the run sent nothing but transactions of the same execution.
\<close>

theorem retire_executes_fresh:
  "checked_inv (retire_ready D want) (gw_sent w) (Product_Type.snd (retire_row D fuel want w))"
proof (rule checked_start, rule checked.keeps_retire_row)
  show "keeps (checked_inv (retire_ready D want) (gw_sent w)) (run_round (de_env D) fuel (retireRecordKey (rw_vault want))
      (demand_plan (de_env D) o' oid s x (retire_check D want) (retire_read_back D want) (observed_weights D)) RETIRE_ROW)" for o' oid s x
    by (rule checked_round) (auto simp: demand_plan_def dest!: check_passes intro: retire_check_ready)
qed simp_all

text \<open>What is read of the receipt when the execution of its application is built.\<close>

definition apply_ready :: "demand_env \<Rightarrow> string \<Rightarrow> moment \<Rightarrow> bool" where
  "apply_ready D receiptId k \<longleftrightarrow>
     de_released D k receiptId = Inr False
     \<and> (\<exists>digest at' last'. de_receiptById D k receiptId = Inr (digest, at') \<and> de_lastApplied D k = Inr last' \<and> last' < at')"

lemma apply_check_ready: "apply_check D receiptId k = Inr u \<Longrightarrow> apply_ready D receiptId k"
  by (auto simp: apply_check_def apply_ready_def ensure_def split: if_splits sum.splits prod.splits)

text \<open>
  C12. A receipt is executed only while it may be: every transaction that executes its application follows a moment at which the receipt reads
  unreleased and was recorded after the last receipt applied, with nothing sent in between but transactions of the same execution. So two
  receipts scheduled side by side are never applied oldest last by a run that waited.
\<close>

theorem apply_executes_fresh:
  assumes "assertReceiptId a = Inr receiptId"
  shows "checked_inv (apply_ready D receiptId) (gw_sent w) (Product_Type.snd (apply_row D fuel (Some a) pa w))"
proof (rule checked_start, rule checked.keeps_apply_row)
  fix r v o' oid s x a' assume "Some a = Some a'" "assertReceiptId a' = Inr r"
  with assms have r: "r = receiptId" by simp
  show "keeps (checked_inv (apply_ready D receiptId) (gw_sent w)) (run_round (de_env D) fuel (applyRecordKey r)
      (demand_plan (de_env D) o' oid s x (apply_check D r) (apply_read_back D r v) (observed_weights D)) APPLY_ROW)"
    unfolding r by (rule checked_round) (auto simp: demand_plan_def dest!: check_passes intro: apply_check_ready)
qed simp_all

end
