(* ===== verification/OnDemandRuns.thy ===== *)
theory OnDemandRuns
  imports OnDemandSafety
begin

text \<open>
  Concrete runs of the on-demand rows, through the Safe tool on the scripted chain of the sample rounds: a receipt is applied and a vault is
  retired, each scheduled by the first transaction and executed by the second.
\<close>

definition sample_receipt_id :: string where
  "sample_receipt_id = ''0x'' @ replicate 64 (CHR ''9'')"

text \<open>The reads change with the second transaction, the execution of the round.\<close>

definition demand_vaults :: "nat \<Rightarrow> string list" where
  "demand_vaults n = (if n < 2 then [sample_vault_of ''USDC'', sample_addr ''d4'', sample_vault_of ''RWA'', sample_vault_of ''PROTO''] else sample_stays)"

text \<open>The tool of the sample rounds, which also builds the batches of the timelock.\<close>

definition demand_tool :: tool_viem where
  "demand_tool = rounds_tool\<lparr>vm := sample_codec_safe\<lparr>
     encodeCall := \<lambda>fn as. Some (if fn = ''schedule'' then ''0x01d5062a'' else if fn = ''execute'' then ''0x134008d3''
       else if fn = ''scheduleBatch'' then ''0x8f2a0bb0'' else if fn = ''executeBatch'' then ''0xe38335e5'' else ''0x0ca29fd0''),
     decodeCall := \<lambda>d. if take 10 d = ''0x01d5062a'' then Some (''schedule'', []) else if take 10 d = ''0x134008d3'' then Some (''execute'', [])
       else if take 10 d = ''0x8f2a0bb0'' then Some (''scheduleBatch'', []) else if take 10 d = ''0xe38335e5'' then Some (''executeBatch'', []) else None\<rparr>\<rparr>"

definition demand_govern :: govern_env where
  "demand_govern = (sample_env (\<lambda>_. []))\<lparr>ge_vaults := sample_vault_of, ge_viem := demand_tool, ge_api := realGovernApi (sample_chain\<lparr>tc_viem := demand_tool\<rparr>)\<rparr>"

definition sample_demand :: "bool \<Rightarrow> demand_env" where
  "sample_demand applying =
     \<lparr>de_env = demand_govern, de_safe = sample_addr ''aa'', de_registry = sample_addr ''f6'',
      de_router = sample_addr ''e5'', de_governance = sample_addr ''f7'', de_receipt = sample_addr ''f8'',
      de_recorded = (\<lambda>_ _. Inr True), de_released = (\<lambda>(t, n) _. Inr (2 \<le> n)),
      de_receiptById = (\<lambda>_ _. Inr (receiptPayloadDigest (\<lambda>_. ''0x'' @ replicate 64 (CHR ''7'')) ''{}'', 20)), de_lastApplied = (\<lambda>_. Inr 10),
      de_listVaults = (\<lambda>_. Inr (if applying then wv_vaults sample_vector else demand_vaults 0)), de_isEligible = (\<lambda>(t, n) v. Inr (applying \<or> n < 2)),
      de_weights = (\<lambda>_. Inr (wv_vaults sample_vector, wv_bps sample_vector)),
      de_defaultWeights = (\<lambda>(t, n). Inr (demand_vaults n, [9500, 500, 0])),
      de_effectiveWeights = (\<lambda>(t, n). Inr (if applying then (wv_vaults sample_vector, wv_bps sample_vector) else (demand_vaults n, [9500, 500, 0]))),
      de_voted = (\<lambda>(t, n). Inr (applying \<and> 2 \<le> n)), de_vaultStatus = (\<lambda>(t, n) _. Inr (if n < 2 then 0 else 2)),
      de_registryRouter = (\<lambda>_. Inr (sample_addr ''e5'')), de_eligibleCount = (\<lambda>_. Inr 3), de_retiredFlag = (\<lambda>_ _. Inr True),
      de_hasCode = (\<lambda>_ _. Inr True), de_hasRole = (\<lambda>_ _ _ _. Inr True), de_proposerCount = (\<lambda>_. Inr 1), de_asset = (\<lambda>_ _ _. None),
      de_guard = (\<lambda>_ _ _. Inr (0, False, 0)), de_timestamp = (\<lambda>_ _. Inr 1000), de_owners = (\<lambda>_. Inr []), de_threshold = (\<lambda>_. Inr 2), de_nonce = (\<lambda>_. Inr 7),
      de_proposeTx = (\<lambda>_ _ _ _ _. Inl PlainError), de_readFile = (\<lambda>_. Some ''{}''), de_parseJson = (\<lambda>_. Some sample_payload_doc)\<rparr>"

definition demand_world :: gworld where
  "demand_world = sample_world\<lparr>gw_ms := manifest_start (fresh_manifest\<lparr>rm_rest := JObj []\<rparr>)\<rparr>"

definition applied_run :: "unit outcome \<times> gworld" where
  "applied_run = apply_row (sample_demand True) 5 (Some sample_receipt_id) (Some ''receipt.json'') demand_world"

definition retired_run :: "unit outcome \<times> gworld" where
  "retired_run = retire_row (sample_demand False) 5 sample_retire demand_world"

section \<open>The properties at these runs\<close>

theorem apply_executes_fresh_witness:
  "assertReceiptId sample_receipt_id = Inr sample_receipt_id
   \<and> checked_inv (apply_ready (sample_demand True) sample_receipt_id) [] (Product_Type.snd applied_run)
   \<and> apply_ready (sample_demand True) sample_receipt_id (0, 1) \<and> \<not> apply_ready (sample_demand True) sample_receipt_id (0, 2)"
proof -
  have r: "assertReceiptId sample_receipt_id = Inr sample_receipt_id" by code_simp
  have "gw_sent demand_world = []" by (simp add: demand_world_def sample_world_def)
  with apply_executes_fresh [OF r, of "sample_demand True" demand_world 5 "Some ''receipt.json''"]
  show ?thesis by (simp add: r applied_run_def apply_ready_def sample_demand_def)
qed

theorem retire_executes_fresh_witness:
  "checked_inv (retire_ready (sample_demand False) sample_retire) [] (Product_Type.snd retired_run)
   \<and> retire_ready (sample_demand False) sample_retire (0, 1) \<and> \<not> retire_ready (sample_demand False) sample_retire (0, 2)"
proof -
  have sent: "gw_sent demand_world = []" by (simp add: demand_world_def sample_world_def)
  have "is_ok (retire_check (sample_demand False) sample_retire (0, 1))" by code_simp
  then have "retire_ready (sample_demand False) sample_retire (0, 1)" by (auto simp: is_ok_iff intro: retire_check_ready)
  moreover have "\<not> retire_ready (sample_demand False) sample_retire (0, 2)"
    by (simp add: retire_ready_def retire_before_def sample_demand_def STATUS_ACTIVE_def)
  ultimately show ?thesis
    using retire_executes_fresh [of "sample_demand False" sample_retire demand_world 5] by (simp add: retired_run_def sent)
qed


end
