(* ===== verification/Spec2Isabelle.thy ===== *)
theory Spec2Isabelle
  imports Amounts Settings GatewayVerify CodePins WriteGuard Policy Preview Router DepositState SafeProposal Registration
    StageTable Stages Floors SafeTool ControlProof RunManifest Rounds RoundSafety RoundHistory RoundRuns PauseAll PauseSafety
    SheetText SheetParse SheetRules SheetRuns ReceiptRows VaultRows AdminRows OnDemand OnDemandSafety OnDemandRuns
begin

text \<open>
  \<^bold>\<open>Verification of the Robot Money TypeScript code.\<close>

  \<^bold>\<open>The program.\<close> The repository holds two TypeScript programs around the vault contracts on Base. The dapp
  (clients/dapp) prepares, previews and sends the transactions of depositors, agent owners and admins; it
  keeps a write away from the wallet unless the contract that receives it is the one the build expects. The
  publishing tool (publish-contracts) deploys the contracts stage by stage from a table, hands control over
  to a timelock whose proposer is a Safe, and operates that Safe. The two meet in the Safe transaction bundle:
  a file the dapp's proposal page writes and reads and the tool signs, imports and executes.

  \<^bold>\<open>The theories, in the order of the code.\<close> Paths are under src/.

  \<^item> \<open>JsPrelude\<close> is the shared base: results as sums (\<open>res_bind\<close>, \<open>ensure\<close>, \<open>map_res\<close>), JavaScript values (\<open>js\<close>),
    strings, decimal and hex text, and three interfaces as locales: a loop that keeps the first of each key
    (\<open>first_wins\<close>), a loop that checks each distinct key (\<open>checked_loop\<close>) and a sorted store with one entry per
    key (\<open>keyed_store\<close>). \<open>JsDate\<close> prints ISO dates.
  \<^item> \<open>Amounts\<close> (clients/dapp/src/lib/format.ts): printers and readers of token amounts; reading back what was
    printed, and the bounds of an accepted amount.
  \<^item> \<open>Settings\<close> (runtimeConfig.ts, buildEnvValidation.ts, chainClassifier.ts, featureFlags.ts, csp.ts): the overlay
    of a fetched configuration over the build's, the validation of a production build, the security policy.
  \<^item> \<open>GatewayVerify\<close> (gatewayVerifier.ts, verifyGatewayAt.ts, gatewayWriteCheck.tsx) and \<open>CodePins\<close> (codePins.ts):
    the checks of a contract's code and implementation, the reads at one block, the pins of a build.
  \<^item> \<open>WriteGuard\<close> (writeChainGuard.ts, useGuardedWriteContract.ts, redeemGas.ts): the whole guarded write, as a
    function of the wallet's answers and the session's cache to the transactions handed to the wallet; and
    runs of several writes.
  \<^item> \<open>Policy\<close> (agentDestinations.ts, commitReveal.ts, consent.ts, credentialWorkflow.ts, rotation.ts), \<open>Preview\<close>
    (preview.ts, vaultPreview.ts, productReasonCode.ts), \<open>Router\<close> (routerPreview.ts, routerRedeem.ts, depositGas.ts)
    and \<open>DepositState\<close> (vaultDepositState.ts, redeemTarget.ts, indexFreshness.ts): what is built and shown before
    a signature. The two slippage floors of the router share the locale \<open>slippage_floor\<close>.
  \<^item> \<open>Registration\<close> (useConsentedRegistration.ts, useRotationState.ts, RegistrationSteps.tsx, RotationTab.tsx): the
    registration hook as a step relation with asynchronous writes, and the rotation around it.
  \<^item> \<open>SafeProposal\<close> (safeProposal.ts, safeProposalChain.ts): building, bundling, signing, merging and executing a
    Safe transaction in the dapp; the signature set is an interpretation of \<open>keyed_store\<close>.
  \<^item> \<open>PublishBase\<close> (publish-contracts/src/errors.ts, safe/errors.ts, chains.ts, vault-keys.ts): the failures of the
    tool with their exit codes, the chain ids and delay floors, the vault keys, and the JavaScript operators the
    table parser uses on untyped values.
  \<^item> \<open>StageTable\<close> (stage-table.ts) and \<open>Stages\<close> (stages.ts, plan.ts, the nonce part of counts.ts, the contract
    references of core-wiring.ts): the parser of the stage table with every check, the rows of a run, the
    process-wide stage state, and the deployer nonces.
  \<^item> \<open>Floors\<close> (floors.ts, actions-proof.ts, part of sheet.ts and cli.ts): what is refused on mainnet, and the
    verification of the GitHub token behind \<open>CONFIRM=environment\<close>.
  \<^item> \<open>SafeTool\<close> (safe/sig.ts, safe/tx.ts, safe/read-after-write.ts, safe/timelock.ts): the operator's side of a Safe
    transaction and the timelock operations.
  \<^item> \<open>ControlProof\<close> (control-proof.ts, prove-control.ts, the gate of runner.ts): the proof that every owner of the
    Safe can sign, taken before the handover or adopted from the chain; the locale \<open>execution_reader\<close> is what the
    adoption needs of the event scan.
  \<^item> \<open>RunManifest\<close> (the manifest part of runner.ts): the file that a govern run and a pause-all both write, with its
    sequence numbers and merges, and the step relation of the two processes on it.
  \<^item> \<open>Rounds\<close> (govern.ts): the rounds of the unpause rows and of the Twin-only rows, from the plan to the record of
    the execution, as functions of a world. \<open>RoundSafety\<close> and \<open>RoundHistory\<close> hold what every run keeps; their common
    interface is the locale \<open>run_invariant\<close>, interpreted on both invariants. \<open>RoundRuns\<close> holds concrete runs.
  \<^item> \<open>PauseAll\<close> (pause-all.ts, the nonce and receipt waits of runner.ts, the two callers in cli.ts): the pause of every
    vault, as a function of a world in which other processes write the manifest. \<open>PauseSafety\<close> holds what it keeps, over the locales
    \<open>pause_frame\<close> and \<open>pause_invariant\<close>.
  \<^item> \<open>SheetText\<close> and \<open>SheetParse\<close> (sheet.ts, part of vault-rules.ts): the deployment sheet, from its text to the record of a run;
    the record extends the one the floors read. \<open>SheetRules\<close> holds what every parsed sheet satisfies, \<open>SheetRuns\<close> the reading back
    of a written sheet and a concrete one.
  \<^item> \<open>ReceiptRows\<close> (receipt-digest.ts, apply-receipt.ts, clear-voted-weights.ts), \<open>VaultRows\<close> (retire-vault.ts, unwind-guard.ts,
    unwind-guard-twin.ts) and \<open>AdminRows\<close> (the row names, refusals and self-administration of govern.ts): what the on-demand rows of
    the governance stage take as arguments, build as calls, and read before and after. \<open>OnDemand\<close> (govern.ts) runs those rows over the rounds of
    \<open>Rounds\<close>; the rows share their parts (the operation, the plan, the key of a cancelled round, the evidence entry), which the
    code writes out in each. \<open>OnDemandSafety\<close> extends \<open>run_invariant\<close> to \<open>row_invariant\<close> and \<open>round_invariant\<close>, carries an invariant
    through every row and interprets both; \<open>OnDemandRuns\<close> holds concrete runs.

  \<^bold>\<open>State and operations.\<close> A struct is a record with the source's fields, a union a datatype, a thrown error the
  left side of a sum: \<open>failure\<close> in the tool, one datatype per component in the dapp. A function that sends
  returns the transactions it handed over beside its result, so that an error after a send does not hide it.
  Module variables (the stage list) and React state (the registration) are records passed through the
  operations. An asynchronous step of the dapp is a transition of its own, so that other events can come
  between. The chain a govern run talks to is a function of the interactions and the transactions so far, and other
  processes write the manifest file before any of its accesses. A value read several times in one operation, such as the Safe's nonce or an event log, is a sequence
  indexed by the read; the reads of one check of an on-demand row are taken at one moment. The evidence entries of those rows are part of
  the manifest (\<open>rm_rest\<close>).

  \<^bold>\<open>What the lemmas show.\<close> On mainnet no deposit, allowance or gateway write leaves the dapp for code that was not
  checked at one block, every leg of a router deposit is checked, and an exit is never blocked
  (\<open>WriteGuard\<close>). A reveal leaves only with inputs that were frozen, committed and consented (\<open>Registration\<close>), with
  two runs in which the interface opens it for other inputs. A Safe transaction is a plain timelock call whose
  digest is the one shown; bundles survive the file; what the dapp builds and signs the tool accepts
  (\<open>SafeProposal\<close>, \<open>SafeTool\<close>). A table that parses is well formed, its stages run in an order that hands control
  over last, and the nonces the tool expects are the ones a run reaches (\<open>StageTable\<close>, \<open>Stages\<close>). The floors of a
  mainnet run hold whatever the flags and the environment (\<open>Floors\<close>). The handover opens only after every owner
  signed (\<open>ControlProof\<close>). In every interleaving of govern and pause-all the check before an unpause sees exactly the
  pause-alls that came after its schedule (\<open>RunManifest\<close>), so no run executes an unpause that one has overtaken, and a
  default run never reopens a vault (\<open>RoundSafety\<close>, \<open>RoundHistory\<close>). A pause-all records itself before its first transaction,
  always ends with a report, and reports a vault paused only where the chain said so (\<open>PauseSafety\<close>). A sheet that parses is
  plain data with separate keys and limits in range, and on mainnet it is the launch configuration (\<open>SheetRules\<close>). No on-demand row touches
  an unpause; a retirement and the application of a receipt execute only on what the chain says at that point (\<open>OnDemandSafety\<close>); the vector
  that is applied is the receipt's own over the eligible vaults (\<open>ReceiptRows\<close>), a retirement keeps the default vector of the
  vaults that stay and a guard a positive floor (\<open>VaultRows\<close>), and a change of the Safe leaves owners that can act (\<open>AdminRows\<close>).

  \<^bold>\<open>Parameters and hypotheses.\<close> Code outside the repository is an argument: viem's codec and hashes, wallet and
  RPC answers, the Safe SDK, fetch, JSON text, RSA. Theorems name what they need of it: \<open>address_laws\<close> and
  \<open>strict_address_laws\<close> (a checksummed address is an address and keeps its letters up to case), \<open>kit_agrees\<close> (the SDK
  computes the EIP-712 hash), \<open>honest_logs\<close> (an answered log query holds the events of its range), \<open>answers_within\<close>
  (an endpoint answers within the tries), \<open>timelock_reads\<close> (an operation that is done stays done, and nobody else
  schedules one during a phase), \<open>owner_manager\<close> (what the Safe's owner functions do when they do not revert), \<open>manifest_others\<close> (the other processes write the manifest as govern and pause-all do), \<open>clock_laws\<close> (the chain's clock moves and the timelock follows it). Each is shown to hold of a concrete instance in a witness.

  \<^bold>\<open>Bounds and termination.\<close> Every function is total. Loops over data are structural; the retries of a read
  after a write and the windows of a log scan are bounded in the code itself, and the model recurses on that
  bound. Only the wait for the timelock has no bound in the code: \<open>waitReady\<close> takes fuel, running out of it is the
  outcome \<open>StillWaiting\<close>, and \<open>RoundHistory\<close> shows how much is enough. Numbers of the sources that can leave the integers
  (JSON numbers) are \<open>JNum\<close> or \<open>JFloat\<close>; bigints are integers.

  \<^bold>\<open>Not modelled.\<close> Rendering, log texts and error messages; file and process I/O; the printers of binary
  floating point numbers in format.ts; the generated ABI tables; the readers of outside HTTP services; the
  scripts that orchestrate external tools; and, of the publishing tool, the runner that drives forge, the
  rows of govern.ts that register a submitter, replace a vault, freeze or upgrade the proxies, the on-chain verifier and the
  evidence check.
\<close>

end
